(* ===== verification/Py_Base.thy ===== *)
theory Py_Base
  imports Complex_Main "HOL-Library.Word" "HOL-Library.AList" "HOL-Library.Multiset"
    "HOL-Library.List_Lexorder" "HOL-Library.Char_ord" "HOL-Library.Product_Lexorder"
begin

text \<open>
  The prelude of the development. It fixes how the Python constructs the sources use are
  written in HOL, and holds the generic lemmas the component theories share.

  \<^item> Exceptions are values: a fallible function returns \<open>py_error + 'a\<close>, \<open>Inl\<close> being the
    exception raised (its class is the constructor, its message the string). \<open>rbind\<close> is
    sequencing, \<open>checks\<close> is a run of guards each of which raises when its condition holds.
  \<^item> Text is \<open>string\<close>: a list of code points below 256, ordered by code point as Python
    orders \<open>str\<close>.
  \<^item> A \<open>dict\<close> is an association list in insertion order (\<open>map_of\<close> reads it,
    \<open>AList.update\<close> overwrites in place or appends), or a map where its order is never read.
  \<^item> \<open>sorted(xs, key=f)\<close> is \<open>sort_key f xs\<close> (both are stable), \<open>min(xs, key=f)\<close> is
    \<open>py_min_by f\<close>: the first least element.
  Checks of the dynamic type of an argument (\<open>isinstance\<close>) have no counterpart: the HOL
  types rule the other values out.
\<close>

named_theorems result_simps \<open>rewriting of the exception monad\<close>

datatype py_error =
    ValueError string
  | KeyError string
  | IndexError string
  | AssertionError string
  | SimulationConfigurationError string
  | AffiliationConfigurationError string
  | AffiliationConflictError string
  | LegalBuildCompileError string
  | CalculatorImportError string
  | ProtocolDecodeError string
  | ProtocolMismatchError string
  | AffiliationSnapshotFormatError string
  | OverflowError string
  | StructError string
  | CondemnResponseError string
  | TypeError string
  | OSError string
  | RuntimeError string
  | KeyboardInterrupt string
  | GuardSpendingStopped string
  | ZeroDivisionError string
  | RecursionError string
  | AStarRouteNotFound string
  | MapElitesError string

type_synonym 'a result = "py_error + 'a"

subsection \<open>Exceptions as values\<close>

fun rbind :: "'a result \<Rightarrow> ('a \<Rightarrow> 'b result) \<Rightarrow> 'b result" where
  "rbind (Inl e) f = Inl e"
| "rbind (Inr x) f = f x"

fun checks :: "(bool \<times> py_error) list \<Rightarrow> unit result" where
  "checks [] = Inr ()"
| "checks ((bad, e) # cs) = (if bad then Inl e else checks cs)"

fun rmap :: "('a \<Rightarrow> 'b result) \<Rightarrow> 'a list \<Rightarrow> 'b list result" where
  "rmap f [] = Inr []"
| "rmap f (x # xs) = rbind (f x) (\<lambda>y. rbind (rmap f xs) (\<lambda>ys. Inr (y # ys)))"

fun riter :: "('a \<Rightarrow> unit result) \<Rightarrow> 'a list \<Rightarrow> unit result" where
  "riter f [] = Inr ()"
| "riter f (x # xs) = rbind (f x) (\<lambda>_. riter f xs)"

fun rfold :: "('a \<Rightarrow> 's \<Rightarrow> 's result) \<Rightarrow> 'a list \<Rightarrow> 's \<Rightarrow> 's result" where
  "rfold f [] s = Inr s"
| "rfold f (x # xs) s = rbind (f x s) (rfold f xs)"

abbreviation returns :: "'a result \<Rightarrow> bool" where
  "returns r \<equiv> (\<exists>x. r = Inr x)"

lemma rbind_eq_Inr [result_simps]:
  "rbind r f = Inr y \<longleftrightarrow> (\<exists>x. r = Inr x \<and> f x = Inr y)"
  by (cases r) auto

lemma rbind_eq_Inl [result_simps]:
  "rbind r f = Inl e \<longleftrightarrow> r = Inl e \<or> (\<exists>x. r = Inr x \<and> f x = Inl e)"
  by (cases r) auto

lemma rfold_keeps:
  assumes "\<And>x s s'. f x s = Inr s' \<Longrightarrow> P s \<Longrightarrow> P s'" "rfold f xs s = Inr s'" "P s"
  shows "P s'"
  using assms(2,3) by (induction xs arbitrary: s) (auto simp: rbind_eq_Inr dest: assms(1))

lemma rbind_assoc: "rbind (rbind r f) g = rbind r (\<lambda>x. rbind (f x) g)"
  by (cases r) auto

lemma checks_eq_Inr [result_simps]:
  "checks cs = Inr u \<longleftrightarrow> (\<forall>(bad, e) \<in> set cs. \<not> bad)"
  by (induction cs rule: checks.induct) auto

lemma checks_append: "checks (cs @ ds) = rbind (checks cs) (\<lambda>_. checks ds)"
  by (induction cs rule: checks.induct) auto

lemma checks_Inl_mem: "checks cs = Inl e \<Longrightarrow> (True, e) \<in> set cs"
  by (induction cs rule: checks.induct) (auto split: if_splits)

lemma riter_eq_Inr [result_simps]:
  "riter f xs = Inr u \<longleftrightarrow> (\<forall>x \<in> set xs. f x = Inr ())"
  by (induction xs) (auto simp: result_simps)

lemma rmap_map_Inr: "(\<And>x. x \<in> set xs \<Longrightarrow> f (g x) = Inr (h x)) \<Longrightarrow> rmap f (map g xs) = Inr (map h xs)"
  by (induction xs) simp_all

lemma rmap_Inr_iff:
  "rmap f xs = Inr ys \<longleftrightarrow> list_all2 (\<lambda>x y. f x = Inr y) xs ys"
  by (induction xs arbitrary: ys) (auto simp: result_simps list_all2_Cons1)

text \<open>The exceptions a computation may raise.\<close>

definition only_raises :: "(py_error \<Rightarrow> bool) \<Rightarrow> 'a result \<Rightarrow> bool" where
  "only_raises P r \<longleftrightarrow> (\<forall>e. r = Inl e \<longrightarrow> P e)"

named_theorems raises_intros \<open>which exceptions a computation raises\<close>

lemma only_raises_Inr [raises_intros]: "only_raises P (Inr x)"
  by (simp add: only_raises_def)

lemma only_raises_Inl [raises_intros]: "P e \<Longrightarrow> only_raises P (Inl e)"
  by (simp add: only_raises_def)

lemma only_raises_rbind [raises_intros]:
  "only_raises P r \<Longrightarrow> (\<And>x. r = Inr x \<Longrightarrow> only_raises P (f x)) \<Longrightarrow> only_raises P (rbind r f)"
  by (cases r) (auto simp: only_raises_def)

lemma only_raises_checks [raises_intros]: "list_all (\<lambda>(bad, e). P e) cs \<Longrightarrow> only_raises P (checks cs)"
  by (induction cs rule: checks.induct) (auto simp: only_raises_def)

lemma only_raises_case_option [raises_intros]:
  "only_raises P a \<Longrightarrow> (\<And>x. only_raises P (f x)) \<Longrightarrow> only_raises P (case v of None \<Rightarrow> a | Some x \<Rightarrow> f x)"
  by (cases v) simp_all

lemma only_raises_rmap [raises_intros]: "(\<And>x. x \<in> set xs \<Longrightarrow> only_raises P (f x)) \<Longrightarrow> only_raises P (rmap f xs)"
  by (induction xs) (auto intro: raises_intros)

lemma only_raises_riter [raises_intros]: "(\<And>x. x \<in> set xs \<Longrightarrow> only_raises P (f x)) \<Longrightarrow> only_raises P (riter f xs)"
  by (induction xs) (auto intro: raises_intros)

subsection \<open>Text\<close>

definition py_space :: "char \<Rightarrow> bool" where
  "py_space c \<longleftrightarrow> (let n = of_char c :: nat in (9 \<le> n \<and> n \<le> 13) \<or> (28 \<le> n \<and> n \<le> 32) \<or> n = 133 \<or> n = 160)"

definition nonblank :: "string \<Rightarrow> bool" where
  "nonblank s \<longleftrightarrow> list_ex (\<lambda>c. \<not> py_space c) s"

definition py_identifier :: "string \<Rightarrow> string \<Rightarrow> unit result" where
  "py_identifier value field_name =
     (if nonblank value then Inr ()
      else Inl (ValueError (field_name @ '' must be a non-empty string'')))"

lemma py_identifier_Inr [result_simps]: "py_identifier s n = Inr u \<longleftrightarrow> nonblank s"
  by (simp add: py_identifier_def)

lemma nonblank_not_Nil: "nonblank s \<Longrightarrow> s \<noteq> []"
  by (auto simp: nonblank_def)

lemma nonblank_append [simp]: "nonblank (s @ t) \<longleftrightarrow> nonblank s \<or> nonblank t"
  by (simp add: nonblank_def)

text \<open>\<open>str(n)\<close> of an integer and \<open>sep.join(xs)\<close>.\<close>

fun py_str_nat :: "nat \<Rightarrow> string" where
  "py_str_nat n =
     (if n < 10 then [char_of (48 + n)] else py_str_nat (n div 10) @ [char_of (48 + n mod 10)])"

declare py_str_nat.simps [simp del]

definition py_str_int :: "int \<Rightarrow> string" where
  "py_str_int n = (if n < 0 then ''-'' @ py_str_nat (nat (- n)) else py_str_nat (nat n))"

fun py_join :: "string \<Rightarrow> string list \<Rightarrow> string" where
  "py_join sep [] = []"
| "py_join sep [x] = x"
| "py_join sep (x # y # ys) = x @ sep @ py_join sep (y # ys)"

definition optional :: "('a \<Rightarrow> unit result) \<Rightarrow> 'a option \<Rightarrow> unit result" where
  "optional f x = (case x of None \<Rightarrow> Inr () | Some y \<Rightarrow> f y)"

lemma optional_Inr [result_simps]: "optional f x = Inr u \<longleftrightarrow> (\<forall>y. x = Some y \<longrightarrow> f y = Inr ())"
  by (simp add: optional_def split: option.split)

definition validated :: "('a \<Rightarrow> unit result) \<Rightarrow> 'a \<Rightarrow> 'a result" where
  "validated ok x = rbind (ok x) (\<lambda>_. Inr x)"

lemma validated_Inr [result_simps]: "validated ok x = Inr y \<longleftrightarrow> ok x = Inr () \<and> y = x"
  by (auto simp: validated_def result_simps)

lemma validated_ok: "ok x = Inr () \<Longrightarrow> validated ok x = Inr x"
  by (simp add: validated_def)

lemma only_raises_validated [raises_intros]: "only_raises P (ok x) \<Longrightarrow> only_raises P (validated ok x)"
  by (auto simp: validated_def intro: raises_intros)

lemma only_raises_optional [raises_intros]: "(\<And>y. only_raises P (f y)) \<Longrightarrow> only_raises P (optional f x)"
  by (auto simp: optional_def intro: raises_intros split: option.split)

lemma only_raises_py_identifier [raises_intros]:
  "(\<And>m. P (ValueError m)) \<Longrightarrow> only_raises P (py_identifier v n)"
  by (simp add: py_identifier_def only_raises_def)

subsection \<open>Dictionaries\<close>

text \<open>\<open>dict(pairs)\<close>.\<close>

definition dict_of :: "('k \<times> 'v) list \<Rightarrow> ('k \<times> 'v) list" where
  "dict_of pairs = fold (\<lambda>(k, v) d. AList.update k v d) pairs []"

lemma update_fresh: "k \<notin> fst ` set d \<Longrightarrow> AList.update k v d = d @ [(k, v)]"
  by (induction d) auto

lemma dict_of_distinct:
  assumes "distinct (map fst ps)"
  shows "dict_of ps = ps"
proof -
  have "fold (\<lambda>(k, v) d. AList.update k v d) ps d = d @ ps"
    if "distinct (map fst (d @ ps))" for d
    using that
  proof (induction ps arbitrary: d)
    case (Cons p ps)
    obtain k v where p: "p = (k, v)" by (cases p)
    from Cons.prems p have "k \<notin> fst ` set d" by auto
    then have "AList.update k v d = d @ [(k, v)]" by (rule update_fresh)
    moreover have "distinct (map fst ((d @ [(k, v)]) @ ps))" using Cons.prems p by auto
    ultimately show ?case using Cons.IH [of "d @ [(k, v)]"] p by simp
  qed simp
  from this [of "[]"] assms show ?thesis by (simp add: dict_of_def)
qed

lemma set_update_subset: "set (AList.update k v xs) \<subseteq> insert (k, v) (set xs)"
  by (induction xs) auto

lemma set_delete_subset: "set (AList.delete k xs) \<subseteq> set xs"
  by (induction xs) auto

lemma in_update: "x \<in> set (AList.update k v xs) \<Longrightarrow> x = (k, v) \<or> x \<in> set xs"
  using set_update_subset [of k v xs] by blast

lemma in_delete: "x \<in> set (AList.delete k xs) \<Longrightarrow> x \<in> set xs"
  using set_delete_subset [of k xs] by blast

lemma keys_update_mono: "fst ` set xs \<subseteq> fst ` set (AList.update k v xs)"
  by (simp add: update_conv' subset_insertI flip: dom_map_of_conv_image_fst)

subsection \<open>Sorted lists and dictionaries\<close>

lemma distinct_map_sort_key: "distinct (map f (sort_key k xs)) = distinct (map f xs)"
  by (metis mset_map mset_sort mset_eq_imp_distinct_iff)

lemma sort_key_Nil_iff: "sort_key f xs = [] \<longleftrightarrow> xs = []"
  by (metis length_0_conv length_sort)

lemma sort_key_twice [simp]: "sort_key f (sort_key f xs) = sort_key f xs"
  by (simp add: sort_key_id_if_sorted)

lemma map_of_sort_key: "distinct (map fst kvs) \<Longrightarrow> map_of (sort_key f kvs) = map_of kvs"
  by (rule map_of_eqI) (auto simp: distinct_map_sort_key map_of_eq_Some_iff intro: map_of_is_SomeI)

lemma sort_key_map: "sort_key f (map g xs) = map g (sort_key (\<lambda>x. f (g x)) xs)"
proof (induction xs)
  case (Cons x xs)
  have "insort_key f (g x) (map g ys) = map g (insort_key (\<lambda>x. f (g x)) x ys)" for ys
    by (induction ys) auto
  with Cons show ?case by simp
qed simp

lemma sort_key_determined:
  assumes "mset xs = mset ys" "distinct (map f xs)"
  shows "sort_key f xs = sort_key f ys"
  by (rule sort_key_inj_key_eq) (use assms in \<open>simp_all add: distinct_map\<close>)

subsection \<open>The first least element\<close>

fun py_min_by :: "('a \<Rightarrow> 'k::linorder) \<Rightarrow> 'a \<Rightarrow> 'a list \<Rightarrow> 'a" where
  "py_min_by f x [] = x"
| "py_min_by f x (y # ys) = (if f y < f x then py_min_by f y ys else py_min_by f x ys)"

lemma py_min_by_mem: "py_min_by f x ys \<in> insert x (set ys)"
  by (induction f x ys rule: py_min_by.induct) auto

lemma py_min_by_le: "y \<in> insert x (set ys) \<Longrightarrow> f (py_min_by f x ys) \<le> f y"
proof (induction f x ys arbitrary: y rule: py_min_by.induct)
  case (1 f x)
  then show ?case by simp
next
  case (2 f x z zs)
  show ?case
  proof (cases "f z < f x")
    case True
    have "f (py_min_by f z zs) \<le> f z" using "2.IH"(1) [OF True] by simp
    then have "f (py_min_by f z zs) \<le> f x" using True by (rule order.strict_implies_order [OF le_less_trans])
    with True "2.IH"(1) [OF True] "2.prems" show ?thesis by auto
  next
    case False
    have "f (py_min_by f x zs) \<le> f x" using "2.IH"(2) [OF False] by simp
    moreover from this False have "f (py_min_by f x zs) \<le> f z" by (meson not_less order.trans)
    ultimately show ?thesis using False "2.IH"(2) [OF False] "2.prems" by auto
  qed
qed

lemma py_min_by_key: "f (py_min_by f x ys) = Min (f ` insert x (set ys))"
proof (rule Min_eqI [symmetric])
  show "finite (f ` insert x (set ys))" by simp
  show "f (py_min_by f x ys) \<in> f ` insert x (set ys)"
    using py_min_by_mem by (rule imageI)
  show "f (py_min_by f x ys) \<le> k" if "k \<in> f ` insert x (set ys)" for k
    using that py_min_by_le by (metis imageE)
qed

end
