(* ===== verification/Protocol.thy ===== *)
theory Protocol
  imports Py_Base
begin

text \<open>
  The versioned semantic messages (\<^verbatim>\<open>protocol/model.py\<close>) and the cross-message validation
  (\<^verbatim>\<open>protocol/validation.py\<close>). Each frozen dataclass is a record and each
  \<^verbatim>\<open>__post_init__\<close> is a validator \<open>..._ok\<close> that raises as the code raises. A float field
  is a rational number: the values it can hold are the finite binary64 numbers, which the
  code of this component copies and compares and never computes with.
\<close>

subsection \<open>Field checks\<close>

definition require_non_negative :: "int \<Rightarrow> string \<Rightarrow> unit result" where
  "require_non_negative v field_name =
     (if v < 0 then Inl (ValueError (field_name @ '' must be a non-negative integer'')) else Inr ())"

definition require_unique :: "string list \<Rightarrow> string \<Rightarrow> unit result" where
  "require_unique values field_name =
     (if \<not> distinct values then Inl (ValueError (field_name @ '' must not contain duplicates''))
      else riter (\<lambda>v. py_identifier v field_name) values)"

subsection \<open>Enumerations\<close>

datatype entity_kind = ACTOR | PET | SUMMON | STRUCTURE | OBJECTIVE | ITEM | PROJECTILE

fun entity_kind_value :: "entity_kind \<Rightarrow> string" where
  "entity_kind_value ACTOR = ''actor''"
| "entity_kind_value PET = ''pet''"
| "entity_kind_value SUMMON = ''summon''"
| "entity_kind_value STRUCTURE = ''structure''"
| "entity_kind_value OBJECTIVE = ''objective''"
| "entity_kind_value ITEM = ''item''"
| "entity_kind_value PROJECTILE = ''projectile''"

datatype relation = SELF | ALLY | ENEMY | NEUTRAL

fun relation_value :: "relation \<Rightarrow> string" where
  "relation_value SELF = ''self''"
| "relation_value ALLY = ''ally''"
| "relation_value ENEMY = ''enemy''"
| "relation_value NEUTRAL = ''neutral''"

datatype target_kind = TK_NONE | TK_SELF | TK_ENTITY | TK_POSITION | TK_DIRECTION

fun target_kind_value :: "target_kind \<Rightarrow> string" where
  "target_kind_value TK_NONE = ''none''"
| "target_kind_value TK_SELF = ''self''"
| "target_kind_value TK_ENTITY = ''entity''"
| "target_kind_value TK_POSITION = ''position''"
| "target_kind_value TK_DIRECTION = ''direction''"

definition entity_kinds_all :: "entity_kind list" where
  "entity_kinds_all = [ACTOR, PET, SUMMON, STRUCTURE, OBJECTIVE, ITEM, PROJECTILE]"

definition relations_all :: "relation list" where
  "relations_all = [SELF, ALLY, ENEMY, NEUTRAL]"

definition target_kinds_all :: "target_kind list" where
  "target_kinds_all = [TK_NONE, TK_SELF, TK_ENTITY, TK_POSITION, TK_DIRECTION]"

text \<open>\<open>Enum(value)\<close>: the member with that value, or \<open>ValueError\<close>.\<close>

definition enum_of :: "('e \<Rightarrow> string) \<Rightarrow> 'e list \<Rightarrow> string \<Rightarrow> string \<Rightarrow> 'e result" where
  "enum_of val members cls s =
     (case find (\<lambda>m. val m = s) members of
        None \<Rightarrow> Inl (ValueError (s @ '' is not a valid '' @ cls))
      | Some m \<Rightarrow> Inr m)"

subsection \<open>Values carried by messages\<close>

record vector2 =
  vx :: rat
  vy :: rat

record named_scalar =
  ns_name :: string
  ns_value :: rat

definition named_scalar_ok :: "named_scalar \<Rightarrow> unit result" where
  "named_scalar_ok s = py_identifier (ns_name s) ''name''"

record action_binding =
  ab_actor_id :: string
  ab_target_kind :: target_kind
  ab_target_entity_id :: "string option"
  ab_position :: "vector2 option"
  ab_direction :: "vector2 option"
  ab_quantity :: "rat option"
  ab_item_id :: "string option"
  ab_objective_id :: "string option"

definition action_binding_ok :: "action_binding \<Rightarrow> unit result" where
  "action_binding_ok b =
     rbind (py_identifier (ab_actor_id b) ''actor_id'') (\<lambda>_.
     rbind (if ab_target_kind b = TK_ENTITY
            then (case ab_target_entity_id b of
                    None \<Rightarrow> Inl (ValueError ''entity targets require target_entity_id'')
                  | Some t \<Rightarrow> py_identifier t ''target_entity_id'')
            else if ab_target_entity_id b \<noteq> None
            then Inl (ValueError ''target_entity_id is valid only for entity targets'')
            else Inr ()) (\<lambda>_.
     rbind (checks
       [(ab_target_kind b = TK_POSITION \<and> ab_position b = None,
           ValueError ''position targets require position''),
        (ab_target_kind b \<noteq> TK_POSITION \<and> ab_position b \<noteq> None,
           ValueError ''position is valid only for position targets''),
        (ab_target_kind b = TK_DIRECTION \<and> ab_direction b = None,
           ValueError ''direction targets require direction''),
        (ab_target_kind b \<noteq> TK_DIRECTION \<and> ab_direction b \<noteq> None,
           ValueError ''direction is valid only for direction targets''),
        (case ab_quantity b of None \<Rightarrow> False | Some q \<Rightarrow> q \<le> 0,
           ValueError ''quantity must be positive'')]) (\<lambda>_.
     rbind (optional (\<lambda>s. py_identifier s ''item_id'') (ab_item_id b)) (\<lambda>_.
     optional (\<lambda>s. py_identifier s ''objective_id'') (ab_objective_id b)))))"

record entity_observation =
  eo_entity_id :: string
  eo_kind :: entity_kind
  eo_relation :: relation
  eo_position :: vector2
  eo_velocity :: vector2
  eo_scalars :: "named_scalar list"
  eo_tags :: "string list"

definition entity_observation_ok :: "entity_observation \<Rightarrow> unit result" where
  "entity_observation_ok e =
     rbind (py_identifier (eo_entity_id e) ''entity_id'') (\<lambda>_.
     rbind (require_unique (eo_tags e) ''tags'') (\<lambda>_.
     require_unique (map ns_name (eo_scalars e)) ''scalar names''))"

subsection \<open>Messages\<close>

record observation_message =
  om_message_id :: string
  om_observation_id :: string
  om_agent_id :: string
  om_life_id :: string
  om_tick :: int
  om_sim_time_ms :: int
  om_entities :: "entity_observation list"
  om_global_scalars :: "named_scalar list"
  om_active :: bool

definition observation_message_ok :: "observation_message \<Rightarrow> unit result" where
  "observation_message_ok m =
     rbind (py_identifier (om_message_id m) ''message_id'') (\<lambda>_.
     rbind (py_identifier (om_observation_id m) ''observation_id'') (\<lambda>_.
     rbind (py_identifier (om_agent_id m) ''agent_id'') (\<lambda>_.
     rbind (py_identifier (om_life_id m) ''life_id'') (\<lambda>_.
     rbind (require_non_negative (om_tick m) ''tick'') (\<lambda>_.
     rbind (require_non_negative (om_sim_time_ms m) ''sim_time_ms'') (\<lambda>_.
     rbind (require_unique (map eo_entity_id (om_entities m)) ''entity ids'') (\<lambda>_.
     rbind (case find (\<lambda>e. eo_entity_id e = om_agent_id m) (om_entities m) of
              None \<Rightarrow> Inl (ValueError ''entities must include the observing agent'')
            | Some e \<Rightarrow> checks
                [(eo_relation e \<noteq> SELF,
                    ValueError ''the observing agent must have the self relation'')]) (\<lambda>_.
     rbind (checks [(length (filter (\<lambda>e. eo_relation e = SELF) (om_entities m)) \<noteq> 1,
              ValueError ''an observation must contain exactly one self entity'')]) (\<lambda>_.
     require_unique (map ns_name (om_global_scalars m)) ''global scalar names'')))))))))"

record affordance =
  af_affordance_id :: string
  af_action_key :: string
  af_binding :: action_binding
  af_features :: "named_scalar list"
  af_tags :: "string list"

definition affordance_ok :: "affordance \<Rightarrow> unit result" where
  "affordance_ok a =
     rbind (py_identifier (af_affordance_id a) ''affordance_id'') (\<lambda>_.
     rbind (py_identifier (af_action_key a) ''action_key'') (\<lambda>_.
     rbind (require_unique (af_tags a) ''tags'') (\<lambda>_.
     require_unique (map ns_name (af_features a)) ''feature names'')))"

record affordance_set_message =
  asm_message_id :: string
  asm_observation_id :: string
  asm_agent_id :: string
  asm_tick :: int
  asm_affordances :: "affordance list"

definition affordance_set_message_ok :: "affordance_set_message \<Rightarrow> unit result" where
  "affordance_set_message_ok m =
     rbind (py_identifier (asm_message_id m) ''message_id'') (\<lambda>_.
     rbind (py_identifier (asm_observation_id m) ''observation_id'') (\<lambda>_.
     rbind (py_identifier (asm_agent_id m) ''agent_id'') (\<lambda>_.
     rbind (require_non_negative (asm_tick m) ''tick'') (\<lambda>_.
     rbind (require_unique (map af_affordance_id (asm_affordances m)) ''affordance ids'') (\<lambda>_.
     riter (\<lambda>a. checks [(ab_actor_id (af_binding a) \<noteq> asm_agent_id m,
              ValueError ''every affordance must be bound to the message agent'')])
       (asm_affordances m))))))"

record decision_message =
  dm_message_id :: string
  dm_correlation_id :: string
  dm_observation_id :: string
  dm_agent_id :: string
  dm_tick :: int
  dm_affordance_id :: string
  dm_action_key :: string
  dm_binding :: action_binding

definition decision_message_ok :: "decision_message \<Rightarrow> unit result" where
  "decision_message_ok m =
     rbind (py_identifier (dm_message_id m) ''message_id'') (\<lambda>_.
     rbind (py_identifier (dm_correlation_id m) ''correlation_id'') (\<lambda>_.
     rbind (py_identifier (dm_observation_id m) ''observation_id'') (\<lambda>_.
     rbind (py_identifier (dm_agent_id m) ''agent_id'') (\<lambda>_.
     rbind (py_identifier (dm_affordance_id m) ''affordance_id'') (\<lambda>_.
     rbind (py_identifier (dm_action_key m) ''action_key'') (\<lambda>_.
     rbind (require_non_negative (dm_tick m) ''tick'') (\<lambda>_.
     checks [(ab_actor_id (dm_binding m) \<noteq> dm_agent_id m,
        ValueError ''decision binding must be bound to the message agent'')])))))))"

record event =
  ev_event_id :: string
  ev_kind :: string
  ev_tick :: int
  ev_sim_time_ms :: int
  ev_correlation_id :: "string option"
  ev_source_entity_id :: "string option"
  ev_target_entity_id :: "string option"
  ev_action_key :: "string option"
  ev_scalars :: "named_scalar list"
  ev_tags :: "string list"

definition event_ok :: "event \<Rightarrow> unit result" where
  "event_ok e =
     rbind (py_identifier (ev_event_id e) ''event_id'') (\<lambda>_.
     rbind (py_identifier (ev_kind e) ''kind'') (\<lambda>_.
     rbind (require_non_negative (ev_tick e) ''tick'') (\<lambda>_.
     rbind (require_non_negative (ev_sim_time_ms e) ''sim_time_ms'') (\<lambda>_.
     rbind (optional (\<lambda>s. py_identifier s ''correlation_id'') (ev_correlation_id e)) (\<lambda>_.
     rbind (optional (\<lambda>s. py_identifier s ''source_entity_id'') (ev_source_entity_id e)) (\<lambda>_.
     rbind (optional (\<lambda>s. py_identifier s ''target_entity_id'') (ev_target_entity_id e)) (\<lambda>_.
     rbind (optional (\<lambda>s. py_identifier s ''action_key'') (ev_action_key e)) (\<lambda>_.
     rbind (require_unique (ev_tags e) ''tags'') (\<lambda>_.
     require_unique (map ns_name (ev_scalars e)) ''scalar names'')))))))))"

record event_batch_message =
  eb_message_id :: string
  eb_tick :: int
  eb_sim_time_ms :: int
  eb_events :: "event list"
  eb_life_terminated :: "string list"
  eb_world_terminated :: bool
  eb_truncated :: bool

definition event_batch_message_ok :: "event_batch_message \<Rightarrow> unit result" where
  "event_batch_message_ok m =
     rbind (py_identifier (eb_message_id m) ''message_id'') (\<lambda>_.
     rbind (require_non_negative (eb_tick m) ''tick'') (\<lambda>_.
     rbind (require_non_negative (eb_sim_time_ms m) ''sim_time_ms'') (\<lambda>_.
     rbind (require_unique (eb_life_terminated m) ''life_terminated'') (\<lambda>_.
     require_unique (map ev_event_id (eb_events m)) ''event ids''))))"

datatype protocol_message =
    Observation observation_message
  | AffordanceSet affordance_set_message
  | Decision decision_message
  | EventBatch event_batch_message

subsection \<open>Cross-message validation\<close>

definition validate_exchange ::
    "observation_message \<Rightarrow> affordance_set_message \<Rightarrow> decision_message \<Rightarrow> affordance result" where
  "validate_exchange observation affordance_set decision =
     (let expected = (om_observation_id observation, om_agent_id observation, om_tick observation)
      in if (asm_observation_id affordance_set, asm_agent_id affordance_set, asm_tick affordance_set) \<noteq> expected
      then Inl (ProtocolMismatchError ''affordance set does not match the observation'')
      else if (dm_observation_id decision, dm_agent_id decision, dm_tick decision) \<noteq> expected
      then Inl (ProtocolMismatchError ''decision does not match the observation'')
      else case find (\<lambda>a. af_affordance_id a = dm_affordance_id decision) (asm_affordances affordance_set) of
        None \<Rightarrow> Inl (ProtocolMismatchError ''decision selected an unavailable affordance'')
      | Some selected \<Rightarrow>
          if af_action_key selected \<noteq> dm_action_key decision
          then Inl (ProtocolMismatchError ''decision action key does not match the affordance'')
          else if af_binding selected \<noteq> dm_binding decision
          then Inl (ProtocolMismatchError ''decision binding does not match the legal affordance'')
          else Inr selected)"

text \<open>The pair an agent is handed (\<^verbatim>\<open>AgentExchange\<close> of \<^verbatim>\<open>sim/timeline.py\<close>) and the decision it
  builds from one of the affordances.\<close>

record agent_exchange =
  ax_observation :: observation_message
  ax_affordances :: affordance_set_message

definition exchange_decision ::
    "agent_exchange \<Rightarrow> string \<Rightarrow> string \<Rightarrow> string option \<Rightarrow> decision_message result" where
  "exchange_decision x affordance_id correlation_id message_id =
     (case find (\<lambda>a. af_affordance_id a = affordance_id) (asm_affordances (ax_affordances x)) of
        None \<Rightarrow> Inl (KeyError (''unknown affordance id: '' @ affordance_id))
      | Some selected \<Rightarrow> validated decision_message_ok
          \<lparr>dm_message_id =
             (case message_id of
                None \<Rightarrow> ''message:'' @ correlation_id
              | Some s \<Rightarrow> if s = [] then ''message:'' @ correlation_id else s),
           dm_correlation_id = correlation_id,
           dm_observation_id = om_observation_id (ax_observation x),
           dm_agent_id = om_agent_id (ax_observation x),
           dm_tick = om_tick (ax_observation x),
           dm_affordance_id = af_affordance_id selected,
           dm_action_key = af_action_key selected,
           dm_binding = af_binding selected\<rparr>)"

subsection \<open>Lemmas\<close>

lemma entity_kinds_all_mem [simp]: "k \<in> set entity_kinds_all"
  by (cases k) (simp_all add: entity_kinds_all_def)

lemma relations_all_mem [simp]: "k \<in> set relations_all"
  by (cases k) (simp_all add: relations_all_def)

lemma target_kinds_all_mem [simp]: "k \<in> set target_kinds_all"
  by (cases k) (simp_all add: target_kinds_all_def)

lemma inj_entity_kind_value: "inj entity_kind_value"
proof (rule injI)
  show "x = y" if "entity_kind_value x = entity_kind_value y" for x y
    using that by (cases x; cases y) simp_all
qed

lemma inj_relation_value: "inj relation_value"
proof (rule injI)
  show "x = y" if "relation_value x = relation_value y" for x y
    using that by (cases x; cases y) simp_all
qed

lemma inj_target_kind_value: "inj target_kind_value"
proof (rule injI)
  show "x = y" if "target_kind_value x = target_kind_value y" for x y
    using that by (cases x; cases y) simp_all
qed

lemma enum_of_value:
  assumes "inj val" "e \<in> set members"
  shows "enum_of val members cls (val e) = Inr e"
proof -
  have "find (\<lambda>m. val m = val e) members = Some e"
    using assms by (induction members) (auto simp: inj_eq)
  then show ?thesis by (simp add: enum_of_def)
qed

lemma enum_values [simp]:
  "enum_of entity_kind_value entity_kinds_all c (entity_kind_value k) = Inr k"
  "enum_of relation_value relations_all c (relation_value r) = Inr r"
  "enum_of target_kind_value target_kinds_all c (target_kind_value t) = Inr t"
  by (simp_all add: enum_of_value inj_entity_kind_value inj_relation_value inj_target_kind_value)

lemma require_unique_Inr [result_simps]:
  "require_unique xs n = Inr u \<longleftrightarrow> distinct xs \<and> (\<forall>x \<in> set xs. nonblank x)"
  by (auto simp: require_unique_def result_simps)

lemma require_non_negative_Inr [result_simps]: "require_non_negative v n = Inr u \<longleftrightarrow> 0 \<le> v"
  by (auto simp: require_non_negative_def)

lemma find_Some_mem: "find P xs = Some x \<Longrightarrow> x \<in> set xs \<and> P x"
  by (auto simp: find_Some_iff)

lemma find_unique_id:
  "distinct (map f xs) \<Longrightarrow> x \<in> set xs \<Longrightarrow> find (\<lambda>y. f y = f x) xs = Some x"
  by (induction xs) auto

lemma validate_exchange_Inr:
  "validate_exchange ob af d = Inr a \<longleftrightarrow>
     asm_observation_id af = om_observation_id ob \<and> asm_agent_id af = om_agent_id ob
     \<and> asm_tick af = om_tick ob \<and> dm_observation_id d = om_observation_id ob
     \<and> dm_agent_id d = om_agent_id ob \<and> dm_tick d = om_tick ob
     \<and> find (\<lambda>a. af_affordance_id a = dm_affordance_id d) (asm_affordances af) = Some a
     \<and> af_action_key a = dm_action_key d \<and> af_binding a = dm_binding d"
  by (auto simp: validate_exchange_def Let_def split: option.splits if_splits)

subsection \<open>Properties\<close>

text \<open>C36: A policy cannot alter what it selected: the decision an agent builds from an exchange is accepted,
  yields exactly the affordance it named, and is rejected as soon as its binding, its action key, its
  agent, its tick or its observation is changed.\<close>

theorem exchange_decision_validates:
  assumes set_ok: "affordance_set_message_ok (ax_affordances x) = Inr ()"
    and same: "asm_observation_id (ax_affordances x) = om_observation_id (ax_observation x)"
      "asm_agent_id (ax_affordances x) = om_agent_id (ax_observation x)"
      "asm_tick (ax_affordances x) = om_tick (ax_observation x)"
    and d: "exchange_decision x aid cid mid = Inr d"
  shows "(\<exists>a \<in> set (asm_affordances (ax_affordances x)). af_affordance_id a = aid
      \<and> validate_exchange (ax_observation x) (ax_affordances x) d = Inr a)
    \<and> (dm_affordance_id d' = dm_affordance_id d
        \<and> (dm_binding d', dm_action_key d', dm_agent_id d', dm_tick d', dm_observation_id d')
          \<noteq> (dm_binding d, dm_action_key d, dm_agent_id d, dm_tick d, dm_observation_id d)
       \<longrightarrow> (\<exists>e. validate_exchange (ax_observation x) (ax_affordances x) d' = Inl (ProtocolMismatchError e)))"
proof -
  obtain a where a: "find (\<lambda>a. af_affordance_id a = aid) (asm_affordances (ax_affordances x)) = Some a"
    using d by (auto simp: exchange_decision_def split: option.splits)
  have dd: "dm_affordance_id d = af_affordance_id a" "dm_action_key d = af_action_key a"
      "dm_binding d = af_binding a" "dm_observation_id d = om_observation_id (ax_observation x)"
      "dm_agent_id d = om_agent_id (ax_observation x)" "dm_tick d = om_tick (ax_observation x)"
    using d a by (auto simp: exchange_decision_def result_simps)
  have aid: "af_affordance_id a = aid" "a \<in> set (asm_affordances (ax_affordances x))"
    using find_Some_mem [OF a] by auto
  have "validate_exchange (ax_observation x) (ax_affordances x) d = Inr a"
    using a same by (simp add: validate_exchange_Inr dd aid)
  moreover have "\<exists>e. validate_exchange (ax_observation x) (ax_affordances x) d' = Inl (ProtocolMismatchError e)"
    if "dm_affordance_id d' = dm_affordance_id d"
      "(dm_binding d', dm_action_key d', dm_agent_id d', dm_tick d', dm_observation_id d')
          \<noteq> (dm_binding d, dm_action_key d, dm_agent_id d, dm_tick d, dm_observation_id d)"
    using that a by (auto simp: validate_exchange_def Let_def dd aid)
  ultimately show ?thesis using aid by blast
qed

definition example_exchange :: agent_exchange where
  "example_exchange =
     \<lparr>ax_observation = \<lparr>om_message_id = ''m'', om_observation_id = ''o'', om_agent_id = ''a'', om_life_id = ''l'',
        om_tick = 3, om_sim_time_ms = 600, om_entities = [], om_global_scalars = [], om_active = True\<rparr>,
      ax_affordances = \<lparr>asm_message_id = ''s'', asm_observation_id = ''o'', asm_agent_id = ''a'', asm_tick = 3,
        asm_affordances = [\<lparr>af_affordance_id = ''f'', af_action_key = ''k'',
          af_binding = \<lparr>ab_actor_id = ''a'', ab_target_kind = TK_NONE, ab_target_entity_id = None,
            ab_position = None, ab_direction = None, ab_quantity = None, ab_item_id = None,
            ab_objective_id = None\<rparr>, af_features = [], af_tags = []\<rparr>]\<rparr>\<rparr>"

theorem exchange_decision_validates_witness:
  "\<exists>d a. exchange_decision example_exchange ''f'' ''c'' None = Inr d
     \<and> validate_exchange (ax_observation example_exchange) (ax_affordances example_exchange) d = Inr a
     \<and> af_affordance_id a = ''f''"
proof -
  have ok: "affordance_set_message_ok (ax_affordances example_exchange) = Inr ()" by code_simp
  have "returns (exchange_decision example_exchange ''f'' ''c'' None)"
    by (simp add: exchange_decision_def example_exchange_def result_simps decision_message_ok_def
        py_identifier_def nonblank_def py_space_def require_non_negative_def validated_def)
  then obtain d where d: "exchange_decision example_exchange ''f'' ''c'' None = Inr d" by blast
  show ?thesis
    using exchange_decision_validates [OF ok _ _ _ d] d by (auto simp: example_exchange_def)
qed

end
