(* ===== verification/Sim_Actions.thy ===== *)
theory Sim_Actions
  imports Protocol
begin

text \<open>
  The typed action algebra (\<^verbatim>\<open>sim/actions.py\<close>) with the vocabularies it takes from \<^verbatim>\<open>combat/\<close> and
  \<^verbatim>\<open>sim/outcomes.py\<close>. The effect primitives and the effect modifiers are one mutually recursive
  datatype, as their unions are in the code: which primitive may stand inside which other is not a
  matter of types but of the checks in the constructors, and those checks are kept. \<open>effect_ok\<close> and
  \<open>modifier_ok\<close> are the checks of one constructor call; an object exists only when every
  object inside it was constructed before, which is \<open>effect_built\<close>. Every field typed as float is a
  rational number; where the code computes with floats the rounding of each operation is the
  argument \<open>rnd\<close>.
\<close>

subsection \<open>Vocabularies\<close>

datatype combat_stance = STANCE_NORMAL | STANCE_OFFENSIVE | STANCE_DEFENSIVE | STANCE_PRECISE | STANCE_TRAVEL

fun combat_stance_value :: "combat_stance \<Rightarrow> string" where
  "combat_stance_value STANCE_NORMAL = ''normal''"
| "combat_stance_value STANCE_OFFENSIVE = ''offensive''"
| "combat_stance_value STANCE_DEFENSIVE = ''defensive''"
| "combat_stance_value STANCE_PRECISE = ''precise''"
| "combat_stance_value STANCE_TRAVEL = ''travel''"

datatype damage_type =
    SLASH | CRUSH | PIERCE | MAGIC | BLEED | POISON | MENTAL | HOLY | UNHOLY | LIGHTNING | FIRE | COLD | UNKNOWN_DAMAGE

fun damage_type_value :: "damage_type \<Rightarrow> string" where
  "damage_type_value SLASH = ''slash''"
| "damage_type_value CRUSH = ''crush''"
| "damage_type_value PIERCE = ''pierce''"
| "damage_type_value MAGIC = ''magic''"
| "damage_type_value BLEED = ''bleed''"
| "damage_type_value POISON = ''poison''"
| "damage_type_value MENTAL = ''mental''"
| "damage_type_value HOLY = ''holy''"
| "damage_type_value UNHOLY = ''unholy''"
| "damage_type_value LIGHTNING = ''lightning''"
| "damage_type_value FIRE = ''fire''"
| "damage_type_value COLD = ''cold''"
| "damage_type_value UNKNOWN_DAMAGE = ''unknown''"

datatype resistance_type =
    RESIST_SLASH | RESIST_CRUSH | RESIST_PIERCE | RESIST_MAGIC | RESIST_BLEED | RESIST_POISON | RESIST_MENTAL
  | RESIST_HOLY | RESIST_UNHOLY | RESIST_LIGHTNING | RESIST_FIRE | RESIST_COLD | RESIST_HEALING

datatype stack_priority = GREATER_THAN_OR_EQUAL | ALWAYS | GREATER_THAN

datatype effect_outcome_kind =
  APPLIED | REFRESHED | BLOCKED_IMMUNITY | BLOCKED_STACK | RESISTED | MISSED | NO_CHANGE

datatype subject_ref = SUBJECT_ACTOR | SUBJECT_TARGET | SUBJECT_OBJECTIVE

datatype phase_kind = WINDUP | PHASE_ACTIVE | RECOVERY

datatype delivery_kind = IMMEDIATE | PROJECTILE_DELIVERY

datatype scalar_operation = SCALAR_ADD | SCALAR_SET

datatype movement_mode = WALK | WALK_AWAY | TELEPORT | PUSH | PULL

datatype tag_operation = TAG_ADD | TAG_REMOVE

datatype attack_kind = BASIC | POWER

datatype area_origin = ORIGIN_ACTOR | ORIGIN_TARGET

datatype trigger_moment = ON_ACTION_START | ON_ATTEMPT | ON_HIT | ON_DAMAGE

datatype trigger_consumption =
  CONSUME_ACTION_START | CONSUME_ATTEMPT | CONSUME_HIT | CONSUME_DAMAGE | CONSUME_NEVER

subsection \<open>Field checks\<close>

definition non_negative_integer :: "int \<Rightarrow> string \<Rightarrow> unit result" where
  "non_negative_integer v field_name =
     (if v < 0 then Inl (ValueError (field_name @ '' must be a non-negative integer'')) else Inr ())"

definition unique_strings :: "string list \<Rightarrow> string \<Rightarrow> unit result" where
  "unique_strings values field_name =
     (if \<not> distinct values then Inl (ValueError (field_name @ '' must not contain duplicates''))
      else riter (\<lambda>v. py_identifier v field_name) values)"

subsection \<open>Amounts\<close>

datatype amount_spec =
    FixedAmount rat
  | UniformAmount rat rat
  | TriangularAmount rat rat
  | UniformIntegerAmount int int
  | WeightedAmount "(rat \<times> int) list"

definition total_weight :: "(rat \<times> int) list \<Rightarrow> int" where
  "total_weight outcomes = sum_list (map snd outcomes)"

fun amount_spec_ok :: "amount_spec \<Rightarrow> unit result" where
  "amount_spec_ok (FixedAmount a) = Inr ()"
| "amount_spec_ok (UniformAmount minimum maximum) = checks
     [(minimum \<le> 0, ValueError ''uniform amount minimum must be positive''),
      (maximum \<le> minimum, ValueError ''uniform amount maximum must be greater than minimum'')]"
| "amount_spec_ok (TriangularAmount minimum maximum) = checks
     [(minimum \<le> 0, ValueError ''triangular amount minimum must be positive''),
      (maximum \<le> minimum, ValueError ''triangular amount maximum must be greater than minimum'')]"
| "amount_spec_ok (UniformIntegerAmount minimum maximum) = checks
     [(minimum \<le> 0, ValueError ''uniform integer amount minimum must be positive''),
      (maximum \<le> minimum, ValueError ''uniform integer amount maximum must be greater than minimum''),
      (maximum - minimum \<ge> 2 ^ 32, ValueError ''uniform integer amount span must fit the random source'')]"
| "amount_spec_ok (WeightedAmount outcomes) =
     rbind (checks
       [(outcomes = [], ValueError ''weighted amount requires at least one outcome''),
        (sort outcomes \<noteq> outcomes, ValueError ''weighted amount outcomes must be sorted''),
        (\<not> distinct (map fst outcomes), ValueError ''weighted amount outcome values must be unique'')]) (\<lambda>_.
     rbind (riter (\<lambda>(v, weight). checks
       [(v \<le> 0, ValueError ''weighted amount outcomes must be positive''),
        (weight \<le> 0, ValueError ''weighted amount weights must be positive integers'')]) outcomes) (\<lambda>_.
     checks [(total_weight outcomes > 2 ^ 32, ValueError ''weighted amount total weight must fit the random source'')]))"

definition positive_amount :: "amount_spec \<Rightarrow> string \<Rightarrow> unit result" where
  "positive_amount v field_name =
     (case v of FixedAmount a \<Rightarrow> checks [(a \<le> 0, ValueError (field_name @ '' must be positive''))] | _ \<Rightarrow> Inr ())"

subsection \<open>Effect primitives and effect modifiers\<close>

datatype effect_primitive =
    ModifyScalar subject_ref string scalar_operation rat
  | DealDamage subject_ref amount_spec damage_type bool int "string option"
  | RestoreResource subject_ref string amount_spec bool int "resistance_type option"
  | TransferResource subject_ref subject_ref string amount_spec rat
  | ModifyTag subject_ref string tag_operation
  | ApplyEffect subject_ref string int rat "string option" "string list" "effect_modifier list" int int
      stack_priority "string list"
  | RemoveEffect subject_ref "string option" "string option" "int option"
  | MoveEntity subject_ref movement_mode "rat option"
  | TransferItem subject_ref subject_ref "string option" "rat option"
  | ModifyObjective subject_ref rat
  | ChangeStance subject_ref combat_stance
  | OutcomeConditional string effect_primitive "effect_outcome_kind list" "effect_primitive list" "effect_primitive list"
  | ChanceGate string rat "effect_primitive list"
  | AttackGate string attack_kind string string "effect_primitive list" "string list"
  | AreaEffect area_origin rat "relation list" "effect_primitive list" "int option"
and effect_modifier =
    PeriodicPulse string int int "effect_primitive list"
  | ResourceImmunity string
  | ResistanceAdjustment damage_type rat
  | ScalarMultiplier string rat
  | DamageBreakpoint string rat "damage_type list"

fun is_periodic_direct :: "effect_primitive \<Rightarrow> bool" where
  "is_periodic_direct (ModifyScalar _ _ _ _) = True"
| "is_periodic_direct (DealDamage _ _ _ _ _ _) = True"
| "is_periodic_direct (RestoreResource _ _ _ _ _ _) = True"
| "is_periodic_direct (TransferResource _ _ _ _ _) = True"
| "is_periodic_direct (ModifyTag _ _ _) = True"
| "is_periodic_direct _ = False"

fun is_conditional :: "effect_primitive \<Rightarrow> bool" where
  "is_conditional (OutcomeConditional _ _ _ _ _) = True"
| "is_conditional _ = False"

fun is_chance_gate :: "effect_primitive \<Rightarrow> bool" where
  "is_chance_gate (ChanceGate _ _ _) = True"
| "is_chance_gate _ = False"

fun is_attack_gate :: "effect_primitive \<Rightarrow> bool" where
  "is_attack_gate (AttackGate _ _ _ _ _ _) = True"
| "is_attack_gate _ = False"

fun is_area :: "effect_primitive \<Rightarrow> bool" where
  "is_area (AreaEffect _ _ _ _ _) = True"
| "is_area _ = False"

definition is_direct :: "effect_primitive \<Rightarrow> bool" where
  "is_direct e \<longleftrightarrow> \<not> is_conditional e \<and> \<not> is_chance_gate e \<and> \<not> is_attack_gate e \<and> \<not> is_area e"

fun semantic_tags :: "effect_modifier \<Rightarrow> string list" where
  "semantic_tags (PeriodicPulse periodic_key interval_ms tick_count effects) = [''periodic.'' @ periodic_key]"
| "semantic_tags (ResourceImmunity resource_key) = [''immunity.resource.'' @ resource_key]"
| "semantic_tags (ResistanceAdjustment damage_type amount) = [''modifier.resistance.'' @ damage_type_value damage_type]"
| "semantic_tags (ScalarMultiplier scalar_key factor) = [''modifier.scalar_multiplier.'' @ scalar_key]"
| "semantic_tags (DamageBreakpoint breakpoint_key threshold damage_types) = [''breakpoint.damage.'' @ breakpoint_key]"

fun modifier_ok :: "effect_modifier \<Rightarrow> unit result" where
  "modifier_ok (PeriodicPulse periodic_key interval_ms tick_count effects) =
     rbind (py_identifier periodic_key ''periodic_key'') (\<lambda>_.
     rbind (non_negative_integer interval_ms ''interval_ms'') (\<lambda>_.
     rbind (checks [(interval_ms = 0, ValueError ''periodic interval must be positive'')]) (\<lambda>_.
     rbind (non_negative_integer tick_count ''tick_count'') (\<lambda>_.
     checks [(tick_count = 0, ValueError ''periodic tick count must be positive''),
       (effects = [], ValueError ''periodic pulse requires at least one direct effect''),
       (\<not> list_all is_periodic_direct effects, ValueError ''periodic pulse effects must be nonrecursive direct effects'')]))))"
| "modifier_ok (ResourceImmunity resource_key) = py_identifier resource_key ''resource_key''"
| "modifier_ok (ResistanceAdjustment damage_type amount) =
     checks [(damage_type = UNKNOWN_DAMAGE, ValueError ''resistance adjustments require a known damage type''),
       (amount = 0, ValueError ''resistance adjustment must not be zero'')]"
| "modifier_ok (ScalarMultiplier scalar_key factor) =
     rbind (py_identifier scalar_key ''scalar_key'') (\<lambda>_.
     checks [(factor < 0, ValueError ''scalar multiplier factor must not be negative'')])"
| "modifier_ok (DamageBreakpoint breakpoint_key threshold damage_types) =
     rbind (py_identifier breakpoint_key ''breakpoint_key'') (\<lambda>_.
     checks [(threshold \<le> 0, ValueError ''damage breakpoint threshold must be positive''),
       (damage_types = [], ValueError ''damage breakpoint requires at least one damage type''),
       (UNKNOWN_DAMAGE \<in> set damage_types, ValueError ''damage breakpoints require known damage types''),
       (\<not> distinct damage_types, ValueError ''damage breakpoint types must not contain duplicates'')])"

fun pulse_duration_ms :: "effect_modifier \<Rightarrow> int option" where
  "pulse_duration_ms (PeriodicPulse periodic_key interval_ms tick_count effects) = Some (interval_ms * tick_count)"
| "pulse_duration_ms _ = None"

fun effect_ok :: "effect_primitive \<Rightarrow> unit result" where
  "effect_ok (ModifyScalar subject scalar_key operation amount) = py_identifier scalar_key ''scalar_key''"
| "effect_ok (DealDamage subject amount damage_type uses_resistance power_trains source_key) =
     rbind (positive_amount amount ''damage amount'') (\<lambda>_.
     rbind (checks [(damage_type = UNKNOWN_DAMAGE \<and> uses_resistance, ValueError ''unknown damage cannot use resistance'')]) (\<lambda>_.
     rbind (non_negative_integer power_trains ''power_trains'') (\<lambda>_.
     optional (\<lambda>k. py_identifier k ''source_key'') source_key)))"
| "effect_ok (RestoreResource subject resource_key amount uses_resistance power_trains resistance) =
     rbind (py_identifier resource_key ''resource_key'') (\<lambda>_.
     rbind (positive_amount amount ''restoration amount'') (\<lambda>_.
     rbind (non_negative_integer power_trains ''power_trains'') (\<lambda>_.
     checks [(uses_resistance \<and> resistance = None, ValueError ''resisted restoration requires resistance_type''),
       (\<not> uses_resistance \<and> resistance \<noteq> None, ValueError ''resistance_type requires uses_resistance'')])))"
| "effect_ok (TransferResource from_subject to_subject resource_key amount efficiency) =
     rbind (checks [(from_subject = to_subject, ValueError ''resource transfer subjects must differ''),
       (SUBJECT_OBJECTIVE \<in> {from_subject, to_subject}, ValueError ''resource transfers require entity subjects'')]) (\<lambda>_.
     rbind (py_identifier resource_key ''resource_key'') (\<lambda>_.
     rbind (positive_amount amount ''transfer amount'') (\<lambda>_.
     checks [(\<not> (0 < efficiency \<and> efficiency \<le> 1), ValueError ''transfer efficiency must be in (0, 1]'')])))"
| "effect_ok (ModifyTag subject tag operation) = py_identifier tag ''tag''"
| "effect_ok (ApplyEffect subject effect_key duration_ms magnitude stacking_key tags modifiers stack_order trains priority immunity_tags) =
     rbind (py_identifier effect_key ''effect_key'') (\<lambda>_.
     rbind (non_negative_integer duration_ms ''duration_ms'') (\<lambda>_.
     rbind (checks [(duration_ms = 0, ValueError ''effect duration must be positive'')]) (\<lambda>_.
     rbind (optional (\<lambda>k. py_identifier k ''stacking_key'') stacking_key) (\<lambda>_.
     rbind (unique_strings tags ''tags'') (\<lambda>_.
     rbind (unique_strings immunity_tags ''immunity_tags'') (\<lambda>_.
     rbind (unique_strings (concat (map semantic_tags modifiers)) ''effect modifier keys'') (\<lambda>_.
     rbind (checks [(list_ex (\<lambda>m. case pulse_duration_ms m of None \<Rightarrow> False | Some d \<Rightarrow> d > duration_ms) modifiers,
       ValueError ''periodic pulses must complete within the effect duration'')]) (\<lambda>_.
     rbind (non_negative_integer stack_order ''stack_order'') (\<lambda>_.
     non_negative_integer trains ''trains'')))))))))"
| "effect_ok (RemoveEffect subject effect_key matching_tag maximum_count) =
     rbind (checks [((effect_key = None) = (matching_tag = None), ValueError ''exactly one of effect_key or matching_tag is required'')]) (\<lambda>_.
     rbind (optional (\<lambda>k. py_identifier k ''effect_key'') effect_key) (\<lambda>_.
     rbind (optional (\<lambda>t. py_identifier t ''matching_tag'') matching_tag) (\<lambda>_.
     checks [(case maximum_count of None \<Rightarrow> False | Some n \<Rightarrow> n < 1, ValueError ''maximum_count must be a positive integer or null'')])))"
| "effect_ok (MoveEntity subject mode distance) =
     checks [(case distance of None \<Rightarrow> False | Some d \<Rightarrow> d \<le> 0, ValueError ''distance must be positive'')]"
| "effect_ok (TransferItem from_subject to_subject item_id quantity) =
     rbind (checks [(from_subject = to_subject, ValueError ''item transfer subjects must differ'')]) (\<lambda>_.
     rbind (optional (\<lambda>i. py_identifier i ''item_id'') item_id) (\<lambda>_.
     checks [(case quantity of None \<Rightarrow> False | Some q \<Rightarrow> q \<le> 0, ValueError ''quantity must be positive'')]))"
| "effect_ok (ModifyObjective subject progress_delta) =
     checks [(subject \<noteq> SUBJECT_OBJECTIVE, ValueError ''objective progress must use the objective subject''),
       (progress_delta = 0, ValueError ''progress_delta must not be zero'')]"
| "effect_ok (ChangeStance subject stance) =
     checks [(subject \<noteq> SUBJECT_ACTOR, ValueError ''stance changes must use the actor subject'')]"
| "effect_ok (OutcomeConditional conditional_key condition outcomes effects else_effects) =
     rbind (py_identifier conditional_key ''conditional_key'') (\<lambda>_.
     checks [(\<not> is_direct condition, ValueError ''condition must be a direct effect primitive''),
       (outcomes = [], ValueError ''outcomes must not be empty''),
       (\<not> distinct outcomes, ValueError ''outcomes must not contain duplicates''),
       (effects = [] \<and> else_effects = [], ValueError ''at least one conditional branch must contain effects''),
       (\<not> list_all is_direct effects, ValueError ''effects may contain only direct effect primitives''),
       (\<not> list_all is_direct else_effects, ValueError ''else_effects may contain only direct effect primitives'')])"
| "effect_ok (ChanceGate chance_key probability effects) =
     rbind (py_identifier chance_key ''chance_key'') (\<lambda>_.
     checks [(\<not> (0 < probability \<and> probability \<le> 1), ValueError ''probability must be in (0, 1]''),
       (effects = [], ValueError ''chance gate requires at least one direct effect''),
       (\<not> list_all (\<lambda>e. is_direct e \<or> is_conditional e) effects,
          ValueError ''chance gate effects must contain direct effects or conditional primitives'')])"
| "effect_ok (AttackGate attack_key kind attack_rating_key defense_rating_key effects passive_defense_keys) =
     rbind (py_identifier attack_key ''attack_key'') (\<lambda>_.
     rbind (py_identifier attack_rating_key ''attack_rating_key'') (\<lambda>_.
     rbind (py_identifier defense_rating_key ''defense_rating_key'') (\<lambda>_.
     rbind (checks [(effects = [], ValueError ''attack gate requires at least one direct effect''),
       (\<not> list_all (\<lambda>e. is_direct e \<or> is_conditional e \<or> is_chance_gate e) effects,
          ValueError ''attack gate effects must contain direct, conditional, or chance primitives'')]) (\<lambda>_.
     unique_strings passive_defense_keys ''passive_defense_keys''))))"
| "effect_ok (AreaEffect origin radius allowed_relations effects maximum_targets) =
     checks [(radius \<le> 0, ValueError ''area radius must be positive''),
       (allowed_relations = [], ValueError ''area effects require at least one allowed relation''),
       (\<not> distinct allowed_relations, ValueError ''area allowed_relations must not contain duplicates''),
       (effects = [], ValueError ''area effects require at least one nested effect''),
       (\<not> list_all (\<lambda>e. is_direct e \<or> is_conditional e \<or> is_chance_gate e \<or> is_attack_gate e) effects,
          ValueError ''area effects must contain direct, conditional, or gate primitives''),
       (case maximum_targets of None \<Rightarrow> False | Some n \<Rightarrow> n < 1, ValueError ''maximum_targets must be a positive integer or null'')]"

text \<open>An object whose constructor returned, and every object inside it.\<close>

fun effect_built :: "effect_primitive \<Rightarrow> bool" and modifier_built :: "effect_modifier \<Rightarrow> bool" where
  "effect_built (ApplyEffect s k d m sk ts ms so tr p it) \<longleftrightarrow>
     effect_ok (ApplyEffect s k d m sk ts ms so tr p it) = Inr () \<and> list_all modifier_built ms"
| "effect_built (OutcomeConditional k c os es fs) \<longleftrightarrow>
     effect_ok (OutcomeConditional k c os es fs) = Inr () \<and> effect_built c \<and> list_all effect_built es \<and> list_all effect_built fs"
| "effect_built (ChanceGate k p es) \<longleftrightarrow> effect_ok (ChanceGate k p es) = Inr () \<and> list_all effect_built es"
| "effect_built (AttackGate k ak ar dr es ps) \<longleftrightarrow>
     effect_ok (AttackGate k ak ar dr es ps) = Inr () \<and> list_all effect_built es"
| "effect_built (AreaEffect ao r rs es n) \<longleftrightarrow>
     effect_ok (AreaEffect ao r rs es n) = Inr () \<and> list_all effect_built es"
| "effect_built (DealDamage s a d u p k) \<longleftrightarrow> amount_spec_ok a = Inr () \<and> effect_ok (DealDamage s a d u p k) = Inr ()"
| "effect_built (RestoreResource s k a u p r) \<longleftrightarrow> amount_spec_ok a = Inr () \<and> effect_ok (RestoreResource s k a u p r) = Inr ()"
| "effect_built (TransferResource s t k a f) \<longleftrightarrow> amount_spec_ok a = Inr () \<and> effect_ok (TransferResource s t k a f) = Inr ()"
| "effect_built e \<longleftrightarrow> effect_ok e = Inr ()"
| "modifier_built (PeriodicPulse k i n es) \<longleftrightarrow> modifier_ok (PeriodicPulse k i n es) = Inr () \<and> list_all effect_built es"
| "modifier_built m \<longleftrightarrow> modifier_ok m = Inr ()"

subsection \<open>Targeting, costs and delivery\<close>

record targeting_spec =
  ts_kind :: target_kind
  ts_allowed_relations :: "relation list"
  ts_minimum_range :: rat
  ts_maximum_range :: "rat option"
  ts_requires_line_of_sight :: bool

definition targeting_spec_ok :: "targeting_spec \<Rightarrow> unit result" where
  "targeting_spec_ok t = checks
     [(\<not> distinct (ts_allowed_relations t), ValueError ''allowed_relations must not contain duplicates''),
      (ts_kind t = TK_ENTITY \<and> ts_allowed_relations t = [], ValueError ''entity targeting requires at least one allowed relation''),
      (ts_kind t \<noteq> TK_ENTITY \<and> ts_allowed_relations t \<noteq> [], ValueError ''allowed_relations are valid only for entity targeting''),
      (ts_minimum_range t < 0, ValueError ''minimum_range must not be negative''),
      (case ts_maximum_range t of None \<Rightarrow> False | Some m \<Rightarrow> m < ts_minimum_range t, ValueError ''maximum_range must be at least minimum_range'')]"

record resource_cost =
  rc_resource_key :: string
  rc_amount :: rat

definition resource_cost_ok :: "resource_cost \<Rightarrow> unit result" where
  "resource_cost_ok c =
     rbind (py_identifier (rc_resource_key c) ''resource_key'') (\<lambda>_.
     checks [(rc_amount c \<le> 0, ValueError ''resource cost amount must be positive'')])"

record delivery_spec =
  ds_kind :: delivery_kind
  ds_projectile_speed :: "rat option"

definition delivery_spec_ok :: "delivery_spec \<Rightarrow> unit result" where
  "delivery_spec_ok d =
     (case ds_kind d of
        PROJECTILE_DELIVERY \<Rightarrow>
          (case ds_projectile_speed d of
             None \<Rightarrow> Inl (ValueError ''projectile delivery requires a speed'')
           | Some v \<Rightarrow> checks [(v \<le> 0, ValueError ''projectile speed must be positive'')])
      | IMMEDIATE \<Rightarrow> checks [(ds_projectile_speed d \<noteq> None, ValueError ''projectile speed is valid only for projectile delivery'')])"

subsection \<open>Weapon attacks and armed triggers\<close>

record attack_modifier_spec =
  am_attack_rating_bonus :: rat
  am_damage_multiplier :: rat
  am_bonus_damage_minimum :: rat
  am_bonus_damage_maximum :: rat
  am_bypass_defense :: bool
  am_bypass_passive_defense :: bool
  am_damage_type_override :: "string option"
  am_tags :: "string list"

definition attack_modifier_spec_ok :: "attack_modifier_spec \<Rightarrow> unit result" where
  "attack_modifier_spec_ok a =
     rbind (checks
       [(am_damage_multiplier a \<le> 0, ValueError ''damage_multiplier must be positive''),
        (am_bonus_damage_minimum a < 0, ValueError ''bonus_damage_minimum must not be negative''),
        (am_bonus_damage_maximum a < am_bonus_damage_minimum a, ValueError ''bonus damage maximum must be at least minimum'')]) (\<lambda>_.
     rbind (optional (\<lambda>k. py_identifier k ''damage_type_override'') (am_damage_type_override a)) (\<lambda>_.
     unique_strings (am_tags a) ''attack modifier tags''))"

record weapon_attack_spec =
  wa_weapon_slot :: string
  wa_damage_type :: string
  wa_minimum_damage :: rat
  wa_maximum_damage :: rat
  wa_attack_rating_scalar :: string
  wa_defense_scalar :: string
  wa_minimum_damage_scalar :: "string option"
  wa_maximum_damage_scalar :: "string option"
  wa_default_attack_rating :: rat
  wa_default_defense :: rat
  wa_minimum_hit_chance :: rat
  wa_maximum_hit_chance :: rat
  wa_passive_defense_keys :: "string list"
  wa_phase_index :: int

definition weapon_attack_spec_ok :: "weapon_attack_spec \<Rightarrow> unit result" where
  "weapon_attack_spec_ok w =
     rbind (py_identifier (wa_weapon_slot w) ''weapon_slot'') (\<lambda>_.
     rbind (py_identifier (wa_damage_type w) ''damage_type'') (\<lambda>_.
     rbind (checks [(wa_minimum_damage w < 0 \<or> wa_maximum_damage w < wa_minimum_damage w, ValueError ''weapon damage range is invalid'')]) (\<lambda>_.
     rbind (py_identifier (wa_attack_rating_scalar w) ''attack_rating_scalar'') (\<lambda>_.
     rbind (py_identifier (wa_defense_scalar w) ''defense_scalar'') (\<lambda>_.
     rbind (optional (\<lambda>k. py_identifier k ''minimum_damage_scalar'') (wa_minimum_damage_scalar w)) (\<lambda>_.
     rbind (optional (\<lambda>k. py_identifier k ''maximum_damage_scalar'') (wa_maximum_damage_scalar w)) (\<lambda>_.
     rbind (checks [(\<not> (0 \<le> wa_minimum_hit_chance w \<and> wa_minimum_hit_chance w \<le> wa_maximum_hit_chance w \<and> wa_maximum_hit_chance w \<le> 1),
        ValueError ''weapon hit-chance bounds must be ordered within [0, 1]'')]) (\<lambda>_.
     rbind (unique_strings (wa_passive_defense_keys w) ''passive_defense_keys'') (\<lambda>_.
     non_negative_integer (wa_phase_index w) ''phase_index'')))))))))"

definition hit_chance :: "(rat \<Rightarrow> rat) \<Rightarrow> weapon_attack_spec \<Rightarrow> rat \<Rightarrow> rat \<Rightarrow> bool \<Rightarrow> rat" where
  "hit_chance rnd w attack_rating defense bypass =
     (if bypass then 1
      else let attack = max 0 attack_rating; defended = max 0 defense;
               denominator = max 1 (rnd (attack + defended));
               raw = rnd (1 / 2 + rnd (rnd (attack - defended) / rnd (2 * denominator)))
           in max (wa_minimum_hit_chance w) (min (wa_maximum_hit_chance w) raw))"

record action_trigger_spec =
  at_trigger_key :: string
  at_payload :: "effect_primitive list"
  at_required_action_tags :: "string list"
  at_qualifying_action_keys :: "string list"
  at_forbidden_action_tags :: "string list"
  at_fire_on :: trigger_moment
  at_consume_on :: trigger_consumption
  at_chance :: rat
  at_attack_modifier :: "attack_modifier_spec option"
  at_tags :: "string list"

definition action_trigger_spec_ok :: "action_trigger_spec \<Rightarrow> unit result" where
  "action_trigger_spec_ok t =
     rbind (py_identifier (at_trigger_key t) ''trigger_key'') (\<lambda>_.
     rbind (checks
       [(at_payload t = [] \<and> at_attack_modifier t = None, ValueError ''action trigger requires a payload or attack modifier''),
        (\<not> list_all is_direct (at_payload t), ValueError ''action trigger payload must contain direct effect primitives'')]) (\<lambda>_.
     rbind (unique_strings (at_required_action_tags t) ''required_action_tags'') (\<lambda>_.
     rbind (unique_strings (at_qualifying_action_keys t) ''qualifying_action_keys'') (\<lambda>_.
     rbind (unique_strings (at_forbidden_action_tags t) ''forbidden_action_tags'') (\<lambda>_.
     rbind (unique_strings (at_tags t) ''trigger tags'') (\<lambda>_.
     checks
       [(at_required_action_tags t = [] \<and> at_qualifying_action_keys t = [],
           ValueError ''action trigger requires action tags or explicit action keys''),
        (set (at_required_action_tags t) \<inter> set (at_forbidden_action_tags t) \<noteq> {},
           ValueError ''trigger action tags cannot be both required and forbidden''),
        (\<not> (0 \<le> at_chance t \<and> at_chance t \<le> 1), ValueError ''trigger chance must be between zero and one''),
        (at_attack_modifier t \<noteq> None \<and> at_fire_on t \<noteq> ON_ATTEMPT,
           ValueError ''attack modifiers must fire at the attempt moment'')]))))))"

definition trigger_matches :: "action_trigger_spec \<Rightarrow> string \<Rightarrow> string set \<Rightarrow> bool" where
  "trigger_matches t action_key action_tags =
     (if at_qualifying_action_keys t \<noteq> [] \<and> action_key \<notin> set (at_qualifying_action_keys t) then False
      else if \<not> set (at_required_action_tags t) \<subseteq> action_tags then False
      else set (at_forbidden_action_tags t) \<inter> action_tags = {})"

subsection \<open>Phases, actions and the catalog\<close>

record action_phase =
  ph_kind :: phase_kind
  ph_duration_ms :: int
  ph_effects :: "effect_primitive list"
  ph_delivery :: delivery_spec
  ph_interruptible :: bool
  ph_movement_allowed :: bool

definition action_phase_ok :: "action_phase \<Rightarrow> unit result" where
  "action_phase_ok p =
     rbind (non_negative_integer (ph_duration_ms p) ''duration_ms'') (\<lambda>_.
     checks
       [(ph_kind p = RECOVERY \<and> ph_effects p \<noteq> [], ValueError ''recovery phases cannot apply effects''),
        (ph_kind p = RECOVERY \<and> ds_kind (ph_delivery p) \<noteq> IMMEDIATE, ValueError ''recovery phases cannot have delayed delivery'')])"

record action_spec =
  ac_action_key :: string
  ac_targeting :: targeting_spec
  ac_phases :: "action_phase list"
  ac_cooldown_ms :: int
  ac_costs :: "resource_cost list"
  ac_required_actor_tags :: "string list"
  ac_forbidden_actor_tags :: "string list"
  ac_features :: "named_scalar list"
  ac_weapon_attack :: "weapon_attack_spec option"
  ac_armed_trigger :: "action_trigger_spec option"
  ac_tags :: "string list"
  ac_hit_roll :: "attack_kind option"
  ac_cancel_on_damage :: bool
  ac_cancel_on_stun :: bool

definition phase_effects :: "action_spec \<Rightarrow> effect_primitive list" where
  "phase_effects a = concat (map ph_effects (ac_phases a))"

fun applied_effect_keys :: "effect_primitive list \<Rightarrow> string set" where
  "applied_effect_keys [] = {}"
| "applied_effect_keys (ApplyEffect s k d m sk ts ms so tr p it # es) = insert k (applied_effect_keys es)"
| "applied_effect_keys (e # es) = applied_effect_keys es"

fun area_origins :: "effect_primitive list \<Rightarrow> area_origin set" where
  "area_origins [] = {}"
| "area_origins (AreaEffect ao r rs fs n # es) = insert ao (area_origins es)"
| "area_origins (e # es) = area_origins es"

fun area_relations :: "effect_primitive list \<Rightarrow> relation set" where
  "area_relations [] = {}"
| "area_relations (AreaEffect ao r rs fs n # es) = set rs \<union> area_relations es"
| "area_relations (e # es) = area_relations es"

definition hostile_target :: "action_spec \<Rightarrow> bool" where
  "hostile_target a \<longleftrightarrow>
     (ts_kind (ac_targeting a) = TK_ENTITY \<and> ENEMY \<in> set (ts_allowed_relations (ac_targeting a)))
     \<or> ENEMY \<in> area_relations (phase_effects a)"

definition action_spec_ok :: "action_spec \<Rightarrow> unit result" where
  "action_spec_ok a =
     rbind (py_identifier (ac_action_key a) ''action_key'') (\<lambda>_.
     rbind (checks [(ac_phases a = [], ValueError ''an action requires at least one phase'')]) (\<lambda>_.
     rbind (non_negative_integer (ac_cooldown_ms a) ''cooldown_ms'') (\<lambda>_.
     rbind (unique_strings (map rc_resource_key (ac_costs a)) ''cost resource keys'') (\<lambda>_.
     rbind (unique_strings (ac_required_actor_tags a) ''required_actor_tags'') (\<lambda>_.
     rbind (unique_strings (ac_forbidden_actor_tags a) ''forbidden_actor_tags'') (\<lambda>_.
     rbind (checks [(set (ac_required_actor_tags a) \<inter> set (ac_forbidden_actor_tags a) \<noteq> {},
        ValueError ''an actor tag cannot be both required and forbidden'')]) (\<lambda>_.
     rbind (unique_strings (map ns_name (ac_features a)) ''feature names'') (\<lambda>_.
     rbind (checks
       [(case ac_weapon_attack a of None \<Rightarrow> False | Some w \<Rightarrow> wa_phase_index w \<ge> int (length (ac_phases a)),
           ValueError ''weapon attack phase_index is outside action phases''),
        (case ac_armed_trigger a of None \<Rightarrow> False | Some t \<Rightarrow> at_trigger_key t \<notin> applied_effect_keys (phase_effects a),
           ValueError ''an armed trigger requires this action to apply its trigger effect'')]) (\<lambda>_.
     rbind (unique_strings (ac_tags a) ''tags'') (\<lambda>_.
     checks
       [((ac_cancel_on_damage a \<or> ac_cancel_on_stun a) \<and> \<not> list_ex ph_interruptible (ac_phases a),
           ValueError ''cancellable actions require an interruptible phase''),
        (ORIGIN_ACTOR \<in> area_origins (phase_effects a) \<and> ts_kind (ac_targeting a) \<noteq> TK_SELF,
           ValueError ''actor-centered area effects require self targeting''),
        (ORIGIN_TARGET \<in> area_origins (phase_effects a) \<and> ts_kind (ac_targeting a) \<notin> {TK_ENTITY, TK_POSITION},
           ValueError ''target-area effects require entity or position targeting''),
        (ac_hit_roll a \<noteq> None \<and> \<not> hostile_target a,
           ValueError ''hit rolls require a hostile entity or area target'')]))))))))))"

record action_catalog =
  cat_actions :: "action_spec list"
  cat_by_key :: "(string \<times> action_spec) list"
  cat_triggers_by_effect_key :: "(string \<times> action_trigger_spec) list"

definition new_catalog :: "action_spec list \<Rightarrow> action_catalog result" where
  "new_catalog actions =
     rbind (unique_strings (map ac_action_key actions) ''action keys'') (\<lambda>_.
     let ordered = sort_key ac_action_key actions;
         trigger_specs = concat (map (\<lambda>a. case ac_armed_trigger a of None \<Rightarrow> [] | Some t \<Rightarrow> [t]) ordered)
     in rbind (unique_strings (map at_trigger_key trigger_specs) ''armed trigger keys'') (\<lambda>_.
     Inr \<lparr>cat_actions = ordered,
          cat_by_key = dict_of (map (\<lambda>a. (ac_action_key a, a)) ordered),
          cat_triggers_by_effect_key = dict_of (map (\<lambda>t. (at_trigger_key t, t)) trigger_specs)\<rparr>))"

definition catalog_get :: "action_catalog \<Rightarrow> string \<Rightarrow> action_spec result" where
  "catalog_get c action_key =
     (case map_of (cat_by_key c) action_key of
        None \<Rightarrow> Inl (KeyError (''unknown action key: '' @ action_key))
      | Some a \<Rightarrow> Inr a)"

definition trigger_for_effect :: "action_catalog \<Rightarrow> string \<Rightarrow> action_trigger_spec option" where
  "trigger_for_effect c effect_key = map_of (cat_triggers_by_effect_key c) effect_key"

definition trigger_keys :: "action_catalog \<Rightarrow> string list" where
  "trigger_keys c = sort (map fst (cat_triggers_by_effect_key c))"

subsection \<open>Bounded nesting\<close>

text \<open>How many objects are nested inside one another.\<close>

fun effect_depth :: "effect_primitive \<Rightarrow> nat" and modifier_depth :: "effect_modifier \<Rightarrow> nat" where
  "effect_depth (ApplyEffect s k d m sk ts ms so tr p it) = Suc (foldr max (map modifier_depth ms) 0)"
| "effect_depth (OutcomeConditional k c os es fs) = Suc (foldr max (map effect_depth (c # es @ fs)) 0)"
| "effect_depth (ChanceGate k p es) = Suc (foldr max (map effect_depth es) 0)"
| "effect_depth (AttackGate k ak ar dr es ps) = Suc (foldr max (map effect_depth es) 0)"
| "effect_depth (AreaEffect ao r rs es n) = Suc (foldr max (map effect_depth es) 0)"
| "effect_depth e = 1"
| "modifier_depth (PeriodicPulse k i n es) = Suc (foldr max (map effect_depth es) 0)"
| "modifier_depth m = 1"

lemma foldr_max_le: "foldr max xs m \<le> (n::nat) \<longleftrightarrow> m \<le> n \<and> (\<forall>x \<in> set xs. x \<le> n)"
  by (induction xs) auto

lemma periodic_direct_depth: "is_periodic_direct e \<Longrightarrow> effect_depth e = 1"
  by (cases e) simp_all

lemma modifier_depth_le: "modifier_built m \<Longrightarrow> modifier_depth m \<le> 2"
  by (cases m) (auto simp: foldr_max_le result_simps list_all_iff periodic_direct_depth split: if_splits)

lemma direct_depth_le: "effect_built e \<Longrightarrow> is_direct e \<Longrightarrow> effect_depth e \<le> 3"
  by (cases e) (auto simp: foldr_max_le list_all_iff is_direct_def numeral_3_eq_3 intro: modifier_depth_le [simplified numeral_2_eq_2])

lemma conditional_depth_le: "effect_built e \<Longrightarrow> is_conditional e \<Longrightarrow> effect_depth e \<le> 4"
  using direct_depth_le by (cases e) (auto simp: foldr_max_le list_all_iff result_simps split: if_splits)

lemma chance_depth_le:
  assumes "effect_built e" "is_chance_gate e"
  shows "effect_depth e \<le> 5"
proof -
  have "effect_depth x \<le> 4" if "effect_built x" "is_direct x \<or> is_conditional x" for x
    using direct_depth_le [of x] conditional_depth_le [of x] that by auto
  with assms show ?thesis by (cases e) (auto simp: foldr_max_le list_all_iff result_simps split: if_splits)
qed

lemma attack_depth_le:
  assumes "effect_built e" "is_attack_gate e"
  shows "effect_depth e \<le> 6"
proof -
  have "effect_depth x \<le> 5" if "effect_built x" "is_direct x \<or> is_conditional x \<or> is_chance_gate x" for x
    using direct_depth_le [of x] conditional_depth_le [of x] chance_depth_le [of x] that by auto
  with assms show ?thesis by (cases e) (auto simp: foldr_max_le list_all_iff result_simps split: if_splits)
qed

lemma area_depth_le:
  assumes "effect_built e" "is_area e"
  shows "effect_depth e \<le> 7"
proof -
  have "effect_depth x \<le> 6"
    if "effect_built x" "is_direct x \<or> is_conditional x \<or> is_chance_gate x \<or> is_attack_gate x" for x
    using direct_depth_le [of x] conditional_depth_le [of x] chance_depth_le [of x] attack_depth_le [of x] that by auto
  with assms show ?thesis by (cases e) (auto simp: foldr_max_le list_all_iff result_simps split: if_splits)
qed

lemma effect_kinds: "is_direct e \<or> is_conditional e \<or> is_chance_gate e \<or> is_attack_gate e \<or> is_area e"
  by (auto simp: is_direct_def)

lemma built_depth_le: "effect_built e \<Longrightarrow> effect_depth e \<le> 7"
  using effect_kinds [of e] direct_depth_le [of e] conditional_depth_le [of e] chance_depth_le [of e]
    attack_depth_le [of e] area_depth_le [of e] by auto

text \<open>An area effect of an attack gate of a chance gate of a conditional on an effect with a periodic pulse.\<close>

definition deepest_effect :: effect_primitive where
  "deepest_effect =
     (let pulse = PeriodicPulse ''burn'' 1000 3 [DealDamage SUBJECT_TARGET (UniformAmount 1 2) FIRE True 0 None];
          burning = ApplyEffect SUBJECT_TARGET ''burning'' 3000 1 None [] [pulse] 0 0 ALWAYS [];
          ground = OutcomeConditional ''ground'' burning [APPLIED] [ModifyTag SUBJECT_TARGET ''grounded'' TAG_ADD] []
      in AreaEffect ORIGIN_ACTOR 30 [ENEMY]
           [AttackGate ''swing'' BASIC ''attack'' ''defense'' [ChanceGate ''proc'' (1 / 2) [ground]] []] (Some 5))"

subsection \<open>Catalogs\<close>

lemma unique_strings_Inr [result_simps]: "unique_strings xs n = Inr u \<longleftrightarrow> distinct xs \<and> (\<forall>x \<in> set xs. nonblank x)"
  by (auto simp: unique_strings_def result_simps)

lemma non_negative_integer_Inr [result_simps]: "non_negative_integer v n = Inr u \<longleftrightarrow> 0 \<le> v"
  by (auto simp: non_negative_integer_def)

lemma map_of_keyed: "distinct (map f xs) \<Longrightarrow> map_of (map (\<lambda>a. (f a, a)) xs) k = Some x \<longleftrightarrow> x \<in> set xs \<and> f x = k"
  by (subst map_of_eq_Some_iff) (auto simp: comp_def)

lemma new_catalog_Inr:
  "new_catalog actions = Inr c \<longleftrightarrow>
     distinct (map ac_action_key actions) \<and> (\<forall>a \<in> set actions. nonblank (ac_action_key a))
     \<and> (let ts = concat (map (\<lambda>a. case ac_armed_trigger a of None \<Rightarrow> [] | Some t \<Rightarrow> [t]) (sort_key ac_action_key actions))
        in distinct (map at_trigger_key ts) \<and> (\<forall>t \<in> set ts. nonblank (at_trigger_key t))
           \<and> c = \<lparr>cat_actions = sort_key ac_action_key actions,
                  cat_by_key = map (\<lambda>a. (ac_action_key a, a)) (sort_key ac_action_key actions),
                  cat_triggers_by_effect_key = map (\<lambda>t. (at_trigger_key t, t)) ts\<rparr>)"
  (is "?l = ?r")
proof
  have sd: "distinct (map ac_action_key (sort_key ac_action_key actions))" if "distinct (map ac_action_key actions)"
    using that by (simp add: distinct_map_sort_key)
  have dk: "dict_of (map (\<lambda>x. (f x, x)) xs) = map (\<lambda>x. (f x, x)) xs" if "distinct (map f xs)" for f :: "'x \<Rightarrow> string" and xs
    by (rule dict_of_distinct) (use that in \<open>simp add: comp_def\<close>)
  show ?r if ?l using that sd unfolding new_catalog_def by (auto simp: result_simps Let_def dk)
  show ?l if ?r using that sd unfolding new_catalog_def by (auto simp: result_simps Let_def dk)
qed

lemma catalog_get_Inr:
  assumes "new_catalog actions = Inr c"
  shows "catalog_get c k = Inr a \<longleftrightarrow> a \<in> set actions \<and> ac_action_key a = k"
proof -
  let ?s = "sort_key ac_action_key actions"
  have "distinct (map ac_action_key ?s)" using assms
    by (metis new_catalog_Inr mset_eq_imp_distinct_iff mset_map mset_sort)
  from map_of_keyed [OF this, of k a]
  have "map_of (cat_by_key c) k = Some a \<longleftrightarrow> a \<in> set actions \<and> ac_action_key a = k"
    using assms by (simp add: new_catalog_Inr Let_def)
  then show ?thesis by (auto simp: catalog_get_def split: option.split)
qed

lemma new_catalog_mset:
  assumes "mset xs = mset ys" "new_catalog xs = Inr c"
  shows "new_catalog ys = Inr c"
proof -
  have d: "distinct (map ac_action_key xs)" using assms(2) by (simp add: new_catalog_Inr)
  have "sort_key ac_action_key ys = sort_key ac_action_key xs"
    using sort_key_determined [OF assms(1) d] by simp
  moreover have "distinct (map ac_action_key ys)" using d assms(1) by (metis mset_eq_imp_distinct_iff mset_map)
  ultimately show ?thesis using assms mset_eq_setD [OF assms(1)] by (simp add: new_catalog_Inr)
qed

lemma weapon_hit_bounds:
  assumes "weapon_attack_spec_ok w = Inr ()"
  shows "0 \<le> wa_minimum_hit_chance w" "wa_minimum_hit_chance w \<le> wa_maximum_hit_chance w" "wa_maximum_hit_chance w \<le> 1"
  using assms unfolding weapon_attack_spec_ok_def rbind_eq_Inr checks_eq_Inr by simp_all

subsection \<open>Properties\<close>

text \<open>The action algebra is bounded. Although primitives nest inside conditionals, gates and areas, the
  checks of the constructors leave no room for deeper structures: an effect all of whose parts were
  accepted by their constructors nests at most seven objects (an area of an attack gate of a chance
  gate of a conditional of an applied effect of a periodic pulse of a direct effect).\<close>

theorem action_algebra_bounded:
  assumes "effect_built e"
  shows "effect_depth e \<le> 7"
  using assms by (rule built_depth_le)

theorem action_algebra_bounded_witness: "effect_depth deepest_effect \<le> 7 \<and> effect_depth deepest_effect = 7"
proof -
  have "effect_built deepest_effect" by code_simp
  from action_algebra_bounded [OF this] show ?thesis by code_simp
qed

text \<open>A catalog is determined by the actions it is given and not by their order: whenever a
  catalog is built from a list of actions, every rearrangement of the list builds the same catalog;
  its actions are listed in the order of their keys, and a lookup returns exactly the action with that
  key.\<close>

theorem catalog_deterministic:
  assumes "new_catalog actions = Inr c" and "mset others = mset actions"
  shows "new_catalog others = Inr c
    \<and> sorted (map ac_action_key (cat_actions c)) \<and> mset (cat_actions c) = mset actions
    \<and> (\<forall>k a. catalog_get c k = Inr a \<longleftrightarrow> a \<in> set actions \<and> ac_action_key a = k)"
  using new_catalog_mset [OF assms(2) [symmetric] assms(1)] catalog_get_Inr [OF assms(1)] assms(1)
  by (simp add: new_catalog_Inr Let_def)

definition example_phase :: action_phase where
  "example_phase = \<lparr>ph_kind = PHASE_ACTIVE, ph_duration_ms = 400, ph_effects = [deepest_effect],
     ph_delivery = \<lparr>ds_kind = IMMEDIATE, ds_projectile_speed = None\<rparr>, ph_interruptible = True, ph_movement_allowed = False\<rparr>"

definition example_action :: "string \<Rightarrow> action_spec" where
  "example_action k = \<lparr>ac_action_key = k,
     ac_targeting = \<lparr>ts_kind = TK_SELF, ts_allowed_relations = [], ts_minimum_range = 0, ts_maximum_range = None,
       ts_requires_line_of_sight = False\<rparr>,
     ac_phases = [example_phase, example_phase], ac_cooldown_ms = 1000, ac_costs = [], ac_required_actor_tags = [],
     ac_forbidden_actor_tags = [], ac_features = [], ac_weapon_attack = None, ac_armed_trigger = None,
     ac_tags = [], ac_hit_roll = Some BASIC, ac_cancel_on_damage = True, ac_cancel_on_stun = False\<rparr>"

theorem catalog_deterministic_witness:
  "\<exists>c. new_catalog [example_action ''b'', example_action ''a''] = Inr c
     \<and> new_catalog [example_action ''a'', example_action ''b''] = Inr c
     \<and> map ac_action_key (cat_actions c) = [''a'', ''b'']"
proof -
  let ?c = "\<lparr>cat_actions = [example_action ''a'', example_action ''b''],
    cat_by_key = [(''a'', example_action ''a''), (''b'', example_action ''b'')], cat_triggers_by_effect_key = []\<rparr>"
  have "new_catalog [example_action ''b'', example_action ''a''] = Inr ?c"
    by (simp add: new_catalog_def unique_strings_def example_action_def py_identifier_def nonblank_def py_space_def
        dict_of_def less_char_def)
  from catalog_deterministic [OF this, of "[example_action ''a'', example_action ''b'']"] this
  show ?thesis by (auto simp: example_action_def)
qed

text \<open>The chance to hit of a weapon attack stays within the bounds of its specification, hence
  within the unit interval, whatever the ratings of the two sides and however the float operations
  round; an attack that bypasses the defence always hits.\<close>

theorem hit_chance_bounds:
  assumes "weapon_attack_spec_ok w = Inr ()"
  shows "hit_chance rnd w attack_rating defense True = 1
    \<and> wa_minimum_hit_chance w \<le> hit_chance rnd w attack_rating defense False
    \<and> hit_chance rnd w attack_rating defense False \<le> wa_maximum_hit_chance w
    \<and> 0 \<le> hit_chance rnd w attack_rating defense bypass \<and> hit_chance rnd w attack_rating defense bypass \<le> 1"
  using weapon_hit_bounds [OF assms] by (auto simp: hit_chance_def Let_def)

definition example_weapon :: weapon_attack_spec where
  "example_weapon = \<lparr>wa_weapon_slot = ''main'', wa_damage_type = ''slash'', wa_minimum_damage = 10, wa_maximum_damage = 20,
     wa_attack_rating_scalar = ''attack_rating'', wa_defense_scalar = ''defense'', wa_minimum_damage_scalar = None,
     wa_maximum_damage_scalar = None, wa_default_attack_rating = 100, wa_default_defense = 100,
     wa_minimum_hit_chance = 1 / 20, wa_maximum_hit_chance = 19 / 20,
     wa_passive_defense_keys = [''block'', ''dodge'', ''parry''], wa_phase_index = 0\<rparr>"

theorem hit_chance_bounds_witness:
  "1 / 20 \<le> hit_chance id example_weapon 300 100 False \<and> hit_chance id example_weapon 300 100 False = 3 / 4"
proof -
  have "weapon_attack_spec_ok example_weapon = Inr ()" by code_simp
  from hit_chance_bounds [OF this, of id 300 100] show ?thesis by (simp add: example_weapon_def hit_chance_def)
qed

end
