(* ===== verification/Py_Float.thy ===== *)
theory Py_Float
  imports Py_Base
begin

text \<open>
  Binary floating-point rounding as Python's \<open>float\<close> (IEEE binary64) and the \<open>struct\<close> format \<open><f\<close> (IEEE
  binary32) perform it: round to nearest, ties to even, with gradual underflow. A float is the
  rational number it denotes; the exponent has no upper bound here, except that packing a number whose
  binary32 rounding is out of range raises \<open>OverflowError\<close>, as \<open>struct.pack\<close> does.

  The locale \<open>float_rounding\<close> is what the simulator relies on: rounding is monotone, keeps zero and the
  numbers it has produced, and commutes with negation. Both formats are interpretations of it, so what is
  proved for an arbitrary such rounding holds of the program's arithmetic.
\<close>

subsection \<open>Rounding to an integer\<close>

text \<open>\<open>round(q)\<close> and \<open>int(q)\<close> of a float.\<close>

definition py_round :: "rat \<Rightarrow> int" where
  "py_round q =
     (let f = \<lfloor>q\<rfloor>; d = q - of_int f
      in if d < 1 / 2 then f else if d > 1 / 2 then f + 1 else if even f then f else f + 1)"

definition py_trunc :: "rat \<Rightarrow> int" where
  "py_trunc q = (if q < 0 then \<lceil>q\<rceil> else \<lfloor>q\<rfloor>)"

lemma py_round_of_int [simp]: "py_round (of_int n) = n"
  by (simp add: py_round_def)

lemma py_round_bounds: "\<lfloor>q\<rfloor> \<le> py_round q" "py_round q \<le> \<lfloor>q\<rfloor> + 1"
  by (simp_all add: py_round_def Let_def)

lemma py_round_mono:
  assumes "q \<le> r"
  shows "py_round q \<le> py_round r"
proof (cases "\<lfloor>q\<rfloor> = \<lfloor>r\<rfloor>")
  case True
  then show ?thesis using assms by (auto simp: py_round_def Let_def)
next
  case False
  with assms have "\<lfloor>q\<rfloor> + 1 \<le> \<lfloor>r\<rfloor>" using floor_mono [OF assms] by linarith
  with py_round_bounds(2) [of q] py_round_bounds(1) [of r] show ?thesis by linarith
qed

lemma py_round_le: "q \<le> of_int n \<Longrightarrow> py_round q \<le> n"
  using py_round_mono [of q "of_int n"] by simp

lemma py_round_ge: "of_int n \<le> q \<Longrightarrow> n \<le> py_round q"
  using py_round_mono [of "of_int n" q] by simp

lemma py_round_uminus: "py_round (- q) = - py_round q"
proof (cases "q = of_int \<lfloor>q\<rfloor>")
  case True
  then show ?thesis by (metis of_int_minus py_round_of_int)
next
  case False
  then have "of_int \<lfloor>q\<rfloor> < q" using of_int_floor_le [of q] by linarith
  then have f: "\<lfloor>- q\<rfloor> = - \<lfloor>q\<rfloor> - 1" by (simp add: floor_eq_iff) linarith
  show ?thesis unfolding py_round_def Let_def f by (auto simp: field_simps)
qed

lemma py_trunc_of_int [simp]: "py_trunc (of_int n) = n"
  by (simp add: py_trunc_def)

lemma py_trunc_mono: "q \<le> r \<Longrightarrow> py_trunc q \<le> py_trunc r"
proof (cases "q < 0 \<and> \<not> r < 0")
  case True
  then have "\<lceil>q\<rceil> \<le> 0" "0 \<le> \<lfloor>r\<rfloor>" by simp_all
  then have "\<lceil>q\<rceil> \<le> \<lfloor>r\<rfloor>" by (rule order_trans)
  with True show ?thesis unfolding py_trunc_def by simp
next
  case False
  assume "q \<le> r"
  with False show ?thesis by (auto simp: py_trunc_def intro: ceiling_mono floor_mono)
qed

subsection \<open>Binary rounding\<close>

fun ilog2 :: "nat \<Rightarrow> nat" where
  "ilog2 n = (if n < 2 then 0 else Suc (ilog2 (n div 2)))"

declare ilog2.simps [simp del]

definition pow2 :: "int \<Rightarrow> rat" where
  "pow2 e = (if 0 \<le> e then 2 ^ nat e else 1 / 2 ^ nat (- e))"

text \<open>The exponent of the leading bit of a positive number.\<close>

definition floor_log2 :: "rat \<Rightarrow> int" where
  "floor_log2 q =
     (if 1 \<le> q then int (ilog2 (nat \<lfloor>q\<rfloor>))
      else let k = int (ilog2 (nat \<lfloor>1 / q\<rfloor>)) in if pow2 (- k) \<le> q then - k else - k - 1)"

definition round_bin :: "nat \<Rightarrow> int \<Rightarrow> rat \<Rightarrow> rat" where
  "round_bin precision emin q =
     (if q = 0 then 0
      else let e = max emin (floor_log2 \<bar>q\<bar> - (int precision - 1))
           in of_int (py_round (q / pow2 e)) * pow2 e)"

definition f64 :: "rat \<Rightarrow> rat" where
  "f64 = round_bin 53 (- 1074)"

definition f32_round :: "rat \<Rightarrow> rat" where
  "f32_round = round_bin 24 (- 149)"

definition f32 :: "rat \<Rightarrow> rat result" where
  "f32 q = (if \<bar>f32_round q\<bar> < pow2 128 then Inr (f32_round q)
     else Inl (OverflowError ''float too large to pack with f format''))"

lemma ilog2_bounds: "0 < n \<Longrightarrow> 2 ^ ilog2 n \<le> n \<and> n < 2 * 2 ^ ilog2 n"
proof (induction n rule: ilog2.induct)
  case (1 n)
  show ?case
  proof (cases "n < 2")
    case True
    with 1(2) show ?thesis by (simp add: ilog2.simps)
  next
    case False
    with 1(1) have "2 ^ ilog2 (n div 2) \<le> n div 2" "n div 2 < 2 * 2 ^ ilog2 (n div 2)" by simp_all
    moreover have "ilog2 n = Suc (ilog2 (n div 2))" using False by (subst ilog2.simps) simp
    moreover have "2 * (n div 2) \<le> n" "n < 2 * (n div 2) + 2" by simp_all
    moreover define p :: nat where "p = 2 ^ ilog2 (n div 2)"
    ultimately have "p \<le> n div 2" "n div 2 < 2 * p" "2 ^ ilog2 n = 2 * p" "2 * (n div 2) \<le> n" "n < 2 * (n div 2) + 2" by simp_all
    then show ?thesis by linarith
  qed
qed

lemma pow2_pos [simp]: "0 < pow2 e"
  by (simp add: pow2_def)

lemma pow2_nonzero [simp]: "pow2 e \<noteq> 0"
  using pow2_pos [of e] by linarith

lemma pow2_abs [simp]: "\<bar>pow2 e\<bar> = pow2 e"
  by (simp add: less_imp_le)

lemma pow2_0 [simp]: "pow2 0 = 1"
  by (simp add: pow2_def)

lemma pow2_nat: "pow2 (int n) = 2 ^ n"
  by (simp add: pow2_def)

lemma pow2_minus: "pow2 (- e) = 1 / pow2 e"
  by (auto simp: pow2_def)

lemma pow2_powi: "pow2 e = 2 powi e"
  by (simp add: pow2_def power_int_def inverse_eq_divide power_divide)

lemma pow2_add: "pow2 (a + b) = pow2 a * pow2 b"
  by (simp add: pow2_powi power_int_add)

lemma pow2_diff: "pow2 (a - b) = pow2 a / pow2 b"
  by (simp add: pow2_powi power_int_diff)

lemma pow2_mono: "a \<le> b \<Longrightarrow> pow2 a \<le> pow2 b"
  by (simp add: pow2_powi power_int_increasing)

lemma pow2_strict_mono: "a < b \<Longrightarrow> pow2 a < pow2 b"
  by (simp add: pow2_powi power_int_strict_increasing)

lemma pow2_less_cancel: "pow2 a < pow2 b \<Longrightarrow> a < b"
  using pow2_mono [of b a] by linarith

lemma floor_log2_bounds:
  assumes "0 < q"
  shows "pow2 (floor_log2 q) \<le> q" "q < pow2 (floor_log2 q + 1)"
proof -
  have *: "pow2 (int (ilog2 (nat \<lfloor>x\<rfloor>))) \<le> x \<and> x < pow2 (int (ilog2 (nat \<lfloor>x\<rfloor>)) + 1)" if "1 \<le> x" for x :: rat
  proof -
    define n where "n = nat \<lfloor>x\<rfloor>"
    have n: "0 < n" "of_nat n \<le> x" "x < of_nat n + 1" using that by (simp_all add: n_def) linarith
    have b: "2 ^ ilog2 n \<le> n" "n + 1 \<le> 2 * 2 ^ ilog2 n" using ilog2_bounds [OF n(1)] by simp_all
    have "rat_of_nat (2 ^ ilog2 n) \<le> of_nat n" "rat_of_nat (n + 1) \<le> of_nat (2 * 2 ^ ilog2 n)" by (simp_all only: of_nat_le_iff b)
    then have "2 ^ ilog2 n \<le> rat_of_nat n" "rat_of_nat n + 1 \<le> 2 * 2 ^ ilog2 n" by (simp_all only: of_nat_power of_nat_numeral of_nat_mult of_nat_add of_nat_1)
    then have "2 ^ ilog2 n \<le> x" "x < 2 * 2 ^ ilog2 n" using n(2,3) by linarith+
    then show ?thesis by (fold n_def) (simp add: pow2_add pow2_nat pow2_def [of 1])
  qed
  have "pow2 (floor_log2 q) \<le> q \<and> q < pow2 (floor_log2 q + 1)"
  proof (cases "1 \<le> q")
    case True
    then show ?thesis using * [of q] by (simp add: floor_log2_def)
  next
    case False
    define k where "k = int (ilog2 (nat \<lfloor>1 / q\<rfloor>))"
    have "1 \<le> 1 / q" using False assms by simp
    from * [OF this] have k: "pow2 k * q \<le> 1" "1 < 2 * pow2 k * q"
      using assms by (simp_all add: k_def [symmetric] pow2_add field_simps pow2_def [of 1])
    have "pow2 (floor_log2 q) = (if pow2 (- k) \<le> q then pow2 (- k) else pow2 (- k) / 2)"
      using False by (simp add: floor_log2_def k_def [symmetric] Let_def pow2_diff pow2_def [of 1])
    then show ?thesis using k by (auto simp: pow2_add pow2_minus field_simps pow2_def [of 1])
  qed
  then show "pow2 (floor_log2 q) \<le> q" "q < pow2 (floor_log2 q + 1)" by simp_all
qed

lemma floor_log2_mono: "0 < q \<Longrightarrow> q \<le> r \<Longrightarrow> floor_log2 q \<le> floor_log2 r"
  using floor_log2_bounds [of q] floor_log2_bounds [of r] pow2_less_cancel [of "floor_log2 q" "floor_log2 r + 1"] by linarith

subsection \<open>What rounding guarantees\<close>

locale float_rounding =
  fixes rnd :: "rat \<Rightarrow> rat"
  assumes rnd_mono: "q \<le> r \<Longrightarrow> rnd q \<le> rnd r"
    and rnd_0 [simp]: "rnd 0 = 0"
    and rnd_1 [simp]: "rnd 1 = 1"
    and rnd_rnd [simp]: "rnd (rnd q) = rnd q"
    and rnd_uminus: "rnd (- q) = - rnd q"
begin

lemma rnd_nonneg: "0 \<le> q \<Longrightarrow> 0 \<le> rnd q"
  using rnd_mono [of 0 q] by simp

lemma rnd_nonpos: "q \<le> 0 \<Longrightarrow> rnd q \<le> 0"
  using rnd_mono [of q 0] by simp

lemma rnd_le: "q \<le> r \<Longrightarrow> rnd r = r \<Longrightarrow> rnd q \<le> r"
  using rnd_mono [of q r] by simp

lemma rnd_ge: "r \<le> q \<Longrightarrow> rnd r = r \<Longrightarrow> r \<le> rnd q"
  using rnd_mono [of r q] by simp

end

lemma round_bin_uminus: "round_bin p emin (- q) = - round_bin p emin q"
  by (simp add: round_bin_def Let_def py_round_uminus)

text \<open>A power of two within the precision of a number bounds its rounding.\<close>

lemma round_bin_bound:
  assumes "0 < q" "q \<le> pow2 E" "max emin (floor_log2 q - (int p - 1)) \<le> E"
  shows "round_bin p emin q \<le> pow2 E"
proof -
  define e where "e = max emin (floor_log2 q - (int p - 1))"
  have i: "pow2 (E - e) = of_int (2 ^ nat (E - e))" using assms(3) by (simp add: e_def [symmetric] pow2_def)
  have "q / pow2 e \<le> of_int (2 ^ nat (E - e))" unfolding i [symmetric] pow2_diff using assms(2) by (simp add: divide_right_mono less_imp_le)
  then have "py_round (q / pow2 e) \<le> 2 ^ nat (E - e)" by (rule py_round_le)
  then have "rat_of_int (py_round (q / pow2 e)) \<le> pow2 (E - e)" by (simp only: i of_int_le_iff)
  then have "of_int (py_round (q / pow2 e)) * pow2 e \<le> pow2 E" by (simp add: pow2_diff field_simps)
  then show ?thesis using assms(1) by (simp add: round_bin_def e_def Let_def)
qed

lemma round_bin_ge:
  assumes "0 < q" "pow2 E \<le> q" "max emin (floor_log2 q - (int p - 1)) \<le> E"
  shows "pow2 E \<le> round_bin p emin q"
proof -
  define e where "e = max emin (floor_log2 q - (int p - 1))"
  have i: "pow2 (E - e) = of_int (2 ^ nat (E - e))" using assms(3) by (simp add: e_def [symmetric] pow2_def)
  have "of_int (2 ^ nat (E - e)) \<le> q / pow2 e" unfolding i [symmetric] pow2_diff using assms(2) by (simp add: divide_right_mono less_imp_le)
  then have "2 ^ nat (E - e) \<le> py_round (q / pow2 e)" by (rule py_round_ge)
  then have "pow2 (E - e) \<le> rat_of_int (py_round (q / pow2 e))" by (simp only: i of_int_le_iff)
  then have "pow2 E \<le> of_int (py_round (q / pow2 e)) * pow2 e" by (simp add: pow2_diff field_simps)
  then show ?thesis using assms(1) by (simp add: round_bin_def e_def Let_def)
qed

lemma round_bin_same_exponent:
  assumes "q \<le> r" "max emin (floor_log2 \<bar>q\<bar> - (int p - 1)) = max emin (floor_log2 \<bar>r\<bar> - (int p - 1))" "q \<noteq> 0" "r \<noteq> 0"
  shows "round_bin p emin q \<le> round_bin p emin r"
  using assms by (simp add: round_bin_def Let_def divide_right_mono less_imp_le py_round_mono)

lemma round_bin_pos_mono:
  assumes "0 < q" "q \<le> r" "0 < p"
  shows "round_bin p emin q \<le> round_bin p emin r"
proof (cases "max emin (floor_log2 q - (int p - 1)) = max emin (floor_log2 r - (int p - 1))")
  case True
  then show ?thesis using assms by (intro round_bin_same_exponent) simp_all
next
  case False
  define E where "E = floor_log2 r"
  have less: "floor_log2 q < E" "emin < E - (int p - 1)" using False floor_log2_mono [OF assms(1,2)] by (auto simp: E_def max_def split: if_splits)
  have "q \<le> pow2 E" using floor_log2_bounds(2) [OF assms(1)] pow2_mono [of "floor_log2 q + 1" E] less by linarith
  then have "round_bin p emin q \<le> pow2 E" using less assms by (intro round_bin_bound) auto
  also have "\<dots> \<le> round_bin p emin r"
    using floor_log2_bounds(1) [of r] assms less by (intro round_bin_ge) (auto simp: E_def)
  finally show ?thesis .
qed

lemma round_bin_nonneg: "0 \<le> q \<Longrightarrow> 0 \<le> round_bin p emin q"
  using py_round_ge [of 0 "q / pow2 (max emin (floor_log2 \<bar>q\<bar> - (int p - 1)))"] by (simp add: round_bin_def Let_def less_imp_le)

lemma round_bin_mono:
  assumes "q \<le> r" "0 < p"
  shows "round_bin p emin q \<le> round_bin p emin r"
proof -
  consider "0 < q" | "q \<le> 0" "0 \<le> r" | "r < 0" using assms by linarith
  then show ?thesis
  proof cases
    case 1
    then show ?thesis using assms by (intro round_bin_pos_mono)
  next
    case 2
    have "0 \<le> round_bin p emin (- q)" using 2 by (intro round_bin_nonneg) simp
    moreover have "0 \<le> round_bin p emin r" using 2 by (intro round_bin_nonneg)
    ultimately show ?thesis by (simp add: round_bin_uminus)
  next
    case 3
    then have "round_bin p emin (- r) \<le> round_bin p emin (- q)" using assms by (intro round_bin_pos_mono) simp_all
    then show ?thesis by (simp add: round_bin_uminus)
  qed
qed

text \<open>Multiples of the unit in the last place are kept.\<close>

lemma round_bin_exact:
  assumes "q = of_int n * pow2 e" "emin \<le> e" "\<bar>n\<bar> < 2 ^ p"
  shows "round_bin p emin q = q"
proof (cases "q = 0")
  case False
  define E where "E = max emin (floor_log2 \<bar>q\<bar> - (int p - 1))"
  have "\<bar>q\<bar> < pow2 (int p) * pow2 e"
  proof -
    have "rat_of_int \<bar>n\<bar> < of_int (2 ^ p)" using assms(3) by (simp only: of_int_less_iff)
    then show ?thesis by (simp add: assms(1) abs_mult pow2_nat)
  qed
  also have "\<dots> = pow2 (int p + e)" by (simp add: pow2_add)
  finally have "pow2 (floor_log2 \<bar>q\<bar>) < pow2 (int p + e)" using floor_log2_bounds(1) [of "\<bar>q\<bar>"] False by simp
  then have "floor_log2 \<bar>q\<bar> < int p + e" by (rule pow2_less_cancel)
  then have "E \<le> e" using assms(2) by (auto simp: E_def)
  then have "pow2 (e - E) = 2 ^ nat (e - E)" by (simp add: pow2_def)
  then have "q / pow2 E = of_int (n * 2 ^ nat (e - E))" by (simp add: assms(1) pow2_diff times_divide_eq_right [symmetric] del: times_divide_eq_right)
  then have "of_int (py_round (q / pow2 E)) * pow2 E = q / pow2 E * pow2 E" by (simp only: py_round_of_int)
  then show ?thesis using False by (simp add: round_bin_def E_def Let_def)
qed (simp add: round_bin_def)

lemma round_bin_form:
  assumes "0 < p"
  shows "\<exists>n e. round_bin p emin q = of_int n * pow2 e \<and> emin \<le> e \<and> \<bar>n\<bar> < 2 ^ p"
proof (cases "q = 0")
  case True
  then show ?thesis by (intro exI [of _ 0] exI [of _ emin]) (simp add: round_bin_def)
next
  case False
  define e where "e = max emin (floor_log2 \<bar>q\<bar> - (int p - 1))"
  define n where "n = py_round (q / pow2 e)"
  have r: "round_bin p emin q = of_int n * pow2 e" using False by (simp add: round_bin_def e_def n_def Let_def)
  have "\<bar>q\<bar> < pow2 (floor_log2 \<bar>q\<bar> + 1)" using False by (intro floor_log2_bounds) simp
  also have "\<dots> \<le> pow2 (int p + e)" by (intro pow2_mono) (simp add: e_def)
  finally have "\<bar>q / pow2 e\<bar> < of_int (2 ^ p)" by (simp add: pow2_add pow2_nat field_simps abs_divide)
  then have "q / pow2 e \<le> of_int (2 ^ p)" "of_int (- (2 ^ p)) \<le> q / pow2 e" by (simp_all only: abs_less_iff of_int_minus) linarith+
  then have "n \<le> 2 ^ p" "- (2 ^ p) \<le> n" unfolding n_def by (blast intro: py_round_le py_round_ge)+
  then consider "\<bar>n\<bar> < 2 ^ p" | "n = 2 ^ p" | "n = - (2 ^ p)" by linarith
  then show ?thesis
  proof cases
    case 1
    then show ?thesis using r by (intro exI [of _ n] exI [of _ e]) (simp add: e_def)
  next
    case 2
    then have "round_bin p emin q = of_int 1 * pow2 (int p + e)" using r by (simp add: pow2_add pow2_nat)
    then show ?thesis using assms by (intro exI [of _ 1] exI [of _ "int p + e"]) (simp add: e_def)
  next
    case 3
    then have "round_bin p emin q = of_int (- 1) * pow2 (int p + e)" using r by (simp add: pow2_add pow2_nat)
    then show ?thesis using assms by (intro exI [of _ "- 1"] exI [of _ "int p + e"]) (simp add: e_def)
  qed
qed

lemma round_bin_idem: "0 < p \<Longrightarrow> round_bin p emin (round_bin p emin q) = round_bin p emin q"
  using round_bin_form [of p emin q] round_bin_exact by metis

lemma round_bin_int: "0 < p \<Longrightarrow> emin \<le> 0 \<Longrightarrow> \<bar>n\<bar> < 2 ^ p \<Longrightarrow> round_bin p emin (of_int n) = of_int n"
  by (rule round_bin_exact [of _ n 0]) simp_all

lemma round_bin_rounding:
  assumes "1 < p" "emin \<le> 0"
  shows "float_rounding (round_bin p emin)"
proof
  have "1 < (2::int) ^ p" using assms(1) by simp
  then show "round_bin p emin 1 = 1" using round_bin_int [of p emin 1] assms by simp
  show "round_bin p emin 0 = 0" by (simp add: round_bin_def)
qed (use assms in \<open>simp_all add: round_bin_mono round_bin_idem round_bin_uminus\<close>)

interpretation f64: float_rounding f64
  unfolding f64_def by (rule round_bin_rounding) simp_all

interpretation f32_round: float_rounding f32_round
  unfolding f32_round_def by (rule round_bin_rounding) simp_all

lemma f64_int: "\<bar>n\<bar> < 2 ^ 53 \<Longrightarrow> f64 (of_int n) = of_int n"
  unfolding f64_def by (rule round_bin_int) simp_all

text \<open>Evaluation: powers of two as fractions; small integers need no rounding.\<close>

lemma pow2_code [code abstract]: "quotient_of (pow2 e) = (if 0 \<le> e then (2 ^ nat e, 1) else (1, 2 ^ nat (- e)))"
proof -
  have "pow2 e = (if 0 \<le> e then Fract (2 ^ nat e) 1 else Fract 1 (2 ^ nat (- e)))"
    by (simp add: pow2_def Fract_of_int_quotient)
  then show ?thesis by (simp add: quotient_of_Fract normalize_def)
qed

lemma f64_code [code]:
  "f64 q = (if q = of_int \<lfloor>q\<rfloor> \<and> \<bar>\<lfloor>q\<rfloor>\<bar> < 2 ^ 53 then q else round_bin 53 (- 1074) q)"
  using f64_int [of "\<lfloor>q\<rfloor>"] by (auto simp: f64_def)

lemma f32_round_code [code]:
  "f32_round q = (if q = of_int \<lfloor>q\<rfloor> \<and> \<bar>\<lfloor>q\<rfloor>\<bar> < 2 ^ 24 then q else round_bin 24 (- 149) q)"
  using round_bin_int [of 24 "- 149" "\<lfloor>q\<rfloor>"] by (auto simp: f32_round_def)

lemma f32_Inr: "f32 q = Inr v \<longleftrightarrow> v = f32_round q \<and> \<bar>f32_round q\<bar> < pow2 128"
  by (auto simp: f32_def)

lemma f32_mono: "f32 q = Inr v \<Longrightarrow> f32 r = Inr w \<Longrightarrow> q \<le> r \<Longrightarrow> v \<le> w"
  by (simp add: f32_Inr f32_round.rnd_mono)

end
