(* ===== verification/Combat_Formulas.thy ===== *)
theory Combat_Formulas
  imports Sim_Actions Py_Float
begin

text \<open>
  The combat formulas (\<^verbatim>\<open>combat/formulas.py\<close>): ports of Java code that mixes single and double precision, so
  every operation is rounded where the source rounds it. \<open>f64\<close> is the rounding of a Python float
  operation, \<open>f32\<close> is \<open>_f32\<close> and \<open>f32_literal\<close> is \<open>_f32\<close> of a literal. \<open>math.pow\<close> is an argument.
\<close>

subsection \<open>Checks and conversions\<close>

definition formula_non_negative :: "rat \<Rightarrow> string \<Rightarrow> unit result" where
  "formula_non_negative v field_name = checks [(v < 0, ValueError (field_name @ '' must not be negative''))]"

definition fraction_ok :: "rat \<Rightarrow> string \<Rightarrow> unit result" where
  "fraction_ok v field_name = checks [(\<not> (0 \<le> v \<and> v < 1), ValueError (field_name @ '' must be in [0, 1)''))]"

definition f32_literal :: "rat \<Rightarrow> rat" where
  "f32_literal q = f32_round (f64 q)"

text \<open>The conversion of an integer operand to a float.\<close>

definition float_of_int :: "int \<Rightarrow> rat result" where
  "float_of_int n = (if \<bar>f64 (of_int n)\<bar> < pow2 1024 then Inr (f64 (of_int n))
     else Inl (OverflowError ''int too large to convert to float''))"

subsection \<open>Hit chances\<close>

definition melee_hit_chance_percent :: "rat \<Rightarrow> rat \<Rightarrow> int result" where
  "melee_hit_chance_percent attack defense =
     rbind (formula_non_negative attack ''attack_rating'') (\<lambda>_.
     rbind (formula_non_negative defense ''defense_rating'') (\<lambda>_.
     rbind (f32 (f64 (attack - defense))) (\<lambda>difference.
     Inr (if difference > 100 then 94
          else if difference < - 100 then 4
          else py_trunc (f64 (f64 (f64 (9 / 20) * difference) + 49))))))"

definition power_hit_chance_percent :: "rat \<Rightarrow> rat \<Rightarrow> int result" where
  "power_hit_chance_percent attack defense =
     rbind (formula_non_negative attack ''attack_rating'') (\<lambda>_.
     rbind (formula_non_negative defense ''defense_rating'') (\<lambda>_.
     if attack > defense \<or> defense = 0 then Inr 94
     else rbind (f32 (f64 (attack / defense))) (\<lambda>ratio.
     if ratio \<le> f32_literal (4 / 5) then Inr 4
     else rbind (f32 (f64 (ratio - f32_literal (4 / 5)))) (\<lambda>above.
     rbind (f32 (f64 (f32_literal 450 * above))) (\<lambda>scaled.
     Inr (py_trunc scaled + 4))))))"

subsection \<open>Ratings\<close>

definition weapon_attack_rating ::
    "rat \<Rightarrow> rat \<Rightarrow> int \<Rightarrow> int \<Rightarrow> rat \<Rightarrow> rat \<Rightarrow> rat \<Rightarrow> bool \<Rightarrow> int result" where
  "weapon_attack_rating weapon_skill weapon_mastery strength dexterity flat_ocv positive_ocv negative_ocv death_shroud =
     rbind (non_negative_integer strength ''strength'') (\<lambda>_.
     rbind (non_negative_integer dexterity ''dexterity'') (\<lambda>_.
     rbind (checks [(weapon_skill < 0 \<or> weapon_mastery < 0, ValueError ''skills must not be negative'')]) (\<lambda>_.
     if death_shroud then Inr 0
     else
     rbind (float_of_int (py_trunc weapon_skill)) (\<lambda>skill.
     rbind (f32 (f64 (skill * 4))) (\<lambda>a1.
     rbind (float_of_int (py_trunc weapon_mastery)) (\<lambda>mastery.
     rbind (f32 (f64 (a1 + f64 (mastery * 3)))) (\<lambda>a2.
     rbind (float_of_int (max strength dexterity div 2)) (\<lambda>attribute.
     rbind (f32 (f64 (a2 + attribute))) (\<lambda>a3.
     rbind (f32 (f64 (a3 + flat_ocv))) (\<lambda>a4.
     rbind (f32 (f64 (1 + positive_ocv))) (\<lambda>positive.
     rbind (f32 (f64 (a4 * positive))) (\<lambda>a5.
     rbind (f32 (f64 (1 + negative_ocv))) (\<lambda>negative.
     rbind (f32 (f64 (a5 * negative))) (\<lambda>a6.
     rbind (f32 (f64 (a6 + f32_literal (1 / 2)))) (\<lambda>a7.
     Inr (py_trunc (max 1 a7)))))))))))))))))"

definition power_attack_rating :: "rat \<Rightarrow> int \<Rightarrow> rat \<Rightarrow> rat \<Rightarrow> rat \<Rightarrow> rat result" where
  "power_attack_rating focus dexterity flat_ocv positive_ocv negative_ocv =
     rbind (formula_non_negative focus ''focus'') (\<lambda>_.
     rbind (non_negative_integer dexterity ''dexterity'') (\<lambda>_.
     rbind (float_of_int (py_trunc focus)) (\<lambda>skill.
     rbind (float_of_int (dexterity div 2)) (\<lambda>attribute.
     rbind (f32 (f64 (f64 (skill * 7) + attribute))) (\<lambda>a1.
     rbind (f32 (f64 (a1 + flat_ocv))) (\<lambda>a2.
     rbind (f32 (f64 (1 + positive_ocv))) (\<lambda>positive.
     rbind (f32 (f64 (a2 * positive))) (\<lambda>a3.
     rbind (f32 (f64 (1 + negative_ocv))) (\<lambda>negative.
     f32 (f64 (a3 * negative)))))))))))"

definition defense_rating :: "int \<Rightarrow> rat \<Rightarrow> rat \<Rightarrow> rat \<Rightarrow> rat \<Rightarrow> bool \<Rightarrow> int result" where
  "defense_rating dexterity equipment flat positive_dcv negative_dcv death_shroud =
     rbind (non_negative_integer dexterity ''dexterity'') (\<lambda>_.
     if death_shroud then Inr 0
     else
     rbind (float_of_int dexterity) (\<lambda>d.
     rbind (f32 (f64 (d * 2))) (\<lambda>d1.
     rbind (f32 (f64 (d1 + equipment))) (\<lambda>d2.
     rbind (float_of_int (py_trunc flat)) (\<lambda>whole.
     rbind (f32 (f64 (d2 + whole))) (\<lambda>d3.
     rbind (f32 (f64 (1 + positive_dcv))) (\<lambda>positive.
     rbind (f32 (f64 (d3 * positive))) (\<lambda>d4.
     rbind (float_of_int (py_trunc d4)) (\<lambda>d5.
     rbind (f32 (f64 (1 + negative_dcv))) (\<lambda>negative.
     rbind (f32 (f64 (d5 * negative))) (\<lambda>d6.
     rbind (float_of_int (py_trunc d6)) (\<lambda>d7.
     rbind (f32 (f64 (max 1 d7 + f32_literal (1 / 2)))) (\<lambda>d8.
     Inr (py_trunc d8))))))))))))))"

subsection \<open>Weapon damage\<close>

record weapon_damage_inputs =
  wd_base_minimum :: rat
  wd_base_maximum :: rat
  wd_primary_attribute :: int
  wd_secondary_attribute :: int
  wd_weapon_skill :: rat
  wd_weapon_mastery :: rat
  wd_item_minimum_flat :: rat
  wd_item_maximum_flat :: rat
  wd_item_damage_flat :: rat
  wd_item_minimum_percent :: rat
  wd_item_maximum_percent :: rat
  wd_item_damage_percent :: rat
  wd_character_minimum_flat :: rat
  wd_character_maximum_flat :: rat
  wd_character_damage_flat :: rat
  wd_character_minimum_percent :: rat
  wd_character_maximum_percent :: rat
  wd_character_damage_percent :: rat
  wd_dual_wielding :: bool
  wd_death_shroud :: bool

definition weapon_damage_inputs_ok :: "weapon_damage_inputs \<Rightarrow> unit result" where
  "weapon_damage_inputs_ok w = checks
     [(wd_base_minimum w < 0 \<or> wd_base_maximum w < wd_base_minimum w,
         ValueError ''weapon base damage bounds must be ordered and non-negative''),
      (wd_primary_attribute w < 0, ValueError ''primary_attribute must be a non-negative integer''),
      (wd_secondary_attribute w < 0, ValueError ''secondary_attribute must be a non-negative integer''),
      (wd_weapon_skill w < 0, ValueError ''weapon_skill must not be negative''),
      (wd_weapon_mastery w < 0, ValueError ''weapon_mastery must not be negative'')]"

text \<open>The two bounds go through the same operations with different fields and coefficients: item
  bonuses, the attribute scale rounded to a whole number, the shroud, character bonuses.\<close>

definition attribute_scale :: "(rat \<Rightarrow> rat \<Rightarrow> rat) \<Rightarrow> weapon_damage_inputs \<Rightarrow> rat \<Rightarrow> rat \<Rightarrow> rat \<Rightarrow> rat result" where
  "attribute_scale pow w cp cs ck =
     rbind (float_of_int (wd_primary_attribute w)) (\<lambda>primary.
     rbind (float_of_int (wd_secondary_attribute w)) (\<lambda>secondary.
     rbind (float_of_int (py_trunc (wd_weapon_skill w) + py_trunc (wd_weapon_mastery w))) (\<lambda>skill_total.
     Inr (f64 (f64 (f64 (f32_literal cp * pow primary (f32_literal (3 / 4)))
            + f64 (f32_literal cs * pow secondary (f32_literal (3 / 4))))
            + f64 (f32_literal ck * skill_total))))))"

definition item_damage :: "weapon_damage_inputs \<Rightarrow> rat \<Rightarrow> rat \<Rightarrow> rat \<Rightarrow> rat" where
  "item_damage w base flat percent =
     (let d = f64 (f64 (f64 (base + flat) + wd_item_damage_flat w) * f64 (f64 (1 + percent) + wd_item_damage_percent w))
      in if wd_dual_wielding w then f64 (d * f32_literal (7 / 10)) else d)"

definition scaled_damage :: "weapon_damage_inputs \<Rightarrow> rat \<Rightarrow> rat \<Rightarrow> rat result" where
  "scaled_damage w damage scale =
     rbind (f32 (f64 (damage * scale))) (\<lambda>a.
     rbind (f32 (f64 (a + f32_literal (1 / 2)))) (\<lambda>b.
     float_of_int (py_trunc b)))"

definition shrouded_damage :: "weapon_damage_inputs \<Rightarrow> rat \<Rightarrow> rat result" where
  "shrouded_damage w damage =
     (if wd_death_shroud w then f32 (f64 (damage * f32_literal (1 / 2))) else Inr damage)"

definition character_damage :: "weapon_damage_inputs \<Rightarrow> rat \<Rightarrow> rat \<Rightarrow> rat \<Rightarrow> int" where
  "character_damage w damage flat percent =
     py_trunc (f64 (f64 (damage + f64 (flat + wd_character_damage_flat w))
       * f64 (f64 (1 + percent) + wd_character_damage_percent w)))"

definition weapon_damage_bounds :: "(rat \<Rightarrow> rat \<Rightarrow> rat) \<Rightarrow> weapon_damage_inputs \<Rightarrow> (int \<times> int) result" where
  "weapon_damage_bounds pow w =
     (let minimum = item_damage w (wd_base_minimum w) (wd_item_minimum_flat w) (wd_item_minimum_percent w);
          maximum = item_damage w (wd_base_maximum w) (wd_item_maximum_flat w) (wd_item_maximum_percent w)
      in rbind (attribute_scale pow w (315 / 10000) (42 / 1000) (1 / 100)) (\<lambda>minimum_scale.
      rbind (attribute_scale pow w (785 / 10000) (16 / 1000) (75 / 10000)) (\<lambda>maximum_scale.
      rbind (scaled_damage w minimum minimum_scale) (\<lambda>minimum1.
      rbind (scaled_damage w maximum maximum_scale) (\<lambda>maximum1.
      rbind (shrouded_damage w minimum1) (\<lambda>minimum2.
      rbind (shrouded_damage w maximum1) (\<lambda>maximum2.
      Inr (character_damage w minimum2 (wd_character_minimum_flat w) (wd_character_minimum_percent w),
           character_damage w maximum2 (wd_character_maximum_flat w) (wd_character_maximum_percent w)))))))))"

subsection \<open>Amounts\<close>

definition spell_scale :: "rat \<Rightarrow> rat \<Rightarrow> rat \<Rightarrow> rat \<Rightarrow> rat \<Rightarrow> rat \<Rightarrow> rat result" where
  "spell_scale int_min spi_min whole_focus ci cf cs =
     rbind (f32 (f64 (int_min * f32_literal ci))) (\<lambda>a.
     rbind (f32 (f64 (f32_literal cf * whole_focus))) (\<lambda>b.
     rbind (f32 (f64 (a + b))) (\<lambda>c.
     rbind (f32 (f64 (spi_min * f32_literal cs))) (\<lambda>d.
     f32 (f64 (c + d))))))"

definition spell_bound :: "rat \<Rightarrow> rat \<Rightarrow> int result" where
  "spell_bound base factor =
     rbind (f32 base) (\<lambda>b.
     rbind (f32 (f64 (b * factor))) (\<lambda>c.
     rbind (f32 (f64 (c + f32_literal (1 / 2)))) (\<lambda>d.
     Inr (py_trunc d))))"

definition spell_amount_bounds :: "(rat \<Rightarrow> rat \<Rightarrow> rat) \<Rightarrow> rat \<Rightarrow> rat \<Rightarrow> rat \<Rightarrow> rat \<Rightarrow> rat \<Rightarrow> (int \<times> int) result" where
  "spell_amount_bounds pow base_minimum base_maximum intelligence spirit focus =
     rbind (checks [(base_maximum < base_minimum, ValueError ''spell amount bounds must be ordered'')]) (\<lambda>_.
     rbind (formula_non_negative focus ''focus'') (\<lambda>_.
     rbind (f32 (max 1 intelligence)) (\<lambda>i.
     rbind (f32 (pow i (f32_literal (3 / 4)))) (\<lambda>int_min.
     rbind (f32 (max 1 spirit)) (\<lambda>s.
     rbind (f32 (pow s (f32_literal (3 / 4)))) (\<lambda>spi_min.
     rbind (float_of_int (py_trunc focus)) (\<lambda>whole_focus.
     rbind (spell_scale int_min spi_min whole_focus (311 / 10000) (2 / 100) (416 / 10000)) (\<lambda>minimum_scale.
     rbind (spell_scale int_min spi_min whole_focus (785 / 10000) (15 / 1000) (157 / 10000)) (\<lambda>maximum_scale.
     rbind (spell_bound base_minimum minimum_scale) (\<lambda>minimum.
     rbind (spell_bound base_maximum maximum_scale) (\<lambda>maximum.
     Inr (minimum, maximum))))))))))))"

definition triangular_roll :: "rat \<Rightarrow> rat \<Rightarrow> rat \<Rightarrow> rat \<Rightarrow> rat result" where
  "triangular_roll minimum maximum first second =
     rbind (checks [(maximum < minimum, ValueError ''triangular roll bounds must be ordered'')]) (\<lambda>_.
     rbind (fraction_ok first ''first_roll'') (\<lambda>_.
     rbind (fraction_ok second ''second_roll'') (\<lambda>_.
     rbind (f32 (f64 (maximum - minimum))) (\<lambda>span.
     rbind (f32 (f64 (first * span))) (\<lambda>rolled1.
     rbind (f32 (f64 (second * span))) (\<lambda>rolled2.
     rbind (f32 (f64 (rolled1 + rolled2))) (\<lambda>total.
     rbind (f32 (f64 (total * f32_literal (1 / 2)))) (\<lambda>rolled.
     f32 (f64 (rolled + minimum))))))))))"

definition effective_resistance :: "rat \<Rightarrow> int \<Rightarrow> int \<Rightarrow> bool \<Rightarrow> rat result" where
  "effective_resistance resistance protection_trains incoming_trains protection_applies =
     rbind (non_negative_integer protection_trains ''protection_trains'') (\<lambda>_.
     rbind (non_negative_integer incoming_trains ''incoming_trains'') (\<lambda>_.
     rbind (if incoming_trains > 0 \<and> protection_applies then
         rbind (float_of_int protection_trains) (\<lambda>p.
         rbind (float_of_int incoming_trains) (\<lambda>i.
         Inr (f64 (resistance + max 0 (f64 (f64 (50 + p) - i))))))
       else Inr resistance) (\<lambda>amount.
     Inr (min 75 amount))))"

definition resisted_amount :: "rat \<Rightarrow> rat \<Rightarrow> rat \<Rightarrow> rat result" where
  "resisted_amount amount resistance0 armor_piercing =
     rbind (effective_resistance resistance0 0 0 False) (\<lambda>resistance.
     rbind (f32 amount) (\<lambda>a.
     rbind (f32 (f64 (1 - f64 (resistance * f32_literal (1 / 100))))) (\<lambda>kept.
     rbind (f32 (f64 (kept + armor_piercing))) (\<lambda>factor.
     f32 (f64 (a * factor))))))"

definition should_overwrite_effect :: "int \<Rightarrow> int \<Rightarrow> int \<Rightarrow> int \<Rightarrow> stack_priority \<Rightarrow> bool \<Rightarrow> bool result" where
  "should_overwrite_effect incoming_order existing_order incoming_trains existing_trains priority same_power =
     rbind (non_negative_integer incoming_order ''incoming_order'') (\<lambda>_.
     rbind (non_negative_integer existing_order ''existing_order'') (\<lambda>_.
     rbind (non_negative_integer incoming_trains ''incoming_trains'') (\<lambda>_.
     rbind (non_negative_integer existing_trains ''existing_trains'') (\<lambda>_.
     Inr (if incoming_order \<noteq> existing_order then incoming_order > existing_order
          else if priority = ALWAYS then True
          else if priority = GREATER_THAN_OR_EQUAL then incoming_trains \<ge> existing_trains
          else incoming_trains > existing_trains \<or> same_power)))))"

subsection \<open>Hit chances are bounded and monotone\<close>

text \<open>Where the two tests of the melee formula do not decide, the formula itself.\<close>

definition melee_middle :: "rat \<Rightarrow> int" where
  "melee_middle difference = py_trunc (f64 (f64 (f64 (9 / 20) * difference) + 49))"

lemma melee_middle_mono: "d \<le> d' \<Longrightarrow> melee_middle d \<le> melee_middle d'"
  unfolding melee_middle_def
  by (intro py_trunc_mono f64.rnd_mono add_right_mono mult_left_mono f64.rnd_nonneg) simp_all

lemma melee_middle_ends: "melee_middle 100 = 94" "melee_middle (- 100) = 4"
  by code_simp+

definition melee_curve :: "rat \<Rightarrow> int" where
  "melee_curve x = (if x > 100 then 94 else if x < - 100 then 4 else melee_middle x)"

lemma melee_hit_chance_percent_Inr:
  "melee_hit_chance_percent a d = Inr c \<Longrightarrow> 0 \<le> a \<and> 0 \<le> d \<and> c = melee_curve (f32_round (f64 (a - d)))"
  by (auto simp: melee_hit_chance_percent_def formula_non_negative_def melee_curve_def melee_middle_def f32_Inr result_simps split: if_splits)

lemma melee_curve_bounds: "4 \<le> melee_curve x" "melee_curve x \<le> 94"
  using melee_middle_mono [of x 100] melee_middle_mono [of "- 100" x] by (auto simp: melee_curve_def melee_middle_ends)

lemma melee_curve_mono: "x \<le> y \<Longrightarrow> melee_curve x \<le> melee_curve y"
proof (cases "x < - 100 \<or> 100 < y")
  case True
  then have "melee_curve x = 4 \<or> melee_curve y = 94" by (auto simp: melee_curve_def)
  with melee_curve_bounds(1) [of y] melee_curve_bounds(2) [of x] show ?thesis by linarith
next
  case False
  assume "x \<le> y"
  with False show ?thesis by (simp add: melee_curve_def melee_middle_mono)
qed

lemma power_scale_ends: "f32_round (f64 (f32_literal 450 * f32_round (f64 (1 - f32_literal (4 / 5))))) < 90"
  by code_simp

definition power_curve :: "rat \<Rightarrow> int" where
  "power_curve ratio = (if ratio \<le> f32_literal (4 / 5) then 4
     else py_trunc (f32_round (f64 (f32_literal 450 * f32_round (f64 (ratio - f32_literal (4 / 5)))))) + 4)"

lemma f32_literal_450: "f32_literal 450 = 450"
  by code_simp

lemma power_scaled_mono:
  "x \<le> y \<Longrightarrow> f32_round (f64 (f32_literal 450 * f32_round (f64 (x - c)))) \<le> f32_round (f64 (f32_literal 450 * f32_round (f64 (y - c))))"
  by (intro f32_round.rnd_mono f64.rnd_mono mult_left_mono) (simp_all add: f32_literal_450)

lemma power_scaled_nonneg: "c \<le> x \<Longrightarrow> 0 \<le> f32_round (f64 (f32_literal 450 * f32_round (f64 (x - c))))"
  by (simp add: f32_literal_450 f32_round.rnd_nonneg f64.rnd_nonneg)

lemma power_curve_ge: "4 \<le> power_curve x"
  using power_scaled_nonneg [of "f32_literal (4 / 5)" x] by (auto simp: power_curve_def py_trunc_def)

lemma power_curve_mono: "x \<le> y \<Longrightarrow> power_curve x \<le> power_curve y"
  using power_scaled_mono [of x y] power_curve_ge [of y] by (auto simp: power_curve_def intro: py_trunc_mono)

lemma power_curve_1: "power_curve 1 \<le> 93"
  using power_scale_ends by (simp add: power_curve_def py_trunc_def)

lemma power_hit_chance_percent_Inr:
  assumes "power_hit_chance_percent a d = Inr c"
  shows "0 \<le> a \<and> 0 \<le> d \<and> c = (if a > d \<or> d = 0 then 94 else power_curve (f32_round (f64 (a / d))))"
  using assms
  by (auto simp: power_hit_chance_percent_def formula_non_negative_def power_curve_def f32_Inr result_simps split: if_splits)

lemma power_hit_chance_bounds:
  assumes "power_hit_chance_percent a d = Inr c"
  shows "4 \<le> c" "c \<le> 94"
proof -
  note p = power_hit_chance_percent_Inr [OF assms]
  have "c \<le> 94 \<and> 4 \<le> c"
  proof (cases "a > d \<or> d = 0")
    case False
    then have "a / d \<le> 1" using p by simp
    then have "f32_round (f64 (a / d)) \<le> 1" using f32_round.rnd_le [of "f64 (a / d)" 1] f64.rnd_le [of "a / d" 1] by simp
    from power_curve_mono [OF this] power_curve_1 power_curve_ge show ?thesis using False p by fastforce
  qed (use p in simp)
  then show "4 \<le> c" "c \<le> 94" by simp_all
qed

text \<open>C38: The chance to hit of an attack gate, in whole percent, lies between 4 and 94 for melee attacks and for powers
  alike, whatever the ratings, and despite the mixture of single and double precision it never falls when
  the attacker's rating grows or the defender's rating shrinks.\<close>

theorem hit_chance_percent_monotone:
  assumes "chance \<in> {melee_hit_chance_percent, power_hit_chance_percent}"
    and "chance a d = Inr c" "chance a' d' = Inr c'" "a \<le> a'" "d' \<le> d"
  shows "4 \<le> c \<and> c \<le> c' \<and> c' \<le> 94"
proof (cases "chance = melee_hit_chance_percent")
  case True
  have "a - d \<le> a' - d'" using assms(4,5) by simp
  then have "f32_round (f64 (a - d)) \<le> f32_round (f64 (a' - d'))" by (intro f32_round.rnd_mono f64.rnd_mono)
  then show ?thesis
    using assms(2,3) melee_curve_mono melee_curve_bounds unfolding True by (auto dest!: melee_hit_chance_percent_Inr)
next
  case False
  then have p: "power_hit_chance_percent a d = Inr c" "power_hit_chance_percent a' d' = Inr c'" using assms(1-3) by auto
  note i = power_hit_chance_percent_Inr [OF p(1)] power_hit_chance_percent_Inr [OF p(2)]
  have "c \<le> c'"
  proof (cases "a' > d' \<or> d' = 0")
    case True
    then show ?thesis using i power_hit_chance_bounds [OF p(1)] by simp
  next
    case False
    then have "\<not> (a > d \<or> d = 0)" "0 < d'" using i assms(4,5) by auto
    moreover from this have "a / d \<le> a' / d'" using i assms(4,5) by (intro frac_le) auto
    then have "f32_round (f64 (a / d)) \<le> f32_round (f64 (a' / d'))" by (intro f32_round.rnd_mono f64.rnd_mono)
    then have "power_curve (f32_round (f64 (a / d))) \<le> power_curve (f32_round (f64 (a' / d')))" by (rule power_curve_mono)
    ultimately show ?thesis using i False by simp
  qed
  then show ?thesis using power_hit_chance_bounds [OF p(1)] power_hit_chance_bounds [OF p(2)] by simp
qed

theorem hit_chance_percent_monotone_witness:
  "power_hit_chance_percent 90 100 = Inr 48 \<and> power_hit_chance_percent 95 100 = Inr 71 \<and> 4 \<le> (48::int) \<and> (48::int) \<le> 71 \<and> (71::int) \<le> 94"
proof -
  have "power_hit_chance_percent 90 100 = Inr 48" "power_hit_chance_percent 95 100 = Inr 71" by code_simp+
  with hit_chance_percent_monotone [of power_hit_chance_percent 90 100 48 95 100 71] show ?thesis by simp
qed

end
