(* ===== verification/Sim_State.thy ===== *)
theory Sim_State
  imports Sim_Actions
begin

text \<open>
  The mutable state of entities and its immutable snapshots (\<^verbatim>\<open>sim/state.py\<close>). A Python \<open>dict\<close> is an
  association list with distinct keys, a Python \<open>set\<close> a finite set. Where the code multiplies floats,
  the rounding of a product is the argument \<open>rnd\<close>.
\<close>

subsection \<open>Effect modifiers\<close>

fun state_keys :: "effect_modifier list \<Rightarrow> string set" where
  "state_keys [] = {}"
| "state_keys (DamageBreakpoint breakpoint_key threshold damage_types # ms) =
     insert (''damage_breakpoint.'' @ breakpoint_key) (state_keys ms)"
| "state_keys (m # ms) = state_keys ms"

subsection \<open>Dictionaries and sets\<close>

definition finite_mapping :: "(string \<times> rat) list \<Rightarrow> string \<Rightarrow> unit result" where
  "finite_mapping values field_name = riter (\<lambda>(k, v). py_identifier k (field_name @ '' key'')) values"

definition set_identifiers :: "string set \<Rightarrow> string \<Rightarrow> unit result" where
  "set_identifiers xs field_name =
     (if \<exists>x \<in> xs. \<not> nonblank x then Inl (ValueError (field_name @ '' must be a non-empty string'')) else Inr ())"

subsection \<open>Active effects\<close>

record active_effect =
  ae_effect_key :: string
  ae_source_entity_id :: string
  ae_magnitude :: rat
  ae_expires_at_ms :: int
  ae_instance_id :: "string option"
  ae_stacking_key :: "string option"
  ae_tags :: "string set"
  ae_modifiers :: "effect_modifier list"
  ae_modifier_values :: "(string \<times> rat) list"
  ae_application_order :: int
  ae_stack_order :: int
  ae_trains :: int
  ae_stack_priority :: stack_priority

record active_effect_snapshot =
  es_effect_key :: string
  es_source_entity_id :: string
  es_instance_id :: "string option"
  es_magnitude :: rat
  es_expires_at_ms :: int
  es_stacking_key :: "string option"
  es_tags :: "string list"
  es_modifiers :: "effect_modifier list"
  es_modifier_values :: "(string \<times> rat) list"
  es_application_order :: int
  es_stack_order :: int
  es_trains :: int
  es_stack_priority :: stack_priority

definition active_effect_ok :: "active_effect \<Rightarrow> unit result" where
  "active_effect_ok e =
     rbind (py_identifier (ae_effect_key e) ''effect_key'') (\<lambda>_.
     rbind (py_identifier (ae_source_entity_id e) ''source_entity_id'') (\<lambda>_.
     rbind (optional (\<lambda>i. py_identifier i ''instance_id'') (ae_instance_id e)) (\<lambda>_.
     rbind (non_negative_integer (ae_expires_at_ms e) ''expires_at_ms'') (\<lambda>_.
     rbind (optional (\<lambda>k. py_identifier k ''stacking_key'') (ae_stacking_key e)) (\<lambda>_.
     rbind (set_identifiers (ae_tags e) ''effect tag'') (\<lambda>_.
     rbind (finite_mapping (ae_modifier_values e) ''modifier_values'') (\<lambda>_.
     rbind (checks
       [(fst ` set (ae_modifier_values e) \<noteq> state_keys (ae_modifiers e), ValueError ''modifier_values must match stateful effect modifiers''),
        (list_ex (\<lambda>(k, v). v < 0) (ae_modifier_values e), ValueError ''modifier_values must not be negative'')]) (\<lambda>_.
     rbind (non_negative_integer (ae_application_order e) ''application_order'') (\<lambda>_.
     rbind (non_negative_integer (ae_stack_order e) ''stack_order'') (\<lambda>_.
     non_negative_integer (ae_trains e) ''trains''))))))))))"

definition effect_snapshot :: "active_effect \<Rightarrow> active_effect_snapshot" where
  "effect_snapshot e =
     \<lparr>es_effect_key = ae_effect_key e, es_source_entity_id = ae_source_entity_id e, es_instance_id = ae_instance_id e,
      es_magnitude = ae_magnitude e, es_expires_at_ms = ae_expires_at_ms e, es_stacking_key = ae_stacking_key e,
      es_tags = sorted_list_of_set (ae_tags e), es_modifiers = ae_modifiers e, es_modifier_values = sort (ae_modifier_values e),
      es_application_order = ae_application_order e, es_stack_order = ae_stack_order e, es_trains = ae_trains e,
      es_stack_priority = ae_stack_priority e\<rparr>"

definition effect_from_snapshot :: "active_effect_snapshot \<Rightarrow> active_effect result" where
  "effect_from_snapshot s = validated active_effect_ok
     \<lparr>ae_effect_key = es_effect_key s, ae_source_entity_id = es_source_entity_id s, ae_magnitude = es_magnitude s,
      ae_expires_at_ms = es_expires_at_ms s, ae_instance_id = es_instance_id s, ae_stacking_key = es_stacking_key s,
      ae_tags = set (es_tags s), ae_modifiers = es_modifiers s, ae_modifier_values = dict_of (es_modifier_values s),
      ae_application_order = es_application_order s, ae_stack_order = es_stack_order s, ae_trains = es_trains s,
      ae_stack_priority = es_stack_priority s\<rparr>"

subsection \<open>Entities\<close>

record entity_state =
  en_entity_id :: string
  en_life_id :: string
  en_kind :: entity_kind
  en_team_id :: "string option"
  en_position :: vector2
  en_velocity :: vector2
  en_scalars :: "(string \<times> rat) list"
  en_maximums :: "(string \<times> rat) list"
  en_tags :: "string set"
  en_action_keys :: "string list"
  en_inventory :: "(string \<times> rat) list"
  en_effects :: "(string \<times> active_effect) list"
  en_cooldowns :: "(string \<times> int) list"
  en_busy_until_ms :: int
  en_stance_multipliers :: "(combat_stance \<times> (string \<times> rat) list) list"
  en_stance :: combat_stance
  en_alive :: bool

record entity_snapshot =
  sn_entity_id :: string
  sn_life_id :: string
  sn_kind :: entity_kind
  sn_team_id :: "string option"
  sn_position :: vector2
  sn_velocity :: vector2
  sn_scalars :: "(string \<times> rat) list"
  sn_maximums :: "(string \<times> rat) list"
  sn_tags :: "string list"
  sn_action_keys :: "string list"
  sn_inventory :: "(string \<times> rat) list"
  sn_effects :: "active_effect_snapshot list"
  sn_cooldowns :: "(string \<times> int) list"
  sn_busy_until_ms :: int
  sn_stance_multipliers :: "(combat_stance \<times> (string \<times> rat) list) list"
  sn_stance :: combat_stance
  sn_alive :: bool

text \<open>\<open>stacking_key or effect_key\<close>: an empty stacking key is falsy.\<close>

definition storage_key :: "string option \<Rightarrow> string \<Rightarrow> string" where
  "storage_key stacking effect_key = (case stacking of None \<Rightarrow> effect_key | Some k \<Rightarrow> if k = [] then effect_key else k)"

definition maximums_ok :: "(string \<times> rat) list \<Rightarrow> (string \<times> rat) list \<Rightarrow> unit result" where
  "maximums_ok scalars maximums = riter (\<lambda>(key, maximum). checks
     [(maximum < 0, ValueError ''maximum values must not be negative''),
      (case map_of scalars key of None \<Rightarrow> False | Some v \<Rightarrow> v > maximum, ValueError (''scalar '' @ key @ '' exceeds its maximum''))]) maximums"

definition stance_multiplier_ok :: "(string \<times> rat) list \<Rightarrow> combat_stance \<times> (string \<times> rat) list \<Rightarrow> unit result" where
  "stance_multiplier_ok scalars sm =
     (case sm of (stance, multipliers) \<Rightarrow>
      rbind (checks [(stance \<in> {STANCE_NORMAL, STANCE_TRAVEL}, ValueError ''stance_multipliers may only define trained combat stances'')]) (\<lambda>_.
      rbind (finite_mapping multipliers ''stance multiplier'') (\<lambda>_.
      let missing = sort (filter (\<lambda>k. k \<notin> fst ` set scalars) (map fst multipliers)) in
      checks [(list_ex (\<lambda>(k, v). v \<le> 0) multipliers, ValueError ''stance multiplier factors must be positive''),
        (missing \<noteq> [], ValueError (''stance multipliers reference missing scalars: '' @ py_join '', '' missing))])))"

definition entity_state_ok :: "entity_state \<Rightarrow> unit result" where
  "entity_state_ok e =
     rbind (py_identifier (en_entity_id e) ''entity_id'') (\<lambda>_.
     rbind (py_identifier (en_life_id e) ''life_id'') (\<lambda>_.
     rbind (optional (\<lambda>t. py_identifier t ''team_id'') (en_team_id e)) (\<lambda>_.
     rbind (finite_mapping (en_scalars e) ''scalars'') (\<lambda>_.
     rbind (finite_mapping (en_maximums e) ''maximums'') (\<lambda>_.
     rbind (maximums_ok (en_scalars e) (en_maximums e)) (\<lambda>_.
     rbind (set_identifiers (en_tags e) ''tag'') (\<lambda>_.
     rbind (checks [(\<not> distinct (en_action_keys e), ValueError ''action_keys must not contain duplicates'')]) (\<lambda>_.
     rbind (riter (\<lambda>k. py_identifier k ''action_key'') (en_action_keys e)) (\<lambda>_.
     rbind (finite_mapping (en_inventory e) ''inventory'') (\<lambda>_.
     rbind (checks [(list_ex (\<lambda>(k, v). v < 0) (en_inventory e), ValueError ''inventory quantities must not be negative'')]) (\<lambda>_.
     rbind (riter (\<lambda>(key, effect). rbind (py_identifier key ''effect storage key'') (\<lambda>_.
        checks [(key \<noteq> storage_key (ae_stacking_key effect) (ae_effect_key effect),
          ValueError ''effect storage keys must match stacking_key or effect_key'')])) (en_effects e)) (\<lambda>_.
     rbind (riter (\<lambda>(key, ready). rbind (py_identifier key ''cooldown action key'') (\<lambda>_.
        checks [(ready < 0, ValueError ''cooldown timestamps must be non-negative integers'')])) (en_cooldowns e)) (\<lambda>_.
     rbind (non_negative_integer (en_busy_until_ms e) ''busy_until_ms'') (\<lambda>_.
     riter (stance_multiplier_ok (en_scalars e)) (en_stance_multipliers e)))))))))))))))"

definition effective_tags :: "entity_state \<Rightarrow> string set" where
  "effective_tags e =
     en_tags e
     \<union> \<Union> ((\<lambda>(k, f). insert (ae_effect_key f) (ae_tags f)) ` set (en_effects e))
     \<union> \<Union> ((\<lambda>(k, f). \<Union> (set ` semantic_tags ` set (ae_modifiers f))) ` set (en_effects e))
     \<union> {''stance.'' @ combat_stance_value (en_stance e)}"

definition stance_factor :: "entity_state \<Rightarrow> string \<Rightarrow> combat_stance option \<Rightarrow> rat result" where
  "stance_factor e scalar_key stance =
     rbind (py_identifier scalar_key ''scalar_key'') (\<lambda>_.
     let selected = (case stance of None \<Rightarrow> en_stance e | Some s \<Rightarrow> s);
         multipliers = (case map_of (en_stance_multipliers e) selected of None \<Rightarrow> [] | Some m \<Rightarrow> m)
     in Inr (case map_of multipliers scalar_key of None \<Rightarrow> 1 | Some f \<Rightarrow> f))"

fun apply_multipliers :: "(rat \<Rightarrow> rat) \<Rightarrow> string \<Rightarrow> effect_modifier list \<Rightarrow> rat \<Rightarrow> rat" where
  "apply_multipliers rnd key [] factor = factor"
| "apply_multipliers rnd key (ScalarMultiplier k f # ms) factor =
     apply_multipliers rnd key ms (if k = key then rnd (factor * f) else factor)"
| "apply_multipliers rnd key (m # ms) factor = apply_multipliers rnd key ms factor"

definition effective_scalar :: "(rat \<Rightarrow> rat) \<Rightarrow> entity_state \<Rightarrow> string \<Rightarrow> rat result" where
  "effective_scalar rnd e key =
     rbind (py_identifier key ''scalar_key'') (\<lambda>_.
     case map_of (en_scalars e) key of
       None \<Rightarrow> Inl (KeyError key)
     | Some base \<Rightarrow>
         rbind (stance_factor e key None) (\<lambda>factor.
         Inr (rnd (base * fold (\<lambda>(k, f). apply_multipliers rnd key (ae_modifiers f)) (sort_key fst (en_effects e)) factor))))"

definition snapshot_entity :: "entity_state \<Rightarrow> entity_snapshot" where
  "snapshot_entity e =
     \<lparr>sn_entity_id = en_entity_id e, sn_life_id = en_life_id e, sn_kind = en_kind e, sn_team_id = en_team_id e,
      sn_position = en_position e, sn_velocity = en_velocity e, sn_scalars = sort (en_scalars e),
      sn_maximums = sort (en_maximums e), sn_tags = sorted_list_of_set (en_tags e), sn_action_keys = sort (en_action_keys e),
      sn_inventory = sort (en_inventory e),
      sn_effects = map (\<lambda>(k, f). effect_snapshot f) (sort_key fst (en_effects e)),
      sn_cooldowns = sort (en_cooldowns e), sn_busy_until_ms = en_busy_until_ms e,
      sn_stance_multipliers = map (\<lambda>(s, m). (s, sort m)) (sort_key (\<lambda>sm. combat_stance_value (fst sm)) (en_stance_multipliers e)),
      sn_stance = en_stance e, sn_alive = en_alive e\<rparr>"

definition entity_from_snapshot :: "entity_snapshot \<Rightarrow> entity_state result" where
  "entity_from_snapshot s =
     rbind (rmap (\<lambda>f. rbind (effect_from_snapshot f) (\<lambda>effect. Inr (storage_key (es_stacking_key f) (es_effect_key f), effect)))
       (sn_effects s)) (\<lambda>effects.
     validated entity_state_ok
     \<lparr>en_entity_id = sn_entity_id s, en_life_id = sn_life_id s, en_kind = sn_kind s, en_team_id = sn_team_id s,
      en_position = sn_position s, en_velocity = sn_velocity s, en_scalars = dict_of (sn_scalars s),
      en_maximums = dict_of (sn_maximums s), en_tags = set (sn_tags s), en_action_keys = sn_action_keys s,
      en_inventory = dict_of (sn_inventory s), en_effects = dict_of effects, en_cooldowns = dict_of (sn_cooldowns s),
      en_busy_until_ms = sn_busy_until_ms s,
      en_stance_multipliers = dict_of (map (\<lambda>(st, m). (st, dict_of m)) (sn_stance_multipliers s)),
      en_stance = sn_stance s, en_alive = sn_alive s\<rparr>)"

definition clone :: "entity_state \<Rightarrow> entity_state result" where
  "clone e = entity_from_snapshot (snapshot_entity e)"

subsection \<open>Well-formed entities\<close>

text \<open>What Python's types give: the keys of a \<open>dict\<close> are distinct, and a \<open>set\<close> is finite.\<close>

definition effect_wf :: "active_effect \<Rightarrow> bool" where
  "effect_wf f \<longleftrightarrow> finite (ae_tags f) \<and> distinct (map fst (ae_modifier_values f))"

definition entity_wf :: "entity_state \<Rightarrow> bool" where
  "entity_wf e \<longleftrightarrow> distinct (map fst (en_scalars e)) \<and> distinct (map fst (en_maximums e)) \<and> finite (en_tags e)
     \<and> distinct (map fst (en_inventory e)) \<and> distinct (map fst (en_effects e)) \<and> distinct (map fst (en_cooldowns e))
     \<and> distinct (map fst (en_stance_multipliers e)) \<and> list_all (\<lambda>(s, m). distinct (map fst m)) (en_stance_multipliers e)
     \<and> list_all (\<lambda>(k, f). effect_wf f \<and> active_effect_ok f = Inr ()) (en_effects e)"

text \<open>The state with every dictionary and the action keys in sorted order.\<close>

definition canonical_effect :: "active_effect \<Rightarrow> active_effect" where
  "canonical_effect f = f\<lparr>ae_modifier_values := sort (ae_modifier_values f)\<rparr>"

definition canonical :: "entity_state \<Rightarrow> entity_state" where
  "canonical e = e\<lparr>en_scalars := sort (en_scalars e), en_maximums := sort (en_maximums e),
     en_action_keys := sort (en_action_keys e), en_inventory := sort (en_inventory e),
     en_effects := map (\<lambda>(k, f). (k, canonical_effect f)) (sort_key fst (en_effects e)),
     en_cooldowns := sort (en_cooldowns e),
     en_stance_multipliers := map (\<lambda>(s, m). (s, sort m)) (sort_key (\<lambda>sm. combat_stance_value (fst sm)) (en_stance_multipliers e))\<rparr>"

lemma finite_mapping_Inr [result_simps]: "finite_mapping xs n = Inr u \<longleftrightarrow> (\<forall>x \<in> set xs. nonblank (fst x))"
  by (auto simp: finite_mapping_def result_simps)

lemma set_identifiers_Inr [result_simps]: "set_identifiers xs n = Inr u \<longleftrightarrow> (\<forall>x \<in> xs. nonblank x)"
  by (auto simp: set_identifiers_def)

lemma canonical_effect_ok: "active_effect_ok f = Inr () \<Longrightarrow> active_effect_ok (canonical_effect f) = Inr ()"
  unfolding active_effect_ok_def canonical_effect_def rbind_eq_Inr checks_eq_Inr by (auto simp: result_simps list_ex_iff)

lemma effect_from_snapshot_exact:
  assumes "effect_wf f" "active_effect_ok f = Inr ()"
  shows "effect_from_snapshot (effect_snapshot f) = Inr (canonical_effect f)"
proof -
  have "dict_of (sort (ae_modifier_values f)) = sort (ae_modifier_values f)"
    by (rule dict_of_distinct) (use assms(1) in \<open>simp add: effect_wf_def distinct_map_sort_key\<close>)
  then have "effect_from_snapshot (effect_snapshot f) = validated active_effect_ok (canonical_effect f)"
    using assms(1) by (cases f) (simp add: effect_from_snapshot_def effect_snapshot_def canonical_effect_def effect_wf_def)
  with canonical_effect_ok [OF assms(2)] show ?thesis by (simp add: validated_ok)
qed

lemma effect_snapshot_canonical [simp]: "effect_snapshot (canonical_effect f) = effect_snapshot f"
  by (simp add: effect_snapshot_def canonical_effect_def)

lemma canonical_effect_fields [simp]:
  "ae_effect_key (canonical_effect f) = ae_effect_key f" "ae_stacking_key (canonical_effect f) = ae_stacking_key f"
  "ae_modifiers (canonical_effect f) = ae_modifiers f" "ae_tags (canonical_effect f) = ae_tags f"
  by (simp_all add: canonical_effect_def)

lemma stance_multiplier_sorted:
  assumes "stance_multiplier_ok scalars (s, m) = Inr ()"
  shows "stance_multiplier_ok (sort scalars) (s, sort m) = Inr ()"
  using assms unfolding stance_multiplier_ok_def Let_def prod.case rbind_eq_Inr checks_eq_Inr
  by (auto simp: result_simps list_ex_iff filter_empty_conv sort_key_Nil_iff)

lemma entity_state_ok_canonical:
  assumes "entity_state_ok e = Inr ()" "entity_wf e"
  shows "entity_state_ok (canonical e) = Inr ()"
proof -
  have m: "map_of (sort (en_scalars e)) = map_of (en_scalars e)"
    using assms(2) by (simp add: entity_wf_def map_of_sort_key)
  have stances: "riter (stance_multiplier_ok (sort (en_scalars e))) (en_stance_multipliers (canonical e)) = Inr ()"
    if "riter (stance_multiplier_ok (en_scalars e)) (en_stance_multipliers e) = Inr ()"
    using that stance_multiplier_sorted by (fastforce simp: riter_eq_Inr canonical_def)
  from assms(1) stances show ?thesis
    unfolding entity_state_ok_def rbind_eq_Inr checks_eq_Inr riter_eq_Inr maximums_ok_def
    by (auto simp: canonical_def result_simps m list_ex_iff)
qed

lemma storage_keys:
  assumes "entity_state_ok e = Inr ()" "(k, f) \<in> set (en_effects e)"
  shows "storage_key (ae_stacking_key f) (ae_effect_key f) = k"
proof -
  from assms(1) have "riter (\<lambda>(key, effect). rbind (py_identifier key ''effect storage key'') (\<lambda>_.
        checks [(key \<noteq> storage_key (ae_stacking_key effect) (ae_effect_key effect),
          ValueError ''effect storage keys must match stacking_key or effect_key'')])) (en_effects e) = Inr ()"
    by (simp only: entity_state_ok_def rbind_eq_Inr) auto
  with assms(2) show ?thesis by (auto simp: riter_eq_Inr rbind_eq_Inr split: if_splits)
qed

lemma effects_from_snapshot:
  assumes "entity_state_ok e = Inr ()" "entity_wf e"
  shows "rmap (\<lambda>f. rbind (effect_from_snapshot f) (\<lambda>effect. Inr (storage_key (es_stacking_key f) (es_effect_key f), effect)))
     (sn_effects (snapshot_entity e)) = Inr (en_effects (canonical e))"
proof -
  have "rbind (effect_from_snapshot (effect_snapshot f))
        (\<lambda>effect. Inr (storage_key (es_stacking_key (effect_snapshot f)) (es_effect_key (effect_snapshot f)), effect))
      = Inr (k, canonical_effect f)" if "(k, f) \<in> set (en_effects e)" for k f
  proof -
    have "effect_wf f" "active_effect_ok f = Inr ()" using assms(2) that by (auto simp: entity_wf_def list_all_iff)
    from effect_from_snapshot_exact [OF this] storage_keys [OF assms(1) that]
    show ?thesis by (simp add: effect_snapshot_def)
  qed
  then have "rmap (\<lambda>f. rbind (effect_from_snapshot f) (\<lambda>effect. Inr (storage_key (es_stacking_key f) (es_effect_key f), effect)))
      (map (\<lambda>(k, f). effect_snapshot f) (sort_key fst (en_effects e)))
      = Inr (map (\<lambda>(k, f). (k, canonical_effect f)) (sort_key fst (en_effects e)))"
    by (intro rmap_map_Inr) auto
  then show ?thesis by (simp add: snapshot_entity_def canonical_def)
qed

lemma clone_canonical:
  assumes "entity_state_ok e = Inr ()" "entity_wf e"
  shows "clone e = Inr (canonical e)"
proof -
  have dicts: "dict_of (sort d) = sort d" if "distinct (map fst d)" for d :: "(string \<times> 'v::linorder) list"
    by (rule dict_of_distinct) (use that in \<open>simp add: distinct_map_sort_key\<close>)
  have stances: "dict_of (map (\<lambda>(st, m). (st, dict_of m)) (sn_stance_multipliers (snapshot_entity e)))
      = en_stance_multipliers (canonical e)"
  proof -
    have "map (\<lambda>(st, m). (st, dict_of m)) (sn_stance_multipliers (snapshot_entity e)) = en_stance_multipliers (canonical e)"
      using assms(2) dicts by (auto simp: snapshot_entity_def canonical_def entity_wf_def list_all_iff)
    moreover have "distinct (map fst (en_stance_multipliers (canonical e)))"
      using assms(2) by (simp add: canonical_def entity_wf_def comp_def split_beta distinct_map_sort_key)
    ultimately show ?thesis by (simp add: dict_of_distinct)
  qed
  have effs: "dict_of (en_effects (canonical e)) = en_effects (canonical e)"
    by (rule dict_of_distinct) (use assms(2) in \<open>simp add: canonical_def entity_wf_def comp_def split_beta distinct_map_sort_key\<close>)
  have "clone e = validated entity_state_ok (canonical e)"
    unfolding clone_def entity_from_snapshot_def effects_from_snapshot [OF assms] rbind.simps effs stances
    using assms(2) by (cases e) (simp add: snapshot_entity_def canonical_def entity_wf_def dicts)
  with entity_state_ok_canonical [OF assms] show ?thesis by (simp add: validated_ok)
qed

lemma effect_wf_canonical [simp]: "effect_wf (canonical_effect f) = effect_wf f"
  by (simp add: effect_wf_def canonical_effect_def distinct_map_sort_key)

lemma canonical_wf: "entity_wf e \<Longrightarrow> entity_wf (canonical e)"
  by (auto simp: entity_wf_def canonical_def comp_def case_prod_beta distinct_map_sort_key list_all_iff canonical_effect_ok)

lemma canonical_snapshot_same: "snapshot_entity (canonical e) = snapshot_entity e"
  by (simp add: snapshot_entity_def canonical_def sort_key_map case_prod_beta comp_def)

lemma canonical_idem: "canonical (canonical e) = canonical e"
  by (simp add: canonical_def sort_key_map case_prod_beta comp_def canonical_effect_def)

lemma effective_tags_canonical: "effective_tags (canonical e) = effective_tags e"
  by (simp add: effective_tags_def canonical_def split_beta)

lemma stance_factor_canonical:
  assumes "entity_wf e"
  shows "stance_factor (canonical e) key stance = stance_factor e key stance"
proof -
  let ?sm = "en_stance_multipliers e"
  have "map_of (en_stance_multipliers (canonical e)) s = map_option sort (map_of ?sm s)" for s
    using assms by (simp add: canonical_def map_of_map map_of_sort_key entity_wf_def)
  moreover have "map_of (sort m) = map_of m" if "map_of ?sm s = Some m" for s m
    using assms map_of_SomeD [OF that] by (auto simp: entity_wf_def list_all_iff intro!: map_of_sort_key)
  moreover have "en_stance (canonical e) = en_stance e" by (simp add: canonical_def)
  ultimately show ?thesis by (simp add: stance_factor_def Let_def split: option.split)
qed

lemma effective_scalar_canonical:
  assumes "entity_wf e"
  shows "effective_scalar rnd (canonical e) key = effective_scalar rnd e key"
proof -
  have "fold (\<lambda>(k, f). apply_multipliers rnd key (ae_modifiers f)) (sort_key fst (en_effects (canonical e)))
      = fold (\<lambda>(k, f). apply_multipliers rnd key (ae_modifiers f)) (sort_key fst (en_effects e))"
    by (simp add: canonical_def sort_key_map fold_map case_prod_unfold comp_def)
  moreover have "map_of (en_scalars (canonical e)) = map_of (en_scalars e)"
    using assms by (simp add: canonical_def entity_wf_def map_of_sort_key)
  ultimately show ?thesis by (simp add: effective_scalar_def stance_factor_canonical [OF assms] split: option.split)
qed

subsection \<open>Properties\<close>

text \<open>An entity is reproduced from its snapshot. For a state whose checks passed, the copy
  \<open>from_snapshot(snapshot())\<close> raises nothing, has the same snapshot, the same effective tags and the
  same effective value of every scalar (however products round), and copying it once more changes
  nothing, not even the order of a dictionary.\<close>

theorem clone_exact:
  assumes "entity_state_ok e = Inr ()" and "entity_wf e"
  shows "\<exists>c. clone e = Inr c \<and> snapshot_entity c = snapshot_entity e \<and> clone c = Inr c
    \<and> effective_tags c = effective_tags e \<and> (\<forall>key. effective_scalar rnd c key = effective_scalar rnd e key)"
  using clone_canonical [OF assms] canonical_snapshot_same [of e] effective_tags_canonical [of e]
    effective_scalar_canonical [OF assms(2)]
    clone_canonical [OF entity_state_ok_canonical [OF assms] canonical_wf [OF assms(2)]]
  by (simp add: canonical_idem)

definition example_effect :: active_effect where
  "example_effect = \<lparr>ae_effect_key = ''haste'', ae_source_entity_id = ''b'', ae_magnitude = 1, ae_expires_at_ms = 5000,
     ae_instance_id = None, ae_stacking_key = Some ''speed'', ae_tags = {''magic''},
     ae_modifiers = [ScalarMultiplier ''speed'' (3 / 2), DamageBreakpoint ''root'' 40 [FIRE]],
     ae_modifier_values = [(''damage_breakpoint.root'', 12)], ae_application_order = 3, ae_stack_order = 1, ae_trains = 2,
     ae_stack_priority = ALWAYS\<rparr>"

definition example_entity :: "string \<Rightarrow> entity_state" where
  "example_entity i = \<lparr>en_entity_id = i, en_life_id = ''life:'' @ i, en_kind = ACTOR, en_team_id = Some ''red'',
     en_position = \<lparr>vx = 3, vy = 4\<rparr>, en_velocity = \<lparr>vx = 0, vy = 0\<rparr>,
     en_scalars = [(''speed'', 10), (''health'', 80)], en_maximums = [(''health'', 100)], en_tags = {''elf''},
     en_action_keys = [''strike'', ''aim''], en_inventory = [(''gold'', 5)], en_effects = [(''speed'', example_effect)],
     en_cooldowns = [(''aim'', 100)], en_busy_until_ms = 0,
     en_stance_multipliers = [(STANCE_PRECISE, [(''speed'', 1 / 2)])], en_stance = STANCE_PRECISE, en_alive = True\<rparr>"

theorem clone_exact_witness:
  "\<exists>c. clone (example_entity ''a'') = Inr c \<and> snapshot_entity c = snapshot_entity (example_entity ''a'')
     \<and> effective_scalar id c ''speed'' = Inr (15 / 2) \<and> ''stance.precise'' \<in> effective_tags c"
proof -
  have ok: "active_effect_ok example_effect = Inr ()"
    by (simp add: active_effect_ok_def example_effect_def py_identifier_def nonblank_def py_space_def optional_def
        set_identifiers_def finite_mapping_def non_negative_integer_def)
  have "entity_state_ok (example_entity ''a'') = Inr ()"
    by (simp add: entity_state_ok_def example_entity_def example_effect_def py_identifier_def nonblank_def py_space_def optional_def
        set_identifiers_def finite_mapping_def non_negative_integer_def maximums_ok_def stance_multiplier_ok_def storage_key_def)
  moreover have "entity_wf (example_entity ''a'')"
    using ok by (simp add: entity_wf_def effect_wf_def example_entity_def) (simp add: example_effect_def)
  ultimately obtain c where c: "clone (example_entity ''a'') = Inr c" "snapshot_entity c = snapshot_entity (example_entity ''a'')"
      "effective_tags c = effective_tags (example_entity ''a'')"
      "effective_scalar id c ''speed'' = effective_scalar id (example_entity ''a'') ''speed''"
    using clone_exact [of "example_entity ''a''" id] by blast
  have "effective_scalar id (example_entity ''a'') ''speed'' = Inr (15 / 2)"
    by (simp add: effective_scalar_def stance_factor_def example_entity_def example_effect_def py_identifier_def nonblank_def py_space_def)
  moreover have "''stance.precise'' \<in> effective_tags (example_entity ''a'')"
    by (simp add: effective_tags_def example_entity_def)
  ultimately show ?thesis using c by auto
qed

end
