(* ===== verification/Sim_Clock.thy ===== *)
theory Sim_Clock
  imports Py_Base
begin

text \<open>
  The virtual clock of the simulator (\<^verbatim>\<open>sim/clock.py\<close>): a fixed tick duration, a tick
  counter and the virtual time, advanced only by \<open>advance\<close>.
\<close>

record clock =
  tick_duration_ms :: int
  tick :: int
  now_ms :: int

definition clock_snapshot_ok :: "clock \<Rightarrow> unit result" where
  "clock_snapshot_ok s = checks
     [(tick_duration_ms s \<le> 0, ValueError ''tick_duration_ms must be positive''),
      (tick s < 0, ValueError ''tick must not be negative''),
      (now_ms s < 0, ValueError ''now_ms must not be negative'')]"

definition new_clock :: "int \<Rightarrow> clock result" where
  "new_clock duration =
     (if duration \<le> 0 then Inl (ValueError ''tick_duration_ms must be positive'')
      else Inr \<lparr>tick_duration_ms = duration, tick = 0, now_ms = 0\<rparr>)"

definition advance :: "int \<Rightarrow> clock \<Rightarrow> clock result" where
  "advance ticks c =
     (if ticks \<le> 0 then Inl (ValueError ''ticks must be a positive integer'')
      else Inr (c\<lparr>tick := tick c + ticks, now_ms := now_ms c + ticks * tick_duration_ms c\<rparr>))"

definition clock_snapshot :: "clock \<Rightarrow> clock result" where
  "clock_snapshot c = rbind (clock_snapshot_ok c) (\<lambda>_. Inr c)"

definition clock_restore :: "clock \<Rightarrow> clock \<Rightarrow> clock result" where
  "clock_restore s c =
     (if tick_duration_ms s \<noteq> tick_duration_ms c
      then Inl (ValueError ''snapshot tick duration does not match the clock'')
      else Inr (c\<lparr>tick := tick s, now_ms := now_ms s\<rparr>))"

definition clock_inv :: "clock \<Rightarrow> bool" where
  "clock_inv c \<longleftrightarrow> 0 < tick_duration_ms c \<and> 0 \<le> tick c \<and> now_ms c = tick c * tick_duration_ms c"

lemma new_clock_inv: "new_clock d = Inr c \<Longrightarrow> clock_inv c"
  by (auto simp: new_clock_def clock_inv_def split: if_splits)

lemma advance_inv: "clock_inv c \<Longrightarrow> advance n c = Inr c' \<Longrightarrow> clock_inv c'"
  by (auto simp: advance_def clock_inv_def algebra_simps split: if_splits)

lemma advance_now: "advance n c = Inr c' \<Longrightarrow> now_ms c' = now_ms c + n * tick_duration_ms c"
  by (auto simp: advance_def split: if_splits)

lemma clock_inv_now: "clock_inv c \<Longrightarrow> 0 \<le> now_ms c"
  by (simp add: clock_inv_def)

lemma clock_inv_snapshot: "clock_inv c \<Longrightarrow> clock_snapshot c = Inr c"
  using clock_inv_now [of c]
  by (simp add: clock_snapshot_def clock_snapshot_ok_def clock_inv_def not_less not_le)

fun advance_all :: "int list \<Rightarrow> clock \<Rightarrow> clock result" where
  "advance_all [] c = Inr c"
| "advance_all (n # ns) c = rbind (advance n c) (advance_all ns)"

lemma advance_all_inv: "clock_inv c \<Longrightarrow> advance_all ns c = Inr c' \<Longrightarrow> clock_inv c'"
  by (induction ns arbitrary: c) (auto simp: result_simps dest: advance_inv)

lemma advance_all_tick: "advance_all ns c = Inr c' \<Longrightarrow>
  tick c' = tick c + sum_list ns \<and> tick_duration_ms c' = tick_duration_ms c"
  by (induction ns arbitrary: c) (fastforce simp: result_simps advance_def split: if_splits)+

text \<open>Virtual time is a function of the tick count: after any sequence of advances of a
  fresh clock, \<open>now_ms\<close> is the number of ticks times the tick duration, the tick count is the
  sum of the advances, and a snapshot of that clock restores exactly it.\<close>

theorem clock_time_is_ticks:
  assumes "new_clock d = Inr c0" "advance_all ns c0 = Inr c"
  shows "now_ms c = sum_list ns * d \<and> tick c = sum_list ns
    \<and> clock_snapshot c = Inr c \<and> clock_restore c c0 = Inr c"
proof -
  have c0: "clock_inv c0" using assms(1) by (rule new_clock_inv)
  have c: "clock_inv c" using c0 assms(2) by (rule advance_all_inv)
  have "tick c = sum_list ns" "tick_duration_ms c = d"
    using advance_all_tick [OF assms(2)] assms(1) by (auto simp: new_clock_def split: if_splits)
  moreover have "tick_duration_ms c0 = d"
    using assms(1) by (auto simp: new_clock_def split: if_splits)
  ultimately show ?thesis
    using c clock_inv_snapshot [OF c] by (simp add: clock_restore_def clock_inv_def)
qed

theorem clock_time_is_ticks_witness:
  "new_clock 200 = Inr \<lparr>tick_duration_ms = 200, tick = 0, now_ms = 0\<rparr>
   \<and> clock_restore \<lparr>tick_duration_ms = 200, tick = 5, now_ms = 1000\<rparr>
        \<lparr>tick_duration_ms = 200, tick = 0, now_ms = 0\<rparr>
      = Inr \<lparr>tick_duration_ms = 200, tick = 5, now_ms = 1000\<rparr>"
proof -
  have n: "new_clock 200 = Inr \<lparr>tick_duration_ms = 200, tick = 0, now_ms = 0\<rparr>"
    by code_simp
  have a: "advance_all [1, 4] \<lparr>tick_duration_ms = 200, tick = 0, now_ms = 0\<rparr>
      = Inr \<lparr>tick_duration_ms = 200, tick = 5, now_ms = 1000\<rparr>"
    by code_simp
  show ?thesis using n clock_time_is_ticks [OF n a] by simp
qed

end
