(* ===== verification/Lcg_Period.thy ===== *)
theory Lcg_Period
  imports Py_Base
begin

text \<open>
  The number theory behind the generator of \<^verbatim>\<open>sim/random_source.py\<close>: a linear congruential
  step \<open>s \<mapsto> (s * a + c) mod 2 ^ k\<close> with \<open>a mod 4 = 1\<close> and odd \<open>c\<close> runs through all
  \<open>2 ^ k\<close> states before it repeats one.
\<close>

definition geo :: "int \<Rightarrow> nat \<Rightarrow> int" where
  "geo a n = (\<Sum>i<n. a ^ i)"

lemma geo_0 [simp]: "geo a 0 = 0"
  by (simp add: geo_def)

lemma geo_Suc: "geo a (Suc n) = geo a n + a ^ n"
  by (simp add: geo_def)

lemma geo_power: "a ^ n = 1 + (a - 1) * geo a n"
proof (induction n)
  case (Suc n)
  have "a ^ Suc n = a ^ n + (a - 1) * a ^ n" by (simp add: algebra_simps)
  also have "\<dots> = (1 + (a - 1) * geo a n) + (a - 1) * a ^ n" using Suc by simp
  also have "\<dots> = 1 + (a - 1) * geo a (Suc n)" by (simp add: geo_Suc algebra_simps)
  finally show ?case .
qed simp

lemma geo_add: "geo a (m + n) = geo a m + a ^ m * geo a n"
  by (induction n) (simp_all add: geo_Suc algebra_simps power_add)

lemma geo_mult: "geo a (m * q) = geo a m * geo (a ^ m) q"
proof (induction q)
  case (Suc q)
  have "geo a (m * Suc q) = geo a (m * q + m)" by (simp add: add.commute)
  also have "\<dots> = geo a m * geo (a ^ m) (Suc q)"
    by (simp only: geo_add Suc geo_Suc) (simp add: algebra_simps power_mult)
  finally show ?case .
qed simp

lemma geo_odd: "odd b \<Longrightarrow> odd (geo b q) \<longleftrightarrow> odd q"
  by (induction q) (auto simp: geo_Suc)

lemma one_plus_power_mod4: "(a::int) mod 4 = 1 \<Longrightarrow> (1 + a ^ n) mod 4 = 2"
proof -
  assume "a mod 4 = 1"
  then have "a ^ n mod 4 = 1" by (simp add: power_mod [of a 4, symmetric])
  then show ?thesis by (simp add: mod_add_right_eq [symmetric, of 1 "a ^ n"])
qed

lemma geo_pow2:
  assumes "a mod 4 = 1"
  shows "\<exists>u. odd u \<and> geo a (2 ^ j) = 2 ^ j * u"
proof (induction j)
  case 0
  have "geo a (2 ^ 0) = 1" by (simp add: geo_def)
  then show ?case by (intro exI [of _ 1]) simp
next
  case (Suc j)
  then obtain u where u: "odd u" "geo a (2 ^ j) = 2 ^ j * u" by blast
  define v where "v = (1 + a ^ 2 ^ j) div 2"
  have m: "(1 + a ^ 2 ^ j) mod 4 = 2" by (rule one_plus_power_mod4 [OF assms])
  then have v: "odd v" "1 + a ^ 2 ^ j = 2 * v" unfolding v_def by presburger+
  have "geo a (2 ^ Suc j) = geo a (2 ^ j * 2)" by (simp add: mult.commute)
  also have "\<dots> = geo a (2 ^ j) * (1 + a ^ 2 ^ j)"
    by (simp only: geo_mult) (simp add: geo_def numeral_2_eq_2)
  also have "\<dots> = 2 ^ Suc j * (u * v)" by (simp add: u v)
  finally show ?case using u v by (intro exI [of _ "u * v"]) simp
qed

lemma pow2_odd_split: "(d::nat) > 0 \<Longrightarrow> \<exists>j q. odd q \<and> d = 2 ^ j * q"
proof (induction d rule: less_induct)
  case (less d)
  show ?case
  proof (cases "even d")
    case True
    then obtain e where e: "d = 2 * e" by blast
    with less.prems have "e < d" "0 < e" by simp_all
    then obtain j q where "odd q" "e = 2 ^ j * q" using less.IH by blast
    with e show ?thesis by (intro exI [of _ "Suc j"] exI [of _ q]) simp
  next
    case False
    then show ?thesis by (intro exI [of _ 0] exI [of _ d]) simp
  qed
qed

lemma pow2_dvd_odd_mult: "odd (u::int) \<Longrightarrow> 2 ^ k dvd x * u \<longleftrightarrow> 2 ^ k dvd x"
  by (simp add: coprime_dvd_mult_left_iff coprime_right_2_iff_odd)

lemma geo_dvd:
  assumes a: "a mod 4 = 1" and d: "0 < d" and dvd: "2 ^ k dvd geo a d"
  shows "2 ^ k dvd d"
proof -
  obtain j q where q: "odd q" "d = 2 ^ j * q" using pow2_odd_split [OF d] by blast
  obtain u where u: "odd u" "geo a (2 ^ j) = 2 ^ j * u" using geo_pow2 [OF a] by blast
  have "odd a" using a by presburger
  then have "odd (geo (a ^ 2 ^ j) q)" using q by (simp add: geo_odd)
  moreover have "geo a d = 2 ^ j * (u * geo (a ^ 2 ^ j) q)" by (simp add: q geo_mult u)
  ultimately have "(2::int) ^ k dvd 2 ^ j"
    using dvd u by (metis even_mult_iff pow2_dvd_odd_mult)
  then have "(2::int) ^ k \<le> 2 ^ j" by (rule zdvd_imp_le) simp
  then have "k \<le> j" by simp
  then show ?thesis using q by (simp add: dvd_mult2 le_imp_power_dvd)
qed

definition lcg :: "int \<Rightarrow> int \<Rightarrow> nat \<Rightarrow> int \<Rightarrow> int" where
  "lcg a c k s = (s * a + c) mod 2 ^ k"

lemma lcg_range: "0 \<le> lcg a c k s \<and> lcg a c k s < 2 ^ k"
  by (simp add: lcg_def)

lemma lcg_funpow:
  assumes "0 \<le> s" "s < 2 ^ k"
  shows "(lcg a c k ^^ n) s = (s + geo a n * ((a - 1) * s + c)) mod 2 ^ k"
proof (induction n)
  case 0
  then show ?case using assms by simp
next
  case (Suc n)
  have "(lcg a c k ^^ Suc n) s = ((s + geo a n * ((a - 1) * s + c)) * a + c) mod 2 ^ k"
    by (simp add: Suc lcg_def) (metis mod_add_left_eq mod_mult_left_eq)
  also have "(s + geo a n * ((a - 1) * s + c)) * a + c
      = s + (a * geo a n + 1) * ((a - 1) * s + c)" by (simp add: algebra_simps)
  also have "a * geo a n + 1 = geo a (Suc n)"
    using geo_power [of a n] by (simp add: geo_Suc algebra_simps)
  finally show ?case .
qed

lemma lcg_inj:
  assumes a: "a mod 4 = 1" and c: "odd c" and s: "0 \<le> s" "s < 2 ^ k"
    and mn: "m \<le> n" "n < 2 ^ k" and eq: "(lcg a c k ^^ m) s = (lcg a c k ^^ n) s"
  shows "m = n"
proof (rule ccontr)
  assume "m \<noteq> n"
  then have d: "0 < n - m" using mn by simp
  let ?u = "(a - 1) * s + c"
  have odd_a: "odd a" using a by presburger
  then have odd_u: "odd ?u" using c by simp
  have "geo a n = geo a m + a ^ m * geo a (n - m)"
    using geo_add [of a m "n - m"] mn by simp
  then have "(s + geo a n * ?u) - (s + geo a m * ?u) = geo a (n - m) * a ^ m * ?u"
    by (simp add: algebra_simps)
  moreover have "2 ^ k dvd (s + geo a n * ?u) - (s + geo a m * ?u)"
    using eq by (simp only: lcg_funpow [OF s] mod_eq_dvd_iff [symmetric])
  ultimately have "2 ^ k dvd geo a (n - m)"
    using odd_u odd_a by (simp add: pow2_dvd_odd_mult)
  then have "2 ^ k dvd n - m" by (rule geo_dvd [OF a d])
  then show False using d mn by (auto dest: dvd_imp_le)
qed

theorem lcg_full_period:
  assumes a: "a mod 4 = 1" and c: "odd c" and s: "0 \<le> s" "s < 2 ^ k" and t: "0 \<le> t" "t < 2 ^ k"
  shows "\<exists>n < 2 ^ k. (lcg a c k ^^ n) s = t"
proof -
  let ?f = "\<lambda>n. (lcg a c k ^^ n) s"
  have "inj_on ?f {..<2 ^ k}"
    unfolding inj_on_def using lcg_inj [OF a c s] by (metis lessThan_iff nat_le_linear)
  then have "card (?f ` {..<2 ^ k}) = 2 ^ k" by (simp add: card_image)
  moreover have sub: "?f ` {..<2 ^ k} \<subseteq> {0..<2 ^ k}"
    by (auto simp: lcg_funpow [OF s])
  moreover have "card {0..<2 ^ k :: int} = 2 ^ k" by simp
  ultimately have "?f ` {..<2 ^ k} = {0..<2 ^ k}"
    by (intro card_subset_eq) simp_all
  then have "t \<in> ?f ` {..<2 ^ k}" using t by simp
  then show ?thesis by auto
qed

end
