(* ===== verification/Sim_Random.thy ===== *)
theory Sim_Random
  imports Lcg_Period
begin

unbundle bit_operations_syntax

text \<open>
  The deterministic random source (\<^verbatim>\<open>sim/random_source.py\<close>): PCG-XSH-RR 32 written with
  unbounded Python integers and explicit masks. The integers here are HOL's \<open>int\<close>, whose
  \<open>AND\<close>, \<open>OR\<close>, \<open>XOR\<close>, \<open>push_bit\<close> and \<open>drop_bit\<close> are those of Python's
  \<open>&\<close>, \<open>|\<close>, \<open>^\<close>, \<open><<\<close> and \<open>>>\<close>. The loop of \<open>randbelow\<close> is a
  \<open>partial_function\<close>, so that its returning is a theorem (\<open>randbelow_returns\<close>), not an
  assumption. \<open>random()\<close> is the exact quotient by \<open>2 ^ 32\<close>, which a binary64 float holds
  without rounding; \<open>uniform\<close> takes the rounding of binary64 as its argument \<open>rnd\<close>.
\<close>

record det_random =
  rnd_state :: int
  rnd_increment :: int

definition MASK_32 :: int where
  "MASK_32 = push_bit 32 1 - 1"

definition MASK_64 :: int where
  "MASK_64 = push_bit 64 1 - 1"

definition MULTIPLIER :: int where
  "MULTIPLIER = 6364136223846793005"

definition random_snapshot_ok :: "det_random \<Rightarrow> unit result" where
  "random_snapshot_ok s = checks
     [(\<not> (0 \<le> rnd_state s \<and> rnd_state s \<le> MASK_64),
        ValueError ''state must be an unsigned 64-bit integer''),
      (\<not> (0 \<le> rnd_increment s \<and> rnd_increment s \<le> MASK_64) \<or> rnd_increment s mod 2 = 0,
        ValueError ''increment must be an odd unsigned 64-bit integer'')]"

definition next_uint32 :: "det_random \<Rightarrow> int \<times> det_random" where
  "next_uint32 r =
     (let old_state = rnd_state r;
          r' = r\<lparr>rnd_state := (old_state * MULTIPLIER + rnd_increment r) AND MASK_64\<rparr>;
          xor_shifted = drop_bit 27 (drop_bit 18 old_state XOR old_state) AND MASK_32;
          rotation = drop_bit 59 old_state
      in ((drop_bit (nat rotation) xor_shifted
            OR push_bit (nat ((- rotation) AND 31)) xor_shifted) AND MASK_32, r'))"

definition new_random :: "int \<Rightarrow> int \<Rightarrow> det_random" where
  "new_random seed stream =
     (let r0 = \<lparr>rnd_state = 0, rnd_increment = (push_bit 1 (stream AND MASK_64) OR 1) AND MASK_64\<rparr>;
          r1 = snd (next_uint32 r0);
          r2 = r1\<lparr>rnd_state := (rnd_state r1 + (seed AND MASK_64)) AND MASK_64\<rparr>
      in snd (next_uint32 r2))"

definition random_unit :: "det_random \<Rightarrow> rat \<times> det_random" where
  "random_unit r = (let (n, r') = next_uint32 r in (of_int n / 2 ^ 32, r'))"

definition uniform :: "(rat \<Rightarrow> rat) \<Rightarrow> rat \<Rightarrow> rat \<Rightarrow> det_random \<Rightarrow> (rat \<times> det_random) result" where
  "uniform rnd minimum maximum r =
     (if maximum < minimum then Inl (ValueError ''maximum must be at least minimum'')
      else let (u, r') = random_unit r
           in Inr (rnd (minimum + rnd (rnd (maximum - minimum) * u)), r'))"

definition chance :: "rat \<Rightarrow> det_random \<Rightarrow> (bool \<times> det_random) result" where
  "chance probability r =
     (if \<not> (0 \<le> probability \<and> probability \<le> 1)
      then Inl (ValueError ''probability must be between zero and one'')
      else let (u, r') = random_unit r in Inr (u < probability, r'))"

definition randbelow_threshold :: "int \<Rightarrow> int" where
  "randbelow_threshold bound = push_bit 32 1 mod bound"

partial_function (option) randbelow_loop ::
    "int \<Rightarrow> int \<Rightarrow> det_random \<Rightarrow> (int \<times> det_random) option" where
  "randbelow_loop threshold bound r =
     (if threshold \<le> fst (next_uint32 r)
      then Some (fst (next_uint32 r) mod bound, snd (next_uint32 r))
      else randbelow_loop threshold bound (snd (next_uint32 r)))"

definition randbelow :: "int \<Rightarrow> det_random \<Rightarrow> (int \<times> det_random) result option" where
  "randbelow bound r =
     (if bound \<le> 0 then Some (Inl (ValueError ''bound must be a positive integer''))
      else if bound > push_bit 32 1
      then Some (Inl (ValueError ''bound must fit in an unsigned 32-bit range''))
      else map_option Inr (randbelow_loop (randbelow_threshold bound) bound r))"

definition random_snapshot :: "det_random \<Rightarrow> det_random result" where
  "random_snapshot r = rbind (random_snapshot_ok r) (\<lambda>_. Inr r)"

definition random_restore :: "det_random \<Rightarrow> det_random \<Rightarrow> det_random" where
  "random_restore s r = r\<lparr>rnd_state := rnd_state s, rnd_increment := rnd_increment s\<rparr>"

subsection \<open>Well-formed generators\<close>

definition random_inv :: "det_random \<Rightarrow> bool" where
  "random_inv r \<longleftrightarrow> 0 \<le> rnd_state r \<and> rnd_state r < 2 ^ 64
     \<and> 0 \<le> rnd_increment r \<and> rnd_increment r < 2 ^ 64 \<and> odd (rnd_increment r)"

lemma MASK_32_mask: "MASK_32 = mask 32"
  by (simp add: MASK_32_def mask_eq_exp_minus_1)

lemma MASK_64_mask: "MASK_64 = mask 64"
  by (simp add: MASK_64_def mask_eq_exp_minus_1)

lemma and_MASK_32: "x AND MASK_32 = take_bit 32 x"
  by (simp add: MASK_32_mask take_bit_eq_mask)

lemma and_MASK_64: "x AND MASK_64 = take_bit 64 x"
  by (simp add: MASK_64_mask take_bit_eq_mask)

lemmas mask_simps = and_MASK_32 and_MASK_64

lemma take_bit_int_range: "0 \<le> take_bit n (x::int) \<and> take_bit n x < 2 ^ n"
  by simp

lemma next_uint32_range: "0 \<le> fst (next_uint32 r) \<and> fst (next_uint32 r) < 2 ^ 32"
  unfolding next_uint32_def Let_def fst_conv and_MASK_32 by (rule take_bit_int_range)

lemma next_uint32_state:
  "rnd_state (snd (next_uint32 r)) = lcg MULTIPLIER (rnd_increment r) 64 (rnd_state r)"
  by (simp add: next_uint32_def Let_def and_MASK_64 take_bit_eq_mod lcg_def)

lemma next_uint32_increment [simp]: "rnd_increment (snd (next_uint32 r)) = rnd_increment r"
  by (simp add: next_uint32_def Let_def)

lemma next_uint32_inv: "random_inv r \<Longrightarrow> random_inv (snd (next_uint32 r))"
  using lcg_range [of MULTIPLIER "rnd_increment r" 64 "rnd_state r"]
  by (auto simp: random_inv_def next_uint32_state)

lemma random_inv_take_bit:
  assumes "odd b" and "rnd_increment r = take_bit 64 b"
  shows "random_inv (r\<lparr>rnd_state := take_bit 64 a\<rparr>)"
  using take_bit_int_range [of 64 a] take_bit_int_range [of 64 b] assms
  by (simp add: random_inv_def even_take_bit_eq)

lemma new_random_inv: "random_inv (new_random seed stream)"
proof -
  have odd_or: "odd (push_bit 1 x OR 1)" for x :: int
    by (simp add: even_or_iff)
  show ?thesis
    unfolding new_random_def Let_def mask_simps
    by (rule next_uint32_inv, rule random_inv_take_bit [OF odd_or])
      (simp only: det_random.simps next_uint32_increment)
qed

subsection \<open>The reference PCG-XSH-RR 64/32 on machine words\<close>

definition pcg_step :: "64 word \<Rightarrow> 64 word \<Rightarrow> 64 word" where
  "pcg_step inc s = s * 6364136223846793005 + inc"

definition pcg_output :: "64 word \<Rightarrow> 32 word" where
  "pcg_output s = word_rotr (unat (drop_bit 59 s)) (ucast (drop_bit 27 (s XOR drop_bit 18 s)))"

lemma rotr_shifts:
  fixes w :: "32 word"
  assumes k: "k < 32"
  shows "take_bit 32 (drop_bit k (uint w) OR push_bit (nat ((- int k) AND 31)) (uint w))
    = uint (word_rotr k w)"
proof -
  have m: "(- int k) AND 31 = (- int k) mod 32"
    using take_bit_eq_mask [of 5 "- int k"] by (simp add: take_bit_eq_mod mask_eq_exp_minus_1)
  have shift: "nat ((- int k) AND 31) = (if k = 0 then 0 else 32 - k)"
    unfolding m using k by (auto simp: zmod_zminus1_eq_if nat_diff_distrib)
  have bits: "(n < 32 \<and> (n + k < 32 \<and> bit w (n + k) \<or> k \<noteq> 0 \<and> 32 - k \<le> n \<and> bit w (n - (32 - k))
      \<or> k = 0 \<and> bit w n)) \<longleftrightarrow> n < 32 \<and> bit w ((n + k) mod 32)" for n
  proof (cases "n + k < 32")
    case False
    then have "(n + k) mod 32 = n - (32 - k)" if "n < 32"
      using k that by (simp add: mod_if)
    with False k show ?thesis by auto
  qed (use k in \<open>auto dest: bit_imp_le_length\<close>)
  show ?thesis
  proof (rule bit_eqI)
    fix n
    show "bit (take_bit 32 (drop_bit k (uint w) OR push_bit (nat ((- int k) AND 31)) (uint w))) n
      = bit (uint (word_rotr k w)) n"
      using bits [of n] unfolding shift
      by (auto simp: bit_take_bit_iff bit_or_iff bit_drop_bit_eq bit_push_bit_iff bit_uint_iff
        bit_word_rotr_iff add.commute [of k])
  qed
qed

lemma xorshift_word:
  fixes w :: "64 word"
  shows "take_bit 32 (drop_bit 27 (drop_bit 18 (uint w) XOR uint w))
    = uint (ucast (drop_bit 27 (w XOR drop_bit 18 w)) :: 32 word)"
  by (rule bit_eqI)
    (auto simp: bit_take_bit_iff bit_drop_bit_eq bit_xor_iff bit_uint_iff bit_ucast_iff
      dest: bit_imp_le_length)

lemma uint_word_of_int_inv: "random_inv r \<Longrightarrow> uint (word_of_int (rnd_state r) :: 64 word) = rnd_state r"
  by (simp add: random_inv_def uint_word_of_int)

lemma next_uint32_word:
  assumes "random_inv r"
  shows "next_uint32 r =
    (uint (pcg_output (word_of_int (rnd_state r))),
     r\<lparr>rnd_state := uint (pcg_step (word_of_int (rnd_increment r)) (word_of_int (rnd_state r)))\<rparr>)"
proof -
  let ?s = "word_of_int (rnd_state r) :: 64 word"
  have s: "uint ?s = rnd_state r" by (rule uint_word_of_int_inv [OF assms])
  have k: "unat (drop_bit 59 ?s) < 32"
    using unsigned_less [of ?s, where ?'a = nat]
    by (simp only: unat_drop_bit_eq) (simp add: drop_bit_eq_div less_mult_imp_div_less)
  have rot: "drop_bit 59 (rnd_state r) = int (unat (drop_bit 59 ?s))"
    by (simp only: unat_drop_bit_eq drop_bit_of_nat [symmetric] of_nat_unat s)
  have xs: "take_bit 32 (drop_bit 27 (drop_bit 18 (rnd_state r) XOR rnd_state r))
     = uint (ucast (drop_bit 27 (?s XOR drop_bit 18 ?s)) :: 32 word)"
    using xorshift_word [of ?s] by (simp only: s)
  have st: "take_bit 64 (rnd_state r * MULTIPLIER + rnd_increment r)
     = uint (pcg_step (word_of_int (rnd_increment r)) ?s)"
    by (simp add: pcg_step_def uint_word_ariths MULTIPLIER_def take_bit_eq_mod uint_word_of_int mod_simps)
  show ?thesis
    unfolding next_uint32_def Let_def mask_simps rot xs st
    using rotr_shifts [OF k, of "ucast (drop_bit 27 (?s XOR drop_bit 18 ?s))"]
    by (simp add: pcg_output_def)
qed

subsection \<open>The period, and that randbelow returns\<close>

fun draw :: "nat \<Rightarrow> det_random \<Rightarrow> det_random" where
  "draw 0 r = r"
| "draw (Suc n) r = draw n (snd (next_uint32 r))"

lemma draw_increment [simp]: "rnd_increment (draw n r) = rnd_increment r"
  by (induction n arbitrary: r) simp_all

lemma draw_state:
  "rnd_state (draw n r) = (lcg MULTIPLIER (rnd_increment r) 64 ^^ n) (rnd_state r)"
  by (induction n arbitrary: r) (simp_all add: next_uint32_state funpow_swap1)

lemma draw_inv: "random_inv r \<Longrightarrow> random_inv (draw n r)"
  by (induction n arbitrary: r) (simp_all add: next_uint32_inv)

lemma draw_reaches:
  assumes "random_inv r" "0 \<le> t" "t < 2 ^ 64"
  shows "\<exists>n < 2 ^ 64. draw n r = r\<lparr>rnd_state := t\<rparr>"
proof -
  have "MULTIPLIER mod 4 = 1" by (simp add: MULTIPLIER_def)
  then obtain n where "n < 2 ^ 64"
      "(lcg MULTIPLIER (rnd_increment r) 64 ^^ n) (rnd_state r) = t"
    using lcg_full_period [of MULTIPLIER "rnd_increment r" "rnd_state r" 64 t] assms
    by (auto simp: random_inv_def)
  then show ?thesis
    by (intro exI [of _ n]) (simp add: det_random.equality draw_state)
qed

lemma next_uint32_max: "fst (next_uint32 (r\<lparr>rnd_state := 2 ^ 59 - 2 ^ 41\<rparr>)) = 2 ^ 32 - 1"
  by (simp add: next_uint32_def Let_def mask_simps)

lemma randbelow_loop_hits:
  assumes "threshold \<le> fst (next_uint32 (draw n r))"
  shows "\<exists>m \<le> n. threshold \<le> fst (next_uint32 (draw m r))
    \<and> randbelow_loop threshold bound r
      = Some (fst (next_uint32 (draw m r)) mod bound, draw (Suc m) r)"
  using assms
proof (induction n arbitrary: r)
  case 0
  then show ?case by (simp add: randbelow_loop.simps)
next
  case (Suc n)
  show ?case
  proof (cases "threshold \<le> fst (next_uint32 r)")
    case True
    then show ?thesis by (intro exI [of _ 0]) (simp add: randbelow_loop.simps)
  next
    case False
    from Suc.IH [of "snd (next_uint32 r)"] Suc.prems obtain m where "m \<le> n"
        "threshold \<le> fst (next_uint32 (draw m (snd (next_uint32 r))))"
        "randbelow_loop threshold bound (snd (next_uint32 r))
          = Some (fst (next_uint32 (draw m (snd (next_uint32 r)))) mod bound,
             draw (Suc m) (snd (next_uint32 r)))"
      by auto
    with False show ?thesis
      by (intro exI [of _ "Suc m"]) (simp add: randbelow_loop.simps [of _ _ r])
  qed
qed

lemma randbelow_loop_returns:
  assumes "random_inv r" "threshold < 2 ^ 32"
  shows "\<exists>m < 2 ^ 64. threshold \<le> fst (next_uint32 (draw m r))
    \<and> randbelow_loop threshold bound r
      = Some (fst (next_uint32 (draw m r)) mod bound, draw (Suc m) r)"
proof -
  obtain n where n: "n < 2 ^ 64" "draw n r = r\<lparr>rnd_state := 2 ^ 59 - 2 ^ 41\<rparr>"
    using draw_reaches [OF assms(1), of "2 ^ 59 - 2 ^ 41"] by auto
  have "threshold \<le> fst (next_uint32 (draw n r))"
    using assms(2) by (simp only: n next_uint32_max)
  from randbelow_loop_hits [OF this] n(1) show ?thesis by (meson le_less_trans)
qed

lemma randbelow_result:
  assumes inv: "random_inv r" and b: "0 < bound" "bound \<le> 2 ^ 32"
  shows "\<exists>v r' n. randbelow bound r = Some (Inr (v, r')) \<and> 0 \<le> v \<and> v < bound \<and> random_inv r'
    \<and> n < 2 ^ 64 \<and> r' = draw (Suc n) r \<and> v = fst (next_uint32 (draw n r)) mod bound"
proof -
  have "randbelow_threshold bound < bound" using b by (simp add: randbelow_threshold_def)
  then have "randbelow_threshold bound < 2 ^ 32" using b by simp
  from randbelow_loop_returns [OF inv this, of bound] obtain m where m: "m < 2 ^ 64" and
    "randbelow_loop (randbelow_threshold bound) bound r
      = Some (fst (next_uint32 (draw m r)) mod bound, draw (Suc m) r)" by blast
  moreover have "randbelow bound r
      = map_option Inr (randbelow_loop (randbelow_threshold bound) bound r)"
    using b by (simp add: randbelow_def)
  ultimately show ?thesis using b m draw_inv [OF inv, of "Suc m"]
    by (intro exI [of _ "fst (next_uint32 (draw m r)) mod bound"] exI [of _ "draw (Suc m) r"] exI [of _ m]) simp
qed

lemma card_residue_range:
  fixes b q v :: int
  assumes "0 < b" "0 \<le> q" "0 \<le> v" "v < b"
  shows "card {c. t \<le> c \<and> c < t + q * b \<and> c mod b = v} = nat q"
proof -
  define o' where "o' = t + (v - t) mod b"
  have o': "o' mod b = v" using assms by (simp add: o'_def mod_add_right_eq)
  have "{c. t \<le> c \<and> c < t + q * b \<and> c mod b = v} = (\<lambda>i. o' + i * b) ` {0..<q}" (is "?A = ?B")
  proof (intro equalityI subsetI)
    fix c assume c: "c \<in> ?A"
    then have "b dvd c - o'" using o' by (simp add: mod_eq_dvd_iff [symmetric])
    then obtain i where i: "c = o' + i * b" by (metis dvdE mult.commute add.commute diff_add_cancel)
    have o_b: "0 \<le> o' - t" "o' - t < b" using assms by (simp_all add: o'_def)
    have "t \<le> o' + i * b" "o' + i * b < t + q * b" using c i by auto
    then have "(-1) * b < i * b" "i * b < q * b" using o_b by linarith+
    then have "-1 < i" "i < q" using assms(1) by (simp_all only: mult_less_cancel_right_pos)
    then show "c \<in> ?B" using i by auto
  next
    fix c assume "c \<in> ?B"
    then obtain i where i: "0 \<le> i" "i < q" "c = o' + i * b" by auto
    have o_b: "0 \<le> o' - t" "o' - t < b" using assms by (simp_all add: o'_def)
    have "0 \<le> i * b" using i assms(1) by simp
    moreover have "(i + 1) * b \<le> q * b" using i assms(1) by (intro mult_right_mono) auto
    ultimately have "0 \<le> i * b" "i * b + b \<le> q * b" by (simp_all add: distrib_right)
    then show "c \<in> ?A" using i o_b o' by (simp, linarith)
  qed
  moreover have "inj_on (\<lambda>i. o' + i * b) {0..<q}" using assms(1) by (auto simp: inj_on_def)
  ultimately show ?thesis by (simp add: card_image)
qed

subsection \<open>The distribution of one draw\<close>

text \<open>The xorshift of the state is undone by three more shifts; what is left of it are the rotation (5 bits), the bits that
  are rotated (32) and the bits that are dropped (27).\<close>

definition xorshift :: "64 word \<Rightarrow> 64 word" where
  "xorshift s = s XOR drop_bit 18 s"

definition unxorshift :: "64 word \<Rightarrow> 64 word" where
  "unxorshift t = t XOR drop_bit 18 t XOR drop_bit 36 t XOR drop_bit 54 t"

lemma unxorshift_xorshift: "unxorshift (xorshift s) = s"
  by (rule bit_word_eqI) (auto simp: unxorshift_def xorshift_def bit_xor_iff bit_drop_bit_eq add.assoc dest: bit_imp_le_length)

lemma bij_xorshift: "bij xorshift"
  by (metis (no_types, lifting) inj_on_inverseI unxorshift_xorshift finite_UNIV_inj_surj bij_def finite)

definition pcg_parts :: "64 word \<Rightarrow> 32 word" where
  "pcg_parts t = word_rotr (unat (drop_bit 59 t)) (ucast (drop_bit 27 t))"

lemma pcg_output_parts: "pcg_output s = pcg_parts (xorshift s)"
proof -
  have "drop_bit 59 (xorshift s) = drop_bit 59 s"
    by (rule bit_word_eqI) (auto simp: xorshift_def bit_xor_iff bit_drop_bit_eq dest: bit_imp_le_length)
  then show ?thesis by (simp add: pcg_output_def pcg_parts_def xorshift_def)
qed

definition pcg_join :: "32 word \<Rightarrow> nat \<times> nat \<Rightarrow> 64 word" where
  "pcg_join c = (\<lambda>(k, l). word_of_nat (k * 2 ^ 59 + unat (word_rotl k c) * 2 ^ 27 + l))"

lemma unat_pcg_join:
  assumes "k < 2 ^ 5" "l < 2 ^ 27"
  shows "unat (pcg_join c (k, l)) = k * 2 ^ 59 + unat (word_rotl k c) * 2 ^ 27 + l"
proof -
  have "unat (word_rotl k c) < 2 ^ 32" using unsigned_less [of "word_rotl k c", where ?'a = nat] by simp
  with assms have "k * 2 ^ 59 + unat (word_rotl k c) * 2 ^ 27 + l < 2 ^ 64" by simp
  then show ?thesis unfolding pcg_join_def prod.case by (subst unat_of_nat) (rule mod_less, simp)
qed

lemma pcg_parts_unat:
  "pcg_parts t = word_rotr (unat t div 2 ^ 59) (word_of_nat (unat t div 2 ^ 27 mod 2 ^ 32))"
proof -
  have "ucast (drop_bit 27 t) = (word_of_nat (unat t div 2 ^ 27 mod 2 ^ 32) :: 32 word)"
    by (rule word_unat_eq_iff [THEN iffD2]) (simp add: unat_of_nat unsigned_ucast_eq unat_drop_bit_eq drop_bit_eq_div take_bit_eq_mod unat_div)
  then show ?thesis by (simp add: pcg_parts_def unat_drop_bit_eq drop_bit_eq_div unat_div)
qed

lemma pcg_parts_fibre: "card {t. pcg_parts t = c} = 2 ^ 32"
proof -
  have u: "unat (word_rotl k c) < 2 ^ 32" for k using unsigned_less [of "word_rotl k c", where ?'a = nat] by simp
  have high: "n div 2 ^ 59 = n div 2 ^ 27 div 2 ^ 32" for n :: nat by (simp add: div_mult2_eq [symmetric])
  have parts: "q * 2 ^ 27 + l = n \<Longrightarrow> k * 2 ^ 32 + m = q \<Longrightarrow> n = k * 2 ^ 59 + m * 2 ^ 27 + l" for k l m n q :: nat by auto
  let ?f = "\<lambda>t :: 64 word. (unat t div 2 ^ 59, unat t mod 2 ^ 27)"
  have fibre: "?f t \<in> {..<2 ^ 5} \<times> {..<2 ^ 27}" for t
    using unsigned_less [of t, where ?'a = nat] by (simp add: less_mult_imp_div_less)
  have join: "?f (pcg_join c p) = p \<and> pcg_parts (pcg_join c p) = c" if p: "p \<in> {..<2 ^ 5} \<times> {..<2 ^ 27}" for p
  proof (cases p)
    case (Pair k l)
    with p have kl: "k < 2 ^ 5" "l < 2 ^ 27" by simp_all
    have split: "unat (pcg_join c (k, l)) = (k * 2 ^ 32 + unat (word_rotl k c)) * 2 ^ 27 + l" unfolding unat_pcg_join [OF kl] by simp
    have "unat (pcg_join c (k, l)) div 2 ^ 27 = k * 2 ^ 32 + unat (word_rotl k c)" "unat (pcg_join c (k, l)) mod 2 ^ 27 = l"
      unfolding split using kl(2) by (simp_all only: div_mult_self3 mod_mult_self3 div_less mod_less)
    moreover from this have "unat (pcg_join c (k, l)) div 2 ^ 27 div 2 ^ 32 = k" "unat (pcg_join c (k, l)) div 2 ^ 27 mod 2 ^ 32 = unat (word_rotl k c)"
      using u [of k] by simp_all
    ultimately have "unat (pcg_join c (k, l)) div 2 ^ 59 = k" "unat (pcg_join c (k, l)) div 2 ^ 27 mod 2 ^ 32 = unat (word_rotl k c)"
      "unat (pcg_join c (k, l)) mod 2 ^ 27 = l" by (simp_all only: high)
    then show ?thesis by (simp add: Pair pcg_parts_unat)
  qed
  have rejoin: "pcg_join c (?f t) = t" if "pcg_parts t = c" for t
  proof -
    from that have "word_rotl (unat t div 2 ^ 59) c = word_of_nat (unat t div 2 ^ 27 mod 2 ^ 32)" by (auto simp: pcg_parts_unat)
    then have "unat (word_rotl (unat t div 2 ^ 59) c) = unat t div 2 ^ 27 mod 2 ^ 32" by (simp add: unat_of_nat)
    moreover have "unat t = unat t div 2 ^ 59 * 2 ^ 59 + unat t div 2 ^ 27 mod 2 ^ 32 * 2 ^ 27 + unat t mod 2 ^ 27"
      unfolding high by (rule parts [OF div_mult_mod_eq div_mult_mod_eq])
    ultimately have "pcg_join c (?f t) = word_of_nat (unat t)" unfolding pcg_join_def prod.case by presburger
    then show ?thesis by simp
  qed
  have "bij_betw ?f {t. pcg_parts t = c} ({..<2 ^ 5} \<times> {..<2 ^ 27})"
    by (rule bij_betw_byWitness [where f' = "pcg_join c"]) (use fibre join rejoin in \<open>auto simp del: mem_Sigma_iff\<close>)
  from bij_betw_same_card [OF this] show ?thesis by (simp add: card_cartesian_product)
qed

lemma pcg_output_fibre: "card {s. pcg_output s = c} = 2 ^ 32"
proof -
  have "bij_betw xorshift {s. pcg_output s = c} {t. pcg_parts t = c}"
    using bij_xorshift by (auto simp: bij_betw_def bij_def inj_on_def pcg_output_parts image_iff)
  from bij_betw_same_card [OF this] pcg_parts_fibre show ?thesis by simp
qed


text \<open>So every value of a draw is given by equally many states.\<close>

lemma next_uint32_fibre:
  assumes "odd inc" "0 \<le> inc" "inc < 2 ^ 64" "0 \<le> c" "c < 2 ^ 32"
  shows "card {s. 0 \<le> s \<and> s < 2 ^ 64 \<and> fst (next_uint32 \<lparr>rnd_state = s, rnd_increment = inc\<rparr>) = c} = 2 ^ 32"
proof -
  have out: "fst (next_uint32 \<lparr>rnd_state = s, rnd_increment = inc\<rparr>) = uint (pcg_output (word_of_int s))" if "0 \<le> s" "s < 2 ^ 64" for s
    using next_uint32_word [of "\<lparr>rnd_state = s, rnd_increment = inc\<rparr>"] assms that by (simp add: random_inv_def)
  have c: "uint w = c \<longleftrightarrow> w = word_of_int c" for w :: "32 word" using assms(4,5) by (auto simp: uint_word_of_int)
  have "bij_betw uint {w :: 64 word. pcg_output w = word_of_int c}
      {s. 0 \<le> s \<and> s < 2 ^ 64 \<and> fst (next_uint32 \<lparr>rnd_state = s, rnd_increment = inc\<rparr>) = c}"
  proof (rule bij_betw_byWitness [where f' = word_of_int])
    show "\<forall>s \<in> {s. 0 \<le> s \<and> s < 2 ^ 64 \<and> fst (next_uint32 \<lparr>rnd_state = s, rnd_increment = inc\<rparr>) = c}. uint (word_of_int s :: 64 word) = s"
      by (simp add: uint_word_of_int)
    show "uint ` {w :: 64 word. pcg_output w = word_of_int c} \<subseteq> {s. 0 \<le> s \<and> s < 2 ^ 64 \<and> fst (next_uint32 \<lparr>rnd_state = s, rnd_increment = inc\<rparr>) = c}"
      using unsigned_less [where 'a = int and ?'b = 64] by (auto simp: out c)
  qed (auto simp: out c)
  from bij_betw_same_card [OF this] pcg_output_fibre show ?thesis by metis
qed

lemma card_fibres:
  assumes "finite A" "\<And>c. c \<in> A \<Longrightarrow> card {s. P s \<and> f s = c} = n" "finite {s. P s}"
  shows "card {s. P s \<and> f s \<in> A} = card A * n"
proof -
  have "{s. P s \<and> f s \<in> A} = (\<Union>c \<in> A. {s. P s \<and> f s = c})" by blast
  also have "card \<dots> = (\<Sum>c \<in> A. card {s. P s \<and> f s = c})"
    using assms(1,3) by (intro card_UN_disjoint) (auto intro: finite_subset [OF _ assms(3)])
  finally show ?thesis using assms(2) by simp
qed

lemma threshold_bounds:
  assumes "0 < bound" "bound \<le> 2 ^ 32"
  shows "0 \<le> randbelow_threshold bound" "randbelow_threshold bound < 2 ^ 32"
  using assms less_le_trans [OF pos_mod_bound [OF assms(1)] assms(2), of "2 ^ 32"] by (simp_all add: randbelow_threshold_def)

text \<open>The value is that of a single draw.\<close>

definition generator :: "int \<Rightarrow> int \<Rightarrow> det_random" where
  "generator inc s = \<lparr>rnd_state = s, rnd_increment = inc\<rparr>"

definition returns_at_once :: "int \<Rightarrow> det_random \<Rightarrow> int \<Rightarrow> bool" where
  "returns_at_once bound r v \<longleftrightarrow> randbelow bound r = Some (Inr (v, snd (next_uint32 r)))"

text \<open>A second draw never comes back to the state after the first.\<close>

lemma randbelow_one_draw:
  assumes "random_inv r" "0 < bound" "bound \<le> 2 ^ 32"
  shows "randbelow bound r = Some (Inr (v, snd (next_uint32 r)))
    \<longleftrightarrow> randbelow_threshold bound \<le> fst (next_uint32 r) \<and> v = fst (next_uint32 r) mod bound"
proof (cases "randbelow_threshold bound \<le> fst (next_uint32 r)")
  case True
  then show ?thesis using assms by (auto simp: randbelow_def randbelow_loop.simps [of _ _ r])
next
  case False
  from randbelow_loop_returns [OF assms(1) threshold_bounds(2) [OF assms(2,3)], of bound] obtain m where m: "m < 2 ^ 64" "randbelow_threshold bound \<le> fst (next_uint32 (draw m r))"
    "randbelow_loop (randbelow_threshold bound) bound r = Some (fst (next_uint32 (draw m r)) mod bound, draw (Suc m) r)" by blast
  have "draw (Suc m) r \<noteq> snd (next_uint32 r)"
  proof
    assume "draw (Suc m) r = snd (next_uint32 r)"
    then have "rnd_state (draw m (snd (next_uint32 r))) = rnd_state (snd (next_uint32 r))" by simp
    then have eq: "(lcg MULTIPLIER (rnd_increment r) 64 ^^ 0) (rnd_state (snd (next_uint32 r)))
        = (lcg MULTIPLIER (rnd_increment r) 64 ^^ m) (rnd_state (snd (next_uint32 r)))" by (simp add: draw_state)
    have "MULTIPLIER mod 4 = 1" by (simp add: MULTIPLIER_def)
    from lcg_inj [OF this _ _ _ _ m(1) eq] next_uint32_inv [OF assms(1)] have "m = 0" by (simp add: random_inv_def)
    with m(2) False show False by simp
  qed
  with m(3) False assms show ?thesis by (simp add: randbelow_def)
qed

subsection \<open>Properties\<close>

text \<open>C30: One draw of the generator, written with unbounded integers and masks, is one draw of
  PCG-XSH-RR 64/32 on machine words: the output is the rotated xorshift of the 64-bit state and
  the new state is the wrapping linear congruential step.\<close>

theorem next_uint32_is_pcg:
  assumes "random_inv r"
  shows "next_uint32 r =
    (uint (pcg_output (word_of_int (rnd_state r))),
     r\<lparr>rnd_state := uint (pcg_step (word_of_int (rnd_increment r)) (word_of_int (rnd_state r)))\<rparr>)"
  using assms by (rule next_uint32_word)

theorem next_uint32_is_pcg_witness:
  "random_inv (new_random 42 54)
   \<and> uint (pcg_output (word_of_int (rnd_state (new_random 42 54)))) = 0xa15c02b7"
proof -
  have "fst (next_uint32 (new_random 42 54)) = 0xa15c02b7"
    by (simp add: new_random_def next_uint32_def Let_def MULTIPLIER_def MASK_32_def MASK_64_def)
  then show ?thesis
    using new_random_inv [of 42 54] next_uint32_is_pcg [OF new_random_inv, of 42 54] by simp
qed

text \<open>C31: The rejection loop of \<open>randbelow\<close> always returns: for a well-formed generator and a bound
  between 1 and \<open>2 ^ 32\<close> it yields a value below the bound and a well-formed generator, after fewer than
  \<open>2 ^ 64\<close> draws; for any other bound it raises.\<close>

theorem randbelow_returns:
  assumes "random_inv r"
  shows "if 0 < bound \<and> bound \<le> 2 ^ 32
    then \<exists>v r' n. randbelow bound r = Some (Inr (v, r')) \<and> 0 \<le> v \<and> v < bound \<and> random_inv r'
      \<and> n < 2 ^ 64 \<and> r' = draw (Suc n) r \<and> v = fst (next_uint32 (draw n r)) mod bound
    else \<exists>e. randbelow bound r = Some (Inl e)"
proof (cases "0 < bound \<and> bound \<le> 2 ^ 32")
  case True
  then show ?thesis using randbelow_result [OF assms, of bound] by simp
next
  case False
  then show ?thesis by (auto simp: randbelow_def)
qed

theorem randbelow_returns_witness:
  "random_inv (new_random 42 54)
   \<and> (\<exists>v r'. randbelow 6 (new_random 42 54) = Some (Inr (v, r')) \<and> 0 \<le> v \<and> v < 6)"
  using new_random_inv [of 42 54] randbelow_returns [OF new_random_inv, of 6 42 54] by auto

text \<open>C20: \<open>randbelow\<close> is unbiased: over all states of the generator, every value below the bound is returned
  after a single draw by equally many states, \<open>2 ^ 32 * (2 ^ 32 div bound)\<close> of them. From the remaining
  states, \<open>2 ^ 32 * (2 ^ 32 mod bound)\<close> in number, it answers as it would after the draw.\<close>

theorem randbelow_unbiased:
  assumes "0 < bound" "bound \<le> 2 ^ 32" "odd inc" "0 \<le> inc" "inc < 2 ^ 64"
  shows "(\<forall>v. 0 \<le> v \<and> v < bound \<longrightarrow>
        card {s. 0 \<le> s \<and> s < 2 ^ 64 \<and> returns_at_once bound (generator inc s) v} = 2 ^ 32 * nat (2 ^ 32 div bound))
    \<and> card {s. 0 \<le> s \<and> s < 2 ^ 64 \<and> (\<nexists>v. returns_at_once bound (generator inc s) v)} = 2 ^ 32 * nat (2 ^ 32 mod bound)
    \<and> (\<forall>s. 0 \<le> s \<and> s < 2 ^ 64 \<and> (\<nexists>v. returns_at_once bound (generator inc s) v) \<longrightarrow>
        randbelow bound (generator inc s) = randbelow bound (snd (next_uint32 (generator inc s))))"
proof -
  let ?once = "\<lambda>s v. returns_at_once bound (generator inc s) v"
  let ?t = "randbelow_threshold bound" and ?P = "\<lambda>s. 0 \<le> s \<and> s < (2::int) ^ 64"
  have inv: "random_inv (generator inc s)" if "?P s" for s using that assms by (simp add: random_inv_def generator_def)
  have once: "?once s v \<longleftrightarrow> ?t \<le> fst (next_uint32 (generator inc s)) \<and> v = fst (next_uint32 (generator inc s)) mod bound" if "?P s" for s v
    unfolding returns_at_once_def by (rule randbelow_one_draw [OF inv [OF that] assms(1,2)])
  have never: "(\<nexists>v. ?once s v) \<longleftrightarrow> fst (next_uint32 (generator inc s)) < ?t" if "?P s" for s using once [OF that] by auto
  have "{s. ?P s} = {0..<2 ^ 64}" by auto
  then have fin: "finite {s. ?P s}" by simp
  have t: "0 \<le> ?t" "?t = 2 ^ 32 mod bound" "?t < 2 ^ 32" "(2::int) ^ 32 = ?t + 2 ^ 32 div bound * bound"
    using threshold_bounds [OF assms(1,2)] by (simp_all add: randbelow_threshold_def)
  have fibre: "card {s. ?P s \<and> fst (next_uint32 (generator inc s)) = c} = 2 ^ 32" if "0 \<le> c" "c < 2 ^ 32" for c
    using next_uint32_fibre [OF assms(3-5) that] by (simp add: generator_def conj_assoc)
  have count: "card {s. ?P s \<and> fst (next_uint32 (generator inc s)) \<in> A} = card A * 2 ^ 32" if "A \<subseteq> {0..<2 ^ 32}" for A
    by (rule card_fibres [OF finite_subset [OF that] _ fin]) (use that fibre in auto)
  have q: "0 \<le> (2::int) ^ 32 div bound" using assms(1) by (simp add: pos_imp_zdiv_nonneg_iff)
  have "card {s. ?P s \<and> ?once s v} = 2 ^ 32 * nat (2 ^ 32 div bound)" if v: "0 \<le> v" "v < bound" for v
  proof -
    let ?A = "{c. ?t \<le> c \<and> c < 2 ^ 32 \<and> c mod bound = v}"
    have "{s. ?P s \<and> ?once s v} = {s. ?P s \<and> fst (next_uint32 (generator inc s)) \<in> ?A}" using next_uint32_range by (auto simp: once)
    moreover have "card ?A = nat (2 ^ 32 div bound)" using card_residue_range [OF assms(1) q v, of ?t] t(4) by simp
    moreover have "?A \<subseteq> {0..<2 ^ 32}" using t(1) by auto
    ultimately show ?thesis using count [of ?A] by (simp only: mult.commute)
  qed
  moreover have "card {s. ?P s \<and> (\<nexists>v. ?once s v)} = 2 ^ 32 * nat (2 ^ 32 mod bound)"
  proof -
    have "{s. ?P s \<and> (\<nexists>v. ?once s v)} = {s. ?P s \<and> fst (next_uint32 (generator inc s)) \<in> {0..<?t}}" using next_uint32_range never by auto
    with count [of "{0..<?t}"] t show ?thesis by simp
  qed
  moreover have "randbelow bound (generator inc s) = randbelow bound (snd (next_uint32 (generator inc s)))" if "?P s" "\<nexists>v. ?once s v" for s
    using never [OF that(1)] that(2) assms(1,2) by (simp add: randbelow_def randbelow_loop.simps [of _ _ "generator inc s"])
  ultimately show ?thesis by (simp only: conj_assoc simp_thms) blast
qed

theorem randbelow_unbiased_witness:
  "card {s. 0 \<le> s \<and> s < 2 ^ 64 \<and> returns_at_once 6 (generator 109 s) 5} = 2 ^ 32 * 715827882
   \<and> card {s. 0 \<le> s \<and> s < 2 ^ 64 \<and> (\<nexists>v. returns_at_once 6 (generator 109 s) v)} = 2 ^ 32 * 4"
  using randbelow_unbiased [of 6 109] by auto

text \<open>C32: The generator has full period: from any well-formed state, every 64-bit state is
  reached after fewer than \<open>2 ^ 64\<close> draws, the increment never changing.\<close>

theorem draw_full_period:
  assumes "random_inv r" "0 \<le> t" "t < 2 ^ 64"
  shows "\<exists>n < 2 ^ 64. draw n r = r\<lparr>rnd_state := t\<rparr>"
  using assms by (rule draw_reaches)

theorem draw_full_period_witness:
  "\<exists>n < 2 ^ 64. draw n (new_random 42 54) = (new_random 42 54)\<lparr>rnd_state := 0\<rparr>"
  using draw_full_period [OF new_random_inv, of 0 42 54] by simp

end
