(* ===== verification/Sim_Lifecycle.thy ===== *)
theory Sim_Lifecycle
  imports Sim_State Sim_Clock Sim_Random
begin

text \<open>
  The lifecycle of an action execution (\<^verbatim>\<open>sim/lifecycle.py\<close>) and the records of the timeline: scheduled
  work and the snapshot of an environment (\<^verbatim>\<open>sim/timeline.py\<close>). A defaulted field of the code is an
  ordinary field here; \<open>work_item\<close> names the defaults.
\<close>

subsection \<open>Vocabularies\<close>

datatype action_execution_status =
  STATUS_STARTED | STATUS_ACTIVE | STATUS_RELEASED | STATUS_RECOVERING | STATUS_COMPLETED | STATUS_INTERRUPTED

datatype payload_release_status = PAYLOAD_NOT_APPLICABLE | PAYLOAD_PENDING | PAYLOAD_RELEASED

datatype continuation_policy =
  SOURCE_BOUND | DETACH_ON_RELEASE | EFFECT_INSTANCE_BOUND | TARGET_LIFE_BOUND | WORLD_BOUND

datatype scheduled_kind =
  PHASE_RELEASE | PHASE_TRANSITION | RESOLUTION | WEAPON_ATTACK | COMPLETION | EFFECT_PULSE | EFFECT_EXPIRY

subsection \<open>Action executions\<close>

record action_execution =
  ex_correlation_id :: string
  ex_actor_entity_id :: string
  ex_actor_life_id :: string
  ex_target_life_id :: "string option"
  ex_action_key :: string
  ex_binding :: action_binding
  ex_phase_index :: int
  ex_phase_kind :: phase_kind
  ex_phase_started_at_ms :: int
  ex_phase_ends_at_ms :: int
  ex_status :: action_execution_status
  ex_phase_interruptible :: bool
  ex_movement_allowed :: bool
  ex_payload_release_status :: payload_release_status
  ex_released_phase_indexes :: "int set"
  ex_cancel_token :: string
  ex_cancel_on_damage :: bool
  ex_cancel_on_stun :: bool
  ex_pending_triggered_effects :: "effect_primitive list"
  ex_trigger_payload_scheduled :: bool

record action_execution_snapshot =
  xs_correlation_id :: string
  xs_actor_entity_id :: string
  xs_actor_life_id :: string
  xs_target_life_id :: "string option"
  xs_action_key :: string
  xs_binding :: action_binding
  xs_phase_index :: int
  xs_phase_kind :: phase_kind
  xs_phase_started_at_ms :: int
  xs_phase_ends_at_ms :: int
  xs_status :: action_execution_status
  xs_phase_interruptible :: bool
  xs_movement_allowed :: bool
  xs_payload_release_status :: payload_release_status
  xs_released_phase_indexes :: "int list"
  xs_cancel_token :: string
  xs_cancel_on_damage :: bool
  xs_cancel_on_stun :: bool
  xs_pending_triggered_effects :: "effect_primitive list"
  xs_trigger_payload_scheduled :: bool

definition action_execution_ok :: "action_execution \<Rightarrow> unit result" where
  "action_execution_ok x =
     rbind (py_identifier (ex_correlation_id x) ''correlation_id'') (\<lambda>_.
     rbind (py_identifier (ex_actor_entity_id x) ''actor_entity_id'') (\<lambda>_.
     rbind (py_identifier (ex_actor_life_id x) ''actor_life_id'') (\<lambda>_.
     rbind (py_identifier (ex_action_key x) ''action_key'') (\<lambda>_.
     rbind (py_identifier (ex_cancel_token x) ''cancel_token'') (\<lambda>_.
     rbind (optional (\<lambda>l. py_identifier l ''target_life_id'') (ex_target_life_id x)) (\<lambda>_.
     rbind (non_negative_integer (ex_phase_index x) ''phase_index'') (\<lambda>_.
     rbind (non_negative_integer (ex_phase_started_at_ms x) ''phase_started_at_ms'') (\<lambda>_.
     rbind (non_negative_integer (ex_phase_ends_at_ms x) ''phase_ends_at_ms'') (\<lambda>_.
     checks
       [(ex_phase_ends_at_ms x < ex_phase_started_at_ms x, ValueError ''phase_ends_at_ms must not precede phase_started_at_ms''),
        (\<exists>i \<in> ex_released_phase_indexes x. i < 0, ValueError ''released phase index must be a non-negative integer'')])))))))))"

definition is_terminal :: "action_execution \<Rightarrow> bool" where
  "is_terminal x \<longleftrightarrow> ex_status x \<in> {STATUS_COMPLETED, STATUS_INTERRUPTED}"

definition current_phase_released :: "action_execution \<Rightarrow> bool" where
  "current_phase_released x \<longleftrightarrow> ex_phase_index x \<in> ex_released_phase_indexes x"

definition execution_snapshot :: "action_execution \<Rightarrow> action_execution_snapshot" where
  "execution_snapshot x =
     \<lparr>xs_correlation_id = ex_correlation_id x, xs_actor_entity_id = ex_actor_entity_id x,
      xs_actor_life_id = ex_actor_life_id x, xs_target_life_id = ex_target_life_id x, xs_action_key = ex_action_key x,
      xs_binding = ex_binding x, xs_phase_index = ex_phase_index x, xs_phase_kind = ex_phase_kind x,
      xs_phase_started_at_ms = ex_phase_started_at_ms x, xs_phase_ends_at_ms = ex_phase_ends_at_ms x,
      xs_status = ex_status x, xs_phase_interruptible = ex_phase_interruptible x, xs_movement_allowed = ex_movement_allowed x,
      xs_payload_release_status = ex_payload_release_status x,
      xs_released_phase_indexes = sorted_list_of_set (ex_released_phase_indexes x), xs_cancel_token = ex_cancel_token x,
      xs_cancel_on_damage = ex_cancel_on_damage x, xs_cancel_on_stun = ex_cancel_on_stun x,
      xs_pending_triggered_effects = ex_pending_triggered_effects x,
      xs_trigger_payload_scheduled = ex_trigger_payload_scheduled x\<rparr>"

definition execution_from_snapshot :: "action_execution_snapshot \<Rightarrow> action_execution result" where
  "execution_from_snapshot s = validated action_execution_ok
     \<lparr>ex_correlation_id = xs_correlation_id s, ex_actor_entity_id = xs_actor_entity_id s,
      ex_actor_life_id = xs_actor_life_id s, ex_target_life_id = xs_target_life_id s, ex_action_key = xs_action_key s,
      ex_binding = xs_binding s, ex_phase_index = xs_phase_index s, ex_phase_kind = xs_phase_kind s,
      ex_phase_started_at_ms = xs_phase_started_at_ms s, ex_phase_ends_at_ms = xs_phase_ends_at_ms s,
      ex_status = xs_status s, ex_phase_interruptible = xs_phase_interruptible s, ex_movement_allowed = xs_movement_allowed s,
      ex_payload_release_status = xs_payload_release_status s,
      ex_released_phase_indexes = set (xs_released_phase_indexes s), ex_cancel_token = xs_cancel_token s,
      ex_cancel_on_damage = xs_cancel_on_damage s, ex_cancel_on_stun = xs_cancel_on_stun s,
      ex_pending_triggered_effects = xs_pending_triggered_effects s,
      ex_trigger_payload_scheduled = xs_trigger_payload_scheduled s\<rparr>"

subsection \<open>Scheduled work\<close>

record scheduled_item =
  it_due_time_ms :: int
  it_order :: int
  it_kind :: scheduled_kind
  it_actor_id :: string
  it_correlation_id :: string
  it_action_key :: string
  it_binding :: "action_binding option"
  it_phase_duration_ms :: int
  it_effects :: "effect_primitive list"
  it_weapon_attack :: "weapon_attack_spec option"
  it_trigger_key :: "string option"
  it_effect_entity_id :: "string option"
  it_effect_storage_key :: "string option"
  it_expected_effect_key :: "string option"
  it_expected_effect_instance_id :: "string option"
  it_periodic_key :: "string option"
  it_pulse_index :: int
  it_interruptible :: bool
  it_cancel_on_damage :: bool
  it_cancel_on_stun :: bool
  it_actor_life_id :: "string option"
  it_target_life_id :: "string option"
  it_phase_index :: "int option"
  it_cancel_token :: "string option"
  it_continuation_policy :: continuation_policy
  it_semantic_priority :: int

text \<open>An item with the defaults of the dataclass.\<close>

definition work_item :: "int \<Rightarrow> int \<Rightarrow> scheduled_kind \<Rightarrow> string \<Rightarrow> string \<Rightarrow> string \<Rightarrow> scheduled_item" where
  "work_item due order kind actor_id correlation_id action_key =
     \<lparr>it_due_time_ms = due, it_order = order, it_kind = kind, it_actor_id = actor_id, it_correlation_id = correlation_id,
      it_action_key = action_key, it_binding = None, it_phase_duration_ms = 0, it_effects = [], it_weapon_attack = None,
      it_trigger_key = None, it_effect_entity_id = None, it_effect_storage_key = None, it_expected_effect_key = None,
      it_expected_effect_instance_id = None, it_periodic_key = None, it_pulse_index = 0, it_interruptible = False,
      it_cancel_on_damage = False, it_cancel_on_stun = False, it_actor_life_id = None, it_target_life_id = None,
      it_phase_index = None, it_cancel_token = None, it_continuation_policy = WORLD_BOUND, it_semantic_priority = 0\<rparr>"

definition nonblank_or_null :: "string option \<Rightarrow> string \<Rightarrow> unit result" where
  "nonblank_or_null v field_name =
     (case v of None \<Rightarrow> Inr ()
      | Some s \<Rightarrow> if nonblank s then Inr () else Inl (ValueError (field_name @ '' must be a non-empty string or null'')))"

definition payload_shape_ok :: "scheduled_item \<Rightarrow> unit result" where
  "payload_shape_ok it =
     (if it_kind it \<in> {RESOLUTION, EFFECT_PULSE} then
        checks [(it_binding it = None \<or> it_effects it = [] \<or> it_weapon_attack it \<noteq> None,
          ValueError ''resolutions and effect pulses require a binding and effects'')]
      else if it_kind it = WEAPON_ATTACK then
        checks [(it_binding it = None \<or> it_weapon_attack it = None \<or> it_effects it \<noteq> [],
          ValueError ''weapon attacks require a binding and weapon spec only'')]
      else
        checks [(it_binding it \<noteq> None \<or> it_effects it \<noteq> [] \<or> it_weapon_attack it \<noteq> None,
          ValueError ''only resolutions, effect pulses, and weapon attacks may carry bindings'')])"

definition requires_effect_field :: "string option \<Rightarrow> string \<Rightarrow> unit result" where
  "requires_effect_field v field_name =
     (if (case v of None \<Rightarrow> False | Some s \<Rightarrow> nonblank s) then Inr ()
      else Inl (ValueError (''effect schedule requires '' @ field_name)))"

definition effect_identity_ok :: "scheduled_item \<Rightarrow> unit result" where
  "effect_identity_ok it =
     (if it_kind it \<in> {EFFECT_EXPIRY, EFFECT_PULSE} then
        rbind (requires_effect_field (it_effect_entity_id it) ''effect_entity_id'') (\<lambda>_.
        rbind (requires_effect_field (it_effect_storage_key it) ''effect_storage_key'') (\<lambda>_.
        rbind (requires_effect_field (it_expected_effect_key it) ''expected_effect_key'') (\<lambda>_.
        requires_effect_field (it_expected_effect_instance_id it) ''expected_effect_instance_id'')))
      else
        checks [(it_effect_entity_id it \<noteq> None \<or> it_effect_storage_key it \<noteq> None \<or> it_expected_effect_key it \<noteq> None
            \<or> it_expected_effect_instance_id it \<noteq> None, ValueError ''only effect schedule items may carry effect identifiers'')])"

definition pulse_fields_ok :: "scheduled_item \<Rightarrow> unit result" where
  "pulse_fields_ok it =
     (if it_kind it = EFFECT_PULSE then
        checks [(case it_periodic_key it of None \<Rightarrow> True | Some s \<Rightarrow> \<not> nonblank s, ValueError ''effect pulse requires periodic_key''),
          (it_pulse_index it < 1, ValueError ''effect pulse requires a positive pulse_index'')]
      else
        checks [(it_periodic_key it \<noteq> None \<or> it_pulse_index it \<noteq> 0, ValueError ''only effect pulses may carry periodic pulse fields'')])"

definition scheduled_item_ok :: "scheduled_item \<Rightarrow> unit result" where
  "scheduled_item_ok it =
     rbind (checks [(it_due_time_ms it < 0, ValueError ''due_time_ms must be a non-negative integer''),
       (it_order it < 0, ValueError ''order must be a non-negative integer'')]) (\<lambda>_.
     rbind (py_identifier (it_actor_id it) ''actor_id'') (\<lambda>_.
     rbind (py_identifier (it_correlation_id it) ''correlation_id'') (\<lambda>_.
     rbind (py_identifier (it_action_key it) ''action_key'') (\<lambda>_.
     rbind (checks [(it_phase_duration_ms it < 0, ValueError ''phase_duration_ms must be a non-negative integer'')]) (\<lambda>_.
     rbind (payload_shape_ok it) (\<lambda>_.
     rbind (case it_trigger_key it of None \<Rightarrow> Inr () | Some k \<Rightarrow>
       checks [(it_kind it \<noteq> RESOLUTION, ValueError ''trigger_key is valid only for effect resolutions''),
         (\<not> nonblank k, ValueError ''trigger_key must be a non-empty string'')]) (\<lambda>_.
     rbind (nonblank_or_null (it_actor_life_id it) ''actor_life_id'') (\<lambda>_.
     rbind (nonblank_or_null (it_target_life_id it) ''target_life_id'') (\<lambda>_.
     rbind (nonblank_or_null (it_cancel_token it) ''cancel_token'') (\<lambda>_.
     rbind (checks
       [(case it_phase_index it of None \<Rightarrow> False | Some i \<Rightarrow> i < 0, ValueError ''phase_index must be a non-negative integer or null''),
        (it_kind it \<in> {PHASE_RELEASE, PHASE_TRANSITION} \<and> it_phase_index it = None,
           ValueError ''phase lifecycle work requires phase_index''),
        (it_kind it \<in> {EFFECT_EXPIRY, EFFECT_PULSE} \<and> (it_interruptible it \<or> it_cancel_on_damage it \<or> it_cancel_on_stun it),
           ValueError ''effect schedule items cannot carry interruption flags'')]) (\<lambda>_.
     rbind (effect_identity_ok it) (\<lambda>_.
     pulse_fields_ok it))))))))))))"

definition scheduled_item_make :: "scheduled_item \<Rightarrow> scheduled_item result" where
  "scheduled_item_make it = validated scheduled_item_ok it"

subsection \<open>Snapshots of an environment\<close>

record environment_snapshot =
  sv_clock :: clock
  sv_random :: det_random
  sv_entities :: "entity_snapshot list"
  sv_scheduled :: "scheduled_item list"
  sv_next_schedule_order :: int
  sv_next_event_number :: int
  sv_executions :: "action_execution_snapshot list"
  sv_cancelled_tokens :: "string list"

subsection \<open>Lemmas\<close>

lemma execution_from_snapshot_exact:
  assumes "action_execution_ok x = Inr ()" "finite (ex_released_phase_indexes x)"
  shows "execution_from_snapshot (execution_snapshot x) = Inr x"
proof -
  have "execution_from_snapshot (execution_snapshot x) = validated action_execution_ok x"
    using assms(2) by (cases x) (simp add: execution_from_snapshot_def execution_snapshot_def)
  with assms(1) show ?thesis by (simp add: validated_ok)
qed

end
