(* ===== verification/Sim_Environment.thy ===== *)
theory Sim_Environment
  imports Sim_Lifecycle Py_Float
begin

text \<open>
  The reference environment (\<^verbatim>\<open>sim/environment.py\<close>): its state, the timeline of scheduled work, and the
  lifecycle of action executions. The state is a record and every method returns the updated
  record; an execution object is owned by the dictionary \<open>_executions\<close> alone, so a method that mutates
  one writes it back at its key. A method that appends to the caller's list of events returns the
  extended list. What the state looks like after an exception has escaped is not represented.
  Distances are the argument \<open>hypot\<close> (\<open>None\<close> is an infinite one), the rounding of a float operation
  whose result is in range is the argument \<open>rnd\<close>.
\<close>

subsection \<open>Numbers and text\<close>

text \<open>\<open>f"{n:0{w}d}"\<close> of an integer, \<open>xs[i]\<close> of a tuple, \<open>tuple(dict.fromkeys(xs))\<close>.\<close>

definition zero_padded :: "nat \<Rightarrow> int \<Rightarrow> string" where
  "zero_padded w n =
     (let digits = py_str_nat (nat \<bar>n\<bar>); sign = (if n < 0 then ''-'' else [])
      in sign @ replicate (w - length sign - length digits) CHR ''0'' @ digits)"

definition py_index :: "'a list \<Rightarrow> int \<Rightarrow> 'a result" where
  "py_index xs i =
     (if 0 \<le> i \<and> i < int (length xs) then Inr (xs ! nat i)
      else if i < 0 \<and> 0 \<le> i + int (length xs) then Inr (xs ! nat (i + int (length xs)))
      else Inl (IndexError ''tuple index out of range''))"

definition py_unique :: "'a list \<Rightarrow> 'a list" where
  "py_unique xs = rev (remdups (rev xs))"

subsection \<open>The state\<close>

type_synonym exec_key = "string \<times> string"

record environment =
  env_catalog :: action_catalog
  env_entities :: "(string \<times> entity_state) list"
  env_clock :: clock
  env_random :: det_random
  env_scheduled :: "scheduled_item list"
  env_executions :: "(exec_key \<times> action_execution) list"
  env_cancelled_tokens :: "string set"
  env_next_schedule_order :: int
  env_next_event_number :: int
  env_direction_candidates :: "vector2 list"
  env_position_candidates :: "vector2 list"
  env_terminate_on_last_team :: bool
  env_initial_competing_teams :: "string set"
  env_initial_snapshot :: "environment_snapshot option"

definition env_entity :: "environment \<Rightarrow> string \<Rightarrow> entity_state result" where
  "env_entity env entity_id =
     (case map_of (env_entities env) entity_id of
        None \<Rightarrow> Inl (KeyError (''unknown entity id: '' @ entity_id))
      | Some e \<Rightarrow> Inr e)"

text \<open>\<open>self._entities[entity_id]\<close>.\<close>

definition entity_at :: "environment \<Rightarrow> string \<Rightarrow> entity_state result" where
  "entity_at env entity_id = (case map_of (env_entities env) entity_id of None \<Rightarrow> Inl (KeyError entity_id) | Some e \<Rightarrow> Inr e)"

definition put_entity :: "string \<Rightarrow> entity_state \<Rightarrow> environment \<Rightarrow> environment" where
  "put_entity entity_id e env = env\<lparr>env_entities := AList.update entity_id e (env_entities env)\<rparr>"

definition put_execution :: "exec_key \<Rightarrow> action_execution \<Rightarrow> environment \<Rightarrow> environment" where
  "put_execution k x env = env\<lparr>env_executions := AList.update k x (env_executions env)\<rparr>"

definition env_now :: "environment \<Rightarrow> int" where
  "env_now env = now_ms (env_clock env)"

subsection \<open>Scheduled work and events\<close>

definition schedule :: "scheduled_item \<Rightarrow> environment \<Rightarrow> environment" where
  "schedule item env = env\<lparr>env_scheduled := env_scheduled env @ [item]\<rparr>"

definition take_schedule_order :: "environment \<Rightarrow> int \<times> environment" where
  "take_schedule_order env =
     (env_next_schedule_order env, env\<lparr>env_next_schedule_order := env_next_schedule_order env + 1\<rparr>)"

definition scheduled_key :: "scheduled_item \<Rightarrow> int \<times> int \<times> int" where
  "scheduled_key item = (it_due_time_ms item, it_semantic_priority item, it_order item)"

text \<open>\<open>self._schedule(ScheduledItem(order=self._take_schedule_order(), ...))\<close>.\<close>

definition schedule_new :: "(int \<Rightarrow> scheduled_item) \<Rightarrow> environment \<Rightarrow> environment result" where
  "schedule_new mk env =
     (let (order, env1) = take_schedule_order env
      in rbind (scheduled_item_make (mk order)) (\<lambda>item. Inr (schedule item env1)))"

record event_fields =
  ef_correlation_id :: "string option"
  ef_source_entity_id :: "string option"
  ef_target_entity_id :: "string option"
  ef_action_key :: "string option"
  ef_scalars :: "named_scalar list"
  ef_tags :: "string list"

definition no_fields :: event_fields where
  "no_fields = \<lparr>ef_correlation_id = None, ef_source_entity_id = None, ef_target_entity_id = None, ef_action_key = None,
     ef_scalars = [], ef_tags = []\<rparr>"

definition make_event :: "string \<Rightarrow> int \<Rightarrow> event_fields \<Rightarrow> environment \<Rightarrow> (event \<times> environment) result" where
  "make_event kind sim_time_ms fs env =
     rbind (validated event_ok
       \<lparr>ev_event_id = ''event:'' @ zero_padded 12 (env_next_event_number env), ev_kind = kind,
        ev_tick = sim_time_ms div tick_duration_ms (env_clock env), ev_sim_time_ms = sim_time_ms,
        ev_correlation_id = ef_correlation_id fs, ev_source_entity_id = ef_source_entity_id fs,
        ev_target_entity_id = ef_target_entity_id fs, ev_action_key = ef_action_key fs,
        ev_scalars = ef_scalars fs, ev_tags = ef_tags fs\<rparr>) (\<lambda>event.
     Inr (event, env\<lparr>env_next_event_number := env_next_event_number env + 1\<rparr>))"

text \<open>\<open>events.append(self._event(...))\<close>.\<close>

definition emit :: "string \<Rightarrow> int \<Rightarrow> event_fields \<Rightarrow> environment \<times> event list \<Rightarrow> (environment \<times> event list) result" where
  "emit kind sim_time_ms fs st =
     rbind (make_event kind sim_time_ms fs (fst st)) (\<lambda>(event, env). Inr (env, snd st @ [event]))"

definition rejection_event :: "decision_message \<Rightarrow> string \<Rightarrow> environment \<Rightarrow> (event \<times> environment) result" where
  "rejection_event decision reason env =
     make_event ''action_rejected'' (env_now env)
       (no_fields\<lparr>ef_correlation_id := Some (dm_correlation_id decision), ef_source_entity_id := Some (dm_agent_id decision),
          ef_action_key := Some (dm_action_key decision), ef_tags := [reason]\<rparr>) env"

subsection \<open>Phases\<close>

definition distance_ms :: "(rat \<Rightarrow> rat) \<Rightarrow> rat option \<Rightarrow> rat \<Rightarrow> int result" where
  "distance_ms rnd distance speed =
     (case distance of
        None \<Rightarrow> Inl (OverflowError ''cannot convert float infinity to integer'')
      | Some d \<Rightarrow> Inr \<lceil>rnd (rnd (d / speed) * 1000)\<rceil>)"

definition delivery_delay ::
    "(rat \<Rightarrow> rat) \<Rightarrow> (vector2 \<Rightarrow> vector2 \<Rightarrow> rat option) \<Rightarrow> environment \<Rightarrow> entity_state \<Rightarrow> action_binding \<Rightarrow> action_phase \<Rightarrow> int result" where
  "delivery_delay rnd hypot env actor binding phase =
     (if ds_kind (ph_delivery phase) = IMMEDIATE then Inr 0
      else case ab_target_entity_id binding of
        None \<Rightarrow> Inl (SimulationConfigurationError ''projectile delivery requires an entity target'')
      | Some target_id \<Rightarrow>
          rbind (env_entity env target_id) (\<lambda>target.
          case ds_projectile_speed (ph_delivery phase) of
            None \<Rightarrow> Inl (SimulationConfigurationError ''projectile delivery requires a speed'')
          | Some speed \<Rightarrow> distance_ms rnd (hypot (en_position actor) (en_position target)) speed))"

definition weapon_in_phase :: "action_spec \<Rightarrow> int \<Rightarrow> bool" where
  "weapon_in_phase action phase_index =
     (case ac_weapon_attack action of None \<Rightarrow> False | Some w \<Rightarrow> wa_phase_index w = phase_index)"

definition native_payload :: "action_spec \<Rightarrow> action_phase \<Rightarrow> int \<Rightarrow> bool" where
  "native_payload action phase phase_index \<longleftrightarrow> ph_effects phase \<noteq> [] \<or> weapon_in_phase action phase_index"

definition trigger_payload :: "action_execution \<Rightarrow> action_spec \<Rightarrow> action_phase \<Rightarrow> int \<Rightarrow> bool" where
  "trigger_payload x action phase phase_index \<longleftrightarrow>
     ex_pending_triggered_effects x \<noteq> [] \<and> \<not> ex_trigger_payload_scheduled x
     \<and> (native_payload action phase phase_index \<or> phase_index = int (length (ac_phases action)) - 1)"

definition has_payload :: "action_execution \<Rightarrow> action_spec \<Rightarrow> action_phase \<Rightarrow> int \<Rightarrow> bool" where
  "has_payload x action phase phase_index \<longleftrightarrow>
     native_payload action phase phase_index \<or> trigger_payload x action phase phase_index"

text \<open>The fields of the execution a new phase sets.\<close>

definition enter_phase :: "action_execution \<Rightarrow> action_spec \<Rightarrow> action_phase \<Rightarrow> int \<Rightarrow> int \<Rightarrow> action_execution" where
  "enter_phase x action phase phase_index started_at_ms =
     x\<lparr>ex_phase_index := phase_index, ex_phase_kind := ph_kind phase, ex_phase_started_at_ms := started_at_ms,
       ex_phase_ends_at_ms := started_at_ms + ph_duration_ms phase, ex_phase_interruptible := ph_interruptible phase,
       ex_movement_allowed := ph_movement_allowed phase,
       ex_payload_release_status := (if has_payload x action phase phase_index then PAYLOAD_PENDING else PAYLOAD_NOT_APPLICABLE),
       ex_status := (if ph_kind phase = RECOVERY then STATUS_RECOVERING else STATUS_ACTIVE)\<rparr>"

definition phase_continuation :: "action_phase \<Rightarrow> continuation_policy" where
  "phase_continuation phase = (if ds_kind (ph_delivery phase) = PROJECTILE_DELIVERY then DETACH_ON_RELEASE else SOURCE_BOUND)"

text \<open>The keyword arguments \<open>common\<close>, and those shared by the work that carries a payload.\<close>

definition common_item ::
    "entity_state \<Rightarrow> action_execution \<Rightarrow> action_spec \<Rightarrow> int \<Rightarrow> scheduled_kind \<Rightarrow> int \<Rightarrow> int \<Rightarrow> scheduled_item" where
  "common_item actor x action phase_index kind due order =
     (work_item due order kind (en_entity_id actor) (ex_correlation_id x) (ac_action_key action))
       \<lparr>it_actor_life_id := Some (ex_actor_life_id x), it_target_life_id := ex_target_life_id x,
        it_phase_index := Some phase_index, it_cancel_token := Some (ex_cancel_token x), it_continuation_policy := SOURCE_BOUND\<rparr>"

definition payload_item ::
    "entity_state \<Rightarrow> action_execution \<Rightarrow> action_spec \<Rightarrow> action_phase \<Rightarrow> int \<Rightarrow> scheduled_kind \<Rightarrow> int \<Rightarrow> int \<Rightarrow> scheduled_item" where
  "payload_item actor x action phase phase_index kind due order =
     (common_item actor x action phase_index kind due order)
       \<lparr>it_binding := Some (ex_binding x), it_phase_duration_ms := ph_duration_ms phase, it_interruptible := ph_interruptible phase,
        it_cancel_on_damage := ac_cancel_on_damage action, it_cancel_on_stun := ac_cancel_on_stun action,
        it_continuation_policy := phase_continuation phase\<rparr>"

definition schedule_when :: "bool \<Rightarrow> (int \<Rightarrow> scheduled_item) \<Rightarrow> environment \<Rightarrow> environment result" where
  "schedule_when b mk env = (if b then schedule_new mk env else Inr env)"

definition schedule_action_phase ::
    "(rat \<Rightarrow> rat) \<Rightarrow> (vector2 \<Rightarrow> vector2 \<Rightarrow> rat option) \<Rightarrow> exec_key \<Rightarrow> action_execution \<Rightarrow> action_spec \<Rightarrow> int \<Rightarrow> int
     \<Rightarrow> environment \<Rightarrow> environment result" where
  "schedule_action_phase rnd hypot k x0 action phase_index started_at_ms env =
     rbind (py_index (ac_phases action) phase_index) (\<lambda>phase.
     let phase_end_ms = started_at_ms + ph_duration_ms phase;
         triggered = trigger_payload x0 action phase phase_index;
         x = enter_phase x0 action phase phase_index started_at_ms
     in rbind (env_entity env (ex_actor_entity_id x)) (\<lambda>actor.
     rbind (schedule_when (has_payload x0 action phase phase_index)
       (common_item actor x action phase_index PHASE_RELEASE phase_end_ms) env) (\<lambda>env1.
     rbind (delivery_delay rnd hypot env actor (ex_binding x) phase) (\<lambda>delay.
     let due = phase_end_ms + delay; item = payload_item actor x action phase phase_index
     in rbind (schedule_when (weapon_in_phase action phase_index)
       (\<lambda>order. (item WEAPON_ATTACK due order)\<lparr>it_weapon_attack := ac_weapon_attack action\<rparr>) env1) (\<lambda>env2.
     rbind (schedule_when (ph_effects phase \<noteq> [])
       (\<lambda>order. (item RESOLUTION due order)\<lparr>it_effects := ph_effects phase\<rparr>) env2) (\<lambda>env3.
     rbind (schedule_when triggered
       (\<lambda>order. (item RESOLUTION due order)\<lparr>it_effects := ex_pending_triggered_effects x\<rparr>) env3) (\<lambda>env4.
     rbind (schedule_new (common_item actor x action phase_index
         (if phase_index + 1 < int (length (ac_phases action)) then PHASE_TRANSITION else COMPLETION) phase_end_ms) env4) (\<lambda>env5.
     Inr (put_execution k (if triggered then x\<lparr>ex_trigger_payload_scheduled := True\<rparr> else x) env5)))))))))"

subsection \<open>Starting an action\<close>

definition WEAPON_DELAY_SCALAR :: string where
  "WEAPON_DELAY_SCALAR = ''action.weapon.delay.factor''"

definition effective_action_cooldown_ms :: "(rat \<Rightarrow> rat) \<Rightarrow> entity_state \<Rightarrow> action_spec \<Rightarrow> int result" where
  "effective_action_cooldown_ms rnd actor action =
     (if ''weapon'' \<notin> set (ac_tags action) \<or> ac_cooldown_ms action = 0 then Inr (ac_cooldown_ms action)
      else rbind (case effective_scalar rnd actor WEAPON_DELAY_SCALAR of Inl (KeyError m) \<Rightarrow> Inr 1 | r \<Rightarrow> r) (\<lambda>factor.
        Inr (max 1 (py_round (rnd (rnd (of_int (ac_cooldown_ms action)) * factor))))))"

fun pay_costs ::
    "(rat \<Rightarrow> rat) \<Rightarrow> string \<Rightarrow> string \<Rightarrow> string \<Rightarrow> resource_cost list \<Rightarrow> environment \<times> event list \<Rightarrow> (environment \<times> event list) result" where
  "pay_costs rnd actor_id correlation_id action_key [] st = Inr st"
| "pay_costs rnd actor_id correlation_id action_key (cost # costs) st =
     rbind (entity_at (fst st) actor_id) (\<lambda>actor.
     let before = (case map_of (en_scalars actor) (rc_resource_key cost) of None \<Rightarrow> 0 | Some v \<Rightarrow> v);
         paid = actor\<lparr>en_scalars := AList.update (rc_resource_key cost) (rnd (before - rc_amount cost)) (en_scalars actor)\<rparr>
     in rbind (emit ''resource_spent'' (env_now (fst st))
       (no_fields\<lparr>ef_correlation_id := Some correlation_id, ef_source_entity_id := Some (en_entity_id actor),
          ef_action_key := Some action_key, ef_scalars := [\<lparr>ns_name = rc_resource_key cost, ns_value = rc_amount cost\<rparr>]\<rparr>)
       (put_entity actor_id paid (fst st), snd st)) (\<lambda>st'.
     pay_costs rnd actor_id correlation_id action_key costs st'))"

definition roll_trigger :: "action_trigger_spec \<Rightarrow> environment \<Rightarrow> rat \<times> bool \<times> environment" where
  "roll_trigger trigger env =
     (if at_chance trigger \<ge> 1 then (0, True, env)
      else if at_chance trigger \<le> 0 then (1, False, env)
      else let (roll, r) = random_unit (env_random env) in (roll, roll < at_chance trigger, env\<lparr>env_random := r\<rparr>))"

definition starts_with :: "action_spec \<Rightarrow> action_trigger_spec \<Rightarrow> bool" where
  "starts_with action trigger \<longleftrightarrow>
     at_fire_on trigger = ON_ACTION_START \<and> trigger_matches trigger (ac_action_key action) (set (ac_tags action))"

definition consume_trigger ::
    "string \<Rightarrow> string \<Rightarrow> decision_message \<Rightarrow> action_spec \<Rightarrow> string \<Rightarrow> active_effect \<Rightarrow> action_trigger_spec
     \<Rightarrow> environment \<times> event list \<Rightarrow> (effect_primitive list \<times> environment \<times> event list) result" where
  "consume_trigger actor_id source decision action storage active trigger st =
     (let (roll, fired, env1) = roll_trigger trigger (fst st);
          fs = no_fields\<lparr>ef_correlation_id := Some (dm_correlation_id decision), ef_source_entity_id := Some source,
                 ef_target_entity_id := ab_target_entity_id (dm_binding decision), ef_action_key := Some (ac_action_key action)\<rparr>;
          now = env_now (fst st)
      in rbind (emit ''trigger_checked'' now
           (fs\<lparr>ef_scalars := [\<lparr>ns_name = ''chance'', ns_value = at_chance trigger\<rparr>, \<lparr>ns_name = ''roll'', ns_value = roll\<rparr>],
               ef_tags := [''trigger.'' @ at_trigger_key trigger, ''moment.action_start'',
                           if fired then ''result.fired'' else ''result.not_fired'']\<rparr>) (env1, snd st)) (\<lambda>st1.
      rbind (if fired
             then emit ''trigger_fired'' now
               (fs\<lparr>ef_tags := py_unique ([''trigger.'' @ at_trigger_key trigger, ''moment.action_start''] @ at_tags trigger)\<rparr>) st1
             else Inr st1) (\<lambda>st2.
      rbind (if at_consume_on trigger = CONSUME_ACTION_START
             then rbind (entity_at (fst st2) actor_id) (\<lambda>actor.
               emit ''effect_removed'' now
                 (no_fields\<lparr>ef_correlation_id := Some (dm_correlation_id decision), ef_source_entity_id := Some (ae_source_entity_id active),
                    ef_target_entity_id := Some (en_entity_id actor), ef_action_key := Some (ac_action_key action),
                    ef_tags := [''effect.'' @ ae_effect_key active, ''reason.trigger_consumed'']\<rparr>)
                 (put_entity actor_id (actor\<lparr>en_effects := AList.delete storage (en_effects actor)\<rparr>) (fst st2), snd st2))
             else Inr st2) (\<lambda>st3.
      Inr (if fired then at_payload trigger else [], st3)))))"

fun consume_action_start_triggers ::
    "string \<Rightarrow> decision_message \<Rightarrow> action_spec \<Rightarrow> string list \<Rightarrow> environment \<times> event list
     \<Rightarrow> (effect_primitive list \<times> environment \<times> event list) result" where
  "consume_action_start_triggers actor_id decision action [] st = Inr ([], st)"
| "consume_action_start_triggers actor_id decision action (storage # storages) st =
     rbind (entity_at (fst st) actor_id) (\<lambda>actor.
     case map_of (en_effects actor) storage of
       None \<Rightarrow> consume_action_start_triggers actor_id decision action storages st
     | Some active \<Rightarrow>
         (case trigger_for_effect (env_catalog (fst st)) (ae_effect_key active) of
            None \<Rightarrow> consume_action_start_triggers actor_id decision action storages st
          | Some trigger \<Rightarrow>
              if \<not> starts_with action trigger then consume_action_start_triggers actor_id decision action storages st
              else rbind (consume_trigger actor_id (en_entity_id actor) decision action storage active trigger st) (\<lambda>(payload, st1).
                rbind (consume_action_start_triggers actor_id decision action storages st1) (\<lambda>(rest, st2).
                Inr (payload @ rest, st2)))))"

definition cancel_token :: "string \<Rightarrow> string \<Rightarrow> string" where
  "cancel_token entity_id correlation_id = ''cancel:'' @ entity_id @ '':'' @ correlation_id"

definition new_execution ::
    "entity_state \<Rightarrow> decision_message \<Rightarrow> action_spec \<Rightarrow> action_phase \<Rightarrow> string option \<Rightarrow> effect_primitive list \<Rightarrow> int \<Rightarrow> action_execution" where
  "new_execution actor decision action first_phase target_life triggered now =
     \<lparr>ex_correlation_id = dm_correlation_id decision, ex_actor_entity_id = en_entity_id actor, ex_actor_life_id = en_life_id actor,
      ex_target_life_id = target_life, ex_action_key = ac_action_key action, ex_binding = dm_binding decision,
      ex_phase_index = 0, ex_phase_kind = ph_kind first_phase, ex_phase_started_at_ms = now, ex_phase_ends_at_ms = now,
      ex_status = STATUS_STARTED, ex_phase_interruptible = False, ex_movement_allowed = True,
      ex_payload_release_status = PAYLOAD_NOT_APPLICABLE, ex_released_phase_indexes = {},
      ex_cancel_token = cancel_token (en_entity_id actor) (dm_correlation_id decision),
      ex_cancel_on_damage = ac_cancel_on_damage action, ex_cancel_on_stun = ac_cancel_on_stun action,
      ex_pending_triggered_effects = triggered, ex_trigger_payload_scheduled = False\<rparr>"

definition commit_actor :: "(rat \<Rightarrow> rat) \<Rightarrow> action_spec \<Rightarrow> int \<Rightarrow> entity_state \<Rightarrow> entity_state result" where
  "commit_actor rnd action now actor =
     rbind (effective_action_cooldown_ms rnd actor action) (\<lambda>cooldown.
     Inr (actor\<lparr>en_cooldowns := AList.update (ac_action_key action) (now + cooldown) (en_cooldowns actor),
       en_busy_until_ms := max (en_busy_until_ms actor) (now + sum_list (map ph_duration_ms (ac_phases action)))\<rparr>))"

definition start_action ::
    "(rat \<Rightarrow> rat) \<Rightarrow> (vector2 \<Rightarrow> vector2 \<Rightarrow> rat option) \<Rightarrow> decision_message \<Rightarrow> action_spec
     \<Rightarrow> environment \<times> event list \<Rightarrow> (environment \<times> event list) result" where
  "start_action rnd hypot decision action st =
     (let actor_id = dm_agent_id decision; now = env_now (fst st) in
      rbind (entity_at (fst st) actor_id) (\<lambda>actor0.
      let k = (en_entity_id actor0, dm_correlation_id decision) in
      if map_of (env_executions (fst st)) k \<noteq> None
      then Inl (SimulationConfigurationError (''duplicate action correlation for '' @ en_entity_id actor0 @ '': '' @ dm_correlation_id decision))
      else rbind (pay_costs rnd actor_id (dm_correlation_id decision) (ac_action_key action) (ac_costs action) st) (\<lambda>st1.
      rbind (entity_at (fst st1) actor_id) (\<lambda>actor1.
      rbind (commit_actor rnd action now actor1) (\<lambda>actor2.
      rbind (emit ''action_started'' now
        (no_fields\<lparr>ef_correlation_id := Some (dm_correlation_id decision), ef_source_entity_id := Some (en_entity_id actor2),
           ef_target_entity_id := ab_target_entity_id (dm_binding decision), ef_action_key := Some (ac_action_key action)\<rparr>)
        (put_entity actor_id actor2 (fst st1), snd st1)) (\<lambda>st2.
      rbind (consume_action_start_triggers actor_id decision action (sort (map fst (en_effects actor2))) st2) (\<lambda>(triggered, st3).
      rbind (py_index (ac_phases action) 0) (\<lambda>first_phase.
      let target_life = (case ab_target_entity_id (dm_binding decision) of None \<Rightarrow> None
                         | Some t \<Rightarrow> map_option en_life_id (map_of (env_entities (fst st3)) t))
      in rbind (validated action_execution_ok (new_execution actor2 decision action first_phase target_life triggered now)) (\<lambda>x.
      rbind (schedule_action_phase rnd hypot k x action 0 now (put_execution k x (fst st3))) (\<lambda>env.
      Inr (env, snd st3)))))))))))"

subsection \<open>Due work\<close>

text \<open>The head of the loop of \<open>_process_due\<close>: the least due item leaves the schedule.\<close>

definition next_due :: "int \<Rightarrow> environment \<Rightarrow> (scheduled_item \<times> environment) option" where
  "next_due until_ms env =
     (case filter (\<lambda>item. it_due_time_ms item \<le> until_ms) (env_scheduled env) of
        [] \<Rightarrow> None
      | c # cs \<Rightarrow> let item = py_min_by scheduled_key c cs
                  in Some (item, env\<lparr>env_scheduled := remove1 item (env_scheduled env)\<rparr>))"

definition detached :: "environment \<Rightarrow> scheduled_item \<Rightarrow> bool" where
  "detached env item \<longleftrightarrow>
     it_continuation_policy item = DETACH_ON_RELEASE
     \<and> (case map_of (env_executions env) (it_actor_id item, it_correlation_id item) of
          None \<Rightarrow> False
        | Some x \<Rightarrow> (case it_phase_index item of None \<Rightarrow> False | Some i \<Rightarrow> i \<in> ex_released_phase_indexes x))"

definition target_of :: "environment \<Rightarrow> action_binding \<Rightarrow> entity_state option" where
  "target_of env binding =
     (case ab_target_entity_id binding of None \<Rightarrow> None | Some t \<Rightarrow> map_of (env_entities env) t)"

definition scheduled_item_is_valid :: "environment \<Rightarrow> scheduled_item \<Rightarrow> bool" where
  "scheduled_item_is_valid env item =
     (if (case it_cancel_token item of None \<Rightarrow> False | Some t \<Rightarrow> t \<in> env_cancelled_tokens env) \<and> \<not> detached env item then False
      else if (case (it_target_life_id item, it_binding item) of
                 (Some life, Some b) \<Rightarrow> (case target_of env b of None \<Rightarrow> True | Some t \<Rightarrow> en_life_id t \<noteq> life)
               | _ \<Rightarrow> False) then False
      else if it_continuation_policy item = TARGET_LIFE_BOUND
              \<and> (case it_binding item of None \<Rightarrow> True
                 | Some b \<Rightarrow> (case target_of env b of None \<Rightarrow> True | Some t \<Rightarrow> \<not> en_alive t)) then False
      else case it_actor_life_id item of
        None \<Rightarrow> True
      | Some life \<Rightarrow>
          if detached env item then True
          else if it_continuation_policy item \<notin> {SOURCE_BOUND, DETACH_ON_RELEASE} then True
          else (case map_of (env_entities env) (it_actor_id item) of
                  None \<Rightarrow> False
                | Some actor \<Rightarrow> en_alive actor \<and> en_life_id actor = life))"

definition release_action_phase :: "scheduled_item \<Rightarrow> environment \<Rightarrow> environment" where
  "release_action_phase item env =
     (let k = (it_actor_id item, it_correlation_id item) in
      case map_of (env_executions env) k of
        None \<Rightarrow> env
      | Some x \<Rightarrow>
          (case it_phase_index item of
             None \<Rightarrow> env
           | Some i \<Rightarrow>
               if is_terminal x then env
               else let x1 = x\<lparr>ex_released_phase_indexes := insert i (ex_released_phase_indexes x)\<rparr>;
                        x2 = (if ex_phase_index x = i
                              then x1\<lparr>ex_payload_release_status := PAYLOAD_RELEASED,
                                      ex_status := (if ex_status x = STATUS_ACTIVE then STATUS_RELEASED else ex_status x)\<rparr>
                              else x1)
                    in put_execution k x2 env))"

definition transition_action_phase ::
    "(rat \<Rightarrow> rat) \<Rightarrow> (vector2 \<Rightarrow> vector2 \<Rightarrow> rat option) \<Rightarrow> scheduled_item \<Rightarrow> environment \<Rightarrow> environment result" where
  "transition_action_phase rnd hypot item env =
     (let k = (it_actor_id item, it_correlation_id item) in
      case map_of (env_executions env) k of
        None \<Rightarrow> Inr env
      | Some x \<Rightarrow>
          (case it_phase_index item of
             None \<Rightarrow> Inr env
           | Some i \<Rightarrow>
               if is_terminal x \<or> ex_phase_index x \<noteq> i then Inr env
               else rbind (catalog_get (env_catalog env) (ex_action_key x)) (\<lambda>action.
                 if i + 1 \<ge> int (length (ac_phases action))
                 then Inl (SimulationConfigurationError ''phase transition exceeds action phases'')
                 else schedule_action_phase rnd hypot k x action (i + 1) (it_due_time_ms item) env)))"

definition free_actor :: "string \<Rightarrow> string \<Rightarrow> int \<Rightarrow> environment \<Rightarrow> environment" where
  "free_actor actor_id life_id due env =
     (case map_of (env_entities env) actor_id of
        None \<Rightarrow> env
      | Some actor \<Rightarrow> if en_life_id actor = life_id
                       then put_entity actor_id (actor\<lparr>en_busy_until_ms := min (en_busy_until_ms actor) due\<rparr>) env else env)"

definition complete_action :: "scheduled_item \<Rightarrow> environment \<times> event list \<Rightarrow> (environment \<times> event list) result" where
  "complete_action item st =
     (let k = (it_actor_id item, it_correlation_id item);
          fs = no_fields\<lparr>ef_correlation_id := Some (it_correlation_id item), ef_source_entity_id := Some (it_actor_id item),
                 ef_action_key := Some (it_action_key item)\<rparr>
      in case map_of (env_executions (fst st)) k of
        None \<Rightarrow> emit ''action_completed'' (it_due_time_ms item) fs st
      | Some x \<Rightarrow>
          if is_terminal x then Inr st
          else emit ''action_completed'' (it_due_time_ms item) fs
            (free_actor (it_actor_id item) (ex_actor_life_id x) (it_due_time_ms item)
               (put_execution k (x\<lparr>ex_status := STATUS_COMPLETED\<rparr>) (fst st)), snd st))"

subsection \<open>Interruption\<close>

definition ordered_executions :: "environment \<Rightarrow> (exec_key \<times> action_execution) list" where
  "ordered_executions env = sort_key (\<lambda>(k, x). (ex_actor_entity_id x, ex_correlation_id x)) (env_executions env)"

text \<open>The statements that end one execution: its status, its token, the event.\<close>

definition interrupt_execution ::
    "string \<Rightarrow> string \<Rightarrow> int \<Rightarrow> exec_key \<Rightarrow> action_execution \<Rightarrow> environment \<times> event list \<Rightarrow> (environment \<times> event list) result" where
  "interrupt_execution actor_id reason due k x st =
     emit ''action_interrupted'' due
       (no_fields\<lparr>ef_correlation_id := Some (ex_correlation_id x), ef_source_entity_id := Some actor_id,
          ef_action_key := Some (ex_action_key x), ef_tags := [''reason.'' @ reason]\<rparr>)
       (put_execution k (x\<lparr>ex_status := STATUS_INTERRUPTED\<rparr>)
          ((fst st)\<lparr>env_cancelled_tokens := insert (ex_cancel_token x) (env_cancelled_tokens (fst st))\<rparr>), snd st)"

definition owned_by :: "entity_state \<Rightarrow> string \<Rightarrow> action_execution \<Rightarrow> bool" where
  "owned_by actor actor_id x \<longleftrightarrow> ex_actor_entity_id x = actor_id \<and> ex_actor_life_id x = en_life_id actor \<and> \<not> is_terminal x"

fun interrupt_each ::
    "(action_execution \<Rightarrow> bool) \<Rightarrow> bool \<Rightarrow> string \<Rightarrow> string \<Rightarrow> int \<Rightarrow> (exec_key \<times> action_execution) list
     \<Rightarrow> environment \<times> event list \<Rightarrow> (environment \<times> event list) result" where
  "interrupt_each sel frees actor_id reason due [] st = Inr st"
| "interrupt_each sel frees actor_id reason due ((k, x) # xs) st =
     (if \<not> sel x then interrupt_each sel frees actor_id reason due xs st
      else rbind (interrupt_execution actor_id reason due k x
        (if frees then free_actor actor_id (ex_actor_life_id x) due (fst st) else fst st, snd st)) (\<lambda>st'.
      interrupt_each sel frees actor_id reason due xs st'))"

definition cleanup_dead_actor :: "string \<Rightarrow> int \<Rightarrow> environment \<times> event list \<Rightarrow> (environment \<times> event list) result" where
  "cleanup_dead_actor actor_id due st =
     rbind (env_entity (fst st) actor_id) (\<lambda>actor0.
     let actor = actor0\<lparr>en_velocity := \<lparr>vx = 0, vy = 0\<rparr>, en_busy_until_ms := min (en_busy_until_ms actor0) due\<rparr>
     in interrupt_each (owned_by actor actor_id) False actor_id ''death'' due (ordered_executions (fst st))
          (put_entity actor_id actor (fst st), snd st))"

definition interruptible_by :: "string \<Rightarrow> action_execution \<Rightarrow> bool" where
  "interruptible_by trigger x \<longleftrightarrow>
     ex_status x \<in> {STATUS_STARTED, STATUS_ACTIVE} \<and> ex_phase_interruptible x
     \<and> (trigger = ''damage'' \<longrightarrow> ex_cancel_on_damage x) \<and> (trigger = ''stun'' \<longrightarrow> ex_cancel_on_stun x)"

definition interrupt_actor :: "string \<Rightarrow> string \<Rightarrow> int \<Rightarrow> environment \<times> event list \<Rightarrow> (environment \<times> event list) result" where
  "interrupt_actor actor_id trigger due st =
     (if trigger \<notin> {''damage'', ''stun''}
      then Inl (SimulationConfigurationError (''unsupported interruption trigger: '' @ trigger))
      else rbind (env_entity (fst st) actor_id) (\<lambda>actor.
        interrupt_each (\<lambda>x. owned_by actor actor_id x \<and> interruptible_by trigger x) True actor_id trigger due
          (ordered_executions (fst st)) st))"

subsection \<open>Snapshots\<close>

definition validate_entity_actions :: "action_catalog \<Rightarrow> entity_state list \<Rightarrow> unit result" where
  "validate_entity_actions catalog entities =
     riter (\<lambda>e. riter (\<lambda>action_key.
       case catalog_get catalog action_key of
         Inl (KeyError m) \<Rightarrow> Inl (SimulationConfigurationError (''entity '' @ en_entity_id e @ '' references '' @ action_key))
       | Inl err \<Rightarrow> Inl err
       | Inr a \<Rightarrow> Inr ()) (en_action_keys e)) entities"

definition snapshot_environment :: "environment \<Rightarrow> environment_snapshot result" where
  "snapshot_environment env =
     rbind (clock_snapshot (env_clock env)) (\<lambda>c.
     rbind (random_snapshot (env_random env)) (\<lambda>r.
     Inr \<lparr>sv_clock = c, sv_random = r,
          sv_entities = map (\<lambda>(k, e). snapshot_entity e) (sort_key fst (env_entities env)),
          sv_scheduled = sort_key scheduled_key (env_scheduled env),
          sv_next_schedule_order = env_next_schedule_order env, sv_next_event_number = env_next_event_number env,
          sv_executions = map (\<lambda>(k, x). execution_snapshot x) (sort_key fst (env_executions env)),
          sv_cancelled_tokens = sorted_list_of_set (env_cancelled_tokens env)\<rparr>))"

definition environment_restore :: "environment_snapshot \<Rightarrow> environment \<Rightarrow> environment result" where
  "environment_restore s env =
     rbind (clock_restore (sv_clock s) (env_clock env)) (\<lambda>c.
     let r = random_restore (sv_random s) (env_random env)
     in rbind (rmap entity_from_snapshot (sv_entities s)) (\<lambda>entities.
     if \<not> distinct (map en_entity_id entities) then Inl (SimulationConfigurationError ''snapshot entity ids must be unique'')
     else rbind (validate_entity_actions (env_catalog env) entities) (\<lambda>_.
     rbind (rmap (\<lambda>xs. rbind (execution_from_snapshot xs) (\<lambda>x. Inr ((xs_actor_entity_id xs, xs_correlation_id xs), x))) (sv_executions s)) (\<lambda>executions.
     Inr (env\<lparr>env_clock := c, env_random := r,
       env_entities := dict_of (map (\<lambda>e. (en_entity_id e, e)) entities), env_scheduled := sv_scheduled s,
       env_executions := dict_of executions, env_cancelled_tokens := set (sv_cancelled_tokens s),
       env_next_schedule_order := sv_next_schedule_order s, env_next_event_number := sv_next_event_number s\<rparr>)))))"

definition environment_reset :: "environment \<Rightarrow> environment result" where
  "environment_reset env =
     (case env_initial_snapshot env of
        None \<Rightarrow> Inl (RuntimeError ''the environment is under construction'')
      | Some s \<Rightarrow> environment_restore s env)"

definition env_all_entities :: "environment \<Rightarrow> entity_state list result" where
  "env_all_entities env = rmap (\<lambda>(k, e). clone e) (sort_key fst (env_entities env))"

definition env_all_executions :: "environment \<Rightarrow> action_execution list result" where
  "env_all_executions env = rmap (\<lambda>(k, x). execution_from_snapshot (execution_snapshot x)) (sort_key fst (env_executions env))"

definition env_execution :: "environment \<Rightarrow> string \<Rightarrow> string option \<Rightarrow> action_execution result" where
  "env_execution env correlation_id actor_id =
     (case filter (\<lambda>x. ex_correlation_id x = correlation_id \<and> (actor_id = None \<or> actor_id = Some (ex_actor_entity_id x)))
             (map snd (env_executions env)) of
        [x] \<Rightarrow> execution_from_snapshot (execution_snapshot x)
      | xs \<Rightarrow> Inl (KeyError (''expected one execution for '' @ correlation_id @ '', found '' @ py_str_nat (length xs))))"

definition teams_of :: "entity_state list \<Rightarrow> string set" where
  "teams_of entities = set (concat (map (\<lambda>e. case en_team_id e of None \<Rightarrow> [] | Some team \<Rightarrow> if en_kind e = ACTOR then [team] else []) entities))"

definition world_terminated :: "environment \<Rightarrow> bool" where
  "world_terminated env =
     (if \<not> env_terminate_on_last_team env \<or> card (env_initial_competing_teams env) < 2 then False
      else card (teams_of (filter en_alive (map snd (env_entities env)))) \<le> 1)"

subsection \<open>Construction\<close>

definition normalized :: "(rat \<Rightarrow> rat) \<Rightarrow> (vector2 \<Rightarrow> vector2 \<Rightarrow> rat option) \<Rightarrow> vector2 \<Rightarrow> vector2 result" where
  "normalized rnd hypot v =
     (case hypot v \<lparr>vx = 0, vy = 0\<rparr> of
        None \<Rightarrow> Inr \<lparr>vx = 0, vy = 0\<rparr>
      | Some len \<Rightarrow>
          if len = 0 then Inl (SimulationConfigurationError ''direction vectors must not be zero'')
          else Inr \<lparr>vx = rnd (vx v / len), vy = rnd (vy v / len)\<rparr>)"

definition normalize_directions :: "(rat \<Rightarrow> rat) \<Rightarrow> (vector2 \<Rightarrow> vector2 \<Rightarrow> rat option) \<Rightarrow> vector2 list \<Rightarrow> vector2 list result" where
  "normalize_directions rnd hypot directions =
     (if directions = [] then Inl (SimulationConfigurationError ''at least one direction candidate is required'')
      else rbind (rmap (normalized rnd hypot) directions) (\<lambda>ds.
        if \<not> distinct ds then Inl (SimulationConfigurationError ''direction candidates must be unique'') else Inr ds))"

definition PERSISTENT_EXPIRY :: int where
  "PERSISTENT_EXPIRY = 2 ^ 63 - 1"

definition initial_item :: "string \<Rightarrow> string \<Rightarrow> active_effect \<Rightarrow> scheduled_kind \<Rightarrow> int \<Rightarrow> int \<Rightarrow> scheduled_item" where
  "initial_item entity_id storage active kind due order =
     (work_item due order kind (ae_source_entity_id active) (''initial-effect:'' @ entity_id @ '':'' @ storage)
        (''initial.'' @ ae_effect_key active))
       \<lparr>it_effect_entity_id := Some entity_id, it_effect_storage_key := Some storage,
        it_expected_effect_key := Some (ae_effect_key active), it_expected_effect_instance_id := ae_instance_id active\<rparr>"

fun initial_pulses ::
    "string \<Rightarrow> string \<Rightarrow> active_effect \<Rightarrow> action_binding \<Rightarrow> string \<Rightarrow> int \<Rightarrow> effect_primitive list \<Rightarrow> int list \<Rightarrow> environment \<Rightarrow> environment result" where
  "initial_pulses entity_id storage active binding periodic_key interval_ms effects [] env = Inr env"
| "initial_pulses entity_id storage active binding periodic_key interval_ms effects (i # is) env =
     (if i * interval_ms > ae_expires_at_ms active then Inr env
      else rbind (schedule_new (\<lambda>order. (initial_item entity_id storage active EFFECT_PULSE (i * interval_ms) order)
             \<lparr>it_binding := Some binding, it_effects := effects, it_periodic_key := Some periodic_key, it_pulse_index := i\<rparr>) env) (\<lambda>env'.
        initial_pulses entity_id storage active binding periodic_key interval_ms effects is env'))"

fun initial_modifiers ::
    "string \<Rightarrow> string \<Rightarrow> active_effect \<Rightarrow> action_binding \<Rightarrow> effect_modifier list \<Rightarrow> environment \<Rightarrow> environment result" where
  "initial_modifiers entity_id storage active binding [] env = Inr env"
| "initial_modifiers entity_id storage active binding (PeriodicPulse periodic_key interval_ms tick_count effects # ms) env =
     rbind (initial_pulses entity_id storage active binding periodic_key interval_ms effects [1..tick_count] env) (\<lambda>env'.
     initial_modifiers entity_id storage active binding ms env')"
| "initial_modifiers entity_id storage active binding (m # ms) env = initial_modifiers entity_id storage active binding ms env"

definition identify_effect :: "string \<Rightarrow> active_effect \<Rightarrow> environment \<Rightarrow> active_effect \<times> environment" where
  "identify_effect entity_id active env =
     (if ae_instance_id active \<noteq> None then (active, env)
      else let (order, env') = take_schedule_order env
           in (active\<lparr>ae_instance_id := Some (''initial-effect-instance:'' @ entity_id @ '':'' @ zero_padded 12 order)\<rparr>, env'))"

definition schedule_initial_effect :: "string \<Rightarrow> string \<Rightarrow> environment \<Rightarrow> environment result" where
  "schedule_initial_effect entity_id storage env =
     rbind (entity_at env entity_id) (\<lambda>entity.
     case map_of (en_effects entity) storage of
       None \<Rightarrow> Inl (KeyError storage)
     | Some active0 \<Rightarrow>
         (let (active, env1) = identify_effect entity_id active0 env;
              env2 = put_entity entity_id (entity\<lparr>en_effects := AList.update storage active (en_effects entity)\<rparr>) env1
          in rbind (validated action_binding_ok
               \<lparr>ab_actor_id = ae_source_entity_id active, ab_target_kind = TK_ENTITY, ab_target_entity_id = Some entity_id,
                ab_position = None, ab_direction = None, ab_quantity = None, ab_item_id = None, ab_objective_id = None\<rparr>) (\<lambda>binding.
          rbind (initial_modifiers entity_id storage active binding (ae_modifiers active) env2) (\<lambda>env3.
          if ae_expires_at_ms active = PERSISTENT_EXPIRY then Inr env3
          else schedule_new (initial_item entity_id storage active EFFECT_EXPIRY (ae_expires_at_ms active)) env3))))"

definition schedule_initial_effects :: "environment \<Rightarrow> environment result" where
  "schedule_initial_effects env =
     rfold (\<lambda>(entity_id, entity). rfold (schedule_initial_effect entity_id) (sort (map fst (en_effects entity))))
       (sort_key fst (env_entities env)) env"

definition new_environment ::
    "(rat \<Rightarrow> rat) \<Rightarrow> (vector2 \<Rightarrow> vector2 \<Rightarrow> rat option) \<Rightarrow> action_catalog \<Rightarrow> entity_state list \<Rightarrow> int \<Rightarrow> int \<Rightarrow> vector2 list
     \<Rightarrow> vector2 list \<Rightarrow> bool \<Rightarrow> environment result" where
  "new_environment rnd hypot catalog entities seed tick_duration directions positions last_team =
     (if entities = [] then Inl (SimulationConfigurationError ''an environment requires at least one entity'')
      else if \<not> distinct (map en_entity_id entities) then Inl (SimulationConfigurationError ''entity ids must be unique'')
      else rbind (validate_entity_actions catalog entities) (\<lambda>_.
        rbind (rmap (\<lambda>e. rbind (clone e) (\<lambda>c. Inr (en_entity_id e, c))) entities) (\<lambda>es.
        rbind (new_clock tick_duration) (\<lambda>clock.
        rbind (normalize_directions rnd hypot directions) (\<lambda>ds.
        rbind (schedule_initial_effects
          \<lparr>env_catalog = catalog, env_entities = dict_of es, env_clock = clock, env_random = new_random seed 54,
           env_scheduled = [], env_executions = [], env_cancelled_tokens = {}, env_next_schedule_order = 0,
           env_next_event_number = 0, env_direction_candidates = ds, env_position_candidates = positions,
           env_terminate_on_last_team = last_team,
           env_initial_competing_teams = teams_of entities,
           env_initial_snapshot = None\<rparr>) (\<lambda>env.
        rbind (snapshot_environment env) (\<lambda>s. Inr (env\<lparr>env_initial_snapshot := Some s\<rparr>))))))))"

end
