(* ===== verification/Sim_Damage.thy ===== *)
theory Sim_Damage
  imports Combat_Formulas Sim_Environment
begin

text \<open>
  The values that pass between the stages of damage (\<^verbatim>\<open>sim/damage.py\<close>) and the audited outcome of one
  primitive effect (\<^verbatim>\<open>sim/outcomes.py\<close>), with the checks of their constructors.
\<close>

record damage_transaction =
  dt_damage_type :: string
  dt_requested :: rat
  dt_post_resistance :: rat
  dt_resistance_percent :: rat
  dt_armor_piercing :: rat
  dt_breakpoint_damage_type :: "damage_type option"
  dt_breakpoint_amount :: rat
  dt_tags :: "string list"

definition damage_transaction_ok :: "damage_transaction \<Rightarrow> unit result" where
  "damage_transaction_ok t =
     rbind (py_identifier (dt_damage_type t) ''damage_type'') (\<lambda>_.
     rbind (formula_non_negative (dt_requested t) ''requested'') (\<lambda>_.
     rbind (formula_non_negative (dt_post_resistance t) ''post_resistance'') (\<lambda>_.
     rbind (formula_non_negative (dt_breakpoint_amount t) ''breakpoint_amount'') (\<lambda>_.
     rbind (checks [(dt_breakpoint_damage_type t = None \<and> dt_breakpoint_amount t \<noteq> 0,
       ValueError ''breakpoint_amount requires a typed breakpoint damage channel'')]) (\<lambda>_.
     riter (\<lambda>tag. py_identifier tag ''damage tag'') (py_unique (dt_tags t)))))))"

text \<open>The constructor also drops repeated tags.\<close>

definition new_transaction :: "damage_transaction \<Rightarrow> damage_transaction result" where
  "new_transaction t =
     rbind (damage_transaction_ok t) (\<lambda>_. Inr (t\<lparr>dt_tags := py_unique (dt_tags t)\<rparr>))"

definition resistance_fraction :: "damage_transaction \<Rightarrow> rat" where
  "resistance_fraction t = f64 (dt_resistance_percent t / 100)"

definition resisted :: "damage_transaction \<Rightarrow> rat" where
  "resisted t = f64 (dt_requested t - dt_post_resistance t)"

record damage_resolution =
  dr_transaction :: damage_transaction
  dr_absorbed :: rat
  dr_health_before :: rat
  dr_health_after :: rat

definition damage_resolution_ok :: "damage_resolution \<Rightarrow> unit result" where
  "damage_resolution_ok r =
     rbind (formula_non_negative (dr_absorbed r) ''absorbed'') (\<lambda>_.
     rbind (formula_non_negative (dr_health_before r) ''health_before'') (\<lambda>_.
     rbind (formula_non_negative (dr_health_after r) ''health_after'') (\<lambda>_.
     checks [(dr_health_after r > dr_health_before r, ValueError ''damage resolution cannot increase health''),
       (dr_absorbed r > dt_post_resistance (dr_transaction r),
          ValueError ''absorbed damage cannot exceed post-resistance damage'')])))"

definition post_absorption :: "damage_resolution \<Rightarrow> rat" where
  "post_absorption r = f64 (dt_post_resistance (dr_transaction r) - dr_absorbed r)"

definition effective_damage :: "damage_resolution \<Rightarrow> rat" where
  "effective_damage r = f64 (dr_health_before r - dr_health_after r)"

record effect_outcome =
  oc_kind :: effect_outcome_kind
  oc_primitive_kind :: string
  oc_subject_entity_id :: "string option"
  oc_effect_key :: "string option"
  oc_magnitude :: rat
  oc_tags :: "string list"

definition effect_outcome_ok :: "effect_outcome \<Rightarrow> unit result" where
  "effect_outcome_ok r =
     rbind (py_identifier (oc_primitive_kind r) ''primitive_kind'') (\<lambda>_.
     rbind (nonblank_or_null (oc_subject_entity_id r) ''subject_entity_id'') (\<lambda>_.
     rbind (nonblank_or_null (oc_effect_key r) ''effect_key'') (\<lambda>_.
     checks [(\<not> distinct (oc_tags r), ValueError ''tags must not contain duplicates''),
       (list_ex (\<lambda>t. \<not> nonblank t) (oc_tags r), ValueError ''tags must contain non-empty strings'')])))"

definition outcome ::
    "effect_outcome_kind \<Rightarrow> string \<Rightarrow> string option \<Rightarrow> string option \<Rightarrow> rat \<Rightarrow> string list \<Rightarrow> effect_outcome result" where
  "outcome kind primitive subject effect_key magnitude tags =
     validated effect_outcome_ok \<lparr>oc_kind = kind, oc_primitive_kind = primitive, oc_subject_entity_id = subject,
       oc_effect_key = effect_key, oc_magnitude = magnitude, oc_tags = tags\<rparr>"

fun effect_outcome_kind_value :: "effect_outcome_kind \<Rightarrow> string" where
  "effect_outcome_kind_value APPLIED = ''applied''"
| "effect_outcome_kind_value REFRESHED = ''refreshed''"
| "effect_outcome_kind_value BLOCKED_IMMUNITY = ''blocked_immunity''"
| "effect_outcome_kind_value BLOCKED_STACK = ''blocked_stack''"
| "effect_outcome_kind_value RESISTED = ''resisted''"
| "effect_outcome_kind_value MISSED = ''missed''"
| "effect_outcome_kind_value NO_CHANGE = ''no_change''"

end
