(* ===== verification/Effect_Monad.thy ===== *)
theory Effect_Monad
  imports Sim_Damage
begin

text \<open>
  Computations of the effect executor. The executor mutates the entities of the environment, appends to
  the caller's list of events and may raise, so one of its methods is an action: a function from the
  pair of environment and events to an exception or a value with the next pair. An entity the source
  holds a reference to is named by its key and read again at every access.
\<close>

type_synonym world = "environment \<times> event list"

type_synonym 'a act = "world \<Rightarrow> ('a \<times> world) result"

definition areturn :: "'a \<Rightarrow> 'a act" where
  "areturn x w = Inr (x, w)"

definition araise :: "py_error \<Rightarrow> 'a act" where
  "araise e w = Inl e"

definition abind :: "'a act \<Rightarrow> ('a \<Rightarrow> 'b act) \<Rightarrow> 'b act" where
  "abind m f w = rbind (m w) (\<lambda>(x, w'). f x w')"

definition aseq :: "unit act \<Rightarrow> 'b act \<Rightarrow> 'b act" where
  "aseq m n = abind m (\<lambda>_. n)"

definition alift :: "'a result \<Rightarrow> 'a act" where
  "alift r w = rbind r (\<lambda>x. Inr (x, w))"

definition aget :: "(environment \<Rightarrow> 'a) \<Rightarrow> 'a act" where
  "aget f w = Inr (f (fst w), w)"

definition awhen :: "bool \<Rightarrow> unit act \<Rightarrow> unit act" where
  "awhen b m = (if b then m else areturn ())"

fun aeach :: "('a \<Rightarrow> unit act) \<Rightarrow> 'a list \<Rightarrow> unit act" where
  "aeach f [] = areturn ()"
| "aeach f (x # xs) = aseq (f x) (aeach f xs)"

subsection \<open>What the environment offers\<close>

definition aentity :: "string \<Rightarrow> entity_state act" where
  "aentity key w = rbind (entity_at (fst w) key) (\<lambda>e. Inr (e, w))"

definition aupdate :: "string \<Rightarrow> (entity_state \<Rightarrow> entity_state) \<Rightarrow> unit act" where
  "aupdate key f w = rbind (entity_at (fst w) key) (\<lambda>e. Inr ((), put_entity key (f e) (fst w), snd w))"

definition aemit :: "string \<Rightarrow> int \<Rightarrow> event_fields \<Rightarrow> unit act" where
  "aemit kind due fs w = rbind (emit kind due fs w) (\<lambda>w'. Inr ((), w'))"

definition aorder :: "int act" where
  "aorder w = (let (order, env) = take_schedule_order (fst w) in Inr (order, env, snd w))"

definition aschedule :: "(int \<Rightarrow> scheduled_item) \<Rightarrow> unit act" where
  "aschedule mk w = rbind (schedule_new mk (fst w)) (\<lambda>env. Inr ((), env, snd w))"

definition ainterrupt :: "string \<Rightarrow> string \<Rightarrow> int \<Rightarrow> unit act" where
  "ainterrupt actor_id trigger due w = rbind (interrupt_actor actor_id trigger due w) (\<lambda>w'. Inr ((), w'))"

text \<open>Draws. The rejection loop of \<open>randbelow\<close> returns for every well-formed generator, and the generator of a simulation always is
  well formed; the last case, an error the code has not, stands for the loop not returning and never occurs
  (\<open>randbelow_total\<close> in \<open>Effect_Frame\<close>).\<close>

definition arandom :: "rat act" where
  "arandom w = (let (u, r) = random_unit (env_random (fst w)) in Inr (u, (fst w)\<lparr>env_random := r\<rparr>, snd w))"

definition auniform :: "rat \<Rightarrow> rat \<Rightarrow> rat act" where
  "auniform minimum maximum w =
     rbind (uniform f64 minimum maximum (env_random (fst w))) (\<lambda>(v, r). Inr (v, (fst w)\<lparr>env_random := r\<rparr>, snd w))"

definition arandbelow :: "int \<Rightarrow> int act" where
  "arandbelow bound w =
     (case randbelow bound (env_random (fst w)) of
        Some (Inr (n, r)) \<Rightarrow> Inr (n, (fst w)\<lparr>env_random := r\<rparr>, snd w)
      | Some (Inl e) \<Rightarrow> Inl e
      | None \<Rightarrow> Inl (RuntimeError ''the random source does not return''))"

subsection \<open>Invariants of actions\<close>

text \<open>\<open>pres I m Q\<close>: whenever \<open>m\<close> is started under the invariant \<open>I\<close> and returns, \<open>I\<close> holds again and the value satisfies
  \<open>Q\<close>.\<close>

definition pres :: "(environment \<Rightarrow> bool) \<Rightarrow> 'a act \<Rightarrow> ('a \<Rightarrow> bool) \<Rightarrow> bool" where
  "pres I m Q \<longleftrightarrow> (\<forall>w x w'. I (fst w) \<longrightarrow> m w = Inr (x, w') \<longrightarrow> I (fst w') \<and> Q x)"

abbreviation invar :: "(environment \<Rightarrow> bool) \<Rightarrow> 'a act \<Rightarrow> bool" where
  "invar I m \<equiv> pres I m (\<lambda>_. True)"

named_theorems pres_intros \<open>invariants of actions\<close>

lemma presI: "(\<And>env evs x env' evs'. I env \<Longrightarrow> m (env, evs) = Inr (x, env', evs') \<Longrightarrow> I env' \<and> Q x) \<Longrightarrow> pres I m Q"
  by (auto simp: pres_def)

lemma presD:
  assumes "pres I m Q" "I env" "m (env, evs) = Inr (x, env', evs')"
  shows "I env'" "Q x"
  using assms by (fastforce simp: pres_def)+

lemma pres_weaken: "pres I m Q \<Longrightarrow> (\<And>x. Q x \<Longrightarrow> Q' x) \<Longrightarrow> pres I m Q'"
  unfolding pres_def by blast

lemma abind_Inr: "abind m f w = Inr r \<longleftrightarrow> (\<exists>x w'. m w = Inr (x, w') \<and> f x w' = Inr r)"
  by (auto simp: abind_def result_simps)

lemma pres_abind: "pres I m Q \<Longrightarrow> (\<And>x. Q x \<Longrightarrow> pres I (f x) Q') \<Longrightarrow> pres I (abind m f) Q'"
  unfolding pres_def abind_Inr by blast

lemma pres_aseq [pres_intros]: "invar I m \<Longrightarrow> pres I n Q \<Longrightarrow> pres I (aseq m n) Q"
  unfolding aseq_def by (rule pres_abind)

lemma pres_areturn: "Q x \<Longrightarrow> pres I (areturn x) Q"
  by (simp add: pres_def areturn_def)

lemma invar_areturn [pres_intros]: "invar I (areturn x)"
  by (simp add: pres_areturn)

lemma pres_areturn_eq: "pres I (areturn x) (\<lambda>y. y = x)"
  by (simp add: pres_areturn)

lemma pres_araise [pres_intros]: "pres I (araise e) Q"
  by (simp add: pres_def araise_def)

lemma pres_alift_eq: "pres I (alift r) (\<lambda>x. r = Inr x)"
  by (auto simp: pres_def alift_def result_simps)

lemma pres_alift: "(\<And>x. r = Inr x \<Longrightarrow> Q x) \<Longrightarrow> pres I (alift r) Q"
  by (rule pres_weaken [OF pres_alift_eq])

lemma invar_alift [pres_intros]: "invar I (alift r)"
  by (rule pres_alift) simp

lemma pres_aget_eq: "pres I (aget f) (\<lambda>x. \<exists>env. I env \<and> x = f env)"
  by (auto simp: pres_def aget_def)

lemma invar_aget [pres_intros]: "invar I (aget f)"
  by (simp add: pres_def aget_def)

lemma pres_awhen [pres_intros]: "(b \<Longrightarrow> invar I m) \<Longrightarrow> invar I (awhen b m)"
  by (simp add: awhen_def invar_areturn)

lemma pres_aeach [pres_intros]: "(\<And>x. x \<in> set xs \<Longrightarrow> invar I (f x)) \<Longrightarrow> invar I (aeach f xs)"
  by (induction xs) (auto intro: pres_intros)

lemma pres_if [pres_intros]: "(b \<Longrightarrow> pres I m Q) \<Longrightarrow> (\<not> b \<Longrightarrow> pres I n Q) \<Longrightarrow> pres I (if b then m else n) Q"
  by simp

lemma pres_option [pres_intros]:
  "(v = None \<Longrightarrow> pres I m Q) \<Longrightarrow> (\<And>x. v = Some x \<Longrightarrow> pres I (f x) Q) \<Longrightarrow> pres I (case v of None \<Rightarrow> m | Some x \<Rightarrow> f x) Q"
  by (cases v) simp_all

lemma pres_pair [pres_intros]: "(\<And>x y. p = (x, y) \<Longrightarrow> pres I (f x y) Q) \<Longrightarrow> pres I (case p of (x, y) \<Rightarrow> f x y) Q"
  by (cases p) simp

lemma pres_let [pres_intros]: "(\<And>x. x = v \<Longrightarrow> pres I (f x) Q) \<Longrightarrow> pres I (let x = v in f x) Q"
  by simp

end
