(* ===== verification/Sim_Effects.thy ===== *)
theory Sim_Effects
  imports Effect_Monad
begin

text \<open>
  The executor of effects (\<^verbatim>\<open>sim/effects.py\<close>): every primitive, the gates and areas around them, weapon
  attacks, armed triggers, expiry and pulses of active effects, and deaths.

  Distances (\<open>math.hypot\<close> of a difference, \<open>None\<close> when infinite) and the sum of a list of floats, whose
  rounding depends on the version of Python, are the fields of the argument \<open>fl\<close>; all other arithmetic is
  rounded by \<open>f64\<close>. Whether the effect stored under a key is still the object an earlier loop saw
  (\<open>current is context.active\<close>) is decided by its instance id, which the executor draws fresh for every
  effect it creates.
\<close>

record float_lib =
  fl_hypot :: "vector2 \<Rightarrow> vector2 \<Rightarrow> rat option"
  fl_sum :: "rat list \<Rightarrow> rat"

subsection \<open>Entities, scalars and events\<close>

definition executor_entity :: "string \<Rightarrow> entity_state act" where
  "executor_entity entity_id w =
     (case map_of (env_entities (fst w)) entity_id of
        None \<Rightarrow> Inl (SimulationConfigurationError (''unknown entity id: '' @ entity_id))
      | Some e \<Rightarrow> Inr (e, w))"

definition required_scalar :: "entity_state \<Rightarrow> string \<Rightarrow> rat result" where
  "required_scalar e key =
     (case effective_scalar f64 e key of
        Inl (KeyError m) \<Rightarrow> Inl (SimulationConfigurationError (''entity '' @ en_entity_id e @ '' is missing required scalar '' @ key))
      | r \<Rightarrow> r)"

definition scalar_or_default :: "entity_state \<Rightarrow> string \<Rightarrow> rat \<Rightarrow> rat result" where
  "scalar_or_default e key d = (case effective_scalar f64 e key of Inl (KeyError m) \<Rightarrow> Inr d | r \<Rightarrow> r)"

definition scalar_get :: "entity_state \<Rightarrow> string \<Rightarrow> rat \<Rightarrow> rat" where
  "scalar_get e key d = (case map_of (en_scalars e) key of None \<Rightarrow> d | Some v \<Rightarrow> v)"

definition inventory_get :: "entity_state \<Rightarrow> string \<Rightarrow> rat" where
  "inventory_get e key = (case map_of (en_inventory e) key of None \<Rightarrow> 0 | Some v \<Rightarrow> v)"

definition set_scalar :: "string \<Rightarrow> rat \<Rightarrow> entity_state \<Rightarrow> entity_state" where
  "set_scalar key v e = e\<lparr>en_scalars := AList.update key v (en_scalars e)\<rparr>"

definition set_inventory :: "string \<Rightarrow> rat \<Rightarrow> entity_state \<Rightarrow> entity_state" where
  "set_inventory key v e = e\<lparr>en_inventory := AList.update key v (en_inventory e)\<rparr>"

definition put_effect :: "string \<Rightarrow> active_effect \<Rightarrow> entity_state \<Rightarrow> entity_state" where
  "put_effect storage active e = e\<lparr>en_effects := AList.update storage active (en_effects e)\<rparr>"

definition pop_effect :: "string \<Rightarrow> entity_state \<Rightarrow> entity_state" where
  "pop_effect storage e = e\<lparr>en_effects := AList.delete storage (en_effects e)\<rparr>"

definition action_has_tag :: "action_catalog \<Rightarrow> string \<Rightarrow> string \<Rightarrow> bool" where
  "action_has_tag catalog action_key tag =
     (case catalog_get catalog action_key of Inl e \<Rightarrow> False | Inr action \<Rightarrow> tag \<in> set (ac_tags action))"

definition item_fields :: "scheduled_item \<Rightarrow> string option \<Rightarrow> named_scalar list \<Rightarrow> string list \<Rightarrow> event_fields" where
  "item_fields item target scalars tags =
     \<lparr>ef_correlation_id = Some (it_correlation_id item), ef_source_entity_id = Some (it_actor_id item),
      ef_target_entity_id = target, ef_action_key = Some (it_action_key item), ef_scalars = scalars, ef_tags = tags\<rparr>"

definition ns :: "string \<Rightarrow> rat \<Rightarrow> named_scalar" where
  "ns name v = \<lparr>ns_name = name, ns_value = v\<rparr>"

text \<open>\<open>NamedScalar(name, float(n))\<close> for several integers; the conversion raises for an integer beyond the float range.\<close>

definition int_scalars :: "(string \<times> int) list \<Rightarrow> named_scalar list act" where
  "int_scalars values = alift (rmap (\<lambda>(name, n). rbind (float_of_int n) (\<lambda>v. Inr (ns name v))) values)"

definition of_bool01 :: "bool \<Rightarrow> rat" where
  "of_bool01 b = (if b then 1 else 0)"

definition effect_removed :: "string \<Rightarrow> active_effect \<Rightarrow> int \<Rightarrow> scheduled_item \<Rightarrow> string \<Rightarrow> named_scalar list \<Rightarrow> unit act" where
  "effect_removed subject active due item reason scalars =
     abind (aentity subject) (\<lambda>s.
     aemit ''effect_removed'' due
       ((item_fields item (Some (en_entity_id s)) scalars [''effect.'' @ ae_effect_key active, reason])
          \<lparr>ef_source_entity_id := Some (ae_source_entity_id active)\<rparr>))"

text \<open>The entity a subject of an effect denotes, by its key.\<close>

definition entity_for_ref :: "subject_ref \<Rightarrow> action_binding \<Rightarrow> environment \<Rightarrow> string option" where
  "entity_for_ref subject binding env =
     (let known = (\<lambda>k. if map_of (env_entities env) k = None then None else Some k) in
      case subject of
        SUBJECT_ACTOR \<Rightarrow> known (ab_actor_id binding)
      | SUBJECT_TARGET \<Rightarrow>
          if ab_target_kind binding = TK_SELF then known (ab_actor_id binding)
          else (case ab_target_entity_id binding of None \<Rightarrow> None | Some t \<Rightarrow> known t)
      | SUBJECT_OBJECTIVE \<Rightarrow>
          (case ab_objective_id binding of
             Some k \<Rightarrow> known k
           | None \<Rightarrow> (case ab_target_entity_id binding of None \<Rightarrow> None | Some t \<Rightarrow> known t)))"

fun effect_subject :: "effect_primitive \<Rightarrow> subject_ref option" where
  "effect_subject (ModifyScalar s _ _ _) = Some s"
| "effect_subject (DealDamage s _ _ _ _ _) = Some s"
| "effect_subject (RestoreResource s _ _ _ _ _) = Some s"
| "effect_subject (ModifyTag s _ _) = Some s"
| "effect_subject (ApplyEffect s _ _ _ _ _ _ _ _ _ _) = Some s"
| "effect_subject (RemoveEffect s _ _ _) = Some s"
| "effect_subject (MoveEntity s _ _) = Some s"
| "effect_subject (ModifyObjective s _) = Some s"
| "effect_subject (ChangeStance s _) = Some s"
| "effect_subject _ = None"

definition subject_entity :: "effect_primitive \<Rightarrow> action_binding \<Rightarrow> environment \<Rightarrow> string option" where
  "subject_entity effect binding env =
     (case effect_subject effect of None \<Rightarrow> None | Some s \<Rightarrow> entity_for_ref s binding env)"

fun primitive_kind :: "effect_primitive \<Rightarrow> string" where
  "primitive_kind (ModifyScalar _ _ _ _) = ''ModifyScalar''"
| "primitive_kind (DealDamage _ _ _ _ _ _) = ''DealDamage''"
| "primitive_kind (RestoreResource _ _ _ _ _ _) = ''RestoreResource''"
| "primitive_kind (TransferResource _ _ _ _ _) = ''TransferResource''"
| "primitive_kind (ModifyTag _ _ _) = ''ModifyTag''"
| "primitive_kind (ApplyEffect _ _ _ _ _ _ _ _ _ _ _) = ''ApplyEffect''"
| "primitive_kind (RemoveEffect _ _ _ _) = ''RemoveEffect''"
| "primitive_kind (MoveEntity _ _ _) = ''MoveEntity''"
| "primitive_kind (TransferItem _ _ _ _) = ''TransferItem''"
| "primitive_kind (ModifyObjective _ _) = ''ModifyObjective''"
| "primitive_kind (ChangeStance _ _) = ''ChangeStance''"
| "primitive_kind (OutcomeConditional _ _ _ _ _) = ''OutcomeConditional''"
| "primitive_kind (ChanceGate _ _ _) = ''ChanceGate''"
| "primitive_kind (AttackGate _ _ _ _ _ _) = ''AttackGate''"
| "primitive_kind (AreaEffect _ _ _ _ _) = ''AreaEffect''"

definition entity_relation :: "entity_state \<Rightarrow> entity_state \<Rightarrow> relation" where
  "entity_relation actor target =
     (if en_entity_id actor = en_entity_id target then SELF
      else if en_team_id actor = None \<or> en_team_id target = None then NEUTRAL
      else if en_team_id actor = en_team_id target then ALLY
      else ENEMY)"

subsection \<open>Amounts\<close>

fun pick_weighted :: "int \<Rightarrow> int \<Rightarrow> (rat \<times> int) list \<Rightarrow> rat result" where
  "pick_weighted selected cumulative [] =
     Inl (SimulationConfigurationError ''weighted amount selection did not reach an outcome'')"
| "pick_weighted selected cumulative ((v, weight) # outcomes) =
     (if selected < cumulative + weight then Inr v else pick_weighted selected (cumulative + weight) outcomes)"

fun resolve_amount :: "amount_spec \<Rightarrow> rat act" where
  "resolve_amount (FixedAmount a) = areturn a"
| "resolve_amount (UniformAmount minimum maximum) = auniform minimum maximum"
| "resolve_amount (TriangularAmount minimum maximum) =
     abind arandom (\<lambda>first. abind arandom (\<lambda>second. alift (triangular_roll minimum maximum first second)))"
| "resolve_amount (UniformIntegerAmount minimum maximum) =
     abind (arandbelow (maximum - minimum + 1)) (\<lambda>n. alift (float_of_int (minimum + n)))"
| "resolve_amount (WeightedAmount outcomes) =
     abind (arandbelow (total_weight outcomes)) (\<lambda>selected. alift (pick_weighted selected 0 outcomes))"

fun scaled_amount :: "amount_spec \<Rightarrow> rat \<Rightarrow> amount_spec result" where
  "scaled_amount (FixedAmount a) factor = Inr (FixedAmount (f64 (a * factor)))"
| "scaled_amount (UniformAmount minimum maximum) factor =
     validated amount_spec_ok (UniformAmount (f64 (minimum * factor)) (f64 (maximum * factor)))"
| "scaled_amount (TriangularAmount minimum maximum) factor =
     validated amount_spec_ok (TriangularAmount (f64 (minimum * factor)) (f64 (maximum * factor)))"
| "scaled_amount (UniformIntegerAmount minimum maximum) factor =
     rbind (float_of_int minimum) (\<lambda>low. rbind (float_of_int maximum) (\<lambda>high.
     validated amount_spec_ok (UniformAmount (f64 (low * factor)) (f64 (high * factor)))))"
| "scaled_amount (WeightedAmount outcomes) factor =
     validated amount_spec_ok (WeightedAmount (map (\<lambda>(v, weight). (f64 (v * factor), weight)) outcomes))"

definition chance_roll :: "rat \<Rightarrow> (rat \<times> bool) act" where
  "chance_roll p =
     (if p \<le> 0 then areturn (1, False)
      else if p \<ge> 1 then areturn (0, True)
      else abind arandom (\<lambda>roll. areturn (roll, roll < p)))"

subsection \<open>Stances, scalars, tags and objectives\<close>

definition stance_changed :: "scheduled_item \<Rightarrow> string \<Rightarrow> combat_stance \<Rightarrow> string \<Rightarrow> int \<Rightarrow> unit act" where
  "stance_changed item subject stance reason due =
     abind (aentity subject) (\<lambda>s.
     aseq (aupdate subject (\<lambda>e. e\<lparr>en_stance := stance\<rparr>))
     (aemit ''stance_changed'' due (item_fields item (Some (en_entity_id s)) []
       [''stance.from.'' @ combat_stance_value (en_stance s), ''stance.to.'' @ combat_stance_value stance, ''reason.'' @ reason])))"

definition drop_travel_stance :: "scheduled_item \<Rightarrow> string \<Rightarrow> int \<Rightarrow> string \<Rightarrow> unit act" where
  "drop_travel_stance item subject due reason =
     abind (aentity subject) (\<lambda>s.
     if en_stance s \<noteq> STANCE_TRAVEL then areturn () else stance_changed item subject STANCE_NORMAL reason due)"

definition change_stance :: "scheduled_item \<Rightarrow> combat_stance \<Rightarrow> string option \<Rightarrow> int \<Rightarrow> unit act" where
  "change_stance item stance subject due =
     (case subject of
        None \<Rightarrow> araise (SimulationConfigurationError ''stance change requires an entity subject'')
      | Some sid \<Rightarrow> abind (aentity sid) (\<lambda>s.
          if en_stance s = stance then areturn () else stance_changed item sid stance ''action'' due))"

definition modify_scalar :: "scheduled_item \<Rightarrow> string \<Rightarrow> scalar_operation \<Rightarrow> rat \<Rightarrow> string option \<Rightarrow> int \<Rightarrow> unit act" where
  "modify_scalar item key operation amount subject due =
     (case subject of
        None \<Rightarrow> araise (SimulationConfigurationError ''scalar modification requires an entity subject'')
      | Some sid \<Rightarrow> abind (aentity sid) (\<lambda>s.
          let before = scalar_get s key 0;
              after0 = (if operation = SCALAR_SET then amount else f64 (before + amount));
              after = (case map_of (en_maximums s) key of None \<Rightarrow> after0 | Some maximum \<Rightarrow> max 0 (min after0 maximum))
          in aseq (aupdate sid (set_scalar key after))
             (aemit ''scalar_modified'' due
               (item_fields item (Some (en_entity_id s)) [ns ''before'' before, ns ''after'' after] [''scalar.'' @ key]))))"

definition modify_tag :: "scheduled_item \<Rightarrow> string \<Rightarrow> tag_operation \<Rightarrow> string option \<Rightarrow> int \<Rightarrow> unit act" where
  "modify_tag item tag operation subject due =
     (case subject of
        None \<Rightarrow> araise (SimulationConfigurationError ''tag modification requires an entity subject'')
      | Some sid \<Rightarrow> abind (aentity sid) (\<lambda>s.
          let tags = (if operation = TAG_ADD then insert tag (en_tags s) else en_tags s - {tag})
          in aseq (aupdate sid (\<lambda>e. e\<lparr>en_tags := tags\<rparr>))
             (awhen ((tag \<in> en_tags s) \<noteq> (tag \<in> tags))
               (aemit ''tag_modified'' due
                 (item_fields item (Some (en_entity_id s)) [] [tag, if tag \<in> tags then ''operation.add'' else ''operation.remove''])))))"

definition modify_objective :: "scheduled_item \<Rightarrow> rat \<Rightarrow> string option \<Rightarrow> int \<Rightarrow> unit act" where
  "modify_objective item delta subject due =
     (case subject of
        None \<Rightarrow> araise (SimulationConfigurationError ''objective modification requires an objective entity'')
      | Some sid \<Rightarrow> abind (aentity sid) (\<lambda>s.
          if en_kind s \<noteq> OBJECTIVE
          then araise (SimulationConfigurationError ''objective modification requires an objective entity'')
          else
          let before = scalar_get s ''objective_progress'' 0;
              after0 = f64 (before + delta);
              after = (case map_of (en_maximums s) ''objective_progress'' of
                         None \<Rightarrow> after0 | Some maximum \<Rightarrow> max (- maximum) (min after0 maximum))
          in aseq (aupdate sid (set_scalar ''objective_progress'' after))
             (aemit ''objective_changed'' due
               (item_fields item (Some (en_entity_id s)) [ns ''before'' before, ns ''after'' after] []))))"

subsection \<open>Resources and items\<close>

fun resistance_type_value :: "resistance_type \<Rightarrow> string" where
  "resistance_type_value RESIST_SLASH = ''slash''"
| "resistance_type_value RESIST_CRUSH = ''crush''"
| "resistance_type_value RESIST_PIERCE = ''pierce''"
| "resistance_type_value RESIST_MAGIC = ''magic''"
| "resistance_type_value RESIST_BLEED = ''bleed''"
| "resistance_type_value RESIST_POISON = ''poison''"
| "resistance_type_value RESIST_MENTAL = ''mental''"
| "resistance_type_value RESIST_HOLY = ''holy''"
| "resistance_type_value RESIST_UNHOLY = ''unholy''"
| "resistance_type_value RESIST_LIGHTNING = ''lightning''"
| "resistance_type_value RESIST_FIRE = ''fire''"
| "resistance_type_value RESIST_COLD = ''cold''"
| "resistance_type_value RESIST_HEALING = ''healing''"

definition restoration_blocked :: "entity_state \<Rightarrow> string \<Rightarrow> int \<Rightarrow> bool" where
  "restoration_blocked s resource_key power_trains =
     list_ex (\<lambda>(k, active). ResourceImmunity resource_key \<in> set (ae_modifiers active) \<and> ae_trains active \<ge> power_trains) (en_effects s)"

definition restored_amount ::
    "entity_state \<Rightarrow> entity_state \<Rightarrow> bool \<Rightarrow> int \<Rightarrow> resistance_type option \<Rightarrow> rat \<Rightarrow> (rat \<times> rat \<times> rat) result" where
  "restored_amount actor s uses_resistance power_trains resistance amount =
     (if \<not> uses_resistance then Inr (amount, 0, 0)
      else case resistance of
        None \<Rightarrow> Inl (SimulationConfigurationError ''resisted restoration requires a type'')
      | Some t \<Rightarrow>
          rbind (required_scalar s (''resist.'' @ resistance_type_value t)) (\<lambda>raw.
          rbind (required_scalar actor ''armor_piercing'') (\<lambda>armor_piercing.
          rbind (effective_resistance raw 0 power_trains False) (\<lambda>r.
          rbind (resisted_amount amount r armor_piercing) (\<lambda>mitigated.
          Inr (mitigated, r, armor_piercing))))))"

definition restore_resource ::
    "scheduled_item \<Rightarrow> string \<Rightarrow> amount_spec \<Rightarrow> bool \<Rightarrow> int \<Rightarrow> resistance_type option \<Rightarrow> string option \<Rightarrow> int \<Rightarrow> unit act" where
  "restore_resource item resource_key amount uses_resistance power_trains resistance subject due =
     (case subject of
        None \<Rightarrow> araise (SimulationConfigurationError ''resource restoration requires an entity subject'')
      | Some sid \<Rightarrow>
          abind (resolve_amount amount) (\<lambda>rolled.
          abind (if resource_key = ''health''
                 then abind (executor_entity (it_actor_id item)) (\<lambda>actor.
                   abind (alift (scalar_or_default actor ''outgoing.power.healing.factor'' 1)) (\<lambda>factor.
                   areturn (f64 (rolled * factor))))
                 else areturn rolled) (\<lambda>requested.
          abind (aentity sid) (\<lambda>s.
          let blocked = restoration_blocked s resource_key power_trains in
          abind (if uses_resistance then executor_entity (it_actor_id item) else areturn s) (\<lambda>actor.
          abind (alift (restored_amount actor s uses_resistance power_trains resistance requested)) (\<lambda>(mitigated0, r, armor_piercing).
          let mitigated = (if blocked then 0 else mitigated0);
              before = scalar_get s resource_key 0;
              after0 = f64 (before + mitigated);
              after = (case map_of (en_maximums s) resource_key of None \<Rightarrow> after0 | Some maximum \<Rightarrow> min after0 maximum)
          in aseq (aupdate sid (set_scalar resource_key after))
             (aemit ''resource_restored'' due
               (item_fields item (Some (en_entity_id s))
                 [ns ''requested'' requested, ns ''mitigated'' mitigated, ns ''resistance_percent'' r,
                  ns ''armor_piercing'' armor_piercing, ns ''effective'' (f64 (after - before))]
                 ((''resource.'' @ resource_key) # (if blocked then [''outcome.blocked_by_resource_immunity''] else []))))))))))"

definition transfer_resource :: "scheduled_item \<Rightarrow> subject_ref \<Rightarrow> subject_ref \<Rightarrow> string \<Rightarrow> amount_spec \<Rightarrow> rat \<Rightarrow> int \<Rightarrow> unit act" where
  "transfer_resource item from_subject to_subject key amount efficiency due =
     (case it_binding item of
        None \<Rightarrow> araise (SimulationConfigurationError ''resource transfer is missing its action binding'')
      | Some binding \<Rightarrow>
          abind (aget (\<lambda>env. (entity_for_ref from_subject binding env, entity_for_ref to_subject binding env))) (\<lambda>ends.
          case ends of
            (Some source, Some destination) \<Rightarrow>
              abind (resolve_amount amount) (\<lambda>requested.
              abind (aentity source) (\<lambda>s.
              let source_before = max 0 (scalar_get s key 0);
                  drained = min requested source_before;
                  source_after = f64 (source_before - drained)
              in aseq (aupdate source (set_scalar key source_after))
              (abind (aentity destination) (\<lambda>d.
              let destination_before = max 0 (scalar_get d key 0);
                  after0 = f64 (destination_before + f64 (drained * efficiency));
                  destination_after = (case map_of (en_maximums d) key of None \<Rightarrow> after0 | Some maximum \<Rightarrow> min after0 maximum)
              in aseq (aupdate destination (set_scalar key destination_after))
              (aemit ''resource_transferred'' due
                (item_fields item (Some (en_entity_id s))
                  [ns ''requested'' requested, ns ''drained'' drained, ns ''efficiency'' efficiency,
                   ns ''credited'' (f64 (destination_after - destination_before)), ns ''source_before'' source_before,
                   ns ''source_after'' source_after, ns ''destination_before'' destination_before,
                   ns ''destination_after'' destination_after]
                  [''resource.'' @ key, ''operation.transfer'']))))))
          | _ \<Rightarrow> araise (SimulationConfigurationError ''resource transfer requires entity subjects'')))"

text \<open>\<open>a or b\<close> of optional text and numbers: the empty string and zero are falsy.\<close>

definition or_text :: "string option \<Rightarrow> string option \<Rightarrow> string option" where
  "or_text a b = (case a of None \<Rightarrow> b | Some t \<Rightarrow> if t = [] then b else a)"

definition or_number :: "rat option \<Rightarrow> rat option \<Rightarrow> rat option" where
  "or_number a b = (case a of None \<Rightarrow> b | Some q \<Rightarrow> if q = 0 then b else a)"

definition transfer_item :: "scheduled_item \<Rightarrow> subject_ref \<Rightarrow> subject_ref \<Rightarrow> string option \<Rightarrow> rat option \<Rightarrow> int \<Rightarrow> unit act" where
  "transfer_item item from_subject to_subject item_id0 quantity0 due =
     (case it_binding item of
        None \<Rightarrow> araise (SimulationConfigurationError ''item transfer is missing its action binding'')
      | Some binding \<Rightarrow>
          abind (aget (\<lambda>env. (entity_for_ref from_subject binding env, entity_for_ref to_subject binding env))) (\<lambda>ends.
          case (ends, or_text item_id0 (ab_item_id binding), or_number quantity0 (ab_quantity binding)) of
            ((Some source, Some target), Some item_id, Some quantity) \<Rightarrow>
              abind (aentity source) (\<lambda>s.
              let available = inventory_get s item_id in
              if available < quantity
              then aemit ''action_rejected'' due (item_fields item None [] [''reason.insufficient_inventory_at_resolution''])
              else aseq (aupdate source (set_inventory item_id (f64 (available - quantity))))
                (abind (aentity target) (\<lambda>t.
                aseq (aupdate target (set_inventory item_id (f64 (inventory_get t item_id + quantity))))
                (aemit ''item_transferred'' due
                  ((item_fields item (Some (en_entity_id t)) [ns ''quantity'' quantity] [''item.'' @ item_id])
                    \<lparr>ef_source_entity_id := Some (en_entity_id s)\<rparr>)))))
          | _ \<Rightarrow> araise (SimulationConfigurationError ''item transfer requires bound entities, item, and quantity'')))"

subsection \<open>Damage\<close>

definition breakpoints_for :: "damage_type \<Rightarrow> effect_modifier list \<Rightarrow> (string \<times> rat) list" where
  "breakpoints_for damage_type modifiers =
     concat (map (\<lambda>m. case m of
         DamageBreakpoint key threshold types \<Rightarrow> if damage_type \<in> set types then [(''damage_breakpoint.'' @ key, threshold)] else []
       | _ \<Rightarrow> []) modifiers)"

fun accumulate :: "rat \<Rightarrow> (string \<times> rat) list \<Rightarrow> (string \<times> rat) list \<Rightarrow> ((string \<times> rat) list \<times> (rat \<times> rat) option) result" where
  "accumulate amount [] values = Inr (values, None)"
| "accumulate amount ((key, threshold) # rest) values =
     (case map_of values key of
        None \<Rightarrow> Inl (KeyError key)
      | Some v \<Rightarrow>
          let accumulated = f64 (v + amount); values' = AList.update key accumulated values
          in if accumulated > threshold then Inr (values', Some (threshold, accumulated))
             else accumulate amount rest values')"

definition accumulate_breakpoint ::
    "scheduled_item \<Rightarrow> string \<Rightarrow> damage_type \<Rightarrow> rat \<Rightarrow> int \<Rightarrow> string \<Rightarrow> unit act" where
  "accumulate_breakpoint item subject damage_type amount due storage =
     abind (aentity subject) (\<lambda>s.
     case map_of (en_effects s) storage of
       None \<Rightarrow> areturn ()
     | Some active \<Rightarrow>
         abind (alift (accumulate amount (breakpoints_for damage_type (ae_modifiers active)) (ae_modifier_values active))) (\<lambda>(values, broken).
         aseq (aupdate subject (put_effect storage (active\<lparr>ae_modifier_values := values\<rparr>)))
         (case broken of
            None \<Rightarrow> areturn ()
          | Some (threshold, accumulated) \<Rightarrow>
              aseq (aupdate subject (pop_effect storage))
              (effect_removed subject active due item ''reason.damage_breakpoint''
                [ns ''breakpoint'' threshold, ns ''accumulated_damage'' accumulated]))))"

definition accumulate_damage_breakpoints :: "scheduled_item \<Rightarrow> string \<Rightarrow> damage_type \<Rightarrow> rat \<Rightarrow> int \<Rightarrow> unit act" where
  "accumulate_damage_breakpoints item subject damage_type amount due =
     abind (aentity subject) (\<lambda>s.
     aeach (accumulate_breakpoint item subject damage_type amount due) (sort (map fst (en_effects s))))"

definition absorbs :: "string \<Rightarrow> active_effect \<Rightarrow> bool" where
  "absorbs damage_type active \<longleftrightarrow> ae_magnitude active > 0
     \<and> (''damage.absorb.all'' \<in> ae_tags active \<or> (''damage.absorb.'' @ damage_type) \<in> ae_tags active)"

definition absorbers :: "string \<Rightarrow> entity_state \<Rightarrow> string list" where
  "absorbers damage_type s =
     map fst (sort_key (\<lambda>(k, active). (ae_expires_at_ms active, k)) (filter (\<lambda>(k, active). absorbs damage_type active) (en_effects s)))"

fun absorb_each ::
    "scheduled_item \<Rightarrow> string \<Rightarrow> string \<Rightarrow> int \<Rightarrow> string list \<Rightarrow> rat \<Rightarrow> rat \<Rightarrow> (rat \<times> rat) act" where
  "absorb_each item subject damage_type due [] remaining absorbed_total = areturn (remaining, absorbed_total)"
| "absorb_each item subject damage_type due (storage # storages) remaining absorbed_total =
     (if remaining \<le> 0 then areturn (remaining, absorbed_total)
      else abind (aentity subject) (\<lambda>s.
        case map_of (en_effects s) storage of
          None \<Rightarrow> absorb_each item subject damage_type due storages remaining absorbed_total
        | Some active \<Rightarrow>
            let absorbed = min remaining (ae_magnitude active);
                left = active\<lparr>ae_magnitude := f64 (ae_magnitude active - absorbed)\<rparr>
            in if absorbed \<le> 0 then absorb_each item subject damage_type due storages remaining absorbed_total
            else aseq (aupdate subject (put_effect storage left))
              (aseq (aemit ''absorber_consumed'' due
                ((item_fields item (Some (en_entity_id s)) [ns ''absorbed'' absorbed, ns ''remaining'' (ae_magnitude left)]
                   [''effect.'' @ ae_effect_key active, ''damage.'' @ damage_type])
                  \<lparr>ef_source_entity_id := Some (ae_source_entity_id active)\<rparr>))
              (aseq (awhen (ae_magnitude left \<le> 0)
                (aseq (aupdate subject (pop_effect storage)) (effect_removed subject left due item ''reason.depleted'' [])))
              (absorb_each item subject damage_type due storages (f64 (remaining - absorbed)) (f64 (absorbed_total + absorbed)))))))"

definition consume_damage_absorbers :: "scheduled_item \<Rightarrow> string \<Rightarrow> string \<Rightarrow> rat \<Rightarrow> int \<Rightarrow> (rat \<times> rat) act" where
  "consume_damage_absorbers item subject damage_type amount due =
     abind (aentity subject) (\<lambda>s. absorb_each item subject damage_type due (absorbers damage_type s) amount 0)"

definition damage_fields :: "scheduled_item \<Rightarrow> entity_state \<Rightarrow> damage_resolution \<Rightarrow> event_fields" where
  "damage_fields item s resolution =
     (let t = dr_transaction resolution in
      item_fields item (Some (en_entity_id s))
        [ns ''requested'' (dt_requested t), ns ''mitigated'' (dt_post_resistance t), ns ''post_resistance'' (dt_post_resistance t),
         ns ''resistance'' (resistance_fraction t), ns ''resistance_percent'' (dt_resistance_percent t),
         ns ''armor_piercing'' (dt_armor_piercing t), ns ''resisted'' (resisted t), ns ''absorbed'' (dr_absorbed resolution),
         ns ''effective'' (effective_damage resolution)]
        (py_unique ((''damage.'' @ dt_damage_type t) # dt_tags t
          @ (case it_trigger_key item of None \<Rightarrow> [] | Some k \<Rightarrow> [''trigger.'' @ k]))))"

definition commit_damage :: "scheduled_item \<Rightarrow> string \<Rightarrow> damage_transaction \<Rightarrow> int \<Rightarrow> damage_resolution act" where
  "commit_damage item subject t due =
     abind (consume_damage_absorbers item subject (dt_damage_type t) (dt_post_resistance t) due) (\<lambda>(remaining, absorbed).
     abind (aentity subject) (\<lambda>s.
     let before = scalar_get s ''health'' 0; after = max 0 (f64 (before - remaining)) in
     aseq (aupdate subject (set_scalar ''health'' after))
     (abind (alift (validated damage_resolution_ok
        \<lparr>dr_transaction = t, dr_absorbed = absorbed, dr_health_before = before, dr_health_after = after\<rparr>)) (\<lambda>resolution.
     aseq (aemit ''damage_applied'' due (damage_fields item s resolution))
     (aseq (case dt_breakpoint_damage_type t of
        None \<Rightarrow> areturn ()
      | Some channel \<Rightarrow> awhen (dt_breakpoint_amount t > 0)
          (accumulate_damage_breakpoints item subject channel (dt_breakpoint_amount t) due))
     (aseq (awhen (effective_damage resolution > 0)
        (aseq (drop_travel_stance item subject due ''damage'') (ainterrupt (en_entity_id s) ''damage'' due)))
     (areturn resolution)))))))"

definition resistance_adjustments :: "damage_type \<Rightarrow> entity_state \<Rightarrow> rat list" where
  "resistance_adjustments damage_type s =
     concat (map (\<lambda>(k, active). concat (map (\<lambda>m. case m of
         ResistanceAdjustment t amount \<Rightarrow> if t = damage_type then [amount] else []
       | _ \<Rightarrow> []) (ae_modifiers active))) (sort_key fst (en_effects s)))"

definition protection_trains :: "entity_state \<Rightarrow> bool \<Rightarrow> int result" where
  "protection_trains s applies =
     (if \<not> applies then Inr 0
      else rbind (required_scalar s ''protection.trains'') (\<lambda>raw.
        if raw < 0 \<or> raw \<noteq> of_int \<lfloor>raw\<rfloor>
        then Inl (SimulationConfigurationError (''entity '' @ en_entity_id s @ '' protection.trains must be a non-negative integer''))
        else Inr \<lfloor>raw\<rfloor>))"

definition mitigated_damage ::
    "float_lib \<Rightarrow> entity_state \<Rightarrow> entity_state \<Rightarrow> damage_type \<Rightarrow> int \<Rightarrow> rat \<Rightarrow> (rat \<times> rat \<times> rat) result" where
  "mitigated_damage fl actor s damage_type power_trains amount =
     (let channel = damage_type_value damage_type; tags = effective_tags s in
      rbind (required_scalar s (''resist.'' @ channel)) (\<lambda>raw.
      let adjusted = f64 (raw + fl_sum fl (resistance_adjustments damage_type s));
          applies = (''protection.'' @ channel) \<in> tags
      in rbind (required_scalar actor ''armor_piercing'') (\<lambda>armor_piercing.
      rbind (protection_trains s applies) (\<lambda>trains.
      rbind (effective_resistance adjusted trains power_trains applies) (\<lambda>resistance.
      rbind (resisted_amount amount resistance armor_piercing) (\<lambda>kept.
      let m1 = (if (''immunity.damage.'' @ channel) \<in> tags then 0 else kept);
          m2 = (if ''state.sitting'' \<in> tags then f64 (m1 * (5 / 2)) else m1)
      in Inr (m2, resistance, armor_piercing)))))))"

definition damage_factor_key :: "scheduled_item \<Rightarrow> string option \<Rightarrow> environment \<Rightarrow> string" where
  "damage_factor_key item source_key env =
     (if (case source_key of None \<Rightarrow> False | Some k \<Rightarrow> take 5 k = ''proc.'') then ''outgoing.proc.damage.factor''
      else if action_has_tag (env_catalog env) (it_action_key item) ''power'' then ''outgoing.power.damage.factor''
      else ''outgoing.weapon.damage.factor'')"

definition deal_damage ::
    "float_lib \<Rightarrow> scheduled_item \<Rightarrow> amount_spec \<Rightarrow> damage_type \<Rightarrow> bool \<Rightarrow> int \<Rightarrow> string option \<Rightarrow> string option \<Rightarrow> int
     \<Rightarrow> damage_resolution act" where
  "deal_damage fl item amount damage_type uses_resistance power_trains source_key subject due =
     (case subject of
        None \<Rightarrow> araise (SimulationConfigurationError ''damage requires an entity subject'')
      | Some sid \<Rightarrow>
          abind (resolve_amount amount) (\<lambda>rolled.
          abind (executor_entity (it_actor_id item)) (\<lambda>actor.
          abind (alift (scalar_or_default actor ''outgoing.damage.factor'' 1)) (\<lambda>factor1.
          abind (aget (damage_factor_key item source_key)) (\<lambda>factor_key.
          abind (alift (scalar_or_default actor factor_key 1)) (\<lambda>factor2.
          let requested = f64 (f64 (rolled * factor1) * factor2) in
          abind (aentity sid) (\<lambda>s.
          abind (if uses_resistance then alift (mitigated_damage fl actor s damage_type power_trains requested)
                 else areturn (requested, 0, 0)) (\<lambda>(mitigated, resistance, armor_piercing).
          abind (alift (new_transaction
            \<lparr>dt_damage_type = damage_type_value damage_type, dt_requested = requested, dt_post_resistance = mitigated,
             dt_resistance_percent = resistance, dt_armor_piercing = armor_piercing,
             dt_breakpoint_damage_type = Some damage_type, dt_breakpoint_amount = mitigated,
             dt_tags = (case source_key of None \<Rightarrow> [] | Some k \<Rightarrow> if k = [] then [] else [''damage_source.'' @ k])\<rparr>)) (\<lambda>t.
          commit_damage item sid t due)))))))))"

definition damage_type_of :: "string \<Rightarrow> damage_type option" where
  "damage_type_of v =
     find (\<lambda>t. damage_type_value t = v)
       [SLASH, CRUSH, PIERCE, MAGIC, BLEED, POISON, MENTAL, HOLY, UNHOLY, LIGHTNING, FIRE, COLD, UNKNOWN_DAMAGE]"

text \<open>The fractional resistance of weapon damage: the channel, the general value, a default.\<close>

definition channel_scalar :: "entity_state \<Rightarrow> string \<Rightarrow> string \<Rightarrow> string \<Rightarrow> rat \<Rightarrow> rat" where
  "channel_scalar s prefix damage_type general d =
     scalar_get s (prefix @ ''.'' @ damage_type) (scalar_get s general d)"

definition weapon_resistance :: "entity_state \<Rightarrow> string \<Rightarrow> rat result" where
  "weapon_resistance s damage_type =
     (let raw = channel_scalar s ''resistance'' damage_type ''resistance.all'' 0;
          cap = channel_scalar s ''resistance_cap'' damage_type ''resistance_cap'' (3 / 4);
          lowest = channel_scalar s ''resistance_floor'' damage_type ''resistance_floor'' (- 1)
      in if cap < lowest then Inl (SimulationConfigurationError ''resistance cap is below resistance floor'')
         else Inr (max lowest (min cap raw)))"

definition apply_weapon_damage :: "scheduled_item \<Rightarrow> string \<Rightarrow> rat \<Rightarrow> string \<Rightarrow> int \<Rightarrow> string list \<Rightarrow> rat act" where
  "apply_weapon_damage item subject amount damage_type due extra_tags =
     abind (executor_entity (it_actor_id item)) (\<lambda>actor.
     abind (alift (scalar_or_default actor ''outgoing.damage.factor'' 1)) (\<lambda>factor1.
     abind (alift (scalar_or_default actor ''outgoing.weapon.damage.factor'' 1)) (\<lambda>factor2.
     let requested = f64 (f64 (amount * factor1) * factor2) in
     abind (aentity subject) (\<lambda>s.
     abind (alift (weapon_resistance s damage_type)) (\<lambda>resistance.
     let after_resistance = max 0 (f64 (requested * f64 (1 - resistance)));
         channel = (case damage_type_of damage_type of Some UNKNOWN_DAMAGE \<Rightarrow> None | c \<Rightarrow> c)
     in abind (alift (new_transaction
       \<lparr>dt_damage_type = damage_type, dt_requested = requested, dt_post_resistance = after_resistance,
        dt_resistance_percent = f64 (resistance * 100), dt_armor_piercing = 0, dt_breakpoint_damage_type = channel,
        dt_breakpoint_amount = (if channel = None then 0 else after_resistance), dt_tags = extra_tags\<rparr>)) (\<lambda>t.
     abind (commit_damage item subject t due) (\<lambda>resolution.
     areturn (effective_damage resolution))))))))"

subsection \<open>Applying and removing effects\<close>

definition new_modifier_values :: "effect_modifier list \<Rightarrow> (string \<times> rat) list" where
  "new_modifier_values modifiers =
     dict_of (concat (map (\<lambda>m. case m of DamageBreakpoint key threshold types \<Rightarrow> [(''damage_breakpoint.'' @ key, 0)] | _ \<Rightarrow> []) modifiers))"

definition effect_item ::
    "scheduled_item \<Rightarrow> string \<Rightarrow> string \<Rightarrow> string \<Rightarrow> string \<Rightarrow> scheduled_kind \<Rightarrow> int \<Rightarrow> int \<Rightarrow> scheduled_item" where
  "effect_item item entity_id storage effect_key instance_id kind due order =
     (work_item due order kind (it_actor_id item) (it_correlation_id item) (it_action_key item))
       \<lparr>it_effect_entity_id := Some entity_id, it_effect_storage_key := Some storage,
        it_expected_effect_key := Some effect_key, it_expected_effect_instance_id := Some instance_id,
        it_continuation_policy := EFFECT_INSTANCE_BOUND\<rparr>"

definition schedule_pulses ::
    "(scheduled_kind \<Rightarrow> int \<Rightarrow> int \<Rightarrow> scheduled_item) \<Rightarrow> action_binding \<Rightarrow> int \<Rightarrow> effect_modifier \<Rightarrow> unit act" where
  "schedule_pulses mk binding due modifier =
     (case modifier of
        PeriodicPulse periodic_key interval_ms tick_count effects \<Rightarrow>
          aeach (\<lambda>i. aschedule (\<lambda>order. (mk EFFECT_PULSE (due + i * interval_ms) order)
            \<lparr>it_binding := Some binding, it_effects := effects, it_periodic_key := Some periodic_key, it_pulse_index := i\<rparr>))
            [1..tick_count]
      | _ \<Rightarrow> areturn ())"

definition effect_blocked :: "scheduled_item \<Rightarrow> string \<Rightarrow> int \<Rightarrow> named_scalar list \<Rightarrow> string list \<Rightarrow> unit act" where
  "effect_blocked item entity_id due scalars tags =
     aemit ''effect_blocked'' due (item_fields item (Some entity_id) scalars tags)"

text \<open>What follows the checks: the new effect, its event, its scheduled pulses and expiry, the stun.\<close>

definition install_effect ::
    "scheduled_item \<Rightarrow> string \<Rightarrow> string \<Rightarrow> string \<Rightarrow> int \<Rightarrow> rat \<Rightarrow> string option \<Rightarrow> string list \<Rightarrow> effect_modifier list \<Rightarrow> int \<Rightarrow> int
     \<Rightarrow> stack_priority \<Rightarrow> bool \<Rightarrow> int \<Rightarrow> effect_outcome act" where
  "install_effect item sid storage effect_key duration_ms magnitude stacking_key tags modifiers stack_order trains priority refreshed due =
     abind aorder (\<lambda>order.
     let instance_id = ''effect-instance:'' @ zero_padded 12 order in
     abind (alift (validated active_effect_ok
       \<lparr>ae_effect_key = effect_key, ae_source_entity_id = it_actor_id item, ae_magnitude = magnitude,
        ae_expires_at_ms = due + duration_ms, ae_instance_id = Some instance_id, ae_stacking_key = stacking_key, ae_tags = set tags,
        ae_modifiers = modifiers, ae_modifier_values = new_modifier_values modifiers, ae_application_order = order,
        ae_stack_order = stack_order, ae_trains = trains, ae_stack_priority = priority\<rparr>)) (\<lambda>active.
     aseq (aupdate sid (put_effect storage active))
     (abind (aentity sid) (\<lambda>s.
     aseq (abind (int_scalars [(''duration_ms'', duration_ms), (''stack_order'', stack_order), (''trains'', trains)]) (\<lambda>scalars.
       aemit ''effect_added'' due (item_fields item (Some (en_entity_id s)) (ns ''magnitude'' magnitude # scalars)
         [''effect.'' @ effect_key, if refreshed then ''outcome.refreshed'' else ''outcome.applied''])))
     (case it_binding item of
        None \<Rightarrow> araise (SimulationConfigurationError ''effect application requires a binding'')
      | Some binding \<Rightarrow>
          let mk = effect_item item (en_entity_id s) storage effect_key instance_id in
          aseq (aeach (schedule_pulses mk binding due) modifiers)
          (aseq (aschedule (mk EFFECT_EXPIRY (due + duration_ms)))
          (aseq (awhen (''control.stun'' \<in> set tags) (ainterrupt (en_entity_id s) ''stun'' due))
          (alift (rbind (float_of_int duration_ms) (\<lambda>duration.
            outcome (if refreshed then REFRESHED else APPLIED) ''ApplyEffect'' (Some (en_entity_id s)) (Some effect_key) duration tags))))))))))"

definition apply_effect ::
    "scheduled_item \<Rightarrow> string \<Rightarrow> int \<Rightarrow> rat \<Rightarrow> string option \<Rightarrow> string list \<Rightarrow> effect_modifier list \<Rightarrow> int \<Rightarrow> int
     \<Rightarrow> stack_priority \<Rightarrow> string list \<Rightarrow> string option \<Rightarrow> int \<Rightarrow> effect_outcome act" where
  "apply_effect item effect_key duration_ms magnitude stacking_key tags modifiers stack_order trains priority immunity_tags subject due =
     (case subject of
        None \<Rightarrow> araise (SimulationConfigurationError ''effect application requires an entity subject'')
      | Some sid \<Rightarrow>
          abind (aentity sid) (\<lambda>s.
          let immunities = set immunity_tags \<union> (if ''control.stun'' \<in> set tags then {''immunity.stun''} else {});
              matching = sorted_list_of_set (immunities \<inter> effective_tags s);
              storage = storage_key stacking_key effect_key;
              install = (\<lambda>refreshed. install_effect item sid storage effect_key duration_ms magnitude stacking_key tags modifiers
                           stack_order trains priority refreshed due)
          in if matching \<noteq> [] then
            aseq (effect_blocked item (en_entity_id s) due [] ([''effect.'' @ effect_key, ''reason.immune''] @ matching))
            (alift (outcome BLOCKED_IMMUNITY ''ApplyEffect'' (Some (en_entity_id s)) (Some effect_key) 0 matching))
          else case map_of (en_effects s) storage of
            None \<Rightarrow> install False
          | Some existing \<Rightarrow>
              let refreshed = (ae_effect_key existing = effect_key) in
              abind (alift (should_overwrite_effect stack_order (ae_stack_order existing) trains (ae_trains existing) priority refreshed)) (\<lambda>overwrite.
              if \<not> overwrite then
                aseq (abind (int_scalars [(''incoming_stack_order'', stack_order), (''existing_stack_order'', ae_stack_order existing),
                   (''incoming_trains'', trains), (''existing_trains'', ae_trains existing)]) (\<lambda>scalars.
                  effect_blocked item (en_entity_id s) due scalars [''effect.'' @ effect_key, ''reason.stack_priority'']))
                (alift (outcome BLOCKED_STACK ''ApplyEffect'' (Some (en_entity_id s)) (Some effect_key) 0
                  [''incumbent.'' @ ae_effect_key existing]))
              else aseq (effect_removed sid existing due item ''reason.replaced'' []) (install refreshed))))"

text \<open>Removal without a limit goes by storage key; with a limit, the newest matching effects go first.\<close>

definition removal_keys :: "string option \<Rightarrow> string option \<Rightarrow> int option \<Rightarrow> entity_state \<Rightarrow> string list" where
  "removal_keys effect_key matching_tag maximum_count s =
     (let matching = filter (\<lambda>(k, active). effect_key = Some (ae_effect_key active)
            \<or> (case matching_tag of None \<Rightarrow> False | Some t \<Rightarrow> t \<in> ae_tags active)) (en_effects s)
      in case maximum_count of
           None \<Rightarrow> sort (map fst matching)
         | Some n \<Rightarrow> map fst (take (nat n) (rev (sort_key (\<lambda>(k, active). (ae_application_order active, k)) matching))))"

definition remove_one :: "scheduled_item \<Rightarrow> string \<Rightarrow> int \<Rightarrow> string \<Rightarrow> unit act" where
  "remove_one item subject due storage =
     abind (aentity subject) (\<lambda>s.
     case map_of (en_effects s) storage of
       None \<Rightarrow> araise (KeyError storage)
     | Some active \<Rightarrow> aseq (aupdate subject (pop_effect storage)) (effect_removed subject active due item ''reason.removed'' []))"

definition remove_effect :: "scheduled_item \<Rightarrow> string option \<Rightarrow> string option \<Rightarrow> int option \<Rightarrow> string option \<Rightarrow> int \<Rightarrow> unit act" where
  "remove_effect item effect_key matching_tag maximum_count subject due =
     (case subject of
        None \<Rightarrow> araise (SimulationConfigurationError ''effect removal requires an entity subject'')
      | Some sid \<Rightarrow> abind (aentity sid) (\<lambda>s.
          aeach (remove_one item sid due) (removal_keys effect_key matching_tag maximum_count s)))"

subsection \<open>Movement\<close>

definition vector_between :: "vector2 \<Rightarrow> vector2 \<Rightarrow> vector2" where
  "vector_between from_point to_point = \<lparr>vx = f64 (vx to_point - vx from_point), vy = f64 (vy to_point - vy from_point)\<rparr>"

definition movement_normalized :: "float_lib \<Rightarrow> vector2 \<Rightarrow> vector2 result" where
  "movement_normalized fl v =
     (case fl_hypot fl v \<lparr>vx = 0, vy = 0\<rparr> of
        None \<Rightarrow> Inr \<lparr>vx = 0, vy = 0\<rparr>
      | Some len \<Rightarrow>
          if len = 0 then Inl (SimulationConfigurationError ''movement direction must not be zero'')
          else Inr \<lparr>vx = f64 (vx v / len), vy = f64 (vy v / len)\<rparr>)"

definition movement_vector :: "movement_mode \<Rightarrow> vector2 \<Rightarrow> vector2 \<Rightarrow> vector2 \<Rightarrow> vector2" where
  "movement_vector mode actor target subject =
     (case mode of
        PUSH \<Rightarrow> vector_between actor target
      | PULL \<Rightarrow> vector_between target actor
      | WALK_AWAY \<Rightarrow>
          let direction = vector_between target subject
          in if vx direction = 0 \<and> vy direction = 0 then \<lparr>vx = 1, vy = 0\<rparr> else direction
      | _ \<Rightarrow> vector_between subject target)"

definition movement_direction :: "float_lib \<Rightarrow> action_binding \<Rightarrow> movement_mode \<Rightarrow> entity_state \<Rightarrow> vector2 act" where
  "movement_direction fl binding mode subject =
     abind (case ab_direction binding of
         Some d \<Rightarrow> areturn d
       | None \<Rightarrow>
           (case ab_target_entity_id binding of
              None \<Rightarrow> araise (SimulationConfigurationError ''movement requires a direction or entity target'')
            | Some target_id \<Rightarrow>
                abind (executor_entity (ab_actor_id binding)) (\<lambda>actor.
                abind (executor_entity target_id) (\<lambda>target.
                areturn (movement_vector mode (en_position actor) (en_position target) (en_position subject))))))
       (\<lambda>direction. alift (movement_normalized fl direction))"

definition movement_distance :: "scheduled_item \<Rightarrow> entity_state \<Rightarrow> rat option \<Rightarrow> rat result" where
  "movement_distance item s distance =
     (case distance of
        Some d \<Rightarrow> Inr d
      | None \<Rightarrow>
          rbind (if map_of (en_scalars s) ''move_speed'' = None then Inr 0 else effective_scalar f64 s ''move_speed'') (\<lambda>speed.
          rbind (float_of_int (it_phase_duration_ms item)) (\<lambda>duration. Inr (f64 (f64 (speed * duration) / 1000)))))"

definition moved_to :: "vector2 \<Rightarrow> vector2 \<Rightarrow> rat \<Rightarrow> vector2" where
  "moved_to position direction distance =
     \<lparr>vx = f64 (vx position + f64 (vx direction * distance)), vy = f64 (vy position + f64 (vy direction * distance))\<rparr>"

fun movement_mode_value :: "movement_mode \<Rightarrow> string" where
  "movement_mode_value WALK = ''walk''"
| "movement_mode_value WALK_AWAY = ''walk_away''"
| "movement_mode_value TELEPORT = ''teleport''"
| "movement_mode_value PUSH = ''push''"
| "movement_mode_value PULL = ''pull''"

definition move_entity :: "float_lib \<Rightarrow> scheduled_item \<Rightarrow> movement_mode \<Rightarrow> rat option \<Rightarrow> string option \<Rightarrow> int \<Rightarrow> unit act" where
  "move_entity fl item mode distance subject due =
     (case (subject, it_binding item) of
        (Some sid, Some binding) \<Rightarrow>
          abind (aentity sid) (\<lambda>s.
          abind (if mode = TELEPORT
                 then (case ab_position binding of
                         None \<Rightarrow> araise (SimulationConfigurationError ''teleport movement requires a bound position'')
                       | Some position \<Rightarrow> areturn position)
                 else abind (movement_direction fl binding mode s) (\<lambda>direction.
                   abind (alift (movement_distance item s distance)) (\<lambda>d.
                   areturn (moved_to (en_position s) direction d)))) (\<lambda>after.
          aseq (aupdate sid (\<lambda>e. e\<lparr>en_position := after\<rparr>))
          (aemit ''movement_changed'' due (item_fields item (Some (en_entity_id s))
            [ns ''from_x'' (vx (en_position s)), ns ''from_y'' (vy (en_position s)), ns ''to_x'' (vx after), ns ''to_y'' (vy after)]
            [''movement.'' @ movement_mode_value mode]))))
      | _ \<Rightarrow> araise (SimulationConfigurationError ''movement requires an entity and binding''))"

subsection \<open>Direct effects and their outcomes\<close>

text \<open>A scalar, a tag, ... of the subject, or a default when there is none.\<close>

definition of_subject :: "string option \<Rightarrow> (entity_state \<Rightarrow> 'a) \<Rightarrow> 'a \<Rightarrow> 'a act" where
  "of_subject subject f d = (case subject of None \<Rightarrow> areturn d | Some sid \<Rightarrow> abind (aentity sid) (\<lambda>s. areturn (f s)))"

definition changed :: "bool \<Rightarrow> effect_outcome_kind" where
  "changed b = (if b then APPLIED else NO_CHANGE)"

definition moved_distance :: "float_lib \<Rightarrow> vector2 \<Rightarrow> vector2 \<Rightarrow> rat result" where
  "moved_distance fl before after =
     (case fl_hypot fl after before of None \<Rightarrow> Inl (ValueError ''magnitude must be finite'') | Some d \<Rightarrow> Inr d)"

text \<open>Transfers have two ends and need both alive.\<close>

definition between_living ::
    "action_binding \<Rightarrow> subject_ref \<Rightarrow> subject_ref \<Rightarrow> string set \<Rightarrow> string \<Rightarrow> (string \<Rightarrow> string \<Rightarrow> effect_outcome act) \<Rightarrow> effect_outcome act" where
  "between_living binding from_subject to_subject eligible kind f =
     abind (aget (\<lambda>env. (entity_for_ref from_subject binding env, entity_for_ref to_subject binding env))) (\<lambda>ends.
     let dead = alift (outcome NO_CHANGE kind None None 0 [''reason.transfer_endpoint_not_alive'']) in
     case ends of
       (Some source, Some destination) \<Rightarrow>
         abind (aentity source) (\<lambda>s.
         abind (aentity destination) (\<lambda>d.
         if en_entity_id s \<notin> eligible \<or> en_entity_id d \<notin> eligible then dead else f source destination))
     | _ \<Rightarrow> dead)"

fun run_direct :: "float_lib \<Rightarrow> scheduled_item \<Rightarrow> action_binding \<Rightarrow> string option \<Rightarrow> string option \<Rightarrow> int \<Rightarrow> string set \<Rightarrow> effect_primitive
    \<Rightarrow> effect_outcome act" where
  "run_direct fl item binding subject sname due eligible (DealDamage ref amount damage_type uses_resistance power_trains source_key) =
     abind (deal_damage fl item amount damage_type uses_resistance power_trains source_key subject due) (\<lambda>resolution.
     alift (outcome (if effective_damage resolution > 0 then APPLIED else RESISTED) ''DealDamage'' sname None (effective_damage resolution) []))"
| "run_direct fl item binding subject sname due eligible (RestoreResource ref key amount uses_resistance power_trains resistance) =
     abind (of_subject subject (\<lambda>s. scalar_get s key 0) 0) (\<lambda>before.
     aseq (restore_resource item key amount uses_resistance power_trains resistance subject due)
     (abind (of_subject subject (\<lambda>s. scalar_get s key 0) before) (\<lambda>after.
     let gain = max 0 (f64 (after - before)) in
     alift (outcome (changed (gain > 0)) ''RestoreResource'' sname None gain []))))"
| "run_direct fl item binding subject sname due eligible (TransferResource from_subject to_subject key amount efficiency) =
     between_living binding from_subject to_subject eligible ''TransferResource'' (\<lambda>source destination.
     abind (of_subject (Some source) (\<lambda>s. scalar_get s key 0) 0) (\<lambda>before1.
     abind (of_subject (Some destination) (\<lambda>s. scalar_get s key 0) 0) (\<lambda>before2.
     aseq (transfer_resource item from_subject to_subject key amount efficiency due)
     (abind (of_subject (Some source) (\<lambda>s. scalar_get s key 0) 0) (\<lambda>after1.
     abind (aentity destination) (\<lambda>d.
     alift (outcome (changed ((after1, scalar_get d key 0) \<noteq> (before1, before2))) ''TransferResource''
       (Some (en_entity_id d)) None (max 0 (f64 (before1 - after1))) [])))))))"
| "run_direct fl item binding subject sname due eligible (ModifyScalar ref key operation amount) =
     abind (of_subject subject (\<lambda>s. scalar_get s key 0) 0) (\<lambda>before.
     aseq (modify_scalar item key operation amount subject due)
     (abind (of_subject subject (\<lambda>s. scalar_get s key 0) before) (\<lambda>after.
     alift (outcome (changed (after \<noteq> before)) ''ModifyScalar'' sname (Some key) (f64 (after - before)) []))))"
| "run_direct fl item binding subject sname due eligible (ModifyTag ref tag operation) =
     abind (of_subject subject (\<lambda>s. tag \<in> en_tags s) False) (\<lambda>before.
     aseq (modify_tag item tag operation subject due)
     (abind (of_subject subject (\<lambda>s. tag \<in> en_tags s) before) (\<lambda>after.
     alift (outcome (changed (after \<noteq> before)) ''ModifyTag'' sname (Some tag) 0 []))))"
| "run_direct fl item binding subject sname due eligible
      (ApplyEffect ref effect_key duration_ms magnitude stacking_key tags modifiers stack_order trains priority immunity_tags) =
     apply_effect item effect_key duration_ms magnitude stacking_key tags modifiers stack_order trains priority immunity_tags subject due"
| "run_direct fl item binding subject sname due eligible (RemoveEffect ref effect_key matching_tag maximum_count) =
     abind (of_subject subject (\<lambda>s. length (en_effects s)) 0) (\<lambda>before.
     aseq (remove_effect item effect_key matching_tag maximum_count subject due)
     (abind (of_subject subject (\<lambda>s. length (en_effects s)) before) (\<lambda>after.
     alift (outcome (changed (after < before)) ''RemoveEffect'' sname (or_text effect_key matching_tag)
       (of_int (int before - int after)) []))))"
| "run_direct fl item binding subject sname due eligible (MoveEntity ref mode distance) =
     abind (of_subject subject (\<lambda>s. Some (en_position s)) None) (\<lambda>before.
     aseq (move_entity fl item mode distance subject due)
     (abind (of_subject subject (\<lambda>s. Some (en_position s)) before) (\<lambda>after.
     abind (case (before, after) of
         (Some b, Some a) \<Rightarrow> alift (moved_distance fl b a)
       | _ \<Rightarrow> areturn 0) (\<lambda>moved.
     alift (outcome (changed (moved > 0)) ''MoveEntity'' sname None moved [])))))"
| "run_direct fl item binding subject sname due eligible (TransferItem from_subject to_subject item_id0 quantity) =
     between_living binding from_subject to_subject eligible ''TransferItem'' (\<lambda>source destination.
     let item_id = or_text item_id0 (ab_item_id binding);
         held = (\<lambda>s. case item_id of None \<Rightarrow> 0 | Some i \<Rightarrow> inventory_get s i)
     in abind (of_subject (Some source) held 0) (\<lambda>before1.
     abind (of_subject (Some destination) held 0) (\<lambda>before2.
     aseq (transfer_item item from_subject to_subject item_id0 quantity due)
     (abind (of_subject (Some source) held 0) (\<lambda>after1.
     abind (aentity destination) (\<lambda>d.
     alift (outcome (changed ((after1, held d) \<noteq> (before1, before2))) ''TransferItem'' (Some (en_entity_id d)) item_id
       (max 0 (f64 (before1 - after1))) [])))))))"
| "run_direct fl item binding subject sname due eligible (ModifyObjective ref delta) =
     abind (of_subject subject (\<lambda>s. scalar_get s ''objective_progress'' 0) 0) (\<lambda>before.
     aseq (modify_objective item delta subject due)
     (abind (of_subject subject (\<lambda>s. scalar_get s ''objective_progress'' 0) before) (\<lambda>after.
     alift (outcome (changed (after \<noteq> before)) ''ModifyObjective'' sname (Some ''objective_progress'') (f64 (after - before)) []))))"
| "run_direct fl item binding subject sname due eligible (ChangeStance ref stance) =
     abind (of_subject subject (\<lambda>s. Some (en_stance s)) None) (\<lambda>before.
     aseq (change_stance item stance subject due)
     (abind (of_subject subject (\<lambda>s. Some (en_stance s)) before) (\<lambda>after.
     alift (outcome (changed (after \<noteq> before)) ''ChangeStance'' sname (Some (combat_stance_value stance)) 0 []))))"
| "run_direct fl item binding subject sname due eligible effect =
     araise (SimulationConfigurationError (''unsupported direct effect primitive: '' @ primitive_kind effect))"

definition resolve_direct :: "float_lib \<Rightarrow> scheduled_item \<Rightarrow> int \<Rightarrow> string set \<Rightarrow> effect_primitive \<Rightarrow> effect_outcome act" where
  "resolve_direct fl item due eligible effect =
     (case it_binding item of
        None \<Rightarrow> araise (SimulationConfigurationError ''resolution is missing its action binding'')
      | Some binding \<Rightarrow>
          abind (aget (subject_entity effect binding)) (\<lambda>subject.
          abind (of_subject subject (\<lambda>s. Some (en_entity_id s)) None) (\<lambda>sname.
          if (case sname of None \<Rightarrow> False | Some n \<Rightarrow> n \<notin> eligible)
          then alift (outcome NO_CHANGE (primitive_kind effect) sname None 0 [''reason.subject_not_alive''])
          else run_direct fl item binding subject sname due eligible effect)))"

definition resolve_directs :: "float_lib \<Rightarrow> scheduled_item \<Rightarrow> int \<Rightarrow> string set \<Rightarrow> effect_primitive list \<Rightarrow> unit act" where
  "resolve_directs fl item due eligible =
     aeach (\<lambda>effect. abind (resolve_direct fl item due eligible effect) (\<lambda>_. areturn ()))"

subsection \<open>Conditionals and chance gates\<close>

definition resolve_outcome_conditional ::
    "float_lib \<Rightarrow> scheduled_item \<Rightarrow> int \<Rightarrow> string set \<Rightarrow> string \<Rightarrow> effect_primitive \<Rightarrow> effect_outcome_kind list \<Rightarrow> effect_primitive list
     \<Rightarrow> effect_primitive list \<Rightarrow> unit act" where
  "resolve_outcome_conditional fl item due eligible key condition outcomes effects else_effects =
     abind (resolve_direct fl item due eligible condition) (\<lambda>result.
     let matched = oc_kind result \<in> set outcomes in
     aseq (aemit ''effect_outcome_resolved'' due (item_fields item (oc_subject_entity_id result)
       [ns ''outcome_magnitude'' (oc_magnitude result)]
       [''conditional.'' @ key, ''outcome.'' @ effect_outcome_kind_value (oc_kind result),
        if matched then ''branch.effects'' else ''branch.else_effects'']))
     (resolve_directs fl item due eligible (if matched then effects else else_effects)))"

text \<open>The last two branches of every dispatch: a conditional or a direct effect.\<close>

definition resolve_simple :: "float_lib \<Rightarrow> scheduled_item \<Rightarrow> int \<Rightarrow> string set \<Rightarrow> effect_primitive \<Rightarrow> unit act" where
  "resolve_simple fl item due eligible effect =
     (case effect of
        OutcomeConditional key condition outcomes effects else_effects \<Rightarrow>
          resolve_outcome_conditional fl item due eligible key condition outcomes effects else_effects
      | _ \<Rightarrow> abind (resolve_direct fl item due eligible effect) (\<lambda>_. areturn ()))"

definition resolve_chance :: "float_lib \<Rightarrow> scheduled_item \<Rightarrow> int \<Rightarrow> string set \<Rightarrow> string \<Rightarrow> rat \<Rightarrow> effect_primitive list \<Rightarrow> unit act" where
  "resolve_chance fl item due eligible key probability effects =
     (case it_binding item of
        None \<Rightarrow> araise (SimulationConfigurationError ''chance resolution is missing its action binding'')
      | Some binding \<Rightarrow>
          abind arandom (\<lambda>roll.
          let triggered = roll < probability in
          aseq (aemit ''chance_resolved'' due (item_fields item (ab_target_entity_id binding)
            [ns ''probability'' probability, ns ''roll'' roll, ns ''triggered'' (of_bool01 triggered)]
            [''chance.'' @ key, if triggered then ''outcome.triggered'' else ''outcome.not_triggered'']))
          (awhen triggered (aeach (resolve_simple fl item due eligible) effects))))"

text \<open>A chance gate, a conditional or a direct effect.\<close>

definition resolve_gated :: "float_lib \<Rightarrow> scheduled_item \<Rightarrow> int \<Rightarrow> string set \<Rightarrow> effect_primitive \<Rightarrow> unit act" where
  "resolve_gated fl item due eligible effect =
     (case effect of
        ChanceGate key probability effects \<Rightarrow> resolve_chance fl item due eligible key probability effects
      | _ \<Rightarrow> resolve_simple fl item due eligible effect)"

subsection \<open>Armed triggers\<close>

record trigger_context =
  tc_storage_key :: string
  tc_active :: active_effect
  tc_trigger :: action_trigger_spec

fun trigger_moment_value :: "trigger_moment \<Rightarrow> string" where
  "trigger_moment_value ON_ACTION_START = ''action_start''"
| "trigger_moment_value ON_ATTEMPT = ''attempt''"
| "trigger_moment_value ON_HIT = ''hit''"
| "trigger_moment_value ON_DAMAGE = ''damage''"

fun trigger_consumption_value :: "trigger_consumption \<Rightarrow> string" where
  "trigger_consumption_value CONSUME_ACTION_START = ''action_start''"
| "trigger_consumption_value CONSUME_ATTEMPT = ''attempt''"
| "trigger_consumption_value CONSUME_HIT = ''hit''"
| "trigger_consumption_value CONSUME_DAMAGE = ''damage''"
| "trigger_consumption_value CONSUME_NEVER = ''never''"

definition matching_trigger_contexts :: "action_catalog \<Rightarrow> entity_state \<Rightarrow> string \<Rightarrow> string set \<Rightarrow> trigger_context list" where
  "matching_trigger_contexts catalog actor action_key action_tags =
     concat (map (\<lambda>(storage, active).
       case trigger_for_effect catalog (ae_effect_key active) of
         None \<Rightarrow> []
       | Some trigger \<Rightarrow>
           if trigger_matches trigger action_key action_tags
           then [\<lparr>tc_storage_key = storage, tc_active = active, tc_trigger = trigger\<rparr>] else [])
       (sort_key fst (en_effects actor)))"

text \<open>One trigger that fires at this moment: the roll, its events and, if it fires, its payload, which is resolved by
  \<open>resolve_item\<close> as an item of its own.\<close>

definition trigger_target :: "scheduled_item \<Rightarrow> string option" where
  "trigger_target item = (case it_binding item of None \<Rightarrow> None | Some b \<Rightarrow> ab_target_entity_id b)"

definition trigger_item :: "scheduled_item \<Rightarrow> action_trigger_spec \<Rightarrow> int \<Rightarrow> scheduled_item" where
  "trigger_item item trigger due =
     (work_item due (it_order item) RESOLUTION (it_actor_id item) (it_correlation_id item) (it_action_key item))
       \<lparr>it_binding := it_binding item, it_phase_duration_ms := it_phase_duration_ms item, it_effects := at_payload trigger,
        it_trigger_key := Some (at_trigger_key trigger)\<rparr>"

definition check_trigger ::
    "(scheduled_item \<Rightarrow> unit act) \<Rightarrow> string \<Rightarrow> scheduled_item \<Rightarrow> int \<Rightarrow> trigger_moment \<Rightarrow> action_trigger_spec \<Rightarrow> bool act" where
  "check_trigger resolve_item actor_id item due moment trigger =
     abind (aentity actor_id) (\<lambda>actor.
     abind (chance_roll (at_chance trigger)) (\<lambda>(roll, fired).
     let fs = (item_fields item (trigger_target item) [] [])\<lparr>ef_source_entity_id := Some (en_entity_id actor)\<rparr>;
         names = [''trigger.'' @ at_trigger_key trigger, ''moment.'' @ trigger_moment_value moment]
     in aseq (aemit ''trigger_checked'' due
       (fs\<lparr>ef_scalars := [ns ''chance'' (at_chance trigger), ns ''roll'' roll],
           ef_tags := names @ [if fired then ''result.fired'' else ''result.not_fired'']\<rparr>))
     (aseq (awhen fired
       (aseq (aemit ''trigger_fired'' due (fs\<lparr>ef_tags := py_unique (names @ at_tags trigger)\<rparr>))
       (awhen (at_payload trigger \<noteq> [])
         (if it_binding item = None
          then araise (SimulationConfigurationError ''trigger payload requires the qualifying action binding'')
          else abind (alift (scheduled_item_make (trigger_item item trigger due))) resolve_item))))
     (areturn fired))))"

definition consume_armed :: "string \<Rightarrow> scheduled_item \<Rightarrow> int \<Rightarrow> trigger_context \<Rightarrow> unit act" where
  "consume_armed actor_id item due c =
     abind (aentity actor_id) (\<lambda>actor.
     case map_of (en_effects actor) (tc_storage_key c) of
       None \<Rightarrow> areturn ()
     | Some current \<Rightarrow>
         awhen (ae_instance_id current = ae_instance_id (tc_active c))
           (aseq (aupdate actor_id (pop_effect (tc_storage_key c)))
             (effect_removed actor_id (tc_active c) due item ''reason.trigger_consumed'' [])))"

fun resolve_trigger_moment ::
    "(scheduled_item \<Rightarrow> unit act) \<Rightarrow> trigger_context list \<Rightarrow> trigger_moment \<Rightarrow> string \<Rightarrow> scheduled_item \<Rightarrow> int \<Rightarrow> trigger_context list act" where
  "resolve_trigger_moment resolve_item [] moment actor_id item due = areturn []"
| "resolve_trigger_moment resolve_item (c # cs) moment actor_id item due =
     abind (if at_fire_on (tc_trigger c) = moment
            then check_trigger resolve_item actor_id item due moment (tc_trigger c) else areturn False) (\<lambda>fired.
     aseq (awhen (trigger_consumption_value (at_consume_on (tc_trigger c)) = trigger_moment_value moment)
       (consume_armed actor_id item due c))
     (abind (resolve_trigger_moment resolve_item cs moment actor_id item due) (\<lambda>rest.
     areturn (if fired then c # rest else rest))))"

definition attack_modifiers :: "trigger_context list \<Rightarrow> attack_modifier_spec list" where
  "attack_modifiers contexts =
     concat (map (\<lambda>c. case at_attack_modifier (tc_trigger c) of None \<Rightarrow> [] | Some m \<Rightarrow> [m]) contexts)"

definition multiplied :: "attack_modifier_spec list \<Rightarrow> rat" where
  "multiplied modifiers = fold (\<lambda>m f. f64 (f * am_damage_multiplier m)) modifiers 1"

subsection \<open>Attack gates\<close>

fun attack_kind_value :: "attack_kind \<Rightarrow> string" where
  "attack_kind_value BASIC = ''basic''"
| "attack_kind_value POWER = ''power''"

fun resolve_passive_defenses ::
    "scheduled_item \<Rightarrow> string \<Rightarrow> string \<Rightarrow> int \<Rightarrow> string list \<Rightarrow> bool act" where
  "resolve_passive_defenses item actor_id target_id due [] = areturn False"
| "resolve_passive_defenses item actor_id target_id due (key # keys) =
     abind (aentity target_id) (\<lambda>target.
     abind (aentity actor_id) (\<lambda>actor.
     abind (alift (required_scalar target key)) (\<lambda>raw.
     let chance = min 75 raw in
     if chance < 0
     then araise (SimulationConfigurationError (''entity '' @ en_entity_id target @ '' scalar '' @ key @ '' must not be negative''))
     else abind (arandbelow 100) (\<lambda>roll.
       let triggered = of_int roll < chance in
       aseq (aemit ''passive_defense_resolved'' due
         ((item_fields item (Some (en_entity_id actor))
            [ns ''chance_percent'' chance, ns ''roll'' (of_int roll), ns ''triggered'' (of_bool01 triggered)]
            [''passive.'' @ key, if triggered then ''outcome.triggered'' else ''outcome.not_triggered''])
           \<lparr>ef_source_entity_id := Some (en_entity_id target)\<rparr>))
       (if triggered then areturn True else resolve_passive_defenses item actor_id target_id due keys)))))"

text \<open>A damaging effect inside the gate is scaled by the modifiers that fired.\<close>

definition scaled_effect :: "rat \<Rightarrow> effect_primitive \<Rightarrow> effect_primitive result" where
  "scaled_effect multiplier effect =
     (case effect of
        DealDamage ref amount damage_type uses_resistance power_trains source_key \<Rightarrow>
          if multiplier = 1 then Inr effect
          else rbind (scaled_amount amount multiplier) (\<lambda>scaled.
            validated effect_ok (DealDamage ref scaled damage_type uses_resistance power_trains source_key))
      | _ \<Rightarrow> Inr effect)"

definition base_damage_type :: "effect_primitive list \<Rightarrow> string option" where
  "base_damage_type effects =
     (case concat (map (\<lambda>e. case e of DealDamage ref a t u p k \<Rightarrow> [damage_type_value t] | _ \<Rightarrow> []) effects) of
        [] \<Rightarrow> None
      | t # ts \<Rightarrow> Some t)"

definition bonus_damage :: "float_lib \<Rightarrow> scheduled_item \<Rightarrow> string \<Rightarrow> int \<Rightarrow> effect_primitive list \<Rightarrow> attack_modifier_spec \<Rightarrow> unit act" where
  "bonus_damage fl item target_id due effects m =
     (if am_bonus_damage_maximum m \<le> 0 then areturn ()
      else abind (auniform (am_bonus_damage_minimum m) (am_bonus_damage_maximum m)) (\<lambda>bonus.
        case (case am_damage_type_override m of Some t \<Rightarrow> Some t | None \<Rightarrow> base_damage_type effects) of
          None \<Rightarrow> araise (SimulationConfigurationError ''bonus attack damage requires a typed base-damage effect or override'')
        | Some name \<Rightarrow>
            (case damage_type_of name of
               None \<Rightarrow> araise (ValueError ''damage_type must be a DamageType'')
             | Some damage_type \<Rightarrow>
                 let amount = FixedAmount (max bonus (f64 (1 / 10 ^ 12))) in
                 abind (alift (effect_ok (DealDamage SUBJECT_TARGET amount damage_type True 0 (Some ''weapon_power.attack_modifier'')))) (\<lambda>_.
                 abind (deal_damage fl item amount damage_type True 0 (Some ''weapon_power.attack_modifier'') (Some target_id) due) (\<lambda>_.
                 areturn ())))))"

definition attack_chance :: "attack_kind \<Rightarrow> bool \<Rightarrow> rat \<Rightarrow> rat \<Rightarrow> int result" where
  "attack_chance kind bypass attack defense =
     (if bypass then Inr 100
      else if kind = BASIC then melee_hit_chance_percent attack defense
      else power_hit_chance_percent attack defense)"

text \<open>After the hit: the travel stance drops, the effects and the bonus damage are resolved, and the triggers of the hit
  and, if health was lost, of the damage.\<close>

definition attack_hits ::
    "float_lib \<Rightarrow> (scheduled_item \<Rightarrow> unit act) \<Rightarrow> scheduled_item \<Rightarrow> int \<Rightarrow> string set \<Rightarrow> string \<Rightarrow> string \<Rightarrow> trigger_context list
     \<Rightarrow> attack_modifier_spec list \<Rightarrow> effect_primitive list \<Rightarrow> unit act" where
  "attack_hits fl resolve_item item due eligible actor_id target_id contexts modifiers effects =
     aseq (drop_travel_stance item target_id due ''hit'')
     (abind (of_subject (Some target_id) (\<lambda>t. scalar_get t ''health'' 0) 0) (\<lambda>before_health.
     aseq (aeach (\<lambda>nested. abind (alift (scaled_effect (multiplied modifiers) nested)) (resolve_gated fl item due eligible)) effects)
     (aseq (aeach (bonus_damage fl item target_id due effects) modifiers)
     (abind (resolve_trigger_moment resolve_item contexts ON_HIT actor_id item due) (\<lambda>_.
     abind (of_subject (Some target_id) (\<lambda>t. scalar_get t ''health'' 0) 0) (\<lambda>health.
     awhen (health < before_health)
       (abind (resolve_trigger_moment resolve_item contexts ON_DAMAGE actor_id item due) (\<lambda>_. areturn ()))))))))"

definition resolve_attack ::
    "float_lib \<Rightarrow> (scheduled_item \<Rightarrow> unit act) \<Rightarrow> scheduled_item \<Rightarrow> int \<Rightarrow> string set \<Rightarrow> string \<Rightarrow> attack_kind \<Rightarrow> string \<Rightarrow> string
     \<Rightarrow> effect_primitive list \<Rightarrow> string list \<Rightarrow> unit act" where
  "resolve_attack fl resolve_item item due eligible attack_key kind attack_rating_key defense_rating_key effects passive_keys =
     (case (case it_binding item of None \<Rightarrow> None | Some b \<Rightarrow> ab_target_entity_id b) of
        None \<Rightarrow> araise (SimulationConfigurationError ''attack resolution requires an entity target'')
      | Some target_id \<Rightarrow>
          let actor_id = it_actor_id item in
          abind (executor_entity actor_id) (\<lambda>actor0.
          abind (executor_entity target_id) (\<lambda>target0.
          if en_entity_id actor0 \<notin> eligible \<or> en_entity_id target0 \<notin> eligible then areturn ()
          else
          abind (aget env_catalog) (\<lambda>catalog.
          abind (alift (catalog_get catalog (it_action_key item))) (\<lambda>action.
          let contexts = matching_trigger_contexts catalog actor0 (it_action_key item) (set (ac_tags action)) in
          abind (resolve_trigger_moment resolve_item contexts ON_ATTEMPT actor_id item due) (\<lambda>fired.
          let modifiers = attack_modifiers fired; bypass = list_ex am_bypass_defense modifiers in
          abind (aentity actor_id) (\<lambda>actor.
          abind (alift (required_scalar actor attack_rating_key)) (\<lambda>base_rating.
          let attack_rating = f64 (base_rating + fl_sum fl (map am_attack_rating_bonus modifiers)) in
          abind (aentity target_id) (\<lambda>target.
          abind (alift (required_scalar target defense_rating_key)) (\<lambda>defense_rating.
          abind (alift (attack_chance kind bypass attack_rating defense_rating)) (\<lambda>chance.
          abind (arandbelow 100) (\<lambda>roll.
          let hit = roll < chance in
          aseq (aemit ''attack_resolved'' due (item_fields item (Some (en_entity_id target))
            [ns ''attack_rating'' attack_rating, ns ''defense_rating'' defense_rating, ns ''chance_percent'' (of_int chance),
             ns ''roll'' (of_int roll), ns ''hit'' (of_bool01 hit)]
            [''attack.'' @ attack_kind_value kind, ''attack.'' @ attack_key, if hit then ''outcome.hit'' else ''outcome.miss'']))
          (awhen hit
            (abind (if ''combat.ignore_passive_defense'' \<notin> effective_tags actor \<and> ''control.stun'' \<notin> effective_tags target
                       \<and> \<not> list_ex am_bypass_passive_defense modifiers
                    then resolve_passive_defenses item actor_id target_id due passive_keys else areturn False) (\<lambda>defended.
             awhen (\<not> defended)
               (attack_hits fl resolve_item item due eligible actor_id target_id contexts modifiers effects))))))))))))))))"

subsection \<open>Areas and whole items\<close>

definition area_center :: "area_origin \<Rightarrow> action_binding \<Rightarrow> vector2 act" where
  "area_center origin binding =
     (if origin = ORIGIN_ACTOR then abind (executor_entity (ab_actor_id binding)) (\<lambda>e. areturn (en_position e))
      else case ab_position binding of
        Some position \<Rightarrow> areturn position
      | None \<Rightarrow>
          (case ab_target_entity_id binding of
             Some t \<Rightarrow> abind (executor_entity t) (\<lambda>e. areturn (en_position e))
           | None \<Rightarrow> araise (SimulationConfigurationError ''target-area effect is missing a bound origin'')))"

definition area_targets ::
    "float_lib \<Rightarrow> entity_state \<Rightarrow> vector2 \<Rightarrow> rat \<Rightarrow> relation list \<Rightarrow> int option \<Rightarrow> string set \<Rightarrow> environment \<Rightarrow> string list" where
  "area_targets fl actor center radius relations maximum_targets eligible env =
     (let near = concat (map (\<lambda>(k, e). case fl_hypot fl (en_position e) center of
              None \<Rightarrow> []
            | Some d \<Rightarrow> if en_entity_id e \<in> eligible \<and> entity_relation actor e \<in> set relations \<and> d \<le> radius
                        then [(d, en_entity_id e)] else []) (env_entities env));
          ordered = map snd (sort near)
      in case maximum_targets of None \<Rightarrow> ordered | Some n \<Rightarrow> take (nat n) ordered)"

definition resolve_nested :: "float_lib \<Rightarrow> (scheduled_item \<Rightarrow> unit act) \<Rightarrow> int \<Rightarrow> string set \<Rightarrow> scheduled_item \<Rightarrow> effect_primitive \<Rightarrow> unit act" where
  "resolve_nested fl resolve_item due eligible item effect =
     (case effect of
        AttackGate attack_key kind attack_rating_key defense_rating_key effects passive_keys \<Rightarrow>
          resolve_attack fl resolve_item item due eligible attack_key kind attack_rating_key defense_rating_key effects passive_keys
      | _ \<Rightarrow> resolve_gated fl item due eligible effect)"

definition entity_binding :: "string \<Rightarrow> string \<Rightarrow> action_binding" where
  "entity_binding actor_id target_id =
     \<lparr>ab_actor_id = actor_id, ab_target_kind = TK_ENTITY, ab_target_entity_id = Some target_id, ab_position = None,
      ab_direction = None, ab_quantity = None, ab_item_id = None, ab_objective_id = None\<rparr>"

definition resolve_area ::
    "float_lib \<Rightarrow> (scheduled_item \<Rightarrow> unit act) \<Rightarrow> int \<Rightarrow> string set \<Rightarrow> scheduled_item \<Rightarrow> area_origin \<Rightarrow> rat \<Rightarrow> relation list
     \<Rightarrow> effect_primitive list \<Rightarrow> int option \<Rightarrow> unit act" where
  "resolve_area fl resolve_item due eligible item origin radius relations effects maximum_targets =
     (case it_binding item of
        None \<Rightarrow> araise (SimulationConfigurationError ''area resolution requires an action binding'')
      | Some binding \<Rightarrow>
          abind (executor_entity (it_actor_id item)) (\<lambda>actor.
          if en_entity_id actor \<notin> eligible then areturn ()
          else
          abind (area_center origin binding) (\<lambda>center.
          abind (aget (area_targets fl actor center radius relations maximum_targets eligible)) (\<lambda>targets.
          aeach (\<lambda>target.
            abind (alift (validated action_binding_ok (entity_binding (ab_actor_id binding) target))) (\<lambda>b.
            abind (alift (scheduled_item_make (item\<lparr>it_binding := Some b\<rparr>))) (\<lambda>target_item.
            aeach (resolve_nested fl resolve_item due eligible target_item) effects))) targets))))"

definition resolve_effect :: "float_lib \<Rightarrow> (scheduled_item \<Rightarrow> unit act) \<Rightarrow> int \<Rightarrow> string set \<Rightarrow> scheduled_item \<Rightarrow> effect_primitive \<Rightarrow> unit act" where
  "resolve_effect fl resolve_item due eligible item effect =
     (case effect of
        AreaEffect origin radius relations effects maximum_targets \<Rightarrow>
          resolve_area fl resolve_item due eligible item origin radius relations effects maximum_targets
      | _ \<Rightarrow> resolve_nested fl resolve_item due eligible item effect)"

definition resolve_effects :: "float_lib \<Rightarrow> (scheduled_item \<Rightarrow> unit act) \<Rightarrow> int \<Rightarrow> string set \<Rightarrow> scheduled_item \<Rightarrow> unit act" where
  "resolve_effects fl resolve_item due eligible item =
     (if it_binding item = None then araise (SimulationConfigurationError ''resolution is missing its action binding'')
      else aeach (resolve_effect fl resolve_item due eligible item) (it_effects item))"

text \<open>\<open>resolve\<close> calls itself through the payload of a trigger. The number is the recursion depth Python allows; payloads
  consist of direct effects only, so two levels are always enough.\<close>

primrec executor_resolve :: "float_lib \<Rightarrow> int \<Rightarrow> string set \<Rightarrow> nat \<Rightarrow> scheduled_item \<Rightarrow> unit act" where
  "executor_resolve fl due eligible 0 = (\<lambda>item. araise (RecursionError ''maximum recursion depth exceeded''))"
| "executor_resolve fl due eligible (Suc depth) = resolve_effects fl (executor_resolve fl due eligible depth) due eligible"

subsection \<open>Weapon attacks\<close>

fun weapon_passive_defenses :: "scheduled_item \<Rightarrow> string \<Rightarrow> string \<Rightarrow> int \<Rightarrow> string \<Rightarrow> string list \<Rightarrow> bool act" where
  "weapon_passive_defenses item actor_id target_id due weapon_slot [] = areturn False"
| "weapon_passive_defenses item actor_id target_id due weapon_slot (key # keys) =
     abind (aentity target_id) (\<lambda>target.
     abind (aentity actor_id) (\<lambda>actor.
     abind (alift (scalar_or_default target (''passive.'' @ key @ ''.chance'') 0)) (\<lambda>raw.
     let chance = max 0 (min 1 raw) in
     if chance \<le> 0 then weapon_passive_defenses item actor_id target_id due weapon_slot keys
     else abind (chance_roll chance) (\<lambda>(roll, defended).
       if \<not> defended then weapon_passive_defenses item actor_id target_id due weapon_slot keys
       else aseq (aemit ''passive_defense_triggered'' due
           ((item_fields item (Some (en_entity_id actor)) [ns ''chance'' chance, ns ''roll'' roll]
              [''passive_defense.'' @ key, ''weapon.'' @ weapon_slot])
             \<lparr>ef_source_entity_id := Some (en_entity_id target)\<rparr>))
         (areturn True)))))"

definition weapon_bound :: "entity_state \<Rightarrow> string option \<Rightarrow> rat \<Rightarrow> rat result" where
  "weapon_bound actor key d = (case key of None \<Rightarrow> Inr d | Some k \<Rightarrow> scalar_or_default actor k d)"

fun weapon_bonus :: "attack_modifier_spec list \<Rightarrow> rat \<Rightarrow> rat \<Rightarrow> string \<Rightarrow> string list \<Rightarrow> (rat \<times> rat \<times> string \<times> string list) act" where
  "weapon_bonus [] multiplier bonus damage_type tags = areturn (multiplier, bonus, damage_type, tags)"
| "weapon_bonus (m # ms) multiplier bonus damage_type tags =
     abind (auniform (am_bonus_damage_minimum m) (am_bonus_damage_maximum m)) (\<lambda>b.
     weapon_bonus ms (f64 (multiplier * am_damage_multiplier m)) (f64 (bonus + b))
       (case am_damage_type_override m of None \<Rightarrow> damage_type | Some t \<Rightarrow> t) (tags @ am_tags m))"

definition weapon_strikes ::
    "(scheduled_item \<Rightarrow> unit act) \<Rightarrow> scheduled_item \<Rightarrow> int \<Rightarrow> string \<Rightarrow> string \<Rightarrow> weapon_attack_spec \<Rightarrow> trigger_context list
     \<Rightarrow> attack_modifier_spec list \<Rightarrow> unit act" where
  "weapon_strikes resolve_item item due actor_id target_id attack contexts modifiers =
     abind (aentity actor_id) (\<lambda>actor.
     abind (alift (weapon_bound actor (wa_minimum_damage_scalar attack) (wa_minimum_damage attack))) (\<lambda>minimum.
     abind (alift (weapon_bound actor (wa_maximum_damage_scalar attack) (wa_maximum_damage attack))) (\<lambda>maximum.
     if minimum < 0 \<or> maximum < minimum
     then araise (SimulationConfigurationError ''resolved weapon damage range is invalid'')
     else abind (auniform minimum maximum) (\<lambda>rolled.
     abind (weapon_bonus modifiers 1 0 (wa_damage_type attack) []) (\<lambda>(multiplier, bonus, damage_type, tags).
     abind (apply_weapon_damage item target_id (f64 (f64 (rolled + bonus) * multiplier)) damage_type due
       (py_unique ([''attack.weapon'', ''weapon.'' @ wa_weapon_slot attack] @ tags))) (\<lambda>effective.
     abind (resolve_trigger_moment resolve_item contexts ON_HIT actor_id item due) (\<lambda>_.
     awhen (effective > 0)
       (abind (resolve_trigger_moment resolve_item contexts ON_DAMAGE actor_id item due) (\<lambda>_. areturn ())))))))))"

definition resolve_weapon_attack ::
    "float_lib \<Rightarrow> (scheduled_item \<Rightarrow> unit act) \<Rightarrow> int \<Rightarrow> string set \<Rightarrow> scheduled_item \<Rightarrow> unit act" where
  "resolve_weapon_attack fl resolve_item due eligible item =
     (case (it_binding item, it_weapon_attack item) of
        (Some binding, Some attack) \<Rightarrow>
          let actor_id = it_actor_id item;
              known = (\<lambda>env k. map_of (env_entities env) k \<noteq> None)
          in abind (aget (\<lambda>env. case ab_target_entity_id binding of
               Some t \<Rightarrow> if known env actor_id \<and> known env t then Some t else None
             | None \<Rightarrow> None)) (\<lambda>bound.
          case bound of
            None \<Rightarrow> araise (SimulationConfigurationError ''weapon attack requires actor and entity target'')
          | Some target_id \<Rightarrow>
              abind (aentity actor_id) (\<lambda>actor0.
              abind (aentity target_id) (\<lambda>target0.
              if en_entity_id actor0 \<notin> eligible \<or> en_entity_id target0 \<notin> eligible then areturn ()
              else
              abind (aget env_catalog) (\<lambda>catalog.
              abind (alift (catalog_get catalog (it_action_key item))) (\<lambda>action.
              let contexts = matching_trigger_contexts catalog actor0 (it_action_key item) (set (ac_tags action)) in
              abind (resolve_trigger_moment resolve_item contexts ON_ATTEMPT actor_id item due) (\<lambda>fired.
              let modifiers = attack_modifiers fired; bypass = list_ex am_bypass_defense modifiers in
              abind (aentity actor_id) (\<lambda>actor.
              abind (alift (scalar_or_default actor (wa_attack_rating_scalar attack) (wa_default_attack_rating attack))) (\<lambda>base_rating.
              let attack_rating = f64 (base_rating + fl_sum fl (map am_attack_rating_bonus modifiers)) in
              abind (aentity target_id) (\<lambda>target.
              abind (alift (scalar_or_default target (wa_defense_scalar attack) (wa_default_defense attack))) (\<lambda>defense.
              let chance = hit_chance f64 attack attack_rating defense bypass in
              abind (chance_roll chance) (\<lambda>(roll, hit).
              aseq (aemit ''attack_rolled'' due
                ((item_fields item (Some (en_entity_id target))
                   [ns ''attack_rating'' attack_rating, ns ''defense'' defense, ns ''hit_chance'' chance, ns ''roll'' roll]
                   [''weapon.'' @ wa_weapon_slot attack, if hit then ''result.hit_roll'' else ''result.miss'',
                    if bypass then ''defense.bypassed'' else ''defense.checked''])
                  \<lparr>ef_source_entity_id := Some (en_entity_id actor)\<rparr>))
              (awhen hit
                (abind (if \<not> list_ex am_bypass_passive_defense modifiers \<and> ''control.stun'' \<notin> effective_tags target
                        then weapon_passive_defenses item actor_id target_id due (wa_weapon_slot attack) (wa_passive_defense_keys attack)
                        else areturn False) (\<lambda>defended.
                awhen (\<not> defended)
                  (weapon_strikes resolve_item item due actor_id target_id attack contexts modifiers)))))))))))))))
      | _ \<Rightarrow> araise (SimulationConfigurationError ''weapon attack is missing its binding or spec''))"

subsection \<open>Expiry, pulses and deaths\<close>

definition expire_effect :: "scheduled_item \<Rightarrow> int \<Rightarrow> unit act" where
  "expire_effect item due =
     (case (it_effect_entity_id item, it_effect_storage_key item) of
        (Some sid, Some storage) \<Rightarrow>
          abind (aget (\<lambda>env. case map_of (env_entities env) sid of None \<Rightarrow> None | Some s \<Rightarrow> map_of (en_effects s) storage)) (\<lambda>found.
          case found of
            None \<Rightarrow> areturn ()
          | Some active \<Rightarrow>
              awhen (Some (ae_effect_key active) = it_expected_effect_key item \<and> ae_instance_id active = it_expected_effect_instance_id item
                \<and> ae_expires_at_ms active = due)
              (aseq (aupdate sid (pop_effect storage)) (effect_removed sid active due item ''reason.expired'' [])))
      | _ \<Rightarrow> araise (SimulationConfigurationError ''effect expiry is missing its entity or storage key''))"

definition find_pulse :: "string \<Rightarrow> effect_modifier list \<Rightarrow> effect_modifier option" where
  "find_pulse key modifiers = find (\<lambda>m. case m of PeriodicPulse k i n es \<Rightarrow> k = key | _ \<Rightarrow> False) modifiers"

definition resolve_effect_pulse :: "float_lib \<Rightarrow> int \<Rightarrow> string set \<Rightarrow> scheduled_item \<Rightarrow> unit act" where
  "resolve_effect_pulse fl due eligible item =
     (case (it_effect_entity_id item, it_effect_storage_key item, it_periodic_key item) of
        (Some sid, Some storage, Some key) \<Rightarrow>
          abind (aget (\<lambda>env. case map_of (env_entities env) sid of None \<Rightarrow> None | Some s \<Rightarrow> map_of (en_effects s) storage)) (\<lambda>found.
          case found of
            None \<Rightarrow> areturn ()
          | Some active \<Rightarrow>
              if Some (ae_effect_key active) \<noteq> it_expected_effect_key item \<or> ae_instance_id active \<noteq> it_expected_effect_instance_id item
              then areturn ()
              else
              (case find_pulse key (ae_modifiers active) of
                 Some (PeriodicPulse periodic_key interval_ms tick_count effects) \<Rightarrow>
                   if it_pulse_index item > tick_count \<or> it_effects item \<noteq> effects
                   then araise (SimulationConfigurationError ''effect pulse does not match its active modifier'')
                   else abind (aentity sid) (\<lambda>s.
                     aseq (abind (int_scalars [(''pulse_index'', it_pulse_index item)]) (\<lambda>scalars.
                       aemit ''effect_pulsed'' due (item_fields item (Some (en_entity_id s)) scalars
                         [''effect.'' @ ae_effect_key active, ''periodic.'' @ periodic_key])))
                     (resolve_directs fl item due eligible (it_effects item)))
               | _ \<Rightarrow> araise (SimulationConfigurationError ''effect pulse does not match its active modifier'')))
      | _ \<Rightarrow> araise (SimulationConfigurationError ''effect pulse is missing effect identity''))"

fun resolve_deaths :: "string list \<Rightarrow> int \<Rightarrow> string set \<Rightarrow> string set act" where
  "resolve_deaths [] due life_terminated = areturn life_terminated"
| "resolve_deaths (entity_id # entity_ids) due life_terminated =
     abind (aentity entity_id) (\<lambda>e.
     if en_alive e \<and> scalar_get e ''health'' 1 \<le> 0
     then aseq (aupdate entity_id (\<lambda>x. x\<lparr>en_alive := False\<rparr>))
       (aseq (aemit ''entity_died'' due
         (no_fields\<lparr>ef_target_entity_id := Some (en_entity_id e), ef_tags := [''life.'' @ en_life_id e]\<rparr>))
       (resolve_deaths entity_ids due (insert (en_life_id e) life_terminated)))
     else resolve_deaths entity_ids due life_terminated)"

end
