(* ===== verification/Sim_Frame.thy ===== *)
theory Sim_Frame
  imports Sim_Environment
begin

text \<open>
  What each operation of \<^verbatim>\<open>sim/environment.py\<close> changes of the state and what it leaves alone: the
  scheduling operations append work with fresh orders, the schedule refines a queue sorted by due time,
  priority and order, and interruptions end exactly the executions they select.
\<close>

subsection \<open>The frame of the scheduling operations\<close>

definition appends :: "scheduled_item list \<Rightarrow> environment \<Rightarrow> environment" where
  "appends items env =
     env\<lparr>env_scheduled := env_scheduled env @ items,
         env_next_schedule_order := env_next_schedule_order env + int (length items)\<rparr>"

definition fresh_orders :: "int \<Rightarrow> scheduled_item list \<Rightarrow> bool" where
  "fresh_orders n items \<longleftrightarrow> (\<forall>j < length items. it_order (items ! j) = n + int j)"

lemma appends_Nil [simp]: "appends [] env = env"
  by (simp add: appends_def)

lemma appends_appends [simp]: "appends ys (appends xs env) = appends (xs @ ys) env"
  by (simp add: appends_def)

lemma appends_fields [simp]:
  "env_catalog (appends xs env) = env_catalog env" "env_entities (appends xs env) = env_entities env"
  "env_executions (appends xs env) = env_executions env" "env_cancelled_tokens (appends xs env) = env_cancelled_tokens env"
  "env_clock (appends xs env) = env_clock env"
  "env_scheduled (appends xs env) = env_scheduled env @ xs"
  "env_next_schedule_order (appends xs env) = env_next_schedule_order env + int (length xs)"
  by (simp_all add: appends_def)

lemma fresh_orders_Nil [simp]: "fresh_orders n []"
  by (simp add: fresh_orders_def)

lemma fresh_orders_append [simp]:
  "fresh_orders n (xs @ ys) \<longleftrightarrow> fresh_orders n xs \<and> fresh_orders (n + int (length xs)) ys"
proof -
  have split: "(\<forall>j < a + b. P j) \<longleftrightarrow> (\<forall>j < a. P j) \<and> (\<forall>j < b. P (a + j))" for P and a b :: nat
    by (metis add_diff_inverse_nat nat_add_left_cancel_less trans_less_add1)
  show ?thesis by (simp add: fresh_orders_def split nth_append add.assoc)
qed

lemma fresh_orders_single [simp]: "fresh_orders n [x] \<longleftrightarrow> it_order x = n"
  by (simp add: fresh_orders_def)

lemma fresh_orders_distinct: "fresh_orders n xs \<Longrightarrow> distinct (map it_order xs)"
  by (auto simp: fresh_orders_def distinct_conv_nth)

lemma fresh_orders_range: "fresh_orders n xs \<Longrightarrow> it \<in> set xs \<Longrightarrow> n \<le> it_order it \<and> it_order it < n + int (length xs)"
  by (auto simp: fresh_orders_def in_set_conv_nth)

lemma schedule_new_Inr:
  assumes "schedule_new mk env = Inr env'"
  shows "env' = appends [mk (env_next_schedule_order env)] env" "scheduled_item_ok (mk (env_next_schedule_order env)) = Inr ()"
  using assms by (auto simp: schedule_new_def take_schedule_order_def schedule_def scheduled_item_make_def result_simps appends_def)

lemma schedule_when_Inr:
  "schedule_when b mk env = Inr env' \<Longrightarrow> env' = appends (if b then [mk (env_next_schedule_order env)] else []) env"
  by (auto simp: schedule_when_def dest: schedule_new_Inr split: if_splits)

text \<open>New work of the given kinds was appended, with the next orders.\<close>

definition grows :: "scheduled_kind set \<Rightarrow> environment \<Rightarrow> environment \<Rightarrow> bool" where
  "grows K env env' \<longleftrightarrow>
     (\<exists>items. env' = appends items env \<and> fresh_orders (env_next_schedule_order env) items \<and> it_kind ` set items \<subseteq> K)"

lemma grows_trans:
  assumes "grows K env1 env2" "grows K env2 env3"
  shows "grows K env1 env3"
proof -
  from assms obtain xs ys where "env2 = appends xs env1" "fresh_orders (env_next_schedule_order env1) xs" "it_kind ` set xs \<subseteq> K"
    "env3 = appends ys env2" "fresh_orders (env_next_schedule_order env2) ys" "it_kind ` set ys \<subseteq> K"
    by (auto simp: grows_def)
  then show ?thesis unfolding grows_def by (intro exI [of _ "xs @ ys"]) auto
qed

lemma grows_when:
  assumes "schedule_when b mk env = Inr env'" "\<And>n. it_order (mk n) = n" "\<And>n. it_kind (mk n) \<in> K"
  shows "grows K env env'"
  using schedule_when_Inr [OF assms(1)] assms(2,3)
  by (auto simp: grows_def intro!: exI [of _ "if b then [mk (env_next_schedule_order env)] else []"])

lemma common_item_fields [simp]:
  "it_order (common_item actor x a i kind due n) = n" "it_kind (common_item actor x a i kind due n) = kind"
  "it_due_time_ms (common_item actor x a i kind due n) = due"
  "it_actor_id (common_item actor x a i kind due n) = en_entity_id actor"
  "it_correlation_id (common_item actor x a i kind due n) = ex_correlation_id x"
  "it_phase_index (common_item actor x a i kind due n) = Some i" "it_cancel_token (common_item actor x a i kind due n) = Some (ex_cancel_token x)"
  "it_binding (common_item actor x a i kind due n) = None" "it_actor_life_id (common_item actor x a i kind due n) = Some (ex_actor_life_id x)"
  "it_continuation_policy (common_item actor x a i kind due n) = SOURCE_BOUND"
  by (simp_all add: common_item_def work_item_def)

lemma payload_item_fields [simp]:
  "it_order (payload_item actor x a p i kind due n) = n" "it_kind (payload_item actor x a p i kind due n) = kind"
  by (simp_all add: payload_item_def)

text \<open>The work that moves an execution on: the transition out of its phase, or its completion.\<close>

definition advances :: "scheduled_item \<Rightarrow> action_spec \<Rightarrow> action_execution \<Rightarrow> bool" where
  "advances item action x \<longleftrightarrow>
     it_kind item = (if ex_phase_index x + 1 < int (length (ac_phases action)) then PHASE_TRANSITION else COMPLETION)
     \<and> it_actor_id item = ex_actor_entity_id x \<and> it_correlation_id item = ex_correlation_id x
     \<and> it_phase_index item = Some (ex_phase_index x) \<and> it_cancel_token item = Some (ex_cancel_token x)
     \<and> it_actor_life_id item = Some (ex_actor_life_id x) \<and> it_binding item = None
     \<and> it_continuation_policy item = SOURCE_BOUND \<and> it_due_time_ms item = ex_phase_ends_at_ms x"

definition same_execution :: "action_execution \<Rightarrow> action_execution \<Rightarrow> bool" where
  "same_execution x y \<longleftrightarrow> ex_correlation_id y = ex_correlation_id x \<and> ex_actor_entity_id y = ex_actor_entity_id x
     \<and> ex_actor_life_id y = ex_actor_life_id x \<and> ex_action_key y = ex_action_key x \<and> ex_cancel_token y = ex_cancel_token x"

lemma py_index_Inr: "py_index xs i = Inr x \<Longrightarrow> 0 \<le> i \<Longrightarrow> i < int (length xs) \<and> x = xs ! nat i"
  by (auto simp: py_index_def split: if_splits)

lemma schedule_action_phase_parts:
  assumes "schedule_action_phase rnd hypot k x0 action i t env = Inr env'"
  obtains phase actor e1 delay e2 e3 e4 e5 where
    "py_index (ac_phases action) i = Inr phase"
    "env_entity env (ex_actor_entity_id x0) = Inr actor"
    "schedule_when (has_payload x0 action phase i)
       (common_item actor (enter_phase x0 action phase i t) action i PHASE_RELEASE (t + ph_duration_ms phase)) env = Inr e1"
    "delivery_delay rnd hypot env actor (ex_binding x0) phase = Inr delay"
    "schedule_when (weapon_in_phase action i)
       (\<lambda>order. (payload_item actor (enter_phase x0 action phase i t) action phase i WEAPON_ATTACK (t + ph_duration_ms phase + delay) order)
          \<lparr>it_weapon_attack := ac_weapon_attack action\<rparr>) e1 = Inr e2"
    "schedule_when (ph_effects phase \<noteq> [])
       (\<lambda>order. (payload_item actor (enter_phase x0 action phase i t) action phase i RESOLUTION (t + ph_duration_ms phase + delay) order)
          \<lparr>it_effects := ph_effects phase\<rparr>) e2 = Inr e3"
    "schedule_when (trigger_payload x0 action phase i)
       (\<lambda>order. (payload_item actor (enter_phase x0 action phase i t) action phase i RESOLUTION (t + ph_duration_ms phase + delay) order)
          \<lparr>it_effects := ex_pending_triggered_effects (enter_phase x0 action phase i t)\<rparr>) e3 = Inr e4"
    "schedule_new (common_item actor (enter_phase x0 action phase i t) action i
       (if i + 1 < int (length (ac_phases action)) then PHASE_TRANSITION else COMPLETION) (t + ph_duration_ms phase)) e4 = Inr e5"
    "env' = put_execution k (if trigger_payload x0 action phase i
       then (enter_phase x0 action phase i t)\<lparr>ex_trigger_payload_scheduled := True\<rparr> else enter_phase x0 action phase i t) e5"
  using assms unfolding schedule_action_phase_def Let_def by (auto simp: result_simps enter_phase_def)

lemma schedule_action_phase_Inr:
  assumes "schedule_action_phase rnd hypot k x0 action i t env = Inr env'" "0 \<le> i"
    and keyed: "\<And>e. map_of (env_entities env) (ex_actor_entity_id x0) = Some e \<Longrightarrow> en_entity_id e = ex_actor_entity_id x0"
  obtains items last x where "env' = put_execution k x (appends (items @ [last]) env)"
    "fresh_orders (env_next_schedule_order env) (items @ [last])" "advances last action x" "same_execution x0 x"
    "ex_released_phase_indexes x = ex_released_phase_indexes x0"
    "ex_phase_index x = i" "i < int (length (ac_phases action))" "\<not> is_terminal x"
    "\<forall>it \<in> set items. it_kind it \<in> {PHASE_RELEASE, WEAPON_ATTACK, RESOLUTION}"
proof -
  let ?n = "env_next_schedule_order env"
  from assms(1) obtain phase actor e1 delay e2 e3 e4 e5 where
    ph: "py_index (ac_phases action) i = Inr phase" and actor: "env_entity env (ex_actor_entity_id x0) = Inr actor"
    and e1: "schedule_when (has_payload x0 action phase i)
       (common_item actor (enter_phase x0 action phase i t) action i PHASE_RELEASE (t + ph_duration_ms phase)) env = Inr e1"
    and "delivery_delay rnd hypot env actor (ex_binding x0) phase = Inr delay"
    and e2: "schedule_when (weapon_in_phase action i)
       (\<lambda>order. (payload_item actor (enter_phase x0 action phase i t) action phase i WEAPON_ATTACK (t + ph_duration_ms phase + delay) order)
          \<lparr>it_weapon_attack := ac_weapon_attack action\<rparr>) e1 = Inr e2"
    and e3: "schedule_when (ph_effects phase \<noteq> [])
       (\<lambda>order. (payload_item actor (enter_phase x0 action phase i t) action phase i RESOLUTION (t + ph_duration_ms phase + delay) order)
          \<lparr>it_effects := ph_effects phase\<rparr>) e2 = Inr e3"
    and e4: "schedule_when (trigger_payload x0 action phase i)
       (\<lambda>order. (payload_item actor (enter_phase x0 action phase i t) action phase i RESOLUTION (t + ph_duration_ms phase + delay) order)
          \<lparr>it_effects := ex_pending_triggered_effects (enter_phase x0 action phase i t)\<rparr>) e3 = Inr e4"
    and e5: "schedule_new (common_item actor (enter_phase x0 action phase i t) action i
       (if i + 1 < int (length (ac_phases action)) then PHASE_TRANSITION else COMPLETION) (t + ph_duration_ms phase)) e4 = Inr e5"
    and env': "env' = put_execution k (if trigger_payload x0 action phase i
       then (enter_phase x0 action phase i t)\<lparr>ex_trigger_payload_scheduled := True\<rparr> else enter_phase x0 action phase i t) e5"
    by (rule schedule_action_phase_parts)
  let ?x = "enter_phase x0 action phase i t"
  let ?y = "if trigger_payload x0 action phase i then ?x\<lparr>ex_trigger_payload_scheduled := True\<rparr> else ?x"
  have id: "en_entity_id actor = ex_actor_entity_id x0"
    using actor keyed by (auto simp: env_entity_def split: option.splits)
  let ?K = "{PHASE_RELEASE, WEAPON_ATTACK, RESOLUTION}"
  have "grows ?K env e1" by (rule grows_when [OF e1]) simp_all
  moreover have "grows ?K e1 e2" by (rule grows_when [OF e2]) simp_all
  moreover have "grows ?K e2 e3" by (rule grows_when [OF e3]) simp_all
  moreover have "grows ?K e3 e4" by (rule grows_when [OF e4]) simp_all
  ultimately have "grows ?K env e4" by (blast intro: grows_trans)
  then obtain items where e4': "e4 = appends items env" and fr: "fresh_orders ?n items"
    and kinds: "\<forall>it \<in> set items. it_kind it \<in> ?K"
    by (auto simp: grows_def)
  have e5': "e5 = appends (items @ [common_item actor ?x action i
      (if i + 1 < int (length (ac_phases action)) then PHASE_TRANSITION else COMPLETION) (t + ph_duration_ms phase)
      (?n + int (length items))]) env"
    using schedule_new_Inr(1) [OF e5] e4' by simp
  show thesis
  proof (rule that)
    show "env' = put_execution k ?y (appends (items @ [common_item actor ?x action i
      (if i + 1 < int (length (ac_phases action)) then PHASE_TRANSITION else COMPLETION) (t + ph_duration_ms phase)
      (?n + int (length items))]) env)" using env' e5' by simp
    show "i < int (length (ac_phases action))" using py_index_Inr [OF ph assms(2)] by simp
    show "\<forall>it \<in> set items. it_kind it \<in> {PHASE_RELEASE, WEAPON_ATTACK, RESOLUTION}" by (rule kinds)
  qed (use fr id in \<open>auto simp: advances_def same_execution_def is_terminal_def enter_phase_def\<close>)
qed

subsection \<open>The schedule as a sorted queue\<close>

definition orders_inv :: "environment \<Rightarrow> bool" where
  "orders_inv env \<longleftrightarrow> distinct (map it_order (env_scheduled env))
     \<and> (\<forall>it \<in> set (env_scheduled env). it_order it < env_next_schedule_order env)"

text \<open>The abstract timeline: the pending work in the order it will be taken.\<close>

definition timeline :: "environment \<Rightarrow> scheduled_item list" where
  "timeline env = sort_key scheduled_key (env_scheduled env)"

lemma orders_inj_key: "orders_inv env \<Longrightarrow> inj_on scheduled_key (set (env_scheduled env))"
  by (auto simp: orders_inv_def distinct_map scheduled_key_def inj_on_def)

lemma orders_inv_appends:
  assumes "orders_inv env" "fresh_orders (env_next_schedule_order env) items"
  shows "orders_inv (appends items env)"
  using assms fresh_orders_distinct [OF assms(2)] fresh_orders_range [OF assms(2)]
  by (fastforce simp: orders_inv_def)

lemma next_due_Some:
  assumes "next_due t env = Some (item, env')"
  shows "item \<in> set (env_scheduled env)" "it_due_time_ms item \<le> t"
    "env' = env\<lparr>env_scheduled := remove1 item (env_scheduled env)\<rparr>"
    "\<forall>it \<in> set (env_scheduled env). it_due_time_ms it \<le> t \<longrightarrow> scheduled_key item \<le> scheduled_key it"
proof -
  from assms obtain c cs where f: "filter (\<lambda>item. it_due_time_ms item \<le> t) (env_scheduled env) = c # cs"
    and i: "item = py_min_by scheduled_key c cs" and e: "env' = env\<lparr>env_scheduled := remove1 item (env_scheduled env)\<rparr>"
    by (auto simp: next_due_def Let_def split: list.splits)
  have "item \<in> set (filter (\<lambda>item. it_due_time_ms item \<le> t) (env_scheduled env))"
    using py_min_by_mem [of scheduled_key c cs] f i by auto
  then show "item \<in> set (env_scheduled env)" "it_due_time_ms item \<le> t" by auto
  show "env' = env\<lparr>env_scheduled := remove1 item (env_scheduled env)\<rparr>" by (rule e)
  show "\<forall>it \<in> set (env_scheduled env). it_due_time_ms it \<le> t \<longrightarrow> scheduled_key item \<le> scheduled_key it"
  proof (intro ballI impI)
    fix it assume "it \<in> set (env_scheduled env)" "it_due_time_ms it \<le> t"
    then have "it \<in> set (c # cs)" unfolding f [symmetric] by simp
    then show "scheduled_key item \<le> scheduled_key it" using py_min_by_le [of it c cs scheduled_key] i by simp
  qed
qed

lemma next_due_None: "next_due t env = None \<longleftrightarrow> (\<forall>it \<in> set (env_scheduled env). t < it_due_time_ms it)"
proof -
  have "next_due t env = None \<longleftrightarrow> filter (\<lambda>item. it_due_time_ms item \<le> t) (env_scheduled env) = []"
    by (simp add: next_due_def Let_def split: list.split)
  then show ?thesis by (simp add: filter_empty_conv not_le)
qed

lemma timeline_Cons:
  assumes "orders_inv env" "timeline env = item # rest"
  shows "item \<in> set (env_scheduled env)" "\<forall>it \<in> set (env_scheduled env). scheduled_key item \<le> scheduled_key it"
    "timeline (env\<lparr>env_scheduled := remove1 item (env_scheduled env)\<rparr>) = rest"
proof -
  have m: "mset (env_scheduled env) = add_mset item (mset rest)" using assms(2) by (metis mset_sort timeline_def mset.simps(2))
  then show mem: "item \<in> set (env_scheduled env)" by (metis set_mset_mset union_single_eq_member)
  have sorted: "sorted (map scheduled_key (item # rest))" using assms(2) by (metis sorted_sort_key timeline_def)
  moreover have "set (env_scheduled env) = set (item # rest)" using assms(2) by (metis set_sort timeline_def)
  ultimately show "\<forall>it \<in> set (env_scheduled env). scheduled_key item \<le> scheduled_key it" by auto
  have "mset (remove1 item (env_scheduled env)) = mset rest" using m by simp
  then have "sort_key scheduled_key (remove1 item (env_scheduled env)) = rest"
  proof (rule sort_key_inj_key_eq)
    show "inj_on scheduled_key (set (remove1 item (env_scheduled env)))"
      using orders_inj_key [OF assms(1)] by (rule inj_on_subset) (simp add: set_remove1_subset)
  qed (use sorted in simp)
  then show "timeline (env\<lparr>env_scheduled := remove1 item (env_scheduled env)\<rparr>) = rest" by (simp add: timeline_def)
qed

lemma next_due_timeline:
  assumes "orders_inv env"
  shows "next_due t env =
    (case timeline env of [] \<Rightarrow> None
     | item # rest \<Rightarrow> if it_due_time_ms item \<le> t then Some (item, env\<lparr>env_scheduled := remove1 item (env_scheduled env)\<rparr>) else None)"
proof (cases "timeline env")
  case Nil
  then have "env_scheduled env = []" by (simp add: timeline_def sort_key_Nil_iff)
  with Nil show ?thesis by (simp add: next_due_def)
next
  case (Cons item rest)
  note first = timeline_Cons(1,2) [OF assms Cons]
  show ?thesis
  proof (cases "it_due_time_ms item \<le> t")
    case True
    then obtain i env' where n: "next_due t env = Some (i, env')"
      using next_due_None [of t env] first(1) by (cases "next_due t env") auto
    have "scheduled_key i = scheduled_key item"
      using next_due_Some [OF n] first True by (meson order.antisym)
    then have "i = item" using orders_inj_key [OF assms] next_due_Some(1) [OF n] first(1) by (auto dest: inj_onD)
    then show ?thesis using n next_due_Some(3) [OF n] Cons True by simp
  next
    case False
    have "t < it_due_time_ms it" if "it \<in> set (env_scheduled env)" for it
      using first(2) that False by (fastforce simp: scheduled_key_def less_eq_prod_def)
    then have "next_due t env = None" by (simp add: next_due_None)
    with Cons False show ?thesis by simp
  qed
qed

text \<open>A queue of due work: \<open>pop t\<close> removes the first element of the abstract queue when it is due.\<close>

fun drain :: "('s \<Rightarrow> ('i \<times> 's) option) \<Rightarrow> nat \<Rightarrow> 's \<Rightarrow> 'i list" where
  "drain pop 0 s = []"
| "drain pop (Suc n) s = (case pop s of None \<Rightarrow> [] | Some (i, s') \<Rightarrow> i # drain pop n s')"

locale due_queue =
  fixes inv :: "'s \<Rightarrow> bool" and abs :: "'s \<Rightarrow> 'i list" and due :: "'i \<Rightarrow> int"
    and pop :: "int \<Rightarrow> 's \<Rightarrow> ('i \<times> 's) option"
  assumes pop_None: "inv s \<Longrightarrow> abs s = [] \<or> t < due (hd (abs s)) \<Longrightarrow> pop t s = None"
    and pop_Some: "inv s \<Longrightarrow> abs s = i # rest \<Longrightarrow> due i \<le> t \<Longrightarrow> \<exists>s'. pop t s = Some (i, s') \<and> abs s' = rest \<and> inv s'"
begin

lemma drain_prefix: "inv s \<Longrightarrow> length (abs s) \<le> n \<Longrightarrow> drain (pop t) n s = takeWhile (\<lambda>i. due i \<le> t) (abs s)"
proof (induction n arbitrary: s)
  case 0
  then show ?case by simp
next
  case (Suc n)
  show ?case
  proof (cases "abs s")
    case Nil
    with pop_None [OF Suc.prems(1)] show ?thesis by simp
  next
    case (Cons i rest)
    show ?thesis
    proof (cases "due i \<le> t")
      case True
      with pop_Some [OF Suc.prems(1) Cons] obtain s' where s': "pop t s = Some (i, s')" "abs s' = rest" "inv s'" by blast
      then have "drain (pop t) n s' = takeWhile (\<lambda>i. due i \<le> t) (abs s')" using Suc.IH [of s'] Suc.prems(2) Cons by simp
      with s' Cons True show ?thesis by simp
    next
      case False
      with pop_None [OF Suc.prems(1), of t] Cons show ?thesis by simp
    qed
  qed
qed

end

lemma orders_inv_remove: "orders_inv env \<Longrightarrow> orders_inv (env\<lparr>env_scheduled := remove1 item (env_scheduled env)\<rparr>)"
  by (auto simp: orders_inv_def distinct_map intro: inj_on_diff)

interpretation schedule_queue: due_queue orders_inv timeline it_due_time_ms next_due
proof
  show "next_due t env = None" if "orders_inv env" "timeline env = [] \<or> t < it_due_time_ms (hd (timeline env))" for env t
    using that by (auto simp: next_due_timeline split: list.split)
  show "\<exists>env'. next_due t env = Some (item, env') \<and> timeline env' = rest \<and> orders_inv env'"
    if "orders_inv env" "timeline env = item # rest" "it_due_time_ms item \<le> t" for env item rest t
    using that timeline_Cons(3) [OF that(1,2)] orders_inv_remove [OF that(1)] by (simp add: next_due_timeline)
qed

lemma next_due_pops:
  assumes "orders_inv env" "next_due t env = Some (item, env')"
  shows "timeline env = item # timeline env' \<and> orders_inv env'"
proof (cases "timeline env")
  case Nil
  with assms show ?thesis by (simp add: next_due_timeline)
next
  case (Cons i rest)
  with assms have "i = item" "env' = env\<lparr>env_scheduled := remove1 item (env_scheduled env)\<rparr>"
    by (auto simp: next_due_timeline split: if_splits)
  with timeline_Cons(3) [OF assms(1) Cons] Cons orders_inv_remove [OF assms(1)] show ?thesis by simp
qed

lemma timeline_appends:
  assumes "orders_inv env" "it_order work = env_next_schedule_order env"
  shows "timeline (appends [work] env) = insort_key scheduled_key work (timeline env) \<and> orders_inv (appends [work] env)"
proof
  show o: "orders_inv (appends [work] env)" by (rule orders_inv_appends [OF assms(1)]) (simp add: assms(2))
  have "sort_key scheduled_key (env_scheduled env @ [work]) = insort_key scheduled_key work (sort_key scheduled_key (env_scheduled env))"
    by (rule sort_key_inj_key_eq) (use orders_inj_key [OF o] in \<open>simp_all add: sorted_insort_key\<close>)
  then show "timeline (appends [work] env) = insort_key scheduled_key work (timeline env)" by (simp add: timeline_def)
qed

subsection \<open>The frame of the other operations\<close>

text \<open>The same life of the same entity, which may have ended, with the same actions.\<close>

definition same_life :: "entity_state \<Rightarrow> entity_state \<Rightarrow> bool" where
  "same_life e e' \<longleftrightarrow> en_entity_id e' = en_entity_id e \<and> en_life_id e' = en_life_id e \<and> (en_alive e' \<longrightarrow> en_alive e)
     \<and> en_action_keys e' = en_action_keys e"

text \<open>Entities keep their keys and the order of the dictionary, their ids, lives and actions, and none comes back to life.\<close>

definition entities_le :: "environment \<Rightarrow> environment \<Rightarrow> bool" where
  "entities_le env env' \<longleftrightarrow> map fst (env_entities env') = map fst (env_entities env)
     \<and> (\<forall>k. rel_option same_life (map_of (env_entities env) k) (map_of (env_entities env') k))"

text \<open>Nothing of the lifecycle changes: what the executor does to entities, the random source and the
  event counter, and the tick of the clock.\<close>

definition quiet :: "environment \<Rightarrow> environment \<Rightarrow> bool" where
  "quiet env env' \<longleftrightarrow> entities_le env env' \<and> env_catalog env' = env_catalog env \<and> env_scheduled env' = env_scheduled env
     \<and> env_executions env' = env_executions env \<and> env_cancelled_tokens env' = env_cancelled_tokens env
     \<and> env_next_schedule_order env' = env_next_schedule_order env"

lemma entities_le_refl [simp]: "entities_le env env"
  by (simp add: entities_le_def option.rel_refl same_life_def)

lemma entities_le_same: "env_entities env' = env_entities env \<Longrightarrow> entities_le env env'"
  by (simp add: entities_le_def option.rel_refl same_life_def)

lemma same_life_trans: "same_life e1 e2 \<Longrightarrow> same_life e2 e3 \<Longrightarrow> same_life e1 e3"
  by (simp add: same_life_def)

lemma entities_le_trans: "entities_le e1 e2 \<Longrightarrow> entities_le e2 e3 \<Longrightarrow> entities_le e1 e3"
  unfolding entities_le_def by (metis (mono_tags, lifting) option.rel_sel same_life_trans)

lemma entities_le_same_life:
  assumes "entities_le env env'" "map_of (env_entities env') k = Some e'"
  obtains e where "map_of (env_entities env) k = Some e" "same_life e e'"
  using assms unfolding entities_le_def by (metis option_rel_Some2)

lemma entities_le_Some:
  assumes "entities_le env env'" "map_of (env_entities env') k = Some e'"
  obtains e where "map_of (env_entities env) k = Some e" "en_entity_id e' = en_entity_id e" "en_life_id e' = en_life_id e"
    "en_alive e' \<longrightarrow> en_alive e"
  using entities_le_same_life [OF assms] that unfolding same_life_def by blast

lemma quiet_refl [simp]: "quiet env env"
  by (simp add: quiet_def)

lemma quiet_trans: "quiet e1 e2 \<Longrightarrow> quiet e2 e3 \<Longrightarrow> quiet e1 e3"
  unfolding quiet_def using entities_le_trans by metis

lemma quiet_put_entity:
  assumes "map_of (env_entities env) k = Some e" "same_life e e'"
  shows "quiet env (put_entity k e' env)"
proof -
  have "k \<in> set (map fst (env_entities env))" using map_of_SomeD [OF assms(1)] by force
  with assms show ?thesis
    by (simp add: quiet_def put_entity_def entities_le_def update_conv update_keys option.rel_refl same_life_def)
qed

lemma emit_Inr:
  assumes "emit kind t fs st = Inr st'"
  shows "fst st' = (fst st)\<lparr>env_next_event_number := env_next_event_number (fst st) + 1\<rparr>" "\<exists>ev. snd st' = snd st @ [ev]"
  using assms by (auto simp: emit_def make_event_def result_simps)

lemma quiet_emit: "emit kind t fs st = Inr st' \<Longrightarrow> quiet (fst st) (fst st')"
  by (auto dest!: emit_Inr(1) simp: quiet_def entities_le_same)

lemma quiet_free_actor: "quiet env (free_actor actor_id life due env)"
  by (auto simp: free_actor_def same_life_def intro: quiet_put_entity split: option.split)

lemma entity_at_Inr: "entity_at env k = Inr e \<longleftrightarrow> map_of (env_entities env) k = Some e"
  by (auto simp: entity_at_def split: option.split)

lemma env_entity_Inr: "env_entity env k = Inr e \<longleftrightarrow> map_of (env_entities env) k = Some e"
  by (auto simp: env_entity_def split: option.split)

lemma quiet_pay_costs: "pay_costs rnd actor_id corr key costs st = Inr st' \<Longrightarrow> quiet (fst st) (fst st')"
proof (induction costs arbitrary: st)
  case (Cons cost costs)
  from Cons.prems obtain actor st1 where a: "map_of (env_entities (fst st)) actor_id = Some actor"
    and e: "emit ''resource_spent'' (env_now (fst st))
       (no_fields\<lparr>ef_correlation_id := Some corr, ef_source_entity_id := Some (en_entity_id actor),
          ef_action_key := Some key, ef_scalars := [\<lparr>ns_name = rc_resource_key cost, ns_value = rc_amount cost\<rparr>]\<rparr>)
       (put_entity actor_id (actor\<lparr>en_scalars := AList.update (rc_resource_key cost) (rnd ((case map_of (en_scalars actor) (rc_resource_key cost) of None \<Rightarrow> 0 | Some v \<Rightarrow> v) - rc_amount cost)) (en_scalars actor)\<rparr>) (fst st), snd st) = Inr st1"
    and r: "pay_costs rnd actor_id corr key costs st1 = Inr st'"
    by (auto simp: result_simps Let_def entity_at_Inr)
  have "quiet (fst st) (put_entity actor_id (actor\<lparr>en_scalars := AList.update (rc_resource_key cost) (rnd ((case map_of (en_scalars actor) (rc_resource_key cost) of None \<Rightarrow> 0 | Some v \<Rightarrow> v) - rc_amount cost)) (en_scalars actor)\<rparr>) (fst st))"
    by (rule quiet_put_entity [OF a]) (simp_all add: same_life_def)
  with quiet_emit [OF e] Cons.IH [OF r] show ?case by (auto intro: quiet_trans)
qed simp

lemma quiet_roll: "roll_trigger trigger env = (roll, fired, env') \<Longrightarrow> quiet env env'"
  by (auto simp: roll_trigger_def quiet_def entities_le_same split: if_splits prod.splits)

lemma quiet_consume_trigger:
  assumes "consume_trigger actor_id source decision action storage active trigger st = Inr (payload, st')"
  shows "quiet (fst st) (fst st')"
proof -
  obtain roll fired env1 where roll: "roll_trigger trigger (fst st) = (roll, fired, env1)" by (metis prod_cases3)
  obtain fs1 fs2 fs3 kind1 kind2 kind3 t1 t2 t3 st1 st2 where 1: "emit kind1 t1 fs1 (env1, snd st) = Inr st1"
    and 2: "(if fired then emit kind2 t2 fs2 st1 else Inr st1) = Inr st2"
    and 3: "(if at_consume_on trigger = CONSUME_ACTION_START
      then rbind (entity_at (fst st2) actor_id) (\<lambda>actor.
        emit kind3 t3 (fs3 actor) (put_entity actor_id (actor\<lparr>en_effects := AList.delete storage (en_effects actor)\<rparr>) (fst st2), snd st2))
      else Inr st2) = Inr st'"
    using assms unfolding consume_trigger_def roll Let_def prod.case rbind_eq_Inr by (auto 0 4)
  have "quiet (fst st2) (fst st')"
  proof (cases "at_consume_on trigger = CONSUME_ACTION_START")
    case True
    with 3 obtain actor where a: "map_of (env_entities (fst st2)) actor_id = Some actor"
      and e: "emit kind3 t3 (fs3 actor) (put_entity actor_id (actor\<lparr>en_effects := AList.delete storage (en_effects actor)\<rparr>) (fst st2), snd st2) = Inr st'"
      by (auto simp: result_simps entity_at_Inr)
    have "quiet (fst st2) (put_entity actor_id (actor\<lparr>en_effects := AList.delete storage (en_effects actor)\<rparr>) (fst st2))"
      by (rule quiet_put_entity [OF a]) (simp_all add: same_life_def)
    with quiet_emit [OF e] show ?thesis by (auto intro: quiet_trans)
  qed (use 3 in simp)
  moreover have "quiet (fst st1) (fst st2)" using 2 quiet_emit by (auto split: if_splits)
  moreover have "quiet env1 (fst st1)" using quiet_emit [OF 1] by simp
  ultimately show ?thesis using quiet_roll [OF roll] by (blast intro: quiet_trans)
qed

lemma consume_triggers_Cons:
  assumes "consume_action_start_triggers actor_id decision action (storage # storages) st = Inr (payload, st')"
  obtains (skip) "consume_action_start_triggers actor_id decision action storages st = Inr (payload, st')"
    | (one) actor :: entity_state and active trigger p1 p2 st1 where
        "trigger_for_effect (env_catalog (fst st)) (ae_effect_key active) = Some trigger"
        "consume_trigger actor_id (en_entity_id actor) decision action storage active trigger st = Inr (p1, st1)"
        "consume_action_start_triggers actor_id decision action storages st1 = Inr (p2, st')" "payload = p1 @ p2"
proof (cases "consume_action_start_triggers actor_id decision action storages st = Inr (payload, st')")
  case False
  from assms obtain actor where "entity_at (fst st) actor_id = Inr actor" by (cases "entity_at (fst st) actor_id") auto
  with assms have c: "(case map_of (en_effects actor) storage of
       None \<Rightarrow> consume_action_start_triggers actor_id decision action storages st
     | Some active \<Rightarrow>
         (case trigger_for_effect (env_catalog (fst st)) (ae_effect_key active) of
            None \<Rightarrow> consume_action_start_triggers actor_id decision action storages st
          | Some trigger \<Rightarrow>
              if \<not> starts_with action trigger then consume_action_start_triggers actor_id decision action storages st
              else rbind (consume_trigger actor_id (en_entity_id actor) decision action storage active trigger st) (\<lambda>(payload, st1).
                rbind (consume_action_start_triggers actor_id decision action storages st1) (\<lambda>(rest, st2).
                Inr (payload @ rest, st2))))) = Inr (payload, st')"
    by simp
  with False obtain active where a: "map_of (en_effects actor) storage = Some active" by (cases "map_of (en_effects actor) storage") auto
  with c False obtain trigger where t: "trigger_for_effect (env_catalog (fst st)) (ae_effect_key active) = Some trigger"
    by (cases "trigger_for_effect (env_catalog (fst st)) (ae_effect_key active)") auto
  with a c False have "rbind (consume_trigger actor_id (en_entity_id actor) decision action storage active trigger st) (\<lambda>(payload, st1).
      rbind (consume_action_start_triggers actor_id decision action storages st1) (\<lambda>(rest, st2). Inr (payload @ rest, st2)))
      = Inr (payload, st')" by (simp split: if_splits)
  then obtain p1 st1 p2 where "consume_trigger actor_id (en_entity_id actor) decision action storage active trigger st = Inr (p1, st1)"
    "consume_action_start_triggers actor_id decision action storages st1 = Inr (p2, st')" "payload = p1 @ p2"
    by (auto simp: rbind_eq_Inr)
  then show thesis by (rule one [OF t])
qed (rule skip)

lemma quiet_consume_triggers:
  "consume_action_start_triggers actor_id decision action storages st = Inr (payload, st') \<Longrightarrow> quiet (fst st) (fst st')"
proof (induction storages arbitrary: st payload)
  case (Cons storage storages)
  from Cons.prems show ?case
  proof (cases rule: consume_triggers_Cons)
    case skip
    then show ?thesis by (rule Cons.IH)
  next
    case (one actor active trigger p1 p2 st1)
    from quiet_consume_trigger [OF one(2)] Cons.IH [OF one(3)] show ?thesis by (rule quiet_trans)
  qed
qed simp

lemma quiet_commit:
  assumes "map_of (env_entities env) k = Some actor" "commit_actor rnd action now actor = Inr actor'"
  shows "quiet env (put_entity k actor' env)" "en_entity_id actor' = en_entity_id actor" "en_life_id actor' = en_life_id actor"
  using assms by (auto simp: commit_actor_def result_simps same_life_def intro!: quiet_put_entity)

subsection \<open>Executions\<close>

definition keyed :: "environment \<Rightarrow> bool" where
  "keyed env \<longleftrightarrow> distinct (map fst (env_executions env))
     \<and> (\<forall>k x. map_of (env_executions env) k = Some x \<longrightarrow>
          k = (ex_actor_entity_id x, ex_correlation_id x) \<and> ex_cancel_token x = cancel_token (fst k) (snd k))
     \<and> (\<forall>k e. map_of (env_entities env) k = Some e \<longrightarrow> en_entity_id e = k)"

lemma keyed_execution: "keyed env \<Longrightarrow> map_of (env_executions env) k = Some x \<Longrightarrow>
    k = (ex_actor_entity_id x, ex_correlation_id x) \<and> ex_cancel_token x = cancel_token (fst k) (snd k)"
  unfolding keyed_def by blast

lemma keyed_entity: "keyed env \<Longrightarrow> map_of (env_entities env) k = Some e \<Longrightarrow> en_entity_id e = k"
  unfolding keyed_def by blast

lemma keyedI:
  assumes "distinct (map fst (env_executions env))"
    and "\<And>k x. map_of (env_executions env) k = Some x \<Longrightarrow> k = (ex_actor_entity_id x, ex_correlation_id x) \<and> ex_cancel_token x = cancel_token (fst k) (snd k)"
    and "\<And>k e. map_of (env_entities env) k = Some e \<Longrightarrow> en_entity_id e = k"
  shows "keyed env"
  unfolding keyed_def using assms by blast

lemma put_execution_map_of [simp]:
  "map_of (env_executions (put_execution k x env)) k' = (if k' = k then Some x else map_of (env_executions env) k')"
  by (simp add: put_execution_def update_conv')

lemma put_execution_fields [simp]:
  "env_catalog (put_execution k x env) = env_catalog env" "env_entities (put_execution k x env) = env_entities env"
  "env_scheduled (put_execution k x env) = env_scheduled env"
  "env_cancelled_tokens (put_execution k x env) = env_cancelled_tokens env"
  "env_next_schedule_order (put_execution k x env) = env_next_schedule_order env"
  by (simp_all add: put_execution_def)

lemma put_execution_distinct:
  "distinct (map fst (env_executions env)) \<Longrightarrow> distinct (map fst (env_executions (put_execution k x env)))"
  by (simp add: put_execution_def distinct_update)

lemma keyed_put_execution:
  assumes "keyed env" "k = (ex_actor_entity_id x, ex_correlation_id x)" "ex_cancel_token x = cancel_token (fst k) (snd k)"
  shows "keyed (put_execution k x env)"
proof (rule keyedI)
  show "distinct (map fst (env_executions (put_execution k x env)))" using assms(1) by (simp add: keyed_def put_execution_distinct)
  show "k' = (ex_actor_entity_id x', ex_correlation_id x') \<and> ex_cancel_token x' = cancel_token (fst k') (snd k')"
    if "map_of (env_executions (put_execution k x env)) k' = Some x'" for k' x'
  proof (cases "k' = k")
    case True
    then have "x' = x" using that by simp
    with True assms(2,3) show ?thesis by metis
  next
    case False
    with that have "map_of (env_executions env) k' = Some x'" by simp
    then show ?thesis by (rule keyed_execution [OF assms(1)])
  qed
  show "en_entity_id e = k'" if "map_of (env_entities (put_execution k x env)) k' = Some e" for k' e
    using that keyed_entity [OF assms(1)] by simp
qed

lemma keyed_quiet:
  assumes "quiet env env'" "keyed env"
  shows "keyed env'"
proof (rule keyedI)
  have same: "env_executions env' = env_executions env" and le: "entities_le env env'" using assms(1) by (simp_all add: quiet_def)
  show "distinct (map fst (env_executions env'))" using assms(2) by (simp add: keyed_def same)
  show "k = (ex_actor_entity_id x, ex_correlation_id x) \<and> ex_cancel_token x = cancel_token (fst k) (snd k)"
    if "map_of (env_executions env') k = Some x" for k x
    using that keyed_execution [OF assms(2)] unfolding same by blast
  show "en_entity_id e' = k" if "map_of (env_entities env') k = Some e'" for k e'
    using entities_le_Some [OF le that] keyed_entity [OF assms(2)] by metis
qed

lemma keyed_appends [simp]: "keyed (appends items env) = keyed env"
  by (simp add: keyed_def)

lemma keyed_schedule [simp]: "keyed (env\<lparr>env_scheduled := q\<rparr>) = keyed env"
  by (simp add: keyed_def)

lemma interrupt_execution_Inr:
  assumes "interrupt_execution actor_id reason due k x st = Inr st'"
  shows "quiet (put_execution k (x\<lparr>ex_status := STATUS_INTERRUPTED\<rparr>)
    ((fst st)\<lparr>env_cancelled_tokens := insert (ex_cancel_token x) (env_cancelled_tokens (fst st))\<rparr>)) (fst st')"
  using assms quiet_emit unfolding interrupt_execution_def by fastforce

text \<open>What a run of interruptions does to the executions it is given.\<close>

lemma interrupt_each_Inr:
  assumes "interrupt_each sel frees actor_id reason due L st = Inr st'" "distinct (map fst L)"
    and "keyed (fst st)" "\<forall>(k, x) \<in> set L. map_of (env_executions (fst st)) k = Some x"
  shows "entities_le (fst st) (fst st') \<and> env_catalog (fst st') = env_catalog (fst st) \<and> env_scheduled (fst st') = env_scheduled (fst st)
    \<and> env_next_schedule_order (fst st') = env_next_schedule_order (fst st) \<and> keyed (fst st')
    \<and> env_cancelled_tokens (fst st') = env_cancelled_tokens (fst st) \<union> ex_cancel_token ` {x \<in> snd ` set L. sel x}
    \<and> (\<forall>k. map_of (env_executions (fst st')) k =
         (case map_of L k of Some x \<Rightarrow> if sel x then Some (x\<lparr>ex_status := STATUS_INTERRUPTED\<rparr>) else map_of (env_executions (fst st)) k
          | None \<Rightarrow> map_of (env_executions (fst st)) k))"
  using assms
proof (induction sel frees actor_id reason due L st rule: interrupt_each.induct)
  case (1 sel frees actor_id reason due st)
  then show ?case by simp
next
  case (2 sel frees actor_id reason due k x xs st)
  have nk: "map_of xs k = None" using "2.prems"(2) by (auto simp: map_of_eq_None_iff image_iff)
  show ?case
  proof (cases "sel x")
    case False
    with "2.prems"(1) have r: "interrupt_each sel frees actor_id reason due xs st = Inr st'" by simp
    have "{y \<in> snd ` set ((k, x) # xs). sel y} = {y \<in> snd ` set xs. sel y}" using False by auto
    with "2.IH"(1) [OF False r] "2.prems" nk False show ?thesis by (simp split: option.split)
  next
    case True
    let ?e0 = "if frees then free_actor actor_id (ex_actor_life_id x) due (fst st) else fst st"
    from "2.prems"(1) True obtain st1 where i: "interrupt_execution actor_id reason due k x (?e0, snd st) = Inr st1"
      and r: "interrupt_each sel frees actor_id reason due xs st1 = Inr st'" by (auto simp: result_simps)
    have q0: "quiet (fst st) ?e0" using quiet_free_actor by simp
    let ?e1 = "put_execution k (x\<lparr>ex_status := STATUS_INTERRUPTED\<rparr>)
      (?e0\<lparr>env_cancelled_tokens := insert (ex_cancel_token x) (env_cancelled_tokens ?e0)\<rparr>)"
    have q1: "quiet ?e1 (fst st1)" using interrupt_execution_Inr [OF i] by simp
    have k: "keyed (fst st)" "map_of (env_executions (fst st)) k = Some x" using "2.prems"(3,4) by auto
    then have kx: "k = (ex_actor_entity_id x, ex_correlation_id x)" "ex_cancel_token x = cancel_token (fst k) (snd k)"
      using keyed_execution by blast+
    have "keyed (?e0\<lparr>env_cancelled_tokens := insert (ex_cancel_token x) (env_cancelled_tokens ?e0)\<rparr>)"
      using keyed_quiet [OF q0 k(1)] by (simp add: keyed_def)
    then have "keyed ?e1" by (rule keyed_put_execution) (use kx in simp_all)
    then have k1: "keyed (fst st1)" by (rule keyed_quiet [OF q1])
    have ex1: "map_of (env_executions (fst st1)) k' = (if k' = k then Some (x\<lparr>ex_status := STATUS_INTERRUPTED\<rparr>) else map_of (env_executions (fst st)) k')" for k'
      using q0 q1 by (simp add: quiet_def)
    have "\<forall>(k', x') \<in> set xs. map_of (env_executions (fst st1)) k' = Some x'"
    proof (intro ballI case_prodI2)
      fix p k' x' assume p: "p \<in> set xs" "p = (k', x')"
      then have "k' \<noteq> k" using "2.prems"(2) by (auto simp: image_iff)
      moreover have "map_of (env_executions (fst st)) k' = Some x'" using "2.prems"(4) p by auto
      ultimately show "map_of (env_executions (fst st1)) k' = Some x'" by (simp add: ex1)
    qed
    from "2.IH"(2) [OF _ r _ k1 this] True "2.prems"(2)
    have IH: "entities_le (fst st1) (fst st') \<and> env_catalog (fst st') = env_catalog (fst st1) \<and> env_scheduled (fst st') = env_scheduled (fst st1)
      \<and> env_next_schedule_order (fst st') = env_next_schedule_order (fst st1) \<and> keyed (fst st')
      \<and> env_cancelled_tokens (fst st') = env_cancelled_tokens (fst st1) \<union> ex_cancel_token ` {x \<in> snd ` set xs. sel x}
      \<and> (\<forall>k. map_of (env_executions (fst st')) k =
         (case map_of xs k of Some x \<Rightarrow> if sel x then Some (x\<lparr>ex_status := STATUS_INTERRUPTED\<rparr>) else map_of (env_executions (fst st1)) k
          | None \<Rightarrow> map_of (env_executions (fst st1)) k))" by simp
    have "entities_le (fst st) (fst st1)"
    proof -
      have "entities_le ?e0 ?e1" by (rule entities_le_same) simp
      then show ?thesis using q0 q1 by (meson quiet_def entities_le_trans)
    qed
    moreover have "env_cancelled_tokens (fst st1) = insert (ex_cancel_token x) (env_cancelled_tokens (fst st))"
      "env_catalog (fst st1) = env_catalog (fst st)" "env_scheduled (fst st1) = env_scheduled (fst st)"
      "env_next_schedule_order (fst st1) = env_next_schedule_order (fst st)" using q0 q1 by (simp_all add: quiet_def)
    ultimately show ?thesis using IH True nk entities_le_trans by (auto simp: ex1 split: option.split)
  qed
qed

text \<open>Some unfinished executions were interrupted, nothing else of the lifecycle changed.\<close>

definition interrupts :: "environment \<Rightarrow> environment \<Rightarrow> bool" where
  "interrupts env env' \<longleftrightarrow> entities_le env env' \<and> env_catalog env' = env_catalog env \<and> env_scheduled env' = env_scheduled env
     \<and> env_next_schedule_order env' = env_next_schedule_order env \<and> keyed env'
     \<and> (\<exists>sel. (\<forall>x. sel x \<longrightarrow> \<not> is_terminal x)
          \<and> (\<forall>k. map_of (env_executions env') k =
               map_option (\<lambda>x. if sel x then x\<lparr>ex_status := STATUS_INTERRUPTED\<rparr> else x) (map_of (env_executions env) k))
          \<and> env_cancelled_tokens env' = env_cancelled_tokens env
              \<union> {ex_cancel_token x | k x. map_of (env_executions env) k = Some x \<and> sel x})"

lemma interrupt_each_interrupts:
  assumes "interrupt_each sel frees actor_id reason due (ordered_executions env) st = Inr st'" "keyed (fst st)"
    and "env_executions (fst st) = env_executions env" "\<And>x. sel x \<Longrightarrow> \<not> is_terminal x"
  shows "interrupts (fst st) (fst st')"
proof -
  let ?L = "ordered_executions env"
  have d: "distinct (map fst (env_executions env))" using assms(2,3) by (simp add: keyed_def)
  have m: "map_of ?L = map_of (env_executions env)" unfolding ordered_executions_def by (rule map_of_sort_key [OF d])
  have dL: "distinct (map fst ?L)" unfolding ordered_executions_def by (simp add: distinct_map_sort_key d)
  have "\<forall>(k, x) \<in> set ?L. map_of (env_executions (fst st)) k = Some x"
    using dL m assms(3) by (metis (mono_tags, lifting) case_prodI2 map_of_eq_Some_iff)
  note r = interrupt_each_Inr [OF assms(1) dL assms(2) this, unfolded m]
  have "snd ` set ?L = {x. \<exists>k. map_of (env_executions env) k = Some x}"
    using dL by (force simp: m [symmetric])
  then have t: "ex_cancel_token ` {x \<in> snd ` set ?L. sel x} = {ex_cancel_token x | k x. map_of (env_executions (fst st)) k = Some x \<and> sel x}"
    unfolding assms(3) by blast
  have e: "map_of (env_executions (fst st')) k = map_option (\<lambda>x. if sel x then x\<lparr>ex_status := STATUS_INTERRUPTED\<rparr> else x) (map_of (env_executions (fst st)) k)" for k
  proof -
    from r have "map_of (env_executions (fst st')) k = (case map_of (env_executions env) k of
        Some x \<Rightarrow> if sel x then Some (x\<lparr>ex_status := STATUS_INTERRUPTED\<rparr>) else map_of (env_executions (fst st)) k
      | None \<Rightarrow> map_of (env_executions (fst st)) k)" by blast
    then show ?thesis unfolding assms(3) by (cases "map_of (env_executions env) k") auto
  qed
  show ?thesis unfolding interrupts_def using r t e assms(4) by (intro conjI exI [of _ sel]) auto
qed

lemma interrupt_actor_interrupts:
  assumes "interrupt_actor actor_id trigger due st = Inr st'" "keyed (fst st)"
  shows "interrupts (fst st) (fst st')"
proof -
  from assms(1) obtain actor where "interrupt_each (\<lambda>x. owned_by actor actor_id x \<and> interruptible_by trigger x) True actor_id trigger due
      (ordered_executions (fst st)) st = Inr st'"
    unfolding interrupt_actor_def by (auto simp: rbind_eq_Inr split: if_splits)
  then show ?thesis by (rule interrupt_each_interrupts) (use assms(2) in \<open>auto simp: owned_by_def\<close>)
qed

lemma cleanup_dead_actor_interrupts:
  assumes "cleanup_dead_actor actor_id due st = Inr st'" "keyed (fst st)"
  shows "\<exists>env1. quiet (fst st) env1 \<and> interrupts env1 (fst st')"
proof -
  from assms(1) obtain actor0 where a: "map_of (env_entities (fst st)) actor_id = Some actor0" and
    i: "interrupt_each (owned_by (actor0\<lparr>en_velocity := \<lparr>vx = 0, vy = 0\<rparr>, en_busy_until_ms := min (en_busy_until_ms actor0) due\<rparr>) actor_id)
      False actor_id ''death'' due (ordered_executions (fst st))
      (put_entity actor_id (actor0\<lparr>en_velocity := \<lparr>vx = 0, vy = 0\<rparr>, en_busy_until_ms := min (en_busy_until_ms actor0) due\<rparr>) (fst st), snd st) = Inr st'"
    unfolding cleanup_dead_actor_def by (auto simp: rbind_eq_Inr Let_def env_entity_Inr)
  let ?e = "put_entity actor_id (actor0\<lparr>en_velocity := \<lparr>vx = 0, vy = 0\<rparr>, en_busy_until_ms := min (en_busy_until_ms actor0) due\<rparr>) (fst st)"
  have q: "quiet (fst st) ?e" by (rule quiet_put_entity [OF a]) (simp_all add: same_life_def)
  have "interrupts (fst (?e, snd st)) (fst st')"
    by (rule interrupt_each_interrupts [OF i]) (use keyed_quiet [OF q assms(2)] in \<open>auto simp: owned_by_def put_entity_def\<close>)
  with q show ?thesis by auto
qed

lemma start_action_parts:
  assumes "start_action rnd hypot d action (env, evs) = Inr (env', evs')"
  obtains actor0 st1 actor1 actor2 st2 first_phase fs triggered st3 target_life where
    "map_of (env_entities env) (dm_agent_id d) = Some actor0"
    "map_of (env_executions env) (en_entity_id actor0, dm_correlation_id d) = None"
    "pay_costs rnd (dm_agent_id d) (dm_correlation_id d) (ac_action_key action) (ac_costs action) (env, evs) = Inr st1"
    "map_of (env_entities (fst st1)) (dm_agent_id d) = Some actor1"
    "commit_actor rnd action (env_now env) actor1 = Inr actor2"
    "emit ''action_started'' (env_now env) fs (put_entity (dm_agent_id d) actor2 (fst st1), snd st1) = Inr st2"
    "consume_action_start_triggers (dm_agent_id d) d action (sort (map fst (en_effects actor2))) st2 = Inr (triggered, st3)"
    "schedule_action_phase rnd hypot (en_entity_id actor0, dm_correlation_id d)
        (new_execution actor2 d action first_phase target_life triggered (env_now env)) action 0 (env_now env)
        (put_execution (en_entity_id actor0, dm_correlation_id d)
           (new_execution actor2 d action first_phase target_life triggered (env_now env)) (fst st3)) = Inr env'"
    "action_execution_ok (new_execution actor2 d action first_phase target_life triggered (env_now env)) = Inr ()"
proof -
  have guard: "(if c then Inl e else r) = Inr y \<longleftrightarrow> \<not> c \<and> r = Inr y" for c e and r :: "'z result" and y by simp
  from assms [unfolded start_action_def Let_def rbind_eq_Inr validated_Inr entity_at_Inr guard fst_conv snd_conv case_prod_beta]
  obtain actor0 st1 actor1 actor2 st2 p first_phase fs where
    a0: "map_of (env_entities env) (dm_agent_id d) = Some actor0"
    and fresh: "\<not> map_of (env_executions env) (en_entity_id actor0, dm_correlation_id d) \<noteq> None"
    and st1: "pay_costs rnd (dm_agent_id d) (dm_correlation_id d) (ac_action_key action) (ac_costs action) (env, evs) = Inr st1"
    and a1: "map_of (env_entities (fst st1)) (dm_agent_id d) = Some actor1"
    and a2: "commit_actor rnd action (env_now env) actor1 = Inr actor2"
    and st2: "emit ''action_started'' (env_now env) fs (put_entity (dm_agent_id d) actor2 (fst st1), snd st1) = Inr st2"
    and st3': "consume_action_start_triggers (dm_agent_id d) d action (sort (map fst (en_effects actor2))) st2 = Inr p"
    and ph': "\<exists>x env2. x = new_execution actor2 d action first_phase (case ab_target_entity_id (dm_binding d) of None \<Rightarrow> None
             | Some t \<Rightarrow> map_option en_life_id (map_of (env_entities (fst (snd p))) t)) (fst p) (env_now env)
        \<and> action_execution_ok x = Inr ()
        \<and> schedule_action_phase rnd hypot (en_entity_id actor0, dm_correlation_id d) x action 0 (env_now env)
        (put_execution (en_entity_id actor0, dm_correlation_id d) x (fst (snd p))) = Inr env2 \<and> Inr (env2, snd (snd p)) = (Inr (env', evs') :: (environment \<times> event list) result)"
    by blast
  obtain triggered st3 where p: "p = (triggered, st3)" by (cases p)
  note st3 = st3' [unfolded p]
  from ph' p obtain target_life where ph: "schedule_action_phase rnd hypot (en_entity_id actor0, dm_correlation_id d)
        (new_execution actor2 d action first_phase target_life triggered (env_now env)) action 0 (env_now env)
        (put_execution (en_entity_id actor0, dm_correlation_id d)
           (new_execution actor2 d action first_phase target_life triggered (env_now env)) (fst st3)) = Inr env'"
    and ok: "action_execution_ok (new_execution actor2 d action first_phase target_life triggered (env_now env)) = Inr ()"
    by auto
  show thesis by (rule that [OF a0 _ st1 a1 a2 st2 st3 ph ok]) (use fresh in simp)
qed

lemma start_action_Inr:
  assumes "start_action rnd hypot d action (env, evs) = Inr (env', evs')" "keyed env"
  obtains env1 x0 x k items last where "quiet env env1" "map_of (env_executions env) k = None"
    "env' = put_execution k x (appends (items @ [last]) (put_execution k x0 env1))"
    "fresh_orders (env_next_schedule_order env) (items @ [last])" "advances last action x"
    "k = (ex_actor_entity_id x, ex_correlation_id x)" "ex_cancel_token x = cancel_token (fst k) (snd k)"
    "k = (ex_actor_entity_id x0, ex_correlation_id x0)" "ex_cancel_token x0 = cancel_token (fst k) (snd k)"
    "ex_phase_index x = 0" "0 < length (ac_phases action)" "\<not> is_terminal x" "ex_action_key x = ac_action_key action"
    "fst k \<in> dom (map_of (env_entities env))"
proof -
  from assms(1) obtain actor0 st1 actor1 actor2 st2 first_phase fs triggered st3 target_life where
    a0: "map_of (env_entities env) (dm_agent_id d) = Some actor0"
    and fresh: "map_of (env_executions env) (en_entity_id actor0, dm_correlation_id d) = None"
    and st1: "pay_costs rnd (dm_agent_id d) (dm_correlation_id d) (ac_action_key action) (ac_costs action) (env, evs) = Inr st1"
    and a1: "map_of (env_entities (fst st1)) (dm_agent_id d) = Some actor1"
    and a2: "commit_actor rnd action (env_now env) actor1 = Inr actor2"
    and st2: "emit ''action_started'' (env_now env) fs (put_entity (dm_agent_id d) actor2 (fst st1), snd st1) = Inr st2"
    and st3: "consume_action_start_triggers (dm_agent_id d) d action (sort (map fst (en_effects actor2))) st2 = Inr (triggered, st3)"
    and ph: "schedule_action_phase rnd hypot (en_entity_id actor0, dm_correlation_id d)
        (new_execution actor2 d action first_phase target_life triggered (env_now env)) action 0 (env_now env)
        (put_execution (en_entity_id actor0, dm_correlation_id d)
           (new_execution actor2 d action first_phase target_life triggered (env_now env)) (fst st3)) = Inr env'"
    and "action_execution_ok (new_execution actor2 d action first_phase target_life triggered (env_now env)) = Inr ()"
    by (rule start_action_parts)
  let ?k = "(en_entity_id actor0, dm_correlation_id d)"
  let ?x0 = "new_execution actor2 d action first_phase target_life triggered (env_now env)"
  have q1: "quiet env (fst st1)" using quiet_pay_costs [OF st1] by simp
  have q2: "quiet (fst st1) (fst st2)" using quiet_commit(1) [OF a1 a2] quiet_emit [OF st2] by (auto intro: quiet_trans)
  have q: "quiet env (fst st3)" using q1 q2 quiet_consume_triggers [OF st3] by (blast intro: quiet_trans)
  have id: "en_entity_id actor2 = dm_agent_id d" "en_entity_id actor0 = dm_agent_id d"
    using quiet_commit(2) [OF a1 a2] keyed_entity [OF keyed_quiet [OF q1 assms(2)] a1] keyed_entity [OF assms(2) a0] by simp_all
  have k3: "keyed (fst st3)" by (rule keyed_quiet [OF q assms(2)])
  have keys: "en_entity_id e = ex_actor_entity_id ?x0"
    if "map_of (env_entities (put_execution ?k ?x0 (fst st3))) (ex_actor_entity_id ?x0) = Some e" for e
    using that keyed_entity [OF k3] by (simp add: new_execution_def)
  from schedule_action_phase_Inr [OF ph order.refl keys] obtain items last x where
    r: "env' = put_execution ?k x (appends (items @ [last]) (put_execution ?k ?x0 (fst st3)))"
    "fresh_orders (env_next_schedule_order (put_execution ?k ?x0 (fst st3))) (items @ [last])" "advances last action x" "same_execution ?x0 x"
    "ex_phase_index x = 0" "0 < int (length (ac_phases action))" "\<not> is_terminal x" by blast
  show thesis
  proof (rule that [of "fst st3" ?k x items last ?x0])
    show "fresh_orders (env_next_schedule_order env) (items @ [last])" using r(2) q by (simp add: quiet_def)
  qed (use q fresh r id a0 in \<open>auto simp: same_execution_def new_execution_def\<close>)
qed

end
