(* ===== verification/Entity_Frame.thy ===== *)
theory Entity_Frame
  imports Sim_Effects Sim_Frame
begin

text \<open>
  Valid entities and the updates that keep them valid. An entity is valid if it passes the checks of its
  constructor and of its active effects; its maximums never change. The lemmas cover every way the
  simulator writes to an entity: scalars below their maximum, inventories, tags, stances, positions,
  effects, cooldowns and deaths.
\<close>

subsection \<open>What the constructor checks\<close>

lemma maximums_ok_Inr [result_simps]:
  "maximums_ok scalars maximums = Inr u \<longleftrightarrow>
     (\<forall>x \<in> set maximums. 0 \<le> snd x \<and> (\<forall>v. map_of scalars (fst x) = Some v \<longrightarrow> v \<le> snd x))"
  by (simp add: maximums_ok_def riter_eq_Inr checks_eq_Inr case_prod_beta not_less split: option.split) (metis option.exhaust)

lemma stance_multiplier_ok_Inr [result_simps]:
  "stance_multiplier_ok scalars sm = Inr u \<longleftrightarrow>
     fst sm \<notin> {STANCE_NORMAL, STANCE_TRAVEL} \<and> (\<forall>x \<in> set (snd sm). nonblank (fst x)) \<and> (\<forall>x \<in> set (snd sm). 0 < snd x)
     \<and> fst ` set (snd sm) \<subseteq> fst ` set scalars"
  by (simp add: stance_multiplier_ok_def result_simps Let_def list_ex_iff sort_key_Nil_iff filter_empty_conv not_le case_prod_beta image_subset_iff
      cong: conj_cong) (metis not_less)

lemma entity_state_ok_Inr:
  "entity_state_ok e = Inr () \<longleftrightarrow>
     nonblank (en_entity_id e) \<and> nonblank (en_life_id e) \<and> (\<forall>t. en_team_id e = Some t \<longrightarrow> nonblank t)
     \<and> (\<forall>x \<in> set (en_scalars e). nonblank (fst x)) \<and> (\<forall>x \<in> set (en_maximums e). nonblank (fst x))
     \<and> (\<forall>x \<in> set (en_maximums e). 0 \<le> snd x \<and> (\<forall>v. map_of (en_scalars e) (fst x) = Some v \<longrightarrow> v \<le> snd x))
     \<and> (\<forall>t \<in> en_tags e. nonblank t) \<and> distinct (en_action_keys e) \<and> (\<forall>k \<in> set (en_action_keys e). nonblank k)
     \<and> (\<forall>x \<in> set (en_inventory e). nonblank (fst x)) \<and> (\<forall>x \<in> set (en_inventory e). 0 \<le> snd x)
     \<and> (\<forall>x \<in> set (en_effects e). nonblank (fst x) \<and> fst x = storage_key (ae_stacking_key (snd x)) (ae_effect_key (snd x)))
     \<and> (\<forall>x \<in> set (en_cooldowns e). nonblank (fst x) \<and> 0 \<le> snd x) \<and> 0 \<le> en_busy_until_ms e
     \<and> (\<forall>x \<in> set (en_stance_multipliers e). fst x \<notin> {STANCE_NORMAL, STANCE_TRAVEL} \<and> (\<forall>y \<in> set (snd x). nonblank (fst y))
          \<and> (\<forall>y \<in> set (snd x). 0 < snd y) \<and> fst ` set (snd x) \<subseteq> fst ` set (en_scalars e))"
  unfolding entity_state_ok_def rbind_eq_Inr riter_eq_Inr checks_eq_Inr case_prod_beta py_identifier_Inr finite_mapping_Inr
    maximums_ok_Inr set_identifiers_Inr stance_multiplier_ok_Inr optional_Inr non_negative_integer_Inr
  by (simp add: list_ex_iff not_less)

subsection \<open>Valid entities\<close>

text \<open>An entity passes its checks, and has the given maximums, which are floats.\<close>

definition valid_entity :: "(string \<times> rat) list \<Rightarrow> entity_state \<Rightarrow> bool" where
  "valid_entity maxima e \<longleftrightarrow> entity_state_ok e = Inr () \<and> entity_wf e \<and> en_maximums e = maxima
     \<and> (\<forall>x \<in> set maxima. f64 (snd x) = snd x)"

definition keeps_valid :: "(string \<times> rat) list \<Rightarrow> (entity_state \<Rightarrow> entity_state) \<Rightarrow> bool" where
  "keeps_valid maxima f \<longleftrightarrow> (\<forall>e. valid_entity maxima e \<longrightarrow> same_life e (f e) \<and> valid_entity maxima (f e))"

named_theorems valid_intros \<open>updates that keep entities valid\<close>

text \<open>Validity field by field.\<close>

definition scalars_valid :: "(string \<times> rat) list \<Rightarrow> string set \<Rightarrow> (string \<times> rat) list \<Rightarrow> bool" where
  "scalars_valid maxima required scalars \<longleftrightarrow> distinct (map fst scalars) \<and> (\<forall>x \<in> set scalars. nonblank (fst x))
     \<and> (\<forall>x \<in> set maxima. \<forall>v. map_of scalars (fst x) = Some v \<longrightarrow> v \<le> snd x) \<and> required \<subseteq> fst ` set scalars"

definition inventory_valid :: "(string \<times> rat) list \<Rightarrow> bool" where
  "inventory_valid inventory \<longleftrightarrow> distinct (map fst inventory) \<and> (\<forall>x \<in> set inventory. nonblank (fst x) \<and> 0 \<le> snd x)"

definition effect_valid :: "string \<Rightarrow> active_effect \<Rightarrow> bool" where
  "effect_valid storage a \<longleftrightarrow> nonblank storage \<and> storage = storage_key (ae_stacking_key a) (ae_effect_key a)
     \<and> effect_wf a \<and> active_effect_ok a = Inr ()"

definition effects_valid :: "(string \<times> active_effect) list \<Rightarrow> bool" where
  "effects_valid effects \<longleftrightarrow> distinct (map fst effects) \<and> (\<forall>x \<in> set effects. effect_valid (fst x) (snd x))"

definition cooldowns_valid :: "(string \<times> int) list \<Rightarrow> bool" where
  "cooldowns_valid cooldowns \<longleftrightarrow> distinct (map fst cooldowns) \<and> (\<forall>x \<in> set cooldowns. nonblank (fst x) \<and> 0 \<le> snd x)"

definition tags_valid :: "string set \<Rightarrow> bool" where
  "tags_valid tags \<longleftrightarrow> finite tags \<and> (\<forall>t \<in> tags. nonblank t)"

definition maxima_valid :: "(string \<times> rat) list \<Rightarrow> bool" where
  "maxima_valid maxima \<longleftrightarrow> distinct (map fst maxima) \<and> (\<forall>x \<in> set maxima. nonblank (fst x) \<and> 0 \<le> snd x \<and> f64 (snd x) = snd x)"

definition stances_valid :: "(combat_stance \<times> (string \<times> rat) list) list \<Rightarrow> bool" where
  "stances_valid stances \<longleftrightarrow> distinct (map fst stances) \<and> (\<forall>x \<in> set stances. fst x \<notin> {STANCE_NORMAL, STANCE_TRAVEL}
     \<and> distinct (map fst (snd x)) \<and> (\<forall>y \<in> set (snd x). nonblank (fst y) \<and> 0 < snd y))"

lemma valid_entity_parts:
  "valid_entity maxima e \<longleftrightarrow>
     nonblank (en_entity_id e) \<and> nonblank (en_life_id e) \<and> (\<forall>t. en_team_id e = Some t \<longrightarrow> nonblank t)
     \<and> en_maximums e = maxima \<and> maxima_valid maxima
     \<and> scalars_valid maxima (\<Union>x \<in> set (en_stance_multipliers e). fst ` set (snd x)) (en_scalars e)
     \<and> tags_valid (en_tags e) \<and> distinct (en_action_keys e) \<and> (\<forall>k \<in> set (en_action_keys e). nonblank k)
     \<and> inventory_valid (en_inventory e) \<and> effects_valid (en_effects e) \<and> cooldowns_valid (en_cooldowns e)
     \<and> 0 \<le> en_busy_until_ms e \<and> stances_valid (en_stance_multipliers e)"
proof (cases "en_maximums e = maxima")
  case True
  then have m: "maxima = en_maximums e" ..
  show ?thesis
    unfolding m valid_entity_def entity_state_ok_Inr entity_wf_def maxima_valid_def scalars_valid_def tags_valid_def inventory_valid_def
      effects_valid_def effect_valid_def cooldowns_valid_def stances_valid_def list_all_iff case_prod_beta UN_subset_iff ball_conj_distrib
    by (intro iffI; elim conjE; intro conjI; (assumption | rule refl))
qed (simp add: valid_entity_def)

lemma valid_entityD:
  assumes "valid_entity maxima e"
  shows "entity_state_ok e = Inr ()" "entity_wf e" "en_maximums e = maxima" "\<And>key m. map_of maxima key = Some m \<Longrightarrow> f64 m = m"
    "\<And>key m. map_of maxima key = Some m \<Longrightarrow> 0 \<le> m"
    "\<And>key m v. map_of maxima key = Some m \<Longrightarrow> map_of (en_scalars e) key = Some v \<Longrightarrow> v \<le> m"
    "\<And>storage a. map_of (en_effects e) storage = Some a \<Longrightarrow> effect_valid storage a"
    "\<And>key v. map_of (en_inventory e) key = Some v \<Longrightarrow> 0 \<le> v"
proof -
  show "entity_state_ok e = Inr ()" "entity_wf e" "en_maximums e = maxima" using assms by (simp_all add: valid_entity_def)
  have parts: "maxima_valid maxima" "\<forall>x \<in> set maxima. \<forall>v. map_of (en_scalars e) (fst x) = Some v \<longrightarrow> v \<le> snd x"
    "effects_valid (en_effects e)" "inventory_valid (en_inventory e)"
    using assms by (simp_all add: valid_entity_parts scalars_valid_def)
  show "f64 m = m" "0 \<le> m" if "map_of maxima key = Some m" for key m
    using parts(1) map_of_SomeD [OF that] by (force simp: maxima_valid_def)+
  show "v \<le> m" if "map_of maxima key = Some m" "map_of (en_scalars e) key = Some v" for key m v
    using bspec [OF parts(2) map_of_SomeD [OF that(1)]] that(2) by simp
  show "effect_valid storage a" if "map_of (en_effects e) storage = Some a" for storage a
    using parts(3) map_of_SomeD [OF that] by (force simp: effects_valid_def)
  show "0 \<le> v" if "map_of (en_inventory e) key = Some v" for key v
    using parts(4) map_of_SomeD [OF that] by (force simp: inventory_valid_def)
qed

subsection \<open>Updates\<close>

lemma keeps_validI:
  "(\<And>e. valid_entity maxima e \<Longrightarrow> same_life e (f e) \<and> valid_entity maxima (f e)) \<Longrightarrow> keeps_valid maxima f"
  by (simp add: keeps_valid_def)

lemma scalars_valid_update:
  assumes "scalars_valid maxima required scalars" "maxima_valid maxima" "nonblank key" "\<And>m. map_of maxima key = Some m \<Longrightarrow> v \<le> m"
  shows "scalars_valid maxima required (AList.update key v scalars)"
  unfolding scalars_valid_def
proof (intro conjI ballI allI impI)
  show "distinct (map fst (AList.update key v scalars))" using assms(1) by (simp add: scalars_valid_def distinct_update)
  show "required \<subseteq> fst ` set (AList.update key v scalars)"
    using assms(1) keys_update_mono [of scalars key v] by (auto simp: scalars_valid_def)
  show "nonblank (fst x)" if "x \<in> set (AList.update key v scalars)" for x
    using in_update [OF that] assms(1,3) by (auto simp: scalars_valid_def)
  fix x w assume x: "x \<in> set maxima" and w: "map_of (AList.update key v scalars) (fst x) = Some w"
  show "w \<le> snd x"
  proof (cases "fst x = key")
    case True
    have "map_of maxima key = Some (snd x)" using x assms(2) True by (metis map_of_is_SomeI maxima_valid_def prod.collapse)
    from assms(4) [OF this] w True show ?thesis by (simp add: update_conv')
  next
    case False
    then show ?thesis using w x assms(1) by (simp add: update_conv' scalars_valid_def)
  qed
qed

lemma set_scalar_valid [valid_intros]:
  "nonblank key \<Longrightarrow> (\<And>m. map_of maxima key = Some m \<Longrightarrow> v \<le> m) \<Longrightarrow> keeps_valid maxima (set_scalar key v)"
  by (rule keeps_validI) (simp add: valid_entity_parts set_scalar_def same_life_def scalars_valid_update)

lemma set_inventory_valid [valid_intros]: "nonblank key \<Longrightarrow> 0 \<le> v \<Longrightarrow> keeps_valid maxima (set_inventory key v)"
  by (rule keeps_validI)
    (auto simp: valid_entity_parts set_inventory_def same_life_def inventory_valid_def distinct_update dest!: in_update)

lemma put_effect_valid [valid_intros]: "effect_valid storage a \<Longrightarrow> keeps_valid maxima (put_effect storage a)"
  by (rule keeps_validI)
    (auto simp: valid_entity_parts put_effect_def same_life_def effects_valid_def distinct_update dest!: in_update)

lemma pop_effect_valid [valid_intros]: "keeps_valid maxima (pop_effect storage)"
  by (rule keeps_validI)
    (auto simp: valid_entity_parts pop_effect_def same_life_def effects_valid_def distinct_delete dest!: in_delete)

lemma stance_valid [valid_intros]: "keeps_valid maxima (\<lambda>e. e\<lparr>en_stance := stance\<rparr>)"
  by (rule keeps_validI) (simp add: valid_entity_parts same_life_def)

lemma tags_update_valid [valid_intros]: "tags_valid tags \<Longrightarrow> keeps_valid maxima (\<lambda>e. e\<lparr>en_tags := tags\<rparr>)"
  by (rule keeps_validI) (simp add: valid_entity_parts same_life_def)

lemma position_valid [valid_intros]: "keeps_valid maxima (\<lambda>e. e\<lparr>en_position := p\<rparr>)"
  by (rule keeps_validI) (simp add: valid_entity_parts same_life_def)

lemma death_valid [valid_intros]: "keeps_valid maxima (\<lambda>e. e\<lparr>en_alive := False\<rparr>)"
  by (rule keeps_validI) (simp add: valid_entity_parts same_life_def)

lemma busy_valid [valid_intros]: "0 \<le> t \<Longrightarrow> keeps_valid maxima (\<lambda>e. e\<lparr>en_busy_until_ms := t\<rparr>)"
  by (rule keeps_validI) (simp add: valid_entity_parts same_life_def)

end
