(* ===== verification/Effect_Frame.thy ===== *)
theory Effect_Frame
  imports Entity_Frame
begin

text \<open>
  What the executor of effects keeps. The executor works on its host, the environment, through the callbacks of
  its constructor: it reads and writes entities, emits events, draws random numbers, takes orders, schedules
  work and interrupts actors. The locale \<open>executor_host\<close> is that interface, with an invariant that each of
  these calls keeps as long as the entity written is valid and the work scheduled lies strictly in the
  future; inside it every method of the executor is shown to keep the invariant.
\<close>

subsection \<open>Built work\<close>

definition built_item :: "scheduled_item \<Rightarrow> bool" where
  "built_item item \<longleftrightarrow> list_all effect_built (it_effects item) \<and> (\<forall>b. it_binding item = Some b \<longrightarrow> action_binding_ok b = Inr ())"

definition effect_work :: "int \<Rightarrow> scheduled_item \<Rightarrow> bool" where
  "effect_work due item \<longleftrightarrow> it_kind item \<in> {EFFECT_PULSE, EFFECT_EXPIRY} \<and> due < it_due_time_ms item \<and> built_item item"

definition payloads_built :: "action_catalog \<Rightarrow> bool" where
  "payloads_built c \<longleftrightarrow> (\<forall>k t. trigger_for_effect c k = Some t \<longrightarrow> list_all effect_built (at_payload t) \<and> list_all is_direct (at_payload t))"

definition context_built :: "trigger_context \<Rightarrow> bool" where
  "context_built c \<longleftrightarrow> list_all effect_built (at_payload (tc_trigger c))"

lemma matching_contexts_built:
  assumes "payloads_built catalog"
  shows "list_all context_built (matching_trigger_contexts catalog actor key tags)"
proof -
  have "context_built c" if "c \<in> set (case trigger_for_effect catalog (ae_effect_key (snd x)) of
         None \<Rightarrow> []
       | Some trigger \<Rightarrow>
           if trigger_matches trigger key tags
           then [\<lparr>tc_storage_key = fst x, tc_active = snd x, tc_trigger = trigger\<rparr>] else [])" for c and x :: "string \<times> active_effect"
    using that assms by (auto simp: context_built_def payloads_built_def split: option.splits if_splits)
  then show ?thesis unfolding matching_trigger_contexts_def list_all_iff by (auto simp: case_prod_beta)
qed

lemma trigger_item_built: "built_item item \<Longrightarrow> list_all effect_built (at_payload trigger) \<Longrightarrow> built_item (trigger_item item trigger t)"
  by (simp add: built_item_def trigger_item_def work_item_def)

lemma scaled_amount_ok: "scaled_amount amount factor = Inr scaled \<Longrightarrow> amount_spec_ok scaled = Inr ()"
  by (cases amount) (auto simp add: result_simps simp del: amount_spec_ok.simps, simp)

lemma scaled_effect_built: "effect_built effect \<Longrightarrow> scaled_effect multiplier effect = Inr effect' \<Longrightarrow> effect_built effect'"
  by (cases effect) (auto simp add: scaled_effect_def result_simps dest: scaled_amount_ok simp del: effect_ok.simps split: if_splits)

lemma scalar_names: "nonblank ''objective_progress''" "nonblank ''health''"
  by code_simp+

subsection \<open>Amounts are positive\<close>

lemma random_unit_bounds:
  "0 \<le> fst (random_unit r)" "fst (random_unit r) < 1" "random_inv r \<Longrightarrow> random_inv (snd (random_unit r))"
  using next_uint32_range [of r] next_uint32_inv [of r]
  by (simp_all add: random_unit_def case_prod_beta divide_less_eq)

lemma uniform_nonneg:
  assumes "uniform f64 a b r = Inr (v, r')" "0 \<le> a"
  shows "0 \<le> v"
proof -
  from assms(1) have v: "v = f64 (a + f64 (f64 (b - a) * fst (random_unit r)))" and ab: "a \<le> b"
    by (auto simp: uniform_def case_prod_beta Let_def split: if_splits)
  have "0 \<le> f64 (b - a) * fst (random_unit r)" using ab random_unit_bounds(1) [of r] by (simp add: f64.rnd_nonneg)
  then show ?thesis unfolding v using assms(2) by (simp add: f64.rnd_nonneg)
qed

lemma f32_nonneg: "f32 q = Inr v \<Longrightarrow> 0 \<le> q \<Longrightarrow> 0 \<le> v"
  by (simp add: f32_Inr f32_round.rnd_nonneg)

lemma triangular_roll_nonneg:
  assumes "triangular_roll a b u v = Inr q" "0 \<le> a"
  shows "0 \<le> q"
proof -
  from assms(1) obtain span r1 r2 total rolled where
    r: "a \<le> b" "0 \<le> u" "0 \<le> v" "f32 (f64 (b - a)) = Inr span" "f32 (f64 (u * span)) = Inr r1" "f32 (f64 (v * span)) = Inr r2"
      "f32 (f64 (r1 + r2)) = Inr total" "f32 (f64 (total * f32_literal (1 / 2))) = Inr rolled" "f32 (f64 (rolled + a)) = Inr q"
    unfolding triangular_roll_def fraction_ok_def rbind_eq_Inr by (auto split: if_splits)
  have "0 \<le> f32_literal (1 / 2)" by (simp add: f32_literal_def f64.rnd_nonneg f32_round.rnd_nonneg)
  moreover have "0 \<le> span" using r(1) by (simp add: f32_nonneg [OF r(4)] f64.rnd_nonneg)
  moreover from this have "0 \<le> r1" "0 \<le> r2" using r(2,3) by (simp_all add: f32_nonneg [OF r(5)] f32_nonneg [OF r(6)] f64.rnd_nonneg)
  moreover from this have "0 \<le> total" by (simp add: f32_nonneg [OF r(7)] f64.rnd_nonneg)
  ultimately have "0 \<le> rolled" by (simp add: f32_nonneg [OF r(8)] f64.rnd_nonneg)
  then show ?thesis using assms(2) by (simp add: f32_nonneg [OF r(9)] f64.rnd_nonneg)
qed

lemma pick_weighted_mem: "pick_weighted n c outcomes = Inr v \<Longrightarrow> v \<in> fst ` set outcomes"
  by (induction n c outcomes rule: pick_weighted.induct) (auto split: if_splits)

subsection \<open>Active effects stay valid\<close>

lemma effect_valid_magnitude: "effect_valid storage a \<Longrightarrow> effect_valid storage (a\<lparr>ae_magnitude := m\<rparr>)"
  unfolding effect_valid_def effect_wf_def active_effect_ok_def by (elim conjE) simp

lemma dict_of_distinct_keys: "distinct (map fst (dict_of pairs))"
proof -
  have "distinct (map fst d) \<Longrightarrow> distinct (map fst (fold (\<lambda>(k, v) d. AList.update k v d) pairs d))" for d
    by (induction pairs arbitrary: d) (auto simp: distinct_update)
  then show ?thesis by (simp add: dict_of_def)
qed

lemma accumulate_update:
  assumes "map_of values key = Some v" "0 \<le> w" "\<forall>x \<in> set values. 0 \<le> snd x"
  shows "fst ` set (AList.update key w values) = fst ` set values" "\<forall>x \<in> set (AList.update key w values). 0 \<le> snd x"
proof -
  have "key \<in> fst ` set values" using assms(1) by (metis domI dom_map_of_conv_image_fst)
  then show "fst ` set (AList.update key w values) = fst ` set values" by (simp only: dom_update insert_absorb insert_is_Un [symmetric])
  show "\<forall>x \<in> set (AList.update key w values). 0 \<le> snd x" using assms(2,3) by (auto dest!: in_update)
qed

lemma accumulate_valid:
  assumes "accumulate amount breakpoints values = Inr (values', broken)" "0 \<le> amount" "\<forall>x \<in> set values. 0 \<le> snd x"
  shows "fst ` set values' = fst ` set values \<and> (distinct (map fst values) \<longrightarrow> distinct (map fst values')) \<and> (\<forall>x \<in> set values'. 0 \<le> snd x)"
  using assms
proof (induction amount breakpoints "values" arbitrary: values' broken rule: accumulate.induct)
  case (2 amount key threshold rest "values")
  from 2(2) obtain v where v: "map_of values key = Some v" by (cases "map_of values key") simp_all
  have "0 \<le> v" using 2(4) map_of_SomeD [OF v] by force
  then have "0 \<le> f64 (v + amount)" using 2(3) by (simp add: f64.rnd_nonneg)
  note u = accumulate_update [OF v this 2(4)]
  show ?case
  proof (cases "f64 (v + amount) > threshold")
    case True
    then show ?thesis using 2(2) v u by (auto simp: Let_def distinct_update)
  next
    case False
    with 2(2) v have "accumulate amount rest (AList.update key (f64 (v + amount)) values) = Inr (values', broken)" by (simp add: Let_def)
    from 2(1) [OF v refl refl False this 2(3) u(2)] u(1) show ?thesis by (simp add: distinct_update)
  qed
qed simp

lemma modifier_values_valid:
  assumes "effect_valid storage a" "accumulate amount breakpoints (ae_modifier_values a) = Inr (values', broken)" "0 \<le> amount"
  shows "effect_valid storage (a\<lparr>ae_modifier_values := values'\<rparr>)"
proof -
  have ok: "active_effect_ok a = Inr ()" "distinct (map fst (ae_modifier_values a))"
    using assms(1) by (simp_all add: effect_valid_def effect_wf_def)
  have old: "\<forall>x \<in> set (ae_modifier_values a). 0 \<le> snd x" "\<forall>x \<in> set (ae_modifier_values a). nonblank (fst x)"
    using ok(1) unfolding active_effect_ok_def rbind_eq_Inr checks_eq_Inr finite_mapping_Inr by (auto simp: list_ex_iff not_less)
  from accumulate_valid [OF assms(2,3) old(1)] ok(2)
  have new: "fst ` set values' = fst ` set (ae_modifier_values a)" "distinct (map fst values')" "\<forall>x \<in> set values'. 0 \<le> snd x" by auto
  have "\<forall>k \<in> fst ` set values'. nonblank k" unfolding new(1) using old(2) by auto
  then have "\<forall>x \<in> set values'. nonblank (fst x)" by simp
  moreover have "\<not> list_ex (\<lambda>(k, v). v < 0) values'" using new(3) by (auto simp: list_ex_iff)
  ultimately show ?thesis using assms(1) new(1,2)
    unfolding effect_valid_def effect_wf_def active_effect_ok_def rbind_eq_Inr checks_eq_Inr finite_mapping_Inr by (elim conjE) simp
qed

subsection \<open>The host of the executor\<close>

locale executor_host =
  fixes I :: "environment \<Rightarrow> bool" and maxima :: "string \<Rightarrow> (string \<times> rat) list" and due :: int
  assumes entity_valid: "I env \<Longrightarrow> map_of (env_entities env) k = Some e \<Longrightarrow> valid_entity (maxima k) e"
    and keeps_entity: "I env \<Longrightarrow> map_of (env_entities env) k = Some e \<Longrightarrow> same_life e e' \<Longrightarrow> valid_entity (maxima k) e'
      \<Longrightarrow> I (put_entity k e' env)"
    and keeps_event: "I env \<Longrightarrow> I (env\<lparr>env_next_event_number := env_next_event_number env + 1\<rparr>)"
    and random_valid: "I env \<Longrightarrow> random_inv (env_random env)"
    and keeps_random: "I env \<Longrightarrow> random_inv r \<Longrightarrow> I (env\<lparr>env_random := r\<rparr>)"
    and keeps_order: "I env \<Longrightarrow> I (snd (take_schedule_order env))"
    and keeps_schedule: "I env \<Longrightarrow> schedule_new mk env = Inr env' \<Longrightarrow> (\<And>n. it_order (mk n) = n) \<Longrightarrow> (\<And>n. effect_work due (mk n)) \<Longrightarrow> I env'"
    and keeps_interrupt: "I env \<Longrightarrow> interrupt_actor actor_id trigger due (env, evs) = Inr (env', evs') \<Longrightarrow> I env'"
    and catalog_valid: "I env \<Longrightarrow> payloads_built (env_catalog env)"
begin

text \<open>The callbacks as actions.\<close>

lemma bind_aentity [pres_intros]:
  "(\<And>e. valid_entity (maxima k) e \<Longrightarrow> pres I (f e) Q) \<Longrightarrow> pres I (abind (aentity k) f) Q"
  by (rule pres_abind [where Q = "valid_entity (maxima k)"])
    (auto simp: pres_def aentity_def result_simps entity_at_Inr dest: entity_valid)

lemma bind_executor_entity [pres_intros]:
  "(\<And>e. valid_entity (maxima k) e \<Longrightarrow> pres I (f e) Q) \<Longrightarrow> pres I (abind (executor_entity k) f) Q"
  by (rule pres_abind [where Q = "valid_entity (maxima k)"])
    (auto simp: pres_def executor_entity_def dest: entity_valid split: option.splits)

lemma invar_aupdate [pres_intros]: "keeps_valid (maxima k) f \<Longrightarrow> invar I (aupdate k f)"
  by (auto simp: pres_def aupdate_def result_simps entity_at_Inr keeps_valid_def intro: keeps_entity dest: entity_valid)

lemma invar_aemit [pres_intros]: "invar I (aemit kind t fs)"
  by (auto simp: pres_def aemit_def result_simps keeps_event dest!: emit_Inr(1))

lemma invar_aorder [pres_intros]: "invar I aorder"
  using keeps_order by (auto simp: pres_def aorder_def case_prod_beta)

lemma invar_aschedule [pres_intros]:
  "(\<And>n. it_order (mk n) = n) \<Longrightarrow> (\<And>n. effect_work due (mk n)) \<Longrightarrow> invar I (aschedule mk)"
  by (auto simp: pres_def aschedule_def result_simps intro: keeps_schedule)

lemma invar_ainterrupt [pres_intros]: "invar I (ainterrupt actor_id trigger due)"
  using keeps_interrupt by (fastforce simp: pres_def ainterrupt_def result_simps)

lemma pres_arandom: "pres I arandom (\<lambda>u. 0 \<le> u \<and> u < 1)"
  using random_unit_bounds by (auto simp: pres_def arandom_def case_prod_beta Let_def intro!: keeps_random random_valid)

lemma bind_arandom [pres_intros]: "(\<And>u. 0 \<le> u \<Longrightarrow> u < 1 \<Longrightarrow> pres I (f u) Q) \<Longrightarrow> pres I (abind arandom f) Q"
  by (rule pres_abind [OF pres_arandom]) simp

lemma uniform_state: "uniform f64 a b r = Inr (v, r') \<Longrightarrow> r' = snd (random_unit r)"
  by (auto simp: uniform_def case_prod_beta Let_def split: if_splits)

lemma pres_auniform: "pres I (auniform a b) (\<lambda>v. 0 \<le> a \<longrightarrow> 0 \<le> v)"
proof (rule presI)
  fix env evs v env' evs' assume i: "I env" and r: "auniform a b (env, evs) = Inr (v, env', evs')"
  then obtain r' where u: "uniform f64 a b (env_random env) = Inr (v, r')" and e: "env' = env\<lparr>env_random := r'\<rparr>"
    by (auto simp: auniform_def result_simps)
  have "random_inv r'" unfolding uniform_state [OF u] by (intro random_unit_bounds random_valid i)
  with i show "I env' \<and> (0 \<le> a \<longrightarrow> 0 \<le> v)" using uniform_nonneg [OF u] e by (simp add: keeps_random)
qed

lemma bind_auniform [pres_intros]:
  "(\<And>v. (0 \<le> a \<Longrightarrow> 0 \<le> v) \<Longrightarrow> pres I (f v) Q) \<Longrightarrow> pres I (abind (auniform a b) f) Q"
  by (rule pres_abind [OF pres_auniform]) simp

text \<open>Every draw of the executor returns.\<close>

lemma randbelow_total: "I env \<Longrightarrow> \<exists>r. randbelow bound (env_random env) = Some r"
  using randbelow_result [OF random_valid, of env bound] by (cases "0 < bound \<and> bound \<le> 2 ^ 32") (auto simp: randbelow_def)

lemma bind_arandbelow [pres_intros]: 
  "(\<And>n. 0 \<le> n \<Longrightarrow> n < bound \<Longrightarrow> pres I (f n) Q) \<Longrightarrow> pres I (abind (arandbelow bound) f) Q"
proof (rule pres_abind [where Q = "\<lambda>n. 0 \<le> n \<and> n < bound"])
  show "pres I (arandbelow bound) (\<lambda>n. 0 \<le> n \<and> n < bound)"
  proof (rule presI)
    fix env evs n env' evs' assume i: "I env" and r: "arandbelow bound (env, evs) = Inr (n, env', evs')"
    from r have b: "0 < bound" "bound \<le> 2 ^ 32" by (auto simp: arandbelow_def randbelow_def split: if_splits)
    from randbelow_result [OF random_valid [OF i] b] r i show "I env' \<and> 0 \<le> n \<and> n < bound"
      by (auto simp: arandbelow_def intro: keeps_random)
  qed
qed simp

subsection \<open>The methods of the executor\<close>

lemma bind_alift [pres_intros]: "(\<And>x. r = Inr x \<Longrightarrow> pres I (f x) Q) \<Longrightarrow> pres I (abind (alift r) f) Q"
  by (rule pres_abind [OF pres_alift_eq])

lemma bind_areturn [pres_intros]: "pres I (f x) Q \<Longrightarrow> pres I (abind (areturn x) f) Q"
  by (simp add: pres_def abind_def areturn_def)

lemma bind_aget [pres_intros]: "(\<And>env. I env \<Longrightarrow> pres I (f (g env)) Q) \<Longrightarrow> pres I (abind (aget g) f) Q"
  by (rule pres_abind [OF pres_aget_eq]) blast

lemma bind_invar: "invar I m \<Longrightarrow> (\<And>x. pres I (f x) Q) \<Longrightarrow> pres I (abind m f) Q"
  by (rule pres_abind) simp_all

lemma invar_effect_removed [pres_intros]: "invar I (effect_removed sid active t item reason scalars)"
  unfolding effect_removed_def by (intro pres_intros)

lemma invar_stance_changed [pres_intros]: "invar I (stance_changed item sid stance reason t)"
  unfolding stance_changed_def by (intro pres_intros valid_intros)

lemma invar_drop_travel_stance [pres_intros]: "invar I (drop_travel_stance item sid t reason)"
  unfolding drop_travel_stance_def by (intro pres_intros)

lemma invar_change_stance [pres_intros]: "invar I (change_stance item stance subject t)"
  unfolding change_stance_def by (intro pres_intros)

lemma invar_modify_scalar [pres_intros]: "nonblank key \<Longrightarrow> invar I (modify_scalar item key operation amount subject t)"
  unfolding modify_scalar_def
  by (intro pres_intros valid_intros) (auto simp: valid_entityD split: option.splits dest: valid_entityD)

lemma invar_modify_tag [pres_intros]: "nonblank tag \<Longrightarrow> invar I (modify_tag item tag operation subject t)"
  unfolding modify_tag_def
  by (intro pres_intros valid_intros) (auto simp: valid_entity_parts tags_valid_def)

lemma invar_modify_objective [pres_intros]: "invar I (modify_objective item delta subject t)"
  unfolding modify_objective_def
  by (intro pres_intros valid_intros)
    (auto simp: scalar_names valid_entityD split: option.splits dest: valid_entityD(5))

lemma pres_resolve_amount:
  assumes "amount_spec_ok amount = Inr ()" "positive_amount amount name = Inr ()"
  shows "pres I (resolve_amount amount) (\<lambda>q. 0 \<le> q)"
proof (cases amount)
  case (FixedAmount a)
  then show ?thesis using assms(2) by (simp add: positive_amount_def pres_areturn split: if_splits)
next
  case (UniformAmount a b)
  then show ?thesis using assms(1) by (auto intro: pres_weaken [OF pres_auniform] split: if_splits)
next
  case (TriangularAmount a b)
  then show ?thesis using assms(1)
    by (auto intro!: bind_arandom pres_alift split: if_splits dest!: triangular_roll_nonneg)
next
  case (UniformIntegerAmount a b)
  then show ?thesis using assms(1)
    by (auto intro!: bind_arandbelow pres_alift simp: float_of_int_def f64.rnd_nonneg split: if_splits)
next
  case (WeightedAmount outcomes)
  then show ?thesis using assms(1)
    by (auto intro!: bind_arandbelow pres_alift simp: result_simps split: if_splits dest!: pick_weighted_mem)
qed

lemma invar_resolve_amount [pres_intros]: "invar I (resolve_amount amount)"
  by (cases amount) (auto intro!: pres_intros pres_weaken [OF pres_auniform])

lemma scalar_get_le:
  assumes "valid_entity m e" "map_of m key = Some b"
  shows "max 0 (scalar_get e key 0) \<le> b"
  using assms valid_entityD(5,6) [OF assms(1)] by (auto simp: scalar_get_def split: option.splits)

lemma bind_resolve_amount [pres_intros]:
  "(\<And>q. (amount_spec_ok amount = Inr () \<Longrightarrow> positive_amount amount [] = Inr () \<Longrightarrow> 0 \<le> q) \<Longrightarrow> pres I (f q) Q)
   \<Longrightarrow> pres I (abind (resolve_amount amount) f) Q"
proof (rule pres_abind [where Q = "\<lambda>q. amount_spec_ok amount = Inr () \<longrightarrow> positive_amount amount [] = Inr () \<longrightarrow> 0 \<le> q"])
  show "pres I (resolve_amount amount) (\<lambda>q. amount_spec_ok amount = Inr () \<longrightarrow> positive_amount amount [] = Inr () \<longrightarrow> 0 \<le> q)"
    using pres_resolve_amount [of amount "[]"] invar_resolve_amount [of amount] unfolding pres_def by blast
qed simp

lemma positive_amount_name: "positive_amount amount n = Inr () \<longleftrightarrow> positive_amount amount m = Inr ()"
  by (cases amount) (auto simp: positive_amount_def)

lemma bind_if [pres_intros]:
  "(b \<Longrightarrow> pres I (abind m f) Q) \<Longrightarrow> (\<not> b \<Longrightarrow> pres I (abind n f) Q) \<Longrightarrow> pres I (abind (if b then m else n) f) Q"
  by simp

lemma bind_abind [pres_intros]: "pres I (abind m (\<lambda>x. abind (g x) f)) Q \<Longrightarrow> pres I (abind (abind m g) f) Q"
  unfolding pres_def abind_Inr by blast

lemma invar_restore_resource [pres_intros]:
  assumes "nonblank key"
  shows "invar I (restore_resource item key amount uses_resistance power_trains resistance subject t)"
  unfolding restore_resource_def
  by (intro pres_intros valid_intros assms) (simp_all add: valid_entityD split: option.splits)

lemma invar_transfer_resource:
  assumes "effect_built (TransferResource from_subject to_subject key amount efficiency)"
  shows "invar I (transfer_resource item from_subject to_subject key amount efficiency t)"
proof -
  have k: "nonblank key" "amount_spec_ok amount = Inr ()" "positive_amount amount [] = Inr ()"
    using assms positive_amount_name [of amount "''transfer amount''" "[]"] by (simp_all add: result_simps split: if_splits)
  have drain: "f64 (max 0 (scalar_get e key 0) - min q (max 0 (scalar_get e key 0))) \<le> b"
    if "0 \<le> q" "valid_entity (maxima sid) e" "map_of (maxima sid) key = Some b" for q e sid b
    using that(1) scalar_get_le [OF that(2,3)] valid_entityD(4) [OF that(2,3)] by (intro f64.rnd_le) linarith+
  show ?thesis
    unfolding transfer_resource_def
    by (intro pres_intros valid_intros k) (simp_all add: k drain valid_entityD(3) split: option.splits)
qed

lemma inventory_get_nonneg: "valid_entity m e \<Longrightarrow> 0 \<le> inventory_get e key"
  by (auto simp: inventory_get_def split: option.splits dest: valid_entityD)

lemma invar_transfer_item:
  assumes "effect_built (TransferItem from_subject to_subject item_id0 quantity0)" "built_item item"
  shows "invar I (transfer_item item from_subject to_subject item_id0 quantity0 t)"
proof -
  have named: "nonblank i" if "it_binding item = Some b" "or_text item_id0 (ab_item_id b) = Some i" for b i
    using that assms by (auto simp: or_text_def built_item_def action_binding_ok_def result_simps split: option.splits if_splits)
  have positive: "0 \<le> q" if "it_binding item = Some b" "or_number quantity0 (ab_quantity b) = Some q" for b q
    using that assms by (auto simp: or_number_def built_item_def action_binding_ok_def result_simps split: option.splits if_splits)
  show ?thesis
    unfolding transfer_item_def
    by (intro pres_intros valid_intros) (simp_all add: named positive f64.rnd_nonneg inventory_get_nonneg)
qed

lemma invar_accumulate_breakpoint [pres_intros]:
  "0 \<le> amount \<Longrightarrow> invar I (accumulate_breakpoint item sid damage_type amount t storage)"
  unfolding accumulate_breakpoint_def
  by (intro pres_intros valid_intros) (rule modifier_values_valid, erule (1) valid_entityD(7), simp_all)

lemma invar_accumulate_damage_breakpoints [pres_intros]:
  "0 \<le> amount \<Longrightarrow> invar I (accumulate_damage_breakpoints item sid damage_type amount t)"
  unfolding accumulate_damage_breakpoints_def by (intro pres_intros)

lemma pres_absorb_each: "0 \<le> remaining \<Longrightarrow> pres I (absorb_each item sid damage_type t storages remaining absorbed) (\<lambda>(r, a). 0 \<le> r)"
proof (induction storages arbitrary: remaining absorbed)
  case (Cons storage storages)
  show ?case
    unfolding absorb_each.simps
    by (intro pres_intros valid_intros pres_areturn Cons.IH)
      (auto simp: Cons.prems f64.rnd_nonneg intro: effect_valid_magnitude valid_entityD(7))
qed (simp add: pres_areturn)

lemma bind_consume_damage_absorbers [pres_intros]:
  assumes "0 \<le> amount" "\<And>r a. 0 \<le> r \<Longrightarrow> pres I (f (r, a)) Q"
  shows "pres I (abind (consume_damage_absorbers item sid damage_type amount t) f) Q"
proof (rule pres_abind)
  show "pres I (consume_damage_absorbers item sid damage_type amount t) (\<lambda>(r, a). 0 \<le> r)"
    unfolding consume_damage_absorbers_def by (intro pres_intros pres_absorb_each assms)
qed (use assms(2) in auto)

lemma new_transaction_nonneg: "new_transaction x = Inr tr \<Longrightarrow> 0 \<le> dt_post_resistance tr \<and> 0 \<le> dt_breakpoint_amount tr"
  by (auto simp: new_transaction_def damage_transaction_ok_def formula_non_negative_def result_simps split: if_splits)

lemma bind_commit_damage [pres_intros]:
  assumes "new_transaction x = Inr tr" "\<And>resolution. pres I (f resolution) Q"
  shows "pres I (abind (commit_damage item sid tr due) f) Q"
proof (rule bind_invar)
  note tr = new_transaction_nonneg [OF assms(1), THEN conjunct1] new_transaction_nonneg [OF assms(1), THEN conjunct2]
  have health: "0 \<le> b \<and> f64 (scalar_get e ''health'' 0 - r) \<le> b"
    if "0 \<le> r" "valid_entity (maxima k) e" "map_of (maxima k) ''health'' = Some b" for r e b k
    using that(1) scalar_get_le [OF that(2,3)] valid_entityD(4,5) [OF that(2,3)]
    by (intro conjI f64.rnd_le) linarith+
  show "invar I (commit_damage item sid tr due)"
    unfolding commit_damage_def
    by (intro pres_intros valid_intros tr) (simp_all add: scalar_names health)
qed (rule assms)

lemma invar_commit_damage [pres_intros]: "new_transaction x = Inr tr \<Longrightarrow> invar I (commit_damage item sid tr due)"
  using bind_commit_damage [of x tr areturn "\<lambda>_. True" item sid] by (simp add: pres_def abind_def areturn_def result_simps)

lemma invar_deal_damage: "invar I (deal_damage fl item amount damage_type uses_resistance power_trains source_key subject due)"
  unfolding deal_damage_def by (intro pres_intros) assumption+

lemma bind_deal_damage [pres_intros]:
  "(\<And>x. pres I (f x) Q)
   \<Longrightarrow> pres I (abind (deal_damage fl item amount damage_type uses_resistance power_trains source_key subject due) f) Q"
  by (rule bind_invar [OF invar_deal_damage])

lemma bind_apply_weapon_damage [pres_intros]:
  "(\<And>x. pres I (f x) Q) \<Longrightarrow> pres I (abind (apply_weapon_damage item sid amount damage_type due extra_tags) f) Q"
  by (rule bind_invar) (unfold apply_weapon_damage_def, intro pres_intros, assumption+)

lemma invar_schedule_pulses [pres_intros]:
  assumes "modifier_built m" "action_binding_ok b = Inr ()"
  shows "invar I (schedule_pulses (effect_item item entity_id storage effect_key instance_id) b due m)"
proof (cases m)
  case (PeriodicPulse key interval n effects)
  then have "0 < interval" "list_all effect_built effects" using assms(1) by (auto simp: result_simps split: if_splits)
  then show ?thesis
    unfolding PeriodicPulse schedule_pulses_def
    by (simp, intro pres_intros)
      (auto simp: effect_work_def effect_item_def work_item_def built_item_def assms(2) less_le_trans mult_pos_pos)
qed (simp_all add: schedule_pulses_def invar_areturn)

lemma bind_int_scalars [pres_intros]: "(\<And>scalars. pres I (f scalars) Q) \<Longrightarrow> pres I (abind (int_scalars values) f) Q"
  unfolding int_scalars_def by (rule pres_abind [OF invar_alift])

lemma invar_install_effect:
  assumes "effect_built (ApplyEffect ref effect_key duration_ms magnitude stacking_key tags modifiers stack_order trains priority immunity_tags)"
    and "built_item item" "storage = storage_key stacking_key effect_key"
  shows "invar I (install_effect item sid storage effect_key duration_ms magnitude stacking_key tags modifiers stack_order trains priority refreshed due)"
proof -
  have built: "0 < duration_ms" "list_all modifier_built modifiers" "nonblank storage"
    using assms(1,3) by (auto simp: result_simps storage_key_def split: if_splits option.splits)
  have b: "action_binding_ok b = Inr ()" if "it_binding item = Some b" for b
    using assms(2) that by (simp add: built_item_def)
  show ?thesis
    unfolding install_effect_def Let_def
    by (intro pres_intros valid_intros bind_invar [OF invar_aorder])
      (use built b assms(3) in \<open>auto simp: list_all_iff effect_valid_def effect_wf_def result_simps new_modifier_values_def dict_of_distinct_keys
        effect_work_def effect_item_def work_item_def built_item_def\<close>)
qed

lemma invar_apply_effect:
  assumes "effect_built (ApplyEffect ref effect_key duration_ms magnitude stacking_key tags modifiers stack_order trains priority immunity_tags)"
    and "built_item item"
  shows "invar I (apply_effect item effect_key duration_ms magnitude stacking_key tags modifiers stack_order trains priority immunity_tags subject due)"
  unfolding apply_effect_def effect_blocked_def Let_def
  by (intro pres_intros invar_install_effect [OF assms refl])

lemma invar_remove_effect [pres_intros]: "invar I (remove_effect item effect_key matching_tag maximum_count subject t)"
  unfolding remove_effect_def remove_one_def by (intro pres_intros valid_intros)

lemma bind_case_option [pres_intros]:
  "(v = None \<Longrightarrow> pres I (abind m f) Q) \<Longrightarrow> (\<And>x. v = Some x \<Longrightarrow> pres I (abind (g x) f) Q)
   \<Longrightarrow> pres I (abind (case v of None \<Rightarrow> m | Some x \<Rightarrow> g x) f) Q"
  by (cases v) simp_all

lemma bind_araise [pres_intros]: "pres I (abind (araise e) f) Q"
  by (simp add: pres_def abind_def araise_def)

lemma invar_move_entity [pres_intros]: "invar I (move_entity fl item mode distance subject t)"
  unfolding move_entity_def movement_direction_def by (intro pres_intros valid_intros)

lemma bind_of_subject [pres_intros]: "(\<And>x. pres I (f x) Q) \<Longrightarrow> pres I (abind (of_subject subject g d) f) Q"
  unfolding of_subject_def by (intro pres_intros)

lemma invar_between_living [pres_intros]:
  "(\<And>source destination. invar I (f source destination)) \<Longrightarrow> invar I (between_living binding from_subject to_subject eligible kind f)"
  unfolding between_living_def Let_def by (intro pres_intros)

lemma invar_run_direct:
  assumes "effect_built effect" "built_item item"
  shows "invar I (run_direct fl item binding subject sname due eligible effect)"
proof (cases effect)
  case (TransferResource from_subject to_subject key amount efficiency)
  note assms [unfolded this]
  then show ?thesis unfolding TransferResource run_direct.simps Let_def by (intro pres_intros invar_transfer_resource)
next
  case (TransferItem from_subject to_subject item_id quantity)
  note assms [unfolded this]
  then show ?thesis unfolding TransferItem run_direct.simps Let_def by (intro pres_intros invar_transfer_item)
next
  case ApplyEffect
  note assms [unfolded this]
  then show ?thesis unfolding ApplyEffect run_direct.simps by (rule invar_apply_effect)
qed (insert assms, (hypsubst, unfold run_direct.simps Let_def prod.case, (intro pres_intros; simp add: result_simps))+)

lemma invar_resolve_direct: "effect_built effect \<Longrightarrow> built_item item \<Longrightarrow> invar I (resolve_direct fl item due eligible effect)"
  unfolding resolve_direct_def by (intro pres_intros invar_run_direct)

lemma bind_resolve_direct [pres_intros]:
  "effect_built effect \<Longrightarrow> built_item item \<Longrightarrow> (\<And>x. pres I (f x) Q) \<Longrightarrow> pres I (abind (resolve_direct fl item due eligible effect) f) Q"
  by (rule bind_invar [OF invar_resolve_direct])

lemma invar_resolve_directs [pres_intros]:
  "list_all effect_built effects \<Longrightarrow> built_item item \<Longrightarrow> invar I (resolve_directs fl item due eligible effects)"
  unfolding resolve_directs_def by (intro pres_intros) (auto simp: list_all_iff)

lemma invar_resolve_simple:
  assumes "effect_built effect" "built_item item"
  shows "invar I (resolve_simple fl item due eligible effect)"
proof (cases "is_conditional effect")
  case True
  then obtain k c os es fs where e: "effect = OutcomeConditional k c os es fs" by (cases effect) simp_all
  have b: "effect_built c" "list_all effect_built es" "list_all effect_built fs" using assms(1) e by simp_all
  show ?thesis unfolding e resolve_simple_def effect_primitive.case resolve_outcome_conditional_def
    by (intro pres_intros b assms(2)) (simp add: b)
next
  case False
  then have "resolve_simple fl item due eligible effect = abind (resolve_direct fl item due eligible effect) (\<lambda>_. areturn ())"
    by (cases effect) (simp_all add: resolve_simple_def)
  then show ?thesis by (simp add: pres_intros assms)
qed

lemma invar_resolve_gated:
  assumes "effect_built effect" "built_item item"
  shows "invar I (resolve_gated fl item due eligible effect)"
proof (cases "is_chance_gate effect")
  case True
  then obtain k p es where e: "effect = ChanceGate k p es" by (cases effect) simp_all
  have b: "list_all effect_built es" using assms(1) e by simp
  show ?thesis unfolding e resolve_gated_def effect_primitive.case resolve_chance_def
    by (intro pres_intros invar_resolve_simple assms(2)) (use b in \<open>simp add: list_all_iff\<close>)
next
  case False
  then have "resolve_gated fl item due eligible effect = resolve_simple fl item due eligible effect"
    by (cases effect) (simp_all add: resolve_gated_def)
  then show ?thesis by (simp add: invar_resolve_simple assms)
qed

subsection \<open>Triggers, attacks and areas\<close>

lemma bind_chance_roll [pres_intros]: "(\<And>x. pres I (f x) Q) \<Longrightarrow> pres I (abind (chance_roll p) f) Q"
  unfolding chance_roll_def by (intro pres_intros)

text \<open>The payload of a trigger is resolved by an argument, the executor itself one level down.\<close>

definition resolves :: "(scheduled_item \<Rightarrow> unit act) \<Rightarrow> bool" where
  "resolves R \<longleftrightarrow> (\<forall>item. built_item item \<longrightarrow> invar I (R item))"

lemma invar_check_trigger:
  assumes "resolves R" "built_item item" "list_all effect_built (at_payload trigger)"
  shows "invar I (check_trigger R actor_id item t moment trigger)"
  unfolding check_trigger_def Let_def
  by (intro pres_intros)
    (use assms trigger_item_built in \<open>auto simp: resolves_def scheduled_item_make_def result_simps\<close>)

lemma invar_consume_armed [pres_intros]: "invar I (consume_armed actor_id item t c)"
  unfolding consume_armed_def by (intro pres_intros valid_intros)

lemma invar_resolve_trigger_moment:
  assumes "resolves R" "built_item item" "list_all context_built cs"
  shows "invar I (resolve_trigger_moment R cs moment actor_id item t)"
  using assms(3)
proof (induction cs)
  case (Cons c cs)
  have "invar I (if at_fire_on (tc_trigger c) = moment then check_trigger R actor_id item t moment (tc_trigger c) else areturn False)"
    using Cons.prems by (intro pres_intros invar_check_trigger assms) (simp add: context_built_def)
  then show ?case unfolding resolve_trigger_moment.simps
    by (rule bind_invar) (use Cons in \<open>intro pres_intros bind_invar, simp_all\<close>)
qed (simp add: invar_areturn)

lemma bind_resolve_trigger_moment [pres_intros]:
  "resolves R \<Longrightarrow> built_item item \<Longrightarrow> list_all context_built cs \<Longrightarrow> (\<And>x. pres I (f x) Q)
   \<Longrightarrow> pres I (abind (resolve_trigger_moment R cs moment actor_id item t) f) Q"
  by (rule bind_invar [OF invar_resolve_trigger_moment])

lemma bind_resolve_passive_defenses [pres_intros]:
  "(\<And>x. pres I (f x) Q) \<Longrightarrow> pres I (abind (resolve_passive_defenses item actor_id target_id t keys) f) Q"
proof (rule bind_invar)
  show "invar I (resolve_passive_defenses item actor_id target_id t keys)"
    by (induction keys) (unfold resolve_passive_defenses.simps Let_def, (intro pres_intros; assumption)+)
qed

lemma invar_bonus_damage [pres_intros]: "invar I (bonus_damage fl item target_id due effects m)"
  unfolding bonus_damage_def Let_def by (intro pres_intros)

lemma invar_attack_hits:
  assumes "resolves R" "built_item item" "list_all context_built contexts" "list_all effect_built effects"
  shows "invar I (attack_hits fl R item due eligible actor_id target_id contexts modifiers effects)"
  unfolding attack_hits_def
  by (intro pres_intros invar_resolve_gated assms)
    (use assms(4) scaled_effect_built in \<open>auto simp: list_all_iff\<close>)

lemma invar_resolve_attack:
  assumes "resolves R" "built_item item" "list_all effect_built effects"
  shows "invar I (resolve_attack fl R item due eligible attack_key kind attack_rating_key defense_rating_key effects passive_keys)"
  unfolding resolve_attack_def Let_def
  by (intro pres_intros invar_attack_hits assms matching_contexts_built catalog_valid) assumption+

lemma invar_resolve_nested:
  assumes "resolves R" "built_item item" "effect_built effect"
  shows "invar I (resolve_nested fl R due eligible item effect)"
proof (cases "is_attack_gate effect")
  case True
  then obtain k ak ar dr es ps where e: "effect = AttackGate k ak ar dr es ps" by (cases effect) simp_all
  then show ?thesis using assms by (simp add: resolve_nested_def invar_resolve_attack)
next
  case False
  then have "resolve_nested fl R due eligible item effect = resolve_gated fl item due eligible effect"
    by (cases effect) (simp_all add: resolve_nested_def)
  then show ?thesis by (simp add: invar_resolve_gated assms)
qed

lemma bind_area_center [pres_intros]: "(\<And>x. pres I (f x) Q) \<Longrightarrow> pres I (abind (area_center origin binding) f) Q"
  unfolding area_center_def by (intro pres_intros)

lemma invar_resolve_effect:
  assumes "resolves R" "built_item item" "effect_built effect"
  shows "invar I (resolve_effect fl R due eligible item effect)"
proof (cases "is_area effect")
  case True
  then obtain ao r rs es n where e: "effect = AreaEffect ao r rs es n" by (cases effect) simp_all
  have b: "list_all effect_built es" using assms(3) e by simp
  have t: "built_item (item\<lparr>it_binding := Some x\<rparr>)" if "validated action_binding_ok y = Inr x" for x y
    using that assms(2) by (simp add: built_item_def result_simps)
  show ?thesis unfolding e resolve_effect_def effect_primitive.case resolve_area_def
    by (intro pres_intros invar_resolve_nested assms)
      (use b t in \<open>auto simp: list_all_iff scheduled_item_make_def result_simps\<close>)
next
  case False
  then have "resolve_effect fl R due eligible item effect = resolve_nested fl R due eligible item effect"
    by (cases effect) (simp_all add: resolve_effect_def)
  then show ?thesis by (simp add: invar_resolve_nested assms)
qed

lemma resolves_executor: "resolves (executor_resolve fl due eligible depth)"
proof (induction depth)
  case 0
  show ?case by (simp add: resolves_def pres_araise)
next
  case (Suc depth)
  show ?case
    unfolding resolves_def executor_resolve.simps resolve_effects_def
    by (intro allI impI pres_intros invar_resolve_effect Suc) (auto simp: built_item_def list_all_iff)
qed

lemma invar_resolve: "built_item item \<Longrightarrow> invar I (executor_resolve fl due eligible depth item)"
  using resolves_executor by (simp add: resolves_def)

subsection \<open>Weapon attacks, expiry, pulses and deaths\<close>

lemma bind_weapon_passive_defenses [pres_intros]:
  "(\<And>x. pres I (f x) Q) \<Longrightarrow> pres I (abind (weapon_passive_defenses item actor_id target_id t slot keys) f) Q"
proof (rule bind_invar)
  show "invar I (weapon_passive_defenses item actor_id target_id t slot keys)"
    by (induction keys) (unfold weapon_passive_defenses.simps Let_def, (intro pres_intros; assumption)+)
qed

lemma bind_weapon_bonus [pres_intros]:
  "(\<And>x. pres I (f x) Q) \<Longrightarrow> pres I (abind (weapon_bonus ms multiplier bonus damage_type tags) f) Q"
proof (rule bind_invar)
  show "invar I (weapon_bonus ms multiplier bonus damage_type tags)"
    by (induction ms arbitrary: multiplier bonus damage_type tags) (unfold weapon_bonus.simps, (intro pres_intros; assumption?)+)
qed

lemma invar_weapon_strikes:
  assumes "resolves R" "built_item item" "list_all context_built contexts"
  shows "invar I (weapon_strikes R item due actor_id target_id attack contexts modifiers)"
  unfolding weapon_strikes_def by (intro pres_intros assms)

lemma invar_resolve_weapon_attack:
  assumes "built_item item"
  shows "invar I (resolve_weapon_attack fl (executor_resolve fl due eligible depth) due eligible item)"
  unfolding resolve_weapon_attack_def Let_def
  by (intro pres_intros invar_weapon_strikes resolves_executor assms matching_contexts_built catalog_valid) assumption+

lemma invar_expire_effect: "invar I (expire_effect item t)"
  unfolding expire_effect_def by (intro pres_intros valid_intros)

lemma pres_case_pulse:
  "(\<And>k i n es. pres I (f k i n es) Q) \<Longrightarrow> pres I (case m of PeriodicPulse k i n es \<Rightarrow> f k i n es | _ \<Rightarrow> araise e) Q"
  by (cases m) (simp_all add: pres_araise)

lemma invar_resolve_effect_pulse: "built_item item \<Longrightarrow> invar I (resolve_effect_pulse fl due eligible item)"
  unfolding resolve_effect_pulse_def by (intro pres_intros pres_case_pulse) (simp_all add: built_item_def)

lemma invar_resolve_deaths: "invar I (resolve_deaths ids t life_terminated)"
proof (induction ids arbitrary: life_terminated)
  case (Cons i ids)
  show ?case unfolding resolve_deaths.simps by (intro pres_intros valid_intros Cons.IH)
qed (simp add: invar_areturn)

end

end
