(* ===== verification/Sim_Affordances.thy ===== *)
theory Sim_Affordances
  imports Sim_Effects
begin

text \<open>
  What an agent is shown and offered (\<^verbatim>\<open>sim/affordances.py\<close>): the observation of the entities it can see, the
  bindings of its actions that are legal now, and the features of each.
\<close>

definition ACTION_TAG_BLOCK_PREFIX :: string where
  "ACTION_TAG_BLOCK_PREFIX = ''control.block.action_tag.''"

definition RESTORE_BLOCK_PREFIX :: string where
  "RESTORE_BLOCK_PREFIX = ''resource.restore.block.''"

text \<open>\<open>text.startswith(prefix)\<close> with \<open>text.removeprefix(prefix)\<close>.\<close>

definition strip_prefix :: "string \<Rightarrow> string \<Rightarrow> string option" where
  "strip_prefix prefix t = (if take (length prefix) t = prefix then Some (drop (length prefix) t) else None)"

definition named_scalar_make :: "string \<times> rat \<Rightarrow> named_scalar result" where
  "named_scalar_make = (\<lambda>(name, v). validated named_scalar_ok (ns name v))"

subsection \<open>Observations\<close>

definition can_observe :: "entity_state \<Rightarrow> entity_state \<Rightarrow> bool" where
  "can_observe actor target \<longleftrightarrow> en_entity_id target = en_entity_id actor
     \<or> ''visibility.invisible'' \<notin> effective_tags target \<or> ''detection.see_invisible'' \<in> effective_tags actor"

definition restore_block :: "active_effect \<Rightarrow> string \<Rightarrow> (string \<times> rat) list \<Rightarrow> (string \<times> rat) list" where
  "restore_block effect tag scalars =
     (case strip_prefix RESTORE_BLOCK_PREFIX tag of
        None \<Rightarrow> scalars
      | Some resource_key \<Rightarrow>
          if resource_key = [] then scalars
          else let scalar_key = ''restore_block_rank.'' @ resource_key
               in case map_of scalars scalar_key of
                    None \<Rightarrow> AList.update scalar_key (ae_magnitude effect) scalars
                  | Some existing \<Rightarrow> if ae_magnitude effect > existing then AList.update scalar_key (ae_magnitude effect) scalars else scalars)"

definition observed_scalars :: "entity_state \<Rightarrow> (string \<times> rat) list result" where
  "observed_scalars e =
     rbind (rmap (\<lambda>name. rbind (effective_scalar f64 e name) (\<lambda>v. Inr (name, v))) (sort (map fst (en_scalars e)))) (\<lambda>scalars.
     Inr (fold (\<lambda>(k, effect). fold (restore_block effect) (sorted_list_of_set (ae_tags effect))) (en_effects e) scalars))"

definition observe_entity :: "entity_state \<Rightarrow> entity_state \<Rightarrow> entity_observation result" where
  "observe_entity actor e =
     rbind (observed_scalars e) (\<lambda>scalars.
     rbind (rmap named_scalar_make (sort scalars)) (\<lambda>named.
     validated entity_observation_ok
       \<lparr>eo_entity_id = en_entity_id e, eo_kind = en_kind e, eo_relation = entity_relation actor e, eo_position = en_position e,
        eo_velocity = en_velocity e, eo_scalars = named, eo_tags = sorted_list_of_set (effective_tags e)\<rparr>))"

subsection \<open>Legal bindings\<close>

definition position_in_range :: "float_lib \<Rightarrow> vector2 \<Rightarrow> vector2 \<Rightarrow> action_spec \<Rightarrow> bool" where
  "position_in_range fl from_point to_point action =
     (let targeting = ac_targeting action in
      case fl_hypot fl from_point to_point of
        None \<Rightarrow> ts_maximum_range targeting = None
      | Some d \<Rightarrow> \<not> d < ts_minimum_range targeting
                   \<and> (case ts_maximum_range targeting of None \<Rightarrow> True | Some maximum \<Rightarrow> d \<le> maximum))"

definition plain_binding :: "string \<Rightarrow> target_kind \<Rightarrow> action_binding" where
  "plain_binding actor_id kind =
     \<lparr>ab_actor_id = actor_id, ab_target_kind = kind, ab_target_entity_id = None, ab_position = None,
      ab_direction = None, ab_quantity = None, ab_item_id = None, ab_objective_id = None\<rparr>"

definition transfer_effect :: "action_spec \<Rightarrow> (string option \<times> rat option) option result" where
  "transfer_effect action =
     (case concat (map (\<lambda>e. case e of TransferItem f t item_id quantity \<Rightarrow> [(item_id, quantity)] | _ \<Rightarrow> []) (phase_effects action)) of
        [] \<Rightarrow> Inr None
      | [t] \<Rightarrow> Inr (Some t)
      | _ \<Rightarrow> Inl (SimulationConfigurationError ''one action cannot contain multiple item transfers''))"

definition modifies_objective :: "action_spec \<Rightarrow> bool" where
  "modifies_objective action = list_ex (\<lambda>e. case e of ModifyObjective s d \<Rightarrow> True | _ \<Rightarrow> False) (phase_effects action)"

definition transfer_bindings :: "entity_state \<Rightarrow> entity_state \<Rightarrow> string option \<times> rat option \<Rightarrow> action_binding list result" where
  "transfer_bindings actor target transfer =
     (let item_ids = (case fst transfer of
            Some i \<Rightarrow> [i]
          | None \<Rightarrow> sort (map fst (filter (\<lambda>(i, amount). amount > 0) (en_inventory actor))))
      in rbind (rmap (\<lambda>item_id.
           let available = inventory_get actor item_id;
               quantity = (case snd transfer of Some q \<Rightarrow> q | None \<Rightarrow> available)
           in if quantity \<le> 0 \<or> quantity > available then Inr []
              else rbind (validated action_binding_ok
                ((entity_binding (en_entity_id actor) (en_entity_id target))\<lparr>ab_quantity := Some quantity, ab_item_id := Some item_id\<rparr>))
                (\<lambda>b. Inr [b])) item_ids) (\<lambda>bs. Inr (concat bs)))"

definition targetable :: "float_lib \<Rightarrow> entity_state \<Rightarrow> action_spec \<Rightarrow> entity_state \<Rightarrow> bool" where
  "targetable fl actor action target \<longleftrightarrow>
     en_alive target \<and> entity_relation actor target \<in> set (ts_allowed_relations (ac_targeting action))
     \<and> can_observe actor target \<and> position_in_range fl (en_position actor) (en_position target) action
     \<and> \<not> (modifies_objective action \<and> en_kind target \<noteq> OBJECTIVE)"

definition entity_bindings :: "float_lib \<Rightarrow> environment \<Rightarrow> entity_state \<Rightarrow> action_spec \<Rightarrow> action_binding list result" where
  "entity_bindings fl env actor action =
     rbind (transfer_effect action) (\<lambda>transfer.
     rbind (rmap (\<lambda>(k, target).
       if \<not> targetable fl actor action target then Inr []
       else case transfer of
         Some t \<Rightarrow> transfer_bindings actor target t
       | None \<Rightarrow> rbind (validated action_binding_ok
           ((entity_binding (en_entity_id actor) (en_entity_id target))
             \<lparr>ab_objective_id := (if modifies_objective action then Some (en_entity_id target) else None)\<rparr>)) (\<lambda>b. Inr [b]))
       (sort_key fst (env_entities env))) (\<lambda>bs. Inr (concat bs)))"

definition action_bindings :: "float_lib \<Rightarrow> environment \<Rightarrow> entity_state \<Rightarrow> action_spec \<Rightarrow> action_binding list result" where
  "action_bindings fl env actor action =
     (let make = rmap (validated action_binding_ok) in
      case ts_kind (ac_targeting action) of
        TK_NONE \<Rightarrow> make [plain_binding (en_entity_id actor) TK_NONE]
      | TK_SELF \<Rightarrow> make [plain_binding (en_entity_id actor) TK_SELF]
      | TK_DIRECTION \<Rightarrow>
          make (map (\<lambda>d. (plain_binding (en_entity_id actor) TK_DIRECTION)\<lparr>ab_direction := Some d\<rparr>) (env_direction_candidates env))
      | TK_POSITION \<Rightarrow>
          make (map (\<lambda>p. (plain_binding (en_entity_id actor) TK_POSITION)\<lparr>ab_position := Some p\<rparr>)
            (filter (\<lambda>p. position_in_range fl (en_position actor) p action) (env_position_candidates env)))
      | TK_ENTITY \<Rightarrow> entity_bindings fl env actor action)"

definition blocked_action_tags :: "string set \<Rightarrow> string set" where
  "blocked_action_tags tags = \<Union> ((\<lambda>t. case strip_prefix ACTION_TAG_BLOCK_PREFIX t of None \<Rightarrow> {} | Some r \<Rightarrow> {r}) ` tags)"

definition actor_can_start :: "int \<Rightarrow> entity_state \<Rightarrow> action_spec \<Rightarrow> bool" where
  "actor_can_start now actor action \<longleftrightarrow>
     (case map_of (en_cooldowns actor) (ac_action_key action) of None \<Rightarrow> 0 \<le> now | Some ready \<Rightarrow> ready \<le> now)
     \<and> set (ac_required_actor_tags action) \<subseteq> effective_tags actor
     \<and> set (ac_forbidden_actor_tags action) \<inter> effective_tags actor = {}
     \<and> blocked_action_tags (effective_tags actor) \<inter> set (ac_tags action) = {}
     \<and> list_all (\<lambda>cost. scalar_get actor (rc_resource_key cost) 0 \<ge> rc_amount cost) (ac_costs action)"

subsection \<open>Features\<close>

type_synonym features = "(string \<times> rat) list"

fun expected_amount :: "float_lib \<Rightarrow> amount_spec \<Rightarrow> rat" where
  "expected_amount fl (FixedAmount a) = a"
| "expected_amount fl (UniformAmount minimum maximum) = f64 (f64 (minimum + maximum) / 2)"
| "expected_amount fl (TriangularAmount minimum maximum) = f64 (f64 (minimum + maximum) / 2)"
| "expected_amount fl (UniformIntegerAmount minimum maximum) = f64 (f64 (of_int (minimum + maximum)) / 2)"
| "expected_amount fl (WeightedAmount outcomes) =
     f64 (fl_sum fl (map (\<lambda>(v, weight). f64 (v * f64 (of_int weight))) outcomes) / f64 (of_int (total_weight outcomes)))"

definition total_phase_ms :: "action_spec \<Rightarrow> int" where
  "total_phase_ms action = sum_list (map ph_duration_ms (ac_phases action))"

definition timing_features :: "entity_state \<Rightarrow> action_spec \<Rightarrow> features \<Rightarrow> features result" where
  "timing_features actor action values0 =
     rbind (effective_action_cooldown_ms f64 actor action) (\<lambda>cooldown.
     rbind (float_of_int (total_phase_ms action)) (\<lambda>phases_ms.
     rbind (float_of_int cooldown) (\<lambda>cooldown_ms.
     let values1 = AList.update ''cooldown_ms'' cooldown_ms (AList.update ''cast_time_ms'' phases_ms values0)
     in if ''weapon'' \<in> set (ac_tags action)
        then rbind (float_of_int (max cooldown (total_phase_ms action))) (\<lambda>commitment_ms. Inr (AList.update ''commitment_ms'' commitment_ms values1))
        else Inr (if map_of values1 ''commitment_ms'' = None then AList.update ''commitment_ms'' phases_ms values1 else values1))))"

definition cost_features :: "action_spec \<Rightarrow> features \<Rightarrow> features" where
  "cost_features action = fold (\<lambda>cost. AList.update (''cost.'' @ rc_resource_key cost) (rc_amount cost)) (ac_costs action)"

definition distance_feature :: "float_lib \<Rightarrow> entity_state \<Rightarrow> entity_state option \<Rightarrow> features \<Rightarrow> features result" where
  "distance_feature fl actor target values =
     (case target of
        None \<Rightarrow> Inr values
      | Some t \<Rightarrow>
          (case fl_hypot fl (en_position actor) (en_position t) of
             None \<Rightarrow> Inl (ValueError ''value must be finite'')
           | Some d \<Rightarrow> Inr (AList.update ''distance'' d values)))"

definition stance_channels :: "entity_state \<Rightarrow> (string \<times> string option) list" where
  "stance_channels actor =
     [(''attack'', find (\<lambda>k. strip_prefix ''attack.'' k \<noteq> None) (sort (map fst (en_scalars actor)))),
      (''defense'', Some ''defense''), (''damage'', Some ''outgoing.damage.factor''),
      (''weapon_delay'', Some ''action.weapon.delay.factor''), (''movement'', Some ''move_speed''),
      (''stamina_recovery'', Some ''stamina.recovery.factor'')]"

fun stance_features :: "entity_state \<Rightarrow> (string \<times> string option) list \<Rightarrow> features \<Rightarrow> features result" where
  "stance_features actor [] values = Inr values"
| "stance_features actor ((channel, scalar_key) # channels) values =
     (case (map_of values (''stance.'' @ channel @ ''.factor''), scalar_key) of
        (Some target_factor, Some key) \<Rightarrow>
          rbind (stance_factor actor key None) (\<lambda>current.
          if current = 0 then Inl (ZeroDivisionError ''float division by zero'')
          else stance_features actor channels
            (AList.update (''stance.'' @ channel @ ''.relative_factor'') (f64 (target_factor / current)) values))
      | _ \<Rightarrow> stance_features actor channels values)"

definition active_triggers :: "action_catalog \<Rightarrow> entity_state \<Rightarrow> action_spec \<Rightarrow> action_trigger_spec list" where
  "active_triggers catalog actor action =
     concat (map (\<lambda>(k, active).
       case trigger_for_effect catalog (ae_effect_key active) of
         None \<Rightarrow> []
       | Some trigger \<Rightarrow> if trigger_matches trigger (ac_action_key action) (set (ac_tags action)) then [trigger] else [])
       (en_effects actor))"

definition attack_gates :: "action_spec \<Rightarrow> (attack_kind \<times> string \<times> string) list" where
  "attack_gates action =
     (let gate = (\<lambda>e. case e of AttackGate k kind attack_key defense_key es ps \<Rightarrow> [(kind, attack_key, defense_key)] | _ \<Rightarrow> [])
      in concat (map (\<lambda>e. case e of AreaEffect ao r rs es n \<Rightarrow> concat (map gate es) | _ \<Rightarrow> gate e) (phase_effects action)))"

definition attack_features ::
    "float_lib \<Rightarrow> entity_state \<Rightarrow> action_spec \<Rightarrow> entity_state option \<Rightarrow> action_trigger_spec list \<Rightarrow> features \<Rightarrow> features result" where
  "attack_features fl actor action target triggers values =
     (case ac_weapon_attack action of
        Some attack \<Rightarrow>
          rbind (weapon_bound actor (wa_minimum_damage_scalar attack) (wa_minimum_damage attack)) (\<lambda>minimum.
          rbind (weapon_bound actor (wa_maximum_damage_scalar attack) (wa_maximum_damage attack)) (\<lambda>maximum.
          let values1 = AList.update ''expected_damage'' (f64 (f64 (minimum + maximum) / 2)) values
          in case target of
               None \<Rightarrow> Inr values1
             | Some t \<Rightarrow>
                 rbind (scalar_or_default actor (wa_attack_rating_scalar attack) (wa_default_attack_rating attack)) (\<lambda>attack_rating.
                 rbind (scalar_or_default t (wa_defense_scalar attack) (wa_default_defense attack)) (\<lambda>defense.
                 Inr (AList.update ''expected_hit_chance'' (hit_chance f64 attack attack_rating defense False) values1)))))
      | None \<Rightarrow>
          (case (target, attack_gates action) of
             (Some t, (kind, attack_key, defense_key) # gates) \<Rightarrow>
               let modifiers = concat (map (\<lambda>x. case at_attack_modifier x of None \<Rightarrow> [] | Some m \<Rightarrow> [m]) triggers)
               in rbind (scalar_or_default actor attack_key 0) (\<lambda>base_rating.
               rbind (scalar_or_default t defense_key 0) (\<lambda>defense.
               rbind (attack_chance kind (list_ex am_bypass_defense modifiers)
                  (f64 (base_rating + fl_sum fl (map am_attack_rating_bonus modifiers))) defense) (\<lambda>chance_percent.
               Inr (AList.update ''expected_hit_chance'' (f64 (of_int chance_percent / 100)) values))))
           | _ \<Rightarrow> Inr values))"

text \<open>The damage and the control time the armed triggers would add.\<close>

definition payload_damage :: "float_lib \<Rightarrow> effect_primitive \<Rightarrow> rat \<Rightarrow> rat" where
  "payload_damage fl effect damage =
     (case effect of DealDamage ref amount t u p k \<Rightarrow> f64 (damage + expected_amount fl amount) | _ \<Rightarrow> damage)"

definition payload_control :: "effect_primitive \<Rightarrow> rat \<Rightarrow> rat" where
  "payload_control effect control_ms =
     (case effect of
        ApplyEffect ref k duration_ms magnitude sk tags ms so tr p it \<Rightarrow>
          if list_ex (\<lambda>tag. strip_prefix ''control.'' tag \<noteq> None) tags then f64 (control_ms + f64 (of_int duration_ms)) else control_ms
      | _ \<Rightarrow> control_ms)"

definition trigger_damage :: "float_lib \<Rightarrow> action_trigger_spec \<Rightarrow> rat \<Rightarrow> rat" where
  "trigger_damage fl trigger damage =
     fold (payload_damage fl) (at_payload trigger)
       (case at_attack_modifier trigger of
          None \<Rightarrow> damage
        | Some m \<Rightarrow> f64 (damage + f64 (f64 (am_bonus_damage_minimum m + am_bonus_damage_maximum m) / 2)))"

definition trigger_features :: "float_lib \<Rightarrow> action_trigger_spec list \<Rightarrow> features \<Rightarrow> features" where
  "trigger_features fl triggers values =
     (let damage = fold (trigger_damage fl) triggers 0;
          control_ms = fold (\<lambda>t. fold payload_control (at_payload t)) triggers 0;
          values1 = (if triggers \<noteq> [] then AList.update ''trigger_count'' (of_int (int (length triggers))) values else values);
          values2 = (if damage \<noteq> 0 then AList.update ''trigger_expected_damage'' damage values1 else values1)
      in if control_ms \<noteq> 0 then AList.update ''trigger_control_duration_ms'' control_ms values2 else values2)"

definition affordance_features :: "float_lib \<Rightarrow> environment \<Rightarrow> entity_state \<Rightarrow> action_spec \<Rightarrow> action_binding \<Rightarrow> named_scalar list result" where
  "affordance_features fl env actor action binding =
     rbind (timing_features actor action (dict_of (map (\<lambda>f. (ns_name f, ns_value f)) (ac_features action)))) (\<lambda>values1.
     rbind (case ab_target_entity_id binding of
         None \<Rightarrow> Inr None
       | Some t \<Rightarrow> rbind (entity_at env t) (\<lambda>e. Inr (Some e))) (\<lambda>target.
     rbind (distance_feature fl actor target (cost_features action values1)) (\<lambda>values2.
     rbind (stance_features actor (stance_channels actor) values2) (\<lambda>values3.
     let triggers = active_triggers (env_catalog env) actor action in
     rbind (attack_features fl actor action target triggers values3) (\<lambda>values4.
     rmap named_scalar_make (sort (trigger_features fl triggers values4)))))))"

subsection \<open>The exchange\<close>

definition action_affordances :: "float_lib \<Rightarrow> environment \<Rightarrow> entity_state \<Rightarrow> string \<Rightarrow> (action_spec \<times> action_binding) list result" where
  "action_affordances fl env actor action_key =
     rbind (catalog_get (env_catalog env) action_key) (\<lambda>action.
     if \<not> actor_can_start (env_now env) actor action then Inr []
     else rbind (action_bindings fl env actor action) (\<lambda>bs. Inr (map (Pair action) bs)))"

definition make_affordance :: "float_lib \<Rightarrow> environment \<Rightarrow> entity_state \<Rightarrow> nat \<Rightarrow> action_spec \<Rightarrow> action_binding \<Rightarrow> affordance result" where
  "make_affordance fl env actor number action binding =
     rbind (affordance_features fl env actor action binding) (\<lambda>features.
     validated affordance_ok
       \<lparr>af_affordance_id = ''affordance:'' @ py_str_int (tick (env_clock env)) @ '':'' @ en_entity_id actor @ '':'' @ zero_padded 4 (int number),
        af_action_key = ac_action_key action, af_binding = binding, af_features = features, af_tags = ac_tags action\<rparr>)"

fun make_affordances :: "float_lib \<Rightarrow> environment \<Rightarrow> entity_state \<Rightarrow> nat \<Rightarrow> (action_spec \<times> action_binding) list \<Rightarrow> affordance list result" where
  "make_affordances fl env actor number [] = Inr []"
| "make_affordances fl env actor number ((action, binding) # rest) =
     rbind (make_affordance fl env actor number action binding) (\<lambda>a.
     rbind (make_affordances fl env actor (Suc number) rest) (\<lambda>as. Inr (a # as)))"

fun offer_actions :: "float_lib \<Rightarrow> environment \<Rightarrow> entity_state \<Rightarrow> string list \<Rightarrow> affordance list \<Rightarrow> affordance list result" where
  "offer_actions fl env actor [] offered = Inr offered"
| "offer_actions fl env actor (action_key # action_keys) offered =
     rbind (action_affordances fl env actor action_key) (\<lambda>offers.
     rbind (make_affordances fl env actor (length offered) offers) (\<lambda>as.
     offer_actions fl env actor action_keys (offered @ as)))"

definition may_act :: "int \<Rightarrow> entity_state \<Rightarrow> bool" where
  "may_act now actor \<longleftrightarrow> en_alive actor \<and> en_busy_until_ms actor \<le> now \<and> ''control.stun'' \<notin> effective_tags actor"

definition build_affordances :: "float_lib \<Rightarrow> environment \<Rightarrow> string \<Rightarrow> entity_state \<Rightarrow> affordance_set_message result" where
  "build_affordances fl env observation_id actor =
     rbind (if may_act (env_now env) actor
            then offer_actions fl env actor (sort (en_action_keys actor)) [] else Inr []) (\<lambda>affordances.
     validated affordance_set_message_ok
       \<lparr>asm_message_id = ''message:affordances:'' @ py_str_int (tick (env_clock env)) @ '':'' @ en_entity_id actor,
        asm_observation_id = observation_id, asm_agent_id = en_entity_id actor, asm_tick = tick (env_clock env),
        asm_affordances = affordances\<rparr>)"

definition env_exchange :: "float_lib \<Rightarrow> environment \<Rightarrow> string \<Rightarrow> agent_exchange result" where
  "env_exchange fl env agent_id =
     rbind (env_entity env agent_id) (\<lambda>actor.
     let observation_id = ''observation:'' @ py_str_int (tick (env_clock env)) @ '':'' @ agent_id in
     rbind (rmap (\<lambda>(k, e). observe_entity actor e)
       (filter (\<lambda>(k, e). (en_alive e \<or> k = agent_id) \<and> can_observe actor e) (sort_key fst (env_entities env)))) (\<lambda>entities.
     rbind (validated observation_message_ok
       \<lparr>om_message_id = ''message:'' @ observation_id, om_observation_id = observation_id, om_agent_id = agent_id,
        om_life_id = en_life_id actor, om_tick = tick (env_clock env), om_sim_time_ms = env_now env, om_entities = entities,
        om_global_scalars = [], om_active = en_alive actor\<rparr>) (\<lambda>observation.
     rbind (build_affordances fl env observation_id actor) (\<lambda>affordances.
     Inr \<lparr>ax_observation = observation, ax_affordances = affordances\<rparr>))))"

end
