(* ===== verification/Sim_Timeline.thy ===== *)
theory Sim_Timeline
  imports Sim_Frame
begin

text \<open>
  What the timeline of \<^verbatim>\<open>sim/environment.py\<close> guarantees. The lifecycle of executions is a step relation
  over the whole state, whose rules are the handlers of the environment and the callbacks it hands to
  the effect executor; its invariants are proved by case analysis on the step and lifted to runs by rule
  induction.
\<close>

subsection \<open>The lifecycle as a step relation\<close>

text \<open>
  One rule per thing that happens to the state between two calls of \<open>step\<close>: an accepted decision starts an
  action, the least due item is dropped as invalid or handed to its handler, and the executor of
  effects uses what the constructor gave it (the order counter, the schedule, the interruption of an
  actor, the entities, the random source and the event factory; it never revives an entity). Death
  ends the executions of an actor, and the clock ticks.
\<close>

inductive env_step :: "(rat \<Rightarrow> rat) \<Rightarrow> (vector2 \<Rightarrow> vector2 \<Rightarrow> rat option) \<Rightarrow> environment \<Rightarrow> environment \<Rightarrow> bool"
  for rnd hypot where
  start: "\<lbrakk>start_action rnd hypot d action (env, evs) = Inr (env', evs'); catalog_get (env_catalog env) (ac_action_key action) = Inr action\<rbrakk>
    \<Longrightarrow> env_step rnd hypot env env'"
| discard: "\<lbrakk>next_due t env = Some (item, env'); \<not> scheduled_item_is_valid env' item\<rbrakk> \<Longrightarrow> env_step rnd hypot env env'"
| release: "\<lbrakk>next_due t env = Some (item, env1); scheduled_item_is_valid env1 item; it_kind item = PHASE_RELEASE\<rbrakk>
    \<Longrightarrow> env_step rnd hypot env (release_action_phase item env1)"
| transition: "\<lbrakk>next_due t env = Some (item, env1); scheduled_item_is_valid env1 item; it_kind item = PHASE_TRANSITION;
    transition_action_phase rnd hypot item env1 = Inr env'\<rbrakk> \<Longrightarrow> env_step rnd hypot env env'"
| completion: "\<lbrakk>next_due t env = Some (item, env1); scheduled_item_is_valid env1 item; it_kind item = COMPLETION;
    complete_action item (env1, evs) = Inr (env', evs')\<rbrakk> \<Longrightarrow> env_step rnd hypot env env'"
| resolution: "\<lbrakk>next_due t env = Some (item, env'); scheduled_item_is_valid env' item;
    it_kind item \<in> {RESOLUTION, WEAPON_ATTACK, EFFECT_PULSE, EFFECT_EXPIRY}\<rbrakk> \<Longrightarrow> env_step rnd hypot env env'"
| executor_order: "env_step rnd hypot env (snd (take_schedule_order env))"
| executor_schedule: "\<lbrakk>schedule_new mk env = Inr env'; \<And>n. it_order (mk n) = n; \<And>n. it_kind (mk n) \<in> {EFFECT_PULSE, EFFECT_EXPIRY}\<rbrakk>
    \<Longrightarrow> env_step rnd hypot env env'"
| executor_interrupt: "interrupt_actor actor_id trigger due (env, evs) = Inr (env', evs') \<Longrightarrow> env_step rnd hypot env env'"
| executor_world: "quiet env env' \<Longrightarrow> env_step rnd hypot env env'"
| death: "cleanup_dead_actor actor_id due (env, evs) = Inr (env', evs') \<Longrightarrow> env_step rnd hypot env env'"

inductive env_steps :: "(rat \<Rightarrow> rat) \<Rightarrow> (vector2 \<Rightarrow> vector2 \<Rightarrow> rat option) \<Rightarrow> environment \<Rightarrow> environment \<Rightarrow> bool"
  for rnd hypot where
  none: "env_steps rnd hypot env env"
| more: "env_steps rnd hypot env env1 \<Longrightarrow> env_step rnd hypot env1 env' \<Longrightarrow> env_steps rnd hypot env env'"

text \<open>The state between steps.\<close>

definition runs :: "environment \<Rightarrow> action_execution \<Rightarrow> bool" where
  "runs env x \<longleftrightarrow> (\<exists>a. catalog_get (env_catalog env) (ex_action_key x) = Inr a
     \<and> 0 \<le> ex_phase_index x \<and> ex_phase_index x < int (length (ac_phases a)))
     \<and> ex_actor_entity_id x \<in> dom (map_of (env_entities env))"

definition life_inv :: "environment \<Rightarrow> bool" where
  "life_inv env \<longleftrightarrow> keyed env \<and> orders_inv env
     \<and> (\<forall>k x. map_of (env_executions env) k = Some x \<longrightarrow> runs env x)
     \<and> (\<forall>k x. map_of (env_executions env) k = Some x \<longrightarrow> ex_status x = STATUS_INTERRUPTED \<longrightarrow> ex_cancel_token x \<in> env_cancelled_tokens env)
     \<and> (\<forall>t \<in> env_cancelled_tokens env. \<exists>k x. map_of (env_executions env) k = Some x \<and> ex_status x = STATUS_INTERRUPTED \<and> ex_cancel_token x = t)"

lemma life_invI:
  assumes "keyed env" "orders_inv env"
    and "\<And>k x. map_of (env_executions env) k = Some x \<Longrightarrow> runs env x"
    and "\<And>k x. map_of (env_executions env) k = Some x \<Longrightarrow> ex_status x = STATUS_INTERRUPTED \<Longrightarrow> ex_cancel_token x \<in> env_cancelled_tokens env"
    and "\<And>t. t \<in> env_cancelled_tokens env \<Longrightarrow> \<exists>k x. map_of (env_executions env) k = Some x \<and> ex_status x = STATUS_INTERRUPTED \<and> ex_cancel_token x = t"
  shows "life_inv env"
  unfolding life_inv_def using assms by blast

lemma life_invD:
  assumes "life_inv env"
  shows "keyed env" "orders_inv env"
    "\<And>k x. map_of (env_executions env) k = Some x \<Longrightarrow> runs env x"
    "\<And>k x. map_of (env_executions env) k = Some x \<Longrightarrow> ex_status x = STATUS_INTERRUPTED \<Longrightarrow> ex_cancel_token x \<in> env_cancelled_tokens env"
    "\<And>t. t \<in> env_cancelled_tokens env \<Longrightarrow> \<exists>k x. map_of (env_executions env) k = Some x \<and> ex_status x = STATUS_INTERRUPTED \<and> ex_cancel_token x = t"
  using assms unfolding life_inv_def by blast+

lemma entities_le_dom:
  assumes "entities_le env env'"
  shows "dom (map_of (env_entities env')) = dom (map_of (env_entities env))"
  using assms by (metis dom_map_of_conv_image_fst entities_le_def list.set_map)

lemma runs_frame:
  assumes "runs env x" "env_catalog env' = env_catalog env" "entities_le env env'"
    "ex_action_key y = ex_action_key x" "ex_phase_index y = ex_phase_index x" "ex_actor_entity_id y = ex_actor_entity_id x"
  shows "runs env' y"
  using assms unfolding runs_def by (simp add: entities_le_dom)

lemma life_inv_quiet:
  assumes "quiet env env'" "life_inv env"
  shows "life_inv env'"
proof (rule life_invI)
  note i = life_invD [OF assms(2)]
  have same: "env_executions env' = env_executions env" "env_cancelled_tokens env' = env_cancelled_tokens env"
    "env_catalog env' = env_catalog env" "entities_le env env'" using assms(1) by (simp_all add: quiet_def)
  show "keyed env'" by (rule keyed_quiet [OF assms(1) i(1)])
  show "orders_inv env'" using i(2) assms(1) by (simp add: orders_inv_def quiet_def)
  show "runs env' x" if "map_of (env_executions env') k = Some x" for k x
    using i(3) [OF that [unfolded same(1)]] by (rule runs_frame) (simp_all add: same)
  show "ex_cancel_token x \<in> env_cancelled_tokens env'" if "map_of (env_executions env') k = Some x" "ex_status x = STATUS_INTERRUPTED" for k x
    using that i(4) by (simp add: same)
  show "\<exists>k x. map_of (env_executions env') k = Some x \<and> ex_status x = STATUS_INTERRUPTED \<and> ex_cancel_token x = t" if "t \<in> env_cancelled_tokens env'" for t
    using that i(5) by (simp add: same)
qed

lemma life_inv_schedule:
  assumes "life_inv env" "orders_inv env'" "env_executions env' = env_executions env" "env_entities env' = env_entities env"
    "env_cancelled_tokens env' = env_cancelled_tokens env" "env_catalog env' = env_catalog env"
  shows "life_inv env'"
proof -
  have "keyed env'" using life_invD(1) [OF assms(1)] by (simp add: keyed_def assms)
  moreover have "runs env' x = runs env x" for x by (simp add: runs_def assms)
  ultimately show ?thesis using assms(1,2) by (simp add: life_inv_def assms)
qed

lemma life_inv_pop:
  assumes "life_inv env" "next_due t env = Some (item, env')"
  shows "life_inv env'"
  by (rule life_inv_schedule [OF assms(1)])
    (use next_due_Some(3) [OF assms(2)] orders_inv_remove [OF life_invD(2) [OF assms(1)]] in simp_all)

text \<open>An execution that is not interrupted changes, or a new one is added.\<close>

lemma life_inv_put:
  assumes "life_inv env" "k = (ex_actor_entity_id x, ex_correlation_id x)" "ex_cancel_token x = cancel_token (fst k) (snd k)"
    "runs env x" "ex_status x \<noteq> STATUS_INTERRUPTED" "\<And>y. map_of (env_executions env) k = Some y \<Longrightarrow> ex_status y \<noteq> STATUS_INTERRUPTED"
  shows "life_inv (put_execution k x env)"
proof (rule life_invI)
  note i = life_invD [OF assms(1)]
  show "keyed (put_execution k x env)" by (rule keyed_put_execution [OF i(1) assms(2,3)])
  show "orders_inv (put_execution k x env)" using i(2) by (simp add: orders_inv_def)
  show "runs (put_execution k x env) y" if "map_of (env_executions (put_execution k x env)) k' = Some y" for k' y
    using that i(3) assms(4) by (auto simp: runs_def split: if_splits)
  show "ex_cancel_token y \<in> env_cancelled_tokens (put_execution k x env)"
    if "map_of (env_executions (put_execution k x env)) k' = Some y" "ex_status y = STATUS_INTERRUPTED" for k' y
    using that i(4) assms(5) by (auto split: if_splits)
  show "\<exists>k' y. map_of (env_executions (put_execution k x env)) k' = Some y \<and> ex_status y = STATUS_INTERRUPTED \<and> ex_cancel_token y = t"
    if t: "t \<in> env_cancelled_tokens (put_execution k x env)" for t
  proof -
    from t have "t \<in> env_cancelled_tokens env" by simp
    from i(5) [OF this] obtain k' y where y: "map_of (env_executions env) k' = Some y" "ex_status y = STATUS_INTERRUPTED" "ex_cancel_token y = t" by blast
    with assms(6) have "k' \<noteq> k" by auto
    with y show ?thesis by (intro exI [of _ k'] exI [of _ y]) simp
  qed
qed

lemma life_inv_appends:
  assumes "life_inv env" "fresh_orders (env_next_schedule_order env) items"
  shows "life_inv (appends items env)"
  by (rule life_inv_schedule [OF assms(1) orders_inv_appends [OF life_invD(2) [OF assms(1)] assms(2)]]) simp_all

lemma life_inv_interrupts:
  assumes "interrupts env env'" "life_inv env"
  shows "life_inv env'"
proof -
  note i = life_invD [OF assms(2)]
  from assms(1) obtain sel where sel: "\<And>x. sel x \<Longrightarrow> \<not> is_terminal x"
    and m: "\<And>k. map_of (env_executions env') k = map_option (\<lambda>x. if sel x then x\<lparr>ex_status := STATUS_INTERRUPTED\<rparr> else x) (map_of (env_executions env) k)"
    and c: "env_cancelled_tokens env' = env_cancelled_tokens env \<union> {ex_cancel_token x | k x. map_of (env_executions env) k = Some x \<and> sel x}"
    and f: "entities_le env env'" "env_catalog env' = env_catalog env" "env_scheduled env' = env_scheduled env"
      "env_next_schedule_order env' = env_next_schedule_order env" "keyed env'"
    unfolding interrupts_def by blast
  show ?thesis
  proof (rule life_invI)
    show "keyed env'" by (rule f)
    show "orders_inv env'" using i(2) f by (simp add: orders_inv_def)
    show "runs env' x'" if x': "map_of (env_executions env') k = Some x'" for k x'
    proof -
      from x' obtain x where x: "map_of (env_executions env) k = Some x" "x' = (if sel x then x\<lparr>ex_status := STATUS_INTERRUPTED\<rparr> else x)"
        by (auto simp: m)
      from i(3) [OF x(1)] show ?thesis by (rule runs_frame) (simp_all add: f x(2))
    qed
    show "ex_cancel_token x' \<in> env_cancelled_tokens env'" if x': "map_of (env_executions env') k = Some x'" "ex_status x' = STATUS_INTERRUPTED" for k x'
    proof -
      from x'(1) obtain x where x: "map_of (env_executions env) k = Some x" "x' = (if sel x then x\<lparr>ex_status := STATUS_INTERRUPTED\<rparr> else x)"
        by (auto simp: m)
      show ?thesis
      proof (cases "sel x")
        case True
        with x(1) have "ex_cancel_token x \<in> {ex_cancel_token x | k x. map_of (env_executions env) k = Some x \<and> sel x}" by blast
        with x(2) True show ?thesis by (simp add: c)
      next
        case False
        with x x'(2) i(4) show ?thesis by (simp add: c)
      qed
    qed
    show "\<exists>k x. map_of (env_executions env') k = Some x \<and> ex_status x = STATUS_INTERRUPTED \<and> ex_cancel_token x = t"
      if t: "t \<in> env_cancelled_tokens env'" for t
    proof -
      from t consider "t \<in> env_cancelled_tokens env" | k x where "map_of (env_executions env) k = Some x" "sel x" "t = ex_cancel_token x"
        unfolding c by blast
      then show ?thesis
      proof cases
        case 1
        then obtain k x where x: "map_of (env_executions env) k = Some x" "ex_status x = STATUS_INTERRUPTED" "ex_cancel_token x = t" using i(5) by blast
        then have "\<not> sel x" using sel by (auto simp: is_terminal_def)
        with x show ?thesis by (intro exI [of _ k] exI [of _ x]) (simp add: m)
      next
        case (2 k x)
        then show ?thesis by (intro exI [of _ k] exI [of _ "x\<lparr>ex_status := STATUS_INTERRUPTED\<rparr>"]) (simp add: m)
      qed
    qed
  qed
qed

subsection \<open>What the handlers do\<close>

lemma release_cases:
  obtains (unchanged) "release_action_phase item env = env"
  | (released) k x y where "k = (it_actor_id item, it_correlation_id item)" "map_of (env_executions env) k = Some x" "\<not> is_terminal x"
      "release_action_phase item env = put_execution k y env" "same_execution x y" "ex_phase_index y = ex_phase_index x"
      "ex_phase_ends_at_ms y = ex_phase_ends_at_ms x" "\<not> is_terminal y"
proof (cases "map_of (env_executions env) (it_actor_id item, it_correlation_id item)")
  case None
  show thesis by (rule unchanged) (simp add: release_action_phase_def None)
next
  case (Some x)
  show thesis
  proof (cases "is_terminal x \<or> it_phase_index item = None")
    case True
    show thesis by (rule unchanged) (use Some True in \<open>auto simp: release_action_phase_def split: option.split\<close>)
  next
    case False
    then obtain i where i: "it_phase_index item = Some i" "\<not> is_terminal x" by auto
    let ?x1 = "x\<lparr>ex_released_phase_indexes := insert i (ex_released_phase_indexes x)\<rparr>"
    let ?y = "if ex_phase_index x = i then ?x1\<lparr>ex_payload_release_status := PAYLOAD_RELEASED,
        ex_status := (if ex_status x = STATUS_ACTIVE then STATUS_RELEASED else ex_status x)\<rparr> else ?x1"
    have "release_action_phase item env = put_execution (it_actor_id item, it_correlation_id item) ?y env"
      using Some i by (simp add: release_action_phase_def Let_def)
    then show thesis
      by (rule released [OF refl Some i(2)]) (use i(2) in \<open>auto simp: same_execution_def is_terminal_def\<close>)
  qed
qed

lemma complete_cases:
  assumes "complete_action item (env, evs) = Inr (env', evs')"
  obtains (unchanged) "quiet env env'" "\<And>x. map_of (env_executions env) (it_actor_id item, it_correlation_id item) = Some x \<Longrightarrow> is_terminal x"
  | (completed) k x where "k = (it_actor_id item, it_correlation_id item)" "map_of (env_executions env) k = Some x" "\<not> is_terminal x"
      "quiet (put_execution k (x\<lparr>ex_status := STATUS_COMPLETED\<rparr>) env) env'"
proof (cases "map_of (env_executions env) (it_actor_id item, it_correlation_id item)")
  case None
  show thesis by (rule unchanged) (use None assms in \<open>auto simp: complete_action_def Let_def dest: quiet_emit\<close>)
next
  case (Some x)
  show thesis
  proof (cases "is_terminal x")
    case True
    show thesis by (rule unchanged) (use assms Some True in \<open>auto simp: complete_action_def Let_def\<close>)
  next
    case False
    let ?k = "(it_actor_id item, it_correlation_id item)"
    let ?e = "put_execution ?k (x\<lparr>ex_status := STATUS_COMPLETED\<rparr>) env"
    from assms Some False obtain kind t fs where
      "emit kind t fs (free_actor (it_actor_id item) (ex_actor_life_id x) (it_due_time_ms item) ?e, evs) = Inr (env', evs')"
      by (auto simp: complete_action_def Let_def)
    from quiet_emit [OF this] have "quiet ?e env'" by (simp add: quiet_trans [OF quiet_free_actor])
    then show thesis by (rule completed [OF refl Some False])
  qed
qed

lemma transition_cases:
  assumes "transition_action_phase rnd hypot item env = Inr env'" "keyed env" "life_inv env"
  obtains (unchanged) "env' = env" "\<And>x. map_of (env_executions env) (it_actor_id item, it_correlation_id item) = Some x \<Longrightarrow>
      is_terminal x \<or> it_phase_index item \<noteq> Some (ex_phase_index x)"
  | (moved) k x y action items last where "k = (it_actor_id item, it_correlation_id item)" "map_of (env_executions env) k = Some x" "\<not> is_terminal x"
      "it_phase_index item = Some (ex_phase_index x)" "catalog_get (env_catalog env) (ex_action_key x) = Inr action"
      "env' = put_execution k y (appends (items @ [last]) env)" "fresh_orders (env_next_schedule_order env) (items @ [last])"
      "advances last action y" "same_execution x y" "ex_phase_index y = ex_phase_index x + 1"
      "ex_phase_index y < int (length (ac_phases action))" "\<not> is_terminal y"
proof (cases "\<exists>x. map_of (env_executions env) (it_actor_id item, it_correlation_id item) = Some x \<and> \<not> is_terminal x
    \<and> it_phase_index item = Some (ex_phase_index x)")
  case False
  show thesis by (rule unchanged) (use False assms(1) in \<open>auto simp: transition_action_phase_def Let_def split: option.splits if_splits\<close>)
next
  case True
  let ?k = "(it_actor_id item, it_correlation_id item)"
  from True obtain x where x: "map_of (env_executions env) ?k = Some x" "\<not> is_terminal x" "it_phase_index item = Some (ex_phase_index x)" by blast
  from assms(1) x obtain action where a: "catalog_get (env_catalog env) (ex_action_key x) = Inr action"
    and s: "schedule_action_phase rnd hypot ?k x action (ex_phase_index x + 1) (it_due_time_ms item) env = Inr env'"
    by (auto simp: transition_action_phase_def Let_def result_simps split: if_splits)
  have "0 \<le> ex_phase_index x + 1" using life_invD(3) [OF assms(3) x(1)] by (auto simp: runs_def)
  moreover have "en_entity_id e = ex_actor_entity_id x" if "map_of (env_entities env) (ex_actor_entity_id x) = Some e" for e
    using that keyed_entity [OF assms(2)] by simp
  ultimately obtain items last y where r: "env' = put_execution ?k y (appends (items @ [last]) env)"
    "fresh_orders (env_next_schedule_order env) (items @ [last])" "advances last action y" "same_execution x y"
    "ex_phase_index y = ex_phase_index x + 1" "ex_phase_index x + 1 < int (length (ac_phases action))" "\<not> is_terminal y"
    using schedule_action_phase_Inr [OF s] by metis
  show thesis by (rule moved [OF refl x a r(1-5) _ r(7)]) (simp add: r(5,6))
qed

subsection \<open>Invariants\<close>

lemma same_execution_key: "same_execution x y \<Longrightarrow> keyed env \<Longrightarrow> map_of (env_executions env) k = Some x \<Longrightarrow>
    k = (ex_actor_entity_id y, ex_correlation_id y) \<and> ex_cancel_token y = cancel_token (fst k) (snd k)"
  using keyed_execution [of env k x] unfolding same_execution_def by metis

lemma not_terminal_status: "\<not> is_terminal x \<Longrightarrow> ex_status x \<noteq> STATUS_INTERRUPTED"
  by (auto simp: is_terminal_def)

text \<open>An unfinished execution is replaced by a later state of the same execution.\<close>

lemma life_inv_update:
  assumes "life_inv env" "map_of (env_executions env) k = Some x" "\<not> is_terminal x" "same_execution x y" "runs env y" "ex_status y \<noteq> STATUS_INTERRUPTED"
  shows "life_inv (put_execution k y env)"
  using same_execution_key [OF assms(4) life_invD(1) [OF assms(1)] assms(2)] assms not_terminal_status
  by (intro life_inv_put) auto

lemma env_step_inv:
  assumes "env_step rnd hypot env env'" "life_inv env"
  shows "life_inv env'"
  using assms
proof (cases rule: env_step.cases)
  case (start d action evs evs')
  from start_action_Inr [OF start(1) life_invD(1) [OF assms(2)]] obtain env1 x0 x k items last where
    q: "quiet env env1" and n: "map_of (env_executions env) k = None"
    and e: "env' = put_execution k x (appends (items @ [last]) (put_execution k x0 env1))"
    and f: "fresh_orders (env_next_schedule_order env) (items @ [last])"
    and k: "k = (ex_actor_entity_id x, ex_correlation_id x)" "ex_cancel_token x = cancel_token (fst k) (snd k)"
    and k0: "k = (ex_actor_entity_id x0, ex_correlation_id x0)" "ex_cancel_token x0 = cancel_token (fst k) (snd k)"
    and p: "ex_phase_index x = 0" "0 < length (ac_phases action)" "\<not> is_terminal x" "ex_action_key x = ac_action_key action"
    and d: "fst k \<in> dom (map_of (env_entities env))" by metis
  have i1: "life_inv (appends (items @ [last]) env1)"
    by (rule life_inv_appends [OF life_inv_quiet [OF q assms(2)]]) (use f q in \<open>simp add: quiet_def\<close>)
  have "runs (appends (items @ [last]) env1) x"
    using p start(2) d k(1) q entities_le_dom [of env env1] by (simp add: runs_def quiet_def)
  then have "life_inv (put_execution k x (appends (items @ [last]) env1))"
    by (rule life_inv_put [OF i1 k]) (use p(3) n q in \<open>auto simp: not_terminal_status quiet_def\<close>)
  moreover have "map_of (env_executions env') = map_of (env_executions (put_execution k x (appends (items @ [last]) env1)))"
    by (auto simp: e)
  moreover have "keyed env'" unfolding e
    by (intro keyed_put_execution k) (simp add: keyed_put_execution [OF keyed_quiet [OF q life_invD(1) [OF assms(2)]] k0])
  ultimately show ?thesis by (simp add: e life_inv_def orders_inv_def runs_def)
next
  case (discard t item)
  with life_inv_pop [OF assms(2)] show ?thesis by blast
next
  case (release t item env1)
  from life_inv_pop [OF assms(2) release(2)] have i1: "life_inv env1" .
  show ?thesis
  proof (cases rule: release_cases [of item env1])
    case unchanged
    with release(1) i1 show ?thesis by simp
  next
    case (released k x y)
    have "runs env1 y" using life_invD(3) [OF i1 released(2)]
      by (rule runs_frame) (use released(5,6) in \<open>simp_all add: same_execution_def\<close>)
    with life_inv_update [OF i1 released(2,3,5)] released(4,8) release(1) not_terminal_status show ?thesis by simp
  qed
next
  case (transition t item env1)
  from life_inv_pop [OF assms(2) transition(1)] have i1: "life_inv env1" .
  show ?thesis
  proof (cases rule: transition_cases [OF transition(4) life_invD(1) [OF i1] i1, case_names unchanged moved])
    case unchanged
    with i1 show ?thesis by simp
  next
    case (moved k x y action items last)
    let ?e = "appends (items @ [last]) env1"
    have ie: "life_inv ?e" by (rule life_inv_appends [OF i1 moved(7)])
    have "runs ?e y" using life_invD(3) [OF i1 moved(2)] moved by (auto simp: runs_def same_execution_def)
    with life_inv_update [OF ie _ moved(3,9)] moved(2,6,12) not_terminal_status show ?thesis by simp
  qed
next
  case (completion t item env1 evs evs')
  from life_inv_pop [OF assms(2) completion(1)] have i1: "life_inv env1" .
  show ?thesis
  proof (cases rule: complete_cases [OF completion(4), case_names unchanged completed])
    case unchanged
    with life_inv_quiet i1 show ?thesis by blast
  next
    case (completed k x)
    let ?y = "x\<lparr>ex_status := STATUS_COMPLETED\<rparr>"
    have "runs env1 ?y" using life_invD(3) [OF i1 completed(2)] by (rule runs_frame) simp_all
    with life_inv_update [OF i1 completed(2,3), of ?y] have "life_inv (put_execution k ?y env1)" by (simp add: same_execution_def)
    with life_inv_quiet [OF completed(4)] show ?thesis by blast
  qed
next
  case (resolution t item)
  with life_inv_pop [OF assms(2)] show ?thesis by blast
next
  case executor_order
  show ?thesis unfolding executor_order
    by (rule life_inv_schedule [OF assms(2)]) (use life_invD(2) [OF assms(2)] in \<open>auto simp: take_schedule_order_def orders_inv_def\<close>)
next
  case (executor_schedule mk)
  from schedule_new_Inr(1) [OF executor_schedule(1)] executor_schedule(2)
  show ?thesis by (simp add: life_inv_appends [OF assms(2)])
next
  case (executor_interrupt actor_id trigger due evs evs')
  from interrupt_actor_interrupts [OF executor_interrupt] life_invD(1) [OF assms(2)]
  show ?thesis using life_inv_interrupts [OF _ assms(2)] by simp
next
  case executor_world
  with life_inv_quiet assms(2) show ?thesis by blast
next
  case (death actor_id due evs evs')
  from cleanup_dead_actor_interrupts [OF death] life_invD(1) [OF assms(2)]
  show ?thesis using life_inv_interrupts life_inv_quiet [OF _ assms(2)] by auto
qed

text \<open>How executions evolve: none disappears or changes its identity, phases only go forward, and a finished
  execution never changes again; a cancelled token stays cancelled.\<close>

definition evolves :: "environment \<Rightarrow> environment \<Rightarrow> bool" where
  "evolves env env' \<longleftrightarrow> env_cancelled_tokens env \<subseteq> env_cancelled_tokens env' \<and> env_catalog env' = env_catalog env \<and> entities_le env env'
     \<and> (\<forall>k x. map_of (env_executions env) k = Some x \<longrightarrow>
          (\<exists>y. map_of (env_executions env') k = Some y \<and> same_execution x y \<and> ex_phase_index x \<le> ex_phase_index y \<and> (is_terminal x \<longrightarrow> y = x)))"

lemma evolvesD:
  assumes "evolves env env'"
  shows "env_cancelled_tokens env \<subseteq> env_cancelled_tokens env'" "env_catalog env' = env_catalog env" "entities_le env env'"
    "\<And>k x. map_of (env_executions env) k = Some x \<Longrightarrow>
       \<exists>y. map_of (env_executions env') k = Some y \<and> same_execution x y \<and> ex_phase_index x \<le> ex_phase_index y \<and> (is_terminal x \<longrightarrow> y = x)"
  using assms unfolding evolves_def by blast+

lemma same_execution_refl [simp]: "same_execution x x"
  by (simp add: same_execution_def)

lemma same_execution_trans: "same_execution x y \<Longrightarrow> same_execution y z \<Longrightarrow> same_execution x z"
  by (simp add: same_execution_def)

lemma evolves_same:
  assumes "map_of (env_executions env') = map_of (env_executions env)" "env_cancelled_tokens env \<subseteq> env_cancelled_tokens env'"
    "env_catalog env' = env_catalog env" "entities_le env env'"
  shows "evolves env env'"
  using assms unfolding evolves_def by simp

lemma evolves_quiet: "quiet env env' \<Longrightarrow> evolves env env'"
  by (rule evolves_same) (simp_all add: quiet_def)

lemma evolves_appends: "evolves env (appends items env)"
  by (rule evolves_same) (simp_all add: entities_le_same)

lemma evolves_trans:
  assumes "evolves env1 env2" "evolves env2 env3"
  shows "evolves env1 env3"
  unfolding evolves_def
proof (intro conjI allI impI)
  note i = evolvesD [OF assms(1)] and j = evolvesD [OF assms(2)]
  show "env_cancelled_tokens env1 \<subseteq> env_cancelled_tokens env3" using i(1) j(1) by blast
  show "env_catalog env3 = env_catalog env1" using i(2) j(2) by simp
  show "entities_le env1 env3" using i(3) j(3) by (rule entities_le_trans)
  fix k x assume "map_of (env_executions env1) k = Some x"
  from i(4) [OF this] obtain y where y: "map_of (env_executions env2) k = Some y" "same_execution x y" "ex_phase_index x \<le> ex_phase_index y" "is_terminal x \<longrightarrow> y = x" by blast
  from j(4) [OF y(1)] obtain z where "map_of (env_executions env3) k = Some z" "same_execution y z" "ex_phase_index y \<le> ex_phase_index z" "is_terminal y \<longrightarrow> z = y" by blast
  with y show "\<exists>z. map_of (env_executions env3) k = Some z \<and> same_execution x z \<and> ex_phase_index x \<le> ex_phase_index z \<and> (is_terminal x \<longrightarrow> z = x)"
    by (intro exI [of _ z]) (auto intro: same_execution_trans)
qed

lemma evolves_put:
  assumes "\<And>x. map_of (env_executions env) k = Some x \<Longrightarrow> \<not> is_terminal x \<and> same_execution x y \<and> ex_phase_index x \<le> ex_phase_index y"
  shows "evolves env (put_execution k y env)"
  unfolding evolves_def using assms by (auto simp: entities_le_same)

lemma evolves_interrupts:
  assumes "interrupts env env'"
  shows "evolves env env'"
  unfolding evolves_def
proof (intro conjI allI impI)
  from assms obtain sel where sel: "\<And>x. sel x \<Longrightarrow> \<not> is_terminal x"
    and m: "\<And>k. map_of (env_executions env') k = map_option (\<lambda>x. if sel x then x\<lparr>ex_status := STATUS_INTERRUPTED\<rparr> else x) (map_of (env_executions env) k)"
    and c: "env_cancelled_tokens env \<subseteq> env_cancelled_tokens env'"
    unfolding interrupts_def by blast
  show "env_cancelled_tokens env \<subseteq> env_cancelled_tokens env'" by (rule c)
  show "env_catalog env' = env_catalog env" "entities_le env env'" using assms by (simp_all add: interrupts_def)
  fix k x assume "map_of (env_executions env) k = Some x"
  then show "\<exists>y. map_of (env_executions env') k = Some y \<and> same_execution x y \<and> ex_phase_index x \<le> ex_phase_index y \<and> (is_terminal x \<longrightarrow> y = x)"
    using sel by (auto simp: m same_execution_def)
qed

lemma evolves_pop: "next_due t env = Some (item, env') \<Longrightarrow> evolves env env'"
  by (drule next_due_Some(3), rule evolves_same) (simp_all add: entities_le_same)

lemma env_step_evolves:
  assumes "env_step rnd hypot env env'" "life_inv env"
  shows "evolves env env'"
  using assms
proof (cases rule: env_step.cases)
  case (start d action evs evs')
  from start_action_Inr [OF start(1) life_invD(1) [OF assms(2)]] obtain env1 x0 x k items last where
    q: "quiet env env1" and n: "map_of (env_executions env) k = None"
    and e: "env' = put_execution k x (appends (items @ [last]) (put_execution k x0 env1))" by metis
  have "map_of (env_executions env1) k = None" using q n by (simp add: quiet_def)
  then have "evolves env1 env'" unfolding e evolves_def by (auto simp: entities_le_same)
  with evolves_quiet [OF q] show ?thesis by (rule evolves_trans)
next
  case (release t item env1)
  have "evolves env1 (release_action_phase item env1)"
  proof (cases rule: release_cases [of item env1])
    case unchanged
    then show ?thesis by (simp add: evolves_same)
  next
    case (released k x y)
    show ?thesis unfolding released(4) by (rule evolves_put) (use released in auto)
  qed
  with evolves_pop [OF release(2)] release(1) show ?thesis using evolves_trans by blast
next
  case (transition t item env1)
  from life_inv_pop [OF assms(2) transition(1)] have i1: "life_inv env1" .
  have "evolves env1 env'"
  proof (cases rule: transition_cases [OF transition(4) life_invD(1) [OF i1] i1, case_names unchanged moved])
    case unchanged
    then show ?thesis by (simp add: evolves_same)
  next
    case (moved k x y action items last)
    have "evolves (appends (items @ [last]) env1) env'" unfolding moved(6)
      by (rule evolves_put) (use moved in auto)
    with evolves_appends show ?thesis by (rule evolves_trans)
  qed
  with evolves_pop [OF transition(1)] show ?thesis by (rule evolves_trans)
next
  case (completion t item env1 evs evs')
  have "evolves env1 env'"
  proof (cases rule: complete_cases [OF completion(4), case_names unchanged completed])
    case unchanged
    then show ?thesis by (simp add: evolves_quiet)
  next
    case (completed k x)
    have "evolves env1 (put_execution k (x\<lparr>ex_status := STATUS_COMPLETED\<rparr>) env1)"
      by (rule evolves_put) (use completed in \<open>auto simp: same_execution_def\<close>)
    then show ?thesis using evolves_quiet [OF completed(4)] by (rule evolves_trans)
  qed
  with evolves_pop [OF completion(1)] show ?thesis by (rule evolves_trans)
next
  case executor_order
  show ?thesis unfolding executor_order by (rule evolves_same) (simp_all add: take_schedule_order_def entities_le_same)
next
  case (executor_schedule mk)
  from schedule_new_Inr(1) [OF executor_schedule(1)] show ?thesis by (simp add: evolves_appends)
next
  case (executor_interrupt actor_id trigger due evs evs')
  from interrupt_actor_interrupts [OF executor_interrupt] life_invD(1) [OF assms(2)]
  show ?thesis by (simp add: evolves_interrupts)
next
  case (death actor_id due evs evs')
  from cleanup_dead_actor_interrupts [OF death] life_invD(1) [OF assms(2)]
  obtain e1 where "quiet env e1" "interrupts e1 env'" by auto
  then show ?thesis using evolves_trans evolves_quiet evolves_interrupts by blast
qed (use evolves_pop evolves_quiet in blast)+

lemma env_steps_inv: "env_steps rnd hypot env env' \<Longrightarrow> life_inv env \<Longrightarrow> life_inv env' \<and> evolves env env'"
proof (induction rule: env_steps.induct)
  case (none env)
  then show ?case by (simp add: evolves_same)
next
  case (more env env1 env')
  then show ?case using env_step_inv env_step_evolves evolves_trans by blast
qed

subsection \<open>No live execution is lost\<close>

definition pending_advance :: "environment \<Rightarrow> action_execution \<Rightarrow> bool" where
  "pending_advance env x \<longleftrightarrow>
     (\<exists>item \<in> set (env_scheduled env). \<exists>a. catalog_get (env_catalog env) (ex_action_key x) = Inr a \<and> advances item a x)"

definition alive_in :: "environment \<Rightarrow> action_execution \<Rightarrow> bool" where
  "alive_in env x \<longleftrightarrow>
     (\<exists>e. map_of (env_entities env) (ex_actor_entity_id x) = Some e \<and> en_alive e \<and> en_life_id e = ex_actor_life_id x)"

definition progress_inv :: "environment \<Rightarrow> bool" where
  "progress_inv env \<longleftrightarrow>
     (\<forall>k x. map_of (env_executions env) k = Some x \<longrightarrow> \<not> is_terminal x \<longrightarrow> alive_in env x \<longrightarrow> pending_advance env x)"

text \<open>The names of entities are free of the separator used in cancel tokens.\<close>

definition colon_free :: "environment \<Rightarrow> bool" where
  "colon_free env \<longleftrightarrow> (\<forall>k \<in> dom (map_of (env_entities env)). CHR '':'' \<notin> set k)"

lemma cancel_token_inject:
  assumes "cancel_token a c = cancel_token a' c'" "CHR '':'' \<notin> set a" "CHR '':'' \<notin> set a'"
  shows "a = a' \<and> c = c'"
proof -
  have tw: "takeWhile (\<lambda>x. x \<noteq> CHR '':'') (b @ '':'' @ d) = b" if "CHR '':'' \<notin> set b" for b d :: string
    using that by (induction b) auto
  from assms(1) have e: "a @ '':'' @ c = a' @ '':'' @ c'" by (simp add: cancel_token_def)
  from tw [OF assms(2), of c] tw [OF assms(3), of c'] have "a = a'" unfolding e by simp
  with e show ?thesis by simp
qed

lemma alive_in_mono: "entities_le env env' \<Longrightarrow> alive_in env' y \<Longrightarrow> same_execution x y \<Longrightarrow> alive_in env x"
  unfolding alive_in_def same_execution_def by (metis entities_le_Some)

lemma pending_advance_grow:
  assumes "pending_advance env x" "set (env_scheduled env) \<subseteq> set (env_scheduled env')" "env_catalog env' = env_catalog env"
  shows "pending_advance env' x"
  using assms unfolding pending_advance_def by auto

lemma pending_advance_cong:
  assumes "pending_advance env x" "same_execution x y" "ex_phase_index y = ex_phase_index x" "ex_phase_ends_at_ms y = ex_phase_ends_at_ms x"
  shows "pending_advance env y"
  using assms unfolding pending_advance_def advances_def same_execution_def by metis

text \<open>The work that advances a live execution is valid.\<close>

lemma advance_valid:
  assumes inv: "life_inv env" "colon_free env" and x: "map_of (env_executions env) k = Some x" "\<not> is_terminal x" "alive_in env x"
    and item: "advances item a x"
  shows "scheduled_item_is_valid env item"
proof -
  have "ex_cancel_token x \<notin> env_cancelled_tokens env"
  proof
    assume "ex_cancel_token x \<in> env_cancelled_tokens env"
    then obtain k' y where y: "map_of (env_executions env) k' = Some y" "ex_status y = STATUS_INTERRUPTED" "ex_cancel_token y = ex_cancel_token x"
      using life_invD(5) [OF inv(1)] by blast
    note kx = keyed_execution [OF life_invD(1) [OF inv(1)] x(1)] and ky = keyed_execution [OF life_invD(1) [OF inv(1)] y(1)]
    have "fst k \<in> dom (map_of (env_entities env))" "fst k' \<in> dom (map_of (env_entities env))"
      using life_invD(3) [OF inv(1) x(1)] life_invD(3) [OF inv(1) y(1)] kx ky unfolding runs_def by (metis fst_conv)+
    then have "CHR '':'' \<notin> set (fst k)" "CHR '':'' \<notin> set (fst k')" using inv(2) unfolding colon_free_def by blast+
    moreover have "cancel_token (fst k) (snd k) = cancel_token (fst k') (snd k')"
      using conjunct2 [OF kx] conjunct2 [OF ky] y(3) by simp
    ultimately have "k = k'" using cancel_token_inject by (metis prod_eq_iff)
    with x y show False by (simp add: is_terminal_def)
  qed
  with item x(3) show ?thesis by (auto simp: scheduled_item_is_valid_def advances_def alive_in_def split: option.splits)
qed

lemma pop_pending:
  assumes "next_due t env = Some (item, env1)" "pending_advance env x"
  shows "pending_advance env1 x \<or> (\<exists>a. catalog_get (env_catalog env) (ex_action_key x) = Inr a \<and> advances item a x)"
proof -
  from assms(2) obtain it a where it: "it \<in> set (env_scheduled env)" "catalog_get (env_catalog env) (ex_action_key x) = Inr a" "advances it a x"
    unfolding pending_advance_def by blast
  show ?thesis
  proof (cases "it = item")
    case False
    with it have "pending_advance env1 x" unfolding pending_advance_def next_due_Some(3) [OF assms(1)] by (auto intro!: bexI [of _ it])
    then show ?thesis ..
  qed (use it in blast)
qed

lemma progress_invI:
  assumes "progress_inv env" "entities_le env env'"
    and "\<And>k y. map_of (env_executions env') k = Some y \<Longrightarrow> \<not> is_terminal y \<Longrightarrow> alive_in env' y \<Longrightarrow>
      pending_advance env' y \<or> (\<exists>x. map_of (env_executions env) k = Some x \<and> \<not> is_terminal x \<and> same_execution x y
        \<and> (pending_advance env x \<longrightarrow> pending_advance env' y))"
  shows "progress_inv env'"
  unfolding progress_inv_def
proof (intro allI impI)
  fix k y assume y: "map_of (env_executions env') k = Some y" "\<not> is_terminal y" "alive_in env' y"
  from assms(3) [OF y] show "pending_advance env' y"
  proof (elim disjE exE conjE)
    fix x assume x: "map_of (env_executions env) k = Some x" "\<not> is_terminal x" "same_execution x y" "pending_advance env x \<longrightarrow> pending_advance env' y"
    from alive_in_mono [OF assms(2) y(3) x(3)] x assms(1) show ?thesis unfolding progress_inv_def by blast
  qed
qed

lemma progress_same:
  assumes "progress_inv env" "map_of (env_executions env') = map_of (env_executions env)" "set (env_scheduled env) \<subseteq> set (env_scheduled env')"
    "env_catalog env' = env_catalog env" "entities_le env env'"
  shows "progress_inv env'"
  by (rule progress_invI [OF assms(1,5)]) (use assms(2-4) pending_advance_grow in auto)

lemma progress_quiet: "quiet env env' \<Longrightarrow> progress_inv env \<Longrightarrow> progress_inv env'"
  by (rule progress_same [of env]) (simp_all add: quiet_def)

lemma progress_interrupts:
  assumes "interrupts env env'" "progress_inv env"
  shows "progress_inv env'"
proof (rule progress_invI [OF assms(2)])
  show "entities_le env env'" using assms(1) by (simp add: interrupts_def)
  fix k y assume y: "map_of (env_executions env') k = Some y" "\<not> is_terminal y"
  from assms(1) obtain sel where
    m: "\<And>k. map_of (env_executions env') k = map_option (\<lambda>x. if sel x then x\<lparr>ex_status := STATUS_INTERRUPTED\<rparr> else x) (map_of (env_executions env) k)"
    and f: "env_scheduled env' = env_scheduled env" "env_catalog env' = env_catalog env"
    unfolding interrupts_def by blast
  from y have "map_of (env_executions env) k = Some y" by (auto simp: m is_terminal_def split: if_splits)
  moreover have "pending_advance env y \<longrightarrow> pending_advance env' y" by (simp add: pending_advance_def f)
  ultimately show "pending_advance env' y \<or> (\<exists>x. map_of (env_executions env) k = Some x \<and> \<not> is_terminal x \<and> same_execution x y
      \<and> (pending_advance env x \<longrightarrow> pending_advance env' y))" using y(2) by auto
qed

text \<open>An item that advances no live execution can be dropped.\<close>

lemma progress_pop:
  assumes "next_due t env = Some (item, env1)" "progress_inv env"
    and "\<And>k x a. map_of (env_executions env) k = Some x \<Longrightarrow> \<not> is_terminal x \<Longrightarrow> alive_in env x \<Longrightarrow> \<not> advances item a x"
  shows "progress_inv env1"
proof -
  have e: "env_executions env1 = env_executions env" "env_entities env1 = env_entities env" using next_due_Some(3) [OF assms(1)] by simp_all
  have a: "alive_in env1 = alive_in env" by (intro ext) (simp add: alive_in_def e)
  show ?thesis unfolding progress_inv_def e a
  proof (intro allI impI)
    fix k x assume x: "map_of (env_executions env) k = Some x" "\<not> is_terminal x" "alive_in env x"
    with assms(2) have "pending_advance env x" unfolding progress_inv_def by blast
    with pop_pending [OF assms(1)] assms(3) [OF x] show "pending_advance env1 x" by blast
  qed
qed

lemma advances_kind: "advances item a x \<Longrightarrow> it_kind item \<in> {PHASE_TRANSITION, COMPLETION}"
  by (simp add: advances_def)

lemma advances_key: "advances item a x \<Longrightarrow> (it_actor_id item, it_correlation_id item) = (ex_actor_entity_id x, ex_correlation_id x)"
  by (simp add: advances_def)

text \<open>The handlers of the item that advances an execution.\<close>

lemma progress_transition:
  assumes "next_due t env = Some (item, env1)" "transition_action_phase rnd hypot item env1 = Inr env'" "life_inv env" "progress_inv env"
    and kind: "it_kind item = PHASE_TRANSITION"
  shows "progress_inv env'"
proof -
  have i1: "life_inv env1" by (rule life_inv_pop [OF assms(3,1)])
  have e: "env_executions env1 = env_executions env" "env_entities env1 = env_entities env" "env_catalog env1 = env_catalog env"
    using next_due_Some(3) [OF assms(1)] by simp_all
  show ?thesis
  proof (cases rule: transition_cases [OF assms(2) life_invD(1) [OF i1] i1, case_names unchanged moved])
    case unchanged
    show ?thesis unfolding unchanged(1)
    proof (rule progress_pop [OF assms(1,4)])
      fix k x a assume x: "map_of (env_executions env) k = Some x" "\<not> is_terminal x"
      show "\<not> advances item a x"
      proof
        assume adv: "advances item a x"
        then have "k = (it_actor_id item, it_correlation_id item)"
          using keyed_execution [OF life_invD(1) [OF assms(3)] x(1)] advances_key by metis
        with x unchanged(2) [of x] adv show False by (simp add: e advances_def)
      qed
    qed
  next
    case (moved k x y action items last)
    show ?thesis
    proof (rule progress_invI [OF assms(4)])
      show "entities_le env env'" by (rule entities_le_same) (simp add: moved(6) e)
      fix k' z assume z: "map_of (env_executions env') k' = Some z" "\<not> is_terminal z" "alive_in env' z"
      show "pending_advance env' z \<or> (\<exists>x. map_of (env_executions env) k' = Some x \<and> \<not> is_terminal x \<and> same_execution x z
          \<and> (pending_advance env x \<longrightarrow> pending_advance env' z))"
      proof (cases "k' = k")
        case True
        then have "z = y" using z(1) moved(6) by simp
        moreover have "catalog_get (env_catalog env') (ex_action_key y) = Inr action" using moved(5,6,9) by (simp add: same_execution_def)
        ultimately have "pending_advance env' z" using moved(6,8) by (auto simp: pending_advance_def)
        then show ?thesis ..
      next
        case False
        then have old: "map_of (env_executions env) k' = Some z" using z(1) moved(6) by (simp add: e)
        have "pending_advance env' z" if "pending_advance env z"
        proof -
          from keyed_execution [OF life_invD(1) [OF assms(3)] old] False moved(1)
          have "\<not> advances item a z" for a using advances_key by metis
          with pop_pending [OF assms(1) that] have "pending_advance env1 z" by blast
          then show ?thesis by (rule pending_advance_grow) (auto simp: moved(6))
        qed
        with old z(2) show ?thesis by auto
      qed
    qed
  qed
qed

lemma progress_completion:
  assumes "next_due t env = Some (item, env1)" "complete_action item (env1, evs) = Inr (env', evs')" "life_inv env" "progress_inv env"
  shows "progress_inv env'"
proof -
  have e: "env_executions env1 = env_executions env" "env_entities env1 = env_entities env" "env_catalog env1 = env_catalog env"
    using next_due_Some(3) [OF assms(1)] by simp_all
  have key: "k = (it_actor_id item, it_correlation_id item)" if "map_of (env_executions env) k = Some x" "advances item a x" for k x a
    using keyed_execution [OF life_invD(1) [OF assms(3)] that(1)] advances_key [OF that(2)] by metis
  show ?thesis
  proof (cases rule: complete_cases [OF assms(2), case_names unchanged completed])
    case unchanged
    have "progress_inv env1"
      by (rule progress_pop [OF assms(1,4)]) (use key unchanged(2) in \<open>auto simp: e\<close>)
    with progress_quiet [OF unchanged(1)] show ?thesis .
  next
    case (completed k x)
    let ?e = "put_execution k (x\<lparr>ex_status := STATUS_COMPLETED\<rparr>) env1"
    have "progress_inv ?e"
    proof (rule progress_invI [OF assms(4)])
      show "entities_le env ?e" by (rule entities_le_same) (simp add: e)
      fix k' z assume z: "map_of (env_executions ?e) k' = Some z" "\<not> is_terminal z" "alive_in ?e z"
      then have ne: "k' \<noteq> k" by (auto simp: is_terminal_def)
      then have old: "map_of (env_executions env) k' = Some z" using z(1) by (simp add: e)
      have "pending_advance ?e z" if "pending_advance env z"
      proof -
        from key [OF old] ne completed(1) have "\<not> advances item a z" for a by blast
        with pop_pending [OF assms(1) that] have "pending_advance env1 z" by blast
        then show ?thesis by (rule pending_advance_grow) simp_all
      qed
      with old z(2) show "pending_advance ?e z \<or> (\<exists>x. map_of (env_executions env) k' = Some x \<and> \<not> is_terminal x \<and> same_execution x z
          \<and> (pending_advance env x \<longrightarrow> pending_advance ?e z))" by auto
    qed
    with progress_quiet [OF completed(4)] show ?thesis .
  qed
qed

lemma env_step_progress:
  assumes "env_step rnd hypot env env'" "life_inv env" "colon_free env" "progress_inv env"
  shows "progress_inv env'"
  using assms
proof (cases rule: env_step.cases)
  case (start d action evs evs')
  from start_action_Inr [OF start(1) life_invD(1) [OF assms(2)]] obtain env1 x0 x k items last where
    q: "quiet env env1" and e: "env' = put_execution k x (appends (items @ [last]) (put_execution k x0 env1))"
    and a: "advances last action x" "ex_action_key x = ac_action_key action" by metis
  have p1: "progress_inv env1" by (rule progress_quiet [OF q assms(4)])
  show ?thesis
  proof (rule progress_invI [OF p1])
    show "entities_le env1 env'" by (rule entities_le_same) (simp add: e)
    fix k' z assume z: "map_of (env_executions env') k' = Some z" "\<not> is_terminal z" "alive_in env' z"
    show "pending_advance env' z \<or> (\<exists>x. map_of (env_executions env1) k' = Some x \<and> \<not> is_terminal x \<and> same_execution x z
        \<and> (pending_advance env1 x \<longrightarrow> pending_advance env' z))"
    proof (cases "k' = k")
      case True
      then have "z = x" using z(1) e by simp
      with a start(2) q have "pending_advance env' z" by (auto simp: pending_advance_def e quiet_def)
      then show ?thesis ..
    next
      case False
      then have "map_of (env_executions env1) k' = Some z" using z(1) e by simp
      moreover have "pending_advance env' z" if "pending_advance env1 z" using that by (rule pending_advance_grow) (auto simp: e)
      ultimately show ?thesis using z(2) by auto
    qed
  qed
next
  case (discard t item)
  have "\<not> advances item a x" if "map_of (env_executions env) k = Some x" "\<not> is_terminal x" "alive_in env x" for k x a
  proof
    assume adv: "advances item a x"
    have e: "env_executions env' = env_executions env" "env_entities env' = env_entities env" using next_due_Some(3) [OF discard(1)] by simp_all
    have "scheduled_item_is_valid env' item"
      by (rule advance_valid [OF life_inv_pop [OF assms(2) discard(1)] _ _ that(2) _ adv])
        (use assms(3) that in \<open>simp_all add: colon_free_def alive_in_def e\<close>)
    with discard(2) show False ..
  qed
  with progress_pop [OF discard(1) assms(4)] show ?thesis by blast
next
  case (release t item env1)
  have p1: "progress_inv env1"
    by (rule progress_pop [OF release(2) assms(4)]) (use release(4) advances_kind in fastforce)
  show ?thesis
  proof (cases rule: release_cases [of item env1])
    case unchanged
    with p1 release(1) show ?thesis by simp
  next
    case (released k x y)
    show ?thesis unfolding release(1) released(4)
    proof (rule progress_invI [OF p1])
      show "entities_le env1 (put_execution k y env1)" by (rule entities_le_same) simp
      fix k' z assume z: "map_of (env_executions (put_execution k y env1)) k' = Some z" "\<not> is_terminal z"
      have grow: "pending_advance (put_execution k y env1) u" if "pending_advance env1 u" for u
        using that by (rule pending_advance_grow) simp_all
      show "pending_advance (put_execution k y env1) z \<or> (\<exists>x. map_of (env_executions env1) k' = Some x \<and> \<not> is_terminal x \<and> same_execution x z
          \<and> (pending_advance env1 x \<longrightarrow> pending_advance (put_execution k y env1) z))"
      proof (cases "k' = k")
        case True
        then have "z = y" using z(1) by simp
        moreover have "pending_advance (put_execution k y env1) y" if "pending_advance env1 x"
          using grow [OF pending_advance_cong [OF that released(5,6,7)]] .
        ultimately show ?thesis using True released(2,3,5) by auto
      qed (use z grow in auto)
    qed
  qed
next
  case (transition t item env1)
  show ?thesis by (rule progress_transition [OF transition(1,4) assms(2,4) transition(3)])
next
  case (completion t item env1 evs evs')
  show ?thesis by (rule progress_completion [OF completion(1,4) assms(2,4)])
next
  case (resolution t item)
  show ?thesis by (rule progress_pop [OF resolution(1) assms(4)]) (use resolution(3) advances_kind in fastforce)
next
  case executor_order
  show ?thesis unfolding executor_order by (rule progress_same [OF assms(4)]) (simp_all add: take_schedule_order_def entities_le_same)
next
  case (executor_schedule mk)
  from schedule_new_Inr(1) [OF executor_schedule(1)]
  show ?thesis by (intro progress_same [OF assms(4)]) (auto simp: entities_le_same)
next
  case (executor_interrupt actor_id trigger due evs evs')
  from interrupt_actor_interrupts [OF executor_interrupt] life_invD(1) [OF assms(2)]
  show ?thesis using progress_interrupts [OF _ assms(4)] by simp
next
  case executor_world
  then show ?thesis by (rule progress_quiet [OF _ assms(4)])
next
  case (death actor_id due evs evs')
  from cleanup_dead_actor_interrupts [OF death] life_invD(1) [OF assms(2)]
  obtain e1 where "quiet env e1" "interrupts e1 env'" by auto
  then show ?thesis using progress_interrupts progress_quiet [OF _ assms(4)] by blast
qed

lemma colon_free_evolves: "evolves env env' \<Longrightarrow> colon_free env \<Longrightarrow> colon_free env'"
  using evolvesD(3) entities_le_dom unfolding colon_free_def by metis

lemma env_steps_progress:
  "env_steps rnd hypot env env' \<Longrightarrow> life_inv env \<Longrightarrow> colon_free env \<Longrightarrow> progress_inv env \<Longrightarrow> progress_inv env'"
proof (induction rule: env_steps.induct)
  case (more env env1 env')
  then show ?case using env_steps_inv colon_free_evolves env_step_progress by blast
qed

subsection \<open>The work of an action is bound to its execution\<close>

definition effect_kinds :: "scheduled_kind set" where
  "effect_kinds = {EFFECT_PULSE, EFFECT_EXPIRY}"

text \<open>An item an action scheduled carries the token of its execution and one of its phases, and outlives the actor only as a projectile.\<close>

definition bound_work :: "environment \<Rightarrow> scheduled_item \<Rightarrow> bool" where
  "bound_work env item \<longleftrightarrow> (\<exists>x a i. map_of (env_executions env) (it_actor_id item, it_correlation_id item) = Some x
     \<and> it_cancel_token item = Some (ex_cancel_token x) \<and> it_actor_life_id item = Some (ex_actor_life_id x)
     \<and> catalog_get (env_catalog env) (ex_action_key x) = Inr a
     \<and> it_phase_index item = Some i \<and> 0 \<le> i \<and> i < int (length (ac_phases a))
     \<and> (it_continuation_policy item = SOURCE_BOUND
        \<or> (it_continuation_policy item = DETACH_ON_RELEASE \<and> ds_kind (ph_delivery (ac_phases a ! nat i)) = PROJECTILE_DELIVERY)))"

definition work_inv :: "environment \<Rightarrow> bool" where
  "work_inv env \<longleftrightarrow> (\<forall>item \<in> set (env_scheduled env). it_kind item \<notin> effect_kinds \<longrightarrow> bound_work env item)"

lemma bound_work_evolves:
  assumes "bound_work env item" "evolves env env'"
  shows "bound_work env' item"
proof -
  from assms(1) obtain x a i where x: "map_of (env_executions env) (it_actor_id item, it_correlation_id item) = Some x"
    "it_cancel_token item = Some (ex_cancel_token x)" "it_actor_life_id item = Some (ex_actor_life_id x)"
    "catalog_get (env_catalog env) (ex_action_key x) = Inr a" "it_phase_index item = Some i"
    "0 \<le> i" "i < int (length (ac_phases a))" "it_continuation_policy item = SOURCE_BOUND
      \<or> (it_continuation_policy item = DETACH_ON_RELEASE \<and> ds_kind (ph_delivery (ac_phases a ! nat i)) = PROJECTILE_DELIVERY)"
    unfolding bound_work_def by blast
  from evolvesD(4) [OF assms(2) x(1)] obtain y where y: "map_of (env_executions env') (it_actor_id item, it_correlation_id item) = Some y"
    "same_execution x y" by blast
  from y(2) x(2-4) have "it_cancel_token item = Some (ex_cancel_token y)" "it_actor_life_id item = Some (ex_actor_life_id y)"
    "catalog_get (env_catalog env') (ex_action_key y) = Inr a"
    using evolvesD(2) [OF assms(2)] by (simp_all add: same_execution_def)
  with y(1) x(5-8) show ?thesis unfolding bound_work_def by blast
qed

lemma work_inv_evolves:
  assumes "work_inv env" "evolves env env'"
    and "\<And>item. item \<in> set (env_scheduled env') \<Longrightarrow> item \<in> set (env_scheduled env) \<or> it_kind item \<in> effect_kinds \<or> bound_work env' item"
  shows "work_inv env'"
  using assms bound_work_evolves [OF _ assms(2)] unfolding work_inv_def by blast

text \<open>What entering a phase appends to the schedule.\<close>

definition phase_work :: "action_execution \<Rightarrow> action_spec \<Rightarrow> int \<Rightarrow> scheduled_item \<Rightarrow> bool" where
  "phase_work x action i item \<longleftrightarrow> it_actor_id item = ex_actor_entity_id x \<and> it_correlation_id item = ex_correlation_id x
     \<and> it_cancel_token item = Some (ex_cancel_token x) \<and> it_actor_life_id item = Some (ex_actor_life_id x)
     \<and> it_phase_index item = Some i \<and> 0 \<le> i \<and> i < int (length (ac_phases action))
     \<and> (it_continuation_policy item = SOURCE_BOUND
        \<or> (it_continuation_policy item = DETACH_ON_RELEASE \<and> ds_kind (ph_delivery (ac_phases action ! nat i)) = PROJECTILE_DELIVERY))"

lemma phase_workI:
  assumes "en_entity_id actor = ex_actor_entity_id x" "0 \<le> i" "i < int (length (ac_phases action))" "phase = ac_phases action ! nat i"
  shows "phase_work x action i (common_item actor (enter_phase x action phase i t) action i kind due n)"
    "phase_work x action i (payload_item actor (enter_phase x action phase i t) action phase i kind due n)"
    "phase_work x action i ((payload_item actor (enter_phase x action phase i t) action phase i kind due n)\<lparr>it_weapon_attack := w\<rparr>)"
    "phase_work x action i ((payload_item actor (enter_phase x action phase i t) action phase i kind due n)\<lparr>it_effects := es\<rparr>)"
  using assms by (auto simp: phase_work_def common_item_def payload_item_def work_item_def enter_phase_def phase_continuation_def)

lemma schedule_new_work:
  "schedule_new mk env = Inr env' \<Longrightarrow> (\<And>n. P (mk n)) \<Longrightarrow> item \<in> set (env_scheduled env') \<Longrightarrow> item \<in> set (env_scheduled env) \<or> P item"
  by (drule schedule_new_Inr(1)) auto

lemma schedule_when_work:
  "schedule_when b mk env = Inr env' \<Longrightarrow> (\<And>n. P (mk n)) \<Longrightarrow> item \<in> set (env_scheduled env') \<Longrightarrow> item \<in> set (env_scheduled env) \<or> P item"
  by (drule schedule_when_Inr) (auto split: if_splits)

lemma schedule_action_phase_marks:
  assumes "schedule_action_phase rnd hypot k x action i t env = Inr env'" "0 \<le> i"
    and keyed: "\<And>e. map_of (env_entities env) (ex_actor_entity_id x) = Some e \<Longrightarrow> en_entity_id e = ex_actor_entity_id x"
    and item: "item \<in> set (env_scheduled env')"
  shows "item \<in> set (env_scheduled env) \<or> phase_work x action i item"
proof -
  from assms(1) obtain phase actor e1 delay e2 e3 e4 e5 where
    ph: "py_index (ac_phases action) i = Inr phase" and actor: "env_entity env (ex_actor_entity_id x) = Inr actor"
    and e1: "schedule_when (has_payload x action phase i)
       (common_item actor (enter_phase x action phase i t) action i PHASE_RELEASE (t + ph_duration_ms phase)) env = Inr e1"
    and "delivery_delay rnd hypot env actor (ex_binding x) phase = Inr delay"
    and e2: "schedule_when (weapon_in_phase action i)
       (\<lambda>order. (payload_item actor (enter_phase x action phase i t) action phase i WEAPON_ATTACK (t + ph_duration_ms phase + delay) order)
          \<lparr>it_weapon_attack := ac_weapon_attack action\<rparr>) e1 = Inr e2"
    and e3: "schedule_when (ph_effects phase \<noteq> [])
       (\<lambda>order. (payload_item actor (enter_phase x action phase i t) action phase i RESOLUTION (t + ph_duration_ms phase + delay) order)
          \<lparr>it_effects := ph_effects phase\<rparr>) e2 = Inr e3"
    and e4: "schedule_when (trigger_payload x action phase i)
       (\<lambda>order. (payload_item actor (enter_phase x action phase i t) action phase i RESOLUTION (t + ph_duration_ms phase + delay) order)
          \<lparr>it_effects := ex_pending_triggered_effects (enter_phase x action phase i t)\<rparr>) e3 = Inr e4"
    and e5: "schedule_new (common_item actor (enter_phase x action phase i t) action i
       (if i + 1 < int (length (ac_phases action)) then PHASE_TRANSITION else COMPLETION) (t + ph_duration_ms phase)) e4 = Inr e5"
    and env': "env' = put_execution k (if trigger_payload x action phase i
       then (enter_phase x action phase i t)\<lparr>ex_trigger_payload_scheduled := True\<rparr> else enter_phase x action phase i t) e5"
    by (rule schedule_action_phase_parts)
  have id: "en_entity_id actor = ex_actor_entity_id x" using actor keyed by (auto simp: env_entity_def split: option.splits)
  note index = py_index_Inr [OF ph assms(2)]
  note work = phase_workI [OF id assms(2) conjunct1 [OF index] conjunct2 [OF index]]
  let ?P = "phase_work x action i"
  have "item \<in> set (env_scheduled e5)" using item by (simp add: env')
  from schedule_new_work [where P = ?P, OF e5 work(1) this] show ?thesis
  proof
    assume "item \<in> set (env_scheduled e4)"
    from schedule_when_work [where P = ?P, OF e4 work(4) this] show ?thesis
    proof
      assume "item \<in> set (env_scheduled e3)"
      from schedule_when_work [where P = ?P, OF e3 work(4) this] show ?thesis
      proof
        assume "item \<in> set (env_scheduled e2)"
        from schedule_when_work [where P = ?P, OF e2 work(3) this] show ?thesis
        proof
          assume "item \<in> set (env_scheduled e1)"
          from schedule_when_work [where P = ?P, OF e1 work(1) this] show ?thesis .
        qed simp
      qed simp
    qed simp
  qed simp
qed

lemma phase_work_bound:
  assumes "phase_work x action i item" "map_of (env_executions env') k = Some y" "same_execution x y"
    "k = (ex_actor_entity_id x, ex_correlation_id x)" "catalog_get (env_catalog env') (ex_action_key x) = Inr action"
  shows "bound_work env' item"
proof -
  have "map_of (env_executions env') (it_actor_id item, it_correlation_id item) = Some y" "it_cancel_token item = Some (ex_cancel_token y)"
    "it_actor_life_id item = Some (ex_actor_life_id y)" "catalog_get (env_catalog env') (ex_action_key y) = Inr action"
    using assms by (simp_all add: phase_work_def same_execution_def)
  with assms(1) show ?thesis unfolding bound_work_def phase_work_def by blast
qed

lemma schedule_action_phase_bound:
  assumes "schedule_action_phase rnd hypot k x action i t env = Inr env'" "0 \<le> i" "keyed env"
    and "k = (ex_actor_entity_id x, ex_correlation_id x)" "catalog_get (env_catalog env) (ex_action_key x) = Inr action"
    and item: "item \<in> set (env_scheduled env')"
  shows "item \<in> set (env_scheduled env) \<or> bound_work env' item"
proof -
  have keys: "en_entity_id e = ex_actor_entity_id x" if "map_of (env_entities env) (ex_actor_entity_id x) = Some e" for e
    using that keyed_entity [OF assms(3)] by simp
  from schedule_action_phase_Inr [OF assms(1,2) keys] obtain items last y where
    e: "env' = put_execution k y (appends (items @ [last]) env)" and y: "same_execution x y" by metis
  have "bound_work env' item" if "phase_work x action i item"
    by (rule phase_work_bound [OF that _ y assms(4)]) (use assms(5) in \<open>simp_all add: e\<close>)
  then show ?thesis using schedule_action_phase_marks [OF assms(1,2) keys item] by blast
qed

lemma start_action_bound:
  assumes "start_action rnd hypot d action (env, evs) = Inr (env', evs')" "keyed env"
    and "catalog_get (env_catalog env) (ac_action_key action) = Inr action" and item: "item \<in> set (env_scheduled env')"
  shows "item \<in> set (env_scheduled env) \<or> bound_work env' item"
proof -
  from assms(1) obtain actor0 st1 actor1 actor2 st2 first_phase fs triggered st3 target_life where
    a0: "map_of (env_entities env) (dm_agent_id d) = Some actor0"
    and "map_of (env_executions env) (en_entity_id actor0, dm_correlation_id d) = None"
    and st1: "pay_costs rnd (dm_agent_id d) (dm_correlation_id d) (ac_action_key action) (ac_costs action) (env, evs) = Inr st1"
    and a1: "map_of (env_entities (fst st1)) (dm_agent_id d) = Some actor1"
    and a2: "commit_actor rnd action (env_now env) actor1 = Inr actor2"
    and st2: "emit ''action_started'' (env_now env) fs (put_entity (dm_agent_id d) actor2 (fst st1), snd st1) = Inr st2"
    and st3: "consume_action_start_triggers (dm_agent_id d) d action (sort (map fst (en_effects actor2))) st2 = Inr (triggered, st3)"
    and ph: "schedule_action_phase rnd hypot (en_entity_id actor0, dm_correlation_id d)
        (new_execution actor2 d action first_phase target_life triggered (env_now env)) action 0 (env_now env)
        (put_execution (en_entity_id actor0, dm_correlation_id d)
           (new_execution actor2 d action first_phase target_life triggered (env_now env)) (fst st3)) = Inr env'"
    and "action_execution_ok (new_execution actor2 d action first_phase target_life triggered (env_now env)) = Inr ()"
    by (rule start_action_parts)
  let ?k = "(en_entity_id actor0, dm_correlation_id d)"
  let ?x0 = "new_execution actor2 d action first_phase target_life triggered (env_now env)"
  have q1: "quiet env (fst st1)" using quiet_pay_costs [OF st1] by simp
  have "quiet (fst st1) (fst st2)" using quiet_commit(1) [OF a1 a2] quiet_emit [OF st2] by (auto intro: quiet_trans)
  with q1 have q: "quiet env (fst st3)" using quiet_consume_triggers [OF st3] by (blast intro: quiet_trans)
  have id: "en_entity_id actor2 = dm_agent_id d" "en_entity_id actor0 = dm_agent_id d"
    using quiet_commit(2) [OF a1 a2] keyed_entity [OF keyed_quiet [OF q1 assms(2)] a1] keyed_entity [OF assms(2) a0] by simp_all
  have k3: "keyed (put_execution ?k ?x0 (fst st3))"
    by (rule keyed_put_execution [OF keyed_quiet [OF q assms(2)]]) (simp_all add: new_execution_def id)
  show ?thesis using schedule_action_phase_bound [OF ph order.refl k3 _ _ item] q assms(3)
    by (simp add: quiet_def) (simp add: new_execution_def id)
qed

lemma env_step_work:
  assumes "env_step rnd hypot env env'" "life_inv env" "work_inv env"
  shows "work_inv env'"
proof (rule work_inv_evolves [OF assms(3) env_step_evolves [OF assms(1,2)]])
  fix w assume w: "w \<in> set (env_scheduled env')"
  have pop: "w \<in> set (env_scheduled env)" if "next_due t env = Some (i, e)" "w \<in> set (env_scheduled e)" for t i e
    using next_due_Some(3) [OF that(1)] that(2) set_remove1_subset by fastforce
  from assms(1) show "w \<in> set (env_scheduled env) \<or> it_kind w \<in> effect_kinds \<or> bound_work env' w"
  proof (cases rule: env_step.cases)
    case (start d action evs evs')
    from start_action_bound [OF start(1) life_invD(1) [OF assms(2)] start(2) w] show ?thesis by blast
  next
    case (discard t item)
    from pop [OF discard(1) w] show ?thesis ..
  next
    case (release t item env1)
    have "env_scheduled env' = env_scheduled env1"
      unfolding release(1) by (cases rule: release_cases [of item env1]) simp_all
    with pop [OF release(2)] w show ?thesis by simp
  next
    case (transition t item env1)
    have i1: "life_inv env1" by (rule life_inv_pop [OF assms(2) transition(1)])
    let ?k = "(it_actor_id item, it_correlation_id item)"
    have "env' = env1 \<or> (\<exists>x i action. map_of (env_executions env1) ?k = Some x \<and> i = ex_phase_index x
        \<and> catalog_get (env_catalog env1) (ex_action_key x) = Inr action
        \<and> schedule_action_phase rnd hypot ?k x action (i + 1) (it_due_time_ms item) env1 = Inr env')"
      using transition(4) by (auto simp: transition_action_phase_def Let_def rbind_eq_Inr split: option.splits if_splits)
    then show ?thesis
    proof (elim disjE exE conjE)
      fix x i action assume x: "map_of (env_executions env1) ?k = Some x" "i = ex_phase_index x"
        "catalog_get (env_catalog env1) (ex_action_key x) = Inr action"
        "schedule_action_phase rnd hypot ?k x action (i + 1) (it_due_time_ms item) env1 = Inr env'"
      have "0 \<le> i + 1" using life_invD(3) [OF i1 x(1)] x(2) by (auto simp: runs_def)
      moreover have "?k = (ex_actor_entity_id x, ex_correlation_id x)" using keyed_execution [OF life_invD(1) [OF i1] x(1)] by simp
      ultimately have "w \<in> set (env_scheduled env1) \<or> bound_work env' w"
        using schedule_action_phase_bound [OF x(4) _ life_invD(1) [OF i1] _ x(3) w] by blast
      with pop [OF transition(1)] show ?thesis by blast
    qed (use pop [OF transition(1)] w in simp)
  next
    case (completion t item env1 evs evs')
    have "env_scheduled env' = env_scheduled env1"
      by (cases rule: complete_cases [OF completion(4), case_names unchanged completed]) (simp_all add: quiet_def)
    with pop [OF completion(1)] w show ?thesis by simp
  next
    case (resolution t item)
    from pop [OF resolution(1) w] show ?thesis ..
  next
    case executor_order
    with w show ?thesis by (simp add: take_schedule_order_def)
  next
    case (executor_schedule mk)
    from schedule_new_work [OF executor_schedule(1), of "\<lambda>it. it_kind it \<in> effect_kinds" w] executor_schedule(3) w
    show ?thesis by (auto simp: effect_kinds_def)
  next
    case (executor_interrupt actor_id trigger due evs evs')
    from interrupt_actor_interrupts [OF executor_interrupt] life_invD(1) [OF assms(2)] w show ?thesis by (simp add: interrupts_def)
  next
    case executor_world
    with w show ?thesis by (simp add: quiet_def)
  next
    case (death actor_id due evs evs')
    from cleanup_dead_actor_interrupts [OF death] life_invD(1) [OF assms(2)] w show ?thesis by (auto simp: interrupts_def quiet_def)
  qed
qed

lemma env_steps_work: "env_steps rnd hypot env env' \<Longrightarrow> life_inv env \<Longrightarrow> work_inv env \<Longrightarrow> work_inv env'"
proof (induction rule: env_steps.induct)
  case (more env env1 env')
  then show ?case using env_steps_inv env_step_work by blast
qed

subsection \<open>A new environment\<close>

definition fresh_inv :: "environment \<Rightarrow> bool" where
  "fresh_inv env \<longleftrightarrow> orders_inv env \<and> keyed env \<and> env_executions env = [] \<and> env_cancelled_tokens env = {}
     \<and> it_kind ` set (env_scheduled env) \<subseteq> effect_kinds"

lemma fresh_inv_schedule_new:
  "schedule_new mk env = Inr env' \<Longrightarrow> (\<And>n. it_order (mk n) = n) \<Longrightarrow> (\<And>n. it_kind (mk n) \<in> effect_kinds) \<Longrightarrow> fresh_inv env \<Longrightarrow> fresh_inv env'"
  by (drule schedule_new_Inr(1)) (simp add: fresh_inv_def orders_inv_appends)

lemma fresh_inv_quiet: "quiet env env' \<Longrightarrow> fresh_inv env \<Longrightarrow> fresh_inv env'"
  using keyed_quiet [of env env'] by (simp add: fresh_inv_def quiet_def orders_inv_def)

lemma initial_item_order [simp]:
  "it_order (initial_item entity_id storage active kind due n) = n" "it_kind (initial_item entity_id storage active kind due n) = kind"
  by (simp_all add: initial_item_def work_item_def)

lemma effect_kinds_mem [simp]: "EFFECT_PULSE \<in> effect_kinds" "EFFECT_EXPIRY \<in> effect_kinds"
  by (simp_all add: effect_kinds_def)

lemma fresh_inv_pulses:
  "initial_pulses entity_id storage active binding periodic_key interval_ms effects is env = Inr env' \<Longrightarrow> fresh_inv env \<Longrightarrow> fresh_inv env'"
  by (induction "is" arbitrary: env) (auto simp: rbind_eq_Inr split: if_splits dest: fresh_inv_schedule_new)

lemma fresh_inv_modifiers:
  "initial_modifiers entity_id storage active binding ms env = Inr env' \<Longrightarrow> fresh_inv env \<Longrightarrow> fresh_inv env'"
  by (induction entity_id storage active binding ms env rule: initial_modifiers.induct)
    (auto simp: rbind_eq_Inr dest: fresh_inv_pulses)

lemma fresh_inv_take: "fresh_inv env \<Longrightarrow> fresh_inv (snd (take_schedule_order env))"
  by (auto simp: fresh_inv_def take_schedule_order_def orders_inv_def keyed_def)

lemma fresh_inv_effect:
  assumes "schedule_initial_effect entity_id storage env = Inr env'" "fresh_inv env"
  shows "fresh_inv env'"
proof -
  from assms(1) obtain entity active0 where e: "map_of (env_entities env) entity_id = Some entity" and a: "map_of (en_effects entity) storage = Some active0"
    by (cases "map_of (env_entities env) entity_id"; cases "map_of (en_effects (the (map_of (env_entities env) entity_id))) storage")
      (auto simp: schedule_initial_effect_def entity_at_def)
  obtain active env1 where i: "identify_effect entity_id active0 env = (active, env1)" by (cases "identify_effect entity_id active0 env")
  let ?e2 = "put_entity entity_id (entity\<lparr>en_effects := AList.update storage active (en_effects entity)\<rparr>) env1"
  from assms(1) e a i obtain binding env3 where m: "initial_modifiers entity_id storage active binding (ae_modifiers active) ?e2 = Inr env3"
    and s: "(if ae_expires_at_ms active = PERSISTENT_EXPIRY then Inr env3
      else schedule_new (initial_item entity_id storage active EFFECT_EXPIRY (ae_expires_at_ms active)) env3) = Inr env'"
    by (auto simp: schedule_initial_effect_def entity_at_def rbind_eq_Inr Let_def)
  have env1: "env1 = env \<or> env1 = snd (take_schedule_order env)" using i by (auto simp: identify_effect_def split: if_splits prod.splits)
  then have "fresh_inv env1" "map_of (env_entities env1) entity_id = Some entity" using assms(2) e fresh_inv_take by (auto simp: take_schedule_order_def)
  then have "fresh_inv ?e2" by (intro fresh_inv_quiet [OF quiet_put_entity]) (auto simp: same_life_def)
  from fresh_inv_modifiers [OF m this] s show ?thesis by (auto split: if_splits dest: fresh_inv_schedule_new)
qed

lemma rmap_keyed:
  assumes "rmap (\<lambda>e. rbind (clone e) (\<lambda>c. Inr (en_entity_id e, c))) es = Inr ps" "(k, c) \<in> set ps"
  shows "en_entity_id c = k"
proof -
  from assms obtain e where "clone e = Inr c" "k = en_entity_id e"
    by (auto simp: rmap_Inr_iff list_all2_conv_all_nth in_set_conv_nth result_simps)
  then show ?thesis
    by (auto simp: clone_def entity_from_snapshot_def snapshot_entity_def result_simps)
qed

lemma new_environment_inv:
  assumes "new_environment rnd hypot catalog entities seed tick_duration directions positions last_team = Inr env"
  shows "life_inv env" "progress_inv env" "work_inv env"
proof -
  from assms obtain ps clock ds env1 s where d: "distinct (map en_entity_id entities)"
    and ps: "rmap (\<lambda>e. rbind (clone e) (\<lambda>c. Inr (en_entity_id e, c))) entities = Inr ps"
    and i: "schedule_initial_effects
          \<lparr>env_catalog = catalog, env_entities = dict_of ps, env_clock = clock, env_random = new_random seed 54,
           env_scheduled = [], env_executions = [], env_cancelled_tokens = {}, env_next_schedule_order = 0,
           env_next_event_number = 0, env_direction_candidates = ds, env_position_candidates = positions,
           env_terminate_on_last_team = last_team,
           env_initial_competing_teams = teams_of entities,
           env_initial_snapshot = None\<rparr> = Inr env1" (is "schedule_initial_effects ?e0 = _")
    and env: "env = env1\<lparr>env_initial_snapshot := Some s\<rparr>"
    unfolding new_environment_def by (auto simp: rbind_eq_Inr split: if_splits)
  have "map fst ps = map en_entity_id entities"
    using ps unfolding rmap_Inr_iff by (induction rule: list_all2_induct) (auto simp: result_simps)
  with d have "dict_of ps = ps" by (simp add: dict_of_distinct)
  then have "fresh_inv ?e0"
    using rmap_keyed [OF ps] by (auto simp: fresh_inv_def orders_inv_def keyed_def dest: map_of_SomeD)
  moreover have "fresh_inv s'" if "(\<lambda>(entity_id, entity). rfold (schedule_initial_effect entity_id) (sort (map fst (en_effects entity)))) p s = Inr s'" "fresh_inv s" for p s s'
    using that rfold_keeps [of "schedule_initial_effect (fst p)" fresh_inv] fresh_inv_effect by (auto simp: case_prod_unfold)
  ultimately have "fresh_inv env1"
    using rfold_keeps [of "\<lambda>(entity_id, entity). rfold (schedule_initial_effect entity_id) (sort (map fst (en_effects entity)))" fresh_inv] i
    unfolding schedule_initial_effects_def by blast
  then have "fresh_inv env" by (simp add: env fresh_inv_def orders_inv_def keyed_def)
  then show "life_inv env" "progress_inv env" "work_inv env"
    by (simp_all add: fresh_inv_def life_inv_def progress_inv_def work_inv_def image_subset_iff)
qed

text \<open>The states an environment goes through.\<close>

definition env_reachable :: "(rat \<Rightarrow> rat) \<Rightarrow> (vector2 \<Rightarrow> vector2 \<Rightarrow> rat option) \<Rightarrow> environment \<Rightarrow> bool" where
  "env_reachable rnd hypot env \<longleftrightarrow>
     (\<exists>catalog entities seed duration directions positions last_team env0.
        new_environment rnd hypot catalog entities seed duration directions positions last_team = Inr env0 \<and> env_steps rnd hypot env0 env)"

lemma env_reachable_inv:
  assumes "env_reachable rnd hypot env"
  shows "life_inv env"
proof -
  from assms obtain catalog entities seed duration directions positions last_team env0 where
    n: "new_environment rnd hypot catalog entities seed duration directions positions last_team = Inr env0" and r: "env_steps rnd hypot env0 env"
    unfolding env_reachable_def by blast
  from env_steps_inv [OF r new_environment_inv(1) [OF n]] show ?thesis by simp
qed

lemma env_reachable_progress:
  assumes "env_reachable rnd hypot env" "colon_free env"
  shows "progress_inv env"
proof -
  from assms(1) obtain catalog entities seed duration directions positions last_team env0 where
    n: "new_environment rnd hypot catalog entities seed duration directions positions last_team = Inr env0" and r: "env_steps rnd hypot env0 env"
    unfolding env_reachable_def by blast
  note i = new_environment_inv [OF n]
  have "entities_le env0 env" using env_steps_inv [OF r i(1)] evolvesD(3) by blast
  with assms(2) have "colon_free env0" unfolding colon_free_def by (simp add: entities_le_dom)
  then show ?thesis using env_steps_progress [OF r i(1) _ i(2)] by blast
qed

lemma env_reachable_work:
  assumes "env_reachable rnd hypot env"
  shows "work_inv env"
proof -
  from assms obtain catalog entities seed duration directions positions last_team env0 where
    n: "new_environment rnd hypot catalog entities seed duration directions positions last_team = Inr env0" and r: "env_steps rnd hypot env0 env"
    unfolding env_reachable_def by blast
  show ?thesis by (rule env_steps_work [OF r new_environment_inv(1,3) [OF n]])
qed

lemma interrupted_work:
  assumes "life_inv env" "work_inv env" "map_of (env_executions env) k = Some x" "ex_status x = STATUS_INTERRUPTED"
    and "item \<in> set (env_scheduled env)" "it_kind item \<notin> effect_kinds" "(it_actor_id item, it_correlation_id item) = k"
    and "scheduled_item_is_valid env item"
  shows "\<exists>a i. catalog_get (env_catalog env) (ex_action_key x) = Inr a \<and> it_phase_index item = Some i \<and> i \<in> ex_released_phase_indexes x
    \<and> 0 \<le> i \<and> i < int (length (ac_phases a)) \<and> ds_kind (ph_delivery (ac_phases a ! nat i)) = PROJECTILE_DELIVERY"
proof -
  from assms(2,5,6) have "bound_work env item" by (simp add: work_inv_def)
  then obtain a i where b: "it_cancel_token item = Some (ex_cancel_token x)" "catalog_get (env_catalog env) (ex_action_key x) = Inr a"
    "it_phase_index item = Some i" "0 \<le> i" "i < int (length (ac_phases a))" "it_continuation_policy item = SOURCE_BOUND
      \<or> (it_continuation_policy item = DETACH_ON_RELEASE \<and> ds_kind (ph_delivery (ac_phases a ! nat i)) = PROJECTILE_DELIVERY)"
    unfolding bound_work_def assms(7) assms(3) by auto
  have "ex_cancel_token x \<in> env_cancelled_tokens env" by (rule life_invD(4) [OF assms(1,3,4)])
  with assms(8) b(1) have "detached env item" by (auto simp: scheduled_item_is_valid_def split: if_splits)
  then have "it_continuation_policy item = DETACH_ON_RELEASE" "i \<in> ex_released_phase_indexes x"
    using assms(3) b(3) unfolding detached_def assms(7) by (auto split: option.splits)
  with b show ?thesis by auto
qed

lemma complete_finishes:
  assumes "complete_action item (env, evs) = Inr (env', evs')" "map_of (env_executions env) (it_actor_id item, it_correlation_id item) = Some x" "\<not> is_terminal x"
  shows "map_of (env_executions env') (it_actor_id item, it_correlation_id item) = Some (x\<lparr>ex_status := STATUS_COMPLETED\<rparr>)"
proof (cases rule: complete_cases [OF assms(1), case_names unchanged completed])
  case unchanged
  with assms(2,3) show ?thesis by blast
next
  case (completed k y)
  then show ?thesis using assms(2) by (simp add: quiet_def)
qed

lemma transition_moves:
  assumes "transition_action_phase rnd hypot item env = Inr env'" "life_inv env"
    "map_of (env_executions env) (it_actor_id item, it_correlation_id item) = Some x" "\<not> is_terminal x" "it_phase_index item = Some (ex_phase_index x)"
  shows "\<exists>y. map_of (env_executions env') (it_actor_id item, it_correlation_id item) = Some y \<and> same_execution x y
    \<and> ex_phase_index y = ex_phase_index x + 1 \<and> \<not> is_terminal y"
proof (cases rule: transition_cases [OF assms(1) life_invD(1) [OF assms(2)] assms(2), case_names unchanged moved])
  case unchanged
  with assms(3-5) show ?thesis by blast
next
  case (moved k x' y action items last)
  then show ?thesis using assms(3) by auto
qed

subsection \<open>Properties\<close>

text \<open>C14: the list of scheduled work and the search for its least due item implement a queue sorted by due time,
  priority and order. As long as the orders are unique, taking the next due item removes exactly the head of
  the sorted queue, new work is inserted at its place, and taking items until none is due takes exactly the due
  prefix of the queue, in order.\<close>

theorem timeline_refines_queue:
  assumes "orders_inv env"
  shows "(next_due t env = None \<longleftrightarrow> timeline env = [] \<or> t < it_due_time_ms (hd (timeline env)))
    \<and> (\<forall>item env'. next_due t env = Some (item, env') \<longrightarrow> timeline env = item # timeline env' \<and> orders_inv env')
    \<and> (\<forall>work. it_order work = env_next_schedule_order env \<longrightarrow>
         timeline (appends [work] env) = insort_key scheduled_key work (timeline env) \<and> orders_inv (appends [work] env))
    \<and> drain (next_due t) (length (env_scheduled env)) env = takeWhile (\<lambda>i. it_due_time_ms i \<le> t) (timeline env)"
proof (intro conjI allI impI)
  show "next_due t env = None \<longleftrightarrow> timeline env = [] \<or> t < it_due_time_ms (hd (timeline env))"
    by (auto simp: next_due_timeline [OF assms] split: list.split)
  show "timeline env = item # timeline env'" "orders_inv env'" if "next_due t env = Some (item, env')" for item env'
    using next_due_pops [OF assms that] by simp_all
  show "timeline (appends [work] env) = insort_key scheduled_key work (timeline env)" "orders_inv (appends [work] env)"
    if "it_order work = env_next_schedule_order env" for work
    using timeline_appends [OF assms that] by simp_all
  show "drain (next_due t) (length (env_scheduled env)) env = takeWhile (\<lambda>i. it_due_time_ms i \<le> t) (timeline env)"
    by (rule schedule_queue.drain_prefix [OF assms]) (simp add: timeline_def)
qed

text \<open>A world with one kind of action, for the examples below.\<close>

definition fighter :: "string \<Rightarrow> entity_state" where
  "fighter i = \<lparr>en_entity_id = i, en_life_id = ''life'', en_kind = ACTOR, en_team_id = None,
     en_position = \<lparr>vx = 0, vy = 0\<rparr>, en_velocity = \<lparr>vx = 0, vy = 0\<rparr>, en_scalars = [], en_maximums = [], en_tags = {},
     en_action_keys = [''a''], en_inventory = [], en_effects = [], en_cooldowns = [], en_busy_until_ms = 0,
     en_stance_multipliers = [], en_stance = STANCE_NORMAL, en_alive = True\<rparr>"

definition strike :: action_spec where
  "strike = example_action ''a''"

definition strike_catalog :: action_catalog where
  "strike_catalog = \<lparr>cat_actions = [strike], cat_by_key = [(''a'', strike)], cat_triggers_by_effect_key = []\<rparr>"

definition unit_hypot :: "vector2 \<Rightarrow> vector2 \<Rightarrow> rat option" where
  "unit_hypot v w = Some 1"

definition strike_by :: "string \<Rightarrow> string \<Rightarrow> decision_message" where
  "strike_by actor correlation = \<lparr>dm_message_id = ''m'', dm_correlation_id = correlation, dm_observation_id = ''o'', dm_agent_id = actor,
     dm_tick = 0, dm_affordance_id = ''f'', dm_action_key = ''a'',
     dm_binding = \<lparr>ab_actor_id = actor, ab_target_kind = TK_SELF, ab_target_entity_id = None, ab_position = None,
       ab_direction = None, ab_quantity = None, ab_item_id = None, ab_objective_id = None\<rparr>\<rparr>"

definition fighters :: "string list \<Rightarrow> environment result" where
  "fighters names = new_environment id unit_hypot strike_catalog (map fighter names) 7 200 [\<lparr>vx = 1, vy = 0\<rparr>] [] False"

definition strikes :: "string \<Rightarrow> string \<Rightarrow> environment \<Rightarrow> environment result" where
  "strikes actor correlation env = rbind (start_action id unit_hypot (strike_by actor correlation) strike (env, [])) (\<lambda>(env', evs). Inr env')"

definition hits :: "string \<Rightarrow> environment \<Rightarrow> environment result" where
  "hits actor env = rbind (interrupt_actor actor ''damage'' 100 (env, [])) (\<lambda>(env', evs). Inr env')"

definition holds :: "'a result \<Rightarrow> ('a \<Rightarrow> bool) \<Rightarrow> bool" where
  "holds r P = (case r of Inl e \<Rightarrow> False | Inr x \<Rightarrow> P x)"

lemma holdsE: "holds r P \<Longrightarrow> \<exists>x. r = Inr x \<and> P x"
  by (cases r) (simp_all add: holds_def)

lemma fighters_reachable: "fighters names = Inr env \<Longrightarrow> env_reachable id unit_hypot env"
  unfolding fighters_def env_reachable_def by (blast intro: env_steps.none)

lemma reachable_step: "env_reachable rnd hypot env \<Longrightarrow> env_step rnd hypot env env' \<Longrightarrow> env_reachable rnd hypot env'"
  unfolding env_reachable_def by (blast intro: env_steps.more)

lemma strikes_step:
  assumes "strikes actor correlation env = Inr env'" "catalog_get (env_catalog env) ''a'' = Inr strike"
  shows "env_step id unit_hypot env env'"
proof -
  from assms(1) obtain evs where "start_action id unit_hypot (strike_by actor correlation) strike (env, []) = Inr (env', evs)"
    unfolding strikes_def by (auto simp: rbind_eq_Inr)
  then show ?thesis by (rule env_step.start) (use assms(2) in \<open>simp add: strike_def example_action_def\<close>)
qed

lemma hits_step:
  assumes "hits actor env = Inr env'"
  shows "env_step id unit_hypot env env'"
  using assms env_step.executor_interrupt unfolding hits_def by (auto simp: rbind_eq_Inr)

definition strike_running :: "environment \<Rightarrow> bool" where
  "strike_running env \<longleftrightarrow> length (env_scheduled env) = 3 \<and> list_all (\<lambda>it. it_due_time_ms it \<le> 400) (env_scheduled env)
     \<and> map fst (env_entities env) = [''x'']
     \<and> (case map_of (env_executions env) (''x'', ''c'') of None \<Rightarrow> False
        | Some x \<Rightarrow> \<not> is_terminal x \<and> ex_actor_entity_id x = ''x''
            \<and> (case map_of (env_entities env) ''x'' of None \<Rightarrow> False | Some e \<Rightarrow> en_alive e \<and> en_life_id e = ex_actor_life_id x))
     \<and> holds (hits ''x'' env) (\<lambda>env'. case map_of (env_executions env') (''x'', ''c'') of None \<Rightarrow> False | Some x \<Rightarrow> ex_status x = STATUS_INTERRUPTED)"

definition left_work :: "environment \<Rightarrow> bool" where
  "left_work env \<longleftrightarrow> length (env_scheduled env) = 3
     \<and> list_all (\<lambda>item. it_kind item \<notin> {EFFECT_PULSE, EFFECT_EXPIRY} \<and> (it_actor_id item, it_correlation_id item) = (''x'', ''c'')) (env_scheduled env)
     \<and> (case map_of (env_executions env) (''x'', ''c'') of None \<Rightarrow> False
        | Some x \<Rightarrow> ex_status x = STATUS_INTERRUPTED \<and> ex_released_phase_indexes x = {})"

lemma strike_started: "\<exists>env. env_reachable id unit_hypot env \<and> strike_running env"
proof -
  have "holds (fighters [''x'']) (\<lambda>e0. catalog_get (env_catalog e0) ''a'' = Inr strike \<and> holds (strikes ''x'' ''c'' e0) strike_running)" by code_simp
  then obtain e0 where 0: "fighters [''x''] = Inr e0" "catalog_get (env_catalog e0) ''a'' = Inr strike" "holds (strikes ''x'' ''c'' e0) strike_running"
    by (blast dest: holdsE)
  from holdsE [OF 0(3)] obtain env where 1: "strikes ''x'' ''c'' e0 = Inr env" "strike_running env" by blast
  have "env_reachable id unit_hypot env" by (rule reachable_step [OF fighters_reachable [OF 0(1)] strikes_step [OF 1(1) 0(2)]])
  with 1(2) show ?thesis by blast
qed

lemma strike_runningD:
  assumes "strike_running env"
  obtains x e env' where "map_of (env_executions env) (''x'', ''c'') = Some x" "\<not> is_terminal x" "alive_in env x" "colon_free env"
    "length (env_scheduled env) = 3" "list_all (\<lambda>it. it_due_time_ms it \<le> 400) (env_scheduled env)" "hits ''x'' env = Inr env'"
    "(case map_of (env_executions env') (''x'', ''c'') of None \<Rightarrow> False | Some x \<Rightarrow> ex_status x = STATUS_INTERRUPTED)"
proof -
  from assms obtain x where x: "map_of (env_executions env) (''x'', ''c'') = Some x" "\<not> is_terminal x" "ex_actor_entity_id x = ''x''"
    and a: "case map_of (env_entities env) ''x'' of None \<Rightarrow> False | Some e \<Rightarrow> en_alive e \<and> en_life_id e = ex_actor_life_id x"
    unfolding strike_running_def by (auto split: option.splits)
  from a x(3) have "alive_in env x" unfolding alive_in_def by (auto split: option.splits)
  moreover have "colon_free env" using assms by (simp add: strike_running_def colon_free_def dom_map_of_conv_image_fst flip: set_map)
  moreover obtain env' where "hits ''x'' env = Inr env'" "(case map_of (env_executions env') (''x'', ''c'') of None \<Rightarrow> False | Some x \<Rightarrow> ex_status x = STATUS_INTERRUPTED)"
    using assms unfolding strike_running_def by (blast dest: holdsE)
  ultimately show thesis using that [OF x(1,2)] assms unfolding strike_running_def by blast
qed

theorem timeline_refines_queue_witness:
  "\<exists>env. length (timeline env) = 3 \<and> drain (next_due 400) (length (env_scheduled env)) env = timeline env"
proof -
  obtain env where env: "env_reachable id unit_hypot env" "length (env_scheduled env) = 3" "list_all (\<lambda>it. it_due_time_ms it \<le> 400) (env_scheduled env)"
    using strike_started strike_runningD by metis
  have "takeWhile (\<lambda>i. it_due_time_ms i \<le> 400) (timeline env) = timeline env"
    using env(3) by (simp add: takeWhile_eq_all_conv list_all_iff timeline_def)
  with timeline_refines_queue [OF life_invD(2) [OF env_reachable_inv [OF env(1)]], of 400] env(2)
  show ?thesis by (intro exI [of _ env]) (simp add: timeline_def)
qed

text \<open>C16: an execution, once started, is never lost or replaced: in every later state it is still there under the same
  actor and correlation, for the same action and life, its phase has not gone back and is one of the phases of its
  action; the orders of the pending work stay unique.\<close>

theorem execution_persists:
  assumes "env_reachable rnd hypot env" "env_steps rnd hypot env env'" "map_of (env_executions env) k = Some x"
  shows "\<exists>y a. map_of (env_executions env') k = Some y \<and> same_execution x y \<and> k = (ex_actor_entity_id y, ex_correlation_id y)
    \<and> ex_phase_index x \<le> ex_phase_index y
    \<and> catalog_get (env_catalog env') (ex_action_key y) = Inr a \<and> 0 \<le> ex_phase_index y \<and> ex_phase_index y < int (length (ac_phases a))
    \<and> distinct (map it_order (env_scheduled env'))"
proof -
  from env_steps_inv [OF assms(2) env_reachable_inv [OF assms(1)]] have i: "life_inv env'" and e: "evolves env env'" by simp_all
  from evolvesD(4) [OF e assms(3)] obtain y where y: "map_of (env_executions env') k = Some y" "same_execution x y" "ex_phase_index x \<le> ex_phase_index y" by blast
  from life_invD(3) [OF i y(1)] keyed_execution [OF life_invD(1) [OF i] y(1)] life_invD(2) [OF i] y
  show ?thesis unfolding runs_def orders_inv_def by blast
qed

theorem execution_persists_witness:
  "\<exists>env env' x y. env_steps id unit_hypot env env' \<and> map_of (env_executions env) (''x'', ''c'') = Some x
     \<and> map_of (env_executions env') (''x'', ''c'') = Some y \<and> same_execution x y"
proof -
  obtain env x env' where env: "env_reachable id unit_hypot env" "map_of (env_executions env) (''x'', ''c'') = Some x" "hits ''x'' env = Inr env'"
    using strike_started strike_runningD by metis
  from hits_step [OF env(3)] have steps: "env_steps id unit_hypot env env'" by (blast intro: env_steps.intros)
  from execution_persists [OF env(1) steps env(2)] env(2) steps show ?thesis by blast
qed

text \<open>C9: an execution that has ended stays exactly as it ended, whatever happens afterwards. If it was interrupted, the
  work it left in the schedule, its releases, transitions, completion, weapon attacks and resolutions, is invalid and never takes
  effect, except for a projectile of a phase that had been released before. (The pulses and expiries of effects that had
  been applied before the interruption are not work of the execution and go on.)\<close>

theorem ended_execution_stays_ended:
  assumes "env_reachable rnd hypot env" "env_steps rnd hypot env env'" "map_of (env_executions env) k = Some x" "is_terminal x"
  shows "map_of (env_executions env') k = Some x
    \<and> (ex_status x = STATUS_INTERRUPTED \<longrightarrow>
        (\<forall>item \<in> set (env_scheduled env'). it_kind item \<notin> {EFFECT_PULSE, EFFECT_EXPIRY} \<longrightarrow>
           (it_actor_id item, it_correlation_id item) = k \<longrightarrow> scheduled_item_is_valid env' item \<longrightarrow>
           (\<exists>a i. catalog_get (env_catalog env') (ex_action_key x) = Inr a \<and> it_phase_index item = Some i
              \<and> i \<in> ex_released_phase_indexes x \<and> 0 \<le> i \<and> i < int (length (ac_phases a))
              \<and> ds_kind (ph_delivery (ac_phases a ! nat i)) = PROJECTILE_DELIVERY)))"
proof -
  note i = env_reachable_inv [OF assms(1)]
  from env_steps_inv [OF assms(2) i] have e: "life_inv env'" "evolves env env'" by simp_all
  from evolvesD(4) [OF e(2) assms(3)] assms(4) have same: "map_of (env_executions env') k = Some x" by blast
  have "work_inv env'" by (rule env_steps_work [OF assms(2) i env_reachable_work [OF assms(1)]])
  from interrupted_work [OF e(1) this same] same show ?thesis by (simp add: effect_kinds_def)
qed

theorem ended_execution_stays_ended_witness:
  "\<exists>env env' x. env_steps id unit_hypot env env' \<and> ex_status x = STATUS_INTERRUPTED \<and> map_of (env_executions env) (''x'', ''c'') = Some x
     \<and> map_of (env_executions env') (''x'', ''c'') = Some x \<and> length (env_scheduled env') = 3
     \<and> list_all (\<lambda>item. (it_actor_id item, it_correlation_id item) = (''x'', ''c'') \<and> \<not> scheduled_item_is_valid env' item) (env_scheduled env')"
proof -
  have "holds (fighters [''x'']) (\<lambda>e0. catalog_get (env_catalog e0) ''a'' = Inr strike \<and> holds (strikes ''x'' ''c'' e0) (\<lambda>e1. holds (hits ''x'' e1) left_work))"
    by code_simp
  then obtain e0 e1 env where e: "fighters [''x''] = Inr e0" "catalog_get (env_catalog e0) ''a'' = Inr strike" "strikes ''x'' ''c'' e0 = Inr e1"
    "hits ''x'' e1 = Inr env" "left_work env" by (blast dest: holdsE)
  then obtain x where x: "map_of (env_executions env) (''x'', ''c'') = Some x" "ex_status x = STATUS_INTERRUPTED" "ex_released_phase_indexes x = {}"
    by (auto simp: left_work_def split: option.splits)
  let ?env' = "snd (take_schedule_order env)"
  have r: "env_reachable id unit_hypot env"
    using fighters_reachable [OF e(1)] strikes_step [OF e(3,2)] hits_step [OF e(4)] by (blast intro: reachable_step)
  have s: "env_steps id unit_hypot env ?env'" by (blast intro: env_steps.intros env_step.executor_order)
  have "is_terminal x" using x(2) by (simp add: is_terminal_def)
  note t = ended_execution_stays_ended [OF r s x(1) this]
  have l: "env_scheduled ?env' = env_scheduled env" by (simp add: take_schedule_order_def)
  have w: "length (env_scheduled env) = 3"
    "list_all (\<lambda>item. it_kind item \<notin> {EFFECT_PULSE, EFFECT_EXPIRY} \<and> (it_actor_id item, it_correlation_id item) = (''x'', ''c'')) (env_scheduled env)"
    using e(5) by (simp_all add: left_work_def)
  have "\<not> scheduled_item_is_valid ?env' item" if "item \<in> set (env_scheduled env)" for item
    using t x(2,3) w(2) that by (auto simp: l list_all_iff)
  with w t s x(1,2) show ?thesis by (intro exI [of _ env] exI [of _ ?env'] exI [of _ x]) (auto simp: l list_all_iff)
qed

text \<open>C10: no live execution is ever stuck. In every reachable state of a world whose entity names contain no colon, the
  schedule holds, for each unfinished execution of a living actor, the item that will move it on: it is due when the
  current phase ends, it is valid, and handling it, unless the handler raises, completes the action when the phase was the last
  one and enters the next phase otherwise.\<close>

theorem live_execution_advances:
  assumes "env_reachable rnd hypot env" "colon_free env" "map_of (env_executions env) k = Some x" "\<not> is_terminal x" "alive_in env x"
  shows "\<exists>item a. item \<in> set (env_scheduled env) \<and> scheduled_item_is_valid env item \<and> it_due_time_ms item = ex_phase_ends_at_ms x
    \<and> catalog_get (env_catalog env) (ex_action_key x) = Inr a
    \<and> (if ex_phase_index x + 1 < int (length (ac_phases a))
       then it_kind item = PHASE_TRANSITION \<and> (\<forall>env'. transition_action_phase rnd hypot item env = Inr env' \<longrightarrow>
         (\<exists>y. map_of (env_executions env') k = Some y \<and> same_execution x y \<and> ex_phase_index y = ex_phase_index x + 1))
       else it_kind item = COMPLETION \<and> (\<forall>evs env' evs'. complete_action item (env, evs) = Inr (env', evs') \<longrightarrow>
         map_of (env_executions env') k = Some (x\<lparr>ex_status := STATUS_COMPLETED\<rparr>)))"
proof -
  note i = env_reachable_inv [OF assms(1)]
  from env_reachable_progress [OF assms(1,2)] assms(3-5) obtain item a where item: "item \<in> set (env_scheduled env)"
    "catalog_get (env_catalog env) (ex_action_key x) = Inr a" "advances item a x"
    unfolding progress_inv_def pending_advance_def by blast
  have k: "(it_actor_id item, it_correlation_id item) = k"
    using keyed_execution [OF life_invD(1) [OF i] assms(3)] advances_key [OF item(3)] by metis
  have p: "it_phase_index item = Some (ex_phase_index x)" using item(3) by (simp add: advances_def)
  have moves: "\<exists>y. map_of (env_executions env') k = Some y \<and> same_execution x y \<and> ex_phase_index y = ex_phase_index x + 1"
    if "transition_action_phase rnd hypot item env = Inr env'" for env'
    using transition_moves [OF that i _ assms(4) p] assms(3) unfolding k by blast
  have "it_due_time_ms item = ex_phase_ends_at_ms x"
    "it_kind item = (if ex_phase_index x + 1 < int (length (ac_phases a)) then PHASE_TRANSITION else COMPLETION)"
    using item(3) by (simp_all add: advances_def)
  with item advance_valid [OF i assms(2-5) item(3)] complete_finishes [where item = item] moves assms(3,4)
  show ?thesis unfolding k by (intro exI [of _ item] exI [of _ a]) auto
qed

theorem live_execution_advances_witness:
  "\<exists>env x item. env_reachable id unit_hypot env \<and> map_of (env_executions env) (''x'', ''c'') = Some x \<and> \<not> is_terminal x
     \<and> item \<in> set (env_scheduled env) \<and> scheduled_item_is_valid env item \<and> it_due_time_ms item = ex_phase_ends_at_ms x"
proof -
  obtain env x where env: "env_reachable id unit_hypot env" "map_of (env_executions env) (''x'', ''c'') = Some x" "\<not> is_terminal x" "alive_in env x" "colon_free env"
    using strike_started strike_runningD by metis
  from live_execution_advances [OF env(1,5,2,3,4)] env show ?thesis by blast
qed

text \<open>C39: the restriction on names is needed. Cancel tokens are built by joining the name of the actor and the
  correlation with a colon, so the tokens of \<open>x:y\<close> with correlation \<open>c\<close> and of \<open>x\<close> with correlation \<open>y:c\<close> are
  equal: after the second execution is interrupted by damage, no scheduled work of the first is valid, and the first,
  though unfinished and its actor alive, is lost.\<close>

theorem colliding_tokens_lose_work:
  "\<exists>env x. env_reachable id unit_hypot env \<and> map_of (env_executions env) (''x:y'', ''c'') = Some x \<and> \<not> is_terminal x
     \<and> en_alive (the (map_of (env_entities env) ''x:y''))
     \<and> map_option ex_status (map_of (env_executions env) (''x'', ''y:c'')) = Some STATUS_INTERRUPTED
     \<and> filter (\<lambda>item. it_actor_id item = ''x:y'' \<and> scheduled_item_is_valid env item) (env_scheduled env) = []"
proof -
  let ?P = "\<lambda>env. (case map_of (env_executions env) (''x:y'', ''c'') of None \<Rightarrow> False | Some x \<Rightarrow> \<not> is_terminal x)
     \<and> en_alive (the (map_of (env_entities env) ''x:y''))
     \<and> map_option ex_status (map_of (env_executions env) (''x'', ''y:c'')) = Some STATUS_INTERRUPTED
     \<and> filter (\<lambda>item. it_actor_id item = ''x:y'' \<and> scheduled_item_is_valid env item) (env_scheduled env) = []"
  have "holds (fighters [''x:y'', ''x'']) (\<lambda>e0. catalog_get (env_catalog e0) ''a'' = Inr strike
    \<and> holds (strikes ''x:y'' ''c'' e0) (\<lambda>e1. catalog_get (env_catalog e1) ''a'' = Inr strike
    \<and> holds (strikes ''x'' ''y:c'' e1) (\<lambda>e2. holds (hits ''x'' e2) ?P)))" by code_simp
  then obtain e0 e1 e2 env where e: "fighters [''x:y'', ''x''] = Inr e0" "catalog_get (env_catalog e0) ''a'' = Inr strike"
    "strikes ''x:y'' ''c'' e0 = Inr e1" "catalog_get (env_catalog e1) ''a'' = Inr strike" "strikes ''x'' ''y:c'' e1 = Inr e2"
    "hits ''x'' e2 = Inr env" "?P env" by (blast dest: holdsE)
  have "env_reachable id unit_hypot env"
    using fighters_reachable [OF e(1)] strikes_step [OF e(3,2)] strikes_step [OF e(5,4)] hits_step [OF e(6)] by (blast intro: reachable_step)
  with e(7) show ?thesis by (auto split: option.splits)
qed

end
