(* ===== verification/Sim_Step.thy ===== *)
theory Sim_Step
  imports Sim_Affordances Sim_Timeline
begin

text \<open>
  A whole step of the environment (\<open>step\<close> and \<open>_process_due\<close> of \<^verbatim>\<open>sim/environment.py\<close>): decisions are admitted in
  order, accepted ones start their actions, and due work is processed before and after the clock ticks.
\<close>

subsection \<open>Rejections\<close>

text \<open>\<open>str(error)\<close>: a \<open>KeyError\<close> shows the \<open>repr\<close> of its key.\<close>

definition hex_digit :: "nat \<Rightarrow> char" where
  "hex_digit n = (if n < 10 then char_of (48 + n) else char_of (87 + n))"

definition repr_char :: "char \<Rightarrow> char \<Rightarrow> string" where
  "repr_char quote c =
     (let n = of_char c :: nat in
      if c = quote \<or> n = 92 then [CHR 0x5C, c]
      else if n = 9 then [CHR 0x5C, CHR ''t''] else if n = 10 then [CHR 0x5C, CHR ''n''] else if n = 13 then [CHR 0x5C, CHR ''r'']
      else if n < 32 \<or> (127 \<le> n \<and> n < 161) \<or> n = 173 then [CHR 0x5C, CHR ''x'', hex_digit (n div 16), hex_digit (n mod 16)]
      else [c])"

definition py_repr_text :: "string \<Rightarrow> string" where
  "py_repr_text t =
     (let quote = (if CHR 0x27 \<in> set t \<and> CHR 0x22 \<notin> set t then CHR 0x22 else CHR 0x27)
      in [quote] @ concat (map (repr_char quote) t) @ [quote])"

fun error_text :: "py_error \<Rightarrow> string" where
  "error_text (KeyError m) = py_repr_text m"
| "error_text (ValueError m) = m"
| "error_text (SimulationConfigurationError m) = m"
| "error_text (ProtocolMismatchError m) = m"
| "error_text _ = []"

definition py_lower_char :: "char \<Rightarrow> char" where
  "py_lower_char c =
     (let n = of_char c :: nat in
      if (65 \<le> n \<and> n \<le> 90) \<or> (192 \<le> n \<and> n \<le> 222 \<and> n \<noteq> 215) then char_of (n + 32) else c)"

definition py_isalnum :: "char \<Rightarrow> bool" where
  "py_isalnum c =
     (let n = of_char c :: nat in
      (48 \<le> n \<and> n \<le> 57) \<or> (65 \<le> n \<and> n \<le> 90) \<or> (97 \<le> n \<and> n \<le> 122)
      \<or> n \<in> {170, 178, 179, 181, 185, 186, 188, 189, 190} \<or> (192 \<le> n \<and> n \<noteq> 215 \<and> n \<noteq> 247))"

definition strip_underscores :: "string \<Rightarrow> string" where
  "strip_underscores t = rev (dropWhile (\<lambda>c. c = CHR ''_'') (rev (dropWhile (\<lambda>c. c = CHR ''_'') t)))"

definition reason_tag :: "py_error \<Rightarrow> string" where
  "reason_tag e =
     (let cleaned = map (\<lambda>c. if py_isalnum c then c else CHR ''_'') (map py_lower_char (error_text e));
          tag = take 80 (strip_underscores cleaned)
      in if tag = [] then ''invalid_decision'' else tag)"

text \<open>The exceptions \<open>step\<close> turns into rejections: \<open>KeyError\<close> and \<open>ValueError\<close> with its subclasses.\<close>

fun is_rejection :: "py_error \<Rightarrow> bool" where
  "is_rejection (KeyError m) = True"
| "is_rejection (ValueError m) = True"
| "is_rejection (SimulationConfigurationError m) = True"
| "is_rejection (AffiliationConfigurationError m) = True"
| "is_rejection (AffiliationConflictError m) = True"
| "is_rejection (ProtocolDecodeError m) = True"
| "is_rejection (ProtocolMismatchError m) = True"
| "is_rejection (AffiliationSnapshotFormatError m) = True"
| "is_rejection (MapElitesError m) = True"
| "is_rejection _ = False"

subsection \<open>Admission\<close>

definition check_decision :: "float_lib \<Rightarrow> environment \<Rightarrow> decision_message \<Rightarrow> action_spec result" where
  "check_decision fl env decision =
     rbind (env_exchange fl env (dm_agent_id decision)) (\<lambda>exchange.
     rbind (validate_exchange (ax_observation exchange) (ax_affordances exchange) decision) (\<lambda>_.
     catalog_get (env_catalog env) (dm_action_key decision)))"

definition reject :: "decision_message \<Rightarrow> string \<Rightarrow> unit act" where
  "reject decision reason w =
     rbind (rejection_event decision reason (fst w)) (\<lambda>(event, env). Inr ((), env, snd w @ [event]))"

fun admit :: "float_lib \<Rightarrow> string set \<Rightarrow> decision_message list \<Rightarrow> (decision_message \<times> action_spec) list act" where
  "admit fl seen [] = areturn []"
| "admit fl seen (decision # decisions) =
     (if dm_agent_id decision \<in> seen
      then aseq (reject decision ''reason.multiple_decisions_for_tick'') (admit fl seen decisions)
      else let seen' = insert (dm_agent_id decision) seen in
        abind (aget (\<lambda>env. (check_decision fl env decision, map_of (env_executions env) (dm_agent_id decision, dm_correlation_id decision))))
        (\<lambda>(checked, existing).
        case checked of
          Inl e \<Rightarrow> if is_rejection e then aseq (reject decision (''reason.'' @ reason_tag e)) (admit fl seen' decisions) else araise e
        | Inr action \<Rightarrow>
            if existing \<noteq> None
            then aseq (reject decision ''reason.duplicate_action_correlation'') (admit fl seen' decisions)
            else abind (admit fl seen' decisions) (\<lambda>accepted. areturn ((decision, action) # accepted))))"

subsection \<open>Due work\<close>

definition astart :: "float_lib \<Rightarrow> decision_message \<times> action_spec \<Rightarrow> unit act" where
  "astart fl da w = rbind (start_action f64 (fl_hypot fl) (fst da) (snd da) w) (\<lambda>w'. Inr ((), w'))"

definition acomplete :: "scheduled_item \<Rightarrow> unit act" where
  "acomplete item w = rbind (complete_action item w) (\<lambda>w'. Inr ((), w'))"

definition arelease :: "scheduled_item \<Rightarrow> unit act" where
  "arelease item w = Inr ((), release_action_phase item (fst w), snd w)"

definition atransition :: "float_lib \<Rightarrow> scheduled_item \<Rightarrow> unit act" where
  "atransition fl item w = rbind (transition_action_phase f64 (fl_hypot fl) item (fst w)) (\<lambda>env. Inr ((), env, snd w))"

definition acleanup :: "int \<Rightarrow> string \<Rightarrow> unit act" where
  "acleanup due actor_id w = rbind (cleanup_dead_actor actor_id due w) (\<lambda>w'. Inr ((), w'))"

definition handle :: "float_lib \<Rightarrow> nat \<Rightarrow> string set \<Rightarrow> scheduled_item \<Rightarrow> unit act" where
  "handle fl depth eligible item =
     (let due = it_due_time_ms item in
      case it_kind item of
        PHASE_RELEASE \<Rightarrow> arelease item
      | PHASE_TRANSITION \<Rightarrow> atransition fl item
      | RESOLUTION \<Rightarrow> executor_resolve fl due eligible depth item
      | WEAPON_ATTACK \<Rightarrow> resolve_weapon_attack fl (executor_resolve fl due eligible depth) due eligible item
      | COMPLETION \<Rightarrow> acomplete item
      | EFFECT_PULSE \<Rightarrow> resolve_effect_pulse fl due eligible item
      | EFFECT_EXPIRY \<Rightarrow> expire_effect item due)"

definition living :: "environment \<Rightarrow> string list" where
  "living env = map (\<lambda>(k, e). en_entity_id e) (filter (\<lambda>(k, e). en_alive e) (env_entities env))"

definition newly_dead :: "string list \<Rightarrow> environment \<Rightarrow> string list" where
  "newly_dead before env =
     sort (filter (\<lambda>i. case map_of (env_entities env) i of None \<Rightarrow> False | Some e \<Rightarrow> \<not> en_alive e) before)"

text \<open>One round of the loop: the handler of a valid item, the deaths it caused, and their consequences.\<close>

definition process_item :: "float_lib \<Rightarrow> nat \<Rightarrow> scheduled_item \<Rightarrow> string set \<Rightarrow> string set act" where
  "process_item fl depth item life_terminated =
     abind (aget living) (\<lambda>alive_before.
     aseq (handle fl depth (set alive_before) item)
     (abind (aget (\<lambda>env. sort (map fst (env_entities env)))) (\<lambda>ids.
     abind (resolve_deaths ids (it_due_time_ms item) life_terminated) (\<lambda>terminated.
     abind (aget (newly_dead alive_before)) (\<lambda>dead.
     aseq (aeach (acleanup (it_due_time_ms item)) dead) (areturn terminated))))))"

definition due_round :: "float_lib \<Rightarrow> nat \<Rightarrow> int \<Rightarrow> string set \<Rightarrow> string set option act" where
  "due_round fl depth until_ms life_terminated w =
     (case next_due until_ms (fst w) of
        None \<Rightarrow> Inr (None, w)
      | Some (item, env) \<Rightarrow>
          if \<not> scheduled_item_is_valid env item then Inr (Some life_terminated, env, snd w)
          else abind (process_item fl depth item life_terminated) (\<lambda>t. areturn (Some t)) (env, snd w))"

text \<open>The loop itself need not end by its form: that it does not return is the result \<open>None\<close>.\<close>

partial_function (option) process_due ::
    "float_lib \<Rightarrow> nat \<Rightarrow> int \<Rightarrow> string set \<Rightarrow> world \<Rightarrow> (string set \<times> world) result option" where
  "process_due fl depth until_ms life_terminated w =
     (case due_round fl depth until_ms life_terminated w of
        Inl e \<Rightarrow> Some (Inl e)
      | Inr (None, w') \<Rightarrow> Some (Inr (life_terminated, w'))
      | Inr (Some t, w') \<Rightarrow> process_due fl depth until_ms t w')"

declare process_due.simps [code]

subsection \<open>A step\<close>

definition obind :: "'a result option \<Rightarrow> ('a \<Rightarrow> 'b result option) \<Rightarrow> 'b result option" where
  "obind r f = (case r of None \<Rightarrow> None | Some (Inl e) \<Rightarrow> Some (Inl e) | Some (Inr x) \<Rightarrow> f x)"

definition batch :: "bool \<Rightarrow> string set \<Rightarrow> world \<Rightarrow> event_batch_message result" where
  "batch truncated life_terminated w =
     (let env = fst w; t = tick (env_clock env) in
      validated event_batch_message_ok
        \<lparr>eb_message_id = ''message:events:'' @ py_str_int t @ '':'' @ py_str_int (env_next_event_number env), eb_tick = t,
         eb_sim_time_ms = env_now env, eb_events = snd w, eb_life_terminated = sorted_list_of_set life_terminated,
         eb_world_terminated = world_terminated env, eb_truncated = truncated\<rparr>)"

definition tick_clock :: "world \<Rightarrow> world result" where
  "tick_clock w = rbind (advance 1 (env_clock (fst w))) (\<lambda>c. Inr ((fst w)\<lparr>env_clock := c\<rparr>, snd w))"

definition step ::
    "float_lib \<Rightarrow> nat \<Rightarrow> decision_message list \<Rightarrow> bool \<Rightarrow> environment \<Rightarrow> (event_batch_message \<times> environment) result option" where
  "step fl depth decisions truncated env =
     obind (Some (admit fl {} (sort_key (\<lambda>d. (dm_agent_id d, dm_correlation_id d)) decisions) (env, []))) (\<lambda>(accepted, w1).
     obind (Some (aeach (astart fl) accepted w1)) (\<lambda>(_, w2).
     obind (process_due fl depth (env_now (fst w2)) {} w2) (\<lambda>(t3, w3).
     obind (Some (tick_clock w3)) (\<lambda>w4.
     obind (process_due fl depth (env_now (fst w4)) t3 w4) (\<lambda>(t5, w5).
     obind (Some (batch truncated t5 w5)) (\<lambda>message.
     Some (Inr (message, fst w5))))))))"

end
