(* ===== verification/World_Frame.thy ===== *)
theory World_Frame
  imports Effect_Frame Sim_Step
begin

text \<open>
  Sound worlds. A world is sound if its entities are valid, its generator and clock well formed, its actions
  built, and everything an execution or a scheduled item carries was built by its constructor. Every operation
  of the environment keeps a world sound.
\<close>

subsection \<open>Built actions\<close>

definition action_built :: "action_spec \<Rightarrow> bool" where
  "action_built a \<longleftrightarrow> action_spec_ok a = Inr ()
     \<and> (\<forall>p \<in> set (ac_phases a). action_phase_ok p = Inr () \<and> delivery_spec_ok (ph_delivery p) = Inr () \<and> list_all effect_built (ph_effects p))
     \<and> (\<forall>c \<in> set (ac_costs a). resource_cost_ok c = Inr ())
     \<and> (\<forall>t. ac_armed_trigger a = Some t \<longrightarrow> action_trigger_spec_ok t = Inr () \<and> list_all effect_built (at_payload t))"

definition catalog_sound :: "action_catalog \<Rightarrow> bool" where
  "catalog_sound c \<longleftrightarrow> payloads_built c \<and> (\<forall>k a. catalog_get c k = Inr a \<longrightarrow> ac_action_key a = k \<and> action_built a)"

lemma trigger_payload_direct: "action_trigger_spec_ok t = Inr () \<Longrightarrow> list_all is_direct (at_payload t)"
  unfolding action_trigger_spec_ok_def rbind_eq_Inr checks_eq_Inr by simp

lemma new_catalog_sound:
  assumes "new_catalog actions = Inr c" "list_all action_built actions"
  shows "catalog_sound c"
proof -
  have "list_all effect_built (at_payload t) \<and> list_all is_direct (at_payload t)" if "trigger_for_effect c k = Some t" for k t
  proof -
    from that assms(1) obtain a where "a \<in> set actions" "Some t = ac_armed_trigger a"
      by (auto simp: new_catalog_Inr Let_def trigger_for_effect_def dest!: map_of_SomeD)
    with assms(2) have "action_trigger_spec_ok t = Inr ()" "list_all effect_built (at_payload t)"
      by (metis action_built_def list_all_iff)+
    then show ?thesis by (simp add: trigger_payload_direct)
  qed
  then show ?thesis using assms(2) catalog_get_Inr [OF assms(1)] by (auto simp: catalog_sound_def payloads_built_def list_all_iff)
qed

lemma action_builtD:
  assumes "action_built a"
  shows "nonblank (ac_action_key a)" "0 \<le> ac_cooldown_ms a"
    "\<And>p. p \<in> set (ac_phases a) \<Longrightarrow> 0 \<le> ph_duration_ms p \<and> list_all effect_built (ph_effects p)"
    "\<And>c. c \<in> set (ac_costs a) \<Longrightarrow> nonblank (rc_resource_key c) \<and> 0 < rc_amount c"
    "\<And>p v. p \<in> set (ac_phases a) \<Longrightarrow> ds_kind (ph_delivery p) \<noteq> IMMEDIATE \<Longrightarrow> ds_projectile_speed (ph_delivery p) = Some v \<Longrightarrow> 0 < v"
proof -
  show "nonblank (ac_action_key a)" "0 \<le> ac_cooldown_ms a"
    using assms unfolding action_built_def action_spec_ok_def rbind_eq_Inr by (auto simp: result_simps)
  show "0 \<le> ph_duration_ms p \<and> list_all effect_built (ph_effects p)" if "p \<in> set (ac_phases a)" for p
    using assms that unfolding action_built_def by (auto simp: action_phase_ok_def result_simps)
  show "nonblank (rc_resource_key c) \<and> 0 < rc_amount c" if "c \<in> set (ac_costs a)" for c
    using assms that unfolding action_built_def by (auto simp: resource_cost_ok_def result_simps split: if_splits)
  show "0 < v" if "p \<in> set (ac_phases a)" "ds_kind (ph_delivery p) \<noteq> IMMEDIATE" "ds_projectile_speed (ph_delivery p) = Some v" for p v
  proof -
    have "delivery_spec_ok (ph_delivery p) = Inr ()" using assms that(1) by (simp add: action_built_def)
    with that(2,3) show ?thesis by (cases "ds_kind (ph_delivery p)") (simp_all add: delivery_spec_ok_def split: if_splits)
  qed
qed

subsection \<open>Sound worlds\<close>

definition item_sound :: "scheduled_item \<Rightarrow> bool" where
  "item_sound it \<longleftrightarrow> built_item it \<and> scheduled_item_ok it = Inr ()"

definition execution_sound :: "action_execution \<Rightarrow> bool" where
  "execution_sound x \<longleftrightarrow> list_all effect_built (ex_pending_triggered_effects x) \<and> action_binding_ok (ex_binding x) = Inr ()
     \<and> action_execution_ok x = Inr () \<and> finite (ex_released_phase_indexes x)"

lemma execution_sound_status [simp]:
  "execution_sound (x\<lparr>ex_status := s\<rparr>) = execution_sound x"
  "execution_sound (x\<lparr>ex_trigger_payload_scheduled := b\<rparr>) = execution_sound x"
  by (simp_all add: execution_sound_def action_execution_ok_def)

definition world_sound :: "(string \<Rightarrow> (string \<times> rat) list) \<Rightarrow> environment \<Rightarrow> bool" where
  "world_sound maxima env \<longleftrightarrow>
     (\<forall>k e. map_of (env_entities env) k = Some e \<longrightarrow> valid_entity (maxima k) e)
     \<and> random_inv (env_random env) \<and> clock_inv (env_clock env) \<and> catalog_sound (env_catalog env)
     \<and> (\<forall>it \<in> set (env_scheduled env). item_sound it)
     \<and> (\<forall>k x. map_of (env_executions env) k = Some x \<longrightarrow> execution_sound x)"

lemma world_soundD:
  assumes "world_sound maxima env"
  shows "map_of (env_entities env) k = Some e \<Longrightarrow> valid_entity (maxima k) e" "random_inv (env_random env)" "clock_inv (env_clock env)"
    "catalog_sound (env_catalog env)" "it \<in> set (env_scheduled env) \<Longrightarrow> item_sound it"
    "map_of (env_executions env) q = Some x \<Longrightarrow> execution_sound x"
  using assms unfolding world_sound_def by blast+

lemma sound_put_entity: "world_sound maxima env \<Longrightarrow> valid_entity (maxima k) e \<Longrightarrow> world_sound maxima (put_entity k e env)"
  by (simp add: world_sound_def put_entity_def update_conv')

lemma sound_put_execution: "world_sound maxima env \<Longrightarrow> execution_sound x \<Longrightarrow> world_sound maxima (put_execution k x env)"
  by (simp add: world_sound_def put_execution_def update_conv')

lemma sound_fields [simp]:
  "world_sound maxima (env\<lparr>env_next_event_number := n\<rparr>) = world_sound maxima env"
  "world_sound maxima (env\<lparr>env_next_schedule_order := n\<rparr>) = world_sound maxima env"
  "world_sound maxima (env\<lparr>env_cancelled_tokens := ts\<rparr>) = world_sound maxima env"
  by (simp_all add: world_sound_def)

lemma sound_random: "world_sound maxima env \<Longrightarrow> random_inv r \<Longrightarrow> world_sound maxima (env\<lparr>env_random := r\<rparr>)"
  by (simp add: world_sound_def)

lemma sound_appends: "world_sound maxima env \<Longrightarrow> \<forall>it \<in> set items. item_sound it \<Longrightarrow> world_sound maxima (appends items env)"
  by (auto simp: world_sound_def appends_def)

lemma sound_remove: "world_sound maxima env \<Longrightarrow> world_sound maxima (env\<lparr>env_scheduled := remove1 it (env_scheduled env)\<rparr>)"
  using set_remove1_subset [of it "env_scheduled env"] by (auto simp: world_sound_def)

lemma item_sound_due: "item_sound it \<Longrightarrow> 0 \<le> it_due_time_ms it"
  unfolding item_sound_def scheduled_item_ok_def rbind_eq_Inr checks_eq_Inr by simp

lemma item_sound_phase: "item_sound it \<Longrightarrow> it_phase_index it = Some i \<Longrightarrow> 0 \<le> i"
  unfolding item_sound_def scheduled_item_ok_def rbind_eq_Inr checks_eq_Inr by simp

lemma sound_emit: "emit kind t fs st = Inr st' \<Longrightarrow> world_sound maxima (fst st) \<Longrightarrow> world_sound maxima (fst st')"
  by (auto dest!: emit_Inr(1))

text \<open>What no operation changes: the clock, which only a tick moves, and what was fixed at construction.\<close>

definition fixed :: "environment \<Rightarrow> vector2 list \<times> vector2 list \<times> bool \<times> string set \<times> environment_snapshot option" where
  "fixed env = (env_direction_candidates env, env_position_candidates env, env_terminate_on_last_team env, env_initial_competing_teams env,
     env_initial_snapshot env)"

definition background :: "environment \<Rightarrow> clock \<times> vector2 list \<times> vector2 list \<times> bool \<times> string set \<times> environment_snapshot option" where
  "background env = (env_clock env, fixed env)"

lemma background_fields [simp]:
  "background (env\<lparr>env_next_event_number := n\<rparr>) = background env" "background (env\<lparr>env_next_schedule_order := n\<rparr>) = background env"
  "background (env\<lparr>env_cancelled_tokens := ts\<rparr>) = background env" "background (env\<lparr>env_random := r\<rparr>) = background env"
  "background (env\<lparr>env_scheduled := q\<rparr>) = background env" "background (env\<lparr>env_entities := es\<rparr>) = background env" "background (put_entity k e env) = background env"
  "background (put_execution key x env) = background env" "background (appends items env) = background env"
  by (simp_all add: background_def fixed_def put_entity_def put_execution_def appends_def)

subsection \<open>The operations of the environment\<close>

lemma sound_schedule_new:
  assumes "schedule_new mk env = Inr env'" "world_sound maxima env" "\<And>n. built_item (mk n)"
  shows "world_sound maxima env'"
  using schedule_new_Inr [OF assms(1)] assms(2,3) by (simp add: sound_appends item_sound_def)

lemma sound_schedule_when:
  "schedule_when b mk env = Inr env' \<Longrightarrow> world_sound maxima env \<Longrightarrow> (\<And>n. built_item (mk n)) \<Longrightarrow> world_sound maxima env'"
  by (auto simp: schedule_when_def sound_schedule_new split: if_splits)

lemma common_item_built: "built_item (common_item actor x action i kind t n)"
  by (simp add: built_item_def common_item_def work_item_def)

lemma payload_item_built:
  "execution_sound x \<Longrightarrow> built_item (payload_item actor x action phase i kind t n)"
  "execution_sound x \<Longrightarrow> built_item ((payload_item actor x action phase i kind t n)\<lparr>it_weapon_attack := w\<rparr>)"
  "execution_sound x \<Longrightarrow> list_all effect_built es \<Longrightarrow> built_item ((payload_item actor x action phase i kind t n)\<lparr>it_effects := es\<rparr>)"
  by (simp_all add: built_item_def payload_item_def common_item_def work_item_def execution_sound_def)

lemma enter_phase_sound:
  assumes "execution_sound x" "0 \<le> i" "0 \<le> t" "0 \<le> ph_duration_ms phase"
  shows "execution_sound (enter_phase x action phase i t)"
proof -
  have "action_execution_ok (enter_phase x action phase i t) = Inr ()"
    using assms unfolding execution_sound_def action_execution_ok_def rbind_eq_Inr checks_eq_Inr non_negative_integer_Inr
    by (elim conjE) (simp add: enter_phase_def)
  then show ?thesis using assms(1) by (simp add: execution_sound_def enter_phase_def)
qed

lemma sound_schedule_action_phase:
  assumes "schedule_action_phase rnd hypot k x0 action i t env = Inr env'" "world_sound maxima env" "execution_sound x0" "action_built action" "0 \<le> i" "0 \<le> t"
  shows "world_sound maxima env'"
proof -
  from assms(1) obtain phase actor e1 delay e2 e3 e4 e5 where
    ph: "py_index (ac_phases action) i = Inr phase"
    and "env_entity env (ex_actor_entity_id x0) = Inr actor"
    and e1: "schedule_when (has_payload x0 action phase i)
       (common_item actor (enter_phase x0 action phase i t) action i PHASE_RELEASE (t + ph_duration_ms phase)) env = Inr e1"
    and "delivery_delay rnd hypot env actor (ex_binding x0) phase = Inr delay"
    and e2: "schedule_when (weapon_in_phase action i)
       (\<lambda>order. (payload_item actor (enter_phase x0 action phase i t) action phase i WEAPON_ATTACK (t + ph_duration_ms phase + delay) order)
          \<lparr>it_weapon_attack := ac_weapon_attack action\<rparr>) e1 = Inr e2"
    and e3: "schedule_when (ph_effects phase \<noteq> [])
       (\<lambda>order. (payload_item actor (enter_phase x0 action phase i t) action phase i RESOLUTION (t + ph_duration_ms phase + delay) order)
          \<lparr>it_effects := ph_effects phase\<rparr>) e2 = Inr e3"
    and e4: "schedule_when (trigger_payload x0 action phase i)
       (\<lambda>order. (payload_item actor (enter_phase x0 action phase i t) action phase i RESOLUTION (t + ph_duration_ms phase + delay) order)
          \<lparr>it_effects := ex_pending_triggered_effects (enter_phase x0 action phase i t)\<rparr>) e3 = Inr e4"
    and e5: "schedule_new (common_item actor (enter_phase x0 action phase i t) action i
       (if i + 1 < int (length (ac_phases action)) then PHASE_TRANSITION else COMPLETION) (t + ph_duration_ms phase)) e4 = Inr e5"
    and env': "env' = put_execution k (if trigger_payload x0 action phase i
       then (enter_phase x0 action phase i t)\<lparr>ex_trigger_payload_scheduled := True\<rparr> else enter_phase x0 action phase i t) e5"
    by (rule schedule_action_phase_parts)
  have "phase \<in> set (ac_phases action)" using py_index_Inr [OF ph assms(5)] assms(5) by auto
  then have es: "list_all effect_built (ph_effects phase)" and dur: "0 \<le> ph_duration_ms phase" using action_builtD(3) [OF assms(4)] by blast+
  note x = enter_phase_sound [OF assms(3,5,6) dur, of action]
  have ts: "list_all effect_built (ex_pending_triggered_effects (enter_phase x0 action phase i t))" using x by (simp add: execution_sound_def)
  have "world_sound maxima e1" by (rule sound_schedule_when [OF e1 assms(2)]) (rule common_item_built)
  then have "world_sound maxima e2" by (rule sound_schedule_when [OF e2]) (rule payload_item_built [OF x])
  then have "world_sound maxima e3" by (rule sound_schedule_when [OF e3]) (rule payload_item_built(3) [OF x es])
  then have "world_sound maxima e4" by (rule sound_schedule_when [OF e4]) (rule payload_item_built(3) [OF x ts])
  then have "world_sound maxima e5" by (rule sound_schedule_new [OF e5]) (rule common_item_built)
  then show ?thesis unfolding env' by (rule sound_put_execution) (use x in simp)
qed

lemma background_schedule_action_phase:
  assumes "schedule_action_phase rnd hypot k x0 action i t env = Inr env'"
  shows "background env' = background env"
  using assms by (cases rule: schedule_action_phase_parts) (auto dest!: schedule_when_Inr schedule_new_Inr(1))

lemma sound_free_actor:
  assumes "world_sound maxima env" "0 \<le> t"
  shows "world_sound maxima (free_actor actor_id life_id t env)"
proof (cases "map_of (env_entities env) actor_id")
  case (Some actor)
  have v: "valid_entity (maxima actor_id) actor" by (rule world_soundD(1) [OF assms(1) Some])
  then have "0 \<le> en_busy_until_ms actor" by (simp add: valid_entity_parts)
  with assms(2) have "keeps_valid (maxima actor_id) (\<lambda>e. e\<lparr>en_busy_until_ms := min (en_busy_until_ms actor) t\<rparr>)" by (intro valid_intros) simp
  with v have "valid_entity (maxima actor_id) (actor\<lparr>en_busy_until_ms := min (en_busy_until_ms actor) t\<rparr>)" by (simp add: keeps_valid_def)
  then show ?thesis using assms(1) Some by (simp add: free_actor_def sound_put_entity)
qed (simp add: free_actor_def assms(1))

lemma put_entity_fields [simp]:
  "env_scheduled (put_entity k e env) = env_scheduled env" "env_executions (put_entity k e env) = env_executions env"
  "background (put_entity k e env) = background env" "env_catalog (put_entity k e env) = env_catalog env"
  by (simp_all add: put_entity_def)

lemma free_actor_fields [simp]:
  "env_scheduled (free_actor actor_id life_id t env) = env_scheduled env" "env_executions (free_actor actor_id life_id t env) = env_executions env"
  "background (free_actor actor_id life_id t env) = background env" "env_catalog (free_actor actor_id life_id t env) = env_catalog env"
  by (simp_all add: free_actor_def put_entity_def split: option.split)

lemma sound_interrupt_each:
  assumes "interrupt_each sel frees actor_id reason t xs st = Inr st'" "world_sound maxima (fst st)" "0 \<le> t"
    and "\<forall>x \<in> set xs. execution_sound (snd x)"
  shows "world_sound maxima (fst st') \<and> env_scheduled (fst st') = env_scheduled (fst st)"
  using assms
proof (induction sel frees actor_id reason t xs st rule: interrupt_each.induct)
  case (2 sel frees actor_id reason t k x xs st)
  show ?case
  proof (cases "sel x")
    case True
    let ?e = "if frees then free_actor actor_id (ex_actor_life_id x) t (fst st) else fst st"
    from "2.prems"(1) True obtain st1 where i: "interrupt_execution actor_id reason t k x (?e, snd st) = Inr st1"
      and r: "interrupt_each sel frees actor_id reason t xs st1 = Inr st'" by (auto simp: result_simps)
    have e: "world_sound maxima ?e" "env_scheduled ?e = env_scheduled (fst st)" using "2.prems"(2,3) by (simp_all add: sound_free_actor)
    have "execution_sound (x\<lparr>ex_status := STATUS_INTERRUPTED\<rparr>)" using "2.prems"(4) by simp
    then have "world_sound maxima (fst st1) \<and> env_scheduled (fst st1) = env_scheduled (fst st)"
      using e emit_Inr(1) [OF i [unfolded interrupt_execution_def]] by (simp add: sound_put_execution)
    with "2.IH"(2) [OF _ r] True "2.prems"(3,4) show ?thesis by simp
  qed (use 2 in simp)
qed simp

lemma ordered_executions_sound:
  assumes "world_sound maxima env" "distinct (map fst (env_executions env))"
  shows "\<forall>x \<in> set (ordered_executions env). execution_sound (snd x)"
  using assms world_soundD(6) [OF assms(1)] by (force simp: ordered_executions_def)

lemma sound_interrupt_actor:
  assumes "interrupt_actor actor_id trigger t st = Inr st'" "world_sound maxima (fst st)" "0 \<le> t" "distinct (map fst (env_executions (fst st)))"
  shows "world_sound maxima (fst st') \<and> env_scheduled (fst st') = env_scheduled (fst st)"
proof -
  from assms(1) obtain actor where "interrupt_each (\<lambda>x. owned_by actor actor_id x \<and> interruptible_by trigger x) True actor_id trigger t
      (ordered_executions (fst st)) st = Inr st'"
    unfolding interrupt_actor_def by (auto simp: rbind_eq_Inr split: if_splits)
  from sound_interrupt_each [OF this assms(2,3) ordered_executions_sound [OF assms(2,4)]] show ?thesis .
qed

lemma sound_cleanup:
  assumes "cleanup_dead_actor actor_id t st = Inr st'" "world_sound maxima (fst st)" "0 \<le> t" "distinct (map fst (env_executions (fst st)))"
  shows "world_sound maxima (fst st') \<and> env_scheduled (fst st') = env_scheduled (fst st)"
proof -
  from assms(1) obtain actor where a: "map_of (env_entities (fst st)) actor_id = Some actor" and
    i: "interrupt_each (owned_by (actor\<lparr>en_velocity := \<lparr>vx = 0, vy = 0\<rparr>, en_busy_until_ms := min (en_busy_until_ms actor) t\<rparr>) actor_id)
      False actor_id ''death'' t (ordered_executions (fst st))
      (put_entity actor_id (actor\<lparr>en_velocity := \<lparr>vx = 0, vy = 0\<rparr>, en_busy_until_ms := min (en_busy_until_ms actor) t\<rparr>) (fst st), snd st) = Inr st'"
    unfolding cleanup_dead_actor_def by (auto simp: rbind_eq_Inr Let_def env_entity_Inr)
  have "valid_entity (maxima actor_id) (actor\<lparr>en_velocity := \<lparr>vx = 0, vy = 0\<rparr>, en_busy_until_ms := min (en_busy_until_ms actor) t\<rparr>)"
    using world_soundD(1) [OF assms(2) a] assms(3) by (simp add: valid_entity_parts)
  with sound_interrupt_each [OF i _ assms(3) ordered_executions_sound [OF assms(2,4)], of maxima] assms(2) show ?thesis
    by (simp add: sound_put_entity)
qed

lemma emit_fields:
  assumes "emit kind t fs st = Inr st'"
  shows "background (fst st') = background (fst st)" "env_catalog (fst st') = env_catalog (fst st)"
    "env_scheduled (fst st') = env_scheduled (fst st)" "env_executions (fst st') = env_executions (fst st)"
  using emit_Inr(1) [OF assms] by simp_all

lemma sound_pay_costs:
  assumes "pay_costs f64 actor_id corr key costs st = Inr st'" "world_sound maxima (fst st)"
    and "\<forall>c \<in> set costs. nonblank (rc_resource_key c) \<and> 0 < rc_amount c"
  shows "world_sound maxima (fst st') \<and> background (fst st') = background (fst st)"
  using assms
proof (induction costs arbitrary: st)
  case (Cons cost costs)
  let ?before = "\<lambda>actor. (case map_of (en_scalars actor) (rc_resource_key cost) of None \<Rightarrow> 0 | Some v \<Rightarrow> v)"
  from Cons.prems(1) obtain actor fs st1 where a: "map_of (env_entities (fst st)) actor_id = Some actor"
    and e: "emit ''resource_spent'' (env_now (fst st)) fs
      (put_entity actor_id (set_scalar (rc_resource_key cost) (f64 (?before actor - rc_amount cost)) actor) (fst st), snd st) = Inr st1"
    and r: "pay_costs f64 actor_id corr key costs st1 = Inr st'"
    by (auto simp: result_simps Let_def entity_at_Inr set_scalar_def)
  have v: "valid_entity (maxima actor_id) actor" by (rule world_soundD(1) [OF Cons.prems(2) a])
  have "f64 (?before actor - rc_amount cost) \<le> m" if "map_of (maxima actor_id) (rc_resource_key cost) = Some m" for m
    using valid_entityD(4,5,6) [OF v that] Cons.prems(3) by (intro f64.rnd_le) (auto split: option.split)
  then have "keeps_valid (maxima actor_id) (set_scalar (rc_resource_key cost) (f64 (?before actor - rc_amount cost)))"
    using Cons.prems(3) by (intro set_scalar_valid) simp_all
  with v have "world_sound maxima (put_entity actor_id (set_scalar (rc_resource_key cost) (f64 (?before actor - rc_amount cost)) actor) (fst st))"
    by (simp add: keeps_valid_def sound_put_entity Cons.prems(2))
  with sound_emit [OF e] have "world_sound maxima (fst st1)" by simp
  from Cons.IH [OF r this] Cons.prems(3) emit_fields(1) [OF e] show ?case by simp
qed simp

lemma sound_commit:
  assumes "commit_actor f64 action now actor = Inr actor'" "valid_entity m actor" "action_built action" "0 \<le> now"
  shows "valid_entity m actor'"
proof -
  from assms(1) obtain cooldown where c: "effective_action_cooldown_ms f64 actor action = Inr cooldown"
    and a: "actor' = actor\<lparr>en_cooldowns := AList.update (ac_action_key action) (now + cooldown) (en_cooldowns actor),
       en_busy_until_ms := max (en_busy_until_ms actor) (now + sum_list (map ph_duration_ms (ac_phases action)))\<rparr>"
    by (auto simp: commit_actor_def result_simps)
  have "0 \<le> cooldown" using c action_builtD(2) [OF assms(3)]
    by (auto simp: effective_action_cooldown_ms_def result_simps split: if_splits)
  with assms(2,4) action_builtD(1) [OF assms(3)] show ?thesis unfolding a
    by (auto simp: valid_entity_parts cooldowns_valid_def distinct_update dest!: in_update)
qed

lemma sound_roll: "roll_trigger trigger env = (roll, fired, env') \<Longrightarrow> world_sound maxima env
    \<Longrightarrow> world_sound maxima env' \<and> env_catalog env' = env_catalog env \<and> background env' = background env"
  by (auto simp: roll_trigger_def Let_def case_prod_beta split: if_splits intro: sound_random random_unit_bounds dest: world_soundD(2))

lemma sound_consume_trigger:
  assumes "consume_trigger actor_id source decision action storage active trigger st = Inr (payload, st')" "world_sound maxima (fst st)"
  shows "world_sound maxima (fst st') \<and> background (fst st') = background (fst st) \<and> env_catalog (fst st') = env_catalog (fst st)
    \<and> set payload \<subseteq> set (at_payload trigger)"
proof -
  obtain roll fired env1 where roll: "roll_trigger trigger (fst st) = (roll, fired, env1)" by (metis prod_cases3)
  obtain fs1 fs2 fs3 kind1 kind2 kind3 t1 t2 t3 st1 st2 where 1: "emit kind1 t1 fs1 (env1, snd st) = Inr st1"
    and 2: "(if fired then emit kind2 t2 fs2 st1 else Inr st1) = Inr st2"
    and 3: "(if at_consume_on trigger = CONSUME_ACTION_START
      then rbind (entity_at (fst st2) actor_id) (\<lambda>actor.
        emit kind3 t3 (fs3 actor) (put_entity actor_id (actor\<lparr>en_effects := AList.delete storage (en_effects actor)\<rparr>) (fst st2), snd st2))
      else Inr st2) = Inr st'"
    and p: "payload = (if fired then at_payload trigger else [])"
    using assms(1) unfolding consume_trigger_def roll Let_def prod.case rbind_eq_Inr by (auto 0 4)
  note s1 = sound_roll [OF roll assms(2)]
  have s2: "world_sound maxima (fst st1)" "background (fst st1) = background (fst st)" "env_catalog (fst st1) = env_catalog (fst st)"
    using sound_emit [OF 1] emit_fields [OF 1] s1 by simp_all
  have s3: "world_sound maxima (fst st2)" "background (fst st2) = background (fst st)" "env_catalog (fst st2) = env_catalog (fst st)"
    using 2 s2 sound_emit emit_fields by (auto split: if_splits)
  show ?thesis
  proof (cases "at_consume_on trigger = CONSUME_ACTION_START")
    case True
    with 3 obtain actor where a: "map_of (env_entities (fst st2)) actor_id = Some actor"
      and e: "emit kind3 t3 (fs3 actor) (put_entity actor_id (pop_effect storage actor) (fst st2), snd st2) = Inr st'"
      by (auto simp: result_simps entity_at_Inr pop_effect_def)
    have "valid_entity (maxima actor_id) (pop_effect storage actor)"
      using pop_effect_valid world_soundD(1) [OF s3(1) a] by (simp add: keeps_valid_def)
    then have "world_sound maxima (put_entity actor_id (pop_effect storage actor) (fst st2))" by (rule sound_put_entity [OF s3(1)])
    then show ?thesis using sound_emit [OF e, of maxima] emit_fields [OF e] s3 p by auto
  qed (use 3 s3 p in auto)
qed

lemma sound_consume_triggers:
  "consume_action_start_triggers actor_id decision action storages st = Inr (payload, st') \<Longrightarrow> world_sound maxima (fst st)
   \<Longrightarrow> world_sound maxima (fst st') \<and> background (fst st') = background (fst st) \<and> list_all effect_built payload"
proof (induction storages arbitrary: st payload)
  case (Cons storage storages)
  from Cons.prems(1) show ?case
  proof (cases rule: consume_triggers_Cons)
    case skip
    then show ?thesis by (rule Cons.IH [OF _ Cons.prems(2)])
  next
    case (one actor active trigger p1 p2 st1)
    note t = sound_consume_trigger [OF one(2) Cons.prems(2)]
    have "list_all effect_built (at_payload trigger)"
      using one(1) world_soundD(4) [OF Cons.prems(2)] by (simp add: catalog_sound_def payloads_built_def)
    with t Cons.IH [OF one(3)] one(4) show ?thesis by (auto simp: list_all_iff)
  qed
qed simp

lemma sound_start_action:
  assumes "start_action f64 hypot d action (env, evs) = Inr (env', evs')" "world_sound maxima env"
    and "action_built action" "action_binding_ok (dm_binding d) = Inr ()"
  shows "world_sound maxima env' \<and> background env' = background env"
proof -
  from assms(1) obtain actor0 st1 actor1 actor2 st2 first_phase fs triggered st3 target_life where
    "map_of (env_entities env) (dm_agent_id d) = Some actor0"
    and "map_of (env_executions env) (en_entity_id actor0, dm_correlation_id d) = None"
    and st1: "pay_costs f64 (dm_agent_id d) (dm_correlation_id d) (ac_action_key action) (ac_costs action) (env, evs) = Inr st1"
    and a1: "map_of (env_entities (fst st1)) (dm_agent_id d) = Some actor1"
    and a2: "commit_actor f64 action (env_now env) actor1 = Inr actor2"
    and st2: "emit ''action_started'' (env_now env) fs (put_entity (dm_agent_id d) actor2 (fst st1), snd st1) = Inr st2"
    and st3: "consume_action_start_triggers (dm_agent_id d) d action (sort (map fst (en_effects actor2))) st2 = Inr (triggered, st3)"
    and ph: "schedule_action_phase f64 hypot (en_entity_id actor0, dm_correlation_id d)
        (new_execution actor2 d action first_phase target_life triggered (env_now env)) action 0 (env_now env)
        (put_execution (en_entity_id actor0, dm_correlation_id d)
           (new_execution actor2 d action first_phase target_life triggered (env_now env)) (fst st3)) = Inr env'"
    and ok: "action_execution_ok (new_execution actor2 d action first_phase target_life triggered (env_now env)) = Inr ()"
    by (rule start_action_parts)
  have now: "0 \<le> env_now env" using clock_inv_now [OF world_soundD(3) [OF assms(2)]] by (simp add: env_now_def)
  have s1: "world_sound maxima (fst st1)" and c1: "background (fst st1) = background env"
    using sound_pay_costs [OF st1] assms(2) action_builtD(4) [OF assms(3)] by simp_all
  have "world_sound maxima (put_entity (dm_agent_id d) actor2 (fst st1))"
    by (rule sound_put_entity [OF s1 sound_commit [OF a2 world_soundD(1) [OF s1 a1] assms(3) now]])
  then have "world_sound maxima (fst st2)" using sound_emit [OF st2] by simp
  from sound_consume_triggers [OF st3 this] have s3: "world_sound maxima (fst st3)" "list_all effect_built triggered"
    and c3: "background (fst st3) = background (fst st2)" by simp_all
  then have x: "execution_sound (new_execution actor2 d action first_phase target_life triggered (env_now env))"
    using assms(4) ok by (simp add: execution_sound_def) (simp add: new_execution_def)
  show ?thesis
    using sound_schedule_action_phase [OF ph sound_put_execution [OF s3(1) x] x assms(3) _ now] background_schedule_action_phase [OF ph]
      c1 c3 emit_fields(1) [OF st2] by simp
qed

lemma execution_sound_release:
  assumes "execution_sound x" "0 \<le> i"
  shows "execution_sound (x\<lparr>ex_released_phase_indexes := insert i (ex_released_phase_indexes x)\<rparr>)"
    "execution_sound (x\<lparr>ex_released_phase_indexes := insert i (ex_released_phase_indexes x), ex_payload_release_status := p, ex_status := s\<rparr>)"
proof -
  have "action_execution_ok (x\<lparr>ex_released_phase_indexes := insert i (ex_released_phase_indexes x)\<rparr>) = Inr ()"
    using assms unfolding execution_sound_def action_execution_ok_def rbind_eq_Inr checks_eq_Inr by (elim conjE) simp
  then show "execution_sound (x\<lparr>ex_released_phase_indexes := insert i (ex_released_phase_indexes x)\<rparr>)"
    "execution_sound (x\<lparr>ex_released_phase_indexes := insert i (ex_released_phase_indexes x), ex_payload_release_status := p, ex_status := s\<rparr>)"
    using assms by (simp_all add: execution_sound_def action_execution_ok_def)
qed

lemma sound_release:
  assumes "world_sound maxima env" "item_sound item"
  shows "world_sound maxima (release_action_phase item env)"
proof (cases "release_action_phase item env = env")
  case False
  then obtain x i where "map_of (env_executions env) (it_actor_id item, it_correlation_id item) = Some x" "it_phase_index item = Some i"
    by (auto simp: release_action_phase_def Let_def split: option.splits if_splits)
  with execution_sound_release [OF world_soundD(6) [OF assms(1)] item_sound_phase [OF assms(2)]] assms(1)
  show ?thesis by (auto simp: release_action_phase_def Let_def intro!: sound_put_execution)
qed (use assms in simp)

lemma sound_transition:
  assumes "transition_action_phase f64 hypot item env = Inr env'" "world_sound maxima env" "item_sound item"
  shows "world_sound maxima env'"
proof (cases "env' = env")
  case False
  then obtain x i action where x: "map_of (env_executions env) (it_actor_id item, it_correlation_id item) = Some x"
    and i: "it_phase_index item = Some i" and a: "catalog_get (env_catalog env) (ex_action_key x) = Inr action"
    and ph: "schedule_action_phase f64 hypot (it_actor_id item, it_correlation_id item) x action (i + 1) (it_due_time_ms item) env = Inr env'"
    using assms(1) unfolding transition_action_phase_def Let_def by (auto simp: rbind_eq_Inr split: option.splits if_splits)
  have "action_built action" using a world_soundD(4) [OF assms(2)] by (auto simp: catalog_sound_def)
  then show ?thesis
    by (rule sound_schedule_action_phase [OF ph assms(2) world_soundD(6) [OF assms(2) x]]) (use item_sound_phase [OF assms(3) i] item_sound_due [OF assms(3)] in simp_all)
qed (use assms(2) in simp)

lemma sound_complete:
  assumes "complete_action item (env, evs) = Inr (env', evs')" "world_sound maxima env" "item_sound item"
  shows "world_sound maxima env' \<and> env_scheduled env' = env_scheduled env"
proof (cases "map_of (env_executions env) (it_actor_id item, it_correlation_id item)")
  case None
  with assms show ?thesis by (auto simp: complete_action_def Let_def dest!: emit_Inr(1))
next
  case (Some x)
  have "execution_sound (x\<lparr>ex_status := STATUS_COMPLETED\<rparr>)" using world_soundD(6) [OF assms(2) Some] by simp
  then have "world_sound maxima (free_actor (it_actor_id item) (ex_actor_life_id x) (it_due_time_ms item)
      (put_execution (it_actor_id item, it_correlation_id item) (x\<lparr>ex_status := STATUS_COMPLETED\<rparr>) env))"
    by (intro sound_free_actor sound_put_execution assms(2) item_sound_due [OF assms(3)])
  with Some assms(1,2) show ?thesis by (auto simp: complete_action_def Let_def dest!: emit_Inr(1) split: if_splits)
qed

subsection \<open>The background\<close>

lemma background_interrupt_each:
  "interrupt_each sel frees actor_id reason t xs st = Inr st' \<Longrightarrow> background (fst st') = background (fst st)"
proof (induction sel frees actor_id reason t xs st rule: interrupt_each.induct)
  case (2 sel frees actor_id reason t k x xs st)
  show ?case
  proof (cases "sel x")
    case True
    let ?e = "if frees then free_actor actor_id (ex_actor_life_id x) t (fst st) else fst st"
    from "2.prems" True obtain st1 where i: "interrupt_execution actor_id reason t k x (?e, snd st) = Inr st1"
      and r: "interrupt_each sel frees actor_id reason t xs st1 = Inr st'" by (auto simp: result_simps)
    have "background (fst st1) = background (fst st)" using emit_fields(1) [OF i [unfolded interrupt_execution_def]] by simp
    with "2.IH"(2) [OF _ r] True show ?thesis by simp
  qed (use 2 in simp)
qed simp

lemma background_interrupt_actor: "interrupt_actor actor_id trigger t st = Inr st' \<Longrightarrow> background (fst st') = background (fst st)"
  unfolding interrupt_actor_def by (auto simp: rbind_eq_Inr split: if_splits dest: background_interrupt_each)

lemma background_cleanup: "cleanup_dead_actor actor_id t st = Inr st' \<Longrightarrow> background (fst st') = background (fst st)"
  unfolding cleanup_dead_actor_def by (auto simp: rbind_eq_Inr Let_def dest!: background_interrupt_each)

lemma background_release [simp]: "background (release_action_phase item env) = background env"
  by (simp add: release_action_phase_def Let_def split: option.split)

lemma background_transition: "transition_action_phase rnd hypot item env = Inr env' \<Longrightarrow> background env' = background env"
  unfolding transition_action_phase_def Let_def
  by (auto simp: rbind_eq_Inr split: option.splits if_splits dest: background_schedule_action_phase)

lemma background_complete: "complete_action item st = Inr st' \<Longrightarrow> background (fst st') = background (fst st)"
  unfolding complete_action_def Let_def by (auto split: option.splits if_splits dest!: emit_fields(1))

end
