(* ===== verification/Step_Run.thy ===== *)
theory Step_Run
  imports World_Frame "HOL-Library.Multiset"
begin

text \<open>
  A step of the environment is a run of the lifecycle steps, always returns, and keeps the world sound. The
  environment is a host of the executor: the callbacks the executor gets keep the world sound, are
  lifecycle steps, and add work to the schedule only after the present. Every round of the loop over
  due work replaces one item by later items or by later phases of the same action.
\<close>

subsection \<open>The environment as a host\<close>

definition extends :: "int \<Rightarrow> environment \<Rightarrow> environment \<Rightarrow> bool" where
  "extends due env0 env \<longleftrightarrow> (\<exists>new. env_scheduled env = env_scheduled env0 @ new \<and> (\<forall>it \<in> set new. due < it_due_time_ms it))"

definition host_inv :: "float_lib \<Rightarrow> (string \<Rightarrow> (string \<times> rat) list) \<Rightarrow> int \<Rightarrow> environment \<Rightarrow> environment \<Rightarrow> bool" where
  "host_inv fl maxima due env0 env \<longleftrightarrow>
     0 \<le> due \<and> life_inv env0 \<and> world_sound maxima env \<and> env_steps f64 (fl_hypot fl) env0 env \<and> extends due env0 env
     \<and> background env = background env0"

lemma extends_refl [simp]: "extends due env env"
  by (simp add: extends_def)

lemma extends_same: "extends due env0 env \<Longrightarrow> env_scheduled env' = env_scheduled env \<Longrightarrow> extends due env0 env'"
  by (simp add: extends_def)

lemma extends_append: "extends due env0 env \<Longrightarrow> due < it_due_time_ms it \<Longrightarrow> env_scheduled env' = env_scheduled env @ [it] \<Longrightarrow> extends due env0 env'"
  unfolding extends_def by (elim exE conjE, rule_tac x = "new @ [it]" in exI) auto

lemma host_invD:
  assumes "host_inv fl maxima due env0 env"
  shows "0 \<le> due" "life_inv env0" "world_sound maxima env" "env_steps f64 (fl_hypot fl) env0 env" "extends due env0 env" "life_inv env"
    "background env = background env0"
  using assms env_steps_inv unfolding host_inv_def by blast+

lemma host_start: "0 \<le> due \<Longrightarrow> life_inv env \<Longrightarrow> world_sound maxima env \<Longrightarrow> host_inv fl maxima due env env"
  by (simp add: host_inv_def env_steps.none)

lemma host_move:
  assumes "host_inv fl maxima due env0 env" "env_step f64 (fl_hypot fl) env env'" "world_sound maxima env'" "extends due env0 env'"
    "background env' = background env"
  shows "host_inv fl maxima due env0 env'"
  using assms env_steps.more unfolding host_inv_def by metis

lemma host_quiet:
  assumes "host_inv fl maxima due env0 env" "quiet env env'" "world_sound maxima env'" "background env' = background env"
  shows "host_inv fl maxima due env0 env'"
  using assms(2) by (intro host_move [OF assms(1) env_step.executor_world assms(3)] extends_same [OF host_invD(5) [OF assms(1)]])
    (simp_all add: quiet_def assms(4))

lemma host_schedule:
  assumes "host_inv fl maxima due env0 env" "schedule_new mk env = Inr env'" "\<And>n. it_order (mk n) = n" "\<And>n. effect_work due (mk n)"
  shows "host_inv fl maxima due env0 env'"
proof (rule host_move [OF assms(1)])
  let ?it = "mk (env_next_schedule_order env)"
  have env': "env' = appends [?it] env" using schedule_new_Inr(1) [OF assms(2)] .
  show "env_step f64 (fl_hypot fl) env env'"
    by (rule env_step.executor_schedule [OF assms(2,3)]) (use assms(4) in \<open>simp add: effect_work_def\<close>)
  show "world_sound maxima env'"
    by (rule sound_schedule_new [OF assms(2) host_invD(3) [OF assms(1)]]) (use assms(4) in \<open>simp add: effect_work_def\<close>)
  show "extends due env0 env'"
    by (rule extends_append [OF host_invD(5) [OF assms(1)], of ?it]) (use assms(4) in \<open>simp_all add: effect_work_def env' appends_def\<close>)
  show "background env' = background env" by (simp add: env')
qed

interpretation stepping: executor_host "host_inv fl maxima due env0" maxima due for fl maxima due env0
proof
  fix env k e e' assume i: "host_inv fl maxima due env0 env" and e: "map_of (env_entities env) k = Some e"
  show "valid_entity (maxima k) e" by (rule world_soundD(1) [OF host_invD(3) [OF i] e])
  assume "same_life e e'" "valid_entity (maxima k) e'"
  then show "host_inv fl maxima due env0 (put_entity k e' env)"
    by (intro host_quiet [OF i] quiet_put_entity [OF e] sound_put_entity host_invD(3) [OF i]) simp_all
next
  fix env assume i: "host_inv fl maxima due env0 env"
  note s = host_invD(3) [OF i]
  show "host_inv fl maxima due env0 (env\<lparr>env_next_event_number := env_next_event_number env + 1\<rparr>)"
    by (rule host_quiet [OF i]) (simp_all add: quiet_def entities_le_same s)
  show "random_inv (env_random env)" by (rule world_soundD(2) [OF s])
  show "host_inv fl maxima due env0 (env\<lparr>env_random := r\<rparr>)" if "random_inv r" for r
    by (rule host_quiet [OF i]) (simp_all add: quiet_def entities_le_same sound_random [OF s that])
  show "host_inv fl maxima due env0 (snd (take_schedule_order env))"
    by (rule host_move [OF i env_step.executor_order])
      (simp_all add: take_schedule_order_def s extends_same [OF host_invD(5) [OF i]])
  show "payloads_built (env_catalog env)" using world_soundD(4) [OF s] by (simp add: catalog_sound_def)
next
  fix mk env env' assume "host_inv fl maxima due env0 env" "schedule_new mk env = Inr env'"
    "\<And>n. it_order (mk n) = n" "\<And>n. effect_work due (mk n)"
  then show "host_inv fl maxima due env0 env'" by (rule host_schedule)
next
  fix env evs env' evs' actor_id trigger assume i: "host_inv fl maxima due env0 env"
    and t: "interrupt_actor actor_id trigger due (env, evs) = Inr (env', evs')"
  have "distinct (map fst (env_executions env))" using life_invD(1) [OF host_invD(6) [OF i]] by (simp add: keyed_def)
  with sound_interrupt_actor [OF t, of maxima] host_invD(1,3) [OF i]
  have "world_sound maxima env'" "env_scheduled env' = env_scheduled env" by simp_all
  then show "host_inv fl maxima due env0 env'"
    by (intro host_move [OF i env_step.executor_interrupt [OF t]] extends_same [OF host_invD(5) [OF i]])
      (use background_interrupt_actor [OF t] in simp_all)
qed

lemma stepping_cleanup: "invar (host_inv fl maxima due env0) (acleanup due actor_id)"
proof (rule presI, rule conjI [OF _ TrueI])
  fix env evs u env' evs' assume i: "host_inv fl maxima due env0 env" and r: "acleanup due actor_id (env, evs) = Inr (u, env', evs')"
  then have c: "cleanup_dead_actor actor_id due (env, evs) = Inr (env', evs')" by (simp add: acleanup_def result_simps)
  have "distinct (map fst (env_executions env))" using life_invD(1) [OF host_invD(6) [OF i]] by (simp add: keyed_def)
  with sound_cleanup [OF c, of maxima] host_invD(1,3) [OF i]
  have "world_sound maxima env'" "env_scheduled env' = env_scheduled env" by simp_all
  then show "host_inv fl maxima due env0 env'"
    by (intro host_move [OF i env_step.death [OF c]] extends_same [OF host_invD(5) [OF i]])
      (use background_cleanup [OF c] in simp_all)
qed

subsection \<open>Work decreases\<close>

text \<open>\<open>math.hypot\<close> is not negative.\<close>

definition hypot_nonneg :: "float_lib \<Rightarrow> bool" where
  "hypot_nonneg fl \<longleftrightarrow> (\<forall>p q d. fl_hypot fl p q = Some d \<longrightarrow> 0 \<le> d)"

lemma delivery_delay_nonneg:
  assumes "delivery_delay f64 (fl_hypot fl) env actor binding phase = Inr delay" "hypot_nonneg fl" "action_built action" "phase \<in> set (ac_phases action)"
  shows "0 \<le> delay"
proof (cases "ds_kind (ph_delivery phase) = IMMEDIATE")
  case False
  with assms(1) obtain target :: entity_state and speed d where s: "ds_projectile_speed (ph_delivery phase) = Some speed"
    and d: "fl_hypot fl (en_position actor) (en_position target) = Some d" "\<lceil>f64 (f64 (d / speed) * 1000)\<rceil> = delay"
    by (cases "ds_projectile_speed (ph_delivery phase)"; cases "ab_target_entity_id binding")
      (auto simp: delivery_delay_def distance_ms_def rbind_eq_Inr split: option.splits)
  have "0 < speed" by (rule action_builtD(5) [OF assms(3,4) False s])
  moreover have "0 \<le> d" using assms(2) d(1) unfolding hypot_nonneg_def by blast
  ultimately have "0 \<le> f64 (f64 (d / speed) * 1000)" by (intro f64.rnd_nonneg mult_nonneg_nonneg divide_nonneg_pos) simp_all
  then show ?thesis by (simp flip: d(2))
qed (use assms(1) in \<open>simp add: delivery_delay_def\<close>)

text \<open>Work that a phase which starts at \<open>t\<close> puts on the schedule.\<close>

definition phase_work :: "int \<Rightarrow> int \<Rightarrow> int \<Rightarrow> scheduled_item \<Rightarrow> bool" where
  "phase_work t i n it \<longleftrightarrow> t \<le> it_due_time_ms it \<and> (it_kind it = PHASE_TRANSITION \<longrightarrow> it_phase_index it = Some i \<and> i + 1 < n)"

definition adds_work :: "(scheduled_item \<Rightarrow> bool) \<Rightarrow> environment \<Rightarrow> environment \<Rightarrow> bool" where
  "adds_work P env env' \<longleftrightarrow> (\<exists>new. env_scheduled env' = env_scheduled env @ new \<and> (\<forall>it \<in> set new. P it))"

lemma adds_work_refl [simp]: "adds_work P env env"
  by (simp add: adds_work_def)

lemma adds_work_trans: "adds_work P e1 e2 \<Longrightarrow> adds_work P e2 e3 \<Longrightarrow> adds_work P e1 e3"
  unfolding adds_work_def by (elim exE conjE, rule_tac x = "new @ newa" in exI) auto

lemma adds_work_mono: "adds_work P env env' \<Longrightarrow> (\<And>it. P it \<Longrightarrow> Q it) \<Longrightarrow> adds_work Q env env'"
  unfolding adds_work_def by blast

lemma adds_work_when: "schedule_when b mk env = Inr env' \<Longrightarrow> (\<And>n. P (mk n)) \<Longrightarrow> adds_work P env env'"
  by (drule schedule_when_Inr) (simp add: adds_work_def appends_def)

lemma payload_item_due [simp]: "it_due_time_ms (payload_item actor x a p i kind due n) = due"
  by (simp add: payload_item_def)

lemma schedule_action_phase_work:
  assumes "schedule_action_phase f64 (fl_hypot fl) k x0 action i t env = Inr env'" "hypot_nonneg fl" "action_built action" "0 \<le> i"
  shows "adds_work (phase_work t i (int (length (ac_phases action)))) env env'"
  using assms(1)
proof (cases rule: schedule_action_phase_parts)
  case (1 phase actor e1 delay e2 e3 e4 e5)
  let ?P = "phase_work t i (int (length (ac_phases action)))"
  have ph: "phase \<in> set (ac_phases action)" using py_index_Inr [OF 1(1) assms(4)] assms(4) by auto
  have d: "0 \<le> ph_duration_ms phase" using action_builtD(3) [OF assms(3) ph] by blast
  have delay: "0 \<le> delay" by (rule delivery_delay_nonneg [OF 1(4) assms(2,3) ph])
  have "adds_work ?P env e1" by (rule adds_work_when [OF 1(3)]) (simp add: phase_work_def d)
  moreover have "adds_work ?P e1 e2" by (rule adds_work_when [OF 1(5)]) (simp add: phase_work_def d delay)
  moreover have "adds_work ?P e2 e3" by (rule adds_work_when [OF 1(6)]) (simp add: phase_work_def d delay)
  moreover have "adds_work ?P e3 e4" by (rule adds_work_when [OF 1(7)]) (simp add: phase_work_def d delay)
  moreover have "adds_work ?P e4 e5" using schedule_new_Inr(1) [OF 1(8)] d by (simp add: adds_work_def appends_def phase_work_def)
  ultimately have "adds_work ?P env e5" by (blast intro: adds_work_trans)
  then show ?thesis unfolding 1(9) by (simp add: adds_work_def)
qed

text \<open>Among the items due until a time, an item counts by the time that is left and, for the transition out of
  a phase, by the phases that are left.\<close>

definition work_rank :: "int \<Rightarrow> int \<Rightarrow> scheduled_item \<Rightarrow> nat \<times> nat" where
  "work_rank phases until it =
     (nat (until - it_due_time_ms it),
      if it_kind it = PHASE_TRANSITION then case it_phase_index it of None \<Rightarrow> 0 | Some i \<Rightarrow> nat (phases - i) else 0)"

abbreviation rank_less :: "((nat \<times> nat) \<times> (nat \<times> nat)) set" where
  "rank_less \<equiv> less_than <*lex*> less_than"

definition remaining_work :: "int \<Rightarrow> int \<Rightarrow> environment \<Rightarrow> (nat \<times> nat) multiset" where
  "remaining_work phases until env =
     image_mset (work_rank phases until) (filter_mset (\<lambda>it. it_due_time_ms it \<le> until) (mset (env_scheduled env)))"

definition smaller_work :: "int \<Rightarrow> int \<Rightarrow> scheduled_item \<Rightarrow> scheduled_item \<Rightarrow> bool" where
  "smaller_work phases until item it \<longleftrightarrow> it_due_time_ms it \<le> until \<longrightarrow> (work_rank phases until it, work_rank phases until item) \<in> rank_less"

lemma later_smaller: "it_due_time_ms item < it_due_time_ms it \<Longrightarrow> smaller_work phases until item it"
  by (auto simp: smaller_work_def work_rank_def)

lemma phase_work_smaller:
  assumes "it_kind item = PHASE_TRANSITION" "it_phase_index item = Some i" "i + 1 < n" "n \<le> phases"
    "phase_work (it_due_time_ms item) (i + 1) n it"
  shows "smaller_work phases until item it"
proof (cases "it_due_time_ms item < it_due_time_ms it")
  case False
  with assms(5) have "it_due_time_ms it = it_due_time_ms item" by (simp add: phase_work_def)
  with assms show ?thesis by (auto simp: smaller_work_def work_rank_def phase_work_def)
qed (rule later_smaller)

lemma remaining_decreases:
  assumes "item \<in> set (env_scheduled env)" "it_due_time_ms item \<le> until"
    and "env_scheduled env' = remove1 item (env_scheduled env) @ new" "\<forall>it \<in> set new. smaller_work phases until item it"
  shows "(remaining_work phases until env', remaining_work phases until env) \<in> mult rank_less"
proof -
  let ?f = "\<lambda>xs. image_mset (work_rank phases until) (filter_mset (\<lambda>it. it_due_time_ms it \<le> until) (mset xs))"
  let ?rest = "remove1 item (env_scheduled env)"
  have m: "mset (env_scheduled env) = add_mset item (mset ?rest)" using assms(1) by simp
  have "remaining_work phases until env = ?f ?rest + {#work_rank phases until item#}"
    unfolding remaining_work_def m by (simp add: assms(2) del: mset_remove1)
  moreover have "remaining_work phases until env' = ?f ?rest + ?f new" by (simp add: remaining_work_def assms(3))
  moreover have "(?f ?rest + ?f new, ?f ?rest + {#work_rank phases until item#}) \<in> mult rank_less"
    by (rule one_step_implies_mult) (use assms(4) in \<open>auto simp: smaller_work_def\<close>)
  ultimately show ?thesis by simp
qed

subsection \<open>Rounds\<close>

definition phase_bound :: "action_catalog \<Rightarrow> int" where
  "phase_bound c = int (sum_list (map (\<lambda>ka. length (ac_phases (snd ka))) (cat_by_key c)))"

lemma phase_bound_ge: "catalog_get c k = Inr a \<Longrightarrow> int (length (ac_phases a)) \<le> phase_bound c"
  unfolding phase_bound_def catalog_get_def of_nat_le_iff
  by (rule member_le_sum_list) (force split: option.splits dest: map_of_SomeD, simp)

lemma transition_work:
  assumes "transition_action_phase f64 (fl_hypot fl) item env = Inr env'" "hypot_nonneg fl" "world_sound maxima env" "item_sound item"
    and "it_kind item = PHASE_TRANSITION"
  shows "adds_work (smaller_work (phase_bound (env_catalog env)) until item) env env'"
proof (cases "env' = env")
  case False
  then obtain x i action where i: "it_phase_index item = Some i" and a: "catalog_get (env_catalog env) (ex_action_key x) = Inr action"
    and ph: "schedule_action_phase f64 (fl_hypot fl) (it_actor_id item, it_correlation_id item) x action (i + 1) (it_due_time_ms item) env = Inr env'"
    using assms(1) unfolding transition_action_phase_def Let_def by (auto simp: rbind_eq_Inr split: option.splits if_splits)
  have built: "action_built action" using a world_soundD(4) [OF assms(3)] by (auto simp: catalog_sound_def)
  have i0: "0 \<le> i + 1" using item_sound_phase [OF assms(4) i] by simp
  from ph obtain phase where p: "py_index (ac_phases action) (i + 1) = Inr phase" by (cases rule: schedule_action_phase_parts)
  have lt: "i + 1 < int (length (ac_phases action))" using py_index_Inr [OF p i0] by simp
  show ?thesis
    by (rule adds_work_mono [OF schedule_action_phase_work [OF ph assms(2) built i0] phase_work_smaller [OF assms(5) i lt phase_bound_ge [OF a]]])
qed simp

lemma extends_adds: "extends due env0 env \<Longrightarrow> due = it_due_time_ms item \<Longrightarrow> adds_work (smaller_work phases until item) env0 env"
  unfolding extends_def adds_work_def by (blast intro: later_smaller)

lemma host_adds: "host_inv fl maxima (it_due_time_ms item) env0 env \<Longrightarrow> adds_work (smaller_work phases until item) env0 env"
  by (rule extends_adds [OF host_invD(5)]) simp_all

text \<open>What a handler does to the environment without the item it handles.\<close>

definition handled :: "float_lib \<Rightarrow> (string \<Rightarrow> (string \<times> rat) list) \<Rightarrow> int \<Rightarrow> scheduled_item \<Rightarrow> environment \<Rightarrow> environment \<Rightarrow> environment \<Rightarrow> bool" where
  "handled fl maxima until item env env1 env2 \<longleftrightarrow>
     env_steps f64 (fl_hypot fl) env env2 \<and> world_sound maxima env2 \<and> adds_work (smaller_work (phase_bound (env_catalog env)) until item) env1 env2
     \<and> background env2 = background env"

lemma env_steps_one: "env_step rnd hypot env env' \<Longrightarrow> env_steps rnd hypot env env'"
  by (blast intro: env_steps.intros)

lemma env_steps_trans:
  assumes "env_steps rnd hypot e1 e2" "env_steps rnd hypot e2 e3"
  shows "env_steps rnd hypot e1 e3"
  using assms(2,1) by (induction rule: env_steps.induct) (blast intro: env_steps.intros)+

lemma executor_handled:
  assumes "next_due until env = Some (item, env1)" "scheduled_item_is_valid env1 item" "it_kind item \<in> {RESOLUTION, WEAPON_ATTACK, EFFECT_PULSE, EFFECT_EXPIRY}"
    and "host_inv fl maxima (it_due_time_ms item) env1 env2"
  shows "handled fl maxima until item env env1 env2"
  using env_steps_trans [OF env_steps_one [OF env_step.resolution [OF assms(1-3)]] host_invD(4) [OF assms(4)]] host_invD(3) [OF assms(4)]
    host_adds [OF assms(4)] host_invD(7) [OF assms(4)] next_due_Some(3) [OF assms(1)] by (simp add: handled_def)

lemma handle_handled:
  assumes n: "next_due until env = Some (item, env1)" and v: "scheduled_item_is_valid env1 item" and hyp: "hypot_nonneg fl"
    and l: "life_inv env" and s: "world_sound maxima env"
    and h: "handle fl depth eligible item (env1, evs) = Inr (u, env2, evs2)"
  shows "handled fl maxima until item env env1 env2"
proof -
  note nd = next_due_Some [OF n]
  have item: "item_sound item" by (rule world_soundD(5) [OF s nd(1)])
  then have b: "built_item item" by (simp add: item_sound_def)
  have s1: "world_sound maxima env1" unfolding nd(3) by (rule sound_remove [OF s])
  have c: "env_catalog env1 = env_catalog env" "background env1 = background env" by (simp_all add: nd(3))
  have host: "host_inv fl maxima (it_due_time_ms item) env1 env1" by (rule host_start [OF item_sound_due [OF item] life_inv_pop [OF l n] s1])
  have exec: "handled fl maxima until item env env1 env2"
    if "it_kind item \<in> {RESOLUTION, WEAPON_ATTACK, EFFECT_PULSE, EFFECT_EXPIRY}" "m (env1, evs) = Inr (u, env2, evs2)"
      "invar (host_inv fl maxima (it_due_time_ms item) env1) m" for m :: "unit act"
    by (rule executor_handled [OF n v that(1) presD(1) [OF that(3) host that(2)]])
  show ?thesis
  proof (cases "it_kind item")
    case PHASE_RELEASE
    with h have "env2 = release_action_phase item env1" by (simp add: handle_def arelease_def)
    moreover have "env_scheduled (release_action_phase item env1) = env_scheduled env1" by (cases rule: release_cases [of item env1]) simp_all
    ultimately show ?thesis using env_steps_one [OF env_step.release [OF n v PHASE_RELEASE]] sound_release [OF s1 item]
      by (simp add: handled_def adds_work_def c)
  next
    case PHASE_TRANSITION
    with h have t: "transition_action_phase f64 (fl_hypot fl) item env1 = Inr env2" by (auto simp: handle_def atransition_def result_simps)
    show ?thesis
      using env_steps_one [OF env_step.transition [OF n v PHASE_TRANSITION t]] sound_transition [OF t s1 item]
        transition_work [OF t hyp s1 item PHASE_TRANSITION] background_transition [OF t] by (simp add: handled_def c)
  next
    case COMPLETION
    with h have t: "complete_action item (env1, evs) = Inr (env2, evs2)" by (auto simp: handle_def acomplete_def result_simps)
    show ?thesis
      using env_steps_one [OF env_step.completion [OF n v COMPLETION t]] sound_complete [OF t s1 item] background_complete [OF t]
      by (simp add: handled_def adds_work_def c)
  next
    case RESOLUTION
    with h show ?thesis by (intro exec [OF _ _ stepping.invar_resolve [OF b]]) (simp_all add: handle_def Let_def)
  next
    case WEAPON_ATTACK
    with h show ?thesis by (intro exec [OF _ _ stepping.invar_resolve_weapon_attack [OF b]]) (simp_all add: handle_def Let_def)
  next
    case EFFECT_PULSE
    with h show ?thesis by (intro exec [OF _ _ stepping.invar_resolve_effect_pulse [OF b]]) (simp_all add: handle_def Let_def)
  next
    case EFFECT_EXPIRY
    with h show ?thesis by (intro exec [OF _ _ stepping.invar_expire_effect]) (simp_all add: handle_def Let_def)
  qed
qed

lemma process_item_handled:
  assumes n: "next_due until env = Some (item, env1)" and v: "scheduled_item_is_valid env1 item" and hyp: "hypot_nonneg fl"
    and l: "life_inv env" and s: "world_sound maxima env"
    and p: "process_item fl depth item life_terminated (env1, evs) = Inr (t, env', evs')"
  shows "handled fl maxima until item env env1 env'"
proof -
  let ?due = "it_due_time_ms item"
  let ?rest = "abind (aget (\<lambda>env. sort (map fst (env_entities env)))) (\<lambda>ids. abind (resolve_deaths ids ?due life_terminated) (\<lambda>terminated.
     abind (aget (newly_dead (living env1))) (\<lambda>dead. aseq (aeach (acleanup ?due) dead) (areturn terminated))))"
  from p obtain u env2 evs2 where h: "handle fl depth (set (living env1)) item (env1, evs) = Inr (u, env2, evs2)"
    and r: "?rest (env2, evs2) = Inr (t, env', evs')"
    unfolding process_item_def aseq_def abind_Inr by (auto simp: aget_def)
  have h: "handled fl maxima until item env env1 env2" by (rule handle_handled [OF n v hyp l s h])
  then have l2: "life_inv env2" and s2: "world_sound maxima env2" using env_steps_inv [OF _ l] by (auto simp: handled_def)
  have due: "0 \<le> ?due" by (rule item_sound_due [OF world_soundD(5) [OF s next_due_Some(1) [OF n]]])
  have "invar (host_inv fl maxima ?due env2) ?rest"
    by (intro pres_abind [OF invar_aget] pres_abind [OF stepping.invar_resolve_deaths] pres_aseq pres_aeach stepping_cleanup invar_areturn)
  from presD(1) [OF this host_start [OF due l2 s2] r] have i: "host_inv fl maxima ?due env2 env'" .
  show ?thesis using h host_invD(3,4,7) [OF i] host_adds [OF i]
    unfolding handled_def by (auto intro: env_steps_trans adds_work_trans)
qed

definition work_left :: "int \<Rightarrow> environment \<Rightarrow> (nat \<times> nat) multiset" where
  "work_left until env = remaining_work (phase_bound (env_catalog env)) until env"

text \<open>A round of the loop is a run of lifecycle steps and leaves less work.\<close>

lemma due_round_runs:
  assumes "due_round fl depth until life_terminated (env, evs) = Inr (Some t, env', evs')" "hypot_nonneg fl" "life_inv env" "world_sound maxima env"
  shows "env_steps f64 (fl_hypot fl) env env'" "life_inv env'" "world_sound maxima env'" "(work_left until env', work_left until env) \<in> mult rank_less"
    "background env' = background env"
proof -
  from assms(1) obtain item env1 where n: "next_due until env = Some (item, env1)" by (auto simp: due_round_def split: option.splits)
  have h: "handled fl maxima until item env env1 env'"
  proof (cases "scheduled_item_is_valid env1 item")
    case True
    with assms(1) n have "process_item fl depth item life_terminated (env1, evs) = Inr (t, env', evs')"
      by (auto simp: due_round_def abind_Inr areturn_def)
    then show ?thesis by (rule process_item_handled [OF n True assms(2-4)])
  next
    case False
    with assms(1) n have "env' = env1" by (simp add: due_round_def)
    then show ?thesis using env_steps_one [OF env_step.discard [OF n False]] sound_remove [OF assms(4)] next_due_Some(3) [OF n]
      by (simp add: handled_def)
  qed
  then show r: "env_steps f64 (fl_hypot fl) env env'" and "world_sound maxima env'" and "background env' = background env" by (simp_all add: handled_def)
  from env_steps_inv [OF r assms(3)] show "life_inv env'" by simp
  have c: "env_catalog env' = env_catalog env" using env_steps_inv [OF r assms(3)] by (simp add: evolves_def)
  from h obtain new where "env_scheduled env' = remove1 item (env_scheduled env) @ new"
    "\<forall>it \<in> set new. smaller_work (phase_bound (env_catalog env)) until item it"
    by (auto simp: handled_def adds_work_def next_due_Some(3) [OF n])
  from remaining_decreases [OF next_due_Some(1,2) [OF n] this]
  show "(work_left until env', work_left until env) \<in> mult rank_less" by (simp add: work_left_def c)
qed

lemma due_round_stops: "due_round fl depth until life_terminated w = Inr (None, w') \<Longrightarrow> w' = w \<and> next_due until (fst w) = None"
  by (auto simp: due_round_def abind_def areturn_def result_simps split: option.splits if_splits)

text \<open>The loop returns. If it does so without an exception, nothing due is left.\<close>

lemma process_due_returns:
  assumes "hypot_nonneg fl" "life_inv env" "world_sound maxima env"
  shows "\<exists>r. process_due fl depth until life_terminated (env, evs) = Some r
    \<and> (\<forall>t env' evs'. r = Inr (t, env', evs') \<longrightarrow> env_steps f64 (fl_hypot fl) env env' \<and> life_inv env' \<and> world_sound maxima env'
         \<and> next_due until env' = None \<and> background env' = background env)"
  using assms(2,3)
proof (induction "work_left until env" arbitrary: env evs life_terminated rule: wf_induct_rule [OF wf_mult [OF wf_lex_prod [OF wf_less_than wf_less_than]]])
  case (1 env)
  show ?case
  proof (cases "due_round fl depth until life_terminated (env, evs)")
    case (Inl e)
    then show ?thesis by (simp add: process_due.simps)
  next
    case (Inr q)
    obtain more w' where q: "q = (more, w')" by (cases q)
    show ?thesis
    proof (cases more)
      case None
      with Inr q have w': "w' = (env, evs)" "next_due until env = None" using due_round_stops by fastforce+
      show ?thesis
        by (rule exI [of _ "Inr (life_terminated, env, evs)"])
          (subst process_due.simps, simp add: Inr q None w' "1.prems" env_steps.none)
    next
      case (Some t)
      obtain env' evs' where w': "w' = (env', evs')" by (cases w')
      from Inr q Some w' have d: "due_round fl depth until life_terminated (env, evs) = Inr (Some t, env', evs')" by simp
      note r = due_round_runs [OF d assms(1) "1.prems"]
      have eq: "process_due fl depth until life_terminated (env, evs) = process_due fl depth until t (env', evs')"
        by (subst process_due.simps) (simp add: d)
      from "1.hyps" [OF r(4) r(2,3), of t evs'] show ?thesis unfolding eq r(5) using env_steps_trans [OF r(1)] by blast
    qed
  qed
qed

end
