(* ===== verification/Simulation.thy ===== *)
theory Simulation
  imports Step_Run
begin

text \<open>
  The simulation as its clients run it: an environment is constructed from built actions and entities, and then
  stepped with lists of decisions. Every step returns, is a run of the lifecycle, moves the clock by one
  tick and leaves no due work behind; every entity stays valid forever.
\<close>

subsection \<open>Admission and start\<close>

definition decision_built :: "decision_message \<Rightarrow> bool" where
  "decision_built d \<longleftrightarrow> decision_message_ok d = Inr () \<and> action_binding_ok (dm_binding d) = Inr ()"

text \<open>A change of nothing but entities' lives, the random source and the event counter.\<close>

definition calm :: "(string \<Rightarrow> (string \<times> rat) list) \<Rightarrow> environment \<Rightarrow> environment \<Rightarrow> bool" where
  "calm maxima env env' \<longleftrightarrow> quiet env env' \<and> background env' = background env \<and> (world_sound maxima env \<longrightarrow> world_sound maxima env')"

lemma calm_refl [simp]: "calm maxima env env"
  by (simp add: calm_def)

lemma calm_trans: "calm maxima e1 e2 \<Longrightarrow> calm maxima e2 e3 \<Longrightarrow> calm maxima e1 e3"
  by (auto simp: calm_def intro: quiet_trans)

lemma calm_reject: "reject d reason w = Inr (u, w') \<Longrightarrow> calm maxima (fst w) (fst w')"
  by (auto simp: reject_def rejection_event_def make_event_def result_simps calm_def quiet_def entities_le_same)

definition admissible :: "environment \<Rightarrow> decision_message set \<Rightarrow> decision_message \<times> action_spec \<Rightarrow> bool" where
  "admissible env ds da \<longleftrightarrow> fst da \<in> ds \<and> catalog_get (env_catalog env) (dm_action_key (fst da)) = Inr (snd da)"

lemma calm_catalog: "calm maxima env env' \<Longrightarrow> env_catalog env' = env_catalog env"
  by (simp add: calm_def quiet_def)

lemma admit_calm:
  "admit fl seen ds w = Inr (accepted, w') \<Longrightarrow> calm maxima (fst w) (fst w') \<and> list_all (admissible (fst w) (set ds)) accepted"
proof (induction ds arbitrary: seen w accepted)
  case Nil
  then show ?case by (simp add: areturn_def)
next
  case (Cons d ds)
  have weaken: "list_all (admissible env (set ds)) xs \<Longrightarrow> list_all (admissible env (set (d # ds))) xs" for env xs
    by (auto simp: admissible_def list_all_iff)
  have rejected: ?case if "aseq (reject d reason) (admit fl s ds) w = Inr (accepted, w')" for reason s
  proof -
    from that obtain w1 where "reject d reason w = Inr ((), w1)" and r: "admit fl s ds w1 = Inr (accepted, w')"
      by (auto simp: aseq_def abind_Inr)
    then have c: "calm maxima (fst w) (fst w1)" by (simp add: calm_reject)
    with Cons.IH [OF r] show ?thesis
      using calm_trans weaken by (auto simp: calm_catalog [OF c] admissible_def list_all_iff)
  qed
  show ?case
  proof (cases "dm_agent_id d \<in> seen")
    case True
    with Cons.prems rejected show ?thesis by simp
  next
    case False
    let ?seen = "insert (dm_agent_id d) seen"
    show ?thesis
    proof (cases "check_decision fl (fst w) d")
      case (Inl e)
      with False Cons.prems have "aseq (reject d (''reason.'' @ reason_tag e)) (admit fl ?seen ds) w = Inr (accepted, w')"
        by (auto simp: abind_def aget_def araise_def Let_def split: if_splits)
      then show ?thesis by (rule rejected)
    next
      case (Inr action)
      then have a: "catalog_get (env_catalog (fst w)) (dm_action_key d) = Inr action" by (auto simp: check_decision_def result_simps)
      show ?thesis
      proof (cases "map_of (env_executions (fst w)) (dm_agent_id d, dm_correlation_id d)")
        case None
        with False Inr Cons.prems obtain rest where r: "admit fl ?seen ds w = Inr (rest, w')" and "accepted = (d, action) # rest"
          by (auto simp: abind_Inr aget_def areturn_def Let_def)
        with Cons.IH [OF r] a show ?thesis by (auto simp: admissible_def list_all_iff)
      next
        case (Some x)
        with False Inr Cons.prems have "aseq (reject d ''reason.duplicate_action_correlation'') (admit fl ?seen ds) w = Inr (accepted, w')"
          by (simp add: abind_def aget_def Let_def)
        then show ?thesis by (rule rejected)
      qed
    qed
  qed
qed

definition progressed :: "float_lib \<Rightarrow> (string \<Rightarrow> (string \<times> rat) list) \<Rightarrow> environment \<Rightarrow> environment \<Rightarrow> bool" where
  "progressed fl maxima env env' \<longleftrightarrow> env_steps f64 (fl_hypot fl) env env' \<and> life_inv env' \<and> world_sound maxima env' \<and> background env' = background env"

lemma starts_progress:
  "aeach (astart fl) accepted w = Inr (u, w') \<Longrightarrow> life_inv (fst w) \<Longrightarrow> world_sound maxima (fst w)
   \<Longrightarrow> list_all (\<lambda>da. admissible (fst w) ds da \<and> decision_built (fst da)) accepted \<Longrightarrow> progressed fl maxima (fst w) (fst w')"
proof (induction accepted arbitrary: w)
  case Nil
  then show ?case by (auto simp: areturn_def progressed_def env_steps.none)
next
  case (Cons da accepted)
  obtain d action where da: "da = (d, action)" by (cases da)
  from Cons.prems(1) obtain w1 where s: "astart fl (d, action) w = Inr ((), w1)" and r: "aeach (astart fl) accepted w1 = Inr (u, w')"
    by (auto simp: aseq_def abind_Inr da)
  from s have s: "start_action f64 (fl_hypot fl) d action (fst w, snd w) = Inr (fst w1, snd w1)" by (auto simp: astart_def result_simps)
  from Cons.prems(4) have a: "catalog_get (env_catalog (fst w)) (dm_action_key d) = Inr action" and b: "action_binding_ok (dm_binding d) = Inr ()"
    by (simp_all add: da admissible_def decision_built_def)
  have k: "ac_action_key action = dm_action_key d" "action_built action"
    using a world_soundD(4) [OF Cons.prems(3)] by (auto simp: catalog_sound_def)
  have st: "env_step f64 (fl_hypot fl) (fst w) (fst w1)" by (rule env_step.start [OF s]) (simp add: k a)
  have l: "life_inv (fst w1)" "evolves (fst w) (fst w1)" using env_steps_inv [OF env_steps_one [OF st] Cons.prems(2)] by simp_all
  have ws: "world_sound maxima (fst w1) \<and> background (fst w1) = background (fst w)"
    by (rule sound_start_action [OF s Cons.prems(3) k(2) b])
  have "progressed fl maxima (fst w1) (fst w')"
    by (rule Cons.IH [OF r l(1) conjunct1 [OF ws]]) (use Cons.prems(4) evolvesD(2) [OF l(2)] in \<open>simp add: admissible_def\<close>)
  then show ?case using ws env_steps_trans [OF env_steps_one [OF st]] by (auto simp: progressed_def)
qed

subsection \<open>A step\<close>

text \<open>\<open>yields r P\<close>: the computation returns, and its value satisfies \<open>P\<close> unless it raises.\<close>

definition yields :: "'a result option \<Rightarrow> ('a \<Rightarrow> bool) \<Rightarrow> bool" where
  "yields r P \<longleftrightarrow> (\<exists>q. r = Some q \<and> (\<forall>x. q = Inr x \<longrightarrow> P x))"

lemma yields_Some [simp]: "yields (Some q) P \<longleftrightarrow> (\<forall>x. q = Inr x \<longrightarrow> P x)"
  by (simp add: yields_def)

lemma yields_obind: "yields r P \<Longrightarrow> (\<And>x. P x \<Longrightarrow> yields (f x) Q) \<Longrightarrow> yields (obind r f) Q"
  by (auto simp: yields_def obind_def split: option.splits sum.splits)

text \<open>The environment \<open>env\<close> was reached from \<open>env0\<close>, and its background is \<open>c\<close>.\<close>

definition course :: "float_lib \<Rightarrow> (string \<Rightarrow> (string \<times> rat) list) \<Rightarrow> environment \<Rightarrow> clock \<times> vector2 list \<times> vector2 list \<times> bool \<times> string set \<times> environment_snapshot option \<Rightarrow> environment \<Rightarrow> bool" where
  "course fl maxima env0 c env \<longleftrightarrow> env_steps f64 (fl_hypot fl) env0 env \<and> life_inv env \<and> world_sound maxima env \<and> background env = c"

lemma course_progressed: "course fl maxima env0 c env \<Longrightarrow> progressed fl maxima env env' \<Longrightarrow> course fl maxima env0 c env'"
  by (auto simp: course_def progressed_def intro: env_steps_trans)

lemma admit_yields:
  assumes "course fl maxima env0 c env" "list_all decision_built decisions"
  shows "yields (Some (admit fl {} (sort_key (\<lambda>d. (dm_agent_id d, dm_correlation_id d)) decisions) (env, [])))
    (\<lambda>(accepted, w). course fl maxima env0 c (fst w) \<and> list_all (\<lambda>da. admissible (fst w) (set decisions) da \<and> decision_built (fst da)) accepted)"
  unfolding yields_Some
proof (intro allI impI, clarify)
  fix accepted env1 evs assume "admit fl {} (sort_key (\<lambda>d. (dm_agent_id d, dm_correlation_id d)) decisions) (env, []) = Inr (accepted, env1, evs)"
  from admit_calm [OF this, of maxima] have m: "calm maxima env env1" and a: "list_all (admissible env (set decisions)) accepted" by simp_all
  have "course fl maxima env0 c env1"
    using m assms(1) life_inv_quiet env_steps.more [OF _ env_step.executor_world] by (auto simp: course_def calm_def)
  with a assms(2) show "course fl maxima env0 c (fst (env1, evs))
      \<and> list_all (\<lambda>da. admissible (fst (env1, evs)) (set decisions) da \<and> decision_built (fst da)) accepted"
    by (auto simp: list_all_iff admissible_def calm_catalog [OF m])
qed

lemma starts_yield:
  assumes "course fl maxima env0 c (fst w)" "list_all (\<lambda>da. admissible (fst w) ds da \<and> decision_built (fst da)) accepted"
  shows "yields (Some (aeach (astart fl) accepted w)) (\<lambda>(u, w'). course fl maxima env0 c (fst w'))"
proof -
  have i: "life_inv (fst w)" "world_sound maxima (fst w)" using assms(1) by (simp_all add: course_def)
  show ?thesis using course_progressed [OF assms(1) starts_progress [OF _ i assms(2)]] by (auto simp del: aeach.simps)
qed

lemma process_due_yields:
  assumes "hypot_nonneg fl" "course fl maxima env0 c (fst w)"
  shows "yields (process_due fl depth until t w) (\<lambda>(t', w'). course fl maxima env0 c (fst w') \<and> next_due until (fst w') = None)"
proof -
  have i: "life_inv (fst w)" "world_sound maxima (fst w)" using assms(2) by (simp_all add: course_def)
  from process_due_returns [OF assms(1) i, of depth until t "snd w"] obtain r where r: "process_due fl depth until t w = Some r"
    and run: "\<And>t env' evs'. r = Inr (t, env', evs') \<Longrightarrow> progressed fl maxima (fst w) env' \<and> next_due until env' = None"
    by (auto simp: progressed_def)
  show ?thesis unfolding r using run course_progressed [OF assms(2)] by fastforce
qed

lemma tick_yields:
  assumes "course fl maxima env0 (c, f) (fst w)" "advance 1 c = Inr c'"
  shows "yields (Some (tick_clock w)) (\<lambda>w'. course fl maxima env0 (c', f) (fst w'))"
proof -
  let ?env = "(fst w)\<lparr>env_clock := c'\<rparr>"
  have q: "quiet (fst w) ?env" by (simp add: quiet_def entities_le_same)
  have i: "life_inv (fst w)" "world_sound maxima (fst w)" "env_clock (fst w) = c" "env_steps f64 (fl_hypot fl) env0 (fst w)"
    using assms(1) by (simp_all add: course_def background_def)
  have f: "fixed (fst w) = f" using assms(1) by (simp add: course_def background_def)
  have "clock_inv c'" using advance_inv [OF _ assms(2)] world_soundD(3) [OF i(2)] i(3) by simp
  then have "course fl maxima env0 (c', f) ?env"
    using i(2) life_inv_quiet [OF q i(1)] env_steps.more [OF i(4) env_step.executor_world [OF q]] f by (simp add: course_def world_sound_def background_def fixed_def)
  then show ?thesis by (simp add: tick_clock_def result_simps i(3) assms(2))
qed

lemma step_yields:
  assumes "hypot_nonneg fl" "life_inv env" "world_sound maxima env" "list_all decision_built decisions" "advance 1 (env_clock env) = Inr c'"
  shows "yields (step fl depth decisions truncated env) (\<lambda>(message, env'). course fl maxima env (c', fixed env) env' \<and> next_due (env_now env') env' = None)"
proof -
  have c0: "course fl maxima env (env_clock env, fixed env) env" using assms(2,3) by (simp add: course_def env_steps.none background_def)
  show ?thesis
    unfolding step_def
    apply (rule yields_obind [OF admit_yields [OF c0 assms(4)]], clarify)
    apply (rule yields_obind [OF starts_yield], assumption, assumption, clarify)
    apply (rule yields_obind [OF process_due_yields [OF assms(1)]], assumption, clarify)
    apply (rule yields_obind [OF tick_yields [OF _ assms(5)]], assumption)
    apply (rule yields_obind [OF process_due_yields [OF assms(1)]], assumption, clarify)
    apply (rule yields_obind [where P = "\<lambda>_. True"], simp)
    apply (simp add: course_def env_now_def background_def)
    done
qed

subsection \<open>Construction\<close>

definition pulses_built :: "entity_state \<Rightarrow> bool" where
  "pulses_built e \<longleftrightarrow> (\<forall>x \<in> set (en_effects e). list_all modifier_built (ae_modifiers (snd x)))"

text \<open>An entity a client can construct: it passed its checks, its maximums are floats, and the modifiers of its
  effects were built.\<close>

definition entity_built :: "entity_state \<Rightarrow> bool" where
  "entity_built e \<longleftrightarrow> valid_entity (en_maximums e) e \<and> pulses_built e"

definition fresh_sound :: "(string \<Rightarrow> (string \<times> rat) list) \<Rightarrow> environment \<Rightarrow> bool" where
  "fresh_sound maxima env \<longleftrightarrow> world_sound maxima env \<and> (\<forall>k e. map_of (env_entities env) k = Some e \<longrightarrow> pulses_built e)"

lemma fresh_sound_schedule:
  "schedule_new mk env = Inr env' \<Longrightarrow> (\<And>n. built_item (mk n)) \<Longrightarrow> fresh_sound maxima env \<Longrightarrow> fresh_sound maxima env'"
  using sound_schedule_new [of mk env env' maxima] schedule_new_Inr(1) [of mk env env'] by (auto simp: fresh_sound_def appends_def)

lemma initial_item_built:
  "built_item (initial_item entity_id storage active kind t n)"
  "action_binding_ok b = Inr () \<Longrightarrow> list_all effect_built es \<Longrightarrow>
   built_item ((initial_item entity_id storage active kind t n)\<lparr>it_binding := Some b, it_effects := es, it_periodic_key := p, it_pulse_index := i\<rparr>)"
  by (simp_all add: built_item_def initial_item_def work_item_def)

lemma fresh_sound_pulses:
  "initial_pulses entity_id storage active binding periodic_key interval_ms effects is env = Inr env' \<Longrightarrow> action_binding_ok binding = Inr ()
   \<Longrightarrow> list_all effect_built effects \<Longrightarrow> fresh_sound maxima env \<Longrightarrow> fresh_sound maxima env'"
proof (induction "is" arbitrary: env)
  case (Cons i "is")
  show ?case
  proof (cases "i * interval_ms > ae_expires_at_ms active")
    case False
    with Cons.prems(1) obtain env1 where s: "schedule_new (\<lambda>order. (initial_item entity_id storage active EFFECT_PULSE (i * interval_ms) order)
             \<lparr>it_binding := Some binding, it_effects := effects, it_periodic_key := Some periodic_key, it_pulse_index := i\<rparr>) env = Inr env1"
      and r: "initial_pulses entity_id storage active binding periodic_key interval_ms effects is env1 = Inr env'"
      by (auto simp: rbind_eq_Inr)
    have "fresh_sound maxima env1" by (rule fresh_sound_schedule [OF s initial_item_built(2) [OF Cons.prems(2,3)] Cons.prems(4)])
    with Cons.IH [OF r] Cons.prems(2,3) show ?thesis by blast
  qed (use Cons.prems in simp)
qed simp

lemma fresh_sound_modifiers:
  "initial_modifiers entity_id storage active binding ms env = Inr env' \<Longrightarrow> action_binding_ok binding = Inr ()
   \<Longrightarrow> list_all modifier_built ms \<Longrightarrow> fresh_sound maxima env \<Longrightarrow> fresh_sound maxima env'"
  by (induction entity_id storage active binding ms env rule: initial_modifiers.induct)
    (auto simp: rbind_eq_Inr dest: fresh_sound_pulses)

lemma identified_valid:
  assumes "effect_valid storage a"
  shows "effect_valid storage (a\<lparr>ae_instance_id := Some (''initial-effect-instance:'' @ t)\<rparr>)"
proof -
  have "nonblank ''initial-effect-instance:''" by code_simp
  then have "nonblank (''initial-effect-instance:'' @ t)" unfolding nonblank_append by (rule disjI1)
  with assms show ?thesis unfolding effect_valid_def effect_wf_def active_effect_ok_def rbind_eq_Inr optional_Inr py_identifier_Inr
    by (elim conjE) simp
qed

lemma fresh_sound_effect:
  assumes "schedule_initial_effect entity_id storage env = Inr env'" "fresh_sound maxima env"
  shows "fresh_sound maxima env'"
proof -
  from assms(1) obtain entity active0 where e: "map_of (env_entities env) entity_id = Some entity" and a: "map_of (en_effects entity) storage = Some active0"
    by (cases "map_of (env_entities env) entity_id"; cases "map_of (en_effects (the (map_of (env_entities env) entity_id))) storage")
      (auto simp: schedule_initial_effect_def entity_at_def)
  obtain active env1 where i: "identify_effect entity_id active0 env = (active, env1)" by (cases "identify_effect entity_id active0 env")
  let ?e2 = "put_entity entity_id (put_effect storage active entity) env1"
  from assms(1) e a i obtain binding env3 where b: "action_binding_ok binding = Inr ()"
    and m: "initial_modifiers entity_id storage active binding (ae_modifiers active) ?e2 = Inr env3"
    and s: "(if ae_expires_at_ms active = PERSISTENT_EXPIRY then Inr env3
      else schedule_new (initial_item entity_id storage active EFFECT_EXPIRY (ae_expires_at_ms active)) env3) = Inr env'"
    by (auto simp: schedule_initial_effect_def entity_at_def rbind_eq_Inr validated_Inr Let_def put_effect_def)
  have valid: "valid_entity (maxima entity_id) entity" and p: "pulses_built entity"
    using assms(2) e world_soundD(1) by (auto simp: fresh_sound_def)
  have v: "effect_valid storage active" and mods: "ae_modifiers active = ae_modifiers active0" and env1: "env1 = env \<or> env1 = snd (take_schedule_order env)"
    using i identified_valid valid_entityD(7) [OF valid a]
    by (auto simp: identify_effect_def split: if_splits prod.splits)
  have built: "list_all modifier_built (ae_modifiers active)" using p map_of_SomeD [OF a] by (force simp: mods pulses_built_def)
  have f1: "fresh_sound maxima env1" using env1 assms(2) by (auto simp: fresh_sound_def take_schedule_order_def)
  have "valid_entity (maxima entity_id) (put_effect storage active entity)" using put_effect_valid [OF v] valid by (simp add: keeps_valid_def)
  moreover have "pulses_built (put_effect storage active entity)"
    using p built by (auto simp: pulses_built_def put_effect_def dest!: in_update)
  ultimately have "fresh_sound maxima ?e2" using f1 by (simp add: fresh_sound_def sound_put_entity) (simp add: put_entity_def update_conv')
  then have f3: "fresh_sound maxima env3" by (rule fresh_sound_modifiers [OF m b built])
  show ?thesis
  proof (cases "ae_expires_at_ms active = PERSISTENT_EXPIRY")
    case False
    with s have "schedule_new (initial_item entity_id storage active EFFECT_EXPIRY (ae_expires_at_ms active)) env3 = Inr env'" by simp
    then show ?thesis by (rule fresh_sound_schedule [OF _ initial_item_built(1) f3])
  qed (use s f3 in simp)
qed

lemma canonical_valid:
  assumes "entity_built e"
  shows "clone e = Inr (canonical e)" "valid_entity (sort (en_maximums e)) (canonical e)" "pulses_built (canonical e)"
proof -
  have v: "entity_state_ok e = Inr ()" "entity_wf e" and p: "pulses_built e" and m: "\<forall>x \<in> set (en_maximums e). f64 (snd x) = snd x"
    using assms by (simp_all add: entity_built_def valid_entity_def)
  show "clone e = Inr (canonical e)" by (rule clone_canonical [OF v])
  show "valid_entity (sort (en_maximums e)) (canonical e)"
    using entity_state_ok_canonical [OF v] canonical_wf [OF v(2)] m by (simp add: valid_entity_def) (simp add: canonical_def)
  show "pulses_built (canonical e)" using p by (auto simp: pulses_built_def canonical_def)
qed

lemma new_environment_sound:
  assumes "new_environment rnd hypot catalog entities seed tick_duration directions positions last_team = Inr env"
    and "catalog_sound catalog" "list_all entity_built entities"
  shows "world_sound (\<lambda>k. sort (en_maximums (the (map_of (map (\<lambda>e. (en_entity_id e, e)) entities) k)))) env"
proof -
  let ?maxima = "\<lambda>k. sort (en_maximums (the (map_of (map (\<lambda>e. (en_entity_id e, e)) entities) k)))"
  from assms(1) obtain ps clock ds env1 s where d: "distinct (map en_entity_id entities)" and c: "new_clock tick_duration = Inr clock"
    and ps: "rmap (\<lambda>e. rbind (clone e) (\<lambda>c. Inr (en_entity_id e, c))) entities = Inr ps"
    and i: "schedule_initial_effects
          \<lparr>env_catalog = catalog, env_entities = dict_of ps, env_clock = clock, env_random = new_random seed 54,
           env_scheduled = [], env_executions = [], env_cancelled_tokens = {}, env_next_schedule_order = 0,
           env_next_event_number = 0, env_direction_candidates = ds, env_position_candidates = positions,
           env_terminate_on_last_team = last_team,
           env_initial_competing_teams = teams_of entities,
           env_initial_snapshot = None\<rparr> = Inr env1" (is "schedule_initial_effects ?e0 = _")
    and env: "env = env1\<lparr>env_initial_snapshot := Some s\<rparr>"
    unfolding new_environment_def by (auto simp: rbind_eq_Inr split: if_splits)
  have "rmap (\<lambda>e. rbind (clone e) (\<lambda>c. Inr (en_entity_id e, c))) entities = Inr (map (\<lambda>e. (en_entity_id e, canonical e)) entities)"
    using assms(3) canonical_valid(1) by (induction entities) (auto simp: result_simps)
  with ps have ps: "ps = map (\<lambda>e. (en_entity_id e, canonical e)) entities" by simp
  then have "dict_of ps = ps" using d by (simp add: dict_of_distinct comp_def)
  moreover have "valid_entity (?maxima k) e \<and> pulses_built e" if "map_of ps k = Some e" for k e
  proof -
    from map_of_SomeD [OF that] ps obtain e0 where e0: "e0 \<in> set entities" "k = en_entity_id e0" "e = canonical e0" by auto
    have "map_of (map (\<lambda>e. (en_entity_id e, e)) entities) k = Some e0" using d e0 by (simp add: comp_def)
    with e0 assms(3) canonical_valid show ?thesis by (simp add: list_all_iff)
  qed
  ultimately have "fresh_sound ?maxima ?e0"
    using assms(2) new_clock_inv [OF c] new_random_inv by (simp add: fresh_sound_def world_sound_def)
  moreover have "fresh_sound ?maxima s'"
    if "(\<lambda>(entity_id, entity). rfold (schedule_initial_effect entity_id) (sort (map fst (en_effects entity)))) p s = Inr s'" "fresh_sound ?maxima s" for p s s'
    using that rfold_keeps [of "schedule_initial_effect (fst p)" "fresh_sound ?maxima"] fresh_sound_effect by (auto simp: case_prod_unfold)
  ultimately have "fresh_sound ?maxima env1"
    using rfold_keeps [of "\<lambda>(entity_id, entity). rfold (schedule_initial_effect entity_id) (sort (map fst (en_effects entity)))" "fresh_sound ?maxima"] i
    unfolding schedule_initial_effects_def by blast
  then show ?thesis by (simp add: env fresh_sound_def world_sound_def)
qed

subsection \<open>Simulations\<close>

text \<open>The environments a client gets from one it constructed, and the environment it constructed.\<close>

inductive simulated :: "float_lib \<Rightarrow> nat \<Rightarrow> environment \<Rightarrow> environment \<Rightarrow> bool" for fl depth where
  created: "\<lbrakk>new_catalog actions = Inr catalog; list_all action_built actions; list_all entity_built entities;
    new_environment f64 (fl_hypot fl) catalog entities seed duration directions positions last_team = Inr env\<rbrakk>
    \<Longrightarrow> simulated fl depth env env"
| stepped: "\<lbrakk>simulated fl depth env0 env; list_all decision_built decisions; step fl depth decisions truncated env = Some (Inr (message, env'))\<rbrakk>
    \<Longrightarrow> simulated fl depth env0 env'"

text \<open>The maximums an entity had in the first environment.\<close>

definition first_maxima :: "environment \<Rightarrow> string \<Rightarrow> (string \<times> rat) list" where
  "first_maxima env k = (case map_of (env_entities env) k of None \<Rightarrow> [] | Some e \<Rightarrow> en_maximums e)"

lemma world_sound_first: "world_sound maxima env \<Longrightarrow> world_sound (first_maxima env) env"
  unfolding world_sound_def first_maxima_def by (metis option.simps(5) valid_entityD(3))

lemma step_course:
  assumes "step fl depth decisions truncated env = Some (Inr (message, env'))" "hypot_nonneg fl" "life_inv env" "world_sound maxima env"
    "list_all decision_built decisions"
  obtains c' where "advance 1 (env_clock env) = Inr c'" "course fl maxima env (c', fixed env) env'" "next_due (env_now env') env' = None"
proof -
  obtain c' where c: "advance 1 (env_clock env) = Inr c'" by (simp add: advance_def)
  from step_yields [OF assms(2-5) c, of depth truncated] show thesis by (intro that [OF c]) (simp_all add: assms(1))
qed

lemma simulated_inv:
  assumes "simulated fl depth env0 env" "hypot_nonneg fl"
  shows "env_reachable f64 (fl_hypot fl) env0" "life_inv env0" "env_steps f64 (fl_hypot fl) env0 env" "world_sound (first_maxima env0) env"
  using assms(1)
proof (induction rule: simulated.induct)
  case (created actions catalog entities seed duration directions positions last_team env)
  {
    case 1
    show ?case using created(4) env_steps.none unfolding env_reachable_def by blast
  next
    case 2
    show ?case by (rule new_environment_inv(1) [OF created(4)])
  next
    case 3
    show ?case by (rule env_steps.none)
  next
    case 4
    show ?case by (rule world_sound_first [OF new_environment_sound [OF created(4) new_catalog_sound [OF created(1,2)] created(3)]])
  }
next
  case (stepped env0 env decisions truncated message env')
  note l = env_steps_inv [OF stepped.IH(3,2), THEN conjunct1]
  from step_course [OF stepped.hyps(3) assms(2) l stepped.IH(4) stepped.hyps(2)]
  have c: "env_steps f64 (fl_hypot fl) env env' \<and> world_sound (first_maxima env0) env'" unfolding course_def by blast
  {
    case 1
    show ?case by (rule stepped.IH(1))
  next
    case 2
    show ?case by (rule stepped.IH(2))
  next
    case 3
    show ?case using c env_steps_trans [OF stepped.IH(3)] by blast
  next
    case 4
    show ?case using c by blast
  }
qed

lemma simulated_life: "simulated fl depth env0 env \<Longrightarrow> hypot_nonneg fl \<Longrightarrow> life_inv env"
  using simulated_inv(2,3) env_steps_inv by blast

subsection \<open>An example\<close>

text \<open>An actor with an effect that restores health once and then expires, within the first tick.\<close>

definition warded :: "string \<Rightarrow> entity_state" where
  "warded i = (fighter i)\<lparr>en_scalars := [(''health'', 90)], en_maximums := [(''health'', 100)],
     en_effects := [(''ward'', \<lparr>ae_effect_key = ''ward'', ae_source_entity_id = i, ae_magnitude = 1, ae_expires_at_ms = 150, ae_instance_id = None,
       ae_stacking_key = None, ae_tags = {},
       ae_modifiers = [PeriodicPulse ''mend'' 100 1 [RestoreResource SUBJECT_TARGET ''health'' (FixedAmount 20) False 0 None]],
       ae_modifier_values = [], ae_application_order = 0, ae_stack_order = 0, ae_trains = 0, ae_stack_priority = ALWAYS\<rparr>)]\<rparr>"

definition flat_lib :: float_lib where
  "flat_lib = \<lparr>fl_hypot = unit_hypot, fl_sum = (\<lambda>xs. f64 (sum_list xs))\<rparr>"

definition arena :: "environment result" where
  "arena = new_environment f64 unit_hypot strike_catalog [warded ''x''] 7 200 [\<lparr>vx = 1, vy = 0\<rparr>] [] False"

definition mended :: "environment \<Rightarrow> event_batch_message \<Rightarrow> environment \<Rightarrow> bool" where
  "mended env message env' \<longleftrightarrow> length (env_scheduled env) = 2
     \<and> map ev_kind (eb_events message) = [''effect_pulsed'', ''resource_restored'', ''effect_removed'']
     \<and> (case map_of (env_entities env') ''x'' of None \<Rightarrow> False | Some e \<Rightarrow> en_scalars e = [(''health'', 100)] \<and> en_maximums e = [(''health'', 100)])"

definition first_move :: decision_message where
  "first_move = (strike_by ''x'' ''c'')\<lparr>dm_observation_id := ''observation:0:x'', dm_affordance_id := ''affordance:0:x:0000''\<rparr>"

lemma flat_hypot: "fl_hypot flat_lib = unit_hypot" "hypot_nonneg flat_lib"
  by (simp_all add: flat_lib_def hypot_nonneg_def unit_hypot_def)

lemma strike_built: "action_built strike"
proof -
  have "ac_armed_trigger strike = None" by (simp add: strike_def example_action_def)
  moreover have "action_spec_ok strike = Inr ()
     \<and> (\<forall>p \<in> set (ac_phases strike). action_phase_ok p = Inr () \<and> delivery_spec_ok (ph_delivery p) = Inr () \<and> list_all effect_built (ph_effects p))
     \<and> (\<forall>c \<in> set (ac_costs strike). resource_cost_ok c = Inr ())" by code_simp
  ultimately show ?thesis by (simp add: action_built_def)
qed

lemma warded_built: "entity_built (warded i)" if "nonblank i"
proof -
  have "nonblank ''health''" "nonblank ''ward''" "nonblank ''life''" "nonblank ''a''" by code_simp+
  with that have "entity_state_ok (warded i) = Inr ()" "\<forall>x \<in> set (en_effects (warded i)). active_effect_ok (snd x) = Inr ()"
    by (simp_all add: entity_state_ok_Inr active_effect_ok_def result_simps warded_def fighter_def storage_key_def)
  moreover have "entity_wf (warded i)" if "\<forall>x \<in> set (en_effects (warded i)). active_effect_ok (snd x) = Inr ()"
    using that by (simp add: entity_wf_def effect_wf_def warded_def fighter_def)
  moreover have "f64 100 = 100" "modifier_built (PeriodicPulse ''mend'' 100 1 [RestoreResource SUBJECT_TARGET ''health'' (FixedAmount 20) False 0 None])"
    by code_simp+
  ultimately show ?thesis by (simp add: entity_built_def valid_entity_def pulses_built_def) (simp add: warded_def)
qed

lemma fighter_built: "entity_built (fighter i)" if "nonblank i"
proof -
  have "nonblank ''life''" "nonblank ''a''" by code_simp+
  with that have "entity_state_ok (fighter i) = Inr ()" by (simp add: entity_state_ok_Inr result_simps fighter_def)
  moreover have "entity_wf (fighter i)" by (simp add: entity_wf_def fighter_def)
  ultimately show ?thesis by (simp add: entity_built_def valid_entity_def pulses_built_def) (simp add: fighter_def)
qed

lemma lone_simulated:
  assumes "entity_built e" "new_environment f64 unit_hypot strike_catalog [e] 7 200 [\<lparr>vx = 1, vy = 0\<rparr>] [] False = Inr env"
  shows "simulated flat_lib depth env env"
proof -
  have c: "new_catalog [strike] = Inr strike_catalog" by code_simp
  have "list_all action_built [strike]" "list_all entity_built [e]" by (simp_all add: strike_built assms(1))
  then show ?thesis by (rule simulated.created [OF c _ _ assms(2) [folded flat_hypot(1)]])
qed

lemma arena_simulated: "arena = Inr env \<Longrightarrow> simulated flat_lib depth env env"
proof -
  have "nonblank ''x''" by code_simp
  then show "arena = Inr env \<Longrightarrow> simulated flat_lib depth env env" unfolding arena_def by (rule lone_simulated [OF warded_built])
qed

text \<open>The same arena for an actor without effects, which strikes in the first tick.\<close>

definition ring :: "environment result" where
  "ring = new_environment f64 unit_hypot strike_catalog [fighter ''x''] 7 200 [\<lparr>vx = 1, vy = 0\<rparr>] [] False"

lemma ring_simulated: "ring = Inr env \<Longrightarrow> simulated flat_lib depth env env"
proof -
  have "nonblank ''x''" by code_simp
  then show "ring = Inr env \<Longrightarrow> simulated flat_lib depth env env" unfolding ring_def by (rule lone_simulated [OF fighter_built])
qed

lemma arena_stepped:
  obtains env message env' where "arena = Inr env" "step flat_lib 2 [] False env = Some (Inr (message, env'))" "mended env message env'"
    "simulated flat_lib 2 env env" "simulated flat_lib 2 env env'"
proof -
  have "holds arena (\<lambda>env. case step flat_lib 2 [] False env of Some (Inr (message, env')) \<Rightarrow> mended env message env' | _ \<Rightarrow> False)" by code_simp
  from holdsE [OF this] obtain env where a: "arena = Inr env"
    and "case step flat_lib 2 [] False env of Some (Inr (message, env')) \<Rightarrow> mended env message env' | _ \<Rightarrow> False" by blast
  then obtain message env' where s: "step flat_lib 2 [] False env = Some (Inr (message, env'))" and m: "mended env message env'"
    by (auto split: option.splits sum.splits)
  note e = arena_simulated [OF a]
  show thesis by (rule that [OF a s m e simulated.stepped [OF e _ s]]) simp
qed

subsection \<open>Properties\<close>

text \<open>C4: The detailed simulator refines the abstract lifecycle: every environment a client gets from one it constructed,
  by steps with arbitrary decisions, is reached by a run of lifecycle steps, so that everything proved of reachable
  environments holds of it.\<close>

theorem simulation_refines_lifecycle:
  assumes "simulated fl depth env0 env" "hypot_nonneg fl"
  shows "env_steps f64 (fl_hypot fl) env0 env \<and> env_reachable f64 (fl_hypot fl) env"
  using simulated_inv(1,3) [OF assms] env_steps_trans unfolding env_reachable_def by blast

theorem simulation_refines_lifecycle_witness:
  "\<exists>env0 message env. mended env0 message env \<and> env_steps f64 unit_hypot env0 env \<and> env_reachable f64 unit_hypot env"
  by (rule arena_stepped) (use simulation_refines_lifecycle [OF _ flat_hypot(2), unfolded flat_hypot(1)] in blast)

text \<open>C2: A step always returns, whatever the decisions: the loop over due work ends, although the work it does
  schedules more work.\<close>

theorem step_returns:
  assumes "simulated fl depth env0 env" "hypot_nonneg fl" "list_all decision_built decisions"
  shows "\<exists>r. step fl depth decisions truncated env = Some r"
proof -
  obtain c' where "advance 1 (env_clock env) = Inr c'" by (simp add: advance_def)
  from step_yields [OF assms(2) simulated_life [OF assms(1,2)] simulated_inv(4) [OF assms(1,2)] assms(3) this, of depth truncated]
  show ?thesis by (auto simp: yields_def)
qed

theorem step_returns_witness:
  "\<exists>env. arena = Inr env \<and> (\<exists>r. step flat_lib 2 [first_move] True env = Some r)"
proof -
  have d: "list_all decision_built [first_move]" by code_simp
  show ?thesis by (rule arena_stepped) (use step_returns [OF _ flat_hypot(2) d] in blast)
qed

text \<open>C5: A step that returns a batch of events has moved the clock by exactly one tick, and no work that is due by
  the new time is left on the schedule.\<close>

theorem step_settles:
  assumes "simulated fl depth env0 env" "hypot_nonneg fl" "list_all decision_built decisions"
    and "step fl depth decisions truncated env = Some (Inr (message, env'))"
  shows "tick (env_clock env') = tick (env_clock env) + 1 \<and> env_now env' = env_now env + tick_duration_ms (env_clock env)
    \<and> (\<forall>it \<in> set (env_scheduled env'). env_now env' < it_due_time_ms it)"
proof -
  from step_course [OF assms(4,2) simulated_life [OF assms(1,2)] simulated_inv(4) [OF assms(1,2)] assms(3)]
  obtain c' where "advance 1 (env_clock env) = Inr c'" "course fl (first_maxima env0) env (c', fixed env) env'" "next_due (env_now env') env' = None" by blast
  then show ?thesis by (auto simp: next_due_None course_def background_def advance_def env_now_def split: if_splits)
qed

theorem step_settles_witness:
  "\<exists>env message env'. mended env message env' \<and> tick (env_clock env') = tick (env_clock env) + 1
     \<and> (\<forall>it \<in> set (env_scheduled env'). env_now env' < it_due_time_ms it)"
proof (rule arena_stepped)
  fix env message env' assume "step flat_lib 2 [] False env = Some (Inr (message, env'))" "mended env message env'" "simulated flat_lib 2 env env"
  with step_settles [OF _ flat_hypot(2), of 2 env env "[]" False message env'] show ?thesis by auto
qed

text \<open>C11: Actions keep to their timeline: after every step of a simulation whose entity names contain no colon, each unfinished action of
  a living actor is in a phase that ends after the present, and the schedule holds the valid item, due at that end, which
  will complete it or move it into its next phase.\<close>

theorem actions_on_time:
  assumes "simulated fl depth env0 env" "hypot_nonneg fl" "colon_free env0" "list_all decision_built decisions"
    and "step fl depth decisions truncated env = Some (Inr (message, env'))"
    and "map_of (env_executions env') k = Some x" "\<not> is_terminal x" "alive_in env' x"
  shows "env_now env' < ex_phase_ends_at_ms x
    \<and> (\<exists>a. catalog_get (env_catalog env') (ex_action_key x) = Inr a
      \<and> (\<exists>item \<in> set (env_scheduled env'). scheduled_item_is_valid env' item \<and> it_due_time_ms item = ex_phase_ends_at_ms x
          \<and> (it_actor_id item, it_correlation_id item) = k
          \<and> it_kind item = (if ex_phase_index x + 1 < int (length (ac_phases a)) then PHASE_TRANSITION else COMPLETION)))"
proof -
  from step_course [OF assms(5,2) simulated_life [OF assms(1,2)] simulated_inv(4) [OF assms(1,2)] assms(4)]
  have due: "next_due (env_now env') env' = None" by blast
  have s': "simulated fl depth env0 env'" by (rule simulated.stepped [OF assms(1,4,5)])
  note i = simulated_inv [OF s' assms(2)] and life = simulated_life [OF s' assms(2)]
  have r: "env_reachable f64 (fl_hypot fl) env'" using i(1,3) env_steps_trans unfolding env_reachable_def by blast
  have c: "colon_free env'" using env_steps_inv [OF i(3,2)] colon_free_evolves assms(3) by blast
  from env_reachable_progress [OF r c] assms(6-8) obtain item a where item: "item \<in> set (env_scheduled env')"
    "catalog_get (env_catalog env') (ex_action_key x) = Inr a" "advances item a x"
    unfolding progress_inv_def pending_advance_def by blast
  have v: "scheduled_item_is_valid env' item" by (rule advance_valid [OF life c assms(6-8) item(3)])
  have k: "(it_actor_id item, it_correlation_id item) = k" "it_due_time_ms item = ex_phase_ends_at_ms x"
    "it_kind item = (if ex_phase_index x + 1 < int (length (ac_phases a)) then PHASE_TRANSITION else COMPLETION)"
    using item(3) keyed_execution [OF life_invD(1) [OF life] assms(6)] by (simp_all add: advances_def)
  have "env_now env' < it_due_time_ms item" using due item(1) by (simp add: next_due_None)
  with item(1,2) v k show ?thesis by (auto simp: k(2))
qed

definition striking :: "environment \<Rightarrow> bool" where
  "striking env \<longleftrightarrow> map fst (env_entities env) = [''x''] \<and> env_now env = 200
     \<and> (case map_of (env_executions env) (''x'', ''c'') of None \<Rightarrow> False
        | Some x \<Rightarrow> \<not> is_terminal x \<and> ex_actor_entity_id x = ''x''
            \<and> (case map_of (env_entities env) ''x'' of None \<Rightarrow> False | Some e \<Rightarrow> en_alive e \<and> en_life_id e = ex_actor_life_id x))"

theorem actions_on_time_witness:
  "\<exists>env message env' x. ring = Inr env \<and> step flat_lib 2 [first_move] False env = Some (Inr (message, env'))
     \<and> map_of (env_executions env') (''x'', ''c'') = Some x \<and> 200 < ex_phase_ends_at_ms x"
proof -
  have "holds ring (\<lambda>env. map fst (env_entities env) = [''x'']
      \<and> (case step flat_lib 2 [first_move] False env of Some (Inr (message, env')) \<Rightarrow> striking env' | _ \<Rightarrow> False))" by code_simp
  from holdsE [OF this] obtain env where e: "ring = Inr env \<and> map fst (env_entities env) = [''x'']
      \<and> (case step flat_lib 2 [first_move] False env of Some (Inr (message, env')) \<Rightarrow> striking env' | _ \<Rightarrow> False)" by (rule exE)
  note a = conjunct1 [OF e] conjunct1 [OF conjunct2 [OF e]]
  from conjunct2 [OF conjunct2 [OF e]] obtain message env' where s: "step flat_lib 2 [first_move] False env = Some (Inr (message, env'))" and m: "striking env'"
    by (auto split: option.splits sum.splits)
  from m obtain x where x: "map_of (env_executions env') (''x'', ''c'') = Some x" "\<not> is_terminal x" "alive_in env' x" "env_now env' = 200"
    by (auto simp: striking_def alive_in_def split: option.splits)
  have d: "list_all decision_built [first_move]" by code_simp
  have "colon_free env" using a(2) by (simp add: colon_free_def dom_map_of_conv_image_fst flip: set_map)
  from actions_on_time [OF ring_simulated [OF a(1)] flat_hypot(2) this d s x(1-3)] x(1,4) a(1) s show ?thesis by auto
qed

text \<open>C1: Entities stay valid forever: an entity keeps its identity, life, maximums and actions, never comes back to life, and in
  every state no resource exceeds its maximum, no inventory count is negative, and every active effect is
  stored under its own key with the counters of its modifiers.\<close>

theorem entities_stay_valid:
  assumes "simulated fl depth env0 env" "hypot_nonneg fl" "map_of (env_entities env) k = Some e"
  shows "(\<exists>e0. map_of (env_entities env0) k = Some e0 \<and> en_entity_id e = en_entity_id e0 \<and> en_life_id e = en_life_id e0
      \<and> (en_alive e \<longrightarrow> en_alive e0) \<and> en_maximums e = en_maximums e0 \<and> en_action_keys e = en_action_keys e0)
    \<and> (\<forall>key m v. map_of (en_maximums e) key = Some m \<longrightarrow> map_of (en_scalars e) key = Some v \<longrightarrow> v \<le> m)
    \<and> (\<forall>item n. map_of (en_inventory e) item = Some n \<longrightarrow> 0 \<le> n)
    \<and> (\<forall>storage a. map_of (en_effects e) storage = Some a \<longrightarrow>
      storage = storage_key (ae_stacking_key a) (ae_effect_key a) \<and> fst ` set (ae_modifier_values a) = state_keys (ae_modifiers a))"
proof (intro conjI)
  note i = simulated_inv [OF assms(1,2)]
  have v: "valid_entity (first_maxima env0 k) e" by (rule world_soundD(1) [OF i(4) assms(3)])
  have le: "entities_le env0 env" using env_steps_inv [OF i(3,2)] evolvesD(3) by blast
  from le assms(3) obtain e0 where e0: "map_of (env_entities env0) k = Some e0"
    and "same_life e0 e" by (rule entities_le_same_life)
  with valid_entityD(3) [OF v] show "\<exists>e0. map_of (env_entities env0) k = Some e0 \<and> en_entity_id e = en_entity_id e0 \<and> en_life_id e = en_life_id e0
      \<and> (en_alive e \<longrightarrow> en_alive e0) \<and> en_maximums e = en_maximums e0 \<and> en_action_keys e = en_action_keys e0" by (simp add: first_maxima_def same_life_def)
  show "\<forall>key m v. map_of (en_maximums e) key = Some m \<longrightarrow> map_of (en_scalars e) key = Some v \<longrightarrow> v \<le> m"
    using valid_entityD(6) [OF v] valid_entityD(3) [OF v] by simp
  show "\<forall>item n. map_of (en_inventory e) item = Some n \<longrightarrow> 0 \<le> n" using valid_entityD(8) [OF v] by simp
  show "\<forall>storage a. map_of (en_effects e) storage = Some a \<longrightarrow>
      storage = storage_key (ae_stacking_key a) (ae_effect_key a) \<and> fst ` set (ae_modifier_values a) = state_keys (ae_modifiers a)"
    using valid_entityD(7) [OF v] unfolding effect_valid_def active_effect_ok_def rbind_eq_Inr checks_eq_Inr by simp
qed

theorem entities_stay_valid_witness:
  "\<exists>env message env' e. mended env message env' \<and> map_of (env_entities env') ''x'' = Some e \<and> map_of (en_maximums e) ''health'' = Some 100
     \<and> (\<exists>e0. map_of (env_entities env) ''x'' = Some e0 \<and> en_maximums e = en_maximums e0)"
proof (rule arena_stepped)
  fix env message env' assume s: "mended env message env'" "simulated flat_lib 2 env env" "simulated flat_lib 2 env env'"
  then obtain e where e: "map_of (env_entities env') ''x'' = Some e" "en_scalars e = [(''health'', 100)]" "en_maximums e = [(''health'', 100)]"
    by (auto simp: mended_def split: option.splits)
  from entities_stay_valid [OF s(3) flat_hypot(2) e(1)] obtain e0 where
    e0: "map_of (env_entities env) ''x'' = Some e0" "en_maximums e = en_maximums e0" by blast
  from e(3) have "map_of (en_maximums e) ''health'' = Some 100" by simp
  with s(1) e(1) e0 show ?thesis by blast
qed

end
