(* ===== verification/Snapshot_Restore.thy ===== *)
theory Snapshot_Restore
  imports Simulation
begin

text \<open>
  Saving and restoring an environment (\<^verbatim>\<open>sim/environment.py\<close>: \<open>snapshot\<close>, \<open>restore\<close> and \<open>reset\<close>). The snapshot of
  a sound environment is accepted by every environment with the same catalog and tick, which then has that very
  snapshot; and what a reset gives depends only on the environment the client constructed, so every episode
  starts alike.
\<close>

subsection \<open>Restorable environments\<close>

text \<open>What a restored environment is: the saved state with its dictionaries and its schedule sorted, in the frame of
  the environment it is restored into.\<close>

definition restored :: "environment \<Rightarrow> environment \<Rightarrow> environment" where
  "restored saved env =
     env\<lparr>env_clock := env_clock saved, env_random := env_random saved,
       env_entities := map (\<lambda>(k, e). (k, canonical e)) (sort_key fst (env_entities saved)),
       env_scheduled := sort_key scheduled_key (env_scheduled saved), env_executions := sort_key fst (env_executions saved),
       env_cancelled_tokens := env_cancelled_tokens saved, env_next_schedule_order := env_next_schedule_order saved,
       env_next_event_number := env_next_event_number saved\<rparr>"

text \<open>Every action an entity has is in the catalog, and the entities are a dictionary.\<close>

definition equipped :: "environment \<Rightarrow> bool" where
  "equipped env \<longleftrightarrow> distinct (map fst (env_entities env))
     \<and> (\<forall>k e. map_of (env_entities env) k = Some e \<longrightarrow> (\<forall>a \<in> set (en_action_keys e). \<exists>spec. catalog_get (env_catalog env) a = Inr spec))"

lemma equipped_evolves:
  assumes "equipped env" "evolves env env'"
  shows "equipped env'"
  unfolding equipped_def
proof (intro conjI allI impI ballI)
  note v = evolvesD(2,3) [OF assms(2)]
  show "distinct (map fst (env_entities env'))" using assms(1) v(2) by (simp add: equipped_def entities_le_def)
  fix k e a assume "map_of (env_entities env') k = Some e" "a \<in> set (en_action_keys e)"
  moreover from entities_le_same_life [OF v(2) this(1)] obtain e0
    where "map_of (env_entities env) k = Some e0" "en_action_keys e = en_action_keys e0" unfolding same_life_def by metis
  ultimately show "\<exists>spec. catalog_get (env_catalog env') a = Inr spec" using assms(1) unfolding equipped_def v(1) by metis
qed

lemma validate_entity_actions_Inr:
  "validate_entity_actions catalog entities = Inr () \<longleftrightarrow>
   (\<forall>e \<in> set entities. \<forall>a \<in> set (en_action_keys e). \<exists>spec. catalog_get catalog a = Inr spec)"
proof -
  have "(case r of Inl (KeyError m) \<Rightarrow> Inl e' | Inl err \<Rightarrow> Inl err | Inr a \<Rightarrow> Inr ()) = Inr () \<longleftrightarrow> (\<exists>spec. r = Inr spec)"
    for r :: "action_spec result" and e' by (cases r rule: sum.exhaust; simp split: py_error.split)
  then show ?thesis by (simp add: validate_entity_actions_def riter_eq_Inr)
qed

lemma tokens_finite: "life_inv env \<Longrightarrow> finite (env_cancelled_tokens env)"
proof -
  assume i: "life_inv env"
  have "env_cancelled_tokens env \<subseteq> ex_cancel_token ` ran (map_of (env_executions env))"
    using life_invD(5) [OF i] by (force simp: ran_def)
  then show ?thesis using finite_ran [OF finite_dom_map_of] finite_surj by blast
qed

lemma random_inv_snapshot: "random_inv r \<Longrightarrow> random_snapshot r = Inr r"
  by (simp add: random_snapshot_def random_snapshot_ok_def random_inv_def MASK_64_mask mask_eq_exp_minus_1 odd_iff_mod_2_eq_one)

lemma snapshot_sound:
  assumes "world_sound maxima env"
  shows "snapshot_environment env = Inr
    \<lparr>sv_clock = env_clock env, sv_random = env_random env,
     sv_entities = map (\<lambda>(k, e). snapshot_entity e) (sort_key fst (env_entities env)),
     sv_scheduled = sort_key scheduled_key (env_scheduled env),
     sv_next_schedule_order = env_next_schedule_order env, sv_next_event_number = env_next_event_number env,
     sv_executions = map (\<lambda>(k, x). execution_snapshot x) (sort_key fst (env_executions env)),
     sv_cancelled_tokens = sorted_list_of_set (env_cancelled_tokens env)\<rparr>"
  using clock_inv_snapshot [OF world_soundD(3) [OF assms]] random_inv_snapshot [OF world_soundD(2) [OF assms]]
  by (simp add: snapshot_environment_def)

lemma entities_restored:
  assumes "world_sound maxima env" "distinct (map fst (env_entities env))"
  shows "rmap entity_from_snapshot (map (\<lambda>(k, e). snapshot_entity e) (sort_key fst (env_entities env)))
    = Inr (map (\<lambda>(k, e). canonical e) (sort_key fst (env_entities env)))"
proof (rule rmap_map_Inr)
  fix p assume "p \<in> set (sort_key fst (env_entities env))"
  then obtain k e where p: "p = (k, e)" and "(k, e) \<in> set (env_entities env)" by (metis prod.exhaust set_sort)
  then have "map_of (env_entities env) k = Some e" using assms(2) by simp
  from world_soundD(1) [OF assms(1) this] have "entity_state_ok e = Inr ()" "entity_wf e" by (simp_all add: valid_entity_def)
  from clone_canonical [OF this]
  show "entity_from_snapshot (case p of (k, e) \<Rightarrow> snapshot_entity e) = Inr (case p of (k, e) \<Rightarrow> canonical e)" by (simp add: p clone_def)
qed

lemma executions_restored:
  assumes "world_sound maxima env" "keyed env"
  shows "rmap (\<lambda>xs. rbind (execution_from_snapshot xs) (\<lambda>x. Inr ((xs_actor_entity_id xs, xs_correlation_id xs), x)))
      (map (\<lambda>(k, x). execution_snapshot x) (sort_key fst (env_executions env))) = Inr (map (\<lambda>p. p) (sort_key fst (env_executions env)))"
proof (rule rmap_map_Inr)
  fix p assume "p \<in> set (sort_key fst (env_executions env))"
  then obtain k x where p: "p = (k, x)" and "(k, x) \<in> set (env_executions env)" by (metis prod.exhaust set_sort)
  then have x: "map_of (env_executions env) k = Some x" using assms(2) by (simp add: keyed_def)
  from world_soundD(6) [OF assms(1) x] have "execution_from_snapshot (execution_snapshot x) = Inr x"
    by (simp add: execution_sound_def execution_from_snapshot_exact)
  with keyed_execution [OF assms(2) x]
  show "(\<lambda>xs. rbind (execution_from_snapshot xs) (\<lambda>x. Inr ((xs_actor_entity_id xs, xs_correlation_id xs), x)))
      (case p of (k, x) \<Rightarrow> execution_snapshot x) = Inr p" by (simp add: p execution_snapshot_def)
qed

lemma restore_snapshot:
  assumes "world_sound maxima saved" "life_inv saved" "equipped saved" "snapshot_environment saved = Inr s"
    and "env_catalog env = env_catalog saved" "tick_duration_ms (env_clock env) = tick_duration_ms (env_clock saved)"
  shows "environment_restore s env = Inr (restored saved env)"
proof -
  let ?es = "sort_key fst (env_entities saved)"
  let ?cs = "map (\<lambda>(k, e). canonical e) ?es"
  have d: "distinct (map fst ?es)" using assms(3) by (simp add: equipped_def distinct_map_sort_key)
  have e: "en_entity_id e = k" and a: "\<forall>a \<in> set (en_action_keys e). \<exists>spec. catalog_get (env_catalog env) a = Inr spec"
    if "(k, e) \<in> set ?es" for k e
  proof -
    from that assms(3) have "map_of (env_entities saved) k = Some e" by (simp add: equipped_def)
    with assms(3) keyed_entity [OF life_invD(1) [OF assms(2)]] show "en_entity_id e = k"
      "\<forall>a \<in> set (en_action_keys e). \<exists>spec. catalog_get (env_catalog env) a = Inr spec" by (auto simp: equipped_def assms(5))
  qed
  have ids: "map (\<lambda>e. (en_entity_id e, e)) ?cs = map (\<lambda>(k, e). (k, canonical e)) ?es"
    using e by (auto simp: canonical_def)
  have "map en_entity_id ?cs = map fst ?es" using e by (auto simp: canonical_def)
  with d have dc: "distinct (map en_entity_id ?cs)" by (simp only:)
  have de: "dict_of (map (\<lambda>(k, e). (k, canonical e)) ?es) = map (\<lambda>(k, e). (k, canonical e)) ?es"
    by (rule dict_of_distinct) (use d in \<open>simp add: case_prod_unfold comp_def\<close>)
  have dx: "dict_of (sort_key fst (env_executions saved)) = sort_key fst (env_executions saved)"
    by (rule dict_of_distinct) (use life_invD(1) [OF assms(2)] in \<open>simp add: keyed_def distinct_map_sort_key\<close>)
  have "validate_entity_actions (env_catalog env) ?cs = Inr ()"
    unfolding validate_entity_actions_Inr using a by (auto simp: canonical_def)
  moreover have "clock_restore (env_clock saved) (env_clock env) = Inr (env_clock saved)"
    using assms(6) by (simp add: clock_restore_def)
  moreover have "random_restore (env_random saved) (env_random env) = env_random saved" by (simp add: random_restore_def)
  moreover note entities_restored [OF assms(1)] executions_restored [OF assms(1) life_invD(1) [OF assms(2)]] tokens_finite [OF assms(2)]
  ultimately show ?thesis
    using assms(3,4) dc de dx
    unfolding snapshot_sound [OF assms(1)] environment_restore_def Let_def restored_def equipped_def
    by (auto simp: ids simp del: map_map)
qed

lemma restored_snapshot:
  assumes "world_sound maxima saved"
  shows "snapshot_environment (restored saved env) = snapshot_environment saved"
proof -
  have "sort_key fst (map (\<lambda>(k, e). (k, canonical e)) (sort_key fst (env_entities saved)))
      = map (\<lambda>(k, e). (k, canonical e)) (sort_key fst (env_entities saved))"
    by (simp add: sort_key_map case_prod_unfold)
  then show ?thesis
    unfolding snapshot_environment_def restored_def by (simp add: case_prod_unfold comp_def canonical_snapshot_same)
qed

subsection \<open>Simulated environments are restorable\<close>

lemma evolves_refl [simp]: "evolves env env"
  by (rule evolves_quiet) simp

lemma evolves_schedule_new: "schedule_new mk env = Inr env' \<Longrightarrow> evolves env env'"
  using schedule_new_Inr(1) evolves_appends by metis

lemma evolves_pulses:
  "initial_pulses entity_id storage active binding periodic_key interval_ms effects is env = Inr env' \<Longrightarrow> evolves env env'"
  by (induction "is" arbitrary: env) (auto simp: rbind_eq_Inr split: if_splits intro: evolves_trans dest!: evolves_schedule_new)

lemma evolves_modifiers: "initial_modifiers entity_id storage active binding ms env = Inr env' \<Longrightarrow> evolves env env'"
  by (induction entity_id storage active binding ms env rule: initial_modifiers.induct)
    (auto simp: rbind_eq_Inr intro: evolves_trans dest!: evolves_pulses)

lemma evolves_initial_effect:
  assumes "schedule_initial_effect entity_id storage env = Inr env'"
  shows "evolves env env'"
proof -
  from assms obtain entity active0 where e: "map_of (env_entities env) entity_id = Some entity" and a: "map_of (en_effects entity) storage = Some active0"
    by (cases "map_of (env_entities env) entity_id"; cases "map_of (en_effects (the (map_of (env_entities env) entity_id))) storage")
      (auto simp: schedule_initial_effect_def entity_at_def)
  obtain active env1 where i: "identify_effect entity_id active0 env = (active, env1)" by (cases "identify_effect entity_id active0 env")
  let ?e2 = "put_entity entity_id (entity\<lparr>en_effects := AList.update storage active (en_effects entity)\<rparr>) env1"
  from assms e a i obtain binding env3 where m: "initial_modifiers entity_id storage active binding (ae_modifiers active) ?e2 = Inr env3"
    and s: "(if ae_expires_at_ms active = PERSISTENT_EXPIRY then Inr env3
      else schedule_new (initial_item entity_id storage active EFFECT_EXPIRY (ae_expires_at_ms active)) env3) = Inr env'"
    by (auto simp: schedule_initial_effect_def entity_at_def rbind_eq_Inr Let_def)
  have "env_entities env1 = env_entities env" "evolves env env1"
    using i by (auto simp: identify_effect_def take_schedule_order_def entities_le_same intro: evolves_same split: if_splits prod.splits)
  moreover from this(1) e have "quiet env1 ?e2" by (intro quiet_put_entity) (auto simp: same_life_def)
  moreover have "evolves env3 env'" using s evolves_schedule_new by (auto split: if_splits)
  ultimately show ?thesis using evolves_quiet evolves_modifiers [OF m] evolves_trans by metis
qed

lemma equipped_initial_effect: "schedule_initial_effect entity_id storage env = Inr env' \<Longrightarrow> equipped env \<Longrightarrow> equipped env'"
  by (rule equipped_evolves [OF _ evolves_initial_effect])

lemma new_environment_start:
  assumes "new_environment rnd hypot catalog entities seed tick_duration directions positions last_team = Inr env"
    and "list_all entity_built entities"
  obtains s where "equipped env" "env_initial_snapshot env = Some s" "snapshot_environment env = Inr s"
proof -
  from assms(1) obtain ps clock ds env1 s where d: "distinct (map en_entity_id entities)" and v: "validate_entity_actions catalog entities = Inr ()"
    and ps: "rmap (\<lambda>e. rbind (clone e) (\<lambda>c. Inr (en_entity_id e, c))) entities = Inr ps"
    and i: "schedule_initial_effects
          \<lparr>env_catalog = catalog, env_entities = dict_of ps, env_clock = clock, env_random = new_random seed 54,
           env_scheduled = [], env_executions = [], env_cancelled_tokens = {}, env_next_schedule_order = 0,
           env_next_event_number = 0, env_direction_candidates = ds, env_position_candidates = positions,
           env_terminate_on_last_team = last_team,
           env_initial_competing_teams = teams_of entities,
           env_initial_snapshot = None\<rparr> = Inr env1" (is "schedule_initial_effects ?e0 = _")
    and s: "snapshot_environment env1 = Inr s" and env: "env = env1\<lparr>env_initial_snapshot := Some s\<rparr>"
    unfolding new_environment_def by (auto simp: rbind_eq_Inr split: if_splits)
  have "rmap (\<lambda>e. rbind (clone e) (\<lambda>c. Inr (en_entity_id e, c))) entities = Inr (map (\<lambda>e. (en_entity_id e, canonical e)) entities)"
    using assms(2) canonical_valid(1) by (induction entities) (auto simp: result_simps)
  with ps have ps: "ps = map (\<lambda>e. (en_entity_id e, canonical e)) entities" by simp
  then have "dict_of ps = ps" using d by (simp add: dict_of_distinct comp_def)
  moreover have "\<exists>spec. catalog_get catalog a = Inr spec" if "map_of ps k = Some e" "a \<in> set (en_action_keys e)" for k e a
    using map_of_SomeD [OF that(1)] that(2) v unfolding ps validate_entity_actions_Inr by (auto simp: canonical_def)
  ultimately have "equipped ?e0" using d by (auto simp: equipped_def ps comp_def)
  moreover have "equipped s'"
    if "(\<lambda>(entity_id, entity). rfold (schedule_initial_effect entity_id) (sort (map fst (en_effects entity)))) p s = Inr s'" "equipped s" for p s s'
    using that rfold_keeps [of "schedule_initial_effect (fst p)" equipped, OF equipped_initial_effect] by (auto simp: case_prod_unfold)
  ultimately have "equipped env1"
    using rfold_keeps [of "\<lambda>(entity_id, entity). rfold (schedule_initial_effect entity_id) (sort (map fst (en_effects entity)))" equipped] i
    unfolding schedule_initial_effects_def by blast
  with s show thesis by (intro that) (simp_all add: env equipped_def snapshot_environment_def)
qed

lemma simulated_start:
  assumes "simulated fl depth env0 env" "hypot_nonneg fl"
  obtains s where "equipped env0" "snapshot_environment env0 = Inr s" "env_initial_snapshot env0 = Some s" "fixed env = fixed env0"
    "tick_duration_ms (env_clock env) = tick_duration_ms (env_clock env0)"
proof -
  have "\<exists>s. equipped env0 \<and> snapshot_environment env0 = Inr s \<and> env_initial_snapshot env0 = Some s \<and> fixed env = fixed env0
    \<and> tick_duration_ms (env_clock env) = tick_duration_ms (env_clock env0)"
    using assms(1)
  proof (induction rule: simulated.induct)
    case (created actions catalog entities seed duration directions positions last_team env)
    then show ?case using new_environment_start [OF created(4,3)] by metis
  next
    case (stepped env0 env decisions truncated message env')
    from step_course [OF stepped.hyps(3) assms(2) simulated_life [OF stepped.hyps(1) assms(2)] simulated_inv(4) [OF stepped.hyps(1) assms(2)] stepped.hyps(2)]
    obtain c' where c: "advance 1 (env_clock env) = Inr c'" "background env' = (c', fixed env)" unfolding course_def by blast
    then have "tick_duration_ms (env_clock env') = tick_duration_ms (env_clock env)" "fixed env' = fixed env"
      by (auto simp: advance_def background_def)
    with stepped.IH show ?case by simp
  qed
  with that show thesis by blast
qed

lemma simulated_equipped: "simulated fl depth env0 env \<Longrightarrow> hypot_nonneg fl \<Longrightarrow> equipped env"
  using simulated_start simulated_inv(2,3) env_steps_inv equipped_evolves by metis

lemma simulated_catalog: "simulated fl depth env0 env \<Longrightarrow> hypot_nonneg fl \<Longrightarrow> env_catalog env = env_catalog env0"
  using simulated_inv(2,3) env_steps_inv evolvesD(2) by metis

lemma simulated_restore:
  assumes "simulated fl depth env0 env1" "simulated fl depth env0 env2" "hypot_nonneg fl" "snapshot_environment env1 = Inr s"
  shows "environment_restore s env2 = Inr (restored env1 env2)" "snapshot_environment (restored env1 env2) = Inr s"
proof -
  note w = simulated_inv(4) [OF assms(1,3)]
  have "env_catalog env2 = env_catalog env1" using simulated_catalog [OF assms(1,3)] simulated_catalog [OF assms(2,3)] by simp
  moreover have "tick_duration_ms (env_clock env2) = tick_duration_ms (env_clock env1)"
    using simulated_start [OF assms(1,3)] simulated_start [OF assms(2,3)] by metis
  ultimately show "environment_restore s env2 = Inr (restored env1 env2)"
    by (rule restore_snapshot [OF w simulated_life [OF assms(1,3)] simulated_equipped [OF assms(1,3)] assms(4)])
  show "snapshot_environment (restored env1 env2) = Inr s" by (simp add: restored_snapshot [OF w] assms(4))
qed

lemma restored_content:
  assumes "world_sound maxima saved" "life_inv saved" "equipped saved"
  shows "map_of (env_entities (restored saved env)) k = map_option canonical (map_of (env_entities saved) k)"
    "map_of (env_executions (restored saved env)) = map_of (env_executions saved)"
    "mset (env_scheduled (restored saved env)) = mset (env_scheduled saved)"
  using assms(3) life_invD(1) [OF assms(2)]
  by (simp_all add: restored_def map_of_map map_of_sort_key equipped_def keyed_def)

lemma simulated_same_start:
  assumes "simulated fl depth env0 env1" "simulated fl depth env0 env2" "hypot_nonneg fl"
  shows "restored env0 env1 = restored env0 env2"
proof -
  have "fixed env1 = fixed env2" using simulated_start [OF assms(1,3)] simulated_start [OF assms(2,3)] by metis
  moreover have "env_catalog env1 = env_catalog env2" using simulated_catalog [OF assms(1,3)] simulated_catalog [OF assms(2,3)] by simp
  ultimately show ?thesis by (simp add: restored_def fixed_def)
qed

lemma simulated_first: "simulated fl depth env0 env \<Longrightarrow> simulated fl depth env0 env0"
  by (induction rule: simulated.induct) (auto intro: simulated.created)

subsection \<open>Properties\<close>

text \<open>C7: Save and restore lose nothing: any state of a simulation can be saved, the snapshot is accepted in any other
  state of that simulation, and the environment then has exactly that snapshot: the same clock, random source,
  counters, cancelled tokens and executions, the same scheduled items, and of every entity a copy.\<close>

theorem snapshot_roundtrip:
  assumes "simulated fl depth env0 env1" "simulated fl depth env0 env2" "hypot_nonneg fl"
  shows "\<exists>s env'. snapshot_environment env1 = Inr s \<and> environment_restore s env2 = Inr env' \<and> snapshot_environment env' = Inr s
    \<and> env_clock env' = env_clock env1 \<and> env_random env' = env_random env1 \<and> env_cancelled_tokens env' = env_cancelled_tokens env1
    \<and> map_of (env_executions env') = map_of (env_executions env1) \<and> mset (env_scheduled env') = mset (env_scheduled env1)
    \<and> dom (map_of (env_entities env')) = dom (map_of (env_entities env1))
    \<and> (\<forall>k e. map_of (env_entities env1) k = Some e \<longrightarrow> (\<exists>c. clone e = Inr c \<and> map_of (env_entities env') k = Some c))"
proof -
  note w = simulated_inv(4) [OF assms(1,3)]
  obtain s where s: "snapshot_environment env1 = Inr s" using snapshot_sound [OF w] by blast
  note r = simulated_restore [OF assms s] restored_content [OF w simulated_life [OF assms(1,3)] simulated_equipped [OF assms(1,3)], where env = env2]
  have "env_clock (restored env1 env2) = env_clock env1" "env_random (restored env1 env2) = env_random env1"
    "env_cancelled_tokens (restored env1 env2) = env_cancelled_tokens env1" by (simp_all add: restored_def)
  moreover have "dom (map_of (env_entities (restored env1 env2))) = dom (map_of (env_entities env1))" by (auto simp: r(3))
  moreover have "\<exists>c. clone e = Inr c \<and> map_of (env_entities (restored env1 env2)) k = Some c" if "map_of (env_entities env1) k = Some e" for k e
    using clone_canonical [OF valid_entityD(1,2) [OF world_soundD(1) [OF w that]]] by (simp add: r(3) that)
  ultimately show ?thesis using s r(1,2,4,5) by blast
qed

theorem snapshot_roundtrip_witness:
  "\<exists>env message env1 s env'. mended env message env1 \<and> snapshot_environment env1 = Inr s \<and> environment_restore s env = Inr env'
     \<and> snapshot_environment env' = Inr s"
proof (rule arena_stepped)
  fix env message env1 assume s: "mended env message env1" "simulated flat_lib 2 env env" "simulated flat_lib 2 env env1"
  from snapshot_roundtrip [OF s(3,2) flat_hypot(2)] s(1) show ?thesis by blast
qed

text \<open>C6: Every episode starts alike: whatever was played, resetting gives one and the same environment, the one with the
  snapshot of the environment the client constructed.\<close>

theorem reset_starts_alike:
  assumes "simulated fl depth env0 env1" "simulated fl depth env0 env2" "hypot_nonneg fl"
  shows "\<exists>start. environment_reset env1 = Inr start \<and> environment_reset env2 = Inr start
    \<and> snapshot_environment start = snapshot_environment env0 \<and> environment_reset start = Inr start"
proof -
  note s0 = simulated_first [OF assms(1)]
  obtain s where s: "snapshot_environment env0 = Inr s" "env_initial_snapshot env0 = Some s" and f1: "fixed env1 = fixed env0"
    using simulated_start [OF assms(1,3)] by blast
  have f2: "fixed env2 = fixed env0" using simulated_start [OF assms(2,3)] by blast
  let ?start = "restored env0 env0"
  note r = simulated_restore [OF s0 _ assms(3) s(1)]
  have "environment_reset env1 = Inr ?start" "environment_reset env2 = Inr ?start"
    using f1 f2 s(2) r(1) [OF assms(1)] r(1) [OF assms(2)] simulated_same_start [OF assms(1) s0 assms(3)] simulated_same_start [OF assms(2) s0 assms(3)]
    by (simp_all add: environment_reset_def fixed_def)
  moreover have "environment_reset ?start = Inr ?start"
  proof -
    have "environment_restore s ?start = Inr (restored env0 ?start)"
      by (rule restore_snapshot [OF simulated_inv(4) [OF s0 assms(3)] simulated_life [OF s0 assms(3)] simulated_equipped [OF s0 assms(3)] s(1)])
        (simp_all add: restored_def)
    then show ?thesis using s(2) by (simp add: environment_reset_def) (simp add: restored_def)
  qed
  ultimately show ?thesis using r(2) [OF s0] s(1) by auto
qed

theorem reset_starts_alike_witness:
  "\<exists>env message env1 start. mended env message env1 \<and> environment_reset env1 = Inr start \<and> environment_reset env = Inr start"
proof (rule arena_stepped)
  fix env message env1 assume s: "mended env message env1" "simulated flat_lib 2 env env" "simulated flat_lib 2 env env1"
  from reset_starts_alike [OF s(3,2) flat_hypot(2)] s(1) show ?thesis by blast
qed

end
