(* ===== verification/Nav_Grid.thy ===== *)
theory Nav_Grid
  imports Py_Float
begin

text \<open>
  The navigation map of the traveller (\<^verbatim>\<open>travel/pathfinding.py\<close>, first half): cells, the sparse map of obstacles and
  costs a client learns, its refinement to a finer grid, and the bounded grid one search sees. The float rounding
  \<open>rnd\<close> and \<^verbatim>\<open>math.hypot\<close> are arguments; terrain is sampled by code of other modules, so a source is its key and
  resolution, and its \<open>seed\<close> method an argument.
\<close>

subsection \<open>Cells\<close>

datatype nav_cell = NavigationCell (cell_x: int) (cell_y: int)

instantiation nav_cell :: linorder
begin

definition less_eq_nav_cell :: "nav_cell \<Rightarrow> nav_cell \<Rightarrow> bool" where
  "less_eq_nav_cell a b \<longleftrightarrow> (cell_x a, cell_y a) \<le> (cell_x b, cell_y b)"

definition less_nav_cell :: "nav_cell \<Rightarrow> nav_cell \<Rightarrow> bool" where
  "less_nav_cell a b \<longleftrightarrow> (cell_x a, cell_y a) < (cell_x b, cell_y b)"

instance
  by standard (auto simp: less_eq_nav_cell_def less_nav_cell_def intro: nav_cell.expand)

end

text \<open>Python's \<open>float\<close> of an \<open>int\<close>.\<close>

definition flt :: "(rat \<Rightarrow> rat) \<Rightarrow> int \<Rightarrow> rat" where
  "flt rnd n = rnd (of_int n)"

definition cell_at :: "(rat \<Rightarrow> rat) \<Rightarrow> rat \<Rightarrow> rat \<Rightarrow> rat \<Rightarrow> nav_cell" where
  "cell_at rnd width lt lg = NavigationCell \<lfloor>rnd (lt / width)\<rfloor> \<lfloor>rnd (lg / width)\<rfloor>"

definition center_of :: "(rat \<Rightarrow> rat) \<Rightarrow> rat \<Rightarrow> nav_cell \<Rightarrow> rat \<times> rat" where
  "center_of rnd width cell =
     (rnd (rnd (flt rnd (cell_x cell) + 1 / 2) * width), rnd (rnd (flt rnd (cell_y cell) + 1 / 2) * width))"

subsection \<open>Destinations and configuration\<close>

record travel_destination =
  dst_lt :: rat
  dst_lg :: rat
  dst_radius :: rat

definition travel_destination_ok :: "travel_destination \<Rightarrow> unit result" where
  "travel_destination_ok d = checks [(dst_radius d \<le> 0, ValueError ''arrival_radius must be positive'')]"

record astar_config =
  heuristic_weight :: rat
  maximum_expansions :: int
  planning_margin_cells :: int
  obstacle_clearance_cells :: int
  waypoint_radius_fraction :: rat

definition astar_config_ok :: "astar_config \<Rightarrow> unit result" where
  "astar_config_ok c = checks
     [(heuristic_weight c < 1, ValueError ''heuristic_weight must be finite and at least one''),
      (maximum_expansions c \<le> 0, ValueError ''maximum_expansions must be a positive integer''),
      (planning_margin_cells c \<le> 0, ValueError ''planning_margin_cells must be a positive integer''),
      (obstacle_clearance_cells c < 0, ValueError ''obstacle_clearance_cells must be a non-negative integer''),
      (\<not> (0 < waypoint_radius_fraction c \<and> waypoint_radius_fraction c < 1), ValueError ''waypoint_radius_fraction must be in (0, 1)'')]"

subsection \<open>The grid of one search\<close>

record nav_grid =
  gr_cell_size :: rat
  gr_minimum :: nav_cell
  gr_maximum :: nav_cell
  gr_blocked :: "nav_cell set"
  gr_costs :: "(nav_cell \<times> rat) list"
  gr_physical_blocked :: "nav_cell set"

definition between :: "nav_cell \<Rightarrow> nav_cell \<Rightarrow> nav_cell \<Rightarrow> bool" where
  "between low high cell \<longleftrightarrow> cell_x low \<le> cell_x cell \<and> cell_x cell \<le> cell_x high \<and> cell_y low \<le> cell_y cell \<and> cell_y cell \<le> cell_y high"

definition grid_contains :: "nav_grid \<Rightarrow> nav_cell \<Rightarrow> bool" where
  "grid_contains g cell = between (gr_minimum g) (gr_maximum g) cell"

fun check_costs :: "nav_grid \<Rightarrow> nav_cell set \<Rightarrow> (nav_cell \<times> rat) list \<Rightarrow> unit result" where
  "check_costs g seen [] = Inr ()"
| "check_costs g seen ((cell, cost) # rest) =
     (if \<not> grid_contains g cell then Inl (ValueError ''cost cells must lie inside the grid'')
      else if cell \<in> seen then Inl (ValueError ''cost cells must be unique'')
      else if cost < 1 then Inl (ValueError ''traversal costs must be finite and at least one'')
      else check_costs g (insert cell seen) rest)"

definition nav_grid_ok :: "nav_grid \<Rightarrow> unit result" where
  "nav_grid_ok g =
     rbind (checks
       [(gr_cell_size g \<le> 0, ValueError ''cell_size must be finite and positive''),
        (cell_x (gr_minimum g) > cell_x (gr_maximum g) \<or> cell_y (gr_minimum g) > cell_y (gr_maximum g),
           ValueError ''grid minimum must not exceed maximum''),
        (\<exists>cell \<in> gr_blocked g. \<not> grid_contains g cell, ValueError ''blocked cells must lie inside the grid'')]) (\<lambda>_.
     check_costs g {} (gr_costs g))"

definition traversal_cost :: "nav_grid \<Rightarrow> nav_cell \<Rightarrow> rat" where
  "traversal_cost g cell = (case map_of (gr_costs g) cell of None \<Rightarrow> 1 | Some c \<Rightarrow> c)"

definition grid_center :: "(rat \<Rightarrow> rat) \<Rightarrow> nav_grid \<Rightarrow> nav_cell \<Rightarrow> rat \<times> rat" where
  "grid_center rnd g cell = center_of rnd (gr_cell_size g) cell"

subsection \<open>The sparse map\<close>

record nav_map =
  nm_cell_size :: rat
  nm_refinement_factor :: int
  nm_blocked :: "nav_cell set"
  nm_structural_blocked :: "nav_cell set"
  nm_learned_blocked :: "nav_cell set"
  nm_refined_learned_blocked :: "nav_cell set"
  nm_costs :: "(nav_cell \<times> rat) list"
  nm_terrain_blocked :: "nav_cell set"
  nm_terrain_costs :: "(nav_cell \<times> rat) list"
  nm_terrain_sources :: "(string \<times> rat) list"


definition refined_cell_size :: "(rat \<Rightarrow> rat) \<Rightarrow> nav_map \<Rightarrow> rat" where
  "refined_cell_size rnd m = rnd (nm_cell_size m / flt rnd (nm_refinement_factor m))"

definition map_cell_for :: "(rat \<Rightarrow> rat) \<Rightarrow> nav_map \<Rightarrow> rat \<Rightarrow> rat \<Rightarrow> nav_cell" where
  "map_cell_for rnd m lt lg = cell_at rnd (nm_cell_size m) lt lg"

definition refined_children :: "nav_map \<Rightarrow> nav_cell \<Rightarrow> nav_cell list" where
  "refined_children m cell =
     (let k = nm_refinement_factor m
      in concat (map (\<lambda>dx. map (\<lambda>dy. NavigationCell (cell_x cell * k + dx) (cell_y cell * k + dy)) [0..k - 1]) [0..k - 1]))"

definition coarse_parent :: "nav_map \<Rightarrow> nav_cell \<Rightarrow> nav_cell" where
  "coarse_parent m cell = NavigationCell (cell_x cell div nm_refinement_factor m) (cell_y cell div nm_refinement_factor m)"


definition mark_learned_blocked :: "nav_cell \<Rightarrow> nav_map \<Rightarrow> nav_map" where
  "mark_learned_blocked cell m =
     m\<lparr>nm_blocked := insert cell (nm_blocked m), nm_learned_blocked := insert cell (nm_learned_blocked m),
       nm_refined_learned_blocked := nm_refined_learned_blocked m \<union> set (refined_children m cell)\<rparr>"

definition mark_refined_learned_blocked :: "nav_cell \<Rightarrow> nav_cell \<Rightarrow> nav_map \<Rightarrow> nav_map result" where
  "mark_refined_learned_blocked cell refined_cell m =
     (if coarse_parent m refined_cell \<noteq> cell then Inl (ValueError ''refined learned blocker must belong to its coarse cell'')
      else Inr (m\<lparr>nm_blocked := insert cell (nm_blocked m), nm_learned_blocked := insert cell (nm_learned_blocked m),
        nm_refined_learned_blocked := insert refined_cell (nm_refined_learned_blocked m)\<rparr>))"





subsection \<open>Collisions\<close>

text \<open>The entry of a ray into a cell, at the resolution of the refined grid.\<close>

definition axis_crossing :: "(rat \<Rightarrow> rat) \<Rightarrow> rat \<Rightarrow> rat \<Rightarrow> rat \<Rightarrow> rat \<Rightarrow> rat list" where
  "axis_crossing rnd low high start direction =
     (if direction > 0 then [rnd (rnd (low - start) / direction)]
      else if direction < 0 then [rnd (rnd (high - start) / direction)] else [])"

definition refined_cell_entered :: "(rat \<Rightarrow> rat) \<Rightarrow> nav_map \<Rightarrow> nav_cell \<Rightarrow> rat \<Rightarrow> rat \<Rightarrow> rat \<Rightarrow> rat \<Rightarrow> nav_cell result" where
  "refined_cell_entered rnd m cell start_lt start_lg direction_lt direction_lg =
     (let minimum_lt = rnd (flt rnd (cell_x cell) * nm_cell_size m); maximum_lt = rnd (minimum_lt + nm_cell_size m);
          minimum_lg = rnd (flt rnd (cell_y cell) * nm_cell_size m); maximum_lg = rnd (minimum_lg + nm_cell_size m);
          entry_distance = Max (set (0 # axis_crossing rnd minimum_lt maximum_lt start_lt direction_lt
             @ axis_crossing rnd minimum_lg maximum_lg start_lg direction_lg));
          epsilon = rnd (refined_cell_size rnd m * rnd (1 / 10 ^ 6));
          along = rnd (entry_distance + epsilon);
          refined = NavigationCell \<lfloor>rnd (rnd (start_lt + rnd (direction_lt * along)) / refined_cell_size rnd m)\<rfloor>
            \<lfloor>rnd (rnd (start_lg + rnd (direction_lg * along)) / refined_cell_size rnd m)\<rfloor>
      in if coarse_parent m refined \<noteq> cell
         then Inl (RuntimeError ''refined collision inference left the selected coarse cell'') else Inr refined)"

definition sign_step :: "rat \<Rightarrow> int" where
  "sign_step delta = (if delta = 0 then 0 else if delta > 0 then 1 else - 1)"

text \<open>When the ray leaves the current cell along one axis; \<open>None\<close> is \<open>inf\<close>.\<close>

definition crossing_time :: "(rat \<Rightarrow> rat) \<Rightarrow> rat \<Rightarrow> int \<Rightarrow> rat \<Rightarrow> rat \<Rightarrow> rat option" where
  "crossing_time rnd width index position delta =
     (if sign_step delta = 0 then None
      else Some \<bar>rnd (rnd (rnd (flt rnd (index + (if sign_step delta > 0 then 1 else 0)) * width) - position) / delta)\<bar>)"

definition py_isclose :: "(rat \<Rightarrow> rat) \<Rightarrow> rat \<Rightarrow> rat \<Rightarrow> rat \<Rightarrow> rat \<Rightarrow> bool" where
  "py_isclose rnd rel_tol abs_tol a b \<longleftrightarrow>
     a = b \<or> \<bar>rnd (b - a)\<bar> \<le> \<bar>rnd (rel_tol * b)\<bar> \<or> \<bar>rnd (b - a)\<bar> \<le> \<bar>rnd (rel_tol * a)\<bar> \<or> \<bar>rnd (b - a)\<bar> \<le> abs_tol"

definition first_cell_ahead :: "(rat \<Rightarrow> rat) \<Rightarrow> nav_map \<Rightarrow> nav_cell \<Rightarrow> rat \<Rightarrow> rat \<Rightarrow> rat \<Rightarrow> rat \<Rightarrow> nav_cell" where
  "first_cell_ahead rnd m current lt lg delta_lt delta_lg =
     (let sx = sign_step delta_lt; sy = sign_step delta_lg
      in case (crossing_time rnd (nm_cell_size m) (cell_x current) lt delta_lt,
               crossing_time rnd (nm_cell_size m) (cell_y current) lg delta_lg) of
        (None, _) \<Rightarrow> NavigationCell (cell_x current) (cell_y current + sy)
      | (Some tx, None) \<Rightarrow> NavigationCell (cell_x current + sx) (cell_y current)
      | (Some tx, Some ty) \<Rightarrow>
          if py_isclose rnd (rnd (1 / 10 ^ 9)) (rnd (1 / 10 ^ 12)) tx ty then NavigationCell (cell_x current + sx) (cell_y current + sy)
          else if tx < ty then NavigationCell (cell_x current + sx) (cell_y current)
          else NavigationCell (cell_x current) (cell_y current + sy))"

definition mark_blocked_ahead ::
    "(rat \<Rightarrow> rat) \<Rightarrow> (rat \<Rightarrow> rat \<Rightarrow> rat) \<Rightarrow> rat \<Rightarrow> rat \<Rightarrow> travel_destination \<Rightarrow> nav_map \<Rightarrow> (nav_cell \<times> nav_map) result" where
  "mark_blocked_ahead rnd hypot lt lg destination m =
     (let delta_lt = rnd (dst_lt destination - lt); delta_lg = rnd (dst_lg destination - lg); len = hypot delta_lt delta_lg
      in if len = 0 then Inl (ValueError ''cannot infer an obstacle without a movement direction'')
         else
           let probe = rnd (nm_cell_size m * (3 / 4));
               ahead = map_cell_for rnd m (rnd (lt + rnd (rnd (delta_lt / len) * probe))) (rnd (lg + rnd (rnd (delta_lg / len) * probe)));
               current = map_cell_for rnd m lt lg;
               cell = (if ahead = current then first_cell_ahead rnd m current lt lg delta_lt delta_lg else ahead)
           in rbind (refined_cell_entered rnd m cell lt lg (rnd (delta_lt / len)) (rnd (delta_lg / len))) (\<lambda>refined.
              rbind (mark_refined_learned_blocked cell refined m) (\<lambda>m'. Inr (cell, m'))))"

subsection \<open>Refinement of the map\<close>







subsection \<open>The grid around a search\<close>

definition clearance_cells :: "int \<Rightarrow> nav_cell \<Rightarrow> nav_cell list" where
  "clearance_cells c obstacle =
     concat (map (\<lambda>dx. map (\<lambda>dy. NavigationCell (cell_x obstacle + dx) (cell_y obstacle + dy)) [- c..c]) [- c..c])"

definition widened :: "int \<Rightarrow> nav_cell \<Rightarrow> nav_cell" where
  "widened c cell = NavigationCell (cell_x cell + c) (cell_y cell + c)"

definition combined_costs :: "nav_map \<Rightarrow> (nav_cell \<times> rat) list" where
  "combined_costs m = fold (\<lambda>(cell, cost) d. AList.update cell (max cost (case map_of d cell of None \<Rightarrow> 1 | Some c \<Rightarrow> c)) d)
     (nm_terrain_costs m) (nm_costs m)"

definition inflated :: "nav_map \<Rightarrow> int \<Rightarrow> nav_cell \<Rightarrow> nav_cell \<Rightarrow> nav_cell set" where
  "inflated m c low high =
     (\<Union>obstacle \<in> Set.filter (between (widened (- c) low) (widened c high)) (nm_blocked m).
        set (filter (between low high) (clearance_cells c obstacle)))"

definition local_grid :: "nav_map \<Rightarrow> nav_cell \<Rightarrow> nav_cell \<Rightarrow> astar_config \<Rightarrow> nav_grid result" where
  "local_grid m start goal config =
     (let margin = planning_margin_cells config;
          low = NavigationCell (min (cell_x start) (cell_x goal) - margin) (min (cell_y start) (cell_y goal) - margin);
          high = NavigationCell (max (cell_x start) (cell_x goal) + margin) (max (cell_y start) (cell_y goal) + margin);
          blocked0 = inflated m (obstacle_clearance_cells config) low high - {start};
          blocked = (if goal \<notin> nm_blocked m then blocked0 - {goal} else blocked0)
      in validated nav_grid_ok
        \<lparr>gr_cell_size = nm_cell_size m, gr_minimum = low, gr_maximum = high, gr_blocked = blocked,
         gr_costs = sort (filter (\<lambda>(cell, cost). between low high cell \<and> cell \<notin> blocked) (combined_costs m)),
         gr_physical_blocked = Set.filter (between low high) (nm_blocked m)\<rparr>)"

subsection \<open>Well-formed maps\<close>

text \<open>What every operation keeps: the obstacles are the walls, the collisions and the blocked terrain, a measured
  collision lies in a cell known to be blocked, and costs are at least one and never set on walls.\<close>

definition costs_ok :: "(nav_cell \<times> rat) list \<Rightarrow> bool" where
  "costs_ok d \<longleftrightarrow> distinct (map fst d) \<and> (\<forall>x \<in> set d. 1 \<le> snd x)"

definition unpriced :: "(nav_cell \<times> rat) list \<Rightarrow> nav_cell set \<Rightarrow> bool" where
  "unpriced d cells \<longleftrightarrow> dom (map_of d) \<inter> cells = {}"

definition nav_map_inv :: "nav_map \<Rightarrow> bool" where
  "nav_map_inv m \<longleftrightarrow> 0 < nm_cell_size m \<and> 2 \<le> nm_refinement_factor m
     \<and> nm_blocked m = nm_structural_blocked m \<union> nm_learned_blocked m \<union> nm_terrain_blocked m
     \<and> (\<forall>child \<in> nm_refined_learned_blocked m. coarse_parent m child \<in> nm_learned_blocked m)
     \<and> costs_ok (nm_costs m) \<and> costs_ok (nm_terrain_costs m) \<and> unpriced (nm_costs m) (nm_structural_blocked m)"

lemma costs_ok_update: "costs_ok d \<Longrightarrow> 1 \<le> v \<Longrightarrow> costs_ok (AList.update k v d)"
  by (auto simp: costs_ok_def distinct_update dest!: in_update)




lemma div_block: "0 < k \<Longrightarrow> (\<exists>d. 0 \<le> d \<and> d < k \<and> n = q * k + d) \<longleftrightarrow> n div k = q" for n q k :: int
proof
  assume k: "0 < k"
  { assume "\<exists>d. 0 \<le> d \<and> d < k \<and> n = q * k + d" then show "n div k = q" using k by auto }
  { assume "n div k = q" then show "\<exists>d. 0 \<le> d \<and> d < k \<and> n = q * k + d"
      using k by (intro exI [of _ "n mod k"]) auto }
qed

lemma in_children:
  assumes "2 \<le> nm_refinement_factor m"
  shows "child \<in> set (refined_children m cell) \<longleftrightarrow> coarse_parent m child = cell"
proof -
  let ?k = "nm_refinement_factor m"
  have "child \<in> set (refined_children m cell) \<longleftrightarrow>
      (\<exists>d. 0 \<le> d \<and> d < ?k \<and> cell_x child = cell_x cell * ?k + d) \<and> (\<exists>d. 0 \<le> d \<and> d < ?k \<and> cell_y child = cell_y cell * ?k + d)"
    by (cases child) (auto simp: refined_children_def Let_def image_iff Bex_def)
  also have "\<dots> \<longleftrightarrow> coarse_parent m child = cell"
    using assms by (cases cell) (simp add: div_block coarse_parent_def)
  finally show ?thesis .
qed




lemma mark_learned_blocked_inv: "nav_map_inv m \<Longrightarrow> nav_map_inv (mark_learned_blocked cell m)"
  by (auto simp: nav_map_inv_def mark_learned_blocked_def in_children) (auto simp: coarse_parent_def)

lemma mark_refined_learned_blocked_inv: "nav_map_inv m \<Longrightarrow> mark_refined_learned_blocked cell refined m = Inr m' \<Longrightarrow> nav_map_inv m'"
  by (auto simp: nav_map_inv_def mark_refined_learned_blocked_def coarse_parent_def split: if_splits)

lemma mark_blocked_ahead_inv: "nav_map_inv m \<Longrightarrow> mark_blocked_ahead rnd hypot lt lg d m = Inr (cell, m') \<Longrightarrow> nav_map_inv m' \<and> cell \<in> nm_blocked m'"
  using mark_refined_learned_blocked_inv
  by (auto simp: mark_blocked_ahead_def Let_def result_simps split: if_splits) (auto simp: mark_refined_learned_blocked_def split: if_splits)





subsection \<open>The grid of a search is valid and keeps clear of obstacles\<close>

lemma check_costs_Inr:
  "check_costs g seen costs = Inr () \<longleftrightarrow>
   (\<forall>x \<in> set costs. grid_contains g (fst x) \<and> 1 \<le> snd x) \<and> distinct (map fst costs) \<and> seen \<inter> fst ` set costs = {}"
  by (induction g seen costs rule: check_costs.induct) auto

lemma nav_grid_ok_Inr:
  "nav_grid_ok g = Inr () \<longleftrightarrow> 0 < gr_cell_size g \<and> cell_x (gr_minimum g) \<le> cell_x (gr_maximum g) \<and> cell_y (gr_minimum g) \<le> cell_y (gr_maximum g)
     \<and> (\<forall>cell \<in> gr_blocked g. grid_contains g cell) \<and> (\<forall>x \<in> set (gr_costs g). grid_contains g (fst x)) \<and> costs_ok (gr_costs g)"
  by (auto simp: nav_grid_ok_def result_simps check_costs_Inr costs_ok_def not_le split: if_splits)

lemma fold_update_costs_ok:
  "costs_ok d \<Longrightarrow> \<forall>x \<in> set xs. 1 \<le> snd x \<Longrightarrow>
   costs_ok (fold (\<lambda>(cell, cost) d. AList.update cell (max cost (case map_of d cell of None \<Rightarrow> 1 | Some c \<Rightarrow> c)) d) xs d)"
  by (induction xs arbitrary: d) (auto simp: costs_ok_update)

lemma combined_costs_ok: "nav_map_inv m \<Longrightarrow> costs_ok (combined_costs m)"
  unfolding combined_costs_def by (rule fold_update_costs_ok) (simp_all add: nav_map_inv_def costs_ok_def)

definition chebyshev :: "nav_cell \<Rightarrow> nav_cell \<Rightarrow> int" where
  "chebyshev a b = max \<bar>cell_x a - cell_x b\<bar> \<bar>cell_y a - cell_y b\<bar>"

lemma in_clearance: "cell \<in> set (clearance_cells c obstacle) \<longleftrightarrow> chebyshev cell obstacle \<le> c"
proof -
  have "cell \<in> set (clearance_cells c obstacle) \<longleftrightarrow>
      (\<exists>dx. - c \<le> dx \<and> dx \<le> c \<and> cell_x cell = cell_x obstacle + dx) \<and> (\<exists>dy. - c \<le> dy \<and> dy \<le> c \<and> cell_y cell = cell_y obstacle + dy)"
    by (cases cell) (auto simp: clearance_cells_def image_iff Bex_def)
  also have "\<dots> \<longleftrightarrow> chebyshev cell obstacle \<le> c"
    by (auto simp: chebyshev_def abs_le_iff intro: exI [of _ "cell_x cell - cell_x obstacle"] exI [of _ "cell_y cell - cell_y obstacle"])
  finally show ?thesis .
qed

text \<open>A cell of the window is inflated exactly when an obstacle is within the clearance, inside the window or not.\<close>

lemma in_inflated: "cell \<in> inflated m c low high \<longleftrightarrow> between low high cell \<and> (\<exists>obstacle \<in> nm_blocked m. chebyshev cell obstacle \<le> c)"
  by (auto simp: inflated_def in_clearance) (auto simp: chebyshev_def between_def widened_def abs_le_iff)

lemma local_grid_Inr:
  assumes "local_grid m start goal config = Inr g"
  shows "nav_grid_ok g = Inr ()" "gr_cell_size g = nm_cell_size m"
    "gr_blocked g = {cell. grid_contains g cell \<and> (\<exists>obstacle \<in> nm_blocked m. chebyshev cell obstacle \<le> obstacle_clearance_cells config)
       \<and> cell \<noteq> start \<and> (cell = goal \<longrightarrow> goal \<in> nm_blocked m)}"
    "gr_physical_blocked g = {cell \<in> nm_blocked m. grid_contains g cell}"
  using assms by (auto simp: local_grid_def Let_def validated_Inr grid_contains_def in_inflated split: if_splits)

lemma local_grid_window:
  assumes "local_grid m start goal config = Inr g" "astar_config_ok config = Inr ()"
  shows "grid_contains g start" "grid_contains g goal"
proof -
  have "0 < planning_margin_cells config" using assms(2) by (simp add: astar_config_ok_def split: if_splits)
  with assms(1) show "grid_contains g start" "grid_contains g goal"
    by (auto simp: local_grid_def Let_def validated_Inr grid_contains_def between_def)
qed

lemma local_grid_returns:
  assumes "nav_map_inv m" "astar_config_ok config = Inr ()"
  shows "\<exists>g. local_grid m start goal config = Inr g"
proof -
  have "0 < planning_margin_cells config" "0 < nm_cell_size m"
    using assms by (simp_all add: astar_config_ok_def nav_map_inv_def split: if_splits)
  moreover have "costs_ok (sort (filter P (combined_costs m)))" for P
    using combined_costs_ok [OF assms(1)] by (auto simp: costs_ok_def distinct_map_sort_key distinct_map_filter)
  ultimately show ?thesis
    by (auto simp: local_grid_def Let_def validated_Inr nav_grid_ok_Inr grid_contains_def in_inflated)
qed

lemma traversal_cost_ge: "nav_grid_ok g = Inr () \<Longrightarrow> 1 \<le> traversal_cost g cell"
  by (auto simp: traversal_cost_def nav_grid_ok_Inr costs_ok_def split: option.split dest!: map_of_SomeD)

subsection \<open>Refinement invents no gaps\<close>














subsection \<open>Properties\<close>







end
