(* ===== verification/Nav_Search.thy ===== *)
theory Nav_Search
  imports Nav_Grid
begin

text \<open>
  The bounded weighted A* search (\<^verbatim>\<open>travel/pathfinding.py\<close>, \<open>WeightedAStarPlanner._search\<close> and what it calls). The heap is a
  list from which the least entry is taken: the second component of an entry is unique, so the least entry is. A
  dictionary is an association list whose lookups may raise \<open>KeyError\<close>; following \<open>came_from\<close> back may not end, so
  \<open>reconstruct\<close> is a \<open>partial_function\<close>.
\<close>

subsection \<open>Moves\<close>

text \<open>The double nearest to the square root of two.\<close>

definition SQRT2 :: rat where
  "SQRT2 = 6369051672525773 / 4503599627370496"

definition neighbor_at :: "nav_grid \<Rightarrow> nav_cell \<Rightarrow> int \<Rightarrow> int \<Rightarrow> (nav_cell \<times> rat) list" where
  "neighbor_at g cell delta_x delta_y =
     (let neighbor = NavigationCell (cell_x cell + delta_x) (cell_y cell + delta_y)
      in if delta_x = 0 \<and> delta_y = 0 then []
         else if \<not> grid_contains g neighbor \<or> neighbor \<in> gr_blocked g then []
         else if delta_x \<noteq> 0 \<and> delta_y \<noteq> 0
         then (if NavigationCell (cell_x cell + delta_x) (cell_y cell) \<in> gr_blocked g \<or> NavigationCell (cell_x cell) (cell_y cell + delta_y) \<in> gr_blocked g
               then [] else [(neighbor, SQRT2)])
         else [(neighbor, 1)])"

definition neighbors :: "nav_grid \<Rightarrow> nav_cell \<Rightarrow> (nav_cell \<times> rat) list" where
  "neighbors g cell = concat (map (\<lambda>delta_x. concat (map (neighbor_at g cell delta_x) [- 1, 0, 1])) [- 1, 0, 1])"

definition heuristic :: "(rat \<Rightarrow> rat) \<Rightarrow> nav_cell \<Rightarrow> nav_cell \<Rightarrow> rat" where
  "heuristic rnd first second =
     (let delta_x = \<bar>cell_x first - cell_x second\<bar>; delta_y = \<bar>cell_y first - cell_y second\<bar>
      in rnd (flt rnd (max delta_x delta_y) + rnd (rnd (SQRT2 - 1) * flt rnd (min delta_x delta_y))))"

definition is_boundary_cell :: "nav_grid \<Rightarrow> nav_cell \<Rightarrow> bool" where
  "is_boundary_cell g cell \<longleftrightarrow> cell_x cell \<in> {cell_x (gr_minimum g), cell_x (gr_maximum g)} \<or> cell_y cell \<in> {cell_y (gr_minimum g), cell_y (gr_maximum g)}"

definition clamp_inside :: "(rat \<Rightarrow> rat) \<Rightarrow> rat \<Rightarrow> int \<Rightarrow> rat \<Rightarrow> rat" where
  "clamp_inside rnd width index v =
     (let inset = rnd (width * rnd (1 / 10 ^ 6))
      in min (max v (rnd (rnd (flt rnd index * width) + inset))) (rnd (rnd (flt rnd (index + 1) * width) - inset)))"

definition arrival_point :: "(rat \<Rightarrow> rat) \<Rightarrow> (rat \<Rightarrow> rat \<Rightarrow> rat) \<Rightarrow> nav_grid \<Rightarrow> nav_cell \<Rightarrow> travel_destination \<Rightarrow> rat \<times> rat" where
  "arrival_point rnd hypot g cell destination =
     (let nx = clamp_inside rnd (gr_cell_size g) (cell_x cell) (dst_lt destination);
          ny = clamp_inside rnd (gr_cell_size g) (cell_y cell) (dst_lg destination);
          (cx, cy) = grid_center rnd g cell;
          distance = hypot (rnd (nx - dst_lt destination)) (rnd (ny - dst_lg destination));
          towards_center = hypot (rnd (cx - nx)) (rnd (cy - ny));
          fraction = (if towards_center \<noteq> 0
            then min (1 / 2) (rnd (max 0 (rnd (dst_radius destination - distance)) / rnd (2 * towards_center))) else 0)
      in (rnd (nx + rnd (fraction * rnd (cx - nx))), rnd (ny + rnd (fraction * rnd (cy - ny)))))"

subsection \<open>The state of a search\<close>

type_synonym heap_entry = "rat \<times> int \<times> nav_cell"

record search_state =
  ss_frontier :: "heap_entry list"
  ss_order :: int
  ss_came_from :: "(nav_cell \<times> nav_cell) list"
  ss_cost :: "(nav_cell \<times> rat) list"
  ss_expanded :: int
  ss_closest :: nav_cell
  ss_closest_heuristic :: rat
  ss_boundary :: "(nav_cell \<times> rat \<times> rat \<times> int \<times> int) option"

definition dict_at :: "(nav_cell \<times> 'v) list \<Rightarrow> nav_cell \<Rightarrow> 'v result" where
  "dict_at d cell = (case map_of d cell of None \<Rightarrow> Inl (KeyError ''NavigationCell'') | Some v \<Rightarrow> Inr v)"

fun least_entry :: "heap_entry \<Rightarrow> heap_entry list \<Rightarrow> heap_entry" where
  "least_entry e [] = e"
| "least_entry e (f # fs) = least_entry (if f < e then f else e) fs"

fun heappop :: "heap_entry list \<Rightarrow> (heap_entry \<times> heap_entry list) option" where
  "heappop [] = None"
| "heappop (e # es) = (let least = least_entry e es in Some (least, remove1 least (e # es)))"

definition initial_search :: "(rat \<Rightarrow> rat) \<Rightarrow> nav_cell \<Rightarrow> nav_cell \<Rightarrow> search_state" where
  "initial_search rnd start goal =
     \<lparr>ss_frontier = [(0, 0, start)], ss_order = 0, ss_came_from = [], ss_cost = [(start, 0)], ss_expanded = 0,
      ss_closest = start, ss_closest_heuristic = heuristic rnd start goal, ss_boundary = None\<rparr>"

partial_function (option) reconstruct ::
    "(nav_cell \<times> nav_cell) list \<Rightarrow> nav_cell \<Rightarrow> nav_cell \<Rightarrow> nav_cell list \<Rightarrow> nav_cell list result option" where
  "reconstruct came_from start current path =
     (if current = start then Some (Inr path)
      else case map_of came_from current of
        None \<Rightarrow> Some (Inl (KeyError ''NavigationCell''))
      | Some parent \<Rightarrow> reconstruct came_from start parent (parent # path))"

definition note_closest :: "(rat \<Rightarrow> rat) \<Rightarrow> nav_cell \<Rightarrow> nav_cell \<Rightarrow> search_state \<Rightarrow> search_state result" where
  "note_closest rnd goal current st =
     (let h = heuristic rnd current goal
      in rbind (if h < ss_closest_heuristic st then Inr True
           else if h = ss_closest_heuristic st
           then rbind (dict_at (ss_cost st) current) (\<lambda>a. rbind (dict_at (ss_cost st) (ss_closest st)) (\<lambda>b. Inr (a < b)))
           else Inr False) (\<lambda>closer.
         Inr (if closer then st\<lparr>ss_closest := current, ss_closest_heuristic := h\<rparr> else st)))"

definition note_boundary :: "(rat \<Rightarrow> rat) \<Rightarrow> nav_grid \<Rightarrow> nav_cell \<Rightarrow> nav_cell \<Rightarrow> nav_cell \<Rightarrow> search_state \<Rightarrow> search_state result" where
  "note_boundary rnd g start goal current st =
     (if current \<noteq> start \<and> is_boundary_cell g current
      then rbind (dict_at (ss_cost st) current) (\<lambda>cost.
        let key = (heuristic rnd current goal, cost, cell_x current, cell_y current)
        in Inr (if (case ss_boundary st of None \<Rightarrow> True | Some (cell, old) \<Rightarrow> key < old) then st\<lparr>ss_boundary := Some (current, key)\<rparr> else st))
      else Inr st)"

definition partial_cell :: "nav_cell \<Rightarrow> search_state \<Rightarrow> nav_cell option" where
  "partial_cell start st =
     (case ss_boundary st of Some (cell, key) \<Rightarrow> Some cell | None \<Rightarrow> if ss_closest st \<noteq> start then Some (ss_closest st) else None)"

definition route_to :: "nav_cell \<Rightarrow> search_state \<Rightarrow> nav_cell \<Rightarrow> (nav_cell list \<times> int \<times> rat) result option" where
  "route_to start st cell =
     map_option (\<lambda>r. rbind r (\<lambda>path. rbind (dict_at (ss_cost st) cell) (\<lambda>cost. Inr (path, ss_expanded st, cost))))
       (reconstruct (ss_came_from st) start cell [cell])"

definition give_up :: "nav_cell \<Rightarrow> bool \<Rightarrow> string \<Rightarrow> search_state \<Rightarrow> (nav_cell list \<times> int \<times> rat) result option" where
  "give_up start allow_partial message st =
     (case partial_cell start st of
        Some cell \<Rightarrow> if allow_partial then route_to start st cell else Some (Inl (AStarRouteNotFound message))
      | None \<Rightarrow> Some (Inl (AStarRouteNotFound message)))"

definition has_arrived :: "(rat \<Rightarrow> rat) \<Rightarrow> (rat \<Rightarrow> rat \<Rightarrow> rat) \<Rightarrow> nav_grid \<Rightarrow> nav_cell \<Rightarrow> travel_destination option \<Rightarrow> nav_cell \<Rightarrow> bool" where
  "has_arrived rnd hypot g goal region current =
     (case region of
        None \<Rightarrow> current = goal \<and> current \<notin> gr_blocked g
      | Some d \<Rightarrow>
          if current \<notin> gr_physical_blocked g
          then (let (px, py) = arrival_point rnd hypot g current d in hypot (rnd (px - dst_lt d)) (rnd (py - dst_lg d)) < dst_radius d)
          else False)"

definition relax :: "(rat \<Rightarrow> rat) \<Rightarrow> astar_config \<Rightarrow> nav_grid \<Rightarrow> nav_cell \<Rightarrow> nav_cell \<Rightarrow> nav_cell \<times> rat \<Rightarrow> search_state \<Rightarrow> search_state result" where
  "relax rnd config g goal current move st =
     (let (neighbor, step_cost) = move
      in rbind (dict_at (ss_cost st) current) (\<lambda>cost.
      let new_cost = rnd (cost + rnd (step_cost * traversal_cost g neighbor))
      in if (case map_of (ss_cost st) neighbor of None \<Rightarrow> False | Some old \<Rightarrow> new_cost \<ge> old) then Inr st
         else Inr (st\<lparr>ss_cost := AList.update neighbor new_cost (ss_cost st), ss_came_from := AList.update neighbor current (ss_came_from st),
           ss_order := ss_order st + 1,
           ss_frontier := (rnd (new_cost + rnd (heuristic_weight config * heuristic rnd neighbor goal)), ss_order st + 1, neighbor) # ss_frontier st\<rparr>)))"

definition expand :: "(rat \<Rightarrow> rat) \<Rightarrow> astar_config \<Rightarrow> nav_grid \<Rightarrow> nav_cell \<Rightarrow> nav_cell \<Rightarrow> search_state \<Rightarrow> search_state result" where
  "expand rnd config g goal current st = rfold (relax rnd config g goal current) (neighbors g current) st"

definition visit :: "(rat \<Rightarrow> rat) \<Rightarrow> nav_grid \<Rightarrow> nav_cell \<Rightarrow> nav_cell \<Rightarrow> nav_cell \<Rightarrow> heap_entry list \<Rightarrow> search_state \<Rightarrow> search_state result" where
  "visit rnd g start goal current rest st =
     rbind (note_closest rnd goal current (st\<lparr>ss_frontier := rest, ss_expanded := ss_expanded st + 1\<rparr>)) (\<lambda>st.
     note_boundary rnd g start goal current st)"

lemma relax_expanded: "relax rnd config g goal current move st = Inr st' \<Longrightarrow> ss_expanded st' = ss_expanded st"
  by (auto simp: relax_def Let_def rbind_eq_Inr split: prod.splits if_splits)

lemma expand_expanded: "expand rnd config g goal current st = Inr st' \<Longrightarrow> ss_expanded st' = ss_expanded st"
  unfolding expand_def by (rule rfold_keeps [where P = "\<lambda>s. ss_expanded s = ss_expanded st"]) (auto dest: relax_expanded)

lemma note_closest_fields:
  "note_closest rnd goal current st = Inr st' \<Longrightarrow>
   ss_frontier st' = ss_frontier st \<and> ss_order st' = ss_order st \<and> ss_came_from st' = ss_came_from st \<and> ss_cost st' = ss_cost st
   \<and> ss_expanded st' = ss_expanded st \<and> ss_boundary st' = ss_boundary st \<and> ss_closest st' \<in> {ss_closest st, current}"
  by (auto simp: note_closest_def Let_def rbind_eq_Inr split: if_splits)

lemma note_boundary_fields:
  "note_boundary rnd g start goal current st = Inr st' \<Longrightarrow>
   ss_frontier st' = ss_frontier st \<and> ss_order st' = ss_order st \<and> ss_came_from st' = ss_came_from st \<and> ss_cost st' = ss_cost st
   \<and> ss_expanded st' = ss_expanded st \<and> ss_closest st' = ss_closest st \<and> map_option fst (ss_boundary st') \<in> {map_option fst (ss_boundary st), Some current}"
  unfolding note_boundary_def Let_def rbind_eq_Inr by (auto simp: rbind_eq_Inr simp del: less_prod_simp split: if_split_asm)

lemma visit_fields:
  "visit rnd g start goal current rest st = Inr st' \<Longrightarrow>
   ss_frontier st' = rest \<and> ss_order st' = ss_order st \<and> ss_came_from st' = ss_came_from st \<and> ss_cost st' = ss_cost st
   \<and> ss_expanded st' = ss_expanded st + 1 \<and> ss_closest st' \<in> {ss_closest st, current}
   \<and> map_option fst (ss_boundary st') \<in> {map_option fst (ss_boundary st), Some current}"
  by (auto simp: visit_def rbind_eq_Inr dest!: note_closest_fields note_boundary_fields)

text \<open>The loop. It ends because every round is counted and the count is bounded.\<close>

function (sequential) search_loop ::
    "(rat \<Rightarrow> rat) \<Rightarrow> (rat \<Rightarrow> rat \<Rightarrow> rat) \<Rightarrow> astar_config \<Rightarrow> nav_grid \<Rightarrow> nav_cell \<Rightarrow> nav_cell \<Rightarrow> bool \<Rightarrow> travel_destination option
     \<Rightarrow> search_state \<Rightarrow> (nav_cell list \<times> int \<times> rat) result option" where
  "search_loop rnd hypot config g start goal allow_partial region st =
     (case heappop (ss_frontier st) of
        None \<Rightarrow> give_up start allow_partial ''A* found no route inside the planning window'' st
      | Some ((priority, order, current), rest) \<Rightarrow>
          (case visit rnd g start goal current rest st of
             Inl e \<Rightarrow> Some (Inl e)
           | Inr st1 \<Rightarrow>
               if ss_expanded st1 > maximum_expansions config then give_up start allow_partial ''A* expansion budget exhausted'' st1
               else if has_arrived rnd hypot g goal region current then route_to start st1 current
               else (case expand rnd config g goal current st1 of
                  Inl e \<Rightarrow> Some (Inl e)
                | Inr st2 \<Rightarrow> search_loop rnd hypot config g start goal allow_partial region st2)))"
  by pat_completeness auto

termination
  by (relation "measure (\<lambda>(rnd, hypot, config, g, start, goal, allow_partial, region, st). nat (maximum_expansions config + 1 - ss_expanded st))")
    (auto dest!: expand_expanded visit_fields)

declare search_loop.simps [simp del]

definition search ::
    "(rat \<Rightarrow> rat) \<Rightarrow> (rat \<Rightarrow> rat \<Rightarrow> rat) \<Rightarrow> astar_config \<Rightarrow> nav_grid \<Rightarrow> nav_cell \<Rightarrow> nav_cell \<Rightarrow> bool \<Rightarrow> travel_destination option
     \<Rightarrow> (nav_cell list \<times> int \<times> rat) result option" where
  "search rnd hypot config g start goal allow_partial region =
     (if start \<in> gr_blocked g \<or> (goal \<in> gr_blocked g \<and> \<not> allow_partial \<and> region = None)
      then Some (Inl (AStarRouteNotFound ''A* endpoint is blocked''))
      else search_loop rnd hypot config g start goal allow_partial region (initial_search rnd start goal))"

end
