(* ===== verification/Nav_Astar.thy ===== *)
theory Nav_Astar
  imports Nav_Search
begin

text \<open>
  Correctness of the search. A \<open>route\<close> is a sequence of legal moves with what the code would charge for it. The
  invariant of the loop says that \<open>came_from\<close> is a tree of routes no dearer than recorded, and that every recorded cell is
  either open or settled. From it follow that a returned path is a route, that the search fails only when there
  is none, and, in exact arithmetic, the bound on the cost.
\<close>

subsection \<open>Routes\<close>

text \<open>A move to one of the eight cells around, inside the grid and not into an obstacle; a diagonal move cuts no
  blocked corner.\<close>

definition legal_move :: "nav_grid \<Rightarrow> nav_cell \<Rightarrow> nav_cell \<Rightarrow> bool" where
  "legal_move g u v \<longleftrightarrow> chebyshev v u = 1 \<and> grid_contains g v \<and> v \<notin> gr_blocked g
     \<and> (cell_x v \<noteq> cell_x u \<longrightarrow> cell_y v \<noteq> cell_y u \<longrightarrow>
         NavigationCell (cell_x v) (cell_y u) \<notin> gr_blocked g \<and> NavigationCell (cell_x u) (cell_y v) \<notin> gr_blocked g)"

definition step_length :: "nav_cell \<Rightarrow> nav_cell \<Rightarrow> rat" where
  "step_length u v = (if cell_x v \<noteq> cell_x u \<and> cell_y v \<noteq> cell_y u then SQRT2 else 1)"

text \<open>\<open>route rnd g start v p c\<close>: the cells \<open>p\<close> are legal moves from \<open>start\<close> to \<open>v\<close>, and charging them one after the other
  with rounding gives \<open>c\<close>.\<close>

inductive route :: "(rat \<Rightarrow> rat) \<Rightarrow> nav_grid \<Rightarrow> nav_cell \<Rightarrow> nav_cell \<Rightarrow> nav_cell list \<Rightarrow> rat \<Rightarrow> bool" for rnd g start where
  stay: "route rnd g start start [start] 0"
| move: "\<lbrakk>route rnd g start u p c; legal_move g u v\<rbrakk>
    \<Longrightarrow> route rnd g start v (p @ [v]) (rnd (c + rnd (step_length u v * traversal_cost g v)))"

lemma neighbors_iff:
  "(v, s) \<in> set (neighbors g u) \<longleftrightarrow> (\<exists>dx \<in> {- 1, 0, 1}. \<exists>dy \<in> {- 1, 0, 1}. (v, s) \<in> set (neighbor_at g u dx dy))"
  by (auto simp: neighbors_def)

lemma near_cell: "chebyshev v u = 1 \<longleftrightarrow> (\<exists>dx \<in> {- 1, 0, 1}. \<exists>dy \<in> {- 1, 0, 1}. (dx \<noteq> 0 \<or> dy \<noteq> 0) \<and> v = NavigationCell (cell_x u + dx) (cell_y u + dy))"
proof
  assume c: "chebyshev v u = 1"
  have "v = NavigationCell (cell_x u + (cell_x v - cell_x u)) (cell_y u + (cell_y v - cell_y u))" by simp
  moreover have "cell_x v - cell_x u \<in> {- 1, 0, 1}" "cell_y v - cell_y u \<in> {- 1, 0, 1}" "cell_x v - cell_x u \<noteq> 0 \<or> cell_y v - cell_y u \<noteq> 0"
    using c unfolding chebyshev_def insert_iff by linarith+
  ultimately show "\<exists>dx \<in> {- 1, 0, 1}. \<exists>dy \<in> {- 1, 0, 1}. (dx \<noteq> 0 \<or> dy \<noteq> 0) \<and> v = NavigationCell (cell_x u + dx) (cell_y u + dy)" by blast
qed (auto simp: chebyshev_def)

lemma neighbor_at_iff:
  "(v, s) \<in> set (neighbor_at g u dx dy) \<longleftrightarrow> (dx \<noteq> 0 \<or> dy \<noteq> 0) \<and> v = NavigationCell (cell_x u + dx) (cell_y u + dy) \<and> grid_contains g v \<and> v \<notin> gr_blocked g
     \<and> (cell_x v \<noteq> cell_x u \<longrightarrow> cell_y v \<noteq> cell_y u \<longrightarrow>
         NavigationCell (cell_x v) (cell_y u) \<notin> gr_blocked g \<and> NavigationCell (cell_x u) (cell_y v) \<notin> gr_blocked g) \<and> s = step_length u v"
  by (auto simp: neighbor_at_def Let_def step_length_def)

text \<open>The neighbours the code computes are the legal moves.\<close>

lemma neighbors_legal: "(v, s) \<in> set (neighbors g u) \<longleftrightarrow> legal_move g u v \<and> s = step_length u v"
  unfolding neighbors_iff neighbor_at_iff legal_move_def near_cell by blast

lemma neighborD:
  assumes "(v, s) \<in> set (neighbors g u)"
  shows "v \<noteq> u" "grid_contains g v" "v \<notin> gr_blocked g" "1 \<le> s" "chebyshev v u = 1"
  using assms unfolding neighbors_legal legal_move_def step_length_def by (auto simp: chebyshev_def SQRT2_def)

lemma neighbor_diagonal: "(v, s) \<in> set (neighbors g u) \<Longrightarrow> cell_x v \<noteq> cell_x u \<Longrightarrow> cell_y v \<noteq> cell_y u \<Longrightarrow> s = SQRT2"
  by (simp add: neighbors_legal step_length_def)

lemma route_neighbor:
  "route rnd g start u p c \<Longrightarrow> (v, s) \<in> set (neighbors g u) \<Longrightarrow> route rnd g start v (p @ [v]) (rnd (c + rnd (s * traversal_cost g v)))"
  by (auto simp: neighbors_legal intro: route.move)

lemma route_ends: "route rnd g start v p c \<Longrightarrow> p \<noteq> [] \<and> hd p = start \<and> last p = v"
  by (induction rule: route.induct) auto

subsection \<open>The least entry\<close>

lemma least_entry_mem: "least_entry e es \<in> insert e (set es)"
  by (induction e es rule: least_entry.induct) (auto simp del: less_prod_simp split: if_splits)

lemma least_entry_le: "x \<in> insert e (set es) \<Longrightarrow> least_entry e es \<le> x"
proof (induction e es arbitrary: x rule: least_entry.induct)
  case (2 e f fs)
  let ?m = "if f < e then f else e"
  have "least_entry ?m fs \<le> ?m" by (rule "2.IH") simp
  moreover have "?m \<le> e" "?m \<le> f" by (simp_all add: not_less less_imp_le del: less_prod_simp less_eq_prod_simp)
  ultimately show ?case using "2.IH" [of x] "2.prems" by (auto simp del: less_prod_simp less_eq_prod_simp)
qed simp

lemma heappopD:
  assumes "heappop es = Some (e, rest)"
  shows "e \<in> set es" "set rest \<subseteq> set es" "set es \<subseteq> insert e (set rest)" "x \<in> set es \<Longrightarrow> fst e \<le> fst x"
proof -
  from assms obtain f fs where es: "es = f # fs" and e: "e = least_entry f fs" and r: "rest = remove1 e es"
    by (cases es) (auto simp: Let_def simp del: remove1.simps)
  show "e \<in> set es" using least_entry_mem [of f fs] by (simp add: es e)
  show "set rest \<subseteq> set es" unfolding r by (rule set_remove1_subset)
  show "set es \<subseteq> insert e (set rest)" unfolding r by (induction es) auto
  show "fst e \<le> fst x" if "x \<in> set es"
    using least_entry_le [of x f fs] that by (cases x; cases e) (auto simp: es e)
qed

lemma heappop_None: "heappop es = None \<longleftrightarrow> es = []"
  by (cases es) (simp_all add: Let_def)

subsection \<open>The tree of routes\<close>

inductive chain :: "(nav_cell \<times> nav_cell) list \<Rightarrow> nav_cell \<Rightarrow> nav_cell \<Rightarrow> nav_cell list \<Rightarrow> bool" for came_from start where
  root: "chain came_from start start [start]"
| branch: "\<lbrakk>chain came_from start u p; map_of came_from v = Some u; v \<noteq> start\<rbrakk> \<Longrightarrow> chain came_from start v (p @ [v])"

lemma chain_ends: "chain cf start v p \<Longrightarrow> p \<noteq> [] \<and> last p = v"
  by (induction rule: chain.induct) auto

lemma chain_unique: "chain cf start v p \<Longrightarrow> chain cf start v q \<Longrightarrow> q = p"
proof (induction arbitrary: q rule: chain.induct)
  case root
  then show ?case by (cases rule: chain.cases) auto
next
  case (branch u p v)
  from branch.prems branch.hyps show ?case by (cases rule: chain.cases) (auto dest: branch.IH)
qed

lemma chain_prefix: "chain cf start v p \<Longrightarrow> w \<in> set p \<Longrightarrow> \<exists>q r. chain cf start w q \<and> p = q @ r"
proof (induction rule: chain.induct)
  case (branch u p v)
  then show ?case using chain.branch [OF branch.hyps] by fastforce
qed (auto intro: chain.root)

lemma chain_distinct: "chain cf start v p \<Longrightarrow> distinct p"
proof (induction rule: chain.induct)
  case (branch u p v)
  have "v \<notin> set p"
  proof
    assume "v \<in> set p"
    then obtain q r where "chain cf start v q" "p = q @ r" using chain_prefix [OF branch.hyps(1)] by blast
    moreover have "q = p @ [v]" by (rule chain_unique [OF chain.branch [OF branch.hyps] \<open>chain cf start v q\<close>])
    ultimately have "length p = length q + length r" "length q = length p + 1" by (metis length_append, metis length_append_singleton Suc_eq_plus1)
    then show False by linarith
  qed
  with branch.IH show ?case by simp
qed simp

lemma reconstruct_chain: "chain cf start v p \<Longrightarrow> reconstruct cf start v path = Some (Inr (butlast p @ path))"
proof (induction arbitrary: path rule: chain.induct)
  case (branch u p v)
  have "reconstruct cf start v path = reconstruct cf start u (u # path)"
    using branch.hyps(2,3) by (subst reconstruct.simps) simp
  also have "\<dots> = Some (Inr (butlast p @ u # path))" by (rule branch.IH)
  also have "butlast p @ u # path = (butlast p @ [last p]) @ path" using chain_ends [OF branch.hyps(1)] by simp
  also have "butlast p @ [last p] = p" using chain_ends [OF branch.hyps(1)] by (intro append_butlast_last_id) simp
  finally show ?case by simp
qed (subst reconstruct.simps, simp)

text \<open>Giving a cell a new parent that does not descend from it keeps every chain.\<close>

lemma chain_reparent:
  assumes "chain cf start c pc" "n \<notin> set pc" "n \<noteq> start"
  shows "chain cf start v p \<Longrightarrow> \<exists>q. chain (AList.update n c cf) start v q" "chain (AList.update n c cf) start n (pc @ [n])"
proof -
  have keep: "chain (AList.update n c cf) start v p" if "chain cf start v p" "n \<notin> set p" for v p
    using that by (induction rule: chain.induct) (auto intro!: chain.intros simp: update_conv')
  show n: "chain (AList.update n c cf) start n (pc @ [n])"
    by (rule chain.branch [OF keep [OF assms(1,2)] _ assms(3)]) (simp add: update_conv')
  show "\<exists>q. chain (AList.update n c cf) start v q" if "chain cf start v p"
    using that
  proof (induction rule: chain.induct)
    case (branch u p v)
    then obtain q where q: "chain (AList.update n c cf) start u q" by blast
    show ?case
    proof (cases "v = n")
      case False
      with branch.hyps(2) have "map_of (AList.update n c cf) v = Some u" by (simp add: update_conv')
      then show ?thesis using chain.branch [OF q _ branch.hyps(3)] by blast
    qed (use n in blast)
  qed (auto intro: chain.root)
qed

subsection \<open>The invariant\<close>

definition charge :: "(rat \<Rightarrow> rat) \<Rightarrow> nav_grid \<Rightarrow> rat \<Rightarrow> nav_cell \<times> rat \<Rightarrow> rat" where
  "charge rnd g c m = rnd (c + rnd (snd m * traversal_cost g (fst m)))"

definition estimate :: "(rat \<Rightarrow> rat) \<Rightarrow> astar_config \<Rightarrow> nav_cell \<Rightarrow> rat \<Rightarrow> nav_cell \<Rightarrow> rat" where
  "estimate rnd config goal c v = rnd (c + rnd (heuristic_weight config * heuristic rnd v goal))"

text \<open>Recorded costs are those of cells inside the grid, and each is at least what its parent's cost gives.\<close>

definition costs_inv :: "(rat \<Rightarrow> rat) \<Rightarrow> nav_grid \<Rightarrow> nav_cell \<Rightarrow> search_state \<Rightarrow> bool" where
  "costs_inv rnd g start st \<longleftrightarrow> map_of (ss_cost st) start = Some 0
     \<and> (\<forall>v c. map_of (ss_cost st) v = Some c \<longrightarrow> 0 \<le> c \<and> rnd c = c \<and> grid_contains g v \<and> v \<notin> gr_blocked g)
     \<and> (\<forall>v c. map_of (ss_cost st) v = Some c \<longrightarrow> v \<noteq> start \<longrightarrow>
         (\<exists>u cu s. map_of (ss_came_from st) v = Some u \<and> map_of (ss_cost st) u = Some cu \<and> (v, s) \<in> set (neighbors g u) \<and> charge rnd g cu (v, s) \<le> c))
     \<and> (\<forall>v c. map_of (ss_cost st) v = Some c \<longrightarrow> (\<exists>p. chain (ss_came_from st) start v p))"

text \<open>An entry was pushed at a cost its cell has not exceeded since.\<close>

definition frontier_inv :: "(rat \<Rightarrow> rat) \<Rightarrow> astar_config \<Rightarrow> nav_cell \<Rightarrow> nav_cell \<Rightarrow> search_state \<Rightarrow> bool" where
  "frontier_inv rnd config start goal st \<longleftrightarrow> (\<forall>pr i v. (pr, i, v) \<in> set (ss_frontier st) \<longrightarrow>
     (\<exists>c. map_of (ss_cost st) v = Some c \<and> (v = start \<or> (\<exists>c0 \<ge> c. pr = estimate rnd config goal c0 v))))"

text \<open>A recorded cell is open, or it has not arrived and its moves \<open>M\<close> are accounted for.\<close>

definition explored :: "(rat \<Rightarrow> rat) \<Rightarrow> astar_config \<Rightarrow> nav_grid \<Rightarrow> nav_cell \<Rightarrow> (nav_cell \<Rightarrow> bool) \<Rightarrow> (nav_cell \<Rightarrow> (nav_cell \<times> rat) set) \<Rightarrow> search_state \<Rightarrow> bool" where
  "explored rnd config g goal arrived M st \<longleftrightarrow> (\<forall>u c. map_of (ss_cost st) u = Some c \<longrightarrow>
     (\<exists>pr i. (pr, i, u) \<in> set (ss_frontier st) \<and> pr \<le> estimate rnd config goal c u)
     \<or> (\<not> arrived u \<and> (\<forall>m \<in> M u. \<exists>cv. map_of (ss_cost st) (fst m) = Some cv \<and> cv \<le> charge rnd g c m)))"

definition remembered :: "search_state \<Rightarrow> bool" where
  "remembered st \<longleftrightarrow> ss_closest st \<in> dom (map_of (ss_cost st)) \<and> set_option (map_option fst (ss_boundary st)) \<subseteq> dom (map_of (ss_cost st))"

definition astar_inv where
  "astar_inv rnd config g start goal arrived M st \<longleftrightarrow> costs_inv rnd g start st \<and> frontier_inv rnd config start goal st
     \<and> explored rnd config g goal arrived M st \<and> remembered st"

text \<open>What a search may end with, an \<open>arrived\<close> cell being one at which it stops.\<close>

definition search_outcome where
  "search_outcome rnd config g start arrived allow_partial r \<longleftrightarrow>
     (case r of
        Inl e \<Rightarrow> e = AStarRouteNotFound ''A* expansion budget exhausted''
          \<or> (e = AStarRouteNotFound ''A* found no route inside the planning window'' \<and> (\<forall>v p c. route rnd g start v p c \<longrightarrow> \<not> arrived v))
      | Inr (p, n, c) \<Rightarrow> \<exists>v c'. route rnd g start v p c' \<and> c' \<le> c \<and> distinct p \<and> (arrived v \<and> n \<le> maximum_expansions config \<or> allow_partial))"

lemma costs_invD:
  assumes "costs_inv rnd g start st"
  shows "map_of (ss_cost st) start = Some 0"
    "map_of (ss_cost st) v = Some c \<Longrightarrow> 0 \<le> c \<and> rnd c = c \<and> grid_contains g v \<and> v \<notin> gr_blocked g"
    "map_of (ss_cost st) v = Some c \<Longrightarrow> v \<noteq> start \<Longrightarrow>
       \<exists>u cu s. map_of (ss_came_from st) v = Some u \<and> map_of (ss_cost st) u = Some cu \<and> (v, s) \<in> set (neighbors g u) \<and> charge rnd g cu (v, s) \<le> c"
    "map_of (ss_cost st) v = Some c \<Longrightarrow> \<exists>p. chain (ss_came_from st) start v p"
  using assms unfolding costs_inv_def by blast+

context float_rounding
begin

lemma charge_mono: "c \<le> c' \<Longrightarrow> charge rnd g c m \<le> charge rnd g c' m"
  by (simp add: charge_def rnd_mono)

lemma charge_ge: "nav_grid_ok g = Inr () \<Longrightarrow> (v, s) \<in> set (neighbors g u) \<Longrightarrow> rnd c = c \<Longrightarrow> c \<le> charge rnd g c (v, s)"
proof -
  assume "nav_grid_ok g = Inr ()" "(v, s) \<in> set (neighbors g u)" "rnd c = c"
  then have "0 \<le> s * traversal_cost g v" using neighborD(4) [of v s g u] traversal_cost_ge [of g v] by simp
  then have "c \<le> c + rnd (s * traversal_cost g v)" using rnd_nonneg by simp
  then show "c \<le> charge rnd g c (v, s)" using rnd_ge \<open>rnd c = c\<close> by (simp add: charge_def)
qed

lemma chain_costs:
  assumes "chain (ss_came_from st) start v p" "costs_inv rnd g start st" "nav_grid_ok g = Inr ()" "map_of (ss_cost st) v = Some c"
  shows "\<forall>w \<in> set p. \<exists>cw. map_of (ss_cost st) w = Some cw \<and> cw \<le> c" "\<exists>c'. route rnd g start v p c' \<and> c' \<le> c"
proof -
  have "(\<forall>w \<in> set p. \<exists>cw. map_of (ss_cost st) w = Some cw \<and> cw \<le> c) \<and> (\<exists>c'. route rnd g start v p c' \<and> c' \<le> c)"
    using assms(1,4)
  proof (induction arbitrary: c rule: chain.induct)
    case root
    then show ?case using costs_invD(1) [OF assms(2)] route.stay by fastforce
  next
    case (branch u p v)
    from costs_invD(3) [OF assms(2) branch.prems branch.hyps(3)] branch.hyps(2) obtain cu s
      where u: "map_of (ss_cost st) u = Some cu" "(v, s) \<in> set (neighbors g u)" "charge rnd g cu (v, s) \<le> c" by auto
    have "cu \<le> c" using charge_ge [OF assms(3) u(2)] costs_invD(2) [OF assms(2) u(1)] u(3) by fastforce
    moreover from branch.IH [OF u(1)] obtain c' where c': "route rnd g start u p c'" "c' \<le> cu" by blast
    have "route rnd g start v (p @ [v]) (charge rnd g c' (v, s))" using route_neighbor [OF c'(1) u(2)] by (simp add: charge_def)
    moreover have "charge rnd g c' (v, s) \<le> c" using charge_mono [OF c'(2)] u(3) order_trans by blast
    ultimately show ?case using branch.IH [OF u(1)] branch.prems by fastforce
  qed
  then show "\<forall>w \<in> set p. \<exists>cw. map_of (ss_cost st) w = Some cw \<and> cw \<le> c" "\<exists>c'. route rnd g start v p c' \<and> c' \<le> c" by blast+
qed

lemma route_to_Some:
  assumes "costs_inv rnd g start st" "nav_grid_ok g = Inr ()" "map_of (ss_cost st) v = Some c"
  obtains p c' where "route_to start st v = Some (Inr (p, ss_expanded st, c))" "route rnd g start v p c'" "c' \<le> c" "distinct p"
proof -
  obtain p where p: "chain (ss_came_from st) start v p" using costs_invD(4) [OF assms(1,3)] by blast
  obtain c' where c': "route rnd g start v p c'" "c' \<le> c" using chain_costs(2) [OF p assms] by blast
  have "butlast p @ [v] = p" using chain_ends [OF p] append_butlast_last_id by metis
  then have "route_to start st v = Some (Inr (p, ss_expanded st, c))"
    using assms(3) by (simp add: route_to_def reconstruct_chain [OF p] dict_at_def)
  then show thesis using that c' chain_distinct [OF p] by blast
qed

lemma exploredD:
  assumes "explored rnd config g goal arrived M st" "map_of (ss_cost st) u = Some c"
  obtains (opened) pr i where "(pr, i, u) \<in> set (ss_frontier st)" "pr \<le> estimate rnd config goal c u"
  | (settled) "\<not> arrived u" "\<And>v s. (v, s) \<in> M u \<Longrightarrow> \<exists>cv. map_of (ss_cost st) v = Some cv \<and> cv \<le> charge rnd g c (v, s)"
  using assms unfolding explored_def by fastforce

lemma costs_relaxed:
  assumes "costs_inv rnd g start st" "nav_grid_ok g = Inr ()" "map_of (ss_cost st) current = Some cc" "(n, s) \<in> set (neighbors g current)"
    and better: "\<And>old. map_of (ss_cost st) n = Some old \<Longrightarrow> charge rnd g cc (n, s) < old"
    and st': "map_of (ss_cost st') = (map_of (ss_cost st))(n \<mapsto> charge rnd g cc (n, s))" "ss_came_from st' = AList.update n current (ss_came_from st)"
  shows "costs_inv rnd g start st'"
proof -
  note i = costs_invD [OF assms(1)]
  let ?new = "charge rnd g cc (n, s)"
  have new: "cc \<le> ?new" "0 \<le> ?new" "rnd ?new = ?new"
    using charge_ge [OF assms(2,4)] i(2) [OF assms(3)] by (force simp: charge_def)+
  have n: "n \<noteq> start" "n \<noteq> current" using better [of 0] i(1) new neighborD(1) [OF assms(4)] by auto
  obtain pc where pc: "chain (ss_came_from st) start current pc" using i(4) [OF assms(3)] by blast
  have "n \<notin> set pc"
  proof
    assume "n \<in> set pc"
    then obtain cn where "map_of (ss_cost st) n = Some cn" "cn \<le> cc" using chain_costs(1) [OF pc assms(1-3)] by blast
    with better new(1) show False by fastforce
  qed
  note re = chain_reparent [OF pc this n(1)]
  show ?thesis
    unfolding costs_inv_def st'
  proof (intro conjI allI impI)
    show "((map_of (ss_cost st))(n \<mapsto> ?new)) start = Some 0" using i(1) n(1) by simp
  next
    fix v c assume v: "((map_of (ss_cost st))(n \<mapsto> ?new)) v = Some c"
    show "0 \<le> c" "rnd c = c" "grid_contains g v" "v \<notin> gr_blocked g"
      using v i(2) [of v c] new(2,3) neighborD(2,3) [OF assms(4)] by (auto split: if_splits)
    show "\<exists>p. chain (AList.update n current (ss_came_from st)) start v p"
      using v re i(4) [of v c] by (auto split: if_splits)
    assume "v \<noteq> start"
    show "\<exists>u cu t. map_of (AList.update n current (ss_came_from st)) v = Some u \<and> ((map_of (ss_cost st))(n \<mapsto> ?new)) u = Some cu
        \<and> (v, t) \<in> set (neighbors g u) \<and> charge rnd g cu (v, t) \<le> c"
    proof (cases "v = n")
      case True
      with v n(2) assms(3,4) show ?thesis by (intro exI [of _ current] exI [of _ cc] exI [of _ s]) (simp add: update_conv')
    next
      case False
      with v have vc: "map_of (ss_cost st) v = Some c" by simp
      from i(3) [OF vc \<open>v \<noteq> start\<close>] obtain u cu t where u: "map_of (ss_came_from st) v = Some u" "map_of (ss_cost st) u = Some cu"
        "(v, t) \<in> set (neighbors g u)" "charge rnd g cu (v, t) \<le> c" by blast
      show ?thesis
      proof (cases "u = n")
        case True
        have "?new \<le> cu" using better [of cu] u(2) True by fastforce
        then have "charge rnd g ?new (v, t) \<le> c" using charge_mono [of ?new cu] u(4) order_trans by blast
        with True u(1,3) False show ?thesis by (auto simp: update_conv')
      next
        case ne: False
        with u False show ?thesis by (intro exI [of _ u] exI [of _ cu] exI [of _ t]) (simp add: update_conv')
      qed
    qed
  qed
qed

lemma relax_inv:
  assumes inv: "astar_inv rnd config g start goal arrived M st" and ok: "nav_grid_ok g = Inr ()" and cc: "map_of (ss_cost st) current = Some cc"
    and mv: "(n, s) \<in> set (neighbors g current)"
  shows "\<exists>st'. relax rnd config g goal current (n, s) st = Inr st'
    \<and> astar_inv rnd config g start goal arrived (M(current := insert (n, s) (M current))) st' \<and> map_of (ss_cost st') current = Some cc"
proof -
  let ?new = "charge rnd g cc (n, s)"
  let ?M = "M(current := insert (n, s) (M current))"
  have c: "costs_inv rnd g start st" and f: "frontier_inv rnd config start goal st" and x: "explored rnd config g goal arrived M st" and r: "remembered st"
    using inv by (simp_all add: astar_inv_def)
  show ?thesis
  proof (cases "\<exists>old. map_of (ss_cost st) n = Some old \<and> ?new \<ge> old")
    case True
    then have "relax rnd config g goal current (n, s) st = Inr st" by (auto simp: relax_def dict_at_def cc Let_def charge_def)
    moreover have "explored rnd config g goal arrived ?M st"
      using x True cc unfolding explored_def by (auto 0 4)
    ultimately show ?thesis using c f r cc by (auto simp: astar_inv_def)
  next
    case False
    then have better: "?new < old" if "map_of (ss_cost st) n = Some old" for old using that by (auto simp: not_le)
    define st' where "st' = st\<lparr>ss_cost := AList.update n ?new (ss_cost st), ss_came_from := AList.update n current (ss_came_from st),
       ss_order := ss_order st + 1, ss_frontier := (estimate rnd config goal ?new n, ss_order st + 1, n) # ss_frontier st\<rparr>"
    have "\<not> (case map_of (ss_cost st) n of None \<Rightarrow> False | Some old \<Rightarrow> ?new \<ge> old)" using False by (auto split: option.split)
    moreover have e: "?new = rnd (cc + rnd (s * traversal_cost g n))" by (simp add: charge_def)
    ultimately have eq: "relax rnd config g goal current (n, s) st = Inr st'"
      unfolding e st'_def by (simp add: relax_def dict_at_def cc Let_def estimate_def)
    have cost: "map_of (ss_cost st') = (map_of (ss_cost st))(n \<mapsto> ?new)" by (simp add: st'_def update_conv')
    have c': "costs_inv rnd g start st'" by (rule costs_relaxed [OF c ok cc mv better cost]) (simp_all add: st'_def)
    have n: "n \<noteq> current" "n \<noteq> start" using neighborD(1) [OF mv] costs_invD(1) [OF c'] costs_invD(1) [OF c] better [of 0] costs_invD(2) [OF c' , of n ?new] cost by auto
    have front: "set (ss_frontier st') = insert (estimate rnd config goal ?new n, ss_order st + 1, n) (set (ss_frontier st))" by (simp add: st'_def)
    have f': "frontier_inv rnd config start goal st'"
      unfolding frontier_inv_def
    proof safe
      fix pr i v assume "(pr, i, v) \<in> set (ss_frontier st')"
      then consider "v = n" "pr = estimate rnd config goal ?new n" | "(pr, i, v) \<in> set (ss_frontier st)" unfolding front by auto
      then show "\<exists>c. map_of (ss_cost st') v = Some c \<and> (v = start \<or> (\<exists>c0\<ge>c. pr = estimate rnd config goal c0 v))"
      proof cases
        case 2
        with f obtain c1 where c1: "map_of (ss_cost st) v = Some c1" "v = start \<or> (\<exists>c0\<ge>c1. pr = estimate rnd config goal c0 v)"
          unfolding frontier_inv_def by blast
        show ?thesis
        proof (cases "v = n")
          case True
          with c1(1) better have "?new \<le> c1" by (simp add: less_imp_le)
          with True c1(2) n(2) show ?thesis by (auto simp: cost intro: order_trans)
        qed (use c1 in \<open>simp add: cost\<close>)
      qed (auto simp: cost)
    qed
    have x': "explored rnd config g goal arrived ?M st'"
      unfolding explored_def
    proof (intro allI impI)
      fix u cu assume u: "map_of (ss_cost st') u = Some cu"
      show "(\<exists>pr i. (pr, i, u) \<in> set (ss_frontier st') \<and> pr \<le> estimate rnd config goal cu u)
          \<or> (\<not> arrived u \<and> (\<forall>m \<in> ?M u. \<exists>cv. map_of (ss_cost st') (fst m) = Some cv \<and> cv \<le> charge rnd g cu m))"
      proof (cases "u = n")
        case True
        then show ?thesis using u by (auto simp: cost front)
      next
        case un: False
        with u have u0: "map_of (ss_cost st) u = Some cu" by (simp add: cost)
        from x u0 show ?thesis
        proof (cases rule: exploredD)
          case (settled)
          have "\<exists>cv. map_of (ss_cost st') v = Some cv \<and> cv \<le> charge rnd g cu (v, t)" if m: "(v, t) \<in> ?M u" for v t
          proof (cases "(v, t) \<in> M u")
            case True
            from settled(2) [OF this] obtain cv where cv: "map_of (ss_cost st) v = Some cv" "cv \<le> charge rnd g cu (v, t)" by blast
            show ?thesis
            proof (cases "v = n")
              case True
              with cv(1) better have "?new \<le> cv" by (simp add: less_imp_le)
              with True cv(2) show ?thesis by (auto simp: cost)
            qed (use cv in \<open>simp add: cost\<close>)
          next
            case False
            with m have "u = current" "v = n" "t = s" by (auto split: if_splits)
            then show ?thesis using u0 cc by (simp add: cost)
          qed
          with settled(1) show ?thesis by auto
        qed (auto simp: front)
      qed
    qed
    have "remembered st'" using r by (auto simp: remembered_def st'_def update_conv')
    then show ?thesis using eq c' f' x' cc n(1) by (auto simp: astar_inv_def cost)
  qed
qed

lemma expand_inv:
  assumes "astar_inv rnd config g start goal arrived ((\<lambda>u. set (neighbors g u))(current := {})) st" "nav_grid_ok g = Inr ()"
    "map_of (ss_cost st) current = Some cc"
  shows "\<exists>st'. expand rnd config g goal current st = Inr st' \<and> astar_inv rnd config g start goal arrived (\<lambda>u. set (neighbors g u)) st'"
proof -
  have "\<exists>st'. rfold (relax rnd config g goal current) ms st = Inr st' \<and> astar_inv rnd config g start goal arrived (M(current := M current \<union> set ms)) st'"
    if "astar_inv rnd config g start goal arrived M st" "map_of (ss_cost st) current = Some cc" "set ms \<subseteq> set (neighbors g current)" for ms M st
    using that
  proof (induction ms arbitrary: M st)
    case (Cons m ms)
    obtain n s where m: "m = (n, s)" by (cases m)
    from relax_inv [OF Cons.prems(1) assms(2) Cons.prems(2), of n s] Cons.prems(3) m obtain st1
      where 1: "relax rnd config g goal current m st = Inr st1" "astar_inv rnd config g start goal arrived (M(current := insert m (M current))) st1"
        "map_of (ss_cost st1) current = Some cc" by auto
    have e: "(M(current := insert m (M current)))(current := (M(current := insert m (M current))) current \<union> set ms) = M(current := M current \<union> set (m # ms))"
      by auto
    from Cons.prems(3) have "set ms \<subseteq> set (neighbors g current)" by simp
    from Cons.IH [OF 1(2,3) this, unfolded e] obtain st2 where "rfold (relax rnd config g goal current) ms st1 = Inr st2"
      "astar_inv rnd config g start goal arrived (M(current := M current \<union> set (m # ms))) st2" by blast
    with 1(1) show ?case by (intro exI [of _ st2] conjI) (simp, assumption)
  qed simp
  from this [OF assms(1,3) subset_refl] show ?thesis by (simp add: expand_def fun_upd_idem)
qed

lemma initial_inv:
  assumes "grid_contains g start" "start \<notin> gr_blocked g" "0 \<le> heuristic_weight config"
  shows "astar_inv rnd config g start goal arrived M (initial_search rnd start goal)"
proof -
  have "0 \<le> heuristic rnd start goal"
    unfolding heuristic_def Let_def flt_def by (intro rnd_nonneg add_nonneg_nonneg mult_nonneg_nonneg) (simp_all add: SQRT2_def)
  then have "0 \<le> estimate rnd config goal 0 start" using assms(3) by (simp add: estimate_def rnd_nonneg)
  then show ?thesis
    using assms chain.root [of "[]" start]
    by (auto simp: astar_inv_def costs_inv_def frontier_inv_def explored_def remembered_def initial_search_def)
qed

lemma dict_at_Some: "map_of d k = Some v \<Longrightarrow> dict_at d k = Inr v"
  by (simp add: dict_at_def)

text \<open>Taking an entry off the heap and noting what is remembered for a partial route.\<close>

lemma visit_inv:
  assumes "astar_inv rnd config g start goal arrived (\<lambda>u. set (neighbors g u)) st" "heappop (ss_frontier st) = Some ((pr, i, current), rest)"
  obtains st1 cc where "visit rnd g start goal current rest st = Inr st1" "map_of (ss_cost st1) current = Some cc" "costs_inv rnd g start st1" "remembered st1"
    "\<not> arrived current \<Longrightarrow> astar_inv rnd config g start goal arrived ((\<lambda>u. set (neighbors g u))(current := {})) st1"
proof -
  have c: "costs_inv rnd g start st" and f: "frontier_inv rnd config start goal st" and r: "remembered st"
    and x: "explored rnd config g goal arrived (\<lambda>u. set (neighbors g u)) st"
    using assms(1) by (simp_all add: astar_inv_def)
  note h = heappopD [OF assms(2)]
  obtain cc where cc: "map_of (ss_cost st) current = Some cc" using f h(1) unfolding frontier_inv_def by blast
  obtain cl where cl: "map_of (ss_cost st) (ss_closest st) = Some cl" using r by (auto simp: remembered_def)
  let ?st0 = "st\<lparr>ss_frontier := rest, ss_expanded := ss_expanded st + 1\<rparr>"
  obtain s1 where s1: "note_closest rnd goal current ?st0 = Inr s1"
    by (cases "heuristic rnd current goal < ss_closest_heuristic st"; cases "heuristic rnd current goal = ss_closest_heuristic st")
      (simp_all add: note_closest_def Let_def dict_at_Some [OF cc] dict_at_Some [OF cl])
  then have "ss_cost s1 = ss_cost st" using note_closest_fields by fastforce
  then obtain st1 where "note_boundary rnd g start goal current s1 = Inr st1"
    using dict_at_Some [OF cc] by (cases "current \<noteq> start \<and> is_boundary_cell g current") (auto simp: note_boundary_def Let_def)
  with s1 have v: "visit rnd g start goal current rest st = Inr st1" by (simp add: visit_def)
  note vf = visit_fields [OF v]
  have c1: "costs_inv rnd g start st1" using c vf by (simp add: costs_inv_def)
  have "map_option fst (ss_boundary st1) \<in> {map_option fst (ss_boundary st), Some current}" "ss_closest st1 \<in> {ss_closest st, current}"
    "ss_cost st1 = ss_cost st" using vf by blast+
  then have r1: "remembered st1" using r cc unfolding remembered_def by (elim insertE emptyE) auto
  have f1: "frontier_inv rnd config start goal st1" using f vf h(2) unfolding frontier_inv_def by fastforce
  have "explored rnd config g goal arrived ((\<lambda>u. set (neighbors g u))(current := {})) st1" if "\<not> arrived current"
    unfolding explored_def
  proof (intro allI impI)
    fix u cu assume "map_of (ss_cost st1) u = Some cu"
    then have u: "map_of (ss_cost st) u = Some cu" using vf by simp
    show "(\<exists>pr i. (pr, i, u) \<in> set (ss_frontier st1) \<and> pr \<le> estimate rnd config goal cu u)
        \<or> (\<not> arrived u \<and> (\<forall>m \<in> ((\<lambda>u. set (neighbors g u))(current := {})) u. \<exists>cv. map_of (ss_cost st1) (fst m) = Some cv \<and> cv \<le> charge rnd g cu m))"
    proof (cases "u = current")
      case False
      from x u show ?thesis
      proof (cases rule: exploredD)
        case (opened pr' i')
        with False h(3) have "(pr', i', u) \<in> set rest" by auto
        with opened(2) vf show ?thesis by auto
      next
        case settled
        with False vf show ?thesis by auto
      qed
    qed (use that in simp)
  qed
  with c1 f1 r1 have "astar_inv rnd config g start goal arrived ((\<lambda>u. set (neighbors g u))(current := {})) st1" if "\<not> arrived current"
    using that by (simp add: astar_inv_def)
  moreover have "map_of (ss_cost st1) current = Some cc" using cc vf by simp
  ultimately show thesis using that v c1 r1 by blast
qed

text \<open>When nothing is open, the recorded cells are closed under moves, so they are all that can be reached.\<close>

lemma exhausted:
  assumes "astar_inv rnd config g start goal arrived (\<lambda>u. set (neighbors g u)) st" "ss_frontier st = []"
  shows "route rnd g start v p c \<Longrightarrow> \<not> arrived v"
proof -
  have x: "explored rnd config g goal arrived (\<lambda>u. set (neighbors g u)) st" and s: "map_of (ss_cost st) start = Some 0"
    using assms(1) by (simp_all add: astar_inv_def costs_inv_def)
  have settled: "\<not> arrived u \<and> (\<forall>m \<in> set (neighbors g u). fst m \<in> dom (map_of (ss_cost st)))" if "map_of (ss_cost st) u = Some cu" for u cu
    using x that assms(2) unfolding explored_def by fastforce
  have "v \<in> dom (map_of (ss_cost st))" if "route rnd g start v p c" using that
  proof (induction rule: route.induct)
    case (move u p c v)
    then obtain cu where "map_of (ss_cost st) u = Some cu" by blast
    moreover have "(v, step_length u v) \<in> set (neighbors g u)" using move.hyps(2) by (simp add: neighbors_legal)
    ultimately show ?case using settled by fastforce
  qed (use s in blast)
  then show "\<not> arrived v" if "route rnd g start v p c" using that settled by blast
qed

lemma give_up_result:
  assumes "costs_inv rnd g start st" "remembered st" "nav_grid_ok g = Inr ()"
  shows "\<exists>r. give_up start allow_partial message st = Some r \<and> (r = Inl (AStarRouteNotFound message)
    \<or> (allow_partial \<and> (\<exists>p c v c'. r = Inr (p, ss_expanded st, c) \<and> route rnd g start v p c' \<and> c' \<le> c \<and> distinct p)))"
proof (cases "partial_cell start st")
  case (Some v)
  then have "v \<in> dom (map_of (ss_cost st))" using assms(2) by (auto simp: partial_cell_def remembered_def split: option.splits if_splits)
  then obtain c where "map_of (ss_cost st) v = Some c" by blast
  from route_to_Some [OF assms(1,3) this] obtain p c' where "route_to start st v = Some (Inr (p, ss_expanded st, c))" "route rnd g start v p c'" "c' \<le> c" "distinct p" .
  with Some show ?thesis by (cases allow_partial) (auto simp: give_up_def)
qed (simp add: give_up_def)

lemma search_loop_outcome:
  assumes "nav_grid_ok g = Inr ()" "astar_inv rnd config g start goal (has_arrived rnd hypot g goal region) (\<lambda>u. set (neighbors g u)) st"
  shows "\<exists>r. search_loop rnd hypot config g start goal allow_partial region st = Some r
    \<and> search_outcome rnd config g start (has_arrived rnd hypot g goal region) allow_partial r"
  using assms(2)
proof (induction "nat (maximum_expansions config + 1 - ss_expanded st)" arbitrary: st rule: less_induct)
  case less
  let ?arrived = "has_arrived rnd hypot g goal region"
  show ?case
  proof (cases "heappop (ss_frontier st)")
    case None
    then have empty: "ss_frontier st = []" by (simp add: heappop_None)
    have "costs_inv rnd g start st" "remembered st" using less.prems by (simp_all add: astar_inv_def)
    from give_up_result [OF this assms(1), of allow_partial "''A* found no route inside the planning window''"] exhausted [OF less.prems empty]
    show ?thesis unfolding search_loop.simps [of _ _ _ _ _ _ _ _ st] None by (auto simp: search_outcome_def) blast
  next
    case (Some e)
    obtain pr i current rest where e: "heappop (ss_frontier st) = Some ((pr, i, current), rest)" using Some by (cases e) auto
    obtain st1 cc where v: "visit rnd g start goal current rest st = Inr st1" and cc: "map_of (ss_cost st1) current = Some cc"
      and c: "costs_inv rnd g start st1" and r: "remembered st1"
      and inv: "\<not> ?arrived current \<Longrightarrow> astar_inv rnd config g start goal ?arrived ((\<lambda>u. set (neighbors g u))(current := {})) st1"
      using visit_inv [OF less.prems e] by blast
    note unfold = search_loop.simps [of _ _ _ _ _ _ _ _ st]
    consider (budget) "ss_expanded st1 > maximum_expansions config" | (found) "ss_expanded st1 \<le> maximum_expansions config" "?arrived current"
      | (further) "ss_expanded st1 \<le> maximum_expansions config" "\<not> ?arrived current" by linarith
    then show ?thesis
    proof cases
      case budget
      from give_up_result [OF c r assms(1), of allow_partial "''A* expansion budget exhausted''"] budget
      show ?thesis unfolding unfold e by (auto simp: v search_outcome_def) blast
    next
      case found
      from route_to_Some [OF c assms(1) cc] obtain p c' where "route_to start st1 current = Some (Inr (p, ss_expanded st1, cc))"
        "route rnd g start current p c'" "c' \<le> cc" "distinct p" .
      with found show ?thesis unfolding unfold e by (auto simp: v search_outcome_def)
    next
      case further
      from expand_inv [OF inv [OF further(2)] assms(1) cc] obtain st2 where st2: "expand rnd config g goal current st1 = Inr st2"
        "astar_inv rnd config g start goal ?arrived (\<lambda>u. set (neighbors g u)) st2" by blast
      have "nat (maximum_expansions config + 1 - ss_expanded st2) < nat (maximum_expansions config + 1 - ss_expanded st)"
        using expand_expanded [OF st2(1)] visit_fields [OF v] further(1) by simp
      from less.hyps [OF this st2(2)] further show ?thesis unfolding unfold e by (simp add: v st2(1))
    qed
  qed
qed

lemma search_outcome_search:
  assumes "nav_grid_ok g = Inr ()" "grid_contains g start" "0 \<le> heuristic_weight config"
    and "start \<notin> gr_blocked g" "goal \<in> gr_blocked g \<Longrightarrow> allow_partial \<or> region \<noteq> None"
  shows "\<exists>r. search rnd hypot config g start goal allow_partial region = Some r
    \<and> search_outcome rnd config g start (has_arrived rnd hypot g goal region) allow_partial r"
  using search_loop_outcome [OF assms(1) initial_inv [OF assms(2,4,3)]] assms(4,5) by (auto simp: search_def)

end

subsection \<open>The bound on the cost, in exact arithmetic\<close>

definition no_rounding :: "rat \<Rightarrow> rat" where
  "no_rounding = (\<lambda>q. q)"

lemma no_rounding_same [simp]: "no_rounding q = q"
  by (simp add: no_rounding_def)

interpretation exact: float_rounding no_rounding
  by unfold_locales simp_all

lemma octile_step:
  fixes a b a' b' :: int
  assumes "\<bar>a - a'\<bar> \<le> 1" "\<bar>b - b'\<bar> \<le> 1" "a = a' \<or> b = b'"
  shows "of_int (max a b) + (SQRT2 - 1) * of_int (min a b) \<le> 1 + (of_int (max a' b') + (SQRT2 - 1) * of_int (min a' b'))"
proof -
  have "max a b = max a' b' \<and> min a b \<le> min a' b' + 1 \<or> max a b \<le> max a' b' + 1 \<and> min a b \<le> min a' b'" using assms by linarith
  then have "rat_of_int (max a b) = of_int (max a' b') \<and> rat_of_int (min a b) \<le> of_int (min a' b') + 1
      \<or> rat_of_int (max a b) \<le> of_int (max a' b') + 1 \<and> rat_of_int (min a b) \<le> of_int (min a' b')"
    by (metis of_int_1 of_int_add of_int_le_iff)
  then show ?thesis by (auto simp: SQRT2_def)
qed

lemma octile_diagonal:
  fixes a b a' b' :: int
  assumes "\<bar>a - a'\<bar> \<le> 1" "\<bar>b - b'\<bar> \<le> 1"
  shows "of_int (max a b) + (SQRT2 - 1) * of_int (min a b) \<le> SQRT2 + (of_int (max a' b') + (SQRT2 - 1) * of_int (min a' b'))"
proof -
  have "max a b \<le> max a' b' + 1" "min a b \<le> min a' b' + 1" using assms by linarith+
  then have "rat_of_int (max a b) \<le> of_int (max a' b') + 1" "rat_of_int (min a b) \<le> of_int (min a' b') + 1"
    by (metis of_int_1 of_int_add of_int_le_iff)+
  then show ?thesis by (simp add: SQRT2_def)
qed

lemma heuristic_consistent:
  assumes "(v, s) \<in> set (neighbors g u)"
  shows "heuristic no_rounding u goal \<le> s + heuristic no_rounding v goal"
proof -
  have c: "chebyshev v u = 1" by (rule neighborD(5) [OF assms])
  then have d: "\<bar>\<bar>cell_x u - cell_x goal\<bar> - \<bar>cell_x v - cell_x goal\<bar>\<bar> \<le> 1" "\<bar>\<bar>cell_y u - cell_y goal\<bar> - \<bar>cell_y v - cell_y goal\<bar>\<bar> \<le> 1"
    unfolding chebyshev_def by linarith+
  show ?thesis
  proof (cases "cell_x v \<noteq> cell_x u \<and> cell_y v \<noteq> cell_y u")
    case True
    with neighbor_diagonal [OF assms] octile_diagonal [OF d] show ?thesis by (simp add: heuristic_def Let_def flt_def)
  next
    case False
    have "1 \<le> s" by (rule neighborD(4) [OF assms])
    moreover have "\<bar>cell_x u - cell_x goal\<bar> = \<bar>cell_x v - cell_x goal\<bar> \<or> \<bar>cell_y u - cell_y goal\<bar> = \<bar>cell_y v - cell_y goal\<bar>" using False by auto
    from octile_step [OF d this] have "heuristic no_rounding u goal \<le> 1 + heuristic no_rounding v goal" by (simp add: heuristic_def Let_def flt_def)
    ultimately show ?thesis by linarith
  qed
qed

lemma route_nonneg: "route no_rounding g start v p c \<Longrightarrow> nav_grid_ok g = Inr () \<Longrightarrow> 0 \<le> c"
proof (induction rule: route.induct)
  case (move u p c v)
  then show ?case using traversal_cost_ge [of g v] by (simp add: step_length_def SQRT2_def)
qed simp

text \<open>While a route is not settled to its end, some entry of the heap is no dearer than the weight times its cost.\<close>

lemma open_entry_bound:
  assumes inv: "astar_inv no_rounding config g start goal arrived (\<lambda>u. set (neighbors g u)) st" and ok: "nav_grid_ok g = Inr ()" and w: "1 \<le> heuristic_weight config"
    and r: "route no_rounding g start v p c"
  shows "(\<exists>gv. map_of (ss_cost st) v = Some gv \<and> gv \<le> c \<and> \<not> arrived v
        \<and> (\<forall>m \<in> set (neighbors g v). \<exists>cv. map_of (ss_cost st) (fst m) = Some cv \<and> cv \<le> charge no_rounding g gv m))
    \<or> (\<exists>pr i u. (pr, i, u) \<in> set (ss_frontier st) \<and> pr \<le> heuristic_weight config * (c + heuristic no_rounding v goal))"
    (is "?settled v c \<or> ?opened v c")
proof -
  let ?w = "heuristic_weight config"
  have x: "explored no_rounding config g goal arrived (\<lambda>u. set (neighbors g u)) st" and start: "map_of (ss_cost st) start = Some 0"
    using inv by (simp_all add: astar_inv_def costs_inv_def)
  have here: "?settled v c \<or> ?opened v c" if "map_of (ss_cost st) v = Some gv" "gv \<le> c" "0 \<le> c" for v gv c
    using x that(1)
  proof (cases rule: exact.exploredD)
    case (opened pr i)
    have "gv \<le> ?w * c" using that(2,3) w mult_right_mono [of 1 ?w c] by linarith
    then have "pr \<le> ?w * (c + heuristic no_rounding v goal)" using opened(2) by (simp add: estimate_def distrib_left)
    with opened(1) show ?thesis by blast
  next
    case settled
    then have "\<forall>m \<in> set (neighbors g v). \<exists>cv. map_of (ss_cost st) (fst m) = Some cv \<and> cv \<le> charge no_rounding g gv m" by auto
    with that settled(1) show ?thesis by blast
  qed
  from r show ?thesis
  proof (induction rule: route.induct)
    case stay
    show ?case by (rule here [OF start]) simp_all
  next
    case (move u p c v)
    define s where "s = step_length u v"
    have mv: "(v, s) \<in> set (neighbors g u)" using move.hyps(2) by (simp add: neighbors_legal s_def)
    let ?c' = "c + s * traversal_cost g v"
    have st: "s \<le> s * traversal_cost g v" "0 \<le> ?c'"
      using neighborD(4) [OF mv] traversal_cost_ge [OF ok, of v] route_nonneg [OF move.hyps(1) ok] mult_left_mono [of 1 "traversal_cost g v" s] by auto
    from move.IH show ?case
    proof
      assume "?settled u c"
      then obtain gu where gu: "gu \<le> c"
        and all: "\<forall>m \<in> set (neighbors g u). \<exists>cv. map_of (ss_cost st) (fst m) = Some cv \<and> cv \<le> charge no_rounding g gu m" by blast
      from bspec [OF all mv] have "\<exists>cv. map_of (ss_cost st) v = Some cv \<and> cv \<le> charge no_rounding g gu (v, s)" by simp
      with gu obtain cv where cv: "map_of (ss_cost st) v = Some cv" "cv \<le> ?c'" by (auto simp: charge_def)
      show ?thesis using here [OF cv st(2)] by (simp add: s_def)
    next
      assume "?opened u c"
      then obtain pr i x where e: "(pr, i, x) \<in> set (ss_frontier st)" "pr \<le> ?w * (c + heuristic no_rounding u goal)" by blast
      have "c + heuristic no_rounding u goal \<le> ?c' + heuristic no_rounding v goal" using heuristic_consistent [OF mv, of goal] st(1) by linarith
      then have "?w * (c + heuristic no_rounding u goal) \<le> ?w * (?c' + heuristic no_rounding v goal)" using w by (intro mult_left_mono) simp_all
      with e(2) have "pr \<le> ?w * (?c' + heuristic no_rounding v goal)" by (rule order_trans)
      with e(1) show ?thesis unfolding no_rounding_same s_def by blast
    qed
  qed
qed

lemma heuristic_goal: "heuristic no_rounding goal goal = 0"
  by (simp add: heuristic_def flt_def)

lemma popped_goal_bound:
  assumes inv: "astar_inv no_rounding config g start goal (has_arrived no_rounding hypot g goal None) (\<lambda>u. set (neighbors g u)) st"
    and ok: "nav_grid_ok g = Inr ()" and w: "1 \<le> heuristic_weight config"
    and pop: "heappop (ss_frontier st) = Some ((pr, i, current), rest)" and arr: "has_arrived no_rounding hypot g goal None current"
    and r: "route no_rounding g start goal p c" and cc: "map_of (ss_cost st) current = Some cc"
  shows "cc \<le> heuristic_weight config * c"
proof -
  have goal: "current = goal" using arr by (simp add: has_arrived_def)
  from open_entry_bound [OF inv ok w r] arr goal obtain pr' i' u where e: "(pr', i', u) \<in> set (ss_frontier st)" "pr' \<le> heuristic_weight config * c"
    by (auto simp: heuristic_goal)
  have "pr \<le> pr'" using heappopD(4) [OF pop e(1)] by simp
  moreover have "cc \<le> pr \<or> current = start"
    using inv heappopD(1) [OF pop] cc unfolding astar_inv_def frontier_inv_def estimate_def by (fastforce simp: goal heuristic_goal)
  moreover have "cc = 0" if "current = start" using inv cc that by (simp add: astar_inv_def costs_inv_def)
  moreover have "0 \<le> heuristic_weight config * c" using w route_nonneg [OF r ok] by simp
  ultimately show ?thesis using e(2) by linarith
qed

lemma search_loop_bound:
  assumes "nav_grid_ok g = Inr ()" "1 \<le> heuristic_weight config" "route no_rounding g start goal p c"
    and "astar_inv no_rounding config g start goal (has_arrived no_rounding hypot g goal None) (\<lambda>u. set (neighbors g u)) st"
    and "search_loop no_rounding hypot config g start goal False None st = Some (Inr (path, n, cost))"
  shows "cost \<le> heuristic_weight config * c"
  using assms(4,5)
proof (induction "nat (maximum_expansions config + 1 - ss_expanded st)" arbitrary: st rule: less_induct)
  case less
  let ?arrived = "has_arrived no_rounding hypot g goal None"
  note loop = less.prems(2) [unfolded search_loop.simps [of _ _ _ _ _ _ _ _ st]]
  obtain pr i current rest where e: "heappop (ss_frontier st) = Some ((pr, i, current), rest)"
    using loop by (cases "heappop (ss_frontier st)") (auto simp: give_up_def split: option.splits)
  obtain st1 cc where v: "visit no_rounding g start goal current rest st = Inr st1" and cc: "map_of (ss_cost st1) current = Some cc"
    and c: "costs_inv no_rounding g start st1"
    and inv: "\<not> ?arrived current \<Longrightarrow> astar_inv no_rounding config g start goal ?arrived ((\<lambda>u. set (neighbors g u))(current := {})) st1"
    using exact.visit_inv [OF less.prems(1) e] by blast
  have b: "\<not> ss_expanded st1 > maximum_expansions config" using loop e v by (auto simp: give_up_def split: option.splits)
  show ?case
  proof (cases "?arrived current")
    case True
    obtain p' where "route_to start st1 current = Some (Inr (p', ss_expanded st1, cc))" using exact.route_to_Some [OF c assms(1) cc] by blast
    with loop e v b True have "cost = cc" by simp
    moreover have "map_of (ss_cost st) current = Some cc" using cc visit_fields [OF v] by simp
    ultimately show ?thesis using popped_goal_bound [OF less.prems(1) assms(1,2) e True assms(3)] by simp
  next
    case False
    from exact.expand_inv [OF inv [OF False] assms(1) cc] obtain st2 where st2: "expand no_rounding config g goal current st1 = Inr st2"
      "astar_inv no_rounding config g start goal ?arrived (\<lambda>u. set (neighbors g u)) st2" by blast
    have "nat (maximum_expansions config + 1 - ss_expanded st2) < nat (maximum_expansions config + 1 - ss_expanded st)"
      using expand_expanded [OF st2(1)] visit_fields [OF v] b by simp
    then show ?thesis by (rule less.hyps [OF _ st2(2)]) (use loop e v b False st2(1) in simp)
  qed
qed

subsection \<open>Properties\<close>

declare reconstruct.simps [code]

definition corridor :: nav_grid where
  "corridor = \<lparr>gr_cell_size = 20, gr_minimum = NavigationCell 0 0, gr_maximum = NavigationCell 1 1,
     gr_blocked = {NavigationCell 1 0}, gr_costs = [(NavigationCell 0 1, 3)], gr_physical_blocked = {NavigationCell 1 0}\<rparr>"

definition hallway :: nav_grid where
  "hallway = corridor\<lparr>gr_maximum := NavigationCell 0 1, gr_blocked := {}, gr_physical_blocked := {}\<rparr>"

definition default_config :: astar_config where
  "default_config = \<lparr>heuristic_weight = 5 / 4, maximum_expansions = 8000, planning_margin_cells = 8, obstacle_clearance_cells = 1,
     waypoint_radius_fraction = 1 / 2\<rparr>"

text \<open>The diagonal would cut the corner of the obstacle.\<close>

definition detour :: "nav_cell list" where
  "detour = [NavigationCell 0 0, NavigationCell 0 1, NavigationCell 1 1]"

lemma config_weight: "astar_config_ok config = Inr () \<Longrightarrow> 1 \<le> heuristic_weight config"
  by (simp add: astar_config_ok_def split: if_splits)

lemma corridor_ok: "nav_grid_ok corridor = Inr ()" "astar_config_ok default_config = Inr ()"
  "grid_contains corridor (NavigationCell 0 0)" "NavigationCell 0 0 \<notin> gr_blocked corridor"
  by code_simp+

text \<open>C12: The search is sound and complete: it always returns or raises \<open>AStarRouteNotFound\<close>. A returned path is a sequence of
  legal moves from the start to the goal, without repetition, found within the budget of expansions, and costs no
  more than reported; without a path, the budget ran out or no sequence of legal moves leads to the goal.\<close>

theorem search_correct:
  assumes "nav_grid_ok g = Inr ()" "astar_config_ok config = Inr ()" "grid_contains g start" "start \<notin> gr_blocked g"
  shows "case search f64 hypot config g start goal False None of
      None \<Rightarrow> False
    | Some (Inl e) \<Rightarrow> e = AStarRouteNotFound ''A* expansion budget exhausted''
        \<or> ((\<exists>message. e = AStarRouteNotFound message) \<and> (\<nexists>path c. route f64 g start goal path c))
    | Some (Inr (path, expanded, cost)) \<Rightarrow> distinct path \<and> expanded \<le> maximum_expansions config \<and> (\<exists>c. route f64 g start goal path c \<and> c \<le> cost)"
proof (cases "goal \<in> gr_blocked g")
  case True
  have "\<not> route f64 g start goal path c" for path c
  proof
    assume "route f64 g start goal path c"
    then show False by (cases rule: route.cases) (use True assms(4) in \<open>auto simp: legal_move_def\<close>)
  qed
  then show ?thesis using True by (simp add: search_def)
next
  case False
  have w: "0 \<le> heuristic_weight config" using config_weight [OF assms(2)] by simp
  from f64.search_outcome_search [OF assms(1,3) w assms(4), of goal False None hypot] False obtain r
    where r: "search f64 hypot config g start goal False None = Some r" "search_outcome f64 config g start (has_arrived f64 hypot g goal None) False r" by blast
  have arr: "has_arrived f64 hypot g goal None v \<longleftrightarrow> v = goal" for v using False by (auto simp: has_arrived_def)
  show ?thesis
  proof (cases r)
    case (Inl e)
    then show ?thesis using r(2) unfolding r(1) search_outcome_def arr by (simp, blast)
  next
    case (Inr x)
    then show ?thesis using r(2) unfolding r(1) search_outcome_def arr by (cases x) (simp, blast)
  qed
qed

theorem search_correct_witness:
  "\<exists>cost c. search f64 (\<lambda>x y. 0) default_config hallway (NavigationCell 0 0) (NavigationCell 0 1) False None
       = Some (Inr ([NavigationCell 0 0, NavigationCell 0 1], 2, cost))
     \<and> route f64 hallway (NavigationCell 0 0) (NavigationCell 0 1) [NavigationCell 0 0, NavigationCell 0 1] c \<and> c \<le> cost"
proof -
  have s: "search f64 (\<lambda>x y. 0) default_config hallway (NavigationCell 0 0) (NavigationCell 0 1) False None
      = Some (Inr ([NavigationCell 0 0, NavigationCell 0 1], 2, 3))" by code_simp
  have "nav_grid_ok hallway = Inr ()" "grid_contains hallway (NavigationCell 0 0)" "NavigationCell 0 0 \<notin> gr_blocked hallway" by code_simp+
  from search_correct [OF this(1) corridor_ok(2) this(2,3), where hypot = "\<lambda>x y. 0" and goal = "NavigationCell 0 1"] show ?thesis unfolding s by auto
qed

text \<open>C13: The returned path is nearly a cheapest one: computed without rounding, its cost is at most the heuristic weight times the
  cost of any sequence of legal moves to the goal.\<close>

theorem search_near_optimal:
  assumes "nav_grid_ok g = Inr ()" "astar_config_ok config = Inr ()" "grid_contains g start"
    and "search no_rounding hypot config g start goal False None = Some (Inr (path, expanded, cost))" "route no_rounding g start goal p c"
  shows "cost \<le> heuristic_weight config * c"
proof -
  note w = config_weight [OF assms(2)]
  have s: "start \<notin> gr_blocked g" "search_loop no_rounding hypot config g start goal False None (initial_search no_rounding start goal) = Some (Inr (path, expanded, cost))"
    using assms(4) by (auto simp: search_def split: if_splits)
  show ?thesis by (rule search_loop_bound [OF assms(1) w assms(5) exact.initial_inv [OF assms(3) s(1)] s(2)]) (use w in simp)
qed

theorem search_near_optimal_witness:
  "\<exists>c. route no_rounding corridor (NavigationCell 0 0) (NavigationCell 1 1) detour c \<and> 4 \<le> 5 / 4 * c"
proof -
  have s: "search no_rounding (\<lambda>x y. 0) default_config corridor (NavigationCell 0 0) (NavigationCell 1 1) False None = Some (Inr (detour, 3, 4))" by code_simp
  have "\<exists>c. route no_rounding corridor (NavigationCell 0 0) (NavigationCell 1 1) detour c"
    using exact.search_outcome_search [OF corridor_ok(1,3) _ corridor_ok(4), of default_config "NavigationCell 1 1" False None "\<lambda>x y. 0"]
    unfolding s by (auto simp: search_outcome_def has_arrived_def default_config_def corridor_def)
  then obtain c where c: "route no_rounding corridor (NavigationCell 0 0) (NavigationCell 1 1) detour c" by blast
  with search_near_optimal [OF corridor_ok(1-3) s c] show ?thesis by (auto simp: default_config_def)
qed

end
