(* ===== verification/Nav_Smooth.thy ===== *)
theory Nav_Smooth
  imports Nav_Astar
begin

text \<open>
  Smoothing a found path (\<^verbatim>\<open>travel/pathfinding.py\<close>, \<open>_line_cost\<close>, \<open>_shortcut_preserves_cost\<close> and \<open>_smooth\<close>). The line between two cells is
  Bresenham's; its loop has no bound in the code, so it is a \<open>partial_function\<close>, and that it ends, at the other
  cell and after as many steps as the cells are apart, is proved.
\<close>

subsection \<open>Lines\<close>

record line =
  ln_x :: int
  ln_y :: int
  ln_error :: int
  ln_cost :: rat

text \<open>One round of the loop after the check for the end; \<open>None\<close> is a blocked corner.\<close>

definition line_step :: "(rat \<Rightarrow> rat) \<Rightarrow> nav_grid \<Rightarrow> int \<Rightarrow> int \<Rightarrow> int \<Rightarrow> int \<Rightarrow> line \<Rightarrow> line option" where
  "line_step rnd g delta_x delta_y step_x step_y l =
     (let doubled = 2 * ln_error l;
          along_x = doubled > - delta_y; along_y = doubled < delta_x;
          error = ln_error l - (if along_x then delta_y else 0) + (if along_y then delta_x else 0);
          x = (if along_x then ln_x l + step_x else ln_x l); y = (if along_y then ln_y l + step_y else ln_y l);
          diagonal = (x \<noteq> ln_x l \<and> y \<noteq> ln_y l)
      in if diagonal \<and> (NavigationCell x (ln_y l) \<in> gr_blocked g \<or> NavigationCell (ln_x l) y \<in> gr_blocked g) then None
         else Some \<lparr>ln_x = x, ln_y = y, ln_error = error,
           ln_cost = rnd (ln_cost l + rnd ((if diagonal then SQRT2 else 1) * traversal_cost g (NavigationCell x y)))\<rparr>)"

partial_function (option) line_loop ::
    "(rat \<Rightarrow> rat) \<Rightarrow> nav_grid \<Rightarrow> nav_cell \<Rightarrow> int \<Rightarrow> int \<Rightarrow> int \<Rightarrow> int \<Rightarrow> line \<Rightarrow> rat option option" where
  "line_loop rnd g end_cell delta_x delta_y step_x step_y l =
     (if NavigationCell (ln_x l) (ln_y l) \<in> gr_blocked g then Some None
      else if ln_x l = cell_x end_cell \<and> ln_y l = cell_y end_cell then Some (Some (ln_cost l))
      else case line_step rnd g delta_x delta_y step_x step_y l of
        None \<Rightarrow> Some None
      | Some l' \<Rightarrow> line_loop rnd g end_cell delta_x delta_y step_x step_y l')"

definition line_cost :: "(rat \<Rightarrow> rat) \<Rightarrow> nav_grid \<Rightarrow> nav_cell \<Rightarrow> nav_cell \<Rightarrow> rat option option" where
  "line_cost rnd g start end_cell =
     (let delta_x = \<bar>cell_x end_cell - cell_x start\<bar>; delta_y = \<bar>cell_y end_cell - cell_y start\<bar>
      in line_loop rnd g end_cell delta_x delta_y
        (if cell_x start < cell_x end_cell then 1 else - 1) (if cell_y start < cell_y end_cell then 1 else - 1)
        \<lparr>ln_x = cell_x start, ln_y = cell_y start, ln_error = delta_x - delta_y, ln_cost = 0\<rparr>)"

subsection \<open>Shortcuts\<close>

fun path_cost :: "(rat \<Rightarrow> rat) \<Rightarrow> nav_grid \<Rightarrow> rat \<Rightarrow> nav_cell list \<Rightarrow> rat" where
  "path_cost rnd g cost (previous # cell # cells) =
     path_cost rnd g (rnd (cost + rnd ((if cell_x previous \<noteq> cell_x cell \<and> cell_y previous \<noteq> cell_y cell then SQRT2 else 1) * traversal_cost g cell)))
       (cell # cells)"
| "path_cost rnd g cost cells = cost"

definition shortcut_preserves_cost :: "(rat \<Rightarrow> rat) \<Rightarrow> nav_grid \<Rightarrow> nav_cell list \<Rightarrow> bool option" where
  "shortcut_preserves_cost rnd g original =
     map_option (\<lambda>shortcut. case shortcut of None \<Rightarrow> False
        | Some cost \<Rightarrow> cost \<le> rnd (path_cost rnd g 0 original + rnd (1 / 10 ^ 9)))
       (line_cost rnd g (hd original) (last original))"

definition cell_slice :: "nat \<Rightarrow> nat \<Rightarrow> 'a list \<Rightarrow> 'a list" where
  "cell_slice i j xs = take (j - i) (drop i xs)"

text \<open>The inner loop: the farthest cell a shortcut may lead to.\<close>

fun farthest :: "(rat \<Rightarrow> rat) \<Rightarrow> nav_grid \<Rightarrow> nav_cell list \<Rightarrow> nat \<Rightarrow> nat \<Rightarrow> nat option" where
  "farthest rnd g cells anchor candidate =
     (if candidate > anchor + 1
      then Option.bind (shortcut_preserves_cost rnd g (cell_slice anchor (candidate + 1) cells)) (\<lambda>preserves.
        if preserves then Some candidate else farthest rnd g cells anchor (candidate - 1))
      else Some candidate)"

declare farthest.simps [simp del]

lemma farthest_bounds: "farthest rnd g cells anchor candidate = Some c \<Longrightarrow> anchor < candidate \<Longrightarrow> anchor < c \<and> c \<le> candidate"
proof (induction rnd g cells anchor candidate rule: farthest.induct)
  case (1 rnd g cells anchor candidate)
  show ?case
  proof (cases "candidate > anchor + 1")
    case True
    with "1.prems"(1) obtain b where b: "shortcut_preserves_cost rnd g (cell_slice anchor (candidate + 1) cells) = Some b"
      "(if b then Some candidate else farthest rnd g cells anchor (candidate - 1)) = Some c"
      by (subst (asm) farthest.simps) (auto simp: bind_eq_Some_conv split: if_splits)
    show ?thesis
    proof (cases b)
      case False
      have "anchor < candidate - 1" using True by simp
      from "1.IH" [OF True b(1) False _ this] b(2) False show ?thesis by auto
    qed (use b True in auto)
  qed (use "1.prems" in \<open>subst (asm) farthest.simps, auto\<close>)
qed

function smooth_from :: "(rat \<Rightarrow> rat) \<Rightarrow> nav_grid \<Rightarrow> nav_cell list \<Rightarrow> nat \<Rightarrow> nav_cell list option" where
  "smooth_from rnd g cells anchor =
     (if anchor + 1 < length cells
      then (case farthest rnd g cells anchor (length cells - 1) of
          None \<Rightarrow> None
        | Some candidate \<Rightarrow> map_option (\<lambda>rest. cells ! candidate # rest) (smooth_from rnd g cells candidate))
      else Some [])"
  by pat_completeness auto

termination
  by (relation "measure (\<lambda>(rnd, g, cells, anchor). length cells - anchor)") (auto dest!: farthest_bounds)

declare smooth_from.simps [simp del]

definition smooth :: "(rat \<Rightarrow> rat) \<Rightarrow> nav_grid \<Rightarrow> nav_cell list \<Rightarrow> nav_cell list option" where
  "smooth rnd g cells =
     (if length cells \<le> 2 then Some cells else map_option (\<lambda>rest. hd cells # rest) (smooth_from rnd g cells 0))"

subsection \<open>Bresenham's line\<close>

text \<open>After \<open>i\<close> steps along one axis and \<open>j\<close> along the other the error is a linear function of both; along the longer axis
  there is a step in every round.\<close>

definition line_error :: "int \<Rightarrow> int \<Rightarrow> int \<Rightarrow> int \<Rightarrow> int" where
  "line_error dx dy i j = dx * (1 + j) - dy * (1 + i)"

definition on_line :: "int \<Rightarrow> int \<Rightarrow> int \<Rightarrow> int \<Rightarrow> bool" where
  "on_line dx dy i j \<longleftrightarrow> 0 \<le> i \<and> i \<le> dx \<and> 0 \<le> j \<and> j \<le> dy
     \<and> (if dy \<le> dx then - dy < 2 * line_error dx dy i j \<and> 2 * line_error dx dy i j < 3 * dx - 2 * dy
        else 2 * dx - 3 * dy < 2 * line_error dx dy i j \<and> 2 * line_error dx dy i j < dx)"

lemma minor_bound:
  fixes dx dy i j :: int
  assumes "2 * (dx * (1 + j) - dy * (1 + i)) < 3 * dx - 2 * dy" "i \<le> dx" "0 < dx" "0 \<le> dy"
  shows "j \<le> dy"
proof (rule ccontr)
  assume "\<not> j \<le> dy"
  then have "dx * (dy + 2) \<le> dx * (1 + j)" using assms(3) by (intro mult_left_mono) auto
  moreover have "dy * (1 + i) \<le> dy * (1 + dx)" using assms(2,4) by (intro mult_left_mono) auto
  ultimately show False using assms(1,3) by (simp add: algebra_simps)
qed

lemma minor_end:
  fixes dx dy j :: int
  assumes "- dy < 2 * (dx * (1 + j) - dy * (1 + dx))" "0 \<le> dx" "0 \<le> dy"
  shows "dy \<le> j"
proof (rule ccontr)
  assume "\<not> dy \<le> j"
  then have "dx * (1 + j) \<le> dx * dy" using assms(2) by (intro mult_left_mono) auto
  with assms(1,3) show False by (simp add: algebra_simps)
qed

lemma line_error_swap: "line_error dy dx j i = - line_error dx dy i j"
  by (simp add: line_error_def)

lemma on_line_swap: "dx \<noteq> dy \<Longrightarrow> on_line dy dx j i \<longleftrightarrow> on_line dx dy i j"
  unfolding on_line_def line_error_swap [of dy dx j i] by auto

lemma on_line_start: "0 \<le> dx \<Longrightarrow> 0 \<le> dy \<Longrightarrow> 0 < dx \<or> 0 < dy \<Longrightarrow> on_line dx dy 0 0"
  by (auto simp: on_line_def line_error_def)

lemma major_step:
  assumes "on_line dx dy i j" "dy \<le> dx" "(i, j) \<noteq> (dx, dy)"
  shows "- dy < 2 * line_error dx dy i j" "on_line dx dy (i + 1) (if 2 * line_error dx dy i j < dx then j + 1 else j)"
proof -
  let ?e = "line_error dx dy i j"
  have b: "0 \<le> i" "i \<le> dx" "0 \<le> j" "j \<le> dy" "- dy < 2 * ?e" "2 * ?e < 3 * dx - 2 * dy" using assms(1,2) by (simp_all add: on_line_def)
  show "- dy < 2 * ?e" by (rule b(5))
  have "i \<noteq> dx"
  proof
    assume "i = dx"
    with b(4) minor_end [of dy dx j] b(1,3,5) assms(3) show False by (auto simp: line_error_def)
  qed
  with b have i: "0 \<le> i + 1" "i + 1 \<le> dx" "0 < dx" "0 \<le> dy" by auto
  let ?j = "if 2 * ?e < dx then j + 1 else j"
  have e: "line_error dx dy (i + 1) ?j = ?e - dy + (if 2 * ?e < dx then dx else 0)" by (simp add: line_error_def algebra_simps)
  have r: "- dy < 2 * line_error dx dy (i + 1) ?j" "2 * line_error dx dy (i + 1) ?j < 3 * dx - 2 * dy"
    unfolding e using b(5,6) assms(2) i(3,4) by auto
  then have "?j \<le> dy" using minor_bound [of dx ?j dy "i + 1"] i(2-4) by (simp add: line_error_def)
  then show "on_line dx dy (i + 1) ?j" unfolding on_line_def using r i(1,2) b(3) assms(2) by simp
qed

lemma on_line_step:
  assumes "on_line dx dy i j" "(i, j) \<noteq> (dx, dy)"
  shows "on_line dx dy (if 2 * line_error dx dy i j > - dy then i + 1 else i) (if 2 * line_error dx dy i j < dx then j + 1 else j)"
    "2 * line_error dx dy i j > - dy \<or> 2 * line_error dx dy i j < dx"
proof -
  let ?e = "line_error dx dy i j"
  have "on_line dx dy (if 2 * ?e > - dy then i + 1 else i) (if 2 * ?e < dx then j + 1 else j) \<and> (2 * ?e > - dy \<or> 2 * ?e < dx)"
  proof (cases "dy \<le> dx")
    case True
    from major_step [OF assms(1) True assms(2)] show ?thesis by simp
  next
    case False
    then have sw: "on_line dy dx j i" using on_line_swap [of dx dy j i] assms(1) by auto
    have e: "line_error dy dx j i = - ?e" by (rule line_error_swap)
    from major_step [OF sw, unfolded e] False assms(2) have "2 * ?e < dx" "on_line dy dx (j + 1) (if - (2 * ?e) < dy then i + 1 else i)" by auto
    moreover have "(- (2 * ?e) < dy) = (2 * ?e > - dy)" by linarith
    ultimately show ?thesis using on_line_swap [of dx dy "j + 1" "if 2 * ?e > - dy then i + 1 else i"] False by auto
  qed
  then show "on_line dx dy (if 2 * ?e > - dy then i + 1 else i) (if 2 * ?e < dx then j + 1 else j)" "2 * ?e > - dy \<or> 2 * ?e < dx" by blast+
qed

definition line_point :: "nav_cell \<Rightarrow> int \<Rightarrow> int \<Rightarrow> int \<Rightarrow> int \<Rightarrow> nav_cell" where
  "line_point start step_x step_y i j = NavigationCell (cell_x start + i * step_x) (cell_y start + j * step_y)"

definition line_at :: "nav_cell \<Rightarrow> int \<Rightarrow> int \<Rightarrow> int \<Rightarrow> int \<Rightarrow> int \<Rightarrow> int \<Rightarrow> line \<Rightarrow> bool" where
  "line_at start dx dy step_x step_y i j l \<longleftrightarrow>
     NavigationCell (ln_x l) (ln_y l) = line_point start step_x step_y i j \<and> ln_error l = line_error dx dy i j"

lemma line_step_at:
  assumes "line_step rnd g dx dy sx sy l = Some l'" "line_at start dx dy sx sy i j l" "on_line dx dy i j" "(i, j) \<noteq> (dx, dy)"
    and "sx \<in> {1, - 1}" "sy \<in> {1, - 1}"
  obtains i' j' where "line_at start dx dy sx sy i' j' l'" "on_line dx dy i' j'" "i + j < i' + j'"
    "chebyshev (line_point start sx sy i' j') (line_point start sx sy i j) = 1"
    "i' = i \<or> j' = j \<or> (line_point start sx sy i' j \<notin> gr_blocked g \<and> line_point start sx sy i j' \<notin> gr_blocked g)"
    "ln_cost l' = rnd (ln_cost l + rnd (step_length (line_point start sx sy i j) (line_point start sx sy i' j') * traversal_cost g (line_point start sx sy i' j')))"
proof -
  let ?e = "line_error dx dy i j"
  let ?i = "if 2 * ?e > - dy then i + 1 else i" and ?j = "if 2 * ?e < dx then j + 1 else j"
  have l: "ln_x l = cell_x start + i * sx" "ln_y l = cell_y start + j * sy" "ln_error l = ?e"
    using assms(2) by (simp_all add: line_at_def line_point_def)
  have st: "on_line dx dy ?i ?j" "2 * ?e > - dy \<or> 2 * ?e < dx" by (rule on_line_step [OF assms(3,4)])+
  have s: "sx \<noteq> 0" "sy \<noteq> 0" "\<bar>sx\<bar> = 1" "\<bar>sy\<bar> = 1" using assms(5,6) by auto
  have e: "line_error dx dy ?i ?j = ?e - (if 2 * ?e > - dy then dy else 0) + (if 2 * ?e < dx then dx else 0)" by (simp add: line_error_def algebra_simps)
  have x: "(if 2 * ?e > - dy then cell_x start + i * sx + sx else cell_x start + i * sx) = cell_x start + ?i * sx"
    "(if 2 * ?e < dx then cell_y start + j * sy + sy else cell_y start + j * sy) = cell_y start + ?j * sy" by (simp_all add: algebra_simps)
  note step = assms(1) [unfolded line_step_def Let_def l x]
  have diag: "(cell_x start + ?i * sx \<noteq> cell_x start + i * sx) = (2 * ?e > - dy)" "(cell_y start + ?j * sy \<noteq> cell_y start + j * sy) = (2 * ?e < dx)"
    using s(1,2) by auto
  show thesis
  proof (rule that [of ?i ?j])
    show "line_at start dx dy sx sy ?i ?j l'" using step e by (auto simp: line_at_def line_point_def split: if_split_asm)
    show "i + j < ?i + ?j" using st(2) by auto
    show "chebyshev (line_point start sx sy ?i ?j) (line_point start sx sy i j) = 1"
      using st(2) s by (auto simp: chebyshev_def line_point_def algebra_simps)
    show "?i = i \<or> ?j = j \<or> (line_point start sx sy ?i j \<notin> gr_blocked g \<and> line_point start sx sy i ?j \<notin> gr_blocked g)"
      using step unfolding diag by (auto simp: line_point_def split: if_split_asm)
    show "ln_cost l' = rnd (ln_cost l + rnd (step_length (line_point start sx sy i j) (line_point start sx sy ?i ?j) * traversal_cost g (line_point start sx sy ?i ?j)))"
      using step unfolding diag step_length_def line_point_def nav_cell.sel by (auto split: if_split_asm)
  qed (rule st(1))
qed

lemma line_point_same: "sx \<noteq> 0 \<Longrightarrow> sy \<noteq> 0 \<Longrightarrow> line_point start sx sy i j = line_point start sx sy i' j' \<longleftrightarrow> i = i' \<and> j = j'"
  by (auto simp: line_point_def)

lemma line_legal:
  assumes "chebyshev (line_point start sx sy i' j') (line_point start sx sy i j) = 1" "line_point start sx sy i' j' \<notin> gr_blocked g"
    and "i' = i \<or> j' = j \<or> (line_point start sx sy i' j \<notin> gr_blocked g \<and> line_point start sx sy i j' \<notin> gr_blocked g)"
    and "grid_contains g (line_point start sx sy i' j')"
  shows "legal_move g (line_point start sx sy i j) (line_point start sx sy i' j')"
  using assms by (auto simp: legal_move_def line_point_def)

text \<open>The loop ends, and a clear line is a route that costs what the loop says.\<close>

lemma line_loop_route:
  assumes "sx \<in> {1, - 1}" "sy \<in> {1, - 1}" "\<And>i j. 0 \<le> i \<Longrightarrow> i \<le> dx \<Longrightarrow> 0 \<le> j \<Longrightarrow> j \<le> dy \<Longrightarrow> grid_contains g (line_point start sx sy i j)"
    and "line_at start dx dy sx sy i j l" "on_line dx dy i j"
  shows "\<exists>r. line_loop rnd g (line_point start sx sy dx dy) dx dy sx sy l = Some r
    \<and> (\<forall>c p. r = Some c \<longrightarrow> (line_point start sx sy i j \<notin> gr_blocked g \<longrightarrow> route rnd g start (line_point start sx sy i j) p (ln_cost l))
        \<longrightarrow> (\<exists>q. route rnd g start (line_point start sx sy dx dy) (p @ q) c))"
  using assms(4,5)
proof (induction "nat (dx + dy - (i + j))" arbitrary: i j l rule: less_induct)
  case less
  let ?P = "line_point start sx sy"
  have here: "NavigationCell (ln_x l) (ln_y l) = ?P i j" using less.prems(1) by (simp add: line_at_def)
  have s: "sx \<noteq> 0" "sy \<noteq> 0" using assms(1,2) by auto
  have at_end: "ln_x l = cell_x (?P dx dy) \<and> ln_y l = cell_y (?P dx dy) \<longleftrightarrow> i = dx \<and> j = dy"
    using here line_point_same [OF s, of start i j dx dy] by (metis nav_cell.collapse nav_cell.sel)
  note unfold = line_loop.simps [of rnd g "?P dx dy" dx dy sx sy l, unfolded here at_end]
  show ?case
  proof (cases "?P i j \<in> gr_blocked g \<or> (i = dx \<and> j = dy)")
    case True
    then show ?thesis by (subst unfold) (auto intro: exI [of _ "[]"])
  next
    case False
    show ?thesis
    proof (cases "line_step rnd g dx dy sx sy l")
      case None
      with False show ?thesis by (subst unfold) auto
    next
      case (Some l')
      from False have "(i, j) \<noteq> (dx, dy)" by auto
      from line_step_at [OF Some less.prems this assms(1,2)] obtain i' j' where st: "line_at start dx dy sx sy i' j' l'" "on_line dx dy i' j'" "i + j < i' + j'"
        and mv: "chebyshev (?P i' j') (?P i j) = 1" "i' = i \<or> j' = j \<or> (?P i' j \<notin> gr_blocked g \<and> ?P i j' \<notin> gr_blocked g)"
        and cost: "ln_cost l' = rnd (ln_cost l + rnd (step_length (?P i j) (?P i' j') * traversal_cost g (?P i' j')))" .
      have b: "0 \<le> i'" "i' \<le> dx" "0 \<le> j'" "j' \<le> dy" using st(2) by (simp_all add: on_line_def)
      then have "nat (dx + dy - (i' + j')) < nat (dx + dy - (i + j))" using st(3) by simp
      from less.hyps [OF this st(1,2)] obtain r where r: "line_loop rnd g (?P dx dy) dx dy sx sy l' = Some r"
        and q: "\<And>c p. r = Some c \<Longrightarrow> (?P i' j' \<notin> gr_blocked g \<longrightarrow> route rnd g start (?P i' j') p (ln_cost l')) \<Longrightarrow> \<exists>q. route rnd g start (?P dx dy) (p @ q) c" by blast
      have "\<exists>q. route rnd g start (?P dx dy) (p @ q) c" if "r = Some c" "?P i j \<notin> gr_blocked g \<longrightarrow> route rnd g start (?P i j) p (ln_cost l)" for c p
      proof -
        have "route rnd g start (?P i' j') (p @ [?P i' j']) (ln_cost l')" if "?P i' j' \<notin> gr_blocked g"
          unfolding cost by (rule route.move [OF _ line_legal [OF mv(1) that mv(2) assms(3) [OF b]]]) (use False \<open>?P i j \<notin> gr_blocked g \<longrightarrow> _\<close> in blast)
        then show ?thesis using q [OF that(1), of "p @ [?P i' j']"] by auto
      qed
      then show ?thesis by (subst unfold) (use False Some r in auto)
    qed
  qed
qed

lemma between_line:
  assumes "grid_contains g start" "grid_contains g (line_point start sx sy dx dy)" "sx \<in> {1, - 1}" "sy \<in> {1, - 1}" "0 \<le> i" "i \<le> dx" "0 \<le> j" "j \<le> dy"
  shows "grid_contains g (line_point start sx sy i j)"
  using assms by (auto simp: grid_contains_def between_def line_point_def)

lemma line_cost_route:
  assumes "grid_contains g start" "grid_contains g end_cell"
  shows "\<exists>r. line_cost rnd g start end_cell = Some r \<and> (\<forall>c. r = Some c \<longrightarrow> (\<exists>p. route rnd g start end_cell p c))"
proof -
  define dx where "dx = \<bar>cell_x end_cell - cell_x start\<bar>"
  define dy where "dy = \<bar>cell_y end_cell - cell_y start\<bar>"
  define sx :: int where "sx = (if cell_x start < cell_x end_cell then 1 else - 1)"
  define sy :: int where "sy = (if cell_y start < cell_y end_cell then 1 else - 1)"
  let ?l = "\<lparr>ln_x = cell_x start, ln_y = cell_y start, ln_error = dx - dy, ln_cost = 0\<rparr>"
  have s: "sx \<in> {1, - 1}" "sy \<in> {1, - 1}" "0 \<le> dx" "0 \<le> dy" by (simp_all add: sx_def sy_def dx_def dy_def)
  have e: "end_cell = line_point start sx sy dx dy" by (cases end_cell) (auto simp: line_point_def sx_def sy_def dx_def dy_def)
  have start: "line_point start sx sy 0 0 = start" by (simp add: line_point_def)
  have lc: "line_cost rnd g start end_cell = line_loop rnd g end_cell dx dy sx sy ?l" by (simp add: line_cost_def Let_def dx_def dy_def sx_def sy_def)
  show ?thesis
  proof (cases "dx = 0 \<and> dy = 0")
    case True
    then have "end_cell = start" using e start by simp
    then show ?thesis unfolding lc by (subst line_loop.simps) (auto intro: route.stay)
  next
    case False
    have at: "line_at start dx dy sx sy 0 0 ?l" by (simp add: line_at_def line_point_def line_error_def)
    have on: "on_line dx dy 0 0" using s(3,4) False by (intro on_line_start) auto
    have inside: "grid_contains g (line_point start sx sy i j)" if "0 \<le> i" "i \<le> dx" "0 \<le> j" "j \<le> dy" for i j
      by (rule between_line [OF assms(1) assms(2) [unfolded e] s(1,2) that])
    from line_loop_route [OF s(1,2) inside at on, of rnd] obtain r where "line_loop rnd g end_cell dx dy sx sy ?l = Some r"
      "\<forall>c p. r = Some c \<longrightarrow> (start \<notin> gr_blocked g \<longrightarrow> route rnd g start start p 0) \<longrightarrow> (\<exists>q. route rnd g start end_cell (p @ q) c)"
      unfolding e [symmetric] start by auto
    then show ?thesis unfolding lc using route.stay by blast
  qed
qed

subsection \<open>Smoothing\<close>

text \<open>A hop from one cell of a path to a later one that can be walked, at no more than the cost of the path in between and the
  tolerance of the code.\<close>

definition hop :: "(rat \<Rightarrow> rat) \<Rightarrow> nav_grid \<Rightarrow> nav_cell list \<Rightarrow> nav_cell \<Rightarrow> nav_cell \<Rightarrow> bool" where
  "hop rnd g cells a b \<longleftrightarrow> (\<exists>m n p c. m < n \<and> n < length cells \<and> a = cells ! m \<and> b = cells ! n \<and> route rnd g a b p c
     \<and> c \<le> rnd (path_cost rnd g 0 (cell_slice m (Suc n) cells) + rnd (1 / 10 ^ 9)))"

definition walkable :: "nav_grid \<Rightarrow> nav_cell list \<Rightarrow> bool" where
  "walkable g cells \<longleftrightarrow> (\<forall>cell \<in> set cells. grid_contains g cell) \<and> (\<forall>i. Suc i < length cells \<longrightarrow> legal_move g (cells ! i) (cells ! Suc i))"

lemma route_walkable: "route rnd g start v p c \<Longrightarrow> grid_contains g start \<Longrightarrow> walkable g p"
proof (induction rule: route.induct)
  case (move u p c v)
  have "last p = u" "p \<noteq> []" using route_ends [OF move.hyps(1)] by blast+
  then have "(p @ [v]) ! i = u" if "Suc i = length p" for i using that by (metis last_conv_nth diff_Suc_1 lessI nth_append)
  with move show ?case by (auto simp: walkable_def legal_move_def [of g u v] nth_append less_Suc_eq)
qed (simp add: walkable_def)

lemma cell_slice_ends: "m < n \<Longrightarrow> n < length cells \<Longrightarrow> hd (cell_slice m (Suc n) cells) = cells ! m \<and> last (cell_slice m (Suc n) cells) = cells ! n"
  by (simp add: cell_slice_def hd_drop_conv_nth last_conv_nth)

lemma cell_slice_pair: "Suc m < length cells \<Longrightarrow> cell_slice m (Suc (Suc m)) cells = [cells ! m, cells ! Suc m]"
  by (simp add: cell_slice_def take_Suc_conv_app_nth numeral_2_eq_2)

context float_rounding
begin

lemma farthest_hop:
  assumes "walkable g cells" "anchor < candidate" "candidate < length cells"
  shows "\<exists>n. farthest rnd g cells anchor candidate = Some n \<and> anchor < n \<and> n \<le> candidate \<and> hop rnd g cells (cells ! anchor) (cells ! n)"
  using assms(2,3)
proof (induction candidate)
  case (Suc c)
  have inside: "grid_contains g (cells ! k)" if "k < length cells" for k using assms(1) that by (simp add: walkable_def)
  show ?case
  proof (cases "Suc c > anchor + 1")
    case True
    let ?s = "cell_slice anchor (Suc (Suc c)) cells"
    have ends: "hd ?s = cells ! anchor" "last ?s = cells ! Suc c" using cell_slice_ends [of anchor "Suc c" cells] Suc.prems by simp_all
    from line_cost_route [OF inside inside, of anchor "Suc c" rnd] Suc.prems obtain r
      where r: "line_cost rnd g (cells ! anchor) (cells ! Suc c) = Some r" "\<And>v. r = Some v \<Longrightarrow> \<exists>p. route rnd g (cells ! anchor) (cells ! Suc c) p v" by auto
    define b where "b = (case r of None \<Rightarrow> False | Some cost \<Rightarrow> cost \<le> rnd (path_cost rnd g 0 ?s + rnd (1 / 10 ^ 9)))"
    have f: "farthest rnd g cells anchor (Suc c) = (if b then Some (Suc c) else farthest rnd g cells anchor c)"
      using True by (subst farthest.simps) (simp add: shortcut_preserves_cost_def ends r(1) b_def)
    show ?thesis
    proof (cases b)
      case True
      then obtain v where v: "r = Some v" "v \<le> rnd (path_cost rnd g 0 ?s + rnd (1 / 10 ^ 9))" by (auto simp: b_def split: option.splits)
      from r(2) [OF v(1)] obtain p where "route rnd g (cells ! anchor) (cells ! Suc c) p v" by blast
      with v(2) Suc.prems have "hop rnd g cells (cells ! anchor) (cells ! Suc c)" unfolding hop_def by blast
      then show ?thesis using Suc.prems True by (simp add: f)
    next
      case b: False
      from True have "anchor < c" by simp
      from Suc.IH [OF this] Suc.prems b show ?thesis by (auto simp: f)
    qed
  next
    case False
    then have c: "c = anchor" using Suc.prems by simp
    let ?a = "cells ! anchor" and ?b = "cells ! Suc anchor"
    have lm: "legal_move g ?a ?b" using assms(1) Suc.prems c by (simp add: walkable_def)
    let ?c = "rnd (0 + rnd (step_length ?a ?b * traversal_cost g ?b))"
    have "path_cost rnd g 0 (cell_slice anchor (Suc (Suc anchor)) cells) = ?c"
      using cell_slice_pair [of anchor cells] Suc.prems c by (simp add: step_length_def)
    moreover have "?c \<le> rnd (?c + rnd (1 / 10 ^ 9))" by (rule rnd_ge) (simp_all add: rnd_nonneg)
    moreover have "route rnd g ?a ?b ([?a] @ [?b]) ?c" by (rule route.move [OF route.stay lm])
    ultimately have "hop rnd g cells ?a ?b" unfolding hop_def using Suc.prems c by (metis lessI)
    then show ?thesis using c by (subst farthest.simps) simp
  qed
qed simp

lemma smooth_from_hops:
  assumes "walkable g cells" "anchor < length cells"
  shows "\<exists>r. smooth_from rnd g cells anchor = Some r \<and> successively (hop rnd g cells) (cells ! anchor # r) \<and> last (cells ! anchor # r) = last cells"
  using assms(2)
proof (induction "length cells - anchor" arbitrary: anchor rule: less_induct)
  case less
  show ?case
  proof (cases "anchor + 1 < length cells")
    case True
    then have b: "anchor < length cells - 1" "length cells - 1 < length cells" by auto
    from farthest_hop [OF assms(1) b] obtain n where n: "farthest rnd g cells anchor (length cells - 1) = Some n"
      "anchor < n" "n \<le> length cells - 1" "hop rnd g cells (cells ! anchor) (cells ! n)" by blast
    have "length cells - n < length cells - anchor" "n < length cells" using n(2,3) True by auto
    from less.hyps [OF this] obtain r where r: "smooth_from rnd g cells n = Some r" "successively (hop rnd g cells) (cells ! n # r)"
      "last (cells ! n # r) = last cells" by blast
    have "smooth_from rnd g cells anchor = Some (cells ! n # r)" using True by (subst smooth_from.simps) (simp add: n(1) [simplified] r(1))
    with r(2,3) n(4) show ?thesis by simp
  next
    case False
    with less.prems have "anchor = length cells - 1" "cells \<noteq> []" by auto
    then show ?thesis using False by (subst smooth_from.simps) (simp add: last_conv_nth)
  qed
qed

lemma smooth_hops:
  assumes "walkable g cells" "cells \<noteq> []"
  shows "\<exists>r. smooth rnd g cells = Some r \<and> r \<noteq> [] \<and> hd r = hd cells \<and> last r = last cells \<and> successively (hop rnd g cells) r"
proof (cases "length cells \<le> 2")
  case True
  then have "cells = [hd cells] \<or> cells = [cells ! 0, cells ! 1]" using assms(2) by (cases cells; cases "tl cells") auto
  then have "successively (hop rnd g cells) cells"
  proof
    assume c: "cells = [cells ! 0, cells ! 1]"
    then have "length cells = 2" by (metis length_Cons list.size(3) numeral_2_eq_2)
    with farthest_hop [OF assms(1), of 0 1] have "hop rnd g cells (cells ! 0) (cells ! 1)" by (auto simp: le_Suc_eq)
    then show ?thesis by (subst c) simp
  qed (metis successively.simps(2))
  with True assms(2) show ?thesis by (simp add: smooth_def)
next
  case False
  then have h: "cells ! 0 = hd cells" using assms(2) by (simp add: hd_conv_nth)
  from smooth_from_hops [OF assms(1), of 0] assms(2) obtain r where "smooth_from rnd g cells 0 = Some r" "successively (hop rnd g cells) (hd cells # r)"
    "last (hd cells # r) = last cells" unfolding h by auto
  with False show ?thesis by (simp add: smooth_def)
qed

end

subsection \<open>Properties\<close>

text \<open>C28: Smoothing a path that the search may return always ends, and keeps the start and the goal. Each remaining cell can be walked to
  from the one before it by legal moves, the corners of obstacles included, that cost no more than the piece of
  the path they replace, up to the tolerance of the code.\<close>

theorem smooth_sound:
  assumes "grid_contains g start" "route f64 g start goal path c"
  shows "\<exists>r. smooth f64 g path = Some r \<and> r \<noteq> [] \<and> hd r = start \<and> last r = goal \<and> successively (hop f64 g path) r"
  using f64.smooth_hops [OF route_walkable [OF assms(2,1)]] route_ends [OF assms(2)] by auto

lemma detour_route: "\<exists>c. route rnd corridor (NavigationCell 0 0) (NavigationCell 1 1) detour c"
proof -
  have "legal_move corridor (NavigationCell 0 0) (NavigationCell 0 1)" "legal_move corridor (NavigationCell 0 1) (NavigationCell 1 1)"
    by (auto simp: legal_move_def chebyshev_def corridor_def grid_contains_def between_def)
  from route.move [OF route.move [OF route.stay this(1)] this(2), of rnd] show ?thesis by (auto simp: detour_def)
qed

theorem smooth_sound_witness:
  "\<exists>r. smooth f64 corridor detour = Some r \<and> r \<noteq> [] \<and> hd r = NavigationCell 0 0 \<and> last r = NavigationCell 1 1 \<and> successively (hop f64 corridor detour) r"
proof -
  from detour_route obtain c where "route f64 corridor (NavigationCell 0 0) (NavigationCell 1 1) detour c" by blast
  from smooth_sound [OF corridor_ok(3) this] show ?thesis .
qed

end
