(* ===== verification/Resolve_Depth.thy ===== *)
theory Resolve_Depth
  imports Simulation
begin

text \<open>
  The depth of the recursion of \<open>resolve\<close>. The payloads of triggers are direct effects, which arm no further
  resolution, so that two levels are enough: with any larger depth a step does exactly the same, and the
  exception of a recursion that is too deep cannot arise from the model's bound.
\<close>

subsection \<open>Actions that agree\<close>

definition agree :: "(environment \<Rightarrow> bool) \<Rightarrow> 'a act \<Rightarrow> 'a act \<Rightarrow> bool" where
  "agree I m n \<longleftrightarrow> (\<forall>w. I (fst w) \<longrightarrow> m w = n w)"

named_theorems agree_intros \<open>actions that agree\<close>

lemma agree_refl [simp, agree_intros]: "agree I m m"
  by (simp add: agree_def)

lemma agree_abind:
  assumes "agree I m n" "pres I n Q" "\<And>x. Q x \<Longrightarrow> agree I (f x) (g x)"
  shows "agree I (abind m f) (abind n g)"
  unfolding agree_def
proof (intro allI impI)
  fix w :: world assume i: "I (fst w)"
  with assms(1) have m: "m w = n w" by (cases w) (simp add: agree_def)
  show "abind m f w = abind n g w"
  proof (cases "n w")
    case (Inr q)
    obtain x w' where q: "q = (x, w')" by (cases q)
    from assms(2) i Inr q have "I (fst w')" "Q x" unfolding pres_def by blast+
    with assms(3) [of x] show ?thesis by (cases w') (simp add: abind_def m Inr q agree_def)
  qed (simp add: abind_def m)
qed

lemma agree_bind: "pres I m Q \<Longrightarrow> (\<And>x. Q x \<Longrightarrow> agree I (f x) (g x)) \<Longrightarrow> agree I (abind m f) (abind m g)"
  by (rule agree_abind [OF agree_refl])

lemma agree_if [agree_intros]: "(b \<Longrightarrow> agree I m m') \<Longrightarrow> (\<not> b \<Longrightarrow> agree I n n') \<Longrightarrow> agree I (if b then m else n) (if b then m' else n')"
  by simp

lemma agree_option [agree_intros]:
  "agree I m m' \<Longrightarrow> (\<And>x. v = Some x \<Longrightarrow> agree I (f x) (g x)) \<Longrightarrow> agree I (case v of None \<Rightarrow> m | Some x \<Rightarrow> f x) (case v of None \<Rightarrow> m' | Some x \<Rightarrow> g x)"
  by (cases v) simp_all

lemma agree_aeach: "(\<And>x. x \<in> set xs \<Longrightarrow> agree I (f x) (g x) \<and> invar I (g x)) \<Longrightarrow> agree I (aeach f xs) (aeach g xs)"
  by (induction xs) (auto simp: aseq_def intro!: agree_abind [where Q = "\<lambda>_. True"])

subsection \<open>Direct effects\<close>

definition alike :: "(scheduled_item \<Rightarrow> unit act) \<Rightarrow> (scheduled_item \<Rightarrow> unit act) \<Rightarrow> bool" where
  "alike R R' \<longleftrightarrow> (\<forall>item. list_all is_direct (it_effects item) \<longrightarrow> R item = R' item)"

definition payloads_direct :: "trigger_context list \<Rightarrow> bool" where
  "payloads_direct cs \<longleftrightarrow> list_all (\<lambda>c. list_all is_direct (at_payload (tc_trigger c))) cs"

lemma resolve_direct_effect: "is_direct e \<Longrightarrow> resolve_effect fl R due eligible item e = resolve_gated fl item due eligible e"
  by (cases e) (simp_all add: resolve_effect_def resolve_nested_def is_direct_def)

lemma aeach_cong: "(\<And>x. x \<in> set xs \<Longrightarrow> f x = g x) \<Longrightarrow> aeach f xs = aeach g xs"
  by (induction xs) simp_all

lemma resolve_effects_alike: "alike (resolve_effects fl R due eligible) (resolve_effects fl R' due eligible)"
  by (auto simp: alike_def resolve_effects_def list_all_iff resolve_direct_effect intro!: aeach_cong)

lemma check_trigger_alike:
  assumes "alike R R'" "list_all is_direct (at_payload trigger)"
  shows "check_trigger R actor_id item due moment trigger = check_trigger R' actor_id item due moment trigger"
proof -
  have "it_effects (trigger_item item trigger due) = at_payload trigger" by (simp add: trigger_item_def work_item_def)
  then have "abind (alift (scheduled_item_make (trigger_item item trigger due))) R = abind (alift (scheduled_item_make (trigger_item item trigger due))) R'"
    using assms by (cases "scheduled_item_ok (trigger_item item trigger due)")
      (simp_all add: fun_eq_iff abind_def alift_def alike_def scheduled_item_make_def validated_def)
  then show ?thesis by (simp add: check_trigger_def)
qed

lemma trigger_moment_alike:
  assumes "alike R R'" "payloads_direct cs"
  shows "resolve_trigger_moment R cs = resolve_trigger_moment R' cs"
proof (intro ext)
  fix moment actor_id item due w
  have "resolve_trigger_moment R cs moment actor_id item due = resolve_trigger_moment R' cs moment actor_id item due"
    using assms(2) by (induction cs) (simp_all add: payloads_direct_def check_trigger_alike [OF assms(1)])
  then show "resolve_trigger_moment R cs moment actor_id item due w = resolve_trigger_moment R' cs moment actor_id item due w" by simp
qed

lemma attack_hits_alike:
  assumes "alike R R'" "payloads_direct cs"
  shows "attack_hits fl R item due eligible actor_id target_id cs ms es = attack_hits fl R' item due eligible actor_id target_id cs ms es"
  unfolding attack_hits_def trigger_moment_alike [OF assms] by (rule refl)

lemma weapon_strikes_alike:
  assumes "alike R R'" "payloads_direct cs"
  shows "weapon_strikes R item due actor_id target_id attack cs ms = weapon_strikes R' item due actor_id target_id attack cs ms"
  unfolding weapon_strikes_def trigger_moment_alike [OF assms] by (rule refl)

lemma matching_direct: "payloads_built catalog \<Longrightarrow> payloads_direct (matching_trigger_contexts catalog actor key tags)"
  by (auto simp: payloads_direct_def payloads_built_def matching_trigger_contexts_def list_all_iff dest!: sym [of "Some _"] split: option.splits if_splits)

subsection \<open>Resolution\<close>

context executor_host
begin

lemma agree_executor_entity [agree_intros]: "(\<And>e. agree I (f e) (g e)) \<Longrightarrow> agree I (abind (executor_entity k) f) (abind (executor_entity k) g)"
  by (auto simp: agree_def abind_def executor_entity_def split: option.split)

lemma agree_aentity [agree_intros]: "(\<And>e. agree I (f e) (g e)) \<Longrightarrow> agree I (abind (aentity k) f) (abind (aentity k) g)"
  by (auto simp: agree_def abind_def aentity_def entity_at_def split: option.split)

lemma agree_alift [agree_intros]: "(\<And>x. r = Inr x \<Longrightarrow> agree I (f x) (g x)) \<Longrightarrow> agree I (abind (alift r) f) (abind (alift r) g)"
  by (cases r) (auto simp: agree_def abind_def alift_def)

lemma agree_catalog [agree_intros]:
  "(\<And>c. payloads_built c \<Longrightarrow> agree I (f c) (g c)) \<Longrightarrow> agree I (abind (aget env_catalog) f) (abind (aget env_catalog) g)"
  by (auto simp: agree_def abind_def aget_def dest: catalog_valid)

lemma agree_aget [agree_intros]: "(\<And>c. agree I (f c) (g c)) \<Longrightarrow> agree I (abind (aget h) f) (abind (aget h) g)"
  by (auto simp: agree_def abind_def aget_def)

lemma agree_resolve_attack:
  assumes "alike R R'"
  shows "agree I (resolve_attack fl R item due eligible attack_key kind attack_rating_key defense_rating_key effects passive_keys)
    (resolve_attack fl R' item due eligible attack_key kind attack_rating_key defense_rating_key effects passive_keys)"
  unfolding resolve_attack_def Let_def
  by (intro agree_option agree_executor_entity agree_if agree_catalog agree_alift agree_refl)
    (simp add: trigger_moment_alike [OF assms matching_direct] attack_hits_alike [OF assms matching_direct])

lemma agree_resolve_weapon_attack:
  assumes "alike R R'"
  shows "agree I (resolve_weapon_attack fl R due eligible item) (resolve_weapon_attack fl R' due eligible item)"
proof (cases "it_binding item"; cases "it_weapon_attack item")
  fix b attack assume "it_binding item = Some b" "it_weapon_attack item = Some attack"
  then show ?thesis unfolding resolve_weapon_attack_def Let_def
    by (simp, intro agree_aget agree_option agree_aentity agree_if agree_catalog agree_alift agree_refl)
      (simp add: trigger_moment_alike [OF assms matching_direct] weapon_strikes_alike [OF assms matching_direct])
qed (simp_all add: resolve_weapon_attack_def)

lemma agree_resolve_nested: "alike R R' \<Longrightarrow> agree I (resolve_nested fl R due eligible item effect) (resolve_nested fl R' due eligible item effect)"
  by (cases effect) (simp_all add: resolve_nested_def agree_resolve_attack)

lemma agree_resolve_effect:
  assumes "alike R R'" "resolves R'" "built_item item" "effect_built effect"
  shows "agree I (resolve_effect fl R due eligible item effect) (resolve_effect fl R' due eligible item effect)"
proof (cases "is_area effect")
  case True
  then obtain ao r rs es n where e: "effect = AreaEffect ao r rs es n" by (cases effect) simp_all
  have t: "built_item (item\<lparr>it_binding := Some x\<rparr>)" if "validated action_binding_ok y = Inr x" for x y
    using that assms(3) by (simp add: built_item_def result_simps)
  have nested: "agree I (aeach (resolve_nested fl R due eligible i) es) (aeach (resolve_nested fl R' due eligible i) es)"
    and inv: "invar I (aeach (resolve_nested fl R' due eligible i) es)" if "built_item i" for i
    using assms(4) e by (auto intro!: agree_aeach pres_aeach agree_resolve_nested assms invar_resolve_nested that simp: list_all_iff)
  let ?area = "\<lambda>R b target. abind (alift (validated action_binding_ok (entity_binding (ab_actor_id b) target))) (\<lambda>b.
     abind (alift (scheduled_item_make (item\<lparr>it_binding := Some b\<rparr>))) (\<lambda>target_item. aeach (resolve_nested fl R due eligible target_item) es))"
  have each: "agree I (?area R b target) (?area R' b target) \<and> invar I (?area R' b target)" for b target
    by (intro conjI agree_alift nested pres_abind [OF pres_alift_eq] inv) (auto simp: scheduled_item_make_def result_simps intro: t)
  have center: "invar I (area_center origin b)" for origin b unfolding area_center_def by (intro pres_intros)
  show ?thesis unfolding e resolve_effect_def effect_primitive.case resolve_area_def
    by (intro agree_option agree_executor_entity agree_if agree_refl agree_bind [OF center] agree_aget agree_aeach each)
next
  case False
  then show ?thesis using agree_resolve_nested [OF assms(1)] by (cases effect) (simp_all add: resolve_effect_def)
qed

lemma agree_resolve_effects:
  assumes "alike R R'" "resolves R'" "built_item item"
  shows "agree I (resolve_effects fl R due eligible item) (resolve_effects fl R' due eligible item)"
  unfolding resolve_effects_def using assms(3)
  by (intro agree_if agree_refl agree_aeach conjI agree_resolve_effect invar_resolve_effect assms) (auto simp: built_item_def list_all_iff)

lemma agree_executor:
  assumes "built_item item"
  shows "agree I (executor_resolve fl due eligible (Suc (Suc depth)) item) (executor_resolve fl due eligible 2 item)"
  unfolding numeral_2_eq_2 executor_resolve.simps(2)
  by (rule agree_resolve_effects [OF resolve_effects_alike _ assms]) (use resolves_executor [of _ _ "Suc 0"] in simp)

lemma agree_weapon:
  "agree I (resolve_weapon_attack fl (executor_resolve fl due eligible (Suc (Suc depth))) due eligible item)
     (resolve_weapon_attack fl (executor_resolve fl due eligible 2) due eligible item)"
  unfolding numeral_2_eq_2 executor_resolve.simps(2) by (rule agree_resolve_weapon_attack [OF resolve_effects_alike])

end

subsection \<open>Steps\<close>

lemma handle_depth:
  assumes "host_inv fl maxima (it_due_time_ms item) env env" "built_item item"
  shows "handle fl (Suc (Suc depth)) eligible item (env, evs) = handle fl 2 eligible item (env, evs)"
proof -
  have a: "m (env, evs) = n (env, evs)" if "agree (host_inv fl maxima (it_due_time_ms item) env) m n" for m n :: "unit act"
    using that assms(1) by (simp add: agree_def)
  show ?thesis unfolding handle_def Let_def
    by (cases "it_kind item") (simp_all add: a [OF stepping.agree_executor [OF assms(2)]] a [OF stepping.agree_weapon] del: executor_resolve.simps)
qed

lemma due_round_depth:
  assumes "life_inv env" "world_sound maxima env"
  shows "due_round fl (Suc (Suc depth)) until t (env, evs) = due_round fl 2 until t (env, evs)"
proof (cases "next_due until env")
  case (Some q)
  obtain item env1 where n: "next_due until env = Some (item, env1)" using Some by (cases q) simp
  have item: "item_sound item" by (rule world_soundD(5) [OF assms(2) next_due_Some(1) [OF n]])
  have "world_sound maxima env1" unfolding next_due_Some(3) [OF n] by (rule sound_remove [OF assms(2)])
  then have "host_inv fl maxima (it_due_time_ms item) env1 env1" by (rule host_start [OF item_sound_due [OF item] life_inv_pop [OF assms(1) n]])
  from handle_depth [OF this] item have "process_item fl (Suc (Suc depth)) item t (env1, evs) = process_item fl 2 item t (env1, evs)"
    by (simp add: process_item_def aseq_def abind_def aget_def item_sound_def)
  then show ?thesis by (simp add: due_round_def n abind_def)
qed (simp add: due_round_def)

lemma process_due_depth:
  assumes "hypot_nonneg fl" "life_inv env" "world_sound maxima env"
  shows "process_due fl (Suc (Suc depth)) until t (env, evs) = process_due fl 2 until t (env, evs)"
  using assms(2,3)
proof (induction "work_left until env" arbitrary: env evs t rule: wf_induct_rule [OF wf_mult [OF wf_lex_prod [OF wf_less_than wf_less_than]]])
  case (1 env)
  note d = due_round_depth [OF "1.prems", of fl depth until t evs]
  show ?case
  proof (cases "\<exists>t' env' evs'. due_round fl 2 until t (env, evs) = Inr (Some t', env', evs')")
    case True
    then obtain t' env' evs' where r: "due_round fl 2 until t (env, evs) = Inr (Some t', env', evs')" by blast
    note runs = due_round_runs [OF r assms(1) "1.prems"]
    from "1.hyps" [OF runs(4) runs(2,3), of t' evs'] show ?thesis by (subst (1 2) process_due.simps) (simp add: d r)
  next
    case False
    then show ?thesis by (subst (1 2) process_due.simps) (simp add: d split: sum.split option.split prod.split)
  qed
qed

lemma obind_cong: "r = r' \<Longrightarrow> yields r' P \<Longrightarrow> (\<And>x. P x \<Longrightarrow> f x = g x) \<Longrightarrow> obind r f = obind r' g"
  by (auto simp: yields_def obind_def split: sum.split)

text \<open>C8: Two levels of recursion are enough: allowed any larger depth, every step of a simulation does exactly what it does with
  depth two, so that the bound of the model on the recursion of \<open>resolve\<close> is never what ends it.\<close>

theorem recursion_depth_two:
  assumes "simulated fl 2 env0 env" "hypot_nonneg fl" "list_all decision_built decisions" "2 \<le> depth"
  shows "step fl depth decisions truncated env = step fl 2 decisions truncated env"
proof -
  obtain d where depth: "depth = Suc (Suc d)" using assms(4) by (auto dest: le_Suc_ex)
  obtain c' where c: "advance 1 (env_clock env) = Inr c'" by (simp add: advance_def)
  have c0: "course fl (first_maxima env0) env (env_clock env, fixed env) env"
    using simulated_life [OF assms(1,2)] simulated_inv(4) [OF assms(1,2)] by (simp add: course_def env_steps.none background_def)
  have same: "process_due fl depth until t w = process_due fl 2 until t w" if "course fl (first_maxima env0) env c1 (fst w)" for until t w c1
    using process_due_depth [OF assms(2), of "fst w" "first_maxima env0" d until t "snd w"] that by (simp add: course_def depth)
  show ?thesis
    unfolding step_def
    apply (rule obind_cong [OF refl admit_yields [OF c0 assms(3)]], clarify)
    apply (rule obind_cong [OF refl starts_yield], assumption, assumption, clarify)
    apply (rule obind_cong [OF same process_due_yields [OF assms(2)]], assumption, assumption, clarify)
    apply (rule obind_cong [OF refl tick_yields [OF _ c]], assumption)
    apply (rule obind_cong [OF same process_due_yields [OF assms(2)]], assumption, assumption, clarify)
    done
qed

theorem recursion_depth_two_witness:
  "\<exists>env message env'. mended env message env' \<and> step flat_lib 1000 [] False env = Some (Inr (message, env'))"
proof (rule arena_stepped)
  fix env message env' assume "step flat_lib 2 [] False env = Some (Inr (message, env'))" "mended env message env'" "simulated flat_lib 2 env env"
  with recursion_depth_two [OF _ flat_hypot(2), of env env "[]" 1000 False] show ?thesis by auto
qed

end
