(* ===== verification/Damage_Rounding.thy ===== *)
theory Damage_Rounding
  imports Sim_Effects Sim_Timeline
begin

text \<open>
  Absorbed damage and rounding. Absorbers take their share of a damage one after the other; the amount that
  remains and the amount absorbed so far are floats, and each subtraction and addition is rounded. The
  sum can therefore exceed the damage it is a part of, which the constructor of the resolution forbids.
\<close>

definition absorber :: "string \<Rightarrow> int \<Rightarrow> rat \<Rightarrow> string \<times> active_effect" where
  "absorber key expiry magnitude = (key,
     \<lparr>ae_effect_key = key, ae_source_entity_id = ''x'', ae_magnitude = magnitude, ae_expires_at_ms = expiry,
      ae_instance_id = None, ae_stacking_key = None, ae_tags = {''damage.absorb.all''}, ae_modifiers = [],
      ae_modifier_values = [], ae_application_order = 0, ae_stack_order = 0, ae_trains = 0, ae_stack_priority = ALWAYS\<rparr>)"

text \<open>The floats nearest to 0.9, 0.3 and 2.9.\<close>

definition point_nine :: rat where "point_nine = 8106479329266893 / 9007199254740992"

definition point_three :: rat where "point_three = 5404319552844595 / 18014398509481984"

definition two_point_nine :: rat where "two_point_nine = 6530219459687219 / 2251799813685248"

definition shielded :: entity_state where
  "shielded = (fighter ''x'')\<lparr>en_scalars := [(''health'', 90)], en_maximums := [(''health'', 100)],
     en_effects := [absorber ''shell'' 500 point_three, absorber ''ward'' 600 two_point_nine]\<rparr>"

definition shield_arena :: "environment result" where
  "shield_arena = new_environment f64 unit_hypot strike_catalog [shielded] 7 200 [\<lparr>vx = 1, vy = 0\<rparr>] [] False"

definition scorch :: damage_transaction where
  "scorch = \<lparr>dt_damage_type = ''fire'', dt_requested = point_nine, dt_post_resistance = point_nine, dt_resistance_percent = 0,
     dt_armor_piercing = 0, dt_breakpoint_damage_type = Some FIRE, dt_breakpoint_amount = point_nine, dt_tags = []\<rparr>"

definition scorching :: scheduled_item where
  "scorching = work_item 100 0 RESOLUTION ''x'' ''c'' ''a''"

text \<open>Damage that absorbers would take in full can raise: for a valid damage of 0.9 against absorbers of 0.3 and 2.9, the
  amount absorbed adds up to more than 0.9 in floats, and the commit of the damage ends with the \<open>ValueError\<close> of
  \<open>DamageResolution\<close>, after the absorbers and the health were already changed.\<close>

theorem absorbed_rounding_raises:
  "new_transaction scorch = Inr scorch \<and> dt_post_resistance scorch < point_three + two_point_nine
   \<and> holds shield_arena (\<lambda>env. case commit_damage scorching ''x'' scorch 100 (env, []) of
       Inl (ValueError m) \<Rightarrow> m = ''absorbed damage cannot exceed post-resistance damage'' | _ \<Rightarrow> False)"
  by code_simp

end
