(* ===== verification/Affiliations.thy ===== *)
theory Affiliations
  imports Protocol
begin

text \<open>
  Scenario affiliations and relation facts (\<^verbatim>\<open>sim/affiliations.py\<close>): group memberships, ownership
  edges and relation overrides, the validation of a snapshot, the selection of the strongest
  override, the facts between two entities and the coarse relation a policy derives from them.

  A frozenset of groups is a set, \<^verbatim>\<open>dict\<close>s are association lists in insertion order. The loops that
  follow ownership upwards (\<open>ancestor_chain\<close>) may run forever on a cyclic graph: they are
  \<open>partial_function\<close>s, and the validation of a snapshot is proved to rule that out.
\<close>

subsection \<open>Groups, memberships, ownership\<close>

datatype group_kind = PARTY | GUILD | NATION | SCENARIO_SIDE

fun group_kind_value :: "group_kind \<Rightarrow> string" where
  "group_kind_value PARTY = ''party''"
| "group_kind_value GUILD = ''guild''"
| "group_kind_value NATION = ''nation''"
| "group_kind_value SCENARIO_SIDE = ''scenario_side''"

datatype group_key = GroupKey (gk_kind: group_kind) (gk_group_id: string)

definition group_key_ok :: "group_key \<Rightarrow> unit result" where
  "group_key_ok k = py_identifier (gk_group_id k) ''group_id''"

definition group_key_order :: "group_key \<Rightarrow> string \<times> string" where
  "group_key_order k = (group_kind_value (gk_kind k), gk_group_id k)"

lemma inj_group_kind_value: "inj group_kind_value"
proof (rule injI)
  show "x = y" if "group_kind_value x = group_kind_value y" for x y
    using that by (cases x; cases y) simp_all
qed

lemma group_key_order_inject: "group_key_order a = group_key_order b \<longleftrightarrow> a = b"
  by (cases a; cases b) (auto simp: group_key_order_def inj_eq [OF inj_group_kind_value])

text \<open>The order of a \<^verbatim>\<open>dataclass(order=True)\<close>: lexicographic, the kind compared by its value.\<close>

instantiation group_key :: linorder
begin

definition less_eq_group_key :: "group_key \<Rightarrow> group_key \<Rightarrow> bool" where
  "less_eq_group_key a b \<longleftrightarrow> group_key_order a \<le> group_key_order b"

definition less_group_key :: "group_key \<Rightarrow> group_key \<Rightarrow> bool" where
  "less_group_key a b \<longleftrightarrow> group_key_order a < group_key_order b"

instance
  by standard (auto simp: less_eq_group_key_def less_group_key_def group_key_order_inject
      dest: antisym [THEN group_key_order_inject [THEN iffD1]])

end

record group_membership =
  gm_entity_id :: string
  gm_group_key :: group_key
  gm_role :: "string option"

definition group_membership_ok :: "group_membership \<Rightarrow> unit result" where
  "group_membership_ok m =
     rbind (py_identifier (gm_entity_id m) ''entity_id'') (\<lambda>_.
     optional (\<lambda>r. py_identifier r ''role'') (gm_role m))"

record ownership_edge =
  oe_owner_id :: string
  oe_owned_id :: string

definition ownership_edge_ok :: "ownership_edge \<Rightarrow> unit result" where
  "ownership_edge_ok e =
     rbind (py_identifier (oe_owner_id e) ''owner_id'') (\<lambda>_.
     rbind (py_identifier (oe_owned_id e) ''owned_id'') (\<lambda>_.
     checks [(oe_owner_id e = oe_owned_id e, ValueError ''ownership edges cannot be self-referential'')]))"

subsection \<open>Relation overrides\<close>

record relation_subject =
  rs_entity_id :: "string option"
  rs_group_key :: "group_key option"

definition relation_subject_ok :: "relation_subject \<Rightarrow> unit result" where
  "relation_subject_ok s =
     rbind (checks [((rs_entity_id s = None) = (rs_group_key s = None),
              ValueError ''exactly one of entity_id or group_key is required'')]) (\<lambda>_.
     optional (\<lambda>i. py_identifier i ''entity_id'') (rs_entity_id s))"

definition for_entity :: "string \<Rightarrow> relation_subject" where
  "for_entity i = \<lparr>rs_entity_id = Some i, rs_group_key = None\<rparr>"

definition for_group :: "group_key \<Rightarrow> relation_subject" where
  "for_group k = \<lparr>rs_entity_id = None, rs_group_key = Some k\<rparr>"

definition specificity :: "relation_subject \<Rightarrow> int" where
  "specificity s = (if rs_entity_id s \<noteq> None then 2 else 1)"

text \<open>The assertion that a subject without entity has a group holds for validated subjects; the value
  of the other branch is irrelevant.\<close>

definition subject_sort_key :: "relation_subject \<Rightarrow> string \<times> string \<times> string" where
  "subject_sort_key s =
     (case rs_entity_id s of
        Some i \<Rightarrow> (''entity'', '''', i)
      | None \<Rightarrow> (case rs_group_key s of
          Some k \<Rightarrow> (''group'', group_kind_value (gk_kind k), gk_group_id k)
        | None \<Rightarrow> ('''', '''', '''')))"

definition subject_matches :: "relation_subject \<Rightarrow> string \<Rightarrow> group_key set \<Rightarrow> bool" where
  "subject_matches s entity_id memberships =
     (case rs_entity_id s of
        Some i \<Rightarrow> i = entity_id
      | None \<Rightarrow> (case rs_group_key s of Some k \<Rightarrow> k \<in> memberships | None \<Rightarrow> False))"

record relation_override =
  ro_left :: relation_subject
  ro_right :: relation_subject
  ro_relation :: relation
  ro_symmetric :: bool

definition relation_override_ok :: "relation_override \<Rightarrow> unit result" where
  "relation_override_ok o' = checks
     [(ro_left o' = ro_right o', ValueError ''relation override endpoints must differ''),
      (ro_relation o' = SELF, ValueError ''SELF cannot be assigned by a relation override'')]"

definition precedence :: "relation_override \<Rightarrow> int" where
  "precedence o' = specificity (ro_left o') + specificity (ro_right o')"

definition identity_key ::
    "relation_override \<Rightarrow> (string \<times> string \<times> string) \<times> (string \<times> string \<times> string) \<times> bool" where
  "identity_key o' =
     (let l = subject_sort_key (ro_left o'); r = subject_sort_key (ro_right o')
      in if ro_symmetric o' \<and> r < l then (r, l, True) else (l, r, ro_symmetric o'))"

definition override_matches ::
    "relation_override \<Rightarrow> string \<Rightarrow> string \<Rightarrow> group_key set \<Rightarrow> group_key set \<Rightarrow> bool" where
  "override_matches o' l r lm rm =
     (let forward = subject_matches (ro_left o') l lm \<and> subject_matches (ro_right o') r rm
      in if forward \<or> \<not> ro_symmetric o' then forward
         else subject_matches (ro_left o') r rm \<and> subject_matches (ro_right o') l lm)"

definition is_between_group_kind :: "relation_override \<Rightarrow> group_kind \<Rightarrow> bool" where
  "is_between_group_kind o' kind =
     ((case rs_group_key (ro_left o') of None \<Rightarrow> False | Some k \<Rightarrow> gk_kind k = kind)
      \<and> (case rs_group_key (ro_right o') of None \<Rightarrow> False | Some k \<Rightarrow> gk_kind k = kind))"

definition override_choice_key ::
    "relation_override \<Rightarrow> (string \<times> string \<times> string) \<times> (string \<times> string \<times> string) \<times> bool" where
  "override_choice_key o' = (subject_sort_key (ro_left o'), subject_sort_key (ro_right o'), ro_symmetric o')"

definition select_override ::
    "relation_override list \<Rightarrow> string \<Rightarrow> string \<Rightarrow> group_key set \<Rightarrow> group_key set
      \<Rightarrow> relation_override option result" where
  "select_override overrides l r lm rm =
     (case filter (\<lambda>o'. override_matches o' l r lm rm) overrides of
        [] \<Rightarrow> Inr None
      | m # ms \<Rightarrow>
          let top = Max (set (map precedence (m # ms)));
              strongest = filter (\<lambda>o'. precedence o' = top) (m # ms)
          in if length (remdups (map ro_relation strongest)) > 1
             then Inl (AffiliationConflictError ''equally specific relation overrides disagree'')
             else Inr (Some (py_min_by override_choice_key (hd strongest) (tl strongest))))"

subsection \<open>Snapshots\<close>

record affiliation_snapshot =
  as_revision :: int
  as_memberships :: "group_membership list"
  as_ownership_edges :: "ownership_edge list"
  as_relation_overrides :: "relation_override list"

definition entity_ids :: "affiliation_snapshot \<Rightarrow> string list" where
  "entity_ids s = sort (remdups
     (map gm_entity_id (as_memberships s)
      @ concat (map (\<lambda>e. [oe_owner_id e, oe_owned_id e]) (as_ownership_edges s))
      @ concat (map (\<lambda>o'. (case rs_entity_id (ro_left o') of None \<Rightarrow> [] | Some i \<Rightarrow> [i])
                      @ (case rs_entity_id (ro_right o') of None \<Rightarrow> [] | Some i \<Rightarrow> [i]))
                (as_relation_overrides s))))"

definition memberships_by_entity :: "affiliation_snapshot \<Rightarrow> string \<Rightarrow> group_key set" where
  "memberships_by_entity s i = set (map gm_group_key (filter (\<lambda>m. gm_entity_id m = i) (as_memberships s)))"

fun validate_group_kinds :: "(string \<times> group_kind) list \<Rightarrow> group_membership list \<Rightarrow> unit result" where
  "validate_group_kinds seen [] = Inr ()"
| "validate_group_kinds seen (m # ms) =
     (if (gm_entity_id m, gk_kind (gm_group_key m)) \<in> set seen
      then Inl (AffiliationConfigurationError ''an entity cannot belong to multiple groups of the same kind'')
      else validate_group_kinds ((gm_entity_id m, gk_kind (gm_group_key m)) # seen) ms)"

fun validate_owners :: "(string \<times> string) list \<Rightarrow> ownership_edge list \<Rightarrow> (string \<times> string) list result" where
  "validate_owners owner_by_owned [] = Inr owner_by_owned"
| "validate_owners owner_by_owned (e # es) =
     (case map_of owner_by_owned (oe_owned_id e) of
        Some existing \<Rightarrow>
          if existing \<noteq> oe_owner_id e
          then Inl (AffiliationConfigurationError ''an owned entity cannot have multiple direct owners'')
          else validate_owners (AList.update (oe_owned_id e) (oe_owner_id e) owner_by_owned) es
      | None \<Rightarrow> validate_owners (AList.update (oe_owned_id e) (oe_owner_id e) owner_by_owned) es)"

function walk_owners :: "(string \<times> string) list \<Rightarrow> string set \<Rightarrow> string \<Rightarrow> unit result" where
  "walk_owners owner_by_owned visited current =
     (case map_of owner_by_owned current of
        None \<Rightarrow> Inr ()
      | Some owner \<Rightarrow>
          if current \<in> visited then Inl (AffiliationConfigurationError ''ownership graph contains a cycle'')
          else walk_owners owner_by_owned (insert current visited) owner)"
  by pat_completeness auto
termination
proof (relation "measure (\<lambda>(m, visited, current). card (fst ` set m - visited))")
  fix m :: "(string \<times> string) list" and visited current owner
  assume "map_of m current = Some owner" "current \<notin> visited"
  then have "current \<in> fst ` set m - visited" by (metis DiffI fst_conv image_eqI map_of_SomeD)
  then have "fst ` set m - insert current visited \<subset> fst ` set m - visited" by blast
  then show "((m, insert current visited, owner), (m, visited, current))
      \<in> measure (\<lambda>(m, visited, current). card (fst ` set m - visited))"
    by (simp add: psubset_card_mono)
qed simp

declare walk_owners.simps [simp del]

definition validate_ownership_cycles :: "(string \<times> string) list \<Rightarrow> unit result" where
  "validate_ownership_cycles owner_by_owned =
     riter (\<lambda>(entity_id, _). walk_owners owner_by_owned {} entity_id) owner_by_owned"

fun validate_override_identities ::
    "(((string \<times> string \<times> string) \<times> (string \<times> string \<times> string) \<times> bool) \<times> relation) list
      \<Rightarrow> relation_override list \<Rightarrow> unit result" where
  "validate_override_identities seen [] = Inr ()"
| "validate_override_identities seen (o' # os) =
     (case map_of seen (identity_key o') of
        Some existing \<Rightarrow>
          if existing \<noteq> ro_relation o'
          then Inl (AffiliationConflictError ''relation overrides with identical endpoints disagree'')
          else Inl (AffiliationConfigurationError ''relation_overrides must not contain duplicates'')
      | None \<Rightarrow> validate_override_identities (AList.update (identity_key o') (ro_relation o') seen) os)"

definition validate_known_entity_override_conflicts :: "affiliation_snapshot \<Rightarrow> unit result" where
  "validate_known_entity_override_conflicts s =
     (let ids = entity_ids s
      in if length ids < 2 \<or> as_relation_overrides s = [] then Inr ()
      else riter (\<lambda>(l, r). rbind (select_override (as_relation_overrides s) l r
                   (memberships_by_entity s l) (memberships_by_entity s r)) (\<lambda>_. Inr ()))
             (concat (map (\<lambda>l. map (Pair l) (filter (\<lambda>r. r \<noteq> l) ids)) ids)))"

definition affiliation_snapshot_ok :: "affiliation_snapshot \<Rightarrow> unit result" where
  "affiliation_snapshot_ok s =
     rbind (checks
       [(as_revision s < 0, ValueError ''revision must be non-negative''),
        (\<not> distinct (map (\<lambda>m. (gm_entity_id m, gm_group_key m)) (as_memberships s)),
           AffiliationConfigurationError ''memberships must not contain duplicates'')]) (\<lambda>_.
     rbind (validate_group_kinds [] (as_memberships s)) (\<lambda>_.
     rbind (checks [(\<not> distinct (as_ownership_edges s),
           AffiliationConfigurationError ''ownership_edges must not contain duplicates'')]) (\<lambda>_.
     rbind (validate_owners [] (as_ownership_edges s)) (\<lambda>owner_by_owned.
     rbind (validate_ownership_cycles owner_by_owned) (\<lambda>_.
     rbind (validate_override_identities [] (as_relation_overrides s)) (\<lambda>_.
     validate_known_entity_override_conflicts s))))))"

subsection \<open>Relation facts and policies\<close>

record relation_facts =
  rf_left_entity_id :: string
  rf_right_entity_id :: string
  rf_same_entity :: bool
  rf_same_party :: bool
  rf_same_guild :: bool
  rf_same_nation :: bool
  rf_same_scenario_side :: bool
  rf_opposing_scenario_side :: bool
  rf_left_owns_right :: bool
  rf_right_owns_left :: bool
  rf_same_owner :: bool
  rf_same_ownership_family :: bool
  rf_explicit_neutrality :: bool
  rf_override_relation :: "relation option"
  rf_override_precedence :: "int option"

definition relation_facts_ok :: "relation_facts \<Rightarrow> unit result" where
  "relation_facts_ok f =
     rbind (py_identifier (rf_left_entity_id f) ''left_entity_id'') (\<lambda>_.
     rbind (py_identifier (rf_right_entity_id f) ''right_entity_id'') (\<lambda>_.
     rbind (checks [(rf_same_entity f \<noteq> (rf_left_entity_id f = rf_right_entity_id f),
              ValueError ''same_entity must match the entity identifiers'')]) (\<lambda>_.
     rbind (if rf_override_relation f \<noteq> None
            then checks
              [(rf_override_relation f = Some SELF, ValueError ''override_relation cannot be SELF''),
               (rf_override_precedence f = None,
                  ValueError ''override_precedence is required with override_relation'')]
            else checks [(rf_override_precedence f \<noteq> None,
                  ValueError ''override_precedence requires override_relation'')]) (\<lambda>_.
     checks
       [(case rf_override_precedence f of None \<Rightarrow> False | Some p \<Rightarrow> p \<le> 0,
           ValueError ''override_precedence must be positive''),
        (rf_explicit_neutrality f \<noteq> (rf_override_relation f = Some NEUTRAL),
           ValueError ''explicit_neutrality must reflect override_relation'')]))))"

record default_relation_policy =
  same_party_is_ally :: bool
  same_guild_is_ally :: bool
  same_nation_is_ally :: bool
  same_scenario_side_is_ally :: bool
  same_ownership_family_is_ally :: bool

definition default_policy :: default_relation_policy where
  "default_policy = \<lparr>same_party_is_ally = True, same_guild_is_ally = False, same_nation_is_ally = False,
     same_scenario_side_is_ally = True, same_ownership_family_is_ally = True\<rparr>"

definition policy_coarse_relation :: "default_relation_policy \<Rightarrow> relation_facts \<Rightarrow> relation" where
  "policy_coarse_relation p f =
     (if rf_same_entity f then SELF
      else case rf_override_relation f of
        Some rel \<Rightarrow> rel
      | None \<Rightarrow>
          if same_party_is_ally p \<and> rf_same_party f then ALLY
          else if same_guild_is_ally p \<and> rf_same_guild f then ALLY
          else if same_nation_is_ally p \<and> rf_same_nation f then ALLY
          else if same_scenario_side_is_ally p \<and> rf_same_scenario_side f then ALLY
          else if same_ownership_family_is_ally p \<and> rf_same_ownership_family f then ALLY
          else if rf_opposing_scenario_side f then ENEMY
          else NEUTRAL)"

subsection \<open>The relation resolver\<close>

definition owner_by_owned :: "affiliation_snapshot \<Rightarrow> string \<Rightarrow> string option" where
  "owner_by_owned s = map_of (rev (map (\<lambda>e. (oe_owned_id e, oe_owner_id e)) (as_ownership_edges s)))"

partial_function (option) ancestor_chain :: "(string \<Rightarrow> string option) \<Rightarrow> string \<Rightarrow> string list option" where
  "ancestor_chain owner current =
     (case owner current of
        None \<Rightarrow> Some []
      | Some o' \<Rightarrow> Option.bind (ancestor_chain owner o') (\<lambda>rest. Some (o' # rest)))"

definition ownership_root :: "string \<Rightarrow> string list \<Rightarrow> string" where
  "ownership_root entity_id ancestors = (if ancestors = [] then entity_id else last ancestors)"

definition shares_kind :: "group_key set \<Rightarrow> group_key set \<Rightarrow> group_kind \<Rightarrow> bool" where
  "shares_kind l r kind = (Set.filter (\<lambda>g. gk_kind g = kind) l \<inter> Set.filter (\<lambda>g. gk_kind g = kind) r \<noteq> {})"

definition build_facts ::
    "affiliation_snapshot \<Rightarrow> string \<Rightarrow> string \<Rightarrow> relation_override option \<Rightarrow> string list \<Rightarrow> string list
      \<Rightarrow> relation_facts" where
  "build_facts s l r override left_ancestors right_ancestors =
     (let lm = memberships_by_entity s l; rm = memberships_by_entity s r
      in \<lparr>rf_left_entity_id = l, rf_right_entity_id = r,
       rf_same_entity = (l = r),
       rf_same_party = shares_kind lm rm PARTY,
       rf_same_guild = shares_kind lm rm GUILD,
       rf_same_nation = shares_kind lm rm NATION,
       rf_same_scenario_side = shares_kind lm rm SCENARIO_SIDE,
       rf_opposing_scenario_side =
         (case override of None \<Rightarrow> False
          | Some o' \<Rightarrow> ro_relation o' = ENEMY \<and> is_between_group_kind o' SCENARIO_SIDE),
       rf_left_owns_right = (l \<in> set right_ancestors),
       rf_right_owns_left = (r \<in> set left_ancestors),
       rf_same_owner = (l \<noteq> r \<and> owner_by_owned s l \<noteq> None \<and> owner_by_owned s l = owner_by_owned s r),
       rf_same_ownership_family =
         (l \<noteq> r \<and> ownership_root l left_ancestors = ownership_root r right_ancestors),
       rf_explicit_neutrality = (case override of None \<Rightarrow> False | Some o' \<Rightarrow> ro_relation o' = NEUTRAL),
       rf_override_relation = map_option ro_relation override,
       rf_override_precedence = map_option precedence override\<rparr>)"

text \<open>\<open>None\<close> is a call that does not return.\<close>

definition facts_between :: "affiliation_snapshot \<Rightarrow> string \<Rightarrow> string \<Rightarrow> relation_facts result option" where
  "facts_between s l r =
     (case rbind (py_identifier l ''left_entity_id'') (\<lambda>_.
           rbind (py_identifier r ''right_entity_id'') (\<lambda>_.
           if l \<noteq> r
           then select_override (as_relation_overrides s) l r (memberships_by_entity s l) (memberships_by_entity s r)
           else Inr None)) of
        Inl e \<Rightarrow> Some (Inl e)
      | Inr override \<Rightarrow>
          Option.bind (ancestor_chain (owner_by_owned s) l) (\<lambda>left_ancestors.
          Option.bind (ancestor_chain (owner_by_owned s) r) (\<lambda>right_ancestors.
          Some (validated relation_facts_ok (build_facts s l r override left_ancestors right_ancestors)))))"

definition coarse_relation ::
    "affiliation_snapshot \<Rightarrow> default_relation_policy \<Rightarrow> string \<Rightarrow> string \<Rightarrow> relation result option" where
  "coarse_relation s policy l r =
     map_option (\<lambda>f. rbind f (\<lambda>facts. Inr (policy_coarse_relation policy facts))) (facts_between s l r)"

subsection \<open>Legacy teams\<close>

fun legacy_memberships ::
    "string \<Rightarrow> (string \<times> string option) list \<Rightarrow> (string \<times> group_key) list
      \<Rightarrow> (group_membership list \<times> (string \<times> group_key) list) result" where
  "legacy_memberships prefix [] groups = Inr ([], groups)"
| "legacy_memberships prefix ((entity_id, team) # rest) groups =
     rbind (py_identifier entity_id ''team_ids key'') (\<lambda>_.
     case team of
       None \<Rightarrow> legacy_memberships prefix rest groups
     | Some team_id \<Rightarrow>
         rbind (py_identifier team_id ''team_id'') (\<lambda>_.
         let fresh = GroupKey SCENARIO_SIDE (prefix @ '':'' @ team_id);
             group = (case map_of groups team_id of None \<Rightarrow> fresh | Some g \<Rightarrow> g);
             groups' = (if map_of groups team_id = None then AList.update team_id fresh groups else groups)
         in rbind (legacy_memberships prefix rest groups') (\<lambda>(ms, gs).
            Inr (\<lparr>gm_entity_id = entity_id, gm_group_key = group, gm_role = None\<rparr> # ms, gs))))"

fun combinations2 :: "'a list \<Rightarrow> ('a \<times> 'a) list" where
  "combinations2 [] = []"
| "combinations2 (x # xs) = map (Pair x) xs @ combinations2 xs"

definition legacy_team_affiliations ::
    "(string \<times> string option) list \<Rightarrow> int \<Rightarrow> string \<Rightarrow> affiliation_snapshot result" where
  "legacy_team_affiliations team_ids revision group_prefix =
     rbind (py_identifier group_prefix ''group_prefix'') (\<lambda>_.
     rbind (legacy_memberships group_prefix (sort_key fst team_ids) []) (\<lambda>(ms, groups).
     validated affiliation_snapshot_ok
       \<lparr>as_revision = revision, as_memberships = ms, as_ownership_edges = [],
        as_relation_overrides =
          map (\<lambda>(l, r). \<lparr>ro_left = for_group l, ro_right = for_group r, ro_relation = ENEMY, ro_symmetric = True\<rparr>)
            (combinations2 (sort (map snd groups)))\<rparr>))"

subsection \<open>Ownership chains return\<close>

lemma walk_owners_chain:
  "walk_owners m V c = Inr () \<Longrightarrow>
   \<exists>xs. ancestor_chain (map_of m) c = Some xs \<and> distinct (c # xs)
     \<and> (\<forall>x \<in> set (c # xs). map_of m x \<noteq> None \<longrightarrow> x \<notin> V)"
proof (induction m V c rule: walk_owners.induct)
  case (1 m V c)
  show ?case
  proof (cases "map_of m c")
    case None
    then show ?thesis by (simp add: ancestor_chain.simps)
  next
    case (Some o')
    with "1.prems" have nv: "c \<notin> V" and w: "walk_owners m (insert c V) o' = Inr ()"
      by (simp_all add: walk_owners.simps [of m V c] split: if_splits)
    from "1.IH" [OF Some nv w] obtain xs where
      xs: "ancestor_chain (map_of m) o' = Some xs" "distinct (o' # xs)"
        "\<forall>x \<in> set (o' # xs). map_of m x \<noteq> None \<longrightarrow> x \<notin> insert c V" by blast
    then show ?thesis using Some nv
      by (intro exI [of _ "o' # xs"]) (auto simp: ancestor_chain.simps [of _ c])
  qed
qed

lemma validate_owners_map:
  "validate_owners m0 es = Inr m \<Longrightarrow>
   map_of m = map_of m0 ++ map_of (rev (map (\<lambda>e. (oe_owned_id e, oe_owner_id e)) es))"
proof (induction m0 es rule: validate_owners.induct)
  case (2 m0 e es)
  have upd: "validate_owners (AList.update (oe_owned_id e) (oe_owner_id e) m0) es = Inr m"
    using "2.prems" by (auto split: option.splits if_splits)
  then have "map_of m = map_of (AList.update (oe_owned_id e) (oe_owner_id e) m0)
      ++ map_of (rev (map (\<lambda>e. (oe_owned_id e, oe_owner_id e)) es))"
    using "2.IH" "2.prems" by (cases "map_of m0 (oe_owned_id e)") (auto split: if_splits)
  then show ?case by (simp add: update_conv' map_add_assoc [symmetric])
qed simp

lemma snapshot_ok_ancestors:
  assumes "affiliation_snapshot_ok s = Inr ()"
  shows "\<exists>xs. ancestor_chain (owner_by_owned s) i = Some xs \<and> distinct (i # xs)"
proof -
  obtain m where m: "validate_owners [] (as_ownership_edges s) = Inr m"
      and c: "validate_ownership_cycles m = Inr ()"
    using assms by (auto simp: affiliation_snapshot_ok_def rbind_eq_Inr)
  have eq: "map_of m = owner_by_owned s"
    using validate_owners_map [OF m] by (simp add: owner_by_owned_def)
  show ?thesis
  proof (cases "map_of m i")
    case None
    then show ?thesis by (simp add: eq ancestor_chain.simps)
  next
    case (Some o')
    then have "walk_owners m {} i = Inr ()"
      using c by (auto simp: validate_ownership_cycles_def riter_eq_Inr dest: map_of_SomeD)
    from walk_owners_chain [OF this] show ?thesis by (auto simp: eq)
  qed
qed

subsection \<open>The selected override\<close>

lemma length_remdups_map:
  "1 < length (remdups (map f xs)) \<longleftrightarrow> (\<exists>x \<in> set xs. \<exists>y \<in> set xs. f x \<noteq> f y)"
proof -
  have "1 < length (remdups (map f xs)) \<longleftrightarrow> \<not> card (f ` set xs) \<le> Suc 0"
    by (simp add: length_remdups_card_conv not_le)
  also have "\<dots> \<longleftrightarrow> (\<exists>x \<in> set xs. \<exists>y \<in> set xs. f x \<noteq> f y)"
    by (subst card_le_Suc0_iff_eq) auto
  finally show ?thesis .
qed

definition strongest_match :: "relation_override set \<Rightarrow> string \<Rightarrow> string \<Rightarrow> group_key set \<Rightarrow> group_key set
    \<Rightarrow> relation_override \<Rightarrow> bool" where
  "strongest_match os l r lm rm o' \<longleftrightarrow> o' \<in> os \<and> override_matches o' l r lm rm
     \<and> (\<forall>p \<in> os. override_matches p l r lm rm \<longrightarrow> precedence p \<le> precedence o')"

lemma strongest_filter:
  assumes "filter (\<lambda>o'. override_matches o' l r lm rm) os = m # ms"
  shows "set (filter (\<lambda>o'. precedence o' = Max (set (map precedence (m # ms)))) (m # ms))
    = Collect (strongest_match (set os) l r lm rm)"
    and "filter (\<lambda>o'. precedence o' = Max (set (map precedence (m # ms)))) (m # ms) \<noteq> []"
proof -
  have ms: "set (m # ms) = {o' \<in> set os. override_matches o' l r lm rm}"
    unfolding assms [symmetric] by auto
  let ?M = "Max (set (map precedence (m # ms)))"
  have le: "precedence p \<le> ?M" if "p \<in> set (m # ms)" for p using that by (intro Max_ge) auto
  have "?M \<in> precedence ` set (m # ms)" unfolding set_map by (intro Max_in) auto
  then obtain q where q: "q \<in> set (m # ms)" "precedence q = ?M" by (rule imageE) simp
  show "filter (\<lambda>o'. precedence o' = ?M) (m # ms) \<noteq> []"
    using q unfolding filter_empty_conv by blast
  have "precedence p = ?M \<longleftrightarrow> (\<forall>q \<in> set (m # ms). precedence q \<le> precedence p)" if "p \<in> set (m # ms)" for p
  proof
    assume "\<forall>q \<in> set (m # ms). precedence q \<le> precedence p"
    then have "?M \<le> precedence p" using q by metis
    then show "precedence p = ?M" by (rule order_antisym [OF le [OF that]])
  qed (use le in simp)
  then show "set (filter (\<lambda>o'. precedence o' = ?M) (m # ms)) = Collect (strongest_match (set os) l r lm rm)"
    unfolding set_filter strongest_match_def ms by blast
qed

definition selection_ok :: "relation_override set \<Rightarrow> string \<Rightarrow> string \<Rightarrow> group_key set \<Rightarrow> group_key set
    \<Rightarrow> relation_override option result \<Rightarrow> bool" where
  "selection_ok os l r lm rm res \<longleftrightarrow> (case res of
     Inr None \<Rightarrow> (\<forall>p \<in> os. \<not> override_matches p l r lm rm)
   | Inr (Some o') \<Rightarrow> strongest_match os l r lm rm o'
       \<and> (\<forall>p. strongest_match os l r lm rm p \<longrightarrow> ro_relation p = ro_relation o')
   | Inl e \<Rightarrow> e = AffiliationConflictError ''equally specific relation overrides disagree''
       \<and> (\<exists>p q. strongest_match os l r lm rm p \<and> strongest_match os l r lm rm q
            \<and> ro_relation p \<noteq> ro_relation q))"

lemma select_override_ok: "selection_ok (set os) l r lm rm (select_override os l r lm rm)"
proof (cases "filter (\<lambda>o'. override_matches o' l r lm rm) os")
  case Nil
  then show ?thesis by (simp add: selection_ok_def select_override_def filter_empty_conv)
next
  case (Cons m ms)
  define st where "st = filter (\<lambda>o'. precedence o' = Max (set (map precedence (m # ms)))) (m # ms)"
  have set_st: "set st = Collect (strongest_match (set os) l r lm rm)" and ne: "st \<noteq> []"
    unfolding st_def using strongest_filter [OF Cons] by blast+
  have sel: "select_override os l r lm rm =
      (if length (remdups (map ro_relation st)) > 1
       then Inl (AffiliationConflictError ''equally specific relation overrides disagree'')
       else Inr (Some (py_min_by override_choice_key (hd st) (tl st))))"
    by (simp add: select_override_def Cons st_def Let_def)
  have mem: "py_min_by override_choice_key (hd st) (tl st) \<in> set st"
    using py_min_by_mem [of override_choice_key "hd st" "tl st"] ne by (cases st) auto
  show ?thesis
  proof (cases "length (remdups (map ro_relation st)) > 1")
    case True
    then obtain p q where "p \<in> set st" "q \<in> set st" "ro_relation p \<noteq> ro_relation q"
      unfolding length_remdups_map by blast
    then show ?thesis unfolding selection_ok_def sel using True set_st by auto
  next
    case False
    then have agree: "\<forall>p \<in> set st. \<forall>q \<in> set st. ro_relation p = ro_relation q"
      unfolding length_remdups_map by blast
    let ?c = "py_min_by override_choice_key (hd st) (tl st)"
    have "strongest_match (set os) l r lm rm ?c" using mem set_st by blast
    moreover have "\<forall>p. strongest_match (set os) l r lm rm p \<longrightarrow> ro_relation p = ro_relation ?c"
      using agree mem set_st by blast
    ultimately show ?thesis
      unfolding selection_ok_def sel if_not_P [OF False] sum.case option.case by blast
  qed
qed


definition selection_view :: "relation_override option result \<Rightarrow> (relation \<times> int) option result" where
  "selection_view res =
     rbind res (\<lambda>x. Inr (map_option (\<lambda>o'. (ro_relation o', precedence o')) x))"

lemma strongest_match_precedence:
  "strongest_match X l r lm rm p \<Longrightarrow> strongest_match X l r lm rm q \<Longrightarrow> precedence p = precedence q"
  by (auto simp: strongest_match_def intro: order_antisym)

lemma selection_ok_unique:
  assumes a: "selection_ok X l r lm rm a" and b: "selection_ok X l r lm rm b"
  shows "selection_view a = selection_view b"
proof -
  have none: "\<not> strongest_match X l r lm rm p" if "selection_ok X l r lm rm (Inr None)" for p
    using that by (auto simp: selection_ok_def strongest_match_def)
  have some: "strongest_match X l r lm rm o'
      \<and> (\<forall>p. strongest_match X l r lm rm p \<longrightarrow> ro_relation p = ro_relation o')"
    if "selection_ok X l r lm rm (Inr (Some o'))" for o'
    using that unfolding selection_ok_def sum.case option.case .
  have err: "e = AffiliationConflictError ''equally specific relation overrides disagree''
      \<and> (\<exists>p q. strongest_match X l r lm rm p \<and> strongest_match X l r lm rm q \<and> ro_relation p \<noteq> ro_relation q)"
    if "selection_ok X l r lm rm (Inl e)" for e
    using that unfolding selection_ok_def sum.case .
  have three: "(\<exists>e. x = Inl e) \<or> x = Inr None \<or> (\<exists>o'. x = Inr (Some o'))" for x :: "'x option result"
    by (cases x; cases "projr x") auto
  have ex1: False if "selection_ok X l r lm rm (Inl e)" "selection_ok X l r lm rm (Inr x)" for e x
  proof (cases x)
    case None
    then show ?thesis using that none err by metis
  next
    case (Some o')
    then have "\<forall>p. strongest_match X l r lm rm p \<longrightarrow> ro_relation p = ro_relation o'" using that some by blast
    then show ?thesis using that(1) err by metis
  qed
  have ex2: False if "selection_ok X l r lm rm (Inr None)" "selection_ok X l r lm rm (Inr (Some o'))" for o'
    using that none some by blast
  show ?thesis
    using three [of a] three [of b]
  proof (elim disjE exE)
    fix p q assume ab: "a = Inr (Some p)" "b = Inr (Some q)"
    then have "ro_relation p = ro_relation q" "precedence p = precedence q"
      using some [of p] some [of q] a b strongest_match_precedence by metis+
    then show ?thesis using ab by (simp add: selection_view_def)
  qed (metis a b ex1 ex2 err)+
qed

lemma override_matches_swap:
  "ro_symmetric o' \<Longrightarrow> override_matches o' l r lm rm = override_matches o' r l rm lm"
  by (auto simp: override_matches_def Let_def)

lemma select_override_swap:
  assumes "\<forall>o' \<in> set os. ro_symmetric o'"
  shows "select_override os l r lm rm = select_override os r l rm lm"
proof -
  have "filter (\<lambda>o'. override_matches o' l r lm rm) os = filter (\<lambda>o'. override_matches o' r l rm lm) os"
    using assms override_matches_swap by (intro filter_cong) auto
  then show ?thesis by (simp add: select_override_def)
qed

subsection \<open>Facts\<close>

lemma precedence_pos: "0 < precedence o'"
  by (simp add: precedence_def specificity_def)

lemma select_override_mem:
  "select_override os l r lm rm = Inr (Some o') \<Longrightarrow> o' \<in> set os \<and> override_matches o' l r lm rm"
  using select_override_ok [of os l r lm rm] by (simp add: selection_ok_def strongest_match_def)

lemma build_facts_ok:
  assumes "nonblank l" "nonblank r" "\<forall>o'. ov = Some o' \<longrightarrow> ro_relation o' \<noteq> SELF"
  shows "relation_facts_ok (build_facts s l r ov la ra) = Inr ()"
  using assms precedence_pos
  by (cases ov) (auto simp: relation_facts_ok_def build_facts_def Let_def result_simps not_le)

lemma known_pair_selects:
  assumes ok: "affiliation_snapshot_ok s = Inr ()" and ids: "l \<in> set (entity_ids s)" "r \<in> set (entity_ids s)" "l \<noteq> r"
  shows "returns (select_override (as_relation_overrides s) l r (memberships_by_entity s l) (memberships_by_entity s r))"
proof (cases "as_relation_overrides s = []")
  case True
  then show ?thesis by (simp add: select_override_def)
next
  case False
  have "\<not> length (entity_ids s) < 2"
    using ids by (cases "entity_ids s" rule: remdups_adj.cases) auto
  moreover have "validate_known_entity_override_conflicts s = Inr ()"
    using ok by (auto simp: affiliation_snapshot_ok_def rbind_eq_Inr)
  ultimately show ?thesis
    using False ids by (auto simp: validate_known_entity_override_conflicts_def Let_def riter_eq_Inr rbind_eq_Inr)
qed

definition overrides_ok :: "affiliation_snapshot \<Rightarrow> bool" where
  "overrides_ok s \<longleftrightarrow> list_all (\<lambda>o'. relation_override_ok o' = Inr ()) (as_relation_overrides s)"

lemma relation_override_ok_Inr [result_simps]:
  "relation_override_ok o' = Inr u \<longleftrightarrow> ro_left o' \<noteq> ro_right o' \<and> ro_relation o' \<noteq> SELF"
  by (simp add: relation_override_ok_def)

lemma overrides_ok_not_SELF:
  "overrides_ok s \<Longrightarrow> o' \<in> set (as_relation_overrides s) \<Longrightarrow> ro_relation o' \<noteq> SELF"
  by (auto simp: overrides_ok_def list_all_iff result_simps)

lemma facts_between_known:
  assumes ok: "affiliation_snapshot_ok s = Inr ()" "overrides_ok s"
    and ids: "l \<in> set (entity_ids s)" "r \<in> set (entity_ids s)" "nonblank l" "nonblank r"
  shows "\<exists>ov la ra. facts_between s l r = Some (Inr (build_facts s l r ov la ra))
    \<and> (if l = r then ov = None
       else select_override (as_relation_overrides s) l r (memberships_by_entity s l) (memberships_by_entity s r) = Inr ov)
    \<and> ancestor_chain (owner_by_owned s) l = Some la \<and> ancestor_chain (owner_by_owned s) r = Some ra
    \<and> relation_facts_ok (build_facts s l r ov la ra) = Inr ()"
proof -
  obtain ov where ov: "if l = r then ov = None
       else select_override (as_relation_overrides s) l r (memberships_by_entity s l) (memberships_by_entity s r) = Inr ov"
    using known_pair_selects [OF ok(1) ids(1,2)] by (cases "l = r") auto
  obtain la where la: "ancestor_chain (owner_by_owned s) l = Some la" using snapshot_ok_ancestors [OF ok(1)] by blast
  obtain ra where ra: "ancestor_chain (owner_by_owned s) r = Some ra" using snapshot_ok_ancestors [OF ok(1)] by blast
  have "\<forall>o'. ov = Some o' \<longrightarrow> ro_relation o' \<noteq> SELF"
    using ov overrides_ok_not_SELF [OF ok(2)] by (auto split: if_splits dest: select_override_mem)
  then have fo: "relation_facts_ok (build_facts s l r ov la ra) = Inr ()"
    using ids by (intro build_facts_ok) auto
  have "l = r \<Longrightarrow> la = ra" using la ra by simp
  then have "facts_between s l r = Some (Inr (build_facts s l r ov la ra))"
    using ov ids fo by (auto simp: facts_between_def py_identifier_def la ra validated_def)
  then show ?thesis using ov la ra fo by blast
qed

lemma shares_kind_sym: "shares_kind a b k = shares_kind b a k"
  by (auto simp: shares_kind_def)

lemma policy_build_facts_swap:
  "policy_coarse_relation p (build_facts s l r ov la ra) = policy_coarse_relation p (build_facts s r l ov ra la)"
  by (auto simp: policy_coarse_relation_def build_facts_def Let_def shares_kind_sym split: option.splits)

lemma relation_facts_ok_swap:
  assumes "nonblank l" "nonblank r"
  shows "relation_facts_ok (build_facts s l r ov la ra) = relation_facts_ok (build_facts s r l ov ra la)"
  using assms by (auto simp: relation_facts_ok_def build_facts_def Let_def py_identifier_def)

lemma coarse_relation_swap:
  assumes sym: "\<forall>o' \<in> set (as_relation_overrides s). ro_symmetric o'" and nb: "nonblank l" "nonblank r"
  shows "coarse_relation s p l r = coarse_relation s p r l"
proof -
  let ?sel = "\<lambda>l r. if l \<noteq> r then select_override (as_relation_overrides s) l r
      (memberships_by_entity s l) (memberships_by_entity s r) else Inr None"
  have sel: "?sel l r = ?sel r l" using select_override_swap [OF sym] by auto
  have co: "coarse_relation s p a b = (case ?sel a b of Inl e \<Rightarrow> Some (Inl e)
     | Inr ov \<Rightarrow> Option.bind (ancestor_chain (owner_by_owned s) a) (\<lambda>la.
         Option.bind (ancestor_chain (owner_by_owned s) b) (\<lambda>ra.
         Some (rbind (relation_facts_ok (build_facts s a b ov la ra)) (\<lambda>_.
           Inr (policy_coarse_relation p (build_facts s a b ov la ra)))))))"
    if "nonblank a" "nonblank b" for a b
    using that by (auto simp: coarse_relation_def facts_between_def py_identifier_def validated_def rbind_assoc
        split: sum.split bind_splits)
  show ?thesis
    unfolding co [OF nb] co [OF nb(2,1)] sel
    by (cases "?sel r l"; cases "ancestor_chain (owner_by_owned s) l"; cases "ancestor_chain (owner_by_owned s) r")
      (auto simp: relation_facts_ok_swap [OF nb] policy_build_facts_swap [of p s l r])
qed


subsection \<open>What legacy teams give\<close>

definition legacy_group :: "string \<Rightarrow> string \<Rightarrow> group_key" where
  "legacy_group prefix team_id = GroupKey SCENARIO_SIDE (prefix @ '':'' @ team_id)"

lemma legacy_group_inject [simp]: "legacy_group p a = legacy_group p b \<longleftrightarrow> a = b"
  by (simp add: legacy_group_def)

lemma AList_update_fresh: "k \<notin> fst ` set gs \<Longrightarrow> AList.update k v gs = gs @ [(k, v)]"
  by (induction gs) auto

lemma legacy_memberships_spec:
  assumes "\<forall>(i, t) \<in> set ts. nonblank i \<and> (\<forall>x. t = Some x \<longrightarrow> nonblank x)"
    and "\<forall>(t, g) \<in> set gs. g = legacy_group p t" "distinct (map fst gs)"
  shows "\<exists>gs'. legacy_memberships p ts gs =
      Inr (map (\<lambda>(i, t). \<lparr>gm_entity_id = i, gm_group_key = legacy_group p (the t), gm_role = None\<rparr>)
             (filter (\<lambda>(i, t). t \<noteq> None) ts), gs')
    \<and> (\<forall>(t, g) \<in> set gs'. g = legacy_group p t) \<and> distinct (map fst gs')
    \<and> fst ` set gs' = fst ` set gs \<union> {t. \<exists>i. (i, Some t) \<in> set ts}"
  using assms
proof (induction p ts gs rule: legacy_memberships.induct)
  case (1 p gs)
  then show ?case by simp
next
  case (2 p i t rest gs)
  show ?case
  proof (cases t)
    case None
    with 2 show ?thesis by (auto simp: py_identifier_def)
  next
    case (Some x)
    let ?fresh = "legacy_group p x"
    let ?gs = "if map_of gs x = None then AList.update x ?fresh gs else gs"
    have g: "(case map_of gs x of None \<Rightarrow> ?fresh | Some g \<Rightarrow> g) = ?fresh"
      using "2.prems"(2) by (auto split: option.split dest!: map_of_SomeD)
    have gs_inv: "\<forall>(t, g) \<in> set ?gs. g = legacy_group p t" "distinct (map fst ?gs)"
        "fst ` set ?gs = insert x (fst ` set gs)"
      using "2.prems"(2,3)
      by (auto simp: AList_update_fresh map_of_eq_None_iff dest: map_of_SomeD intro: rev_image_eqI)
    have nb: "nonblank i" "nonblank x" and rest: "\<forall>(i, t) \<in> set rest. nonblank i \<and> (\<forall>x. t = Some x \<longrightarrow> nonblank x)"
      using "2.prems"(1) Some by auto
    have IH: "\<exists>gs'. legacy_memberships p rest ?gs =
        Inr (map (\<lambda>(i, t). \<lparr>gm_entity_id = i, gm_group_key = legacy_group p (the t), gm_role = None\<rparr>)
             (filter (\<lambda>(i, t). t \<noteq> None) rest), gs')
      \<and> (\<forall>(t, g) \<in> set gs'. g = legacy_group p t) \<and> distinct (map fst gs')
      \<and> fst ` set gs' = fst ` set ?gs \<union> {t. \<exists>i. (i, Some t) \<in> set rest}"
      using "2.IH"(2) [OF Some legacy_group_def refl refl rest gs_inv(1,2)] .
    then obtain gs' where gs': "legacy_memberships p rest ?gs =
        Inr (map (\<lambda>(i, t). \<lparr>gm_entity_id = i, gm_group_key = legacy_group p (the t), gm_role = None\<rparr>)
             (filter (\<lambda>(i, t). t \<noteq> None) rest), gs')"
      "\<forall>(t, g) \<in> set gs'. g = legacy_group p t" "distinct (map fst gs')"
      "fst ` set gs' = insert x (fst ` set gs) \<union> {t. \<exists>i. (i, Some t) \<in> set rest}"
      unfolding gs_inv(3) by blast
    have "legacy_memberships p ((i, t) # rest) gs =
        Inr (map (\<lambda>(i, t). \<lparr>gm_entity_id = i, gm_group_key = legacy_group p (the t), gm_role = None\<rparr>)
             (filter (\<lambda>(i, t). t \<noteq> None) ((i, t) # rest)), gs')"
      using gs'(1) g nb Some
      by (cases "map_of gs x") (simp_all add: py_identifier_def Let_def flip: legacy_group_def [simplified])
    then show ?thesis using gs'(2-4) Some by (intro exI [of _ gs']) auto
  qed
qed


lemma combinations2_sub: "(x, y) \<in> set (combinations2 xs) \<Longrightarrow> x \<in> set xs \<and> y \<in> set xs"
  by (induction xs) auto

lemma combinations2_neq: "distinct xs \<Longrightarrow> (x, y) \<in> set (combinations2 xs) \<Longrightarrow> x \<noteq> y"
  by (induction xs) (auto dest: combinations2_sub)

lemma combinations2_sorted:
  "sorted xs \<Longrightarrow> distinct xs \<Longrightarrow> set (combinations2 xs) = {(x, y). x \<in> set xs \<and> y \<in> set xs \<and> x < y}"
  by (induction xs) (auto simp: order.strict_iff_order)

lemma distinct_combinations2: "distinct xs \<Longrightarrow> distinct (combinations2 xs)"
  by (induction xs) (auto simp: distinct_map inj_on_def dest: combinations2_sub)

lemma validate_group_kinds_distinct:
  "distinct (map gm_entity_id ms) \<Longrightarrow> fst ` set seen \<inter> gm_entity_id ` set ms = {} \<Longrightarrow>
   validate_group_kinds seen ms = Inr ()"
  by (induction seen ms rule: validate_group_kinds.induct) (auto simp: image_iff disjoint_iff)

lemma validate_override_identities_distinct:
  "distinct (map identity_key os) \<Longrightarrow> fst ` set seen \<inter> identity_key ` set os = {} \<Longrightarrow>
   validate_override_identities seen os = Inr ()"
proof (induction seen os rule: validate_override_identities.induct)
  case (2 seen o' os)
  have n: "map_of seen (identity_key o') = None" using "2.prems" by (auto simp: map_of_eq_None_iff)
  have "fst ` set (AList.update (identity_key o') (ro_relation o') seen) = insert (identity_key o') (fst ` set seen)"
    by (simp add: dom_update)
  then have "validate_override_identities (AList.update (identity_key o') (ro_relation o') seen) os = Inr ()"
    using "2.IH" [OF n] "2.prems" by auto
  then show ?case by (simp add: n)
qed simp

definition enemy_override :: "group_key \<times> group_key \<Rightarrow> relation_override" where
  "enemy_override = (\<lambda>(l, r). \<lparr>ro_left = for_group l, ro_right = for_group r, ro_relation = ENEMY, ro_symmetric = True\<rparr>)"

lemma subject_sort_key_group: "subject_sort_key (for_group k) = (''group'', group_key_order k)"
  by (simp add: subject_sort_key_def for_group_def group_key_order_def)

lemma identity_key_enemy: "x < y \<Longrightarrow> identity_key (enemy_override (x, y)) =
    ((''group'', group_key_order x), (''group'', group_key_order y), True)"
  by (auto simp: identity_key_def enemy_override_def subject_sort_key_group Let_def less_group_key_def)

lemma enemy_override_matches:
  "override_matches (enemy_override (x, y)) l r lm rm \<longleftrightarrow> (x \<in> lm \<and> y \<in> rm) \<or> (x \<in> rm \<and> y \<in> lm)"
  by (auto simp: override_matches_def enemy_override_def for_group_def subject_matches_def Let_def)

lemma enemy_overrides_select:
  assumes "set os \<subseteq> range enemy_override"
  shows "\<exists>ov. select_override os l r lm rm = Inr ov
    \<and> map_option ro_relation ov = (if \<exists>o' \<in> set os. override_matches o' l r lm rm then Some ENEMY else None)"
proof -
  have enemy: "ro_relation o' = ENEMY" if "o' \<in> set os" for o'
    using that assms by (auto simp: enemy_override_def)
  have ok: "selection_ok (set os) l r lm rm (select_override os l r lm rm)" by (rule select_override_ok)
  show ?thesis
  proof (cases "select_override os l r lm rm")
    case (Inl e)
    then show ?thesis using ok enemy by (auto simp: selection_ok_def strongest_match_def)
  next
    case (Inr ov)
    then show ?thesis using ok enemy
      by (cases ov) (auto simp: selection_ok_def strongest_match_def)
  qed
qed

end
