(* ===== verification/Affiliation_Relations.thy ===== *)
theory Affiliation_Relations
  imports Affiliations
begin

text \<open>
  What the affiliation model guarantees its clients: ownership chains of a validated snapshot return
  and are acyclic, the facts between known entities never raise, the override selected is a
  strongest match whatever the order of the overrides, relations are symmetric when the overrides
  are, and the snapshot built from legacy team ids reproduces the team rule.
\<close>

subsection \<open>What validation accepts\<close>

lemma validate_group_kinds_iff:
  "validate_group_kinds seen ms = Inr () \<longleftrightarrow>
     distinct (map (\<lambda>m. (gm_entity_id m, gk_kind (gm_group_key m))) ms)
     \<and> (\<forall>m \<in> set ms. (gm_entity_id m, gk_kind (gm_group_key m)) \<notin> set seen)"
  by (induction seen ms rule: validate_group_kinds.induct) (auto simp: image_iff)

lemma fst_set_update: "fst ` set (AList.update k v xs) = insert k (fst ` set xs)"
  by (simp add: dom_update)

lemma validate_override_identities_iff:
  "validate_override_identities seen os = Inr () \<longleftrightarrow>
     distinct (map identity_key os) \<and> (\<forall>o' \<in> set os. identity_key o' \<notin> fst ` set seen)"
proof (induction seen os rule: validate_override_identities.induct)
  case (2 seen o' os)
  show ?case
  proof (cases "map_of seen (identity_key o')")
    case None
    then have "identity_key o' \<notin> fst ` set seen" by (simp add: map_of_eq_None_iff)
    moreover have step: "validate_override_identities seen (o' # os) =
        validate_override_identities (AList.update (identity_key o') (ro_relation o') seen) os"
      by (simp add: None)
    ultimately show ?thesis unfolding step "2.IH" [OF None] fst_set_update
      by (simp add: image_iff ball_conj_distrib) metis
  next
    case (Some r)
    then have "identity_key o' \<in> fst ` set seen" by (metis fst_conv image_eqI map_of_SomeD)
    with Some show ?thesis by auto
  qed
qed simp

definition one_owner :: "ownership_edge list \<Rightarrow> bool" where
  "one_owner es \<longleftrightarrow> (\<forall>e \<in> set es. \<forall>e' \<in> set es. oe_owned_id e = oe_owned_id e' \<longrightarrow> oe_owner_id e = oe_owner_id e')"

lemma one_owner_Cons: "one_owner (e # es) \<longleftrightarrow>
    one_owner es \<and> (\<forall>e' \<in> set es. oe_owned_id e' = oe_owned_id e \<longrightarrow> oe_owner_id e' = oe_owner_id e)"
  by (auto simp: one_owner_def)

lemma validate_owners_iff:
  "returns (validate_owners m0 es) \<longleftrightarrow>
     one_owner es \<and> (\<forall>e \<in> set es. map_of m0 (oe_owned_id e) \<in> {None, Some (oe_owner_id e)})"
proof (induction m0 es rule: validate_owners.induct)
  case (2 m0 e es)
  let ?m = "AList.update (oe_owned_id e) (oe_owner_id e) m0"
  have upd: "map_of ?m = (map_of m0)(oe_owned_id e \<mapsto> oe_owner_id e)" by (rule update_conv')
  have IH: "returns (validate_owners ?m es) \<longleftrightarrow>
      one_owner es \<and> (\<forall>e' \<in> set es. map_of ?m (oe_owned_id e') \<in> {None, Some (oe_owner_id e')})"
    if "map_of m0 (oe_owned_id e) \<in> {None, Some (oe_owner_id e)}"
    using that "2.IH" by auto
  show ?case
  proof (cases "map_of m0 (oe_owned_id e) \<in> {None, Some (oe_owner_id e)}")
    case True
    have step: "validate_owners m0 (e # es) = validate_owners ?m es" using True by auto
    have key: "((map_of m0)(oe_owned_id e \<mapsto> oe_owner_id e)) (oe_owned_id e') \<in> {None, Some (oe_owner_id e')}
        \<longleftrightarrow> (oe_owned_id e' = oe_owned_id e \<longrightarrow> oe_owner_id e' = oe_owner_id e)
          \<and> map_of m0 (oe_owned_id e') \<in> {None, Some (oe_owner_id e')}" for e'
      using True by auto
    show ?thesis unfolding step IH [OF True] upd key one_owner_Cons ball_conj_distrib using True by auto
  next
    case False
    then show ?thesis by (auto split: option.splits)
  qed
qed (simp add: one_owner_def)

lemma ancestor_chain_suffix:
  "ancestor_chain owner c = Some xs \<Longrightarrow> x \<in> set xs \<Longrightarrow>
   \<exists>zs. ancestor_chain owner x = Some zs \<and> set zs \<subseteq> set xs \<and> length zs < length xs"
proof (induction xs arbitrary: c)
  case (Cons y ys)
  then have "ancestor_chain owner y = Some ys"
    by (simp add: ancestor_chain.simps [of owner c] split: option.splits bind_splits)
  then show ?case using Cons.IH [of y] Cons.prems(2) by (cases "x = y") auto
qed simp

lemma ancestor_chain_distinct: "ancestor_chain owner c = Some xs \<Longrightarrow> distinct (c # xs)"
proof (induction xs arbitrary: c)
  case (Cons y ys)
  then have y: "ancestor_chain owner y = Some ys"
    by (simp add: ancestor_chain.simps [of owner c] split: option.splits bind_splits)
  have "c \<notin> set (y # ys)" using ancestor_chain_suffix [OF Cons.prems, of c] Cons.prems by auto
  then show ?case using Cons.IH [OF y] by simp
qed simp

lemma walk_owners_returns:
  "ancestor_chain (map_of m) c = Some xs \<Longrightarrow> set (c # xs) \<inter> V = {} \<Longrightarrow> walk_owners m V c = Inr ()"
proof (induction xs arbitrary: c V)
  case Nil
  then show ?case
    by (simp add: ancestor_chain.simps [of "map_of m" c] walk_owners.simps [of m V c] split: option.splits bind_splits)
next
  case (Cons y ys)
  have y: "map_of m c = Some y" "ancestor_chain (map_of m) y = Some ys"
    using Cons.prems(1) by (simp_all add: ancestor_chain.simps [of "map_of m" c] split: option.splits bind_splits)
  have "c \<notin> set (y # ys)" using ancestor_chain_distinct [OF Cons.prems(1)] by simp
  then have "walk_owners m (insert c V) y = Inr ()"
    using Cons.prems(2) by (intro Cons.IH y(2)) auto
  then show ?case using y(1) Cons.prems(2) by (simp add: walk_owners.simps [of m V c])
qed

lemma validate_cycles_iff:
  "validate_ownership_cycles m = Inr () \<longleftrightarrow> (\<forall>i. ancestor_chain (map_of m) i \<noteq> None)"
proof
  assume l: "validate_ownership_cycles m = Inr ()"
  show "\<forall>i. ancestor_chain (map_of m) i \<noteq> None"
  proof
    fix i
    show "ancestor_chain (map_of m) i \<noteq> None"
    proof (cases "map_of m i")
      case (Some o')
      then have "walk_owners m {} i = Inr ()"
        using l by (auto simp: validate_ownership_cycles_def riter_eq_Inr dest: map_of_SomeD)
      from walk_owners_chain [OF this] show ?thesis by auto
    qed (simp add: ancestor_chain.simps)
  qed
next
  assume "\<forall>i. ancestor_chain (map_of m) i \<noteq> None"
  then show "validate_ownership_cycles m = Inr ()"
    by (auto simp: validate_ownership_cycles_def riter_eq_Inr intro: walk_owners_returns)
qed

lemma validate_conflicts_iff:
  "validate_known_entity_override_conflicts s = Inr () \<longleftrightarrow>
     (\<forall>l \<in> set (entity_ids s). \<forall>r \<in> set (entity_ids s). l \<noteq> r \<longrightarrow>
        returns (select_override (as_relation_overrides s) l r (memberships_by_entity s l) (memberships_by_entity s r)))"
proof (cases "length (entity_ids s) < 2 \<or> as_relation_overrides s = []")
  case True
  have "l = r" if "length (entity_ids s) < 2" "l \<in> set (entity_ids s)" "r \<in> set (entity_ids s)" for l r
    using that by (cases "entity_ids s" rule: remdups_adj.cases) auto
  then show ?thesis
    using True by (auto simp: validate_known_entity_override_conflicts_def Let_def select_override_def)
next
  case False
  then show ?thesis
    by (fastforce simp: validate_known_entity_override_conflicts_def Let_def riter_eq_Inr rbind_eq_Inr)
qed

lemma select_override_returns_iff:
  "returns (select_override os l r lm rm) \<longleftrightarrow>
     (\<forall>p q. strongest_match (set os) l r lm rm p \<longrightarrow> strongest_match (set os) l r lm rm q \<longrightarrow> ro_relation p = ro_relation q)"
proof (cases "select_override os l r lm rm")
  case (Inl e)
  then show ?thesis using select_override_ok [of os l r lm rm] by (simp add: selection_ok_def)
next
  case (Inr ov)
  then have ok: "selection_ok (set os) l r lm rm (Inr ov)" using select_override_ok [of os l r lm rm] by simp
  show ?thesis
  proof (cases ov)
    case None
    with ok Inr show ?thesis by (auto simp: selection_ok_def strongest_match_def)
  next
    case (Some o')
    have agree: "\<forall>p. strongest_match (set os) l r lm rm p \<longrightarrow> ro_relation p = ro_relation o'"
      using ok unfolding selection_ok_def Some sum.case option.case by (rule conjunct2)
    have "\<forall>p q. strongest_match (set os) l r lm rm p \<longrightarrow> strongest_match (set os) l r lm rm q \<longrightarrow> ro_relation p = ro_relation q"
      by (intro allI impI) (rule trans [OF agree [rule_format] agree [rule_format, symmetric]])
    then show ?thesis unfolding Inr by blast
  qed
qed

definition snapshot_spec :: "affiliation_snapshot \<Rightarrow> bool" where
  "snapshot_spec s \<longleftrightarrow>
     0 \<le> as_revision s
   \<and> distinct (map (\<lambda>m. (gm_entity_id m, gm_group_key m)) (as_memberships s))
   \<and> distinct (map (\<lambda>m. (gm_entity_id m, gk_kind (gm_group_key m))) (as_memberships s))
   \<and> distinct (as_ownership_edges s)
   \<and> one_owner (as_ownership_edges s)
   \<and> (\<forall>i. ancestor_chain (owner_by_owned s) i \<noteq> None)
   \<and> distinct (map identity_key (as_relation_overrides s))
   \<and> (\<forall>l \<in> set (entity_ids s). \<forall>r \<in> set (entity_ids s). l \<noteq> r \<longrightarrow>
        (\<forall>p q. strongest_match (set (as_relation_overrides s)) l r (memberships_by_entity s l) (memberships_by_entity s r) p \<longrightarrow>
               strongest_match (set (as_relation_overrides s)) l r (memberships_by_entity s l) (memberships_by_entity s r) q \<longrightarrow>
               ro_relation p = ro_relation q))"

lemma snapshot_ok_iff: "affiliation_snapshot_ok s = Inr () \<longleftrightarrow> snapshot_spec s"
proof -
  have owners: "(\<exists>m. validate_owners [] (as_ownership_edges s) = Inr m \<and> validate_ownership_cycles m = Inr ())
      \<longleftrightarrow> one_owner (as_ownership_edges s) \<and> (\<forall>i. ancestor_chain (owner_by_owned s) i \<noteq> None)"
  proof -
    have "map_of m = owner_by_owned s" if "validate_owners [] (as_ownership_edges s) = Inr m" for m
      using validate_owners_map [OF that] by (simp add: owner_by_owned_def)
    then show ?thesis
      using validate_owners_iff [of "[]" "as_ownership_edges s"] by (auto simp: validate_cycles_iff)
  qed
  have "affiliation_snapshot_ok s = Inr () \<longleftrightarrow>
      0 \<le> as_revision s \<and> distinct (map (\<lambda>m. (gm_entity_id m, gm_group_key m)) (as_memberships s))
    \<and> validate_group_kinds [] (as_memberships s) = Inr () \<and> distinct (as_ownership_edges s)
    \<and> (\<exists>m. validate_owners [] (as_ownership_edges s) = Inr m \<and> validate_ownership_cycles m = Inr ())
    \<and> validate_override_identities [] (as_relation_overrides s) = Inr ()
    \<and> validate_known_entity_override_conflicts s = Inr ()"
    by (auto simp: affiliation_snapshot_ok_def result_simps)
  then show ?thesis
    unfolding owners validate_group_kinds_iff validate_override_identities_iff validate_conflicts_iff
      select_override_returns_iff snapshot_spec_def by simp
qed

subsection \<open>The snapshot of legacy teams\<close>

definition legacy_snapshot :: "int \<Rightarrow> string \<Rightarrow> (string \<times> string option) list \<Rightarrow> group_key list \<Rightarrow> affiliation_snapshot" where
  "legacy_snapshot rv p ts gs =
     \<lparr>as_revision = rv,
      as_memberships = map (\<lambda>(i, t). \<lparr>gm_entity_id = i, gm_group_key = legacy_group p (the t), gm_role = None\<rparr>)
             (filter (\<lambda>(i, t). t \<noteq> None) ts),
      as_ownership_edges = [],
      as_relation_overrides = map enemy_override (combinations2 gs)\<rparr>"

lemma legacy_memberships_by_entity:
  "memberships_by_entity (legacy_snapshot rv p ts gs) i = {legacy_group p t |t. (i, Some t) \<in> set ts}"
  by (force simp: memberships_by_entity_def legacy_snapshot_def)

lemma distinct_identity_keys:
  assumes "sorted gs" "distinct gs"
  shows "distinct (map identity_key (map enemy_override (combinations2 gs)))"
proof -
  have "inj_on (identity_key \<circ> enemy_override) (set (combinations2 gs))"
    unfolding combinations2_sorted [OF assms]
    by (auto simp: inj_on_def identity_key_enemy group_key_order_inject)
  then show ?thesis by (simp add: distinct_map distinct_combinations2 [OF assms(2)])
qed

lemma distinct_map_fst_filter: "distinct (map fst xs) \<Longrightarrow> distinct (map fst (filter P xs))"
  by (rule distinct_map_filter)

lemma legacy_entity_ids: "map gm_entity_id (as_memberships (legacy_snapshot rv p ts gs)) = map fst (filter (\<lambda>(i, t). t \<noteq> None) ts)"
  by (simp add: legacy_snapshot_def case_prod_beta comp_def)

lemma legacy_snapshot_ok:
  assumes "0 \<le> rv" "distinct (map fst ts)" "sorted gs" "distinct gs"
  shows "affiliation_snapshot_ok (legacy_snapshot rv p ts gs) = Inr ()"
proof -
  let ?s = "legacy_snapshot rv p ts gs"
  have ids: "distinct (map gm_entity_id (as_memberships ?s))"
    unfolding legacy_entity_ids using assms(2) by (rule distinct_map_filter)
  have pairs: "distinct (map (\<lambda>m. (gm_entity_id m, gm_group_key m)) (as_memberships ?s))"
    using ids by (auto simp: distinct_map inj_on_def)
  have kinds: "validate_group_kinds [] (as_memberships ?s) = Inr ()"
    using ids by (rule validate_group_kinds_distinct) simp
  have idk: "validate_override_identities [] (as_relation_overrides ?s) = Inr ()"
    using distinct_identity_keys [OF assms(3,4)]
    by (intro validate_override_identities_distinct) (simp_all add: legacy_snapshot_def)
  have "set (as_relation_overrides ?s) \<subseteq> range enemy_override" by (auto simp: legacy_snapshot_def)
  then have conf: "validate_known_entity_override_conflicts ?s = Inr ()"
    using enemy_overrides_select
    by (fastforce simp: validate_known_entity_override_conflicts_def Let_def riter_eq_Inr rbind_eq_Inr)
  have edges: "as_ownership_edges ?s = []" "as_revision ?s = rv" by (simp_all add: legacy_snapshot_def)
  show ?thesis
    using assms(1) pairs kinds idk conf
    by (simp add: affiliation_snapshot_ok_def edges validate_ownership_cycles_def)
qed

lemma legacy_team_affiliations_returns:
  assumes nb: "\<forall>(i, t) \<in> set ts. nonblank i \<and> (\<forall>x. t = Some x \<longrightarrow> nonblank x)" "nonblank p"
    and "0 \<le> rv" "distinct (map fst ts)"
  obtains gs where "legacy_team_affiliations ts rv p = Inr (legacy_snapshot rv p (sort_key fst ts) gs)"
    "sorted gs" "distinct gs" "set gs = {legacy_group p t |t i. (i, Some t) \<in> set ts}"
proof -
  from legacy_memberships_spec [of "sort_key fst ts" "[]" p] nb(1) obtain gs' where
    gs': "legacy_memberships p (sort_key fst ts) [] =
      Inr (map (\<lambda>(i, t). \<lparr>gm_entity_id = i, gm_group_key = legacy_group p (the t), gm_role = None\<rparr>)
             (filter (\<lambda>(i, t). t \<noteq> None) (sort_key fst ts)), gs')"
    "\<forall>(t, g) \<in> set gs'. g = legacy_group p t" "distinct (map fst gs')"
    "fst ` set gs' = {t. \<exists>i. (i, Some t) \<in> set ts}" by auto
  let ?gs = "sort (map snd gs')"
  have key: "snd x = legacy_group p (fst x)" if "x \<in> set gs'" for x using gs'(2) that by auto
  then have "inj_on snd (set gs')" by (auto simp: inj_on_def prod_eq_iff)
  then have d: "distinct ?gs" using gs'(3) by (simp add: distinct_map)
  have "snd ` set gs' = legacy_group p ` (fst ` set gs')" using key by (auto simp: image_image)
  then have set: "set ?gs = {legacy_group p t |t i. (i, Some t) \<in> set ts}" unfolding gs'(4) by auto
  have "distinct (map fst (sort_key fst ts))"
    using assms(4) by (metis distinct_map distinct_sort set_sort)
  then have "affiliation_snapshot_ok (legacy_snapshot rv p (sort_key fst ts) ?gs) = Inr ()"
    using assms(3) d by (intro legacy_snapshot_ok) simp_all
  then have "legacy_team_affiliations ts rv p = Inr (legacy_snapshot rv p (sort_key fst ts) ?gs)"
    using gs'(1) nb(2)
    by (simp add: legacy_team_affiliations_def py_identifier_def validated_def enemy_override_def legacy_snapshot_def)
  with d set show thesis by (intro that [of ?gs]) simp_all
qed

definition legacy_relation :: "(string \<times> string option) list \<Rightarrow> string \<Rightarrow> string \<Rightarrow> relation" where
  "legacy_relation ts a b =
     (if a = b then SELF
      else case (map_of ts a, map_of ts b) of
        (Some (Some s), Some (Some t)) \<Rightarrow> (if s = t then ALLY else ENEMY)
      | _ \<Rightarrow> NEUTRAL)"

lemma ordered_pair_exists:
  fixes G :: "'a::linorder set"
  assumes "A \<subseteq> G" "B \<subseteq> G"
  shows "(\<exists>x y. x \<in> G \<and> y \<in> G \<and> x < y \<and> ((x \<in> A \<and> y \<in> B) \<or> (x \<in> B \<and> y \<in> A)))
    \<longleftrightarrow> (\<exists>x \<in> A. \<exists>y \<in> B. x \<noteq> y)" (is "?l \<longleftrightarrow> ?r")
proof
  assume ?l
  then show ?r by (metis order_less_irrefl)
next
  assume ?r
  then obtain x y where xy: "x \<in> A" "y \<in> B" "x \<noteq> y" by blast
  then have "x \<in> G" "y \<in> G" using assms by blast+
  with xy show ?l by (cases x y rule: linorder_cases) blast+
qed

lemma legacy_coarse_relation:
  assumes d: "distinct (map fst ts)" and nb: "nonblank a" "nonblank b"
    and gs: "sorted gs" "distinct gs" "set gs = {legacy_group p t |t i. (i, Some t) \<in> set ts}"
  shows "coarse_relation (legacy_snapshot rv p (sort_key fst ts) gs) default_policy a b = Some (Inr (legacy_relation ts a b))"
proof -
  let ?s = "legacy_snapshot rv p (sort_key fst ts) gs"
  let ?os = "as_relation_overrides ?s"
  let ?m = "memberships_by_entity ?s"
  have mem: "?m i = {legacy_group p t |t. map_of ts i = Some (Some t)}" for i
    unfolding legacy_memberships_by_entity using d by (auto simp: map_of_eq_Some_iff)
  have chain: "ancestor_chain (owner_by_owned ?s) i = Some []" for i
    by (simp add: ancestor_chain.simps owner_by_owned_def legacy_snapshot_def)
  have "set ?os \<subseteq> range enemy_override" by (auto simp: legacy_snapshot_def)
  from enemy_overrides_select [OF this] obtain ov where
    ov: "select_override ?os a b (?m a) (?m b) = Inr ov"
      "map_option ro_relation ov = (if \<exists>o' \<in> set ?os. override_matches o' a b (?m a) (?m b) then Some ENEMY else None)"
    by blast
  have os: "?os = map enemy_override (combinations2 gs)" by (simp add: legacy_snapshot_def)
  have "(\<exists>o' \<in> set ?os. override_matches o' a b (?m a) (?m b))
      \<longleftrightarrow> (\<exists>x y. x \<in> set gs \<and> y \<in> set gs \<and> x < y \<and> ((x \<in> ?m a \<and> y \<in> ?m b) \<or> (x \<in> ?m b \<and> y \<in> ?m a)))"
    unfolding os by (auto simp: combinations2_sorted [OF gs(1,2)] enemy_override_matches)
  also have "\<dots> \<longleftrightarrow> (\<exists>x \<in> ?m a. \<exists>y \<in> ?m b. x \<noteq> y)"
  proof -
    have "?m i \<subseteq> set gs" for i unfolding mem gs(3) by (auto dest: map_of_SomeD)
    then show ?thesis by (intro ordered_pair_exists)
  qed
  also have "\<dots> \<longleftrightarrow> (\<exists>s t. map_of ts a = Some (Some s) \<and> map_of ts b = Some (Some t) \<and> s \<noteq> t)"
    unfolding mem by auto
  finally have match: "(\<exists>o' \<in> set ?os. override_matches o' a b (?m a) (?m b))
      \<longleftrightarrow> (\<exists>s t. map_of ts a = Some (Some s) \<and> map_of ts b = Some (Some t) \<and> s \<noteq> t)" .
  define ov' where "ov' = (if a = b then None else ov)"
  have sel: "(if a \<noteq> b then select_override ?os a b (?m a) (?m b) else Inr None) = Inr ov'"
    using ov(1) by (simp add: ov'_def)
  have side: "shares_kind (?m a) (?m b) k \<longleftrightarrow> k = SCENARIO_SIDE \<and>
      (\<exists>t. map_of ts a = Some (Some t) \<and> map_of ts b = Some (Some t))" for k
    unfolding mem shares_kind_def by (auto simp: legacy_group_def)
  have rel: "ro_relation o' = ENEMY" if "ov' = Some o'" for o'
    using that ov(2) by (auto simp: ov'_def split: if_splits)
  have none: "ov' = None \<longleftrightarrow> a = b \<or> \<not> (\<exists>s t. map_of ts a = Some (Some s) \<and> map_of ts b = Some (Some t) \<and> s \<noteq> t)"
    using ov(2) unfolding match ov'_def by (auto split: if_splits)
  have ok: "relation_facts_ok (build_facts ?s a b ov' [] []) = Inr ()"
    using nb rel by (intro build_facts_ok) auto
  have "coarse_relation ?s default_policy a b = Some (Inr (policy_coarse_relation default_policy (build_facts ?s a b ov' [] [])))"
    using nb sel ok by (simp add: coarse_relation_def facts_between_def py_identifier_def chain validated_def)
  also have "policy_coarse_relation default_policy (build_facts ?s a b ov' [] []) = legacy_relation ts a b"
    using none rel
    by (cases ov')
      (auto simp: policy_coarse_relation_def build_facts_def Let_def side default_policy_def ownership_root_def
        legacy_relation_def split: option.splits)
  finally show ?thesis .
qed


lemma ancestor_antisym:
  assumes "affiliation_snapshot_ok s = Inr ()"
    and "ancestor_chain (owner_by_owned s) l = Some la" "ancestor_chain (owner_by_owned s) r = Some ra"
  shows "\<not> (l \<in> set ra \<and> r \<in> set la)"
  using ancestor_chain_suffix [OF assms(3), of l] snapshot_ok_ancestors [OF assms(1), of r] assms(2,3) by auto

subsection \<open>Properties\<close>

text \<open>C33: Once a snapshot validates, following ownership upwards from any entity returns, never visits
  an entity twice, and never comes back to the entity it started from.\<close>

theorem ownership_acyclic:
  assumes "affiliation_snapshot_ok s = Inr ()"
  shows "\<exists>xs. ancestor_chain (owner_by_owned s) i = Some xs \<and> distinct (i # xs)"
  using assms by (rule snapshot_ok_ancestors)

definition pets_snapshot :: affiliation_snapshot where
  "pets_snapshot = \<lparr>as_revision = 3,
     as_memberships = [\<lparr>gm_entity_id = ''ann'', gm_group_key = GroupKey GUILD ''g'', gm_role = Some ''officer''\<rparr>,
                       \<lparr>gm_entity_id = ''bob'', gm_group_key = GroupKey PARTY ''p'', gm_role = None\<rparr>],
     as_ownership_edges = [\<lparr>oe_owner_id = ''ann'', oe_owned_id = ''pet''\<rparr>,
                           \<lparr>oe_owner_id = ''pet'', oe_owned_id = ''imp''\<rparr>],
     as_relation_overrides = [\<lparr>ro_left = for_group (GroupKey GUILD ''g''), ro_right = for_entity ''bob'',
                               ro_relation = ENEMY, ro_symmetric = True\<rparr>]\<rparr>"

lemma pets_ok: "affiliation_snapshot_ok pets_snapshot = Inr ()"
  by code_simp

theorem ownership_acyclic_witness:
  "affiliation_snapshot_ok pets_snapshot = Inr ()
   \<and> (\<exists>xs. ancestor_chain (owner_by_owned pets_snapshot) ''imp'' = Some xs \<and> distinct (''imp'' # xs))"
  using ownership_acyclic [OF pets_ok] pets_ok by blast

text \<open>C17: Validation accepts exactly the snapshots with a non-negative revision, no repeated membership or
  edge, at most one group of a kind per entity, at most one owner per entity, ownership chains that
  all end, no two overrides with the same endpoints, and no two known entities between which equally
  strong overrides disagree.\<close>

theorem snapshot_validation_exact:
  "affiliation_snapshot_ok s = Inr () \<longleftrightarrow>
     0 \<le> as_revision s
   \<and> distinct (map (\<lambda>m. (gm_entity_id m, gm_group_key m)) (as_memberships s))
   \<and> distinct (map (\<lambda>m. (gm_entity_id m, gk_kind (gm_group_key m))) (as_memberships s))
   \<and> distinct (as_ownership_edges s)
   \<and> one_owner (as_ownership_edges s)
   \<and> (\<forall>i. ancestor_chain (owner_by_owned s) i \<noteq> None)
   \<and> distinct (map identity_key (as_relation_overrides s))
   \<and> (\<forall>l r p q. \<not> (l \<in> set (entity_ids s) \<and> r \<in> set (entity_ids s) \<and> l \<noteq> r
        \<and> strongest_match (set (as_relation_overrides s)) l r (memberships_by_entity s l) (memberships_by_entity s r) p
        \<and> strongest_match (set (as_relation_overrides s)) l r (memberships_by_entity s l) (memberships_by_entity s r) q
        \<and> ro_relation p \<noteq> ro_relation q))"
  unfolding snapshot_ok_iff snapshot_spec_def by blast

text \<open>C34: In a validated snapshot whose overrides are well-formed, asking for the facts between any
  two of its entities returns and never raises; the facts are well-formed, compare the two
  ownership chains, and carry the override selected for the pair (none for an entity and itself).\<close>

theorem facts_between_total:
  assumes "affiliation_snapshot_ok s = Inr ()"
    and "\<forall>o' \<in> set (as_relation_overrides s). relation_override_ok o' = Inr ()"
    and "l \<in> set (entity_ids s)" "r \<in> set (entity_ids s)" "nonblank l" "nonblank r"
  shows "\<exists>f la ra. facts_between s l r = Some (Inr f) \<and> relation_facts_ok f = Inr ()
    \<and> ancestor_chain (owner_by_owned s) l = Some la \<and> ancestor_chain (owner_by_owned s) r = Some ra
    \<and> rf_left_owns_right f = (l \<in> set ra) \<and> rf_right_owns_left f = (r \<in> set la)
    \<and> \<not> (rf_left_owns_right f \<and> rf_right_owns_left f)
    \<and> (if l = r then rf_override_relation f = None
       else \<exists>ov. select_override (as_relation_overrides s) l r (memberships_by_entity s l) (memberships_by_entity s r) = Inr ov
          \<and> rf_override_relation f = map_option ro_relation ov)"
proof -
  have "overrides_ok s" using assms(2) by (simp add: overrides_ok_def list_all_iff)
  from facts_between_known [OF assms(1) this assms(3-6)] obtain ov la ra where
    f: "facts_between s l r = Some (Inr (build_facts s l r ov la ra))"
      "if l = r then ov = None
       else select_override (as_relation_overrides s) l r (memberships_by_entity s l) (memberships_by_entity s r) = Inr ov"
      "ancestor_chain (owner_by_owned s) l = Some la" "ancestor_chain (owner_by_owned s) r = Some ra"
      "relation_facts_ok (build_facts s l r ov la ra) = Inr ()" by blast
  have "\<not> (l \<in> set ra \<and> r \<in> set la)"
    using ancestor_antisym [OF assms(1) f(3,4)] .
  then show ?thesis using f
    by (intro exI [of _ "build_facts s l r ov la ra"] exI [of _ la] exI [of _ ra])
      (auto simp: build_facts_def Let_def split: if_splits)
qed

lemma pets_chains:
  "ancestor_chain (owner_by_owned pets_snapshot) ''imp'' = Some [''pet'', ''ann'']"
  "ancestor_chain (owner_by_owned pets_snapshot) ''ann'' = Some []"
  "ancestor_chain (owner_by_owned pets_snapshot) ''bob'' = Some []"
  by (simp_all add: ancestor_chain.simps owner_by_owned_def pets_snapshot_def)

theorem facts_between_total_witness:
  "\<exists>f. facts_between pets_snapshot ''ann'' ''imp'' = Some (Inr f) \<and> rf_left_owns_right f \<and> \<not> rf_right_owns_left f"
proof -
  have "\<forall>o' \<in> set (as_relation_overrides pets_snapshot). relation_override_ok o' = Inr ()" by code_simp
  moreover have "''ann'' \<in> set (entity_ids pets_snapshot)" "''imp'' \<in> set (entity_ids pets_snapshot)"
    "nonblank ''ann''" "nonblank ''imp''" by code_simp+
  ultimately show ?thesis
    using facts_between_total [OF pets_ok, of "''ann''" "''imp''"] pets_chains by auto
qed

text \<open>C21: The selected override is a matching one of greatest precedence; the relation and precedence
  selected, or the conflict raised, do not depend on the order or repetition of the overrides; and
  the only error is that two strongest matches disagree.\<close>

theorem select_override_strongest:
  assumes "set os = set os'"
  shows "selection_view (select_override os l r lm rm) = selection_view (select_override os' l r lm rm)
    \<and> (case select_override os l r lm rm of
         Inr None \<Rightarrow> (\<forall>p \<in> set os. \<not> override_matches p l r lm rm)
       | Inr (Some o') \<Rightarrow> strongest_match (set os) l r lm rm o'
           \<and> (\<forall>p. strongest_match (set os) l r lm rm p \<longrightarrow> ro_relation p = ro_relation o')
       | Inl e \<Rightarrow> e = AffiliationConflictError ''equally specific relation overrides disagree''
           \<and> (\<exists>p q. strongest_match (set os) l r lm rm p \<and> strongest_match (set os) l r lm rm q
                \<and> ro_relation p \<noteq> ro_relation q))"
proof
  show "selection_view (select_override os l r lm rm) = selection_view (select_override os' l r lm rm)"
    using select_override_ok [of os] select_override_ok [of os'] assms by (metis selection_ok_unique)
qed (use select_override_ok [of os l r lm rm] in \<open>unfold selection_ok_def\<close>)

theorem select_override_strongest_witness:
  "selection_view (select_override (as_relation_overrides pets_snapshot @ as_relation_overrides pets_snapshot)
       ''bob'' ''ann'' {} {GroupKey GUILD ''g''}) = Inr (Some (ENEMY, 3))"
proof -
  have "selection_view (select_override (as_relation_overrides pets_snapshot) ''bob'' ''ann'' {} {GroupKey GUILD ''g''})
      = Inr (Some (ENEMY, 3))" by code_simp
  then show ?thesis
    using select_override_strongest [of "as_relation_overrides pets_snapshot @ as_relation_overrides pets_snapshot"
        "as_relation_overrides pets_snapshot" "''bob''" "''ann''" "{}" "{GroupKey GUILD ''g''}"] by simp
qed

text \<open>When every override of a snapshot is symmetric, the coarse relation is symmetric under every
  policy: same answer, same error, or no answer, in both directions.\<close>

theorem coarse_relation_symmetric:
  assumes "\<forall>o' \<in> set (as_relation_overrides s). ro_symmetric o'" "nonblank l" "nonblank r"
  shows "coarse_relation s policy l r = coarse_relation s policy r l"
  using assms by (rule coarse_relation_swap)

theorem coarse_relation_symmetric_witness:
  "coarse_relation pets_snapshot default_policy ''ann'' ''bob'' = Some (Inr ENEMY)
   \<and> coarse_relation pets_snapshot default_policy ''bob'' ''ann'' = Some (Inr ENEMY)"
proof -
  have "select_override (as_relation_overrides pets_snapshot) ''ann'' ''bob'' (memberships_by_entity pets_snapshot ''ann'')
      (memberships_by_entity pets_snapshot ''bob'') = Inr (Some (hd (as_relation_overrides pets_snapshot)))" by code_simp
  moreover have "rbind (relation_facts_ok (build_facts pets_snapshot ''ann'' ''bob'' (Some (hd (as_relation_overrides pets_snapshot))) [] []))
      (\<lambda>_. Inr (policy_coarse_relation default_policy
        (build_facts pets_snapshot ''ann'' ''bob'' (Some (hd (as_relation_overrides pets_snapshot))) [] []))) = Inr ENEMY"
    by code_simp
  moreover have "py_identifier ''ann'' f = Inr ()" "py_identifier ''bob'' f = Inr ()" for f by code_simp+
  ultimately have "coarse_relation pets_snapshot default_policy ''ann'' ''bob'' = Some (Inr ENEMY)"
    by (simp add: coarse_relation_def facts_between_def pets_chains validated_def rbind_assoc)
  moreover have "\<forall>o' \<in> set (as_relation_overrides pets_snapshot). ro_symmetric o'" "nonblank ''ann''" "nonblank ''bob''"
    by code_simp+
  ultimately show ?thesis using coarse_relation_symmetric [of pets_snapshot "''ann''" "''bob''"] by simp
qed

text \<open>The snapshot built from legacy team ids validates and reproduces the team rule under the
  default policy: an entity is itself, equal teams are allies, different teams are enemies, and an
  entity without a team is neutral to every other.\<close>

theorem legacy_teams_relation:
  assumes "\<forall>(i, t) \<in> set team_ids. nonblank i \<and> (\<forall>x. t = Some x \<longrightarrow> nonblank x)" "nonblank group_prefix"
    and "0 \<le> revision" "distinct (map fst team_ids)" "nonblank a" "nonblank b"
  shows "\<exists>s. legacy_team_affiliations team_ids revision group_prefix = Inr s
    \<and> affiliation_snapshot_ok s = Inr ()
    \<and> coarse_relation s default_policy a b = Some (Inr
        (if a = b then SELF
         else case (map_of team_ids a, map_of team_ids b) of
           (Some (Some x), Some (Some y)) \<Rightarrow> (if x = y then ALLY else ENEMY)
         | _ \<Rightarrow> NEUTRAL))"
proof -
  from legacy_team_affiliations_returns [OF assms(1-4)] obtain gs where
    gs: "legacy_team_affiliations team_ids revision group_prefix = Inr (legacy_snapshot revision group_prefix (sort_key fst team_ids) gs)"
      "sorted gs" "distinct gs" "set gs = {legacy_group group_prefix t |t i. (i, Some t) \<in> set team_ids}" .
  have "affiliation_snapshot_ok (legacy_snapshot revision group_prefix (sort_key fst team_ids) gs) = Inr ()"
    using gs(1) by (auto simp: legacy_team_affiliations_def result_simps)
  then show ?thesis
    using gs(1) legacy_coarse_relation [OF assms(4-6) gs(2-4), of revision]
    unfolding legacy_relation_def by blast
qed

theorem legacy_teams_relation_witness:
  "\<exists>s. legacy_team_affiliations [(''b'', Some ''red''), (''a'', Some ''blue''), (''c'', None)] 0 ''team'' = Inr s
     \<and> coarse_relation s default_policy ''a'' ''b'' = Some (Inr ENEMY)"
  using legacy_teams_relation [of "[(''b'', Some ''red''), (''a'', Some ''blue''), (''c'', None)]" "''team''" 0 "''a''" "''b''"]
  by (auto simp: nonblank_def py_space_def)

end
