(* ===== verification/Protocol_Codec.thy ===== *)
theory Protocol_Codec
  imports Protocol
begin

text \<open>
  The protocol codec (\<^verbatim>\<open>protocol/codec.py\<close>) over JSON values: \<open>message_to_dict\<close> builds the payload
  that \<open>encode_message\<close> hands to \<^verbatim>\<open>json.dumps(..., sort_keys=True)\<close>, and \<open>decode_data\<close> is what
  \<open>decode_message\<close> does with the object that \<^verbatim>\<open>json.loads\<close> gives back. The text in between is
  represented by \<open>json_sort_keys\<close>, the reordering of every object that printing with sorted
  keys and reading back amounts to.
\<close>

datatype json =
    JNull
  | JBool bool
  | JInt int
  | JFloat rat
  | JString string
  | JArray "json list"
  | JObject "(string \<times> json) list"

type_synonym json_object = "(string \<times> json) list"

fun json_sort_keys :: "json \<Rightarrow> json" where
  "json_sort_keys (JArray xs) = JArray (map json_sort_keys xs)"
| "json_sort_keys (JObject kvs) = JObject (sort_key fst (map (map_prod id json_sort_keys) kvs))"
| "json_sort_keys v = v"

subsection \<open>Typed access to the fields of an object\<close>

definition json_get :: "json_object \<Rightarrow> string \<Rightarrow> json result" where
  "json_get data key = (case map_of data key of None \<Rightarrow> Inl (KeyError key) | Some v \<Rightarrow> Inr v)"

definition json_string :: "json_object \<Rightarrow> string \<Rightarrow> string result" where
  "json_string data key = rbind (json_get data key) (\<lambda>v.
     case v of JString s \<Rightarrow> Inr s
     | _ \<Rightarrow> Inl (ProtocolDecodeError (key @ '' must be a string'')))"

definition json_nullable_string :: "json_object \<Rightarrow> string \<Rightarrow> string option result" where
  "json_nullable_string data key = rbind (json_get data key) (\<lambda>v.
     case v of JNull \<Rightarrow> Inr None | JString s \<Rightarrow> Inr (Some s)
     | _ \<Rightarrow> Inl (ProtocolDecodeError (key @ '' must be a string or null'')))"

definition json_integer :: "json_object \<Rightarrow> string \<Rightarrow> int result" where
  "json_integer data key = rbind (json_get data key) (\<lambda>v.
     case v of JInt n \<Rightarrow> Inr n
     | _ \<Rightarrow> Inl (ProtocolDecodeError (key @ '' must be an integer'')))"

text \<open>\<open>float(value)\<close> of a JSON integer rounds to binary64 (the rounding is the argument \<open>rnd\<close>) and
  raises \<open>OverflowError\<close> when the rounded value would exceed the largest finite float.\<close>

definition float_of_int :: "(rat \<Rightarrow> rat) \<Rightarrow> int \<Rightarrow> rat result" where
  "float_of_int rnd n =
     (if \<bar>n\<bar> < 2 ^ 1024 - 2 ^ 970 then Inr (rnd (of_int n))
      else Inl (OverflowError ''int too large to convert to float''))"

definition json_number :: "(rat \<Rightarrow> rat) \<Rightarrow> json_object \<Rightarrow> string \<Rightarrow> rat result" where
  "json_number rnd data key = rbind (json_get data key) (\<lambda>v.
     case v of JInt n \<Rightarrow> float_of_int rnd n | JFloat q \<Rightarrow> Inr q
     | _ \<Rightarrow> Inl (ProtocolDecodeError (key @ '' must be a number'')))"

definition json_nullable_number :: "(rat \<Rightarrow> rat) \<Rightarrow> json_object \<Rightarrow> string \<Rightarrow> rat option result" where
  "json_nullable_number rnd data key = rbind (json_get data key) (\<lambda>v.
     case v of JNull \<Rightarrow> Inr None | JInt n \<Rightarrow> rbind (float_of_int rnd n) (\<lambda>q. Inr (Some q))
     | JFloat q \<Rightarrow> Inr (Some q)
     | _ \<Rightarrow> Inl (ProtocolDecodeError (key @ '' must be a number or null'')))"

definition json_boolean :: "json_object \<Rightarrow> string \<Rightarrow> bool result" where
  "json_boolean data key = rbind (json_get data key) (\<lambda>v.
     case v of JBool b \<Rightarrow> Inr b
     | _ \<Rightarrow> Inl (ProtocolDecodeError (key @ '' must be a boolean'')))"

definition json_object_field :: "json_object \<Rightarrow> string \<Rightarrow> json_object result" where
  "json_object_field data key = rbind (json_get data key) (\<lambda>v.
     case v of JObject o' \<Rightarrow> Inr o'
     | _ \<Rightarrow> Inl (ProtocolDecodeError (key @ '' must be an object'')))"

definition json_nullable_object :: "json_object \<Rightarrow> string \<Rightarrow> json_object option result" where
  "json_nullable_object data key = rbind (json_get data key) (\<lambda>v.
     case v of JNull \<Rightarrow> Inr None | JObject o' \<Rightarrow> Inr (Some o')
     | _ \<Rightarrow> Inl (ProtocolDecodeError (key @ '' must be an object or null'')))"

definition json_sequence :: "json_object \<Rightarrow> string \<Rightarrow> json list result" where
  "json_sequence data key = rbind (json_get data key) (\<lambda>v.
     case v of JArray xs \<Rightarrow> Inr xs
     | _ \<Rightarrow> Inl (ProtocolDecodeError (key @ '' must be an array'')))"

definition json_objects :: "json_object \<Rightarrow> string \<Rightarrow> json_object list result" where
  "json_objects data key = rbind (json_sequence data key) (rmap (\<lambda>v.
     case v of JObject o' \<Rightarrow> Inr o'
     | _ \<Rightarrow> Inl (ProtocolDecodeError (''every '' @ key @ '' item must be an object''))))"

definition json_strings :: "json_object \<Rightarrow> string \<Rightarrow> string list result" where
  "json_strings data key = rbind (json_sequence data key) (rmap (\<lambda>v.
     case v of JString s \<Rightarrow> Inr s
     | _ \<Rightarrow> Inl (ProtocolDecodeError (''every '' @ key @ '' item must be a string''))))"

subsection \<open>Payloads\<close>

definition nullable :: "('a \<Rightarrow> json) \<Rightarrow> 'a option \<Rightarrow> json" where
  "nullable f x = (case x of None \<Rightarrow> JNull | Some y \<Rightarrow> f y)"

definition vector_to_dict :: "vector2 \<Rightarrow> json" where
  "vector_to_dict v = JObject [(''x'', JFloat (vx v)), (''y'', JFloat (vy v))]"

definition scalar_to_dict :: "named_scalar \<Rightarrow> json" where
  "scalar_to_dict s = JObject [(''name'', JString (ns_name s)), (''value'', JFloat (ns_value s))]"

definition binding_to_dict :: "action_binding \<Rightarrow> json" where
  "binding_to_dict b = JObject
     [(''actor_id'', JString (ab_actor_id b)),
      (''target_kind'', JString (target_kind_value (ab_target_kind b))),
      (''target_entity_id'', nullable JString (ab_target_entity_id b)),
      (''position'', nullable vector_to_dict (ab_position b)),
      (''direction'', nullable vector_to_dict (ab_direction b)),
      (''quantity'', nullable JFloat (ab_quantity b)),
      (''item_id'', nullable JString (ab_item_id b)),
      (''objective_id'', nullable JString (ab_objective_id b))]"

definition entity_to_dict :: "entity_observation \<Rightarrow> json" where
  "entity_to_dict e = JObject
     [(''entity_id'', JString (eo_entity_id e)),
      (''kind'', JString (entity_kind_value (eo_kind e))),
      (''relation'', JString (relation_value (eo_relation e))),
      (''position'', vector_to_dict (eo_position e)),
      (''velocity'', vector_to_dict (eo_velocity e)),
      (''scalars'', JArray (map scalar_to_dict (eo_scalars e))),
      (''tags'', JArray (map JString (eo_tags e)))]"

definition affordance_to_dict :: "affordance \<Rightarrow> json" where
  "affordance_to_dict a = JObject
     [(''affordance_id'', JString (af_affordance_id a)),
      (''action_key'', JString (af_action_key a)),
      (''binding'', binding_to_dict (af_binding a)),
      (''features'', JArray (map scalar_to_dict (af_features a))),
      (''tags'', JArray (map JString (af_tags a)))]"

definition event_to_dict :: "event \<Rightarrow> json" where
  "event_to_dict e = JObject
     [(''event_id'', JString (ev_event_id e)),
      (''kind'', JString (ev_kind e)),
      (''tick'', JInt (ev_tick e)),
      (''sim_time_ms'', JInt (ev_sim_time_ms e)),
      (''correlation_id'', nullable JString (ev_correlation_id e)),
      (''source_entity_id'', nullable JString (ev_source_entity_id e)),
      (''target_entity_id'', nullable JString (ev_target_entity_id e)),
      (''action_key'', nullable JString (ev_action_key e)),
      (''scalars'', JArray (map scalar_to_dict (ev_scalars e))),
      (''tags'', JArray (map JString (ev_tags e)))]"

definition PROTOCOL_VERSION :: int where
  "PROTOCOL_VERSION = 1"

fun message_to_dict :: "protocol_message \<Rightarrow> json" where
  "message_to_dict (Observation m) = JObject
     [(''protocol_version'', JInt PROTOCOL_VERSION),
      (''message_type'', JString ''observation''),
      (''message_id'', JString (om_message_id m)),
      (''observation_id'', JString (om_observation_id m)),
      (''agent_id'', JString (om_agent_id m)),
      (''life_id'', JString (om_life_id m)),
      (''tick'', JInt (om_tick m)),
      (''sim_time_ms'', JInt (om_sim_time_ms m)),
      (''entities'', JArray (map entity_to_dict (om_entities m))),
      (''global_scalars'', JArray (map scalar_to_dict (om_global_scalars m))),
      (''active'', JBool (om_active m))]"
| "message_to_dict (AffordanceSet m) = JObject
     [(''protocol_version'', JInt PROTOCOL_VERSION),
      (''message_type'', JString ''affordance_set''),
      (''message_id'', JString (asm_message_id m)),
      (''observation_id'', JString (asm_observation_id m)),
      (''agent_id'', JString (asm_agent_id m)),
      (''tick'', JInt (asm_tick m)),
      (''affordances'', JArray (map affordance_to_dict (asm_affordances m)))]"
| "message_to_dict (Decision m) = JObject
     [(''protocol_version'', JInt PROTOCOL_VERSION),
      (''message_type'', JString ''decision''),
      (''message_id'', JString (dm_message_id m)),
      (''correlation_id'', JString (dm_correlation_id m)),
      (''observation_id'', JString (dm_observation_id m)),
      (''agent_id'', JString (dm_agent_id m)),
      (''tick'', JInt (dm_tick m)),
      (''affordance_id'', JString (dm_affordance_id m)),
      (''action_key'', JString (dm_action_key m)),
      (''binding'', binding_to_dict (dm_binding m))]"
| "message_to_dict (EventBatch m) = JObject
     [(''protocol_version'', JInt PROTOCOL_VERSION),
      (''message_type'', JString ''event_batch''),
      (''message_id'', JString (eb_message_id m)),
      (''tick'', JInt (eb_tick m)),
      (''sim_time_ms'', JInt (eb_sim_time_ms m)),
      (''events'', JArray (map event_to_dict (eb_events m))),
      (''life_terminated'', JArray (map JString (eb_life_terminated m))),
      (''world_terminated'', JBool (eb_world_terminated m)),
      (''truncated'', JBool (eb_truncated m))]"

subsection \<open>Reading payloads back\<close>

definition vector_from_dict :: "(rat \<Rightarrow> rat) \<Rightarrow> json_object \<Rightarrow> vector2 result" where
  "vector_from_dict rnd data =
     rbind (json_number rnd data ''x'') (\<lambda>x.
     rbind (json_number rnd data ''y'') (\<lambda>y. Inr \<lparr>vx = x, vy = y\<rparr>))"

definition scalar_from_dict :: "(rat \<Rightarrow> rat) \<Rightarrow> json_object \<Rightarrow> named_scalar result" where
  "scalar_from_dict rnd data =
     rbind (json_string data ''name'') (\<lambda>n.
     rbind (json_number rnd data ''value'') (\<lambda>v.
     validated named_scalar_ok \<lparr>ns_name = n, ns_value = v\<rparr>))"

definition nullable_vector :: "(rat \<Rightarrow> rat) \<Rightarrow> json_object option \<Rightarrow> vector2 option result" where
  "nullable_vector rnd x =
     (case x of None \<Rightarrow> Inr None | Some d \<Rightarrow> rbind (vector_from_dict rnd d) (\<lambda>v. Inr (Some v)))"

definition binding_from_dict :: "(rat \<Rightarrow> rat) \<Rightarrow> json_object \<Rightarrow> action_binding result" where
  "binding_from_dict rnd data =
     rbind (json_nullable_object data ''position'') (\<lambda>position.
     rbind (json_nullable_object data ''direction'') (\<lambda>direction.
     rbind (json_string data ''actor_id'') (\<lambda>actor.
     rbind (rbind (json_string data ''target_kind'')
              (enum_of target_kind_value target_kinds_all ''TargetKind'')) (\<lambda>kind.
     rbind (json_nullable_string data ''target_entity_id'') (\<lambda>target.
     rbind (nullable_vector rnd position) (\<lambda>pos.
     rbind (nullable_vector rnd direction) (\<lambda>dir.
     rbind (json_nullable_number rnd data ''quantity'') (\<lambda>quantity.
     rbind (json_nullable_string data ''item_id'') (\<lambda>item.
     rbind (json_nullable_string data ''objective_id'') (\<lambda>objective.
     validated action_binding_ok
       \<lparr>ab_actor_id = actor, ab_target_kind = kind, ab_target_entity_id = target,
        ab_position = pos, ab_direction = dir, ab_quantity = quantity,
        ab_item_id = item, ab_objective_id = objective\<rparr>))))))))))"

definition entity_from_dict :: "(rat \<Rightarrow> rat) \<Rightarrow> json_object \<Rightarrow> entity_observation result" where
  "entity_from_dict rnd data =
     rbind (json_string data ''entity_id'') (\<lambda>i.
     rbind (rbind (json_string data ''kind'')
              (enum_of entity_kind_value entity_kinds_all ''EntityKind'')) (\<lambda>kind.
     rbind (rbind (json_string data ''relation'')
              (enum_of relation_value relations_all ''Relation'')) (\<lambda>relation.
     rbind (rbind (json_object_field data ''position'') (vector_from_dict rnd)) (\<lambda>pos.
     rbind (rbind (json_object_field data ''velocity'') (vector_from_dict rnd)) (\<lambda>vel.
     rbind (rbind (json_objects data ''scalars'') (rmap (scalar_from_dict rnd))) (\<lambda>scalars.
     rbind (json_strings data ''tags'') (\<lambda>tags.
     validated entity_observation_ok
       \<lparr>eo_entity_id = i, eo_kind = kind, eo_relation = relation, eo_position = pos,
        eo_velocity = vel, eo_scalars = scalars, eo_tags = tags\<rparr>)))))))"

definition affordance_from_dict :: "(rat \<Rightarrow> rat) \<Rightarrow> json_object \<Rightarrow> affordance result" where
  "affordance_from_dict rnd data =
     rbind (json_string data ''affordance_id'') (\<lambda>i.
     rbind (json_string data ''action_key'') (\<lambda>action.
     rbind (rbind (json_object_field data ''binding'') (binding_from_dict rnd)) (\<lambda>binding.
     rbind (rbind (json_objects data ''features'') (rmap (scalar_from_dict rnd))) (\<lambda>features.
     rbind (json_strings data ''tags'') (\<lambda>tags.
     validated affordance_ok
       \<lparr>af_affordance_id = i, af_action_key = action, af_binding = binding,
        af_features = features, af_tags = tags\<rparr>)))))"

definition event_from_dict :: "(rat \<Rightarrow> rat) \<Rightarrow> json_object \<Rightarrow> event result" where
  "event_from_dict rnd data =
     rbind (json_string data ''event_id'') (\<lambda>i.
     rbind (json_string data ''kind'') (\<lambda>kind.
     rbind (json_integer data ''tick'') (\<lambda>t.
     rbind (json_integer data ''sim_time_ms'') (\<lambda>time.
     rbind (json_nullable_string data ''correlation_id'') (\<lambda>correlation.
     rbind (json_nullable_string data ''source_entity_id'') (\<lambda>source.
     rbind (json_nullable_string data ''target_entity_id'') (\<lambda>target.
     rbind (json_nullable_string data ''action_key'') (\<lambda>action.
     rbind (rbind (json_objects data ''scalars'') (rmap (scalar_from_dict rnd))) (\<lambda>scalars.
     rbind (json_strings data ''tags'') (\<lambda>tags.
     validated event_ok
       \<lparr>ev_event_id = i, ev_kind = kind, ev_tick = t, ev_sim_time_ms = time,
        ev_correlation_id = correlation, ev_source_entity_id = source,
        ev_target_entity_id = target, ev_action_key = action,
        ev_scalars = scalars, ev_tags = tags\<rparr>))))))))))"

definition observation_from_dict :: "(rat \<Rightarrow> rat) \<Rightarrow> json_object \<Rightarrow> observation_message result" where
  "observation_from_dict rnd data =
     rbind (json_string data ''message_id'') (\<lambda>m.
     rbind (json_string data ''observation_id'') (\<lambda>observation.
     rbind (json_string data ''agent_id'') (\<lambda>agent.
     rbind (json_string data ''life_id'') (\<lambda>life.
     rbind (json_integer data ''tick'') (\<lambda>t.
     rbind (json_integer data ''sim_time_ms'') (\<lambda>time.
     rbind (rbind (json_objects data ''entities'') (rmap (entity_from_dict rnd))) (\<lambda>entities.
     rbind (rbind (json_objects data ''global_scalars'') (rmap (scalar_from_dict rnd))) (\<lambda>scalars.
     rbind (json_boolean data ''active'') (\<lambda>active.
     validated observation_message_ok
       \<lparr>om_message_id = m, om_observation_id = observation, om_agent_id = agent,
        om_life_id = life, om_tick = t, om_sim_time_ms = time, om_entities = entities,
        om_global_scalars = scalars, om_active = active\<rparr>)))))))))"

definition affordance_set_from_dict :: "(rat \<Rightarrow> rat) \<Rightarrow> json_object \<Rightarrow> affordance_set_message result" where
  "affordance_set_from_dict rnd data =
     rbind (json_string data ''message_id'') (\<lambda>m.
     rbind (json_string data ''observation_id'') (\<lambda>observation.
     rbind (json_string data ''agent_id'') (\<lambda>agent.
     rbind (json_integer data ''tick'') (\<lambda>t.
     rbind (rbind (json_objects data ''affordances'') (rmap (affordance_from_dict rnd))) (\<lambda>affordances.
     validated affordance_set_message_ok
       \<lparr>asm_message_id = m, asm_observation_id = observation, asm_agent_id = agent,
        asm_tick = t, asm_affordances = affordances\<rparr>)))))"

definition decision_from_dict :: "(rat \<Rightarrow> rat) \<Rightarrow> json_object \<Rightarrow> decision_message result" where
  "decision_from_dict rnd data =
     rbind (json_string data ''message_id'') (\<lambda>m.
     rbind (json_string data ''correlation_id'') (\<lambda>correlation.
     rbind (json_string data ''observation_id'') (\<lambda>observation.
     rbind (json_string data ''agent_id'') (\<lambda>agent.
     rbind (json_integer data ''tick'') (\<lambda>t.
     rbind (json_string data ''affordance_id'') (\<lambda>affordance.
     rbind (json_string data ''action_key'') (\<lambda>action.
     rbind (rbind (json_object_field data ''binding'') (binding_from_dict rnd)) (\<lambda>binding.
     validated decision_message_ok
       \<lparr>dm_message_id = m, dm_correlation_id = correlation, dm_observation_id = observation,
        dm_agent_id = agent, dm_tick = t, dm_affordance_id = affordance,
        dm_action_key = action, dm_binding = binding\<rparr>))))))))"

definition event_batch_from_dict :: "(rat \<Rightarrow> rat) \<Rightarrow> json_object \<Rightarrow> event_batch_message result" where
  "event_batch_from_dict rnd data =
     rbind (json_string data ''message_id'') (\<lambda>m.
     rbind (json_integer data ''tick'') (\<lambda>t.
     rbind (json_integer data ''sim_time_ms'') (\<lambda>time.
     rbind (rbind (json_objects data ''events'') (rmap (event_from_dict rnd))) (\<lambda>events.
     rbind (json_strings data ''life_terminated'') (\<lambda>life.
     rbind (json_boolean data ''world_terminated'') (\<lambda>world.
     rbind (json_boolean data ''truncated'') (\<lambda>truncated.
     validated event_batch_message_ok
       \<lparr>eb_message_id = m, eb_tick = t, eb_sim_time_ms = time, eb_events = events,
        eb_life_terminated = life, eb_world_terminated = world, eb_truncated = truncated\<rparr>)))))))"

definition decode_fields :: "(rat \<Rightarrow> rat) \<Rightarrow> json_object \<Rightarrow> protocol_message result" where
  "decode_fields rnd data =
     rbind (json_integer data ''protocol_version'') (\<lambda>version.
     if version \<noteq> PROTOCOL_VERSION then Inl (ProtocolDecodeError ''unsupported protocol version'')
     else rbind (json_string data ''message_type'') (\<lambda>message_type.
     if message_type = ''observation''
     then rbind (observation_from_dict rnd data) (\<lambda>m. Inr (Observation m))
     else if message_type = ''affordance_set''
     then rbind (affordance_set_from_dict rnd data) (\<lambda>m. Inr (AffordanceSet m))
     else if message_type = ''decision''
     then rbind (decision_from_dict rnd data) (\<lambda>m. Inr (Decision m))
     else if message_type = ''event_batch''
     then rbind (event_batch_from_dict rnd data) (\<lambda>m. Inr (EventBatch m))
     else Inl (ProtocolDecodeError (''unsupported message_type: '' @ message_type))))"

fun error_text :: "py_error \<Rightarrow> string" where
  "error_text (ValueError s) = s"
| "error_text (KeyError s) = s"
| "error_text (IndexError s) = s"
| "error_text (AssertionError s) = s"
| "error_text (SimulationConfigurationError s) = s"
| "error_text (AffiliationConfigurationError s) = s"
| "error_text (AffiliationConflictError s) = s"
| "error_text (LegalBuildCompileError s) = s"
| "error_text (CalculatorImportError s) = s"
| "error_text (ProtocolDecodeError s) = s"
| "error_text (ProtocolMismatchError s) = s"
| "error_text (AffiliationSnapshotFormatError s) = s"
| "error_text (OverflowError s) = s"
| "error_text (StructError s) = s"
| "error_text (CondemnResponseError s) = s"
| "error_text (TypeError s) = s"
| "error_text (OSError s) = s"
| "error_text (RuntimeError s) = s"
| "error_text (KeyboardInterrupt s) = s"
| "error_text (GuardSpendingStopped s) = s"
| "error_text (ZeroDivisionError s) = s"
| "error_text (RecursionError s) = s"
| "error_text (AStarRouteNotFound s) = s"
| "error_text (MapElitesError s) = s"

fun as_decode_error :: "py_error \<Rightarrow> py_error" where
  "as_decode_error (ProtocolDecodeError s) = ProtocolDecodeError s"
| "as_decode_error (OverflowError s) = OverflowError s"
| "as_decode_error (IndexError s) = IndexError s"
| "as_decode_error (AssertionError s) = AssertionError s"
| "as_decode_error (StructError s) = StructError s"
| "as_decode_error (CondemnResponseError s) = CondemnResponseError s"
| "as_decode_error (OSError s) = OSError s"
| "as_decode_error (RuntimeError s) = RuntimeError s"
| "as_decode_error (KeyboardInterrupt s) = KeyboardInterrupt s"
| "as_decode_error (GuardSpendingStopped s) = GuardSpendingStopped s"
| "as_decode_error (ZeroDivisionError s) = ZeroDivisionError s"
| "as_decode_error (RecursionError s) = RecursionError s"
| "as_decode_error (AStarRouteNotFound s) = AStarRouteNotFound s"
| "as_decode_error (KeyError k) = ProtocolDecodeError (''missing required field: '' @ k)"
| "as_decode_error e = ProtocolDecodeError (error_text e)"

definition decode_data :: "(rat \<Rightarrow> rat) \<Rightarrow> json \<Rightarrow> protocol_message result" where
  "decode_data rnd raw =
     (case raw of
        JObject data \<Rightarrow> (case decode_fields rnd data of Inl e \<Rightarrow> Inl (as_decode_error e) | Inr m \<Rightarrow> Inr m)
      | _ \<Rightarrow> Inl (ProtocolDecodeError ''message must be a JSON object''))"

subsection \<open>Messages valid all the way down\<close>

text \<open>Every constructor of the code validates, so a message holds validated parts only.\<close>

definition scalars_wf :: "named_scalar list \<Rightarrow> bool" where
  "scalars_wf ss \<longleftrightarrow> list_all (\<lambda>s. named_scalar_ok s = Inr ()) ss"

definition entity_wf :: "entity_observation \<Rightarrow> bool" where
  "entity_wf e \<longleftrightarrow> entity_observation_ok e = Inr () \<and> scalars_wf (eo_scalars e)"

definition affordance_wf :: "affordance \<Rightarrow> bool" where
  "affordance_wf a \<longleftrightarrow> affordance_ok a = Inr () \<and> action_binding_ok (af_binding a) = Inr ()
     \<and> scalars_wf (af_features a)"

definition event_wf :: "event \<Rightarrow> bool" where
  "event_wf e \<longleftrightarrow> event_ok e = Inr () \<and> scalars_wf (ev_scalars e)"

fun message_wf :: "protocol_message \<Rightarrow> bool" where
  "message_wf (Observation m) \<longleftrightarrow> observation_message_ok m = Inr ()
     \<and> list_all entity_wf (om_entities m) \<and> scalars_wf (om_global_scalars m)"
| "message_wf (AffordanceSet m) \<longleftrightarrow> affordance_set_message_ok m = Inr ()
     \<and> list_all affordance_wf (asm_affordances m)"
| "message_wf (Decision m) \<longleftrightarrow> decision_message_ok m = Inr () \<and> action_binding_ok (dm_binding m) = Inr ()"
| "message_wf (EventBatch m) \<longleftrightarrow> event_batch_message_ok m = Inr () \<and> list_all event_wf (eb_events m)"

subsection \<open>Objects with sorted keys\<close>

abbreviation sorted_fields :: "json_object \<Rightarrow> json_object" where
  "sorted_fields kvs \<equiv> sort_key fst (map (map_prod id json_sort_keys) kvs)"

lemma map_of_sorted_fields:
  assumes "distinct (map fst kvs)"
  shows "map_of (sorted_fields kvs) k = map_option json_sort_keys (map_of kvs k)"
proof -
  have "map fst (map (map_prod id json_sort_keys) kvs) = map fst kvs" by simp
  then have "map_of (sorted_fields kvs) = map_of (map (map_prod id json_sort_keys) kvs)"
    using assms by (intro map_of_sort_key) simp
  moreover have "map_of (map (map_prod id json_sort_keys) kvs) k = map_option json_sort_keys (map_of kvs k)"
    by (induction kvs) auto
  ultimately show ?thesis by simp
qed

fun json_has :: "json_object \<Rightarrow> json_object \<Rightarrow> bool" where
  "json_has data [] \<longleftrightarrow> True"
| "json_has data ((k, v) # kvs) \<longleftrightarrow> json_get data k = Inr (json_sort_keys v) \<and> json_has data kvs"

lemma json_has_iff: "json_has data kvs \<longleftrightarrow> (\<forall>(k, v) \<in> set kvs. json_get data k = Inr (json_sort_keys v))"
  by (induction data kvs rule: json_has.induct) auto

lemma json_has_sorted: "distinct (map fst kvs) \<Longrightarrow> json_has (sorted_fields kvs) kvs"
  by (auto simp: json_has_iff json_get_def map_of_sorted_fields map_of_is_SomeI split: option.split)

subsection \<open>Codecs of nested objects\<close>

text \<open>The contract every pair of \<open>..._to_dict\<close> and \<open>..._from_dict\<close> keeps: the payload is an
  object without repeated keys, and reading any object that has those fields, in whatever
  order, gives the value back. The locale derives what the readers of a field, of an array
  field and of a nullable field do.\<close>

locale json_codec =
  fixes to_json :: "'a \<Rightarrow> json"
    and from_json :: "json_object \<Rightarrow> 'a result"
    and wf :: "'a \<Rightarrow> bool"
  assumes payload: "\<exists>kvs. to_json x = JObject kvs \<and> distinct (map fst kvs)"
    and reads: "wf x \<Longrightarrow> to_json x = JObject kvs \<Longrightarrow> json_has data kvs \<Longrightarrow> from_json data = Inr x"
begin

lemma codec: "wf x \<Longrightarrow> \<exists>fields. json_sort_keys (to_json x) = JObject fields \<and> from_json fields = Inr x"
  using payload [of x] reads [OF _ _ json_has_sorted] by fastforce

lemma field_roundtrip:
  assumes "json_get data key = Inr (json_sort_keys (to_json x))" "wf x"
  shows "rbind (json_object_field data key) from_json = Inr x"
  using codec [OF assms(2)] assms(1) by (auto simp: json_object_field_def)

lemma objects_roundtrip:
  assumes get: "json_get data key = Inr (JArray (map (json_sort_keys \<circ> to_json) xs))"
    and wf: "list_all wf xs"
  shows "rbind (json_objects data key) (rmap from_json) = Inr xs"
proof -
  have "\<forall>x \<in> set xs. \<exists>fields. json_sort_keys (to_json x) = JObject fields \<and> from_json fields = Inr x"
    using wf codec by (auto simp: list_all_iff)
  then obtain fields where f: "\<And>x. x \<in> set xs \<Longrightarrow>
      json_sort_keys (to_json x) = JObject (fields x) \<and> from_json (fields x) = Inr x"
    by metis
  have "json_objects data key = Inr (map fields xs)"
    unfolding json_objects_def json_sequence_def get using f by (simp add: rmap_map_Inr)
  moreover have "rmap from_json (map fields xs) = Inr (map id xs)"
    using f by (intro rmap_map_Inr) simp
  ultimately show ?thesis by simp
qed

lemma nullable_codec:
  assumes get: "json_get data key = Inr (json_sort_keys (nullable to_json ox))" and wf: "pred_option wf ox"
  shows "\<exists>od. json_nullable_object data key = Inr od
    \<and> (case od of None \<Rightarrow> Inr None | Some d \<Rightarrow> rbind (from_json d) (\<lambda>v. Inr (Some v))) = Inr ox"
proof (cases ox)
  case None
  then show ?thesis using get by (simp add: nullable_def json_nullable_object_def)
next
  case (Some x)
  then obtain fields where "json_sort_keys (to_json x) = JObject fields" "from_json fields = Inr x"
    using codec wf by auto
  then show ?thesis using get Some by (simp add: nullable_def json_nullable_object_def)
qed

end

lemma rmap_JString:
  "rmap (\<lambda>v. case v of JString s \<Rightarrow> Inr s | _ \<Rightarrow> Inl e) (map JString xs) = Inr xs"
  by (induction xs) simp_all

lemma json_strings_roundtrip:
  "json_get data key = Inr (JArray (map JString xs)) \<Longrightarrow> json_strings data key = Inr xs"
  by (simp add: json_strings_def json_sequence_def rmap_JString del: append.simps)

lemma json_nullable_string_roundtrip:
  "json_get data key = Inr (nullable JString x) \<Longrightarrow> json_nullable_string data key = Inr x"
  by (cases x) (simp_all add: json_nullable_string_def nullable_def)

lemma json_nullable_number_roundtrip:
  "json_get data key = Inr (nullable JFloat x) \<Longrightarrow> json_nullable_number rnd data key = Inr x"
  by (cases x) (simp_all add: json_nullable_number_def nullable_def)

lemma sort_nullable_atom [simp]:
  "json_sort_keys (nullable JString x) = nullable JString x"
  "json_sort_keys (nullable JFloat q) = nullable JFloat q"
  by (cases x; simp add: nullable_def) (cases q; simp add: nullable_def)

lemma map_sort_JString [simp]: "map (json_sort_keys \<circ> JString) xs = map JString xs"
  by simp

lemmas reader_defs = json_string_def json_integer_def json_number_def json_boolean_def

lemmas roundtrip_rules = json_strings_roundtrip json_nullable_string_roundtrip json_nullable_number_roundtrip

interpretation vector_codec: json_codec vector_to_dict "vector_from_dict rnd" "\<lambda>_. True" for rnd
  by unfold_locales (auto simp: vector_to_dict_def vector_from_dict_def reader_defs)

interpretation scalar_codec: json_codec scalar_to_dict "scalar_from_dict rnd" "\<lambda>s. named_scalar_ok s = Inr ()" for rnd
proof unfold_locales
  show "scalar_from_dict rnd data = Inr s"
    if "named_scalar_ok s = Inr ()" "scalar_to_dict s = JObject kvs" "json_has data kvs" for s kvs data
    using that by (cases s) (auto simp: scalar_to_dict_def scalar_from_dict_def reader_defs validated_def)
qed (simp add: scalar_to_dict_def)

lemma nullable_vector_field:
  "json_get data key = Inr (json_sort_keys (nullable vector_to_dict ox)) \<Longrightarrow>
     \<exists>od. json_nullable_object data key = Inr od \<and> nullable_vector rnd od = Inr ox"
  using vector_codec.nullable_codec [of data key ox rnd]
  by (simp add: nullable_vector_def option.pred_True)

lemma binding_reads:
  assumes ok: "action_binding_ok b = Inr ()" and d: "binding_to_dict b = JObject kvs"
    and has: "json_has data kvs"
  shows "binding_from_dict rnd data = Inr b"
proof -
  have get: "json_has data (case binding_to_dict b of JObject k \<Rightarrow> k | _ \<Rightarrow> [])" using has d by simp
  obtain p where p: "json_nullable_object data ''position'' = Inr p" "nullable_vector rnd p = Inr (ab_position b)"
    using nullable_vector_field [of data "''position''"] get by (auto simp: binding_to_dict_def)
  obtain q where q: "json_nullable_object data ''direction'' = Inr q" "nullable_vector rnd q = Inr (ab_direction b)"
    using nullable_vector_field [of data "''direction''"] get by (auto simp: binding_to_dict_def)
  have t: "json_nullable_string data ''target_entity_id'' = Inr (ab_target_entity_id b)"
    "json_nullable_string data ''item_id'' = Inr (ab_item_id b)"
    "json_nullable_string data ''objective_id'' = Inr (ab_objective_id b)"
    "json_nullable_number rnd data ''quantity'' = Inr (ab_quantity b)"
    using get by (simp_all add: roundtrip_rules binding_to_dict_def)
  have u: "json_string data ''actor_id'' = Inr (ab_actor_id b)"
    "json_string data ''target_kind'' = Inr (target_kind_value (ab_target_kind b))"
    using get by (simp_all add: json_string_def binding_to_dict_def)
  show ?thesis
    using ok by (cases b) (simp add: binding_from_dict_def p q t u validated_def)
qed

interpretation binding_codec: json_codec binding_to_dict "binding_from_dict rnd" "\<lambda>b. action_binding_ok b = Inr ()" for rnd
proof unfold_locales
  show "\<exists>kvs. binding_to_dict b = JObject kvs \<and> distinct (map fst kvs)" for b
    by (simp add: binding_to_dict_def)
qed (rule binding_reads)

lemma entity_reads:
  assumes wf: "entity_wf e" and d: "entity_to_dict e = JObject kvs" and has: "json_has data kvs"
  shows "entity_from_dict rnd data = Inr e"
proof -
  have get: "json_has data (case entity_to_dict e of JObject k \<Rightarrow> k | _ \<Rightarrow> [])" using has d by simp
  have v: "rbind (json_object_field data ''position'') (vector_from_dict rnd) = Inr (eo_position e)"
    "rbind (json_object_field data ''velocity'') (vector_from_dict rnd) = Inr (eo_velocity e)"
    using get by (auto intro!: vector_codec.field_roundtrip simp: entity_to_dict_def)
  have s: "rbind (json_objects data ''scalars'') (rmap (scalar_from_dict rnd)) = Inr (eo_scalars e)"
    using get wf by (intro scalar_codec.objects_roundtrip) (simp_all add: entity_to_dict_def entity_wf_def scalars_wf_def)
  have u: "json_string data ''entity_id'' = Inr (eo_entity_id e)"
    "json_string data ''kind'' = Inr (entity_kind_value (eo_kind e))"
    "json_string data ''relation'' = Inr (relation_value (eo_relation e))"
    "json_strings data ''tags'' = Inr (eo_tags e)"
    using get by (simp_all add: json_string_def roundtrip_rules entity_to_dict_def)
  show ?thesis
    using wf by (cases e) (simp add: entity_from_dict_def v s u validated_def entity_wf_def)
qed

interpretation entity_codec: json_codec entity_to_dict "entity_from_dict rnd" entity_wf for rnd
proof unfold_locales
  show "\<exists>kvs. entity_to_dict e = JObject kvs \<and> distinct (map fst kvs)" for e
    by (simp add: entity_to_dict_def)
qed (rule entity_reads)

lemma affordance_reads:
  assumes wf: "affordance_wf a" and d: "affordance_to_dict a = JObject kvs" and has: "json_has data kvs"
  shows "affordance_from_dict rnd data = Inr a"
proof -
  have get: "json_has data (case affordance_to_dict a of JObject k \<Rightarrow> k | _ \<Rightarrow> [])" using has d by simp
  have b: "rbind (json_object_field data ''binding'') (binding_from_dict rnd) = Inr (af_binding a)"
    using get wf by (intro binding_codec.field_roundtrip) (simp_all add: affordance_to_dict_def affordance_wf_def)
  have s: "rbind (json_objects data ''features'') (rmap (scalar_from_dict rnd)) = Inr (af_features a)"
    using get wf by (intro scalar_codec.objects_roundtrip) (simp_all add: affordance_to_dict_def affordance_wf_def scalars_wf_def)
  have u: "json_string data ''affordance_id'' = Inr (af_affordance_id a)"
    "json_string data ''action_key'' = Inr (af_action_key a)"
    "json_strings data ''tags'' = Inr (af_tags a)"
    using get by (simp_all add: json_string_def roundtrip_rules affordance_to_dict_def)
  show ?thesis
    using wf by (cases a) (simp add: affordance_from_dict_def b s u validated_def affordance_wf_def)
qed

interpretation affordance_codec: json_codec affordance_to_dict "affordance_from_dict rnd" affordance_wf for rnd
proof unfold_locales
  show "\<exists>kvs. affordance_to_dict a = JObject kvs \<and> distinct (map fst kvs)" for a
    by (simp add: affordance_to_dict_def)
qed (rule affordance_reads)

lemma event_reads:
  assumes wf: "event_wf e" and d: "event_to_dict e = JObject kvs" and has: "json_has data kvs"
  shows "event_from_dict rnd data = Inr e"
proof -
  have get: "json_has data (case event_to_dict e of JObject k \<Rightarrow> k | _ \<Rightarrow> [])" using has d by simp
  have s: "rbind (json_objects data ''scalars'') (rmap (scalar_from_dict rnd)) = Inr (ev_scalars e)"
    using get wf by (intro scalar_codec.objects_roundtrip) (simp_all add: event_to_dict_def event_wf_def scalars_wf_def)
  have t: "json_nullable_string data ''correlation_id'' = Inr (ev_correlation_id e)"
    "json_nullable_string data ''source_entity_id'' = Inr (ev_source_entity_id e)"
    "json_nullable_string data ''target_entity_id'' = Inr (ev_target_entity_id e)"
    "json_nullable_string data ''action_key'' = Inr (ev_action_key e)"
    using get by (simp_all add: roundtrip_rules event_to_dict_def)
  have u: "json_string data ''event_id'' = Inr (ev_event_id e)" "json_string data ''kind'' = Inr (ev_kind e)"
    "json_integer data ''tick'' = Inr (ev_tick e)" "json_integer data ''sim_time_ms'' = Inr (ev_sim_time_ms e)"
    "json_strings data ''tags'' = Inr (ev_tags e)"
    using get by (simp_all add: reader_defs roundtrip_rules event_to_dict_def)
  show ?thesis
    using wf by (cases e) (simp add: event_from_dict_def s t u validated_def event_wf_def)
qed

interpretation event_codec: json_codec event_to_dict "event_from_dict rnd" event_wf for rnd
proof unfold_locales
  show "\<exists>kvs. event_to_dict e = JObject kvs \<and> distinct (map fst kvs)" for e
    by (simp add: event_to_dict_def)
qed (rule event_reads)

subsection \<open>Whole messages\<close>

lemma observation_reads:
  assumes wf: "message_wf (Observation m)" and d: "message_to_dict (Observation m) = JObject kvs"
    and has: "json_has data kvs"
  shows "observation_from_dict rnd data = Inr m"
proof -
  have get: "json_has data (case message_to_dict (Observation m) of JObject k \<Rightarrow> k | _ \<Rightarrow> [])"
    using has d by simp
  have e: "rbind (json_objects data ''entities'') (rmap (entity_from_dict rnd)) = Inr (om_entities m)"
    using get wf by (intro entity_codec.objects_roundtrip) simp_all
  have s: "rbind (json_objects data ''global_scalars'') (rmap (scalar_from_dict rnd)) = Inr (om_global_scalars m)"
    using get wf by (intro scalar_codec.objects_roundtrip) (simp_all add: scalars_wf_def)
  have u: "json_string data ''message_id'' = Inr (om_message_id m)"
    "json_string data ''observation_id'' = Inr (om_observation_id m)"
    "json_string data ''agent_id'' = Inr (om_agent_id m)" "json_string data ''life_id'' = Inr (om_life_id m)"
    "json_integer data ''tick'' = Inr (om_tick m)" "json_integer data ''sim_time_ms'' = Inr (om_sim_time_ms m)"
    "json_boolean data ''active'' = Inr (om_active m)"
    using get by (simp_all add: reader_defs)
  show ?thesis using wf by (cases m) (simp add: observation_from_dict_def e s u validated_def)
qed

lemma affordance_set_reads:
  assumes wf: "message_wf (AffordanceSet m)" and d: "message_to_dict (AffordanceSet m) = JObject kvs"
    and has: "json_has data kvs"
  shows "affordance_set_from_dict rnd data = Inr m"
proof -
  have get: "json_has data (case message_to_dict (AffordanceSet m) of JObject k \<Rightarrow> k | _ \<Rightarrow> [])"
    using has d by simp
  have e: "rbind (json_objects data ''affordances'') (rmap (affordance_from_dict rnd)) = Inr (asm_affordances m)"
    using get wf by (intro affordance_codec.objects_roundtrip) simp_all
  have u: "json_string data ''message_id'' = Inr (asm_message_id m)"
    "json_string data ''observation_id'' = Inr (asm_observation_id m)"
    "json_string data ''agent_id'' = Inr (asm_agent_id m)" "json_integer data ''tick'' = Inr (asm_tick m)"
    using get by (simp_all add: reader_defs)
  show ?thesis using wf by (cases m) (simp add: affordance_set_from_dict_def e u validated_def)
qed

lemma decision_reads:
  assumes wf: "message_wf (Decision m)" and d: "message_to_dict (Decision m) = JObject kvs"
    and has: "json_has data kvs"
  shows "decision_from_dict rnd data = Inr m"
proof -
  have get: "json_has data (case message_to_dict (Decision m) of JObject k \<Rightarrow> k | _ \<Rightarrow> [])"
    using has d by simp
  have b: "rbind (json_object_field data ''binding'') (binding_from_dict rnd) = Inr (dm_binding m)"
    using get wf by (intro binding_codec.field_roundtrip) simp_all
  have u: "json_string data ''message_id'' = Inr (dm_message_id m)"
    "json_string data ''correlation_id'' = Inr (dm_correlation_id m)"
    "json_string data ''observation_id'' = Inr (dm_observation_id m)"
    "json_string data ''agent_id'' = Inr (dm_agent_id m)" "json_integer data ''tick'' = Inr (dm_tick m)"
    "json_string data ''affordance_id'' = Inr (dm_affordance_id m)"
    "json_string data ''action_key'' = Inr (dm_action_key m)"
    using get by (simp_all add: reader_defs)
  show ?thesis using wf by (cases m) (simp add: decision_from_dict_def b u validated_def)
qed

lemma event_batch_reads:
  assumes wf: "message_wf (EventBatch m)" and d: "message_to_dict (EventBatch m) = JObject kvs"
    and has: "json_has data kvs"
  shows "event_batch_from_dict rnd data = Inr m"
proof -
  have get: "json_has data (case message_to_dict (EventBatch m) of JObject k \<Rightarrow> k | _ \<Rightarrow> [])"
    using has d by simp
  have e: "rbind (json_objects data ''events'') (rmap (event_from_dict rnd)) = Inr (eb_events m)"
    using get wf by (intro event_codec.objects_roundtrip) simp_all
  have u: "json_string data ''message_id'' = Inr (eb_message_id m)"
    "json_integer data ''tick'' = Inr (eb_tick m)" "json_integer data ''sim_time_ms'' = Inr (eb_sim_time_ms m)"
    "json_strings data ''life_terminated'' = Inr (eb_life_terminated m)"
    "json_boolean data ''world_terminated'' = Inr (eb_world_terminated m)"
    "json_boolean data ''truncated'' = Inr (eb_truncated m)"
    using get by (simp_all add: reader_defs roundtrip_rules)
  show ?thesis using wf by (cases m) (simp add: event_batch_from_dict_def e u validated_def)
qed

lemma message_reads:
  assumes wf: "message_wf m" and d: "message_to_dict m = JObject kvs" and has: "json_has data kvs"
  shows "decode_fields rnd data = Inr m"
proof (cases m)
  case (Observation o')
  then have "observation_from_dict rnd data = Inr o'" using observation_reads wf d has by blast
  then show ?thesis using Observation d has by (auto simp: decode_fields_def reader_defs)
next
  case (AffordanceSet a)
  then have "affordance_set_from_dict rnd data = Inr a" using affordance_set_reads wf d has by blast
  then show ?thesis using AffordanceSet d has by (auto simp: decode_fields_def reader_defs)
next
  case (Decision c)
  then have "decision_from_dict rnd data = Inr c" using decision_reads wf d has by blast
  then show ?thesis using Decision d has by (auto simp: decode_fields_def reader_defs)
next
  case (EventBatch b)
  then have "event_batch_from_dict rnd data = Inr b" using event_batch_reads wf d has by blast
  then show ?thesis using EventBatch d has by (auto simp: decode_fields_def reader_defs)
qed

interpretation message_codec: json_codec message_to_dict "decode_fields rnd" message_wf for rnd
proof unfold_locales
  show "\<exists>kvs. message_to_dict m = JObject kvs \<and> distinct (map fst kvs)" for m
    by (cases m) simp_all
qed (rule message_reads)

subsection \<open>What decoding accepts is well formed\<close>

lemma rmap_wf:
  "rmap f xs = Inr ys \<Longrightarrow> (\<And>x y. f x = Inr y \<Longrightarrow> P y) \<Longrightarrow> list_all P ys"
  by (induction xs arbitrary: ys) (auto simp: result_simps)

lemma scalar_from_dict_ok: "scalar_from_dict rnd d = Inr s \<Longrightarrow> named_scalar_ok s = Inr ()"
  by (auto simp: scalar_from_dict_def result_simps)

lemma scalars_from_dict_wf: "rmap (scalar_from_dict rnd) xs = Inr ss \<Longrightarrow> scalars_wf ss"
  unfolding scalars_wf_def by (erule rmap_wf) (rule scalar_from_dict_ok)

lemma binding_from_dict_ok: "binding_from_dict rnd d = Inr b \<Longrightarrow> action_binding_ok b = Inr ()"
  by (auto simp: binding_from_dict_def result_simps)

lemma entity_from_dict_wf: "entity_from_dict rnd d = Inr e \<Longrightarrow> entity_wf e"
  by (auto simp: entity_from_dict_def entity_wf_def result_simps dest: scalars_from_dict_wf)

lemma affordance_from_dict_wf: "affordance_from_dict rnd d = Inr a \<Longrightarrow> affordance_wf a"
  by (auto simp: affordance_from_dict_def affordance_wf_def result_simps
      dest: scalars_from_dict_wf binding_from_dict_ok)

lemma event_from_dict_wf: "event_from_dict rnd d = Inr e \<Longrightarrow> event_wf e"
  by (auto simp: event_from_dict_def event_wf_def result_simps dest: scalars_from_dict_wf)

lemma observation_from_dict_wf: "observation_from_dict rnd d = Inr m \<Longrightarrow> message_wf (Observation m)"
  by (auto simp: observation_from_dict_def result_simps dest: scalars_from_dict_wf
      intro: rmap_wf [OF _ entity_from_dict_wf])

lemma affordance_set_from_dict_wf: "affordance_set_from_dict rnd d = Inr m \<Longrightarrow> message_wf (AffordanceSet m)"
  by (auto simp: affordance_set_from_dict_def result_simps intro: rmap_wf [OF _ affordance_from_dict_wf])

lemma decision_from_dict_wf: "decision_from_dict rnd d = Inr m \<Longrightarrow> message_wf (Decision m)"
  by (auto simp: decision_from_dict_def result_simps dest: binding_from_dict_ok)

lemma event_batch_from_dict_wf: "event_batch_from_dict rnd d = Inr m \<Longrightarrow> message_wf (EventBatch m)"
  by (auto simp: event_batch_from_dict_def result_simps intro: rmap_wf [OF _ event_from_dict_wf])

lemma decode_fields_wf: "decode_fields rnd d = Inr m \<Longrightarrow> message_wf m"
  by (auto simp: decode_fields_def rbind_eq_Inr split: if_splits
      dest: observation_from_dict_wf affordance_set_from_dict_wf decision_from_dict_wf event_batch_from_dict_wf
      simp del: message_wf.simps)

definition decode_error :: "py_error \<Rightarrow> bool" where
  "decode_error e \<longleftrightarrow> (\<exists>s. as_decode_error e = ProtocolDecodeError s) \<or> (\<exists>s. as_decode_error e = OverflowError s)"

lemma decode_error_simps [simp]:
  "decode_error (ValueError m)" "decode_error (KeyError m)" "decode_error (ProtocolDecodeError m)"
  "decode_error (OverflowError m)"
  by (simp_all add: decode_error_def)

lemma raises_enum_of [raises_intros]: "only_raises decode_error (enum_of val members cls s)"
  by (simp add: enum_of_def only_raises_def split: option.split)

lemma raises_float_of_int [raises_intros]: "only_raises decode_error (float_of_int rnd n)"
  by (simp add: float_of_int_def only_raises_def)

lemma raises_json_get_field [raises_intros]: "only_raises decode_error (json_get data key)"
  by (simp add: json_get_def only_raises_def split: option.split)

lemma raises_json_readers [raises_intros]:
  "only_raises decode_error (json_string data key)" "only_raises decode_error (json_nullable_string data key)"
  "only_raises decode_error (json_integer data key)" "only_raises decode_error (json_number rnd data key)"
  "only_raises decode_error (json_nullable_number rnd data key)" "only_raises decode_error (json_boolean data key)"
  "only_raises decode_error (json_object_field data key)" "only_raises decode_error (json_nullable_object data key)"
  "only_raises decode_error (json_sequence data key)"
  unfolding json_string_def json_nullable_string_def json_integer_def json_number_def json_nullable_number_def
    json_boolean_def json_object_field_def json_nullable_object_def json_sequence_def
  by (auto intro!: raises_intros split: json.split)

lemma raises_json_lists [raises_intros]:
  "only_raises decode_error (json_objects data key)" "only_raises decode_error (json_strings data key)"
  unfolding json_objects_def json_strings_def by (auto intro!: raises_intros split: json.split)

lemma raises_require [raises_intros]:
  "only_raises decode_error (require_unique xs n)" "only_raises decode_error (require_non_negative v n)"
  unfolding require_unique_def require_non_negative_def by (auto intro!: raises_intros)

lemma raises_message_validators [raises_intros]:
  "only_raises decode_error (named_scalar_ok s)" "only_raises decode_error (action_binding_ok b)"
  "only_raises decode_error (entity_observation_ok eo)" "only_raises decode_error (observation_message_ok om)"
  "only_raises decode_error (affordance_ok a)" "only_raises decode_error (affordance_set_message_ok asm)"
  "only_raises decode_error (decision_message_ok dm)" "only_raises decode_error (event_ok ev)"
  "only_raises decode_error (event_batch_message_ok eb)"
  unfolding named_scalar_ok_def action_binding_ok_def entity_observation_ok_def observation_message_ok_def
    affordance_ok_def affordance_set_message_ok_def decision_message_ok_def event_ok_def event_batch_message_ok_def
  by (auto intro!: raises_intros split: target_kind.split)

lemma raises_part_readers [raises_intros]:
  "only_raises decode_error (vector_from_dict rnd d)" "only_raises decode_error (scalar_from_dict rnd d)"
  "only_raises decode_error (nullable_vector rnd od)"
  unfolding vector_from_dict_def scalar_from_dict_def nullable_vector_def
  by (auto intro!: raises_intros split: option.split)

lemma raises_binding_from_dict [raises_intros]: "only_raises decode_error (binding_from_dict rnd d)"
  unfolding binding_from_dict_def by (auto intro!: raises_intros split: option.split)

lemma raises_element_readers [raises_intros]:
  "only_raises decode_error (entity_from_dict rnd d)" "only_raises decode_error (affordance_from_dict rnd d)"
  "only_raises decode_error (event_from_dict rnd d)"
  unfolding entity_from_dict_def affordance_from_dict_def event_from_dict_def
  by (auto intro!: raises_intros)

lemma raises_decode_fields [raises_intros]: "only_raises decode_error (decode_fields rnd d)"
  unfolding decode_fields_def observation_from_dict_def affordance_set_from_dict_def decision_from_dict_def
    event_batch_from_dict_def
  by (auto intro!: raises_intros)

lemma as_decode_error_cases:
  "decode_fields rnd d = Inl e \<Longrightarrow>
   (\<exists>s. as_decode_error e = ProtocolDecodeError s) \<or> (\<exists>s. as_decode_error e = OverflowError s)"
  using raises_decode_fields [of rnd d] by (simp add: only_raises_def decode_error_def)

subsection \<open>Properties\<close>

definition example_decision :: protocol_message where
  "example_decision = Decision
     \<lparr>dm_message_id = ''m'', dm_correlation_id = ''c'', dm_observation_id = ''o'', dm_agent_id = ''a'',
      dm_tick = 3, dm_affordance_id = ''f'', dm_action_key = ''k'',
      dm_binding = \<lparr>ab_actor_id = ''a'', ab_target_kind = TK_POSITION, ab_target_entity_id = None,
        ab_position = Some \<lparr>vx = 1, vy = 2\<rparr>, ab_direction = None, ab_quantity = None,
        ab_item_id = None, ab_objective_id = None\<rparr>\<rparr>"

text \<open>C22: The codec round trips: decoding the sorted-key JSON object of any well-formed protocol message
  (observation, affordance set, decision or event batch) returns exactly that message.\<close>

theorem codec_roundtrip:
  assumes "message_wf m"
  shows "decode_data rnd (json_sort_keys (message_to_dict m)) = Inr m"
  using message_codec.codec [OF assms, of rnd] by (auto simp: decode_data_def)

theorem codec_roundtrip_witness:
  "message_wf example_decision
   \<and> decode_data id (json_sort_keys (message_to_dict example_decision)) = Inr example_decision"
proof -
  have "message_wf example_decision" by code_simp
  with codec_roundtrip [OF this, of id] show ?thesis by simp
qed

text \<open>C35: Decoding never lets an invalid message through: whatever JSON value is decoded, the result is a
  message that is well formed all the way down, or a \<open>ProtocolDecodeError\<close>, or the \<open>OverflowError\<close> of an
  integer too large for a float.\<close>

theorem decode_data_sound:
  "case decode_data rnd raw of
     Inr m \<Rightarrow> message_wf m
   | Inl e \<Rightarrow> (\<exists>s. e = ProtocolDecodeError s) \<or> (\<exists>s. e = OverflowError s)"
  using as_decode_error_cases decode_fields_wf
  by (auto simp: decode_data_def split: json.split sum.split)

text \<open>An observation as another program may write it, with its global scalars as JSON integers.\<close>

definition integer_scalars :: "(string \<times> int) list \<Rightarrow> json" where
  "integer_scalars ints = JArray (map (\<lambda>(name, n). JObject [(''name'', JString name), (''value'', JInt n)]) ints)"

definition beyond_float :: "int \<Rightarrow> bool" where
  "beyond_float n \<longleftrightarrow> 2 ^ 1024 - 2 ^ 970 \<le> \<bar>n\<bar>"

lemma integer_scalars_read:
  assumes "scalars_wf (map (\<lambda>(name, n). \<lparr>ns_name = name, ns_value = rnd (of_int n)\<rparr>) ints)"
  shows "rmap (scalar_from_dict rnd) (map (\<lambda>(name, n). [(''name'', JString name), (''value'', JInt n)]) ints) =
    (if \<exists>p \<in> set ints. beyond_float (snd p) then Inl (OverflowError ''int too large to convert to float'')
     else Inr (map (\<lambda>(name, n). \<lparr>ns_name = name, ns_value = rnd (of_int n)\<rparr>) ints))"
  using assms
proof (induction ints)
  case (Cons p ints)
  obtain name n where p: "p = (name, n)" by fastforce
  have one: "scalar_from_dict rnd [(''name'', JString name), (''value'', JInt n)] =
      (if beyond_float n then Inl (OverflowError ''int too large to convert to float'') else Inr \<lparr>ns_name = name, ns_value = rnd (of_int n)\<rparr>)"
    using Cons.prems unfolding p
    by (simp add: scalar_from_dict_def reader_defs json_get_def float_of_int_def beyond_float_def validated_def scalars_wf_def not_less)
  show ?case using Cons by (simp add: p one scalars_wf_def)
qed simp

lemma observation_with_scalars:
  assumes wf: "message_wf (Observation m)" and d: "json_sort_keys (message_to_dict (Observation m)) = JObject fs"
    and read: "rbind (json_objects (AList.update ''global_scalars'' v fs) ''global_scalars'') (rmap (scalar_from_dict rnd)) = R"
  shows "decode_fields rnd (AList.update ''global_scalars'' v fs) = rbind R (\<lambda>ss.
    rbind (validated observation_message_ok (m\<lparr>om_global_scalars := ss\<rparr>)) (\<lambda>o'. Inr (Observation o')))"
proof -
  let ?data = "AList.update ''global_scalars'' v fs"
  obtain kvs where k: "message_to_dict (Observation m) = JObject kvs" "distinct (map fst kvs)" by simp
  have "json_has fs kvs" 
    using json_has_sorted [OF k(2)] d unfolding k(1) json_sort_keys.simps json.inject by simp
  then have get: "json_get ?data key = Inr (json_sort_keys w)" if "(key, w) \<in> set kvs" "key \<noteq> ''global_scalars''" for key w
    using that by (auto simp: json_has_iff json_get_def update_conv')
  have e: "rbind (json_objects ?data ''entities'') (rmap (entity_from_dict rnd)) = Inr (om_entities m)"
    using get k(1) wf by (intro entity_codec.objects_roundtrip) auto
  have u: "json_string ?data ''message_id'' = Inr (om_message_id m)"
    "json_string ?data ''observation_id'' = Inr (om_observation_id m)"
    "json_string ?data ''agent_id'' = Inr (om_agent_id m)" "json_string ?data ''life_id'' = Inr (om_life_id m)"
    "json_integer ?data ''tick'' = Inr (om_tick m)" "json_integer ?data ''sim_time_ms'' = Inr (om_sim_time_ms m)"
    "json_boolean ?data ''active'' = Inr (om_active m)" "json_integer ?data ''protocol_version'' = Inr PROTOCOL_VERSION"
    "json_string ?data ''message_type'' = Inr ''observation''"
    using k(1) get [of "''message_id''"] get [of "''observation_id''"] get [of "''agent_id''"] get [of "''life_id''"] get [of "''tick''"]
      get [of "''sim_time_ms''"] get [of "''active''"] get [of "''protocol_version''"] get [of "''message_type''"]
    by (auto simp: reader_defs)
  show ?thesis by (cases m) (simp add: decode_fields_def observation_from_dict_def e u read rbind_assoc)
qed

text \<open>C37: Numbers may be written as JSON integers, and \<open>decode_message\<close> lets an \<open>OverflowError\<close> of their conversion escape. Any well-formed
  observation whose global scalars are written as integers is decoded, with each of them rounded to a float, if all of them are
  within the range of floats; as soon as one is not, the caller gets an \<open>OverflowError\<close> instead of a \<open>ProtocolDecodeError\<close>.\<close>

theorem decode_overflow_escapes:
  assumes "message_wf (Observation m)" "om_global_scalars m = map (\<lambda>(name, n). \<lparr>ns_name = name, ns_value = rnd (of_int n)\<rparr>) ints"
    and "json_sort_keys (message_to_dict (Observation m)) = JObject fs"
  shows "decode_data rnd (JObject (AList.update ''global_scalars'' (integer_scalars ints) fs)) =
    (if \<exists>p \<in> set ints. beyond_float (snd p) then Inl (OverflowError ''int too large to convert to float'') else Inr (Observation m))"
proof -
  let ?data = "AList.update ''global_scalars'' (integer_scalars ints) fs"
  have "json_objects ?data ''global_scalars'' = Inr (map (\<lambda>(name, n). [(''name'', JString name), (''value'', JInt n)]) ints)"
    by (simp add: json_objects_def json_sequence_def json_get_def update_conv' integer_scalars_def)
      (rule trans [OF rmap_map_Inr [where h = "\<lambda>(name, n). [(''name'', JString name), (''value'', JInt n)]"]], auto)
  moreover have "scalars_wf (om_global_scalars m)" "validated observation_message_ok m = Inr m" using assms(1) by (simp_all add: validated_def)
  moreover have same: "m\<lparr>om_global_scalars := map (\<lambda>(name, n). \<lparr>ns_name = name, ns_value = rnd (of_int n)\<rparr>) ints\<rparr> = m"
    unfolding assms(2) [symmetric] by simp
  ultimately have ok: "validated observation_message_ok (m\<lparr>om_global_scalars := map (\<lambda>(name, n). \<lparr>ns_name = name, ns_value = rnd (of_int n)\<rparr>) ints\<rparr>) = Inr m"
    and r: "rbind (json_objects ?data ''global_scalars'') (rmap (scalar_from_dict rnd)) = (if \<exists>p \<in> set ints. beyond_float (snd p)
      then Inl (OverflowError ''int too large to convert to float'') else Inr (map (\<lambda>(name, n). \<lparr>ns_name = name, ns_value = rnd (of_int n)\<rparr>) ints))"
    unfolding same using integer_scalars_read [of rnd ints] assms(2) by simp_all
  have "decode_fields rnd ?data = (if \<exists>p \<in> set ints. beyond_float (snd p)
      then Inl (OverflowError ''int too large to convert to float'') else Inr (Observation m))"
    by (subst observation_with_scalars [OF assms(1,3) r]) (auto simp: ok)
  then show ?thesis by (simp add: decode_data_def)
qed

definition example_observation :: "int \<Rightarrow> observation_message" where
  "example_observation n =
     \<lparr>om_message_id = ''m'', om_observation_id = ''o'', om_agent_id = ''a'', om_life_id = ''l'', om_tick = 0, om_sim_time_ms = 0,
      om_entities = [\<lparr>eo_entity_id = ''a'', eo_kind = ACTOR, eo_relation = SELF, eo_position = \<lparr>vx = 0, vy = 0\<rparr>,
        eo_velocity = \<lparr>vx = 0, vy = 0\<rparr>, eo_scalars = [], eo_tags = []\<rparr>],
      om_global_scalars = [\<lparr>ns_name = ''n'', ns_value = of_int n\<rparr>], om_active = True\<rparr>"

theorem decode_overflow_escapes_witness:
  "\<exists>fs. json_sort_keys (message_to_dict (Observation (example_observation (2 ^ 1024)))) = JObject fs
     \<and> decode_data id (JObject (AList.update ''global_scalars'' (integer_scalars [(''n'', 2 ^ 1024)]) fs))
         = Inl (OverflowError ''int too large to convert to float'')"
proof -
  have wf: "message_wf (Observation (example_observation n))" for n
    by (simp add: example_observation_def observation_message_ok_def entity_wf_def entity_observation_ok_def scalars_wf_def named_scalar_ok_def
        py_identifier_def require_non_negative_def require_unique_def nonblank_def py_space_def)
  obtain fs where f: "json_sort_keys (message_to_dict (Observation (example_observation (2 ^ 1024)))) = JObject fs" by simp
  from decode_overflow_escapes [OF wf _ f, of id "[(''n'', 2 ^ 1024)]"] f show ?thesis
    by (auto simp: example_observation_def beyond_float_def)
qed

end
