(* ===== verification/Affiliation_IO.thy ===== *)
theory Affiliation_IO
  imports Affiliation_Relations Protocol_Codec
begin

text \<open>
  The versioned interchange of affiliation snapshots (\<^verbatim>\<open>sim/affiliation_io.py\<close>): the canonical payload
  of a snapshot and the strict reader that accepts nothing but such payloads. Printing with
  \<^verbatim>\<open>json.dumps(..., sort_keys=True)\<close> and reading back is \<open>json_sort_keys\<close>; the hook that rejects repeated
  fields while the text is parsed is \<open>unique_objects\<close>, applied to the tree of objects innermost first.
\<close>

subsection \<open>The canonical payload\<close>

definition AFFILIATION_SNAPSHOT_SCHEMA_VERSION :: int where
  "AFFILIATION_SNAPSHOT_SCHEMA_VERSION = 1"

definition group_key_payload :: "group_key \<Rightarrow> json" where
  "group_key_payload k = JObject
     [(''kind'', JString (group_kind_value (gk_kind k))), (''group_id'', JString (gk_group_id k))]"

definition membership_payload :: "group_membership \<Rightarrow> json" where
  "membership_payload m = JObject
     [(''entity_id'', JString (gm_entity_id m)),
      (''group_key'', group_key_payload (gm_group_key m)),
      (''role'', nullable JString (gm_role m))]"

definition membership_sort_key :: "group_membership \<Rightarrow> string \<times> string \<times> string \<times> string" where
  "membership_sort_key m =
     (gm_entity_id m, group_kind_value (gk_kind (gm_group_key m)), gk_group_id (gm_group_key m),
      case gm_role m of None \<Rightarrow> '''' | Some r \<Rightarrow> r)"

definition ownership_payload :: "ownership_edge \<Rightarrow> json" where
  "ownership_payload e = JObject
     [(''owner_id'', JString (oe_owner_id e)), (''owned_id'', JString (oe_owned_id e))]"

definition subject_payload :: "relation_subject \<Rightarrow> json" where
  "subject_payload s = JObject
     [(''entity_id'', nullable JString (rs_entity_id s)),
      (''group_key'', nullable group_key_payload (rs_group_key s))]"

definition canonical_override_subjects :: "relation_override \<Rightarrow> relation_subject \<times> relation_subject" where
  "canonical_override_subjects o' =
     (if ro_symmetric o' \<and> subject_sort_key (ro_right o') < subject_sort_key (ro_left o')
      then (ro_right o', ro_left o') else (ro_left o', ro_right o'))"

definition override_payload :: "relation_override \<Rightarrow> json" where
  "override_payload o' =
     (let (l, r) = canonical_override_subjects o'
      in JObject
       [(''left'', subject_payload l),
        (''right'', subject_payload r),
        (''relation'', JString (relation_value (ro_relation o'))),
        (''symmetric'', JBool (ro_symmetric o'))])"

definition override_sort_key ::
    "relation_override \<Rightarrow> (string \<times> string \<times> string) \<times> (string \<times> string \<times> string) \<times> bool \<times> string" where
  "override_sort_key o' =
     (let (l, r) = canonical_override_subjects o'
      in (subject_sort_key l, subject_sort_key r, ro_symmetric o', relation_value (ro_relation o')))"

definition affiliation_snapshot_to_dict :: "affiliation_snapshot \<Rightarrow> json" where
  "affiliation_snapshot_to_dict s = JObject
     [(''schema_version'', JInt AFFILIATION_SNAPSHOT_SCHEMA_VERSION),
      (''revision'', JInt (as_revision s)),
      (''memberships'', JArray (map membership_payload (sort_key membership_sort_key (as_memberships s)))),
      (''ownership_edges'', JArray (map ownership_payload
         (sort_key (\<lambda>e. (oe_owner_id e, oe_owned_id e)) (as_ownership_edges s)))),
      (''relation_overrides'', JArray (map override_payload
         (sort_key override_sort_key (as_relation_overrides s))))]"

definition dump_affiliation_snapshot :: "affiliation_snapshot \<Rightarrow> json" where
  "dump_affiliation_snapshot s = json_sort_keys (affiliation_snapshot_to_dict s)"

subsection \<open>The strict reader\<close>

definition exact_fields :: "json_object \<Rightarrow> string list \<Rightarrow> string \<Rightarrow> unit result" where
  "exact_fields raw expected path =
     (let unknown = sort (remdups (filter (\<lambda>k. k \<notin> set expected) (map fst raw)));
          missing = sort (remdups (filter (\<lambda>k. k \<notin> set (map fst raw)) expected))
      in checks
       [(unknown \<noteq> [], AffiliationSnapshotFormatError (path @ '' has unknown fields: '' @ py_join '', '' unknown)),
        (missing \<noteq> [], AffiliationSnapshotFormatError (path @ '' is missing fields: '' @ py_join '', '' missing))])"

definition io_object :: "json \<Rightarrow> string \<Rightarrow> json_object result" where
  "io_object raw path =
     (case raw of JObject members \<Rightarrow> Inr members
      | _ \<Rightarrow> Inl (AffiliationSnapshotFormatError (path @ '' must be an object'')))"

definition io_array :: "json \<Rightarrow> string \<Rightarrow> json list result" where
  "io_array raw path =
     (case raw of JArray xs \<Rightarrow> Inr xs
      | _ \<Rightarrow> Inl (AffiliationSnapshotFormatError (path @ '' must be an array'')))"

definition io_string :: "json \<Rightarrow> string \<Rightarrow> string result" where
  "io_string raw path =
     (case raw of
        JString s \<Rightarrow> if nonblank s then Inr s
          else Inl (AffiliationSnapshotFormatError (path @ '' must be a non-empty string''))
      | _ \<Rightarrow> Inl (AffiliationSnapshotFormatError (path @ '' must be a non-empty string'')))"

definition io_non_negative_integer :: "json \<Rightarrow> string \<Rightarrow> int result" where
  "io_non_negative_integer raw path =
     (case raw of
        JInt n \<Rightarrow> if n < 0 then Inl (AffiliationSnapshotFormatError (path @ '' must be a non-negative integer'')) else Inr n
      | _ \<Rightarrow> Inl (AffiliationSnapshotFormatError (path @ '' must be a non-negative integer'')))"

text \<open>\<open>if raw is not None: raw = parse(raw)\<close>.\<close>

definition unless_null :: "(json \<Rightarrow> 'a result) \<Rightarrow> json \<Rightarrow> 'a option result" where
  "unless_null parse raw = (case raw of JNull \<Rightarrow> Inr None | _ \<Rightarrow> rbind (parse raw) (\<lambda>x. Inr (Some x)))"

definition io_enum :: "('e \<Rightarrow> string) \<Rightarrow> 'e list \<Rightarrow> string \<Rightarrow> string \<Rightarrow> 'e result" where
  "io_enum val members path raw =
     (case enum_of val members [] raw of
        Inr e \<Rightarrow> Inr e
      | Inl _ \<Rightarrow> Inl (AffiliationSnapshotFormatError (path @ '' is unknown: '' @ raw)))"

definition group_kinds_all :: "group_kind list" where
  "group_kinds_all = [PARTY, GUILD, NATION, SCENARIO_SIDE]"

definition parse_group_key :: "json \<Rightarrow> string \<Rightarrow> group_key result" where
  "parse_group_key raw path =
     rbind (io_object raw path) (\<lambda>value.
     rbind (exact_fields value [''kind'', ''group_id''] path) (\<lambda>_.
     rbind (rbind (json_get value ''kind'') (\<lambda>v. io_string v (path @ ''.kind''))) (\<lambda>kind_raw.
     rbind (io_enum group_kind_value group_kinds_all (path @ ''.kind'') kind_raw) (\<lambda>kind.
     rbind (rbind (json_get value ''group_id'') (\<lambda>v. io_string v (path @ ''.group_id''))) (\<lambda>group_id.
     validated group_key_ok (GroupKey kind group_id))))))"

definition parse_membership :: "json \<Rightarrow> nat \<Rightarrow> group_membership result" where
  "parse_membership raw index =
     (let path = ''memberships['' @ py_str_nat index @ '']'' in
     rbind (io_object raw path) (\<lambda>value.
     rbind (exact_fields value [''entity_id'', ''group_key'', ''role''] path) (\<lambda>_.
     rbind (rbind (json_get value ''role'') (unless_null (\<lambda>v. io_string v (path @ ''.role'')))) (\<lambda>role.
     rbind (rbind (json_get value ''entity_id'') (\<lambda>v. io_string v (path @ ''.entity_id''))) (\<lambda>entity_id.
     rbind (rbind (json_get value ''group_key'') (\<lambda>v. parse_group_key v (path @ ''.group_key''))) (\<lambda>group_key.
     validated group_membership_ok
       \<lparr>gm_entity_id = entity_id, gm_group_key = group_key, gm_role = role\<rparr>))))))"

definition parse_ownership :: "json \<Rightarrow> nat \<Rightarrow> ownership_edge result" where
  "parse_ownership raw index =
     (let path = ''ownership_edges['' @ py_str_nat index @ '']'' in
     rbind (io_object raw path) (\<lambda>value.
     rbind (exact_fields value [''owner_id'', ''owned_id''] path) (\<lambda>_.
     rbind (rbind (json_get value ''owner_id'') (\<lambda>v. io_string v (path @ ''.owner_id''))) (\<lambda>owner_id.
     rbind (rbind (json_get value ''owned_id'') (\<lambda>v. io_string v (path @ ''.owned_id''))) (\<lambda>owned_id.
     validated ownership_edge_ok \<lparr>oe_owner_id = owner_id, oe_owned_id = owned_id\<rparr>)))))"

definition parse_subject :: "json \<Rightarrow> string \<Rightarrow> relation_subject result" where
  "parse_subject raw path =
     rbind (io_object raw path) (\<lambda>value.
     rbind (exact_fields value [''entity_id'', ''group_key''] path) (\<lambda>_.
     rbind (json_get value ''entity_id'') (\<lambda>entity_raw.
     rbind (json_get value ''group_key'') (\<lambda>group_raw.
     rbind (unless_null (\<lambda>v. io_string v (path @ ''.entity_id'')) entity_raw) (\<lambda>entity_id.
     rbind (unless_null (\<lambda>v. parse_group_key v (path @ ''.group_key'')) group_raw) (\<lambda>parsed_group.
     validated relation_subject_ok \<lparr>rs_entity_id = entity_id, rs_group_key = parsed_group\<rparr>))))))"

definition parse_override :: "json \<Rightarrow> nat \<Rightarrow> relation_override result" where
  "parse_override raw index =
     (let path = ''relation_overrides['' @ py_str_nat index @ '']'' in
     rbind (io_object raw path) (\<lambda>value.
     rbind (exact_fields value [''left'', ''right'', ''relation'', ''symmetric''] path) (\<lambda>_.
     rbind (rbind (json_get value ''relation'') (\<lambda>v. io_string v (path @ ''.relation''))) (\<lambda>relation_raw.
     rbind (io_enum relation_value relations_all (path @ ''.relation'') relation_raw) (\<lambda>relation.
     rbind (rbind (json_get value ''symmetric'') (\<lambda>v.
       case v of JBool b \<Rightarrow> Inr b
       | _ \<Rightarrow> Inl (AffiliationSnapshotFormatError (path @ ''.symmetric must be boolean'')))) (\<lambda>symmetric.
     rbind (rbind (json_get value ''left'') (\<lambda>v. parse_subject v (path @ ''.left''))) (\<lambda>left.
     rbind (rbind (json_get value ''right'') (\<lambda>v. parse_subject v (path @ ''.right''))) (\<lambda>right.
     validated relation_override_ok
       \<lparr>ro_left = left, ro_right = right, ro_relation = relation, ro_symmetric = symmetric\<rparr>))))))))"

text \<open>\<open>except AffiliationSnapshotFormatError: raise\<close>, then \<open>except (AffiliationConfigurationError, TypeError,
  ValueError)\<close>: every other class of the project's errors derives from \<open>ValueError\<close>; the built-in lookup,
  assertion, arithmetic and recursion errors, \<open>struct.error\<close>, and \<open>CondemnResponseError\<close> and \<open>AStarRouteNotFound\<close>
  (\<open>RuntimeError\<close>s) do not.\<close>

fun as_format_error :: "py_error \<Rightarrow> py_error" where
  "as_format_error (KeyError s) = KeyError s"
| "as_format_error (IndexError s) = IndexError s"
| "as_format_error (AssertionError s) = AssertionError s"
| "as_format_error (OverflowError s) = OverflowError s"
| "as_format_error (StructError s) = StructError s"
| "as_format_error (CondemnResponseError s) = CondemnResponseError s"
| "as_format_error (OSError s) = OSError s"
| "as_format_error (RuntimeError s) = RuntimeError s"
| "as_format_error (KeyboardInterrupt s) = KeyboardInterrupt s"
| "as_format_error (GuardSpendingStopped s) = GuardSpendingStopped s"
| "as_format_error (ZeroDivisionError s) = ZeroDivisionError s"
| "as_format_error (RecursionError s) = RecursionError s"
| "as_format_error (AStarRouteNotFound s) = AStarRouteNotFound s"
| "as_format_error e = AffiliationSnapshotFormatError (error_text e)"

definition affiliation_snapshot_from_dict :: "json \<Rightarrow> affiliation_snapshot result" where
  "affiliation_snapshot_from_dict raw =
     rbind (io_object raw ''affiliation snapshot'') (\<lambda>payload.
     rbind (exact_fields payload
        [''schema_version'', ''revision'', ''memberships'', ''ownership_edges'', ''relation_overrides'']
        ''affiliation snapshot'') (\<lambda>_.
     rbind (rbind (json_get payload ''schema_version'') (\<lambda>v. io_non_negative_integer v ''schema_version'')) (\<lambda>schema_version.
     rbind (checks [(schema_version \<noteq> AFFILIATION_SNAPSHOT_SCHEMA_VERSION,
        AffiliationSnapshotFormatError ''affiliation snapshot must use schema_version 1'')]) (\<lambda>_.
     rbind (rbind (json_get payload ''revision'') (\<lambda>v. io_non_negative_integer v ''revision'')) (\<lambda>revision.
     rbind (rbind (json_get payload ''memberships'') (\<lambda>v. io_array v ''memberships'')) (\<lambda>memberships_raw.
     rbind (rbind (json_get payload ''ownership_edges'') (\<lambda>v. io_array v ''ownership_edges'')) (\<lambda>ownership_raw.
     rbind (rbind (json_get payload ''relation_overrides'') (\<lambda>v. io_array v ''relation_overrides'')) (\<lambda>overrides_raw.
     case
       rbind (rmap (\<lambda>(index, value). parse_membership value index) (List.enumerate 0 memberships_raw)) (\<lambda>memberships.
       rbind (rmap (\<lambda>(index, value). parse_ownership value index) (List.enumerate 0 ownership_raw)) (\<lambda>ownership_edges.
       rbind (rmap (\<lambda>(index, value). parse_override value index) (List.enumerate 0 overrides_raw)) (\<lambda>relation_overrides.
       validated affiliation_snapshot_ok
         \<lparr>as_revision = revision, as_memberships = memberships, as_ownership_edges = ownership_edges,
          as_relation_overrides = relation_overrides\<rparr>)))
     of Inl e \<Rightarrow> Inl (as_format_error e) | Inr s \<Rightarrow> Inr s))))))))"

text \<open>\<open>_unique_object\<close> as \<^verbatim>\<open>object_pairs_hook\<close>: called for each object once its members are parsed.\<close>

fun unique_object :: "json_object \<Rightarrow> json_object \<Rightarrow> json_object result" where
  "unique_object value [] = Inr value"
| "unique_object value ((key, item) # pairs) =
     (if map_of value key \<noteq> None
      then Inl (AffiliationSnapshotFormatError ''affiliation snapshot contains duplicate field'')
      else unique_object (value @ [(key, item)]) pairs)"

fun unique_objects :: "json \<Rightarrow> json result"
  and unique_list :: "json list \<Rightarrow> json list result"
  and unique_fields :: "json_object \<Rightarrow> json_object result" where
  "unique_objects (JArray xs) = rbind (unique_list xs) (\<lambda>ys. Inr (JArray ys))"
| "unique_objects (JObject kvs) =
     rbind (unique_fields kvs) (\<lambda>pairs. rbind (unique_object [] pairs) (\<lambda>value. Inr (JObject value)))"
| "unique_objects v = Inr v"
| "unique_list [] = Inr []"
| "unique_list (x # xs) = rbind (unique_objects x) (\<lambda>y. rbind (unique_list xs) (\<lambda>ys. Inr (y # ys)))"
| "unique_fields [] = Inr []"
| "unique_fields ((k, v) # kvs) =
     rbind (unique_objects v) (\<lambda>w. rbind (unique_fields kvs) (\<lambda>ws. Inr ((k, w) # ws)))"

definition load_affiliation_snapshot :: "json \<Rightarrow> affiliation_snapshot result" where
  "load_affiliation_snapshot raw = rbind (unique_objects raw) affiliation_snapshot_from_dict"

subsection \<open>The canonical form of a snapshot\<close>

definition canonical_override :: "relation_override \<Rightarrow> relation_override" where
  "canonical_override o' =
     (let (l, r) = canonical_override_subjects o'
      in \<lparr>ro_left = l, ro_right = r, ro_relation = ro_relation o', ro_symmetric = ro_symmetric o'\<rparr>)"

definition canonical_snapshot :: "affiliation_snapshot \<Rightarrow> affiliation_snapshot" where
  "canonical_snapshot s =
     \<lparr>as_revision = as_revision s,
      as_memberships = sort_key membership_sort_key (as_memberships s),
      as_ownership_edges = sort_key (\<lambda>e. (oe_owner_id e, oe_owned_id e)) (as_ownership_edges s),
      as_relation_overrides = map canonical_override (sort_key override_sort_key (as_relation_overrides s))\<rparr>"

lemma canonical_override_cases:
  "(ro_symmetric o' \<and> canonical_override o' = \<lparr>ro_left = ro_right o', ro_right = ro_left o',
        ro_relation = ro_relation o', ro_symmetric = True\<rparr> \<and> subject_sort_key (ro_right o') < subject_sort_key (ro_left o'))
   \<or> (canonical_override o' = o' \<and> (ro_symmetric o' \<longrightarrow> \<not> subject_sort_key (ro_right o') < subject_sort_key (ro_left o')))"
  by (cases o') (auto simp: canonical_override_def canonical_override_subjects_def)

lemma canonical_override_simps [simp]:
  "ro_relation (canonical_override o') = ro_relation o'"
  "ro_symmetric (canonical_override o') = ro_symmetric o'"
  "precedence (canonical_override o') = precedence o'"
  "override_matches (canonical_override o') l r lm rm = override_matches o' l r lm rm"
  "canonical_override_subjects (canonical_override o') = canonical_override_subjects o'"
  "identity_key (canonical_override o') = identity_key o'"
  by (auto simp: canonical_override_def canonical_override_subjects_def precedence_def override_matches_def
      identity_key_def Let_def dest: order.asym)

lemma canonical_override_keys [simp]:
  "override_sort_key (canonical_override o') = override_sort_key o'"
  "override_payload (canonical_override o') = override_payload o'"
  by (simp_all add: override_sort_key_def override_payload_def)

lemma canonical_override_ok [simp]:
  "relation_override_ok (canonical_override o') = relation_override_ok o'"
  by (auto simp: relation_override_ok_def canonical_override_def canonical_override_subjects_def)

lemma to_dict_canonical: "affiliation_snapshot_to_dict (canonical_snapshot s) = affiliation_snapshot_to_dict s"
proof -
  have "sort_key override_sort_key (map canonical_override (sort_key override_sort_key os))
      = map canonical_override (sort_key override_sort_key os)" for os
    by (simp add: sort_key_map sort_key_id_if_sorted sorted_sort_key comp_def)
  then show ?thesis
    by (simp add: affiliation_snapshot_to_dict_def canonical_snapshot_def sort_key_id_if_sorted sorted_sort_key)
qed

lemma canonical_sets:
  "set (as_memberships (canonical_snapshot s)) = set (as_memberships s)"
  "set (as_ownership_edges (canonical_snapshot s)) = set (as_ownership_edges s)"
  "set (as_relation_overrides (canonical_snapshot s)) = canonical_override ` set (as_relation_overrides s)"
  by (simp_all add: canonical_snapshot_def)

lemma strongest_match_canonical:
  "strongest_match (canonical_override ` X) l r lm rm q \<longleftrightarrow>
     (\<exists>p. q = canonical_override p \<and> strongest_match X l r lm rm p)"
  by (auto simp: strongest_match_def)

lemma memberships_canonical: "memberships_by_entity (canonical_snapshot s) = memberships_by_entity s"
  by (rule ext) (simp add: memberships_by_entity_def canonical_sets)

lemma sort_remdups_set: "set xs = set ys \<Longrightarrow> sort (remdups xs) = sort (remdups ys)"
  by (metis sorted_list_of_set_sort_remdups)

lemma entity_ids_canonical: "entity_ids (canonical_snapshot s) = entity_ids s"
proof -
  define ends :: "relation_override \<Rightarrow> string list" where "ends = (\<lambda>o'. (case rs_entity_id (ro_left o') of None \<Rightarrow> [] | Some i \<Rightarrow> [i])
                      @ (case rs_entity_id (ro_right o') of None \<Rightarrow> [] | Some i \<Rightarrow> [i]))"
  have ends: "set (ends (canonical_override o')) = set (ends o')" for o'
    using canonical_override_cases [of o'] by (auto simp: ends_def)
  have "set (map gm_entity_id (as_memberships (canonical_snapshot s))
      @ concat (map (\<lambda>e. [oe_owner_id e, oe_owned_id e]) (as_ownership_edges (canonical_snapshot s)))
      @ concat (map ends (as_relation_overrides (canonical_snapshot s))))
    = set (map gm_entity_id (as_memberships s)
      @ concat (map (\<lambda>e. [oe_owner_id e, oe_owned_id e]) (as_ownership_edges s))
      @ concat (map ends (as_relation_overrides s)))"
    by (simp add: canonical_sets ends)
  then show ?thesis unfolding entity_ids_def ends_def by (rule sort_remdups_set)
qed

lemma owner_by_owned_Some:
  assumes "one_owner (as_ownership_edges s)"
  shows "owner_by_owned s i = Some o' \<longleftrightarrow> (\<exists>e \<in> set (as_ownership_edges s). oe_owned_id e = i \<and> oe_owner_id e = o')"
proof
  assume "owner_by_owned s i = Some o'"
  then show "\<exists>e \<in> set (as_ownership_edges s). oe_owned_id e = i \<and> oe_owner_id e = o'"
    unfolding owner_by_owned_def by (auto dest!: map_of_SomeD)
next
  assume "\<exists>e \<in> set (as_ownership_edges s). oe_owned_id e = i \<and> oe_owner_id e = o'"
  then obtain e where e: "e \<in> set (as_ownership_edges s)" "oe_owned_id e = i" "oe_owner_id e = o'" by blast
  then have "i \<in> fst ` set (rev (map (\<lambda>e. (oe_owned_id e, oe_owner_id e)) (as_ownership_edges s)))"
    by force
  then have "owner_by_owned s i \<noteq> None" unfolding owner_by_owned_def map_of_eq_None_iff by simp
  then obtain x where x: "owner_by_owned s i = Some x" by blast
  then obtain e' where e': "e' \<in> set (as_ownership_edges s)" "oe_owned_id e' = i" "oe_owner_id e' = x"
    unfolding owner_by_owned_def by (auto dest!: map_of_SomeD)
  have "x = o'" using assms [unfolded one_owner_def, rule_format, OF e'(1) e(1)] e(2,3) e'(2,3) by blast
  then show "owner_by_owned s i = Some o'" using x by simp
qed

lemma owner_by_owned_canonical:
  assumes "one_owner (as_ownership_edges s)"
  shows "owner_by_owned (canonical_snapshot s) = owner_by_owned s"
proof
  fix i
  have "one_owner (as_ownership_edges (canonical_snapshot s))"
    using assms unfolding one_owner_def canonical_sets .
  then have "owner_by_owned (canonical_snapshot s) i = Some o' \<longleftrightarrow> owner_by_owned s i = Some o'" for o'
    using assms by (simp add: owner_by_owned_Some canonical_sets)
  then show "owner_by_owned (canonical_snapshot s) i = owner_by_owned s i"
    by (cases "owner_by_owned s i"; cases "owner_by_owned (canonical_snapshot s) i") auto
qed

lemma canonical_snapshot_ok:
  assumes "affiliation_snapshot_ok s = Inr ()"
  shows "affiliation_snapshot_ok (canonical_snapshot s) = Inr ()"
proof -
  have spec: "snapshot_spec s" using assms by (simp add: snapshot_ok_iff)
  then have one: "one_owner (as_ownership_edges s)" by (simp add: snapshot_spec_def)
  have lists: "as_revision (canonical_snapshot s) = as_revision s"
    "distinct (map f (as_memberships (canonical_snapshot s))) = distinct (map f (as_memberships s))"
    "distinct (as_ownership_edges (canonical_snapshot s)) = distinct (as_ownership_edges s)"
    "distinct (map identity_key (as_relation_overrides (canonical_snapshot s))) = distinct (map identity_key (as_relation_overrides s))"
    for f :: "group_membership \<Rightarrow> 'x"
    by (simp_all add: canonical_snapshot_def distinct_map_sort_key comp_def)
  have "one_owner (as_ownership_edges (canonical_snapshot s))"
    using one unfolding one_owner_def canonical_sets .
  moreover have "ro_relation p = ro_relation q"
    if ids: "l \<in> set (entity_ids s)" "r \<in> set (entity_ids s)" "l \<noteq> r" and cm:
      "strongest_match (canonical_override ` set (as_relation_overrides s)) l r (memberships_by_entity s l) (memberships_by_entity s r) p"
      "strongest_match (canonical_override ` set (as_relation_overrides s)) l r (memberships_by_entity s l) (memberships_by_entity s r) q"
    for l r p q
  proof -
    obtain p' q' where pq: "p = canonical_override p'" "q = canonical_override q'"
      and st: "strongest_match (set (as_relation_overrides s)) l r (memberships_by_entity s l) (memberships_by_entity s r) p'"
      "strongest_match (set (as_relation_overrides s)) l r (memberships_by_entity s l) (memberships_by_entity s r) q'"
      using cm unfolding strongest_match_canonical by blast
    have "ro_relation p' = ro_relation q'"
      using spec ids st unfolding snapshot_spec_def by blast
    then show ?thesis by (simp add: pq)
  qed
  ultimately have "snapshot_spec (canonical_snapshot s)"
    using spec unfolding snapshot_spec_def lists owner_by_owned_canonical [OF one] entity_ids_canonical
      memberships_canonical canonical_sets by blast
  then show ?thesis by (simp add: snapshot_ok_iff)
qed

subsection \<open>Strict codecs\<close>

text \<open>The contract of a strict reader: it reads back any object that has exactly the fields of the
  payload. The locale derives that the printed payload, an array of payloads and a nullable payload
  are read back.\<close>

locale strict_codec =
  fixes to_json :: "'a \<Rightarrow> json"
    and from_json :: "json \<Rightarrow> 'p \<Rightarrow> 'a result"
    and wf :: "'a \<Rightarrow> bool"
  assumes payload: "\<exists>kvs. to_json x = JObject kvs \<and> distinct (map fst kvs)"
    and reads: "wf x \<Longrightarrow> to_json x = JObject kvs \<Longrightarrow> json_has data kvs \<Longrightarrow> fst ` set data = fst ` set kvs
      \<Longrightarrow> from_json (JObject data) p = Inr x"
begin

lemma codec: "wf x \<Longrightarrow> from_json (json_sort_keys (to_json x)) p = Inr x"
proof -
  assume "wf x"
  obtain kvs where kvs: "to_json x = JObject kvs" "distinct (map fst kvs)" using payload by blast
  have "fst ` set (sorted_fields kvs) = fst ` set kvs" by force
  with reads [OF \<open>wf x\<close> kvs(1) json_has_sorted [OF kvs(2)]] show ?thesis by (simp add: kvs(1))
qed

lemma array_codec:
  "list_all wf xs \<Longrightarrow>
   rmap (\<lambda>(i, v). from_json v (f i)) (List.enumerate n (map (\<lambda>x. json_sort_keys (to_json x)) xs)) = Inr xs"
  by (induction xs arbitrary: n) (simp_all add: codec)

lemma nullable_codec:
  "pred_option wf ox \<Longrightarrow> unless_null (\<lambda>v. from_json v p) (json_sort_keys (nullable to_json ox)) = Inr ox"
proof (cases ox)
  case (Some x)
  obtain members where "json_sort_keys (to_json x) = JObject members" using payload [of x] by auto
  moreover assume "pred_option wf ox"
  ultimately show ?thesis using codec [of x p] Some by (simp add: nullable_def unless_null_def)
qed (simp add: nullable_def unless_null_def)

end

lemma exact_fields_Inr [result_simps]:
  "exact_fields raw expected path = Inr u \<longleftrightarrow> fst ` set raw = set expected"
  by (auto simp: exact_fields_def Let_def result_simps filter_empty_conv sort_key_Nil_iff)

lemma io_string_JString [simp]: "io_string (JString s) path = Inr t \<longleftrightarrow> nonblank s \<and> t = s"
  by (auto simp: io_string_def)

lemma unless_null_JString: "pred_option nonblank x \<Longrightarrow> unless_null (\<lambda>v. io_string v p) (nullable JString x) = Inr x"
  by (cases x) (simp_all add: unless_null_def nullable_def io_string_def)

lemma io_enum_value:
  "inj val \<Longrightarrow> e \<in> set members \<Longrightarrow> io_enum val members path (val e) = Inr e"
  by (simp add: io_enum_def enum_of_value)

lemma group_kinds_all_mem [simp]: "k \<in> set group_kinds_all"
  by (cases k) (simp_all add: group_kinds_all_def)

lemma enum_value_nonblank [simp]: "nonblank (group_kind_value k)" "nonblank (relation_value r)"
  by (cases k; simp add: nonblank_def py_space_def) (cases r; simp add: nonblank_def py_space_def)

definition membership_wf :: "group_membership \<Rightarrow> bool" where
  "membership_wf m \<longleftrightarrow> group_membership_ok m = Inr () \<and> group_key_ok (gm_group_key m) = Inr ()"

definition subject_wf :: "relation_subject \<Rightarrow> bool" where
  "subject_wf s \<longleftrightarrow> relation_subject_ok s = Inr () \<and> pred_option (\<lambda>k. group_key_ok k = Inr ()) (rs_group_key s)"

definition override_wf :: "relation_override \<Rightarrow> bool" where
  "override_wf o' \<longleftrightarrow> relation_override_ok o' = Inr () \<and> subject_wf (ro_left o') \<and> subject_wf (ro_right o')"

definition snapshot_wf :: "affiliation_snapshot \<Rightarrow> bool" where
  "snapshot_wf s \<longleftrightarrow> affiliation_snapshot_ok s = Inr ()
     \<and> list_all membership_wf (as_memberships s)
     \<and> list_all (\<lambda>e. ownership_edge_ok e = Inr ()) (as_ownership_edges s)
     \<and> list_all override_wf (as_relation_overrides s)"

interpretation group_key_io: strict_codec group_key_payload parse_group_key "\<lambda>k. group_key_ok k = Inr ()"
proof unfold_locales
  show "parse_group_key (JObject data) p = Inr k"
    if "group_key_ok k = Inr ()" "group_key_payload k = JObject kvs" "json_has data kvs"
      "fst ` set data = fst ` set kvs" for k kvs data p
    using that
    by (cases k) (auto simp: group_key_payload_def parse_group_key_def io_object_def result_simps group_key_ok_def
        io_enum_value [OF inj_group_kind_value])
qed (simp add: group_key_payload_def)

interpretation membership_io: strict_codec membership_payload parse_membership membership_wf
proof unfold_locales
  show "parse_membership (JObject data) p = Inr m"
    if "membership_wf m" "membership_payload m = JObject kvs" "json_has data kvs"
      "fst ` set data = fst ` set kvs" for m kvs data p
    using that
    by (cases m) (auto simp: membership_payload_def parse_membership_def io_object_def result_simps Let_def
        membership_wf_def group_membership_ok_def group_key_io.codec unless_null_JString pred_option_def)
qed (simp add: membership_payload_def)

interpretation ownership_io: strict_codec ownership_payload parse_ownership "\<lambda>e. ownership_edge_ok e = Inr ()"
proof unfold_locales
  show "parse_ownership (JObject data) p = Inr e"
    if "ownership_edge_ok e = Inr ()" "ownership_payload e = JObject kvs" "json_has data kvs"
      "fst ` set data = fst ` set kvs" for e kvs data p
    using that
    by (cases e) (auto simp: ownership_payload_def parse_ownership_def io_object_def result_simps Let_def
        ownership_edge_ok_def)
qed (simp add: ownership_payload_def)

interpretation subject_io: strict_codec subject_payload parse_subject subject_wf
proof unfold_locales
  show "parse_subject (JObject data) p = Inr s"
    if "subject_wf s" "subject_payload s = JObject kvs" "json_has data kvs"
      "fst ` set data = fst ` set kvs" for s kvs data p
    using that
    by (cases s) (auto simp: subject_payload_def parse_subject_def io_object_def result_simps
        subject_wf_def relation_subject_ok_def group_key_io.nullable_codec unless_null_JString pred_option_def)
qed (simp add: subject_payload_def)

interpretation override_io: strict_codec override_payload parse_override "\<lambda>o'. override_wf o' \<and> canonical_override o' = o'"
proof unfold_locales
  show "parse_override (JObject data) p = Inr o'"
    if wf: "override_wf o' \<and> canonical_override o' = o'" "override_payload o' = JObject kvs" "json_has data kvs"
      "fst ` set data = fst ` set kvs" for o' kvs data p
  proof -
    have "canonical_override_subjects o' = (ro_left o', ro_right o')"
      using wf(1) by (cases o') (auto simp: canonical_override_def split: prod.splits)
    then have "kvs = [(''left'', subject_payload (ro_left o')), (''right'', subject_payload (ro_right o')),
        (''relation'', JString (relation_value (ro_relation o'))), (''symmetric'', JBool (ro_symmetric o'))]"
      using wf(2) by (simp add: override_payload_def)
    then show ?thesis using wf(1,3,4)
      by (cases o') (auto simp: parse_override_def io_object_def result_simps Let_def
        override_wf_def subject_io.codec io_enum_value [OF inj_relation_value])
  qed
qed (simp add: override_payload_def split: prod.split)

subsection \<open>Loading what was dumped\<close>

fun json_unique :: "json \<Rightarrow> bool" where
  "json_unique (JArray xs) \<longleftrightarrow> (\<forall>x \<in> set xs. json_unique x)"
| "json_unique (JObject kvs) \<longleftrightarrow> distinct (map fst kvs) \<and> (\<forall>kv \<in> set kvs. json_unique (snd kv))"
| "json_unique v \<longleftrightarrow> True"

lemma unique_object_distinct: "distinct (map fst (acc @ kvs)) \<Longrightarrow> unique_object acc kvs = Inr (acc @ kvs)"
proof (induction acc kvs rule: unique_object.induct)
  case (2 acc k v kvs)
  then have "map_of acc k = None" by (auto simp: map_of_eq_None_iff)
  with 2 show ?case by simp
qed simp

lemma unique_objects_unique:
  shows "json_unique j \<Longrightarrow> unique_objects j = Inr j"
    and "\<forall>x \<in> set xs. json_unique x \<Longrightarrow> unique_list xs = Inr xs"
    and "\<forall>kv \<in> set kvs. json_unique (snd kv) \<Longrightarrow> unique_fields kvs = Inr kvs"
  by (induction j and xs and kvs rule: unique_objects_unique_list_unique_fields.induct)
    (simp_all add: unique_object_distinct [of "[]", simplified])

lemma json_unique_sorted: "json_unique j \<Longrightarrow> json_unique (json_sort_keys j)"
proof (induction j rule: json_sort_keys.induct)
  case (2 kvs)
  have "distinct (map fst (sorted_fields kvs))" using 2 by (simp add: distinct_map_sort_key comp_def)
  then show ?case using 2 by auto
qed auto

lemma payloads_unique:
  "json_unique (group_key_payload k)" "json_unique (membership_payload m)" "json_unique (ownership_payload e)"
  "json_unique (subject_payload s)" "json_unique (override_payload o')"
  by (auto simp: group_key_payload_def membership_payload_def ownership_payload_def subject_payload_def
      override_payload_def nullable_def split: option.split prod.split)

lemma to_dict_unique: "json_unique (affiliation_snapshot_to_dict s)"
  by (auto simp: affiliation_snapshot_to_dict_def payloads_unique)

lemma canonical_override_idem [simp]: "canonical_override (canonical_override o') = canonical_override o'"
  unfolding canonical_override_def [of "canonical_override o'"] canonical_override_simps
  by (simp add: canonical_override_def split: prod.split)

lemma canonical_override_wf [simp]: "override_wf (canonical_override o') = override_wf o'"
  by (auto simp: override_wf_def canonical_override_ok) (auto simp: canonical_override_def canonical_override_subjects_def split: if_splits)

lemma json_get_Cons: "json_get ((k, v) # d) key = (if key = k then Inr v else json_get d key)"
  by (simp add: json_get_def)

lemma from_dict_reads:
  assumes wf: "snapshot_wf s" and has: "json_has data kvs" "fst ` set data = fst ` set kvs"
    and kvs: "affiliation_snapshot_to_dict s = JObject kvs"
  shows "affiliation_snapshot_from_dict (JObject data) = Inr (canonical_snapshot s)"
proof -
  define cos where "cos = map canonical_override (sort_key override_sort_key (as_relation_overrides s))"
  have ms: "rmap (\<lambda>(i, v). parse_membership v i) (List.enumerate 0
      (map (\<lambda>x. json_sort_keys (membership_payload x)) (sort_key membership_sort_key (as_memberships s))))
      = Inr (sort_key membership_sort_key (as_memberships s))"
    using wf by (intro membership_io.array_codec) (simp add: snapshot_wf_def list_all_iff)
  have es: "rmap (\<lambda>(i, v). parse_ownership v i) (List.enumerate 0
      (map (\<lambda>x. json_sort_keys (ownership_payload x)) (sort_key (\<lambda>e. (oe_owner_id e, oe_owned_id e)) (as_ownership_edges s))))
      = Inr (sort_key (\<lambda>e. (oe_owner_id e, oe_owned_id e)) (as_ownership_edges s))"
    using wf by (intro ownership_io.array_codec) (simp add: snapshot_wf_def list_all_iff)
  have os: "rmap (\<lambda>(i, v). parse_override v i) (List.enumerate 0
      (map (\<lambda>x. json_sort_keys (override_payload x)) cos)) = Inr cos"
    using wf by (intro override_io.array_codec) (simp add: snapshot_wf_def list_all_iff cos_def)
  have pay: "map (\<lambda>x. json_sort_keys (override_payload x)) (sort_key override_sort_key (as_relation_overrides s))
      = map (\<lambda>x. json_sort_keys (override_payload x)) cos" by (simp add: cos_def)
  have canon: "canonical_snapshot s = \<lparr>as_revision = as_revision s,
      as_memberships = sort_key membership_sort_key (as_memberships s),
      as_ownership_edges = sort_key (\<lambda>e. (oe_owner_id e, oe_owned_id e)) (as_ownership_edges s),
      as_relation_overrides = cos\<rparr>" by (simp add: canonical_snapshot_def cos_def)
  have ok: "affiliation_snapshot_ok (canonical_snapshot s) = Inr ()"
    using wf by (simp add: snapshot_wf_def canonical_snapshot_ok)
  have rev: "\<not> as_revision s < 0" using wf by (auto simp: snapshot_wf_def snapshot_ok_iff snapshot_spec_def)
  have keys: "exact_fields data [''schema_version'', ''revision'', ''memberships'', ''ownership_edges'', ''relation_overrides'']
      ''affiliation snapshot'' = Inr ()"
    unfolding exact_fields_Inr has(2) using kvs by (auto simp: affiliation_snapshot_to_dict_def)
  have gets: "json_get data ''schema_version'' = Inr (JInt 1)" "json_get data ''revision'' = Inr (JInt (as_revision s))"
    "json_get data ''memberships'' = Inr (JArray (map (\<lambda>x. json_sort_keys (membership_payload x)) (sort_key membership_sort_key (as_memberships s))))"
    "json_get data ''ownership_edges'' = Inr (JArray (map (\<lambda>x. json_sort_keys (ownership_payload x)) (sort_key (\<lambda>e. (oe_owner_id e, oe_owned_id e)) (as_ownership_edges s))))"
    "json_get data ''relation_overrides'' = Inr (JArray (map (\<lambda>x. json_sort_keys (override_payload x)) cos))"
    using has(1) kvs unfolding pay [symmetric]
    by (auto simp: affiliation_snapshot_to_dict_def AFFILIATION_SNAPSHOT_SCHEMA_VERSION_def comp_def)
  show ?thesis
    unfolding affiliation_snapshot_from_dict_def io_object_def json.case rbind.simps keys gets
    by (simp add: io_non_negative_integer_def io_array_def AFFILIATION_SNAPSHOT_SCHEMA_VERSION_def rev ms es os
        validated_def flip: canon) (simp add: ok)
qed

lemma load_dump:
  assumes "snapshot_wf s"
  shows "load_affiliation_snapshot (dump_affiliation_snapshot s) = Inr (canonical_snapshot s)"
proof -
  obtain kvs where kvs: "affiliation_snapshot_to_dict s = JObject kvs" by (simp add: affiliation_snapshot_to_dict_def)
  have "distinct (map fst kvs)" using to_dict_unique [of s] kvs by simp
  then have "affiliation_snapshot_from_dict (JObject (sorted_fields kvs)) = Inr (canonical_snapshot s)"
    by (intro from_dict_reads [OF assms json_has_sorted _ kvs]) (force+)
  then show ?thesis
    using unique_objects_unique(1) [OF json_unique_sorted [OF to_dict_unique [of s]]]
    by (simp add: load_affiliation_snapshot_def dump_affiliation_snapshot_def kvs)
qed

subsection \<open>The dump depends on the content only\<close>

lemma sort_key_content:
  assumes "distinct xs" "distinct ys" "set xs = set ys" "inj_on k (set xs)"
  shows "sort_key k xs = sort_key k ys"
proof (rule sort_key_inj_key_eq)
  show "mset xs = mset (sort_key k ys)" using assms(1-3) by (simp add: set_eq_iff_mset_eq_distinct)
qed (use assms(4) in simp_all)

lemma distinct_map_inj: "distinct (map f xs) \<Longrightarrow> (\<And>x y. g x = g y \<Longrightarrow> f x = f y) \<Longrightarrow> inj_on g (set xs)"
  unfolding distinct_map by (blast intro: inj_onI dest: inj_onD)

lemma dump_content:
  assumes ok: "affiliation_snapshot_ok s = Inr ()" "affiliation_snapshot_ok s' = Inr ()"
    and "as_revision s = as_revision s'" and ms: "set (as_memberships s) = set (as_memberships s')"
    and es: "set (as_ownership_edges s) = set (as_ownership_edges s')"
    and os: "canonical_override ` set (as_relation_overrides s) = canonical_override ` set (as_relation_overrides s')"
  shows "affiliation_snapshot_to_dict s = affiliation_snapshot_to_dict s'"
proof -
  have spec: "snapshot_spec s" "snapshot_spec s'" using ok by (simp_all add: snapshot_ok_iff)
  have "sort_key membership_sort_key (as_memberships s) = sort_key membership_sort_key (as_memberships s')"
  proof (rule sort_key_content [OF _ _ ms])
    have d: "distinct (map (\<lambda>m. (gm_entity_id m, gm_group_key m)) (as_memberships s))"
      using spec(1) by (simp add: snapshot_spec_def)
    then show "inj_on membership_sort_key (set (as_memberships s))"
      by (rule distinct_map_inj)
        (auto simp: membership_sort_key_def inj_eq [OF inj_group_kind_value] group_key.expand)
  qed (use spec in \<open>auto simp: snapshot_spec_def distinct_map\<close>)
  moreover have "sort_key (\<lambda>e. (oe_owner_id e, oe_owned_id e)) (as_ownership_edges s)
      = sort_key (\<lambda>e. (oe_owner_id e, oe_owned_id e)) (as_ownership_edges s')"
    using spec by (intro sort_key_content [OF _ _ es]) (auto simp: snapshot_spec_def inj_on_def)
  moreover have "map override_payload (sort_key override_sort_key (as_relation_overrides s))
      = map override_payload (sort_key override_sort_key (as_relation_overrides s'))"
  proof -
    have pay: "map override_payload (sort_key override_sort_key xs)
        = map override_payload (sort_key override_sort_key (map canonical_override xs))" for xs
      by (simp add: sort_key_map)
    have d: "distinct (map identity_key (map canonical_override (as_relation_overrides t)))" if "snapshot_spec t" for t
      using that by (simp add: snapshot_spec_def comp_def)
    then have d': "distinct (map canonical_override (as_relation_overrides t))" if "snapshot_spec t" for t
      using that unfolding distinct_map [of identity_key] by blast
    have "inj_on override_sort_key (set (map canonical_override (as_relation_overrides s)))"
      using d [OF spec(1)] by (rule distinct_map_inj)
        (auto simp: override_sort_key_def identity_key_def canonical_override_subjects_def Let_def split: if_splits)
    then have "sort_key override_sort_key (map canonical_override (as_relation_overrides s))
        = sort_key override_sort_key (map canonical_override (as_relation_overrides s'))"
      using d' [OF spec(1)] d' [OF spec(2)] os by (intro sort_key_content) simp_all
    then show ?thesis unfolding pay [of "as_relation_overrides s"] pay [of "as_relation_overrides s'"] by (rule arg_cong)
  qed
  ultimately show ?thesis using assms(3) by (simp add: affiliation_snapshot_to_dict_def)
qed

subsection \<open>The reader is sound\<close>

definition value_error :: "py_error \<Rightarrow> bool" where
  "value_error e \<longleftrightarrow> as_format_error e = AffiliationSnapshotFormatError (error_text e)"

lemma value_error_simps [simp]:
  "value_error (ValueError m)" "value_error (AffiliationConfigurationError m)"
  "value_error (AffiliationConflictError m)" "value_error (AffiliationSnapshotFormatError m)"
  by (simp_all add: value_error_def)

lemma raises_json_get: "key \<in> fst ` set d \<Longrightarrow> only_raises P (json_get d key)"
  using map_of_eq_None_iff [of d key] by (auto simp: only_raises_def json_get_def split: option.split)

lemma raises_readers [raises_intros]:
  "only_raises value_error (io_object raw p)" "only_raises value_error (io_array raw p)"
  "only_raises value_error (io_string raw p)" "only_raises value_error (io_enum val members p s)"
  "only_raises value_error (io_non_negative_integer raw p)" "only_raises value_error (exact_fields d ks p)"
  by (auto simp: io_object_def io_array_def io_string_def io_enum_def io_non_negative_integer_def exact_fields_def
      Let_def only_raises_def split: json.splits sum.splits if_splits)

lemma raises_unless_null [raises_intros]:
  "(\<And>v. only_raises P (f v)) \<Longrightarrow> only_raises P (unless_null f raw)"
  by (auto simp: unless_null_def intro: raises_intros split: json.split)

lemma raises_validators [raises_intros]:
  "only_raises value_error (group_key_ok k)" "only_raises value_error (group_membership_ok m)"
  "only_raises value_error (ownership_edge_ok e)" "only_raises value_error (relation_subject_ok s)"
  "only_raises value_error (relation_override_ok o')"
  by (auto simp: group_key_ok_def group_membership_ok_def ownership_edge_ok_def relation_subject_ok_def
      relation_override_ok_def intro!: raises_intros)

lemma raises_parse_group_key [raises_intros]: "only_raises value_error (parse_group_key raw p)"
  unfolding parse_group_key_def
  by (intro raises_intros raises_json_get) (simp_all add: result_simps)

lemma raises_parsers [raises_intros]:
  "only_raises value_error (parse_membership raw i)" "only_raises value_error (parse_ownership raw i)"
  "only_raises value_error (parse_subject raw p)"
  unfolding parse_membership_def parse_ownership_def parse_subject_def Let_def
  by (intro raises_intros raises_json_get; simp add: result_simps)+

lemma raises_boolean [raises_intros]:
  "only_raises value_error (case v of JBool b \<Rightarrow> Inr b | _ \<Rightarrow> Inl (AffiliationSnapshotFormatError m))"
  by (simp add: only_raises_def split: json.split)

lemma raises_parse_override [raises_intros]: "only_raises value_error (parse_override raw i)"
  unfolding parse_override_def Let_def
  by (intro raises_intros raises_json_get; simp add: result_simps)

lemma raises_validate_group_kinds [raises_intros]: "only_raises value_error (validate_group_kinds seen ms)"
  by (induction seen ms rule: validate_group_kinds.induct) (auto intro: raises_intros)

lemma raises_validate_owners [raises_intros]: "only_raises value_error (validate_owners m es)"
  by (induction m es rule: validate_owners.induct) (auto intro: raises_intros split: option.split)

lemma raises_walk_owners [raises_intros]: "only_raises value_error (walk_owners m V c)"
proof (induction m V c rule: walk_owners.induct)
  case (1 m V c)
  then show ?case by (subst walk_owners.simps) (auto intro: raises_intros split: option.split)
qed

lemma raises_validate_override_identities [raises_intros]:
  "only_raises value_error (validate_override_identities seen os)"
  by (induction seen os rule: validate_override_identities.induct) (auto intro: raises_intros split: option.split)

lemma raises_select_override [raises_intros]: "only_raises value_error (select_override os l r lm rm)"
  by (auto simp: select_override_def Let_def intro: raises_intros split: list.split)

lemma raises_snapshot_ok [raises_intros]: "only_raises value_error (affiliation_snapshot_ok s)"
  unfolding affiliation_snapshot_ok_def validate_ownership_cycles_def validate_known_entity_override_conflicts_def Let_def
  by (auto intro!: raises_intros)

lemma parse_group_key_ok: "parse_group_key raw p = Inr k \<Longrightarrow> group_key_ok k = Inr ()"
  by (auto simp: parse_group_key_def result_simps)

lemma unless_null_Inr: "unless_null f raw = Inr ox \<Longrightarrow> (\<And>v x. f v = Inr x \<Longrightarrow> P x) \<Longrightarrow> pred_option P ox"
  by (auto simp: unless_null_def result_simps split: json.splits)

lemma parse_membership_wf: "parse_membership raw i = Inr m \<Longrightarrow> membership_wf m"
  by (auto simp: parse_membership_def rbind_eq_Inr validated_Inr Let_def membership_wf_def dest: parse_group_key_ok)

lemma parse_ownership_ok: "parse_ownership raw i = Inr e \<Longrightarrow> ownership_edge_ok e = Inr ()"
  by (auto simp: parse_ownership_def result_simps Let_def)

lemma parse_subject_wf: "parse_subject raw p = Inr s \<Longrightarrow> subject_wf s"
  unfolding parse_subject_def rbind_eq_Inr validated_Inr subject_wf_def
  by (elim exE conjE) (auto dest: unless_null_Inr [where P = "\<lambda>k. group_key_ok k = Inr ()"] parse_group_key_ok)

lemma parse_override_wf: "parse_override raw i = Inr o' \<Longrightarrow> override_wf o'"
  by (auto simp: parse_override_def rbind_eq_Inr validated_Inr Let_def override_wf_def dest: parse_subject_wf)

lemma rmap_list_all: "rmap f xs = Inr ys \<Longrightarrow> (\<And>x y. f x = Inr y \<Longrightarrow> P y) \<Longrightarrow> list_all P ys"
  unfolding rmap_Inr_iff by (induction xs ys rule: list_all2_induct) auto

lemma as_format_error_value: "value_error e \<Longrightarrow> \<exists>m. as_format_error e = AffiliationSnapshotFormatError m"
  by (simp add: value_error_def)

lemma raises_format:
  "only_raises (\<lambda>e. \<exists>m. e = AffiliationSnapshotFormatError m) (io_object raw p)"
  "only_raises (\<lambda>e. \<exists>m. e = AffiliationSnapshotFormatError m) (io_array raw p)"
  "only_raises (\<lambda>e. \<exists>m. e = AffiliationSnapshotFormatError m) (io_non_negative_integer raw p)"
  "only_raises (\<lambda>e. \<exists>m. e = AffiliationSnapshotFormatError m) (exact_fields d ks p)"
  by (auto simp: io_object_def io_array_def io_non_negative_integer_def exact_fields_def
      Let_def only_raises_def split: json.splits if_splits)

lemma raises_guarded:
  assumes "only_raises value_error r"
  shows "only_raises (\<lambda>e. \<exists>m. e = AffiliationSnapshotFormatError m)
    (case r of Inl e \<Rightarrow> Inl (as_format_error e) | Inr s \<Rightarrow> Inr s)"
  using assms as_format_error_value by (auto simp: only_raises_def split: sum.splits)

lemma from_dict_raises:
  "only_raises (\<lambda>e. \<exists>m. e = AffiliationSnapshotFormatError m) (affiliation_snapshot_from_dict raw)"
  unfolding affiliation_snapshot_from_dict_def
  by (intro raises_guarded raises_format raises_intros raises_json_get)
    (auto simp: result_simps intro: raises_intros)

lemma from_dict_wf: "affiliation_snapshot_from_dict raw = Inr s \<Longrightarrow> snapshot_wf s"
  unfolding affiliation_snapshot_from_dict_def rbind_eq_Inr snapshot_wf_def
  by (elim exE conjE, split sum.splits)
    (auto simp: rbind_eq_Inr validated_Inr elim!: rmap_list_all
      intro: parse_membership_wf parse_ownership_ok parse_override_wf)

lemma unique_object_raises: "only_raises (\<lambda>e. \<exists>m. e = AffiliationSnapshotFormatError m) (unique_object acc kvs)"
  by (induction acc kvs rule: unique_object.induct) (auto intro: raises_intros)

lemma unique_objects_raises:
  shows "only_raises (\<lambda>e. \<exists>m. e = AffiliationSnapshotFormatError m) (unique_objects j)"
    and "only_raises (\<lambda>e. \<exists>m. e = AffiliationSnapshotFormatError m) (unique_list xs)"
    and "only_raises (\<lambda>e. \<exists>m. e = AffiliationSnapshotFormatError m) (unique_fields kvs)"
  by (induction j and xs and kvs rule: unique_objects_unique_list_unique_fields.induct)
    (auto intro!: raises_intros unique_object_raises)

subsection \<open>Properties\<close>

text \<open>C23: Dumping a well-formed snapshot and loading it gives back its canonical form, which is again
  well-formed and dumps to the same artifact, so that digests are stable.\<close>

theorem affiliation_roundtrip:
  assumes "snapshot_wf s"
  shows "load_affiliation_snapshot (dump_affiliation_snapshot s) = Inr (canonical_snapshot s)
    \<and> affiliation_snapshot_ok (canonical_snapshot s) = Inr ()
    \<and> dump_affiliation_snapshot (canonical_snapshot s) = dump_affiliation_snapshot s"
  using assms load_dump canonical_snapshot_ok to_dict_canonical
  by (simp add: snapshot_wf_def dump_affiliation_snapshot_def)

theorem affiliation_roundtrip_witness:
  "snapshot_wf pets_snapshot
   \<and> load_affiliation_snapshot (dump_affiliation_snapshot pets_snapshot) = Inr (canonical_snapshot pets_snapshot)"
proof -
  have "snapshot_wf pets_snapshot" unfolding snapshot_wf_def
    by (intro conjI pets_ok) (simp_all add: pets_snapshot_def membership_wf_def override_wf_def subject_wf_def
        group_membership_ok_def group_key_ok_def ownership_edge_ok_def relation_subject_ok_def for_group_def
        for_entity_def result_simps, simp_all add: nonblank_def py_space_def)
  with affiliation_roundtrip [OF this] show ?thesis by simp
qed

text \<open>The artifact depends only on what the snapshot says: two validated snapshots of the same revision
  with the same memberships, edges and overrides, in any order and with symmetric overrides written
  in either direction, dump to the same artifact.\<close>

theorem dump_content_determined:
  assumes "affiliation_snapshot_ok s = Inr ()" "affiliation_snapshot_ok s' = Inr ()"
    and "as_revision s = as_revision s'" "set (as_memberships s) = set (as_memberships s')"
    and "set (as_ownership_edges s) = set (as_ownership_edges s')"
    and "canonical_override ` set (as_relation_overrides s) = canonical_override ` set (as_relation_overrides s')"
  shows "dump_affiliation_snapshot s = dump_affiliation_snapshot s'"
  using dump_content [OF assms] by (simp add: dump_affiliation_snapshot_def)

definition pets_reordered :: affiliation_snapshot where
  "pets_reordered = \<lparr>as_revision = as_revision pets_snapshot,
     as_memberships = rev (as_memberships pets_snapshot),
     as_ownership_edges = rev (as_ownership_edges pets_snapshot),
     as_relation_overrides = [\<lparr>ro_left = for_entity ''bob'', ro_right = for_group (GroupKey GUILD ''g''),
                               ro_relation = ENEMY, ro_symmetric = True\<rparr>]\<rparr>"

theorem dump_content_determined_witness:
  "dump_affiliation_snapshot pets_reordered = dump_affiliation_snapshot pets_snapshot"
proof (rule dump_content_determined)
  show "affiliation_snapshot_ok pets_reordered = Inr ()" by code_simp
  show "affiliation_snapshot_ok pets_snapshot = Inr ()" by code_simp
  show "canonical_override ` set (as_relation_overrides pets_reordered)
      = canonical_override ` set (as_relation_overrides pets_snapshot)" by code_simp
qed (auto simp: pets_reordered_def)

text \<open>Loading is sound: whatever parsed JSON is loaded, the result is a snapshot that is valid all the way
  down, or an \<open>AffiliationSnapshotFormatError\<close>; no other exception escapes.\<close>

theorem load_sound:
  "case load_affiliation_snapshot raw of
     Inr s \<Rightarrow> snapshot_wf s
   | Inl e \<Rightarrow> (\<exists>m. e = AffiliationSnapshotFormatError m)"
proof -
  have "only_raises (\<lambda>e. \<exists>m. e = AffiliationSnapshotFormatError m) (load_affiliation_snapshot raw)"
    unfolding load_affiliation_snapshot_def by (intro raises_intros unique_objects_raises from_dict_raises)
  then show ?thesis
    using from_dict_wf by (auto simp: only_raises_def load_affiliation_snapshot_def rbind_eq_Inr split: sum.split)
qed

end
