(* ===== verification/Targeting.thy ===== *)
theory Targeting
  imports Affiliation_IO
begin

text \<open>
  Target selection over affiliation facts and spatial candidates (\<^verbatim>\<open>sim/targeting.py\<close>): the selector and
  its validation, the exclusion reasons of one candidate, and the resolver that orders, filters and
  caps the candidates.

  The distance of two positions is \<^verbatim>\<open>math.hypot\<close> of their binary64 coordinate differences. It is the
  argument \<open>hypot\<close>, \<open>None\<close> standing for an infinite result (the difference of two finite coordinates
  may overflow); that it is never negative is its documented behaviour.
\<close>

datatype alive_requirement = ANY_LIFE | ALIVE | DEAD

fun alive_requirement_value :: "alive_requirement \<Rightarrow> string" where
  "alive_requirement_value ANY_LIFE = ''any''"
| "alive_requirement_value ALIVE = ''alive''"
| "alive_requirement_value DEAD = ''dead''"

datatype visibility_requirement = ANY_VISIBILITY | VISIBLE

fun visibility_requirement_value :: "visibility_requirement \<Rightarrow> string" where
  "visibility_requirement_value ANY_VISIBILITY = ''any''"
| "visibility_requirement_value VISIBLE = ''visible''"

datatype target_order = ENTITY_ID | DISTANCE_THEN_ENTITY_ID

fun target_order_value :: "target_order \<Rightarrow> string" where
  "target_order_value ENTITY_ID = ''entity_id''"
| "target_order_value DISTANCE_THEN_ENTITY_ID = ''distance_then_entity_id''"

subsection \<open>Selectors\<close>

record target_selector_spec =
  ts_entity_kinds :: "entity_kind list"
  ts_alive_requirement :: alive_requirement
  ts_allowed_relations :: "relation list"
  require_same_party :: bool
  forbid_same_party :: bool
  require_same_guild :: bool
  forbid_same_guild :: bool
  require_same_nation :: bool
  forbid_same_nation :: bool
  require_same_scenario_side :: bool
  forbid_same_scenario_side :: bool
  require_opposing_scenario_side :: bool
  forbid_opposing_scenario_side :: bool
  require_actor_owns_target :: bool
  require_target_owns_actor :: bool
  require_same_owner :: bool
  forbid_same_owner :: bool
  require_same_ownership_family :: bool
  forbid_same_ownership_family :: bool
  ts_visibility_requirement :: visibility_requirement
  ts_minimum_range :: rat
  ts_maximum_range :: "rat option"
  ts_requires_line_of_sight :: bool
  ts_maximum_targets :: "int option"
  ts_order :: target_order

definition default_selector :: target_selector_spec where
  "default_selector =
     \<lparr>ts_entity_kinds = [], ts_alive_requirement = ALIVE, ts_allowed_relations = [],
      require_same_party = False, forbid_same_party = False,
      require_same_guild = False, forbid_same_guild = False,
      require_same_nation = False, forbid_same_nation = False,
      require_same_scenario_side = False, forbid_same_scenario_side = False,
      require_opposing_scenario_side = False, forbid_opposing_scenario_side = False,
      require_actor_owns_target = False, require_target_owns_actor = False,
      require_same_owner = False, forbid_same_owner = False,
      require_same_ownership_family = False, forbid_same_ownership_family = False,
      ts_visibility_requirement = VISIBLE, ts_minimum_range = 0, ts_maximum_range = None,
      ts_requires_line_of_sight = False, ts_maximum_targets = None, ts_order = ENTITY_ID\<rparr>"

definition paired_flags :: "target_selector_spec \<Rightarrow> (bool \<times> bool \<times> string) list" where
  "paired_flags s =
     [(require_same_party s, forbid_same_party s, ''same_party''),
      (require_same_guild s, forbid_same_guild s, ''same_guild''),
      (require_same_nation s, forbid_same_nation s, ''same_nation''),
      (require_same_scenario_side s, forbid_same_scenario_side s, ''same_scenario_side''),
      (require_opposing_scenario_side s, forbid_opposing_scenario_side s, ''opposing_scenario_side''),
      (require_same_owner s, forbid_same_owner s, ''same_owner''),
      (require_same_ownership_family s, forbid_same_ownership_family s, ''same_ownership_family'')]"

definition target_selector_spec_ok :: "target_selector_spec \<Rightarrow> unit result" where
  "target_selector_spec_ok s =
     rbind (checks
       [(\<not> distinct (ts_entity_kinds s), ValueError ''entity_kinds must not contain duplicates''),
        (\<not> distinct (ts_allowed_relations s), ValueError ''allowed_relations must not contain duplicates'')]) (\<lambda>_.
     rbind (riter (\<lambda>(required, forbidden, name). checks
       [(required \<and> forbidden, ValueError (name @ '' cannot be both required and forbidden''))]) (paired_flags s)) (\<lambda>_.
     checks
       [(require_same_scenario_side s \<and> require_opposing_scenario_side s,
           ValueError ''a target cannot require both the same and an opposing scenario side''),
        (require_actor_owns_target s \<and> require_target_owns_actor s, ValueError ''mutual ownership cannot be required''),
        (ts_minimum_range s < 0, ValueError ''minimum_range must not be negative''),
        (case ts_maximum_range s of None \<Rightarrow> False | Some m \<Rightarrow> m < ts_minimum_range s,
           ValueError ''maximum_range must be at least minimum_range''),
        (case ts_maximum_targets s of None \<Rightarrow> False | Some n \<Rightarrow> n < 1,
           ValueError ''maximum_targets must be a positive integer or null'')]))"

subsection \<open>Candidates, decisions, resolutions\<close>

record target_candidate =
  tc_entity_id :: string
  tc_kind :: entity_kind
  tc_position :: vector2
  tc_alive :: bool
  tc_visible_to_actor :: bool
  tc_line_of_sight :: bool

definition target_candidate_ok :: "target_candidate \<Rightarrow> unit result" where
  "target_candidate_ok c = py_identifier (tc_entity_id c) ''entity_id''"

record target_decision =
  td_candidate :: target_candidate
  td_accepted :: bool
  td_relation_facts :: relation_facts
  td_coarse_relation :: relation
  td_distance :: "rat option"
  td_exclusion_reasons :: "string list"

definition target_decision_ok :: "target_decision \<Rightarrow> unit result" where
  "target_decision_ok d =
     rbind (checks
       [(td_distance d = None, ValueError ''distance must be finite''),
        (case td_distance d of None \<Rightarrow> False | Some q \<Rightarrow> q < 0, ValueError ''distance must not be negative''),
        (\<not> distinct (td_exclusion_reasons d), ValueError ''exclusion_reasons must not contain duplicates'')]) (\<lambda>_.
     rbind (riter (\<lambda>r. py_identifier r ''exclusion reason'') (td_exclusion_reasons d)) (\<lambda>_.
     checks [(td_accepted d = (td_exclusion_reasons d \<noteq> []),
        ValueError ''accepted candidates must have no exclusion reasons'')]))"

definition td_entity_id :: "target_decision \<Rightarrow> string" where
  "td_entity_id d = tc_entity_id (td_candidate d)"

record target_resolution =
  tr_actor_id :: string
  tr_affiliation_revision :: int
  tr_decisions :: "target_decision list"

definition target_resolution_ok :: "target_resolution \<Rightarrow> unit result" where
  "target_resolution_ok r =
     rbind (py_identifier (tr_actor_id r) ''actor_id'') (\<lambda>_. checks
       [(tr_affiliation_revision r < 0, ValueError ''affiliation_revision must be a non-negative integer''),
        (\<not> distinct (map td_entity_id (tr_decisions r)), ValueError ''decisions must contain unique candidate entity ids'')])"

definition accepted :: "target_resolution \<Rightarrow> target_decision list" where
  "accepted r = filter td_accepted (tr_decisions r)"

definition accepted_entity_ids :: "target_resolution \<Rightarrow> string list" where
  "accepted_entity_ids r = map td_entity_id (accepted r)"

text \<open>\<open>sorted(Counter(...).items())\<close>.\<close>

definition rejection_counts :: "target_resolution \<Rightarrow> (string \<times> nat) list" where
  "rejection_counts r =
     (let reasons = concat (map td_exclusion_reasons (tr_decisions r))
      in map (\<lambda>k. (k, count_list reasons k)) (sort (remdups reasons)))"

subsection \<open>The resolver\<close>

definition append_fact_constraint ::
    "string list \<Rightarrow> bool \<Rightarrow> bool \<Rightarrow> bool \<Rightarrow> string \<Rightarrow> string \<Rightarrow> string list" where
  "append_fact_constraint reasons holds required forbidden missing_reason forbidden_reason =
     (let reasons = (if required \<and> \<not> holds then reasons @ [missing_reason] else reasons)
      in if forbidden \<and> holds then reasons @ [forbidden_reason] else reasons)"

definition append_reason :: "bool \<Rightarrow> string \<Rightarrow> string list \<Rightarrow> string list" where
  "append_reason excluded reason reasons = (if excluded then reasons @ [reason] else reasons)"

definition affiliation_reasons :: "target_selector_spec \<Rightarrow> relation_facts \<Rightarrow> string list \<Rightarrow> string list" where
  "affiliation_reasons s f reasons =
     (let r = append_fact_constraint reasons (rf_same_party f) (require_same_party s) (forbid_same_party s)
                ''not_same_party'' ''same_party_forbidden'';
          r = append_fact_constraint r (rf_same_guild f) (require_same_guild s) (forbid_same_guild s)
                ''not_same_guild'' ''same_guild_forbidden'';
          r = append_fact_constraint r (rf_same_nation f) (require_same_nation s) (forbid_same_nation s)
                ''not_same_nation'' ''same_nation_forbidden'';
          r = append_fact_constraint r (rf_same_scenario_side f) (require_same_scenario_side s)
                (forbid_same_scenario_side s) ''not_same_scenario_side'' ''same_scenario_side_forbidden'';
          r = append_fact_constraint r (rf_opposing_scenario_side f) (require_opposing_scenario_side s)
                (forbid_opposing_scenario_side s) ''not_opposing_scenario_side'' ''opposing_scenario_side_forbidden'';
          r = append_fact_constraint r (rf_same_owner f) (require_same_owner s) (forbid_same_owner s)
                ''not_same_owner'' ''same_owner_forbidden'';
          r = append_fact_constraint r (rf_same_ownership_family f) (require_same_ownership_family s)
                (forbid_same_ownership_family s) ''not_same_ownership_family'' ''same_ownership_family_forbidden'';
          r = append_reason (require_actor_owns_target s \<and> \<not> rf_left_owns_right f) ''actor_does_not_own_target'' r
      in append_reason (require_target_owns_actor s \<and> \<not> rf_right_owns_left f) ''target_does_not_own_actor'' r)"

text \<open>An infinite distance is below no minimum and outside every maximum.\<close>

definition exclusion_reasons ::
    "target_candidate \<Rightarrow> target_selector_spec \<Rightarrow> relation_facts \<Rightarrow> relation \<Rightarrow> rat option \<Rightarrow> string list" where
  "exclusion_reasons c s f coarse distance =
     (let r = append_reason (ts_entity_kinds s \<noteq> [] \<and> tc_kind c \<notin> set (ts_entity_kinds s))
                ''entity_kind_not_allowed'' [];
          r = (if ts_alive_requirement s = ALIVE \<and> \<not> tc_alive c then r @ [''target_not_alive'']
               else if ts_alive_requirement s = DEAD \<and> tc_alive c then r @ [''target_not_dead'']
               else r);
          r = affiliation_reasons s f r;
          r = append_reason (ts_allowed_relations s \<noteq> [] \<and> coarse \<notin> set (ts_allowed_relations s))
                ''relation_not_allowed'' r;
          r = append_reason (ts_visibility_requirement s = VISIBLE \<and> \<not> tc_visible_to_actor c) ''not_visible'' r;
          r = append_reason (case distance of None \<Rightarrow> False | Some d \<Rightarrow> d < ts_minimum_range s) ''below_minimum_range'' r;
          r = append_reason (case ts_maximum_range s of None \<Rightarrow> False
                | Some m \<Rightarrow> (case distance of None \<Rightarrow> True | Some d \<Rightarrow> m < d)) ''outside_maximum_range'' r
      in append_reason (ts_requires_line_of_sight s \<and> \<not> tc_line_of_sight c) ''line_of_sight_blocked'' r)"

text \<open>The sort key is \<open>(distance, entity_id)\<close> or \<open>(entity_id,)\<close>; an infinite distance comes last.\<close>

definition order_key ::
    "(vector2 \<Rightarrow> vector2 \<Rightarrow> rat option) \<Rightarrow> target_order \<Rightarrow> target_candidate \<Rightarrow> target_candidate
      \<Rightarrow> (bool \<times> rat) \<times> string" where
  "order_key hypot order actor c =
     ((if order = DISTANCE_THEN_ENTITY_ID
       then (case hypot (tc_position actor) (tc_position c) of None \<Rightarrow> (True, 0) | Some d \<Rightarrow> (False, d))
       else (False, 0)), tc_entity_id c)"

fun resolve_loop ::
    "(vector2 \<Rightarrow> vector2 \<Rightarrow> rat option) \<Rightarrow> (relation_facts \<Rightarrow> relation) \<Rightarrow> affiliation_snapshot
      \<Rightarrow> target_candidate \<Rightarrow> target_selector_spec \<Rightarrow> int \<Rightarrow> target_candidate list
      \<Rightarrow> target_decision list result option" where
  "resolve_loop hypot policy snapshot actor selector accepted_count [] = Some (Inr [])"
| "resolve_loop hypot policy snapshot actor selector accepted_count (c # cs) =
     (let distance = hypot (tc_position actor) (tc_position c) in
     case facts_between snapshot (tc_entity_id actor) (tc_entity_id c) of
       None \<Rightarrow> None
     | Some (Inl e) \<Rightarrow> Some (Inl e)
     | Some (Inr facts) \<Rightarrow>
         let coarse = policy facts;
             reasons = exclusion_reasons c selector facts coarse distance;
             capped = (reasons = [] \<and> (case ts_maximum_targets selector of None \<Rightarrow> False | Some n \<Rightarrow> n \<le> accepted_count));
             count' = (if reasons = [] \<and> \<not> capped then accepted_count + 1 else accepted_count);
             reasons' = (if capped then reasons @ [''target_cap_exceeded''] else reasons)
         in case validated target_decision_ok
               \<lparr>td_candidate = c, td_accepted = (reasons' = []), td_relation_facts = facts,
                td_coarse_relation = coarse, td_distance = distance, td_exclusion_reasons = reasons'\<rparr> of
              Inl e \<Rightarrow> Some (Inl e)
            | Inr d \<Rightarrow> map_option (\<lambda>r. rbind r (\<lambda>ds. Inr (d # ds)))
                (resolve_loop hypot policy snapshot actor selector count' cs))"

text \<open>\<open>None\<close> is a call that does not return.\<close>

definition resolve ::
    "(vector2 \<Rightarrow> vector2 \<Rightarrow> rat option) \<Rightarrow> (relation_facts \<Rightarrow> relation) \<Rightarrow> affiliation_snapshot
      \<Rightarrow> target_candidate \<Rightarrow> target_candidate list \<Rightarrow> target_selector_spec \<Rightarrow> target_resolution result option" where
  "resolve hypot policy snapshot actor candidates selector =
     (if \<not> distinct (map tc_entity_id candidates) then Some (Inl (ValueError ''candidate entity ids must be unique''))
      else map_option (\<lambda>r. rbind r (\<lambda>decisions. validated target_resolution_ok
             \<lparr>tr_actor_id = tc_entity_id actor, tr_affiliation_revision = as_revision snapshot, tr_decisions = decisions\<rparr>))
        (resolve_loop hypot policy snapshot actor selector 0
          (sort_key (order_key hypot (ts_order selector) actor) candidates)))"

subsection \<open>Exclusion reasons\<close>

text \<open>The constraints of a selector in the order they are tested: whether each is violated, and its name.\<close>

definition reason_table ::
    "target_candidate \<Rightarrow> target_selector_spec \<Rightarrow> relation_facts \<Rightarrow> relation \<Rightarrow> rat option \<Rightarrow> (bool \<times> string) list" where
  "reason_table c s f coarse distance =
     [(ts_entity_kinds s \<noteq> [] \<and> tc_kind c \<notin> set (ts_entity_kinds s), ''entity_kind_not_allowed''),
      (ts_alive_requirement s = ALIVE \<and> \<not> tc_alive c, ''target_not_alive''),
      (ts_alive_requirement s = DEAD \<and> tc_alive c, ''target_not_dead''),
      (require_same_party s \<and> \<not> rf_same_party f, ''not_same_party''),
      (forbid_same_party s \<and> rf_same_party f, ''same_party_forbidden''),
      (require_same_guild s \<and> \<not> rf_same_guild f, ''not_same_guild''),
      (forbid_same_guild s \<and> rf_same_guild f, ''same_guild_forbidden''),
      (require_same_nation s \<and> \<not> rf_same_nation f, ''not_same_nation''),
      (forbid_same_nation s \<and> rf_same_nation f, ''same_nation_forbidden''),
      (require_same_scenario_side s \<and> \<not> rf_same_scenario_side f, ''not_same_scenario_side''),
      (forbid_same_scenario_side s \<and> rf_same_scenario_side f, ''same_scenario_side_forbidden''),
      (require_opposing_scenario_side s \<and> \<not> rf_opposing_scenario_side f, ''not_opposing_scenario_side''),
      (forbid_opposing_scenario_side s \<and> rf_opposing_scenario_side f, ''opposing_scenario_side_forbidden''),
      (require_same_owner s \<and> \<not> rf_same_owner f, ''not_same_owner''),
      (forbid_same_owner s \<and> rf_same_owner f, ''same_owner_forbidden''),
      (require_same_ownership_family s \<and> \<not> rf_same_ownership_family f, ''not_same_ownership_family''),
      (forbid_same_ownership_family s \<and> rf_same_ownership_family f, ''same_ownership_family_forbidden''),
      (require_actor_owns_target s \<and> \<not> rf_left_owns_right f, ''actor_does_not_own_target''),
      (require_target_owns_actor s \<and> \<not> rf_right_owns_left f, ''target_does_not_own_actor''),
      (ts_allowed_relations s \<noteq> [] \<and> coarse \<notin> set (ts_allowed_relations s), ''relation_not_allowed''),
      (ts_visibility_requirement s = VISIBLE \<and> \<not> tc_visible_to_actor c, ''not_visible''),
      (case distance of None \<Rightarrow> False | Some d \<Rightarrow> d < ts_minimum_range s, ''below_minimum_range''),
      (case ts_maximum_range s of None \<Rightarrow> False
         | Some m \<Rightarrow> (case distance of None \<Rightarrow> True | Some d \<Rightarrow> m < d), ''outside_maximum_range''),
      (ts_requires_line_of_sight s \<and> \<not> tc_line_of_sight c, ''line_of_sight_blocked'')]"

definition named :: "bool \<Rightarrow> string \<Rightarrow> string list" where
  "named b x = (if b then [x] else [])"

lemma named_table: "map snd (filter fst ((b, x) # t)) = named b x @ map snd (filter fst t)"
  by (simp add: named_def)

lemma append_reason_named: "append_reason b x r = r @ named b x"
  by (simp add: append_reason_def named_def)

lemma append_fact_named:
  "append_fact_constraint r h req forb x y = r @ named (req \<and> \<not> h) x @ named (forb \<and> h) y"
  by (simp add: append_fact_constraint_def named_def)

lemma alive_named:
  "(if req = ALIVE \<and> \<not> alive then r @ [x] else if req = DEAD \<and> alive then r @ [y] else r)
   = r @ named (req = ALIVE \<and> \<not> alive) x @ named (req = DEAD \<and> alive) y"
  by (simp add: named_def)

lemma exclusion_reasons_table:
  "exclusion_reasons c s f coarse distance = map snd (filter fst (reason_table c s f coarse distance))"
  unfolding reason_table_def named_table exclusion_reasons_def affiliation_reasons_def Let_def
    append_reason_named append_fact_named alive_named
  by (simp only: append_assoc append_Nil append_Nil2 list.map filter.simps)

lemma reason_names: "map snd (reason_table c s f coarse distance) =
  [''entity_kind_not_allowed'', ''target_not_alive'', ''target_not_dead'', ''not_same_party'', ''same_party_forbidden'',
   ''not_same_guild'', ''same_guild_forbidden'', ''not_same_nation'', ''same_nation_forbidden'',
   ''not_same_scenario_side'', ''same_scenario_side_forbidden'', ''not_opposing_scenario_side'',
   ''opposing_scenario_side_forbidden'', ''not_same_owner'', ''same_owner_forbidden'', ''not_same_ownership_family'',
   ''same_ownership_family_forbidden'', ''actor_does_not_own_target'', ''target_does_not_own_actor'',
   ''relation_not_allowed'', ''not_visible'', ''below_minimum_range'', ''outside_maximum_range'', ''line_of_sight_blocked'']"
  by (simp add: reason_table_def)

lemma distinct_reasons: "distinct (exclusion_reasons c s f coarse distance)"
proof -
  have "distinct (map snd (reason_table c s f coarse distance))" unfolding reason_names by code_simp
  then show ?thesis unfolding exclusion_reasons_table by (rule distinct_map_filter)
qed

lemma reasons_subset: "set (exclusion_reasons c s f coarse distance) \<subseteq> set (map snd (reason_table c s f coarse distance))"
  unfolding exclusion_reasons_table by auto

lemma nonblank_reasons: "r \<in> set (exclusion_reasons c s f coarse distance) \<Longrightarrow> nonblank r"
proof -
  have "list_all nonblank (map snd (reason_table c s f coarse distance))" unfolding reason_names by code_simp
  then show "r \<in> set (exclusion_reasons c s f coarse distance) \<Longrightarrow> nonblank r"
    unfolding list_all_iff using reasons_subset [of c s f coarse distance] by blast
qed

lemma cap_not_a_reason: "''target_cap_exceeded'' \<notin> set (exclusion_reasons c s f coarse distance)"
proof -
  have "''target_cap_exceeded'' \<notin> set (map snd (reason_table c s f coarse distance))" unfolding reason_names by code_simp
  then show ?thesis using reasons_subset by blast
qed

subsection \<open>The loop of the resolver\<close>

definition eligible ::
    "(vector2 \<Rightarrow> vector2 \<Rightarrow> rat option) \<Rightarrow> (relation_facts \<Rightarrow> relation) \<Rightarrow> affiliation_snapshot
      \<Rightarrow> target_candidate \<Rightarrow> target_selector_spec \<Rightarrow> target_candidate \<Rightarrow> bool" where
  "eligible hypot policy snapshot actor selector c \<longleftrightarrow>
     (case facts_between snapshot (tc_entity_id actor) (tc_entity_id c) of
        Some (Inr f) \<Rightarrow> list_all (\<lambda>(violated, _). \<not> violated)
          (reason_table c selector f (policy f) (hypot (tc_position actor) (tc_position c)))
      | _ \<Rightarrow> False)"

lemma no_reasons_iff:
  "exclusion_reasons c s f coarse distance = [] \<longleftrightarrow> list_all (\<lambda>(violated, _). \<not> violated) (reason_table c s f coarse distance)"
  by (auto simp: exclusion_reasons_table filter_empty_conv list_all_iff)

definition measurable ::
    "(vector2 \<Rightarrow> vector2 \<Rightarrow> rat option) \<Rightarrow> affiliation_snapshot \<Rightarrow> target_candidate \<Rightarrow> target_candidate \<Rightarrow> bool" where
  "measurable hypot snapshot actor c \<longleftrightarrow>
     (\<exists>f d. facts_between snapshot (tc_entity_id actor) (tc_entity_id c) = Some (Inr f)
        \<and> hypot (tc_position actor) (tc_position c) = Some d \<and> 0 \<le> d)"

definition cap :: "target_selector_spec \<Rightarrow> int \<Rightarrow> 'a list \<Rightarrow> 'a list" where
  "cap selector used xs = (case ts_maximum_targets selector of None \<Rightarrow> xs | Some n \<Rightarrow> take (nat (n - used)) xs)"

lemma decision_ok:
  assumes "0 \<le> q" "rs = exclusion_reasons c s f co (Some q)
      \<or> (exclusion_reasons c s f co (Some q) = [] \<and> rs = [''target_cap_exceeded''])"
  shows "target_decision_ok \<lparr>td_candidate = c, td_accepted = (rs = []), td_relation_facts = f,
     td_coarse_relation = co, td_distance = Some q, td_exclusion_reasons = rs\<rparr> = Inr ()"
proof -
  have "distinct rs" using assms(2) distinct_reasons by auto
  moreover have "nonblank ''target_cap_exceeded''" by code_simp
  then have "nonblank r" if "r \<in> set rs" for r using that assms(2) nonblank_reasons by auto
  ultimately show ?thesis using assms(1) by (simp add: target_decision_ok_def result_simps)
qed

lemma resolve_loop_spec:
  assumes "\<forall>c \<in> set cs. measurable hypot snapshot actor c"
  shows "\<exists>ds. resolve_loop hypot policy snapshot actor selector used cs = Some (Inr ds)
    \<and> map td_candidate ds = cs
    \<and> map td_candidate (filter td_accepted ds) = cap selector used (filter (eligible hypot policy snapshot actor selector) cs)
    \<and> list_all (\<lambda>d. target_decision_ok d = Inr ()) ds"
  using assms
proof (induction cs arbitrary: used)
  case Nil
  then show ?case by (simp add: cap_def split: option.split)
next
  case (Cons c cs)
  obtain f q where f: "facts_between snapshot (tc_entity_id actor) (tc_entity_id c) = Some (Inr f)"
      and q: "hypot (tc_position actor) (tc_position c) = Some q" "0 \<le> q"
    using Cons.prems by (auto simp: measurable_def)
  define rs where "rs = exclusion_reasons c selector f (policy f) (Some q)"
  define capped where "capped = (rs = [] \<and> (case ts_maximum_targets selector of None \<Rightarrow> False | Some n \<Rightarrow> n \<le> used))"
  define used' where "used' = (if rs = [] \<and> \<not> capped then used + 1 else used)"
  define rs' where "rs' = (if capped then rs @ [''target_cap_exceeded''] else rs)"
  define d where "d = \<lparr>td_candidate = c, td_accepted = (rs' = []), td_relation_facts = f,
     td_coarse_relation = policy f, td_distance = Some q, td_exclusion_reasons = rs'\<rparr>"
  have el: "eligible hypot policy snapshot actor selector c \<longleftrightarrow> rs = []"
    by (simp add: eligible_def f q rs_def no_reasons_iff)
  have ok: "target_decision_ok d = Inr ()"
    unfolding d_def using q(2) by (rule decision_ok) (auto simp: rs'_def rs_def capped_def)
  obtain ds where ds: "resolve_loop hypot policy snapshot actor selector used' cs = Some (Inr ds)"
      "map td_candidate ds = cs" "list_all (\<lambda>d. target_decision_ok d = Inr ()) ds"
      "map td_candidate (filter td_accepted ds) = cap selector used' (filter (eligible hypot policy snapshot actor selector) cs)"
    using Cons.IH [of used'] Cons.prems by auto
  have step: "resolve_loop hypot policy snapshot actor selector used (c # cs) = Some (Inr (d # ds))"
    unfolding resolve_loop.simps Let_def f q(1) option.case sum.case rs_def [symmetric] capped_def [symmetric]
      used'_def [symmetric] rs'_def [symmetric] d_def [symmetric] validated_def ok ds(1) by simp
  have "map td_candidate (filter td_accepted (d # ds))
      = cap selector used (filter (eligible hypot policy snapshot actor selector) (c # cs))"
  proof (cases "rs = [] \<and> \<not> capped")
    case True
    then have "used' = used + 1" "rs' = []" by (simp_all add: used'_def rs'_def)
    moreover have "nat (n - used) = Suc (nat (n - (used + 1)))" if "ts_maximum_targets selector = Some n" for n
    proof -
      have "used < n" using True that by (auto simp: capped_def)
      then show ?thesis by linarith
    qed
    ultimately show ?thesis using ds(4) True el by (simp add: d_def cap_def split: option.splits)
  next
    case False
    then have "used' = used" "rs' \<noteq> []" by (auto simp: used'_def rs'_def)
    moreover have "nat (n - used) = 0" if "rs = []" "ts_maximum_targets selector = Some n" for n
      using False that by (simp add: capped_def)
    moreover have "ts_maximum_targets selector \<noteq> None" if "rs = []" using False that by (auto simp: capped_def split: option.splits)
    ultimately show ?thesis using ds(4) el by (auto simp: d_def cap_def split: option.splits)
  qed
  then show ?case using step ok ds(2,3) by (intro exI [of _ "d # ds"]) (simp add: d_def)
qed

lemma resolve_spec:
  assumes "distinct (map tc_entity_id candidates)" "\<forall>c \<in> set candidates. measurable hypot snapshot actor c"
    and "nonblank (tc_entity_id actor)" "0 \<le> as_revision snapshot"
  shows "\<exists>r. resolve hypot policy snapshot actor candidates selector = Some (Inr r)
    \<and> target_resolution_ok r = Inr () \<and> list_all (\<lambda>d. target_decision_ok d = Inr ()) (tr_decisions r)
    \<and> tr_actor_id r = tc_entity_id actor \<and> tr_affiliation_revision r = as_revision snapshot
    \<and> map td_candidate (tr_decisions r) = sort_key (order_key hypot (ts_order selector) actor) candidates
    \<and> map td_candidate (accepted r) = cap selector 0 (filter (eligible hypot policy snapshot actor selector)
         (sort_key (order_key hypot (ts_order selector) actor) candidates))"
proof -
  let ?cs = "sort_key (order_key hypot (ts_order selector) actor) candidates"
  from resolve_loop_spec [of ?cs hypot snapshot actor policy selector 0] assms(2) obtain ds where
    ds: "resolve_loop hypot policy snapshot actor selector 0 ?cs = Some (Inr ds)" "map td_candidate ds = ?cs"
      "map td_candidate (filter td_accepted ds) = cap selector 0 (filter (eligible hypot policy snapshot actor selector) ?cs)"
      "list_all (\<lambda>d. target_decision_ok d = Inr ()) ds" by auto
  have "map td_entity_id ds = map tc_entity_id ?cs"
    unfolding ds(2) [symmetric] by (simp add: td_entity_id_def)
  then have "distinct (map td_entity_id ds)" using assms(1) by (simp add: distinct_map_sort_key)
  then have "target_resolution_ok \<lparr>tr_actor_id = tc_entity_id actor, tr_affiliation_revision = as_revision snapshot,
      tr_decisions = ds\<rparr> = Inr ()"
    using assms(3,4) by (simp add: target_resolution_ok_def result_simps)
  then show ?thesis using ds assms(1) by (auto simp: resolve_def validated_def accepted_def)
qed


lemma resolve_order_irrelevant:
  assumes "mset candidates = mset candidates'"
  shows "resolve hypot policy snapshot actor candidates selector = resolve hypot policy snapshot actor candidates' selector"
proof (cases "distinct (map tc_entity_id candidates)")
  case True
  have d': "distinct (map tc_entity_id candidates')"
    using True assms by (metis mset_map mset_eq_imp_distinct_iff)
  have "sort_key (order_key hypot (ts_order selector) actor) candidates
      = sort_key (order_key hypot (ts_order selector) actor) candidates'"
  proof (rule sort_key_content)
    show "inj_on (order_key hypot (ts_order selector) actor) (set candidates)"
      using True by (rule distinct_map_inj) (simp add: order_key_def)
  qed (use True d' assms in \<open>auto simp: distinct_map dest: mset_eq_setD\<close>)
  then show ?thesis using True d' by (simp add: resolve_def)
next
  case False
  moreover have "\<not> distinct (map tc_entity_id candidates')"
    using False assms by (metis mset_map mset_eq_imp_distinct_iff)
  ultimately show ?thesis by (simp add: resolve_def)
qed

lemma count_list_concat:
  "list_all distinct xss \<Longrightarrow> count_list (concat xss) k = length (filter (\<lambda>xs. k \<in> set xs) xss)"
proof (induction xss)
  case (Cons xs xss)
  have "count_list xs k = (if k \<in> set xs then 1 else 0)" if "distinct xs" for xs
    using that by (induction xs) auto
  with Cons show ?case by simp
qed simp

lemma decision_reasons_distinct: "target_decision_ok d = Inr () \<Longrightarrow> distinct (td_exclusion_reasons d)"
  by (cases "td_distance d") (auto simp: target_decision_ok_def rbind_eq_Inr split: if_splits)

lemma rejection_counts_spec:
  assumes "list_all (\<lambda>d. target_decision_ok d = Inr ()) (tr_decisions r)"
  shows "sorted (map fst (rejection_counts r)) \<and> distinct (map fst (rejection_counts r))
    \<and> (\<forall>k n. (k, n) \<in> set (rejection_counts r) \<longleftrightarrow>
        0 < n \<and> n = length (filter (\<lambda>d. k \<in> set (td_exclusion_reasons d)) (tr_decisions r)))"
proof -
  let ?rs = "map td_exclusion_reasons (tr_decisions r)"
  have "list_all distinct ?rs"
    using assms decision_reasons_distinct by (auto simp: list_all_iff)
  then have c: "count_list (concat ?rs) k = length (filter (\<lambda>d. k \<in> set (td_exclusion_reasons d)) (tr_decisions r))" for k
    by (simp add: count_list_concat filter_map comp_def)
  have "0 < count_list (concat ?rs) k \<longleftrightarrow> k \<in> set (concat ?rs)" for k
    using count_list_0_iff [of "concat ?rs" k] by (metis not_gr_zero)
  then show ?thesis unfolding rejection_counts_def Let_def c [symmetric] by (auto simp: comp_def)
qed

subsection \<open>Properties\<close>

text \<open>C18: Resolving never raises for a validated snapshot, known distinct candidates and finite distances. The
  decisions cover every candidate exactly once in the selector's order, each decision is well-formed
  (accepted exactly when it has no exclusion reason), and the accepted candidates are the first ones,
  up to the selector's cap, that violate none of its constraints.\<close>

theorem resolve_selects:
  assumes "affiliation_snapshot_ok snapshot = Inr ()"
    and "\<forall>o' \<in> set (as_relation_overrides snapshot). relation_override_ok o' = Inr ()"
    and "\<forall>c \<in> set (actor # candidates). nonblank (tc_entity_id c) \<and> tc_entity_id c \<in> set (entity_ids snapshot)"
    and "distinct (map tc_entity_id candidates)"
    and "\<forall>c \<in> set candidates. \<exists>d. hypot (tc_position actor) (tc_position c) = Some d \<and> 0 \<le> d"
  shows "\<exists>r. resolve hypot policy snapshot actor candidates selector = Some (Inr r)
    \<and> (\<forall>d \<in> set (tr_decisions r). target_decision_ok d = Inr ())
    \<and> map td_candidate (tr_decisions r) = sort_key (order_key hypot (ts_order selector) actor) candidates
    \<and> map td_candidate (accepted r) =
        (let chosen = filter (eligible hypot policy snapshot actor selector)
                        (sort_key (order_key hypot (ts_order selector) actor) candidates)
         in case ts_maximum_targets selector of None \<Rightarrow> chosen | Some n \<Rightarrow> take (nat n) chosen)"
proof -
  have "overrides_ok snapshot" using assms(2) by (simp add: overrides_ok_def list_all_iff)
  then have "measurable hypot snapshot actor c" if "c \<in> set candidates" for c
    using facts_between_known [OF assms(1) _, of "tc_entity_id actor" "tc_entity_id c"] assms(3,5) that
    unfolding measurable_def by fastforce
  moreover have "0 \<le> as_revision snapshot"
    using assms(1) by (simp add: snapshot_ok_iff snapshot_spec_def)
  ultimately obtain r where "resolve hypot policy snapshot actor candidates selector = Some (Inr r)"
      "list_all (\<lambda>d. target_decision_ok d = Inr ()) (tr_decisions r)"
      "map td_candidate (tr_decisions r) = sort_key (order_key hypot (ts_order selector) actor) candidates"
      "map td_candidate (accepted r) = cap selector 0 (filter (eligible hypot policy snapshot actor selector)
         (sort_key (order_key hypot (ts_order selector) actor) candidates))"
    using resolve_spec [OF assms(4), of hypot snapshot actor policy selector] assms(3) by auto
  then show ?thesis unfolding list_all_iff cap_def Let_def diff_0_right by (intro exI [of _ r] conjI)
qed

definition hypot_of_examples :: "vector2 \<Rightarrow> vector2 \<Rightarrow> rat option" where
  "hypot_of_examples p q = Some \<bar>vx p - vx q\<bar>"

definition example_candidate :: "string \<Rightarrow> rat \<Rightarrow> target_candidate" where
  "example_candidate i x = \<lparr>tc_entity_id = i, tc_kind = ACTOR, tc_position = \<lparr>vx = x, vy = 0\<rparr>, tc_alive = True,
     tc_visible_to_actor = True, tc_line_of_sight = True\<rparr>"

theorem resolve_selects_witness:
  "\<exists>r. resolve hypot_of_examples (policy_coarse_relation default_policy) pets_snapshot (example_candidate ''ann'' 0)
        [example_candidate ''bob'' 5, example_candidate ''imp'' 3]
        (default_selector\<lparr>ts_order := DISTANCE_THEN_ENTITY_ID, ts_maximum_targets := Some 1\<rparr>) = Some (Inr r)
     \<and> map td_candidate (tr_decisions r) = [example_candidate ''imp'' 3, example_candidate ''bob'' 5]"
  (is "\<exists>r. resolve ?h ?p ?s ?a ?cs ?sel = _ \<and> _")
proof -
  have sorted: "sort_key (order_key ?h DISTANCE_THEN_ENTITY_ID ?a) ?cs = [example_candidate ''imp'' 3, example_candidate ''bob'' 5]"
    by (simp add: order_key_def hypot_of_examples_def example_candidate_def)
  have "\<exists>r. resolve ?h ?p ?s ?a ?cs ?sel = Some (Inr r)
    \<and> (\<forall>d \<in> set (tr_decisions r). target_decision_ok d = Inr ())
    \<and> map td_candidate (tr_decisions r) = sort_key (order_key ?h (ts_order ?sel) ?a) ?cs
    \<and> map td_candidate (accepted r) =
        (let chosen = filter (eligible ?h ?p ?s ?a ?sel) (sort_key (order_key ?h (ts_order ?sel) ?a) ?cs)
         in case ts_maximum_targets ?sel of None \<Rightarrow> chosen | Some n \<Rightarrow> take (nat n) chosen)"
  proof (rule resolve_selects)
    show "affiliation_snapshot_ok ?s = Inr ()" by code_simp
    show "\<forall>o' \<in> set (as_relation_overrides ?s). relation_override_ok o' = Inr ()" by code_simp
    show "\<forall>c \<in> set (?a # ?cs). nonblank (tc_entity_id c) \<and> tc_entity_id c \<in> set (entity_ids ?s)" by code_simp
    show "distinct (map tc_entity_id ?cs)" by code_simp
  qed (simp add: hypot_of_examples_def)
  then show ?thesis using sorted by auto
qed

text \<open>The resolution does not depend on the order in which the candidates are given: permuted candidates
  give the same decisions, the same error, or no result alike.\<close>

theorem resolve_permutation:
  assumes "mset candidates = mset candidates'"
  shows "resolve hypot policy snapshot actor candidates selector = resolve hypot policy snapshot actor candidates' selector"
  using assms by (rule resolve_order_irrelevant)

theorem resolve_permutation_witness:
  "resolve hypot_of_examples (policy_coarse_relation default_policy) pets_snapshot (example_candidate ''ann'' 0)
     [example_candidate ''bob'' 5, example_candidate ''imp'' 3] default_selector
   = resolve hypot_of_examples (policy_coarse_relation default_policy) pets_snapshot (example_candidate ''ann'' 0)
     [example_candidate ''imp'' 3, example_candidate ''bob'' 5] default_selector"
  using resolve_permutation [of "[example_candidate ''bob'' 5, example_candidate ''imp'' 3]"
      "[example_candidate ''imp'' 3, example_candidate ''bob'' 5]"] by simp

text \<open>The rejection counts list every reason that excluded somebody, once and in order, with the number of
  decisions it excluded.\<close>

lemma rejection_counts_exact:
  assumes "\<forall>d \<in> set (tr_decisions r). target_decision_ok d = Inr ()"
  shows "sorted (map fst (rejection_counts r)) \<and> distinct (map fst (rejection_counts r))
    \<and> (\<forall>k n. (k, n) \<in> set (rejection_counts r) \<longleftrightarrow>
        0 < n \<and> n = length (filter (\<lambda>d. k \<in> set (td_exclusion_reasons d)) (tr_decisions r)))"
  using assms by (intro rejection_counts_spec) (simp add: list_all_iff)

definition example_rejection :: "string \<Rightarrow> string list \<Rightarrow> target_decision" where
  "example_rejection i reasons =
     \<lparr>td_candidate = example_candidate i 1, td_accepted = (reasons = []),
      td_relation_facts = build_facts pets_snapshot ''ann'' i None [] [], td_coarse_relation = NEUTRAL,
      td_distance = Some 1, td_exclusion_reasons = reasons\<rparr>"

theorem rejection_counts_exact_witness:
  "distinct (map fst (rejection_counts
     \<lparr>tr_actor_id = ''ann'', tr_affiliation_revision = 3,
      tr_decisions = [example_rejection ''a'' [''not_visible''], example_rejection ''b'' [''not_visible'', ''target_not_alive'']]\<rparr>))"
proof -
  have "\<forall>d \<in> set [example_rejection ''a'' [''not_visible''], example_rejection ''b'' [''not_visible'', ''target_not_alive'']].
      target_decision_ok d = Inr ()" by code_simp
  then show ?thesis
    using rejection_counts_exact [of "\<lparr>tr_actor_id = ''ann'', tr_affiliation_revision = 3,
      tr_decisions = [example_rejection ''a'' [''not_visible''], example_rejection ''b'' [''not_visible'', ''target_not_alive'']]\<rparr>"]
    by simp
qed

end
