(* ===== verification/Struct_Pack.thy ===== *)
theory Struct_Pack
  imports Py_Base
begin

text \<open>
  The part of Python's \<^verbatim>\<open>struct\<close> module the wire formats use: little-endian layouts without
  padding, of unsigned integers of a fixed number of bytes (\<^verbatim>\<open>H\<close>, \<^verbatim>\<open>I\<close>, \<^verbatim>\<open>Q\<close>) and of byte strings of a
  fixed length (\<^verbatim>\<open>16s\<close>). A layout is a list of fields; \<open>pack\<close> and \<open>unpack\<close> are inverse on the
  values of a layout and on the byte strings of its size.
\<close>

type_synonym byte = "8 word"
type_synonym bytes = "byte list"

datatype field = U nat | S nat

datatype wire_value = WInt int | WBytes bytes

fun wint :: "wire_value \<Rightarrow> int" where
  "wint (WInt v) = v"
| "wint (WBytes b) = 0"

fun wbytes :: "wire_value \<Rightarrow> bytes" where
  "wbytes (WInt v) = []"
| "wbytes (WBytes b) = b"

fun le_bytes :: "nat \<Rightarrow> int \<Rightarrow> bytes" where
  "le_bytes 0 v = []"
| "le_bytes (Suc n) v = word_of_int v # le_bytes n (v div 256)"

fun le_int :: "bytes \<Rightarrow> int" where
  "le_int [] = 0"
| "le_int (b # bs) = uint b + 256 * le_int bs"

fun field_size :: "field \<Rightarrow> nat" where
  "field_size (U n) = n"
| "field_size (S n) = n"

definition layout_size :: "field list \<Rightarrow> nat" where
  "layout_size fmt = sum_list (map field_size fmt)"

text \<open>A byte string shorter than its field is padded with zero bytes, a longer one is cut.\<close>

fun pack_field :: "field \<Rightarrow> wire_value \<Rightarrow> bytes result" where
  "pack_field (U n) (WInt v) =
     (if 0 \<le> v \<and> v < 256 ^ n then Inr (le_bytes n v) else Inl (StructError ''argument out of range''))"
| "pack_field (S n) (WBytes b) = Inr (take n (b @ replicate (n - length b) 0))"
| "pack_field f v = Inl (StructError ''argument of the wrong type'')"

fun pack :: "field list \<Rightarrow> wire_value list \<Rightarrow> bytes result" where
  "pack [] [] = Inr []"
| "pack (f # fs) (v # vs) = rbind (pack_field f v) (\<lambda>b. rbind (pack fs vs) (\<lambda>bs. Inr (b @ bs)))"
| "pack fs vs = Inl (StructError ''wrong number of items'')"

fun unpack_field :: "field \<Rightarrow> bytes \<Rightarrow> wire_value" where
  "unpack_field (U n) b = WInt (le_int b)"
| "unpack_field (S n) b = WBytes b"

fun unpack_fields :: "field list \<Rightarrow> bytes \<Rightarrow> wire_value list" where
  "unpack_fields [] bs = []"
| "unpack_fields (f # fs) bs =
     unpack_field f (take (field_size f) bs) # unpack_fields fs (drop (field_size f) bs)"

definition unpack :: "field list \<Rightarrow> bytes \<Rightarrow> wire_value list result" where
  "unpack fmt bs =
     (if length bs = layout_size fmt then Inr (unpack_fields fmt bs)
      else Inl (StructError ''buffer of the wrong size''))"

definition any_byte :: "bytes \<Rightarrow> bool" where
  "any_byte bs \<longleftrightarrow> list_ex (\<lambda>b. b \<noteq> 0) bs"

definition zero_bytes :: "nat \<Rightarrow> bytes" where
  "zero_bytes n = replicate n 0"

subsection \<open>Little-endian integers\<close>

lemma length_le_bytes [simp]: "length (le_bytes n v) = n"
  by (induction n v rule: le_bytes.induct) simp_all

lemma uint_byte_of_int [simp]: "uint (word_of_int v :: byte) = v mod 256"
  by (simp add: uint_word_of_int)

lemma le_int_le_bytes: "0 \<le> v \<Longrightarrow> v < 256 ^ n \<Longrightarrow> le_int (le_bytes n v) = v"
proof (induction n v rule: le_bytes.induct)
  case (2 n v)
  have "v div 256 < 256 ^ n" using "2.prems" by (simp add: div_less_iff_less_mult mult.commute) 
  then show ?case using 2 by simp
qed simp

lemma le_int_nonneg: "0 \<le> le_int bs"
  by (induction bs) simp_all

lemma uint_byte_less: "uint (b :: byte) < 256"
  using uint_lt2p [of b] by simp

lemma le_int_less: "le_int bs < 256 ^ length bs"
proof (induction bs)
  case (Cons b bs)
  then have "le_int bs \<le> 256 ^ length bs - 1" by simp
  then show ?case using uint_byte_less [of b] by simp
qed simp

lemma le_bytes_le_int: "le_bytes (length bs) (le_int bs) = bs"
proof (induction bs)
  case (Cons b bs)
  have "(uint b + 256 * le_int bs) div 256 = le_int bs" using uint_byte_less [of b] by simp
  moreover have "word_of_int (uint b + 256 * le_int bs) = b"
  proof -
    have "uint (word_of_int (uint b + 256 * le_int bs) :: byte) = (uint b + 256 * le_int bs) mod 256"
      by (rule uint_byte_of_int)
    also have "\<dots> = uint b" using uint_byte_less [of b] by simp
    finally show ?thesis by (simp only: word_uint_eq_iff)
  qed
  ultimately show ?case using Cons by simp
qed simp

subsection \<open>Packing and unpacking are inverse\<close>

fun fits :: "field \<Rightarrow> wire_value \<Rightarrow> bool" where
  "fits (U n) (WInt v) \<longleftrightarrow> 0 \<le> v \<and> v < 256 ^ n"
| "fits (S n) (WBytes b) \<longleftrightarrow> length b = n"
| "fits f v \<longleftrightarrow> False"

lemma layout_size_Cons [simp]: "layout_size (f # fs) = field_size f + layout_size fs"
  by (simp add: layout_size_def)

lemma layout_size_Nil [simp]: "layout_size [] = 0"
  by (simp add: layout_size_def)

lemma pack_field_length: "pack_field f v = Inr b \<Longrightarrow> length b = field_size f"
  by (cases "(f, v)" rule: pack_field.cases) (auto split: if_splits)

lemma pack_length: "pack fmt vs = Inr bs \<Longrightarrow> length bs = layout_size fmt"
  by (induction fmt vs arbitrary: bs rule: pack.induct) (auto simp: rbind_eq_Inr pack_field_length)

lemma unpack_pack_field: "fits f v \<Longrightarrow> pack_field f v = Inr b \<Longrightarrow> unpack_field f b = v"
  by (cases "(f, v)" rule: fits.cases) (auto simp: le_int_le_bytes split: if_splits)

lemma pack_field_fits: "fits f v \<Longrightarrow> \<exists>b. pack_field f v = Inr b"
  by (cases "(f, v)" rule: fits.cases) auto

lemma unpack_fields_pack:
  "list_all2 fits fmt vs \<Longrightarrow> pack fmt vs = Inr bs \<Longrightarrow> unpack_fields fmt bs = vs"
proof (induction fmt vs arbitrary: bs rule: list_all2_induct)
  case (Cons f fs v vs)
  from Cons.prems obtain b bs' where b: "pack_field f v = Inr b" "pack fs vs = Inr bs'" "bs = b @ bs'"
    by (auto simp: rbind_eq_Inr)
  then show ?case using Cons pack_field_length [OF b(1)] by (simp add: unpack_pack_field)
qed simp

lemma unpack_pack: "list_all2 fits fmt vs \<Longrightarrow> pack fmt vs = Inr bs \<Longrightarrow> unpack fmt bs = Inr vs"
  by (simp add: unpack_def unpack_fields_pack pack_length)

lemma pack_fits: "list_all2 fits fmt vs \<Longrightarrow> \<exists>bs. pack fmt vs = Inr bs"
  by (induction fmt vs rule: list_all2_induct) (auto simp: rbind_eq_Inr dest: pack_field_fits)

lemma pack_unpack_field:
  assumes "length b = field_size f"
  shows "pack_field f (unpack_field f b) = Inr b \<and> fits f (unpack_field f b)"
  using assms le_int_nonneg [of b] le_int_less [of b] le_bytes_le_int [of b] by (cases f) auto

lemma pack_unpack_fields:
  "length bs = layout_size fmt \<Longrightarrow>
   pack fmt (unpack_fields fmt bs) = Inr bs \<and> list_all2 fits fmt (unpack_fields fmt bs)"
proof (induction fmt bs rule: unpack_fields.induct)
  case (2 f fs bs)
  have "length (take (field_size f) bs) = field_size f" using "2.prems" by simp
  from pack_unpack_field [OF this] show ?case using 2 by simp
qed simp

lemma pack_unpack: "unpack fmt bs = Inr vs \<Longrightarrow> pack fmt vs = Inr bs \<and> list_all2 fits fmt vs"
  using pack_unpack_fields [of bs fmt] by (auto simp: unpack_def split: if_splits)

lemma unpack_returns: "length bs = layout_size fmt \<Longrightarrow> \<exists>vs. unpack fmt bs = Inr vs"
  by (simp add: unpack_def)

lemma any_zero_bytes [simp]: "\<not> any_byte (zero_bytes n)"
  by (induction n) (simp_all add: any_byte_def zero_bytes_def)

lemma length_zero_bytes [simp]: "length (zero_bytes n) = n"
  by (simp add: zero_bytes_def)

lemma not_any_byte: "\<not> any_byte bs \<longleftrightarrow> bs = zero_bytes (length bs)"
  by (induction bs) (auto simp: any_byte_def zero_bytes_def)

declare pack.simps [simp del] unpack_fields.simps [simp del] pack_field.simps [simp del]

end
