(* ===== verification/Wire_Base.thy ===== *)
theory Wire_Base
  imports Struct_Pack
begin

text \<open>
  What every native wire format of the client extension builds on (\<^verbatim>\<open>client_extension/movement_wire.py\<close>,
  \<^verbatim>\<open>vendor_wire.py\<close>): checked unsigned integers, integer enums, zero-padded ASCII tokens, canonical
  UUID request keys, and the codecs of \<open>Host\<close> and \<open>Grant\<close>. The locale \<open>wire_codec\<close> is the contract every
  codec of the extension is proved to keep: encoding and decoding are inverse partial functions
  between the well-formed values (the ones their constructors accept) and byte strings of a fixed
  size.
\<close>

subsection \<open>The contract of a codec\<close>

locale wire_codec =
  fixes wf :: "'a \<Rightarrow> bool"
    and encode :: "'a \<Rightarrow> bytes result"
    and decode :: "bytes \<Rightarrow> 'a result"
    and size :: nat
  assumes encode_length: "encode x = Inr bs \<Longrightarrow> length bs = size"
    and decode_encode: "wf x \<Longrightarrow> encode x = Inr bs \<Longrightarrow> decode bs = Inr x"
    and encode_decode: "decode bs = Inr x \<Longrightarrow> wf x \<and> encode x = Inr bs"
begin

lemma decode_iff: "decode bs = Inr x \<longleftrightarrow> wf x \<and> encode x = Inr bs"
  using decode_encode encode_decode by blast

lemma encode_inject: "wf x \<Longrightarrow> wf y \<Longrightarrow> encode x = Inr bs \<Longrightarrow> encode y = Inr bs \<Longrightarrow> x = y"
  using decode_encode by (metis sum.inject(2))

lemma decode_inject: "decode bs = Inr x \<Longrightarrow> decode bs' = Inr x \<Longrightarrow> bs = bs'"
  using encode_decode by (metis sum.inject(2))

lemma decode_length: "decode bs = Inr x \<Longrightarrow> length bs = size"
  using encode_decode encode_length by blast

end

subsection \<open>Checked integers and enums\<close>

definition wire_uint :: "int \<Rightarrow> nat \<Rightarrow> string \<Rightarrow> int \<Rightarrow> int result" where
  "wire_uint v bits name minimum =
     (if minimum \<le> v \<and> v < 2 ^ bits then Inr v
      else Inl (ValueError (name @ '' must be an unsigned '' @ py_str_nat bits @ ''-bit integer >= '' @ py_str_int minimum)))"

definition vendor_uint :: "int \<Rightarrow> nat \<Rightarrow> string \<Rightarrow> int result" where
  "vendor_uint v bits label =
     (if 0 \<le> v \<and> v < 2 ^ bits then Inr v else Inl (ValueError (label @ '' must be uint'' @ py_str_nat bits)))"

definition int_enum :: "('e \<Rightarrow> int) \<Rightarrow> 'e list \<Rightarrow> string \<Rightarrow> int \<Rightarrow> 'e result" where
  "int_enum val members cls n =
     (case find (\<lambda>m. val m = n) members of
        None \<Rightarrow> Inl (ValueError (py_str_int n @ '' is not a valid '' @ cls))
      | Some m \<Rightarrow> Inr m)"

lemma wire_uint_Inr [result_simps]: "wire_uint v bits name minimum = Inr w \<longleftrightarrow> minimum \<le> v \<and> v < 2 ^ bits \<and> w = v"
  by (auto simp: wire_uint_def)

lemma vendor_uint_Inr [result_simps]: "vendor_uint v bits label = Inr w \<longleftrightarrow> 0 \<le> v \<and> v < 2 ^ bits \<and> w = v"
  by (auto simp: vendor_uint_def)

lemma int_enum_Inr:
  assumes "distinct (map val members)" "set members = UNIV"
  shows "int_enum val members cls n = Inr e \<longleftrightarrow> val e = n"
proof -
  have inj: "inj val" using assms by (simp add: distinct_map)
  have "find (\<lambda>m. val m = n) members = Some e \<longleftrightarrow> val e = n"
  proof
    assume "val e = n"
    then have "find (\<lambda>m. val m = n) members \<noteq> None" using assms(2) by (auto simp: find_None_iff)
    then obtain m where m: "find (\<lambda>m. val m = n) members = Some m" by blast
    then have "val m = n" by (induction members) (auto split: if_splits)
    then show "find (\<lambda>m. val m = n) members = Some e" using m \<open>val e = n\<close> inj by (auto dest: injD)
  next
    assume "find (\<lambda>m. val m = n) members = Some e"
    then show "val e = n" by (induction members) (auto split: if_splits)
  qed
  then show ?thesis by (auto simp: int_enum_def split: option.split)
qed

subsection \<open>UUID request keys\<close>

text \<open>\<open>str(uuid.UUID(bytes=b))\<close>, and the bytes of a key that is already the canonical text of a nonzero
  UUID. Every other key is rejected with a \<open>ValueError\<close>, whose messages (from \<^verbatim>\<open>uuid.UUID\<close>, from \<^verbatim>\<open>int\<close>,
  or from \<open>request_bytes\<close> itself) are not distinguished.\<close>

definition hex_digit :: "nat \<Rightarrow> char" where
  "hex_digit n = char_of (if n < 10 then 48 + n else 87 + n)"

definition unhex_digit :: "char \<Rightarrow> nat option" where
  "unhex_digit c = (let n = of_char c :: nat in
     if 48 \<le> n \<and> n \<le> 57 then Some (n - 48) else if 97 \<le> n \<and> n \<le> 102 then Some (n - 87) else None)"

definition hex_byte :: "byte \<Rightarrow> string" where
  "hex_byte b = [hex_digit (unat b div 16), hex_digit (unat b mod 16)]"

definition hex_bytes :: "bytes \<Rightarrow> string" where
  "hex_bytes bs = concat (map hex_byte bs)"

fun unhex_bytes :: "string \<Rightarrow> bytes option" where
  "unhex_bytes [] = Some []"
| "unhex_bytes [c] = None"
| "unhex_bytes (c # d # cs) =
     (case (unhex_digit c, unhex_digit d, unhex_bytes cs) of
        (Some h, Some l, Some bs) \<Rightarrow> Some (of_nat (16 * h + l) # bs)
      | _ \<Rightarrow> None)"

definition uuid_str :: "bytes \<Rightarrow> string" where
  "uuid_str b = hex_bytes (take 4 b) @ ''-'' @ hex_bytes (take 2 (drop 4 b)) @ ''-'' @ hex_bytes (take 2 (drop 6 b))
     @ ''-'' @ hex_bytes (take 2 (drop 8 b)) @ ''-'' @ hex_bytes (drop 10 b)"

definition uuid_parse :: "string \<Rightarrow> bytes option" where
  "uuid_parse s =
     (if length s = 36 \<and> s ! 8 = CHR ''-'' \<and> s ! 13 = CHR ''-'' \<and> s ! 18 = CHR ''-'' \<and> s ! 23 = CHR ''-''
      then unhex_bytes (take 8 s @ take 4 (drop 9 s) @ take 4 (drop 14 s) @ take 4 (drop 19 s) @ drop 24 s)
      else None)"

definition request_bytes :: "string \<Rightarrow> bytes result" where
  "request_bytes value =
     (case uuid_parse value of
        None \<Rightarrow> Inl (ValueError ''request key must be a nonzero canonical UUID'')
      | Some b \<Rightarrow> if any_byte b then Inr b else Inl (ValueError ''request key must be a nonzero canonical UUID''))"

lemma unhex_hex_digit: "n < 16 \<Longrightarrow> unhex_digit (hex_digit n) = Some n"
proof -
  assume "n < 16"
  moreover have "(if n < 10 then 48 + n else 87 + n) < 256" using \<open>n < 16\<close> by auto
  ultimately show ?thesis
    by (auto simp: unhex_digit_def hex_digit_def Let_def)
qed

lemma hex_unhex_digit: "unhex_digit c = Some n \<Longrightarrow> n < 16 \<and> hex_digit n = c"
  by (auto simp: unhex_digit_def hex_digit_def Let_def split: if_splits)

lemma length_hex_bytes [simp]: "length (hex_bytes bs) = 2 * length bs"
  by (induction bs) (simp_all add: hex_bytes_def hex_byte_def)

lemma hex_bytes_append: "hex_bytes (xs @ ys) = hex_bytes xs @ hex_bytes ys"
  by (simp add: hex_bytes_def)

lemma hex_bytes_Cons: "hex_bytes (b # bs) = hex_digit (unat b div 16) # hex_digit (unat b mod 16) # hex_bytes bs"
  by (simp add: hex_bytes_def hex_byte_def)

lemma unat_byte_less: "unat (b :: byte) < 256"
  using unsigned_less [of b] by simp

lemma unhex_hex_bytes: "unhex_bytes (hex_bytes bs) = Some bs"
proof (induction bs)
  case Nil
  then show ?case by (simp add: hex_bytes_def)
next
  case (Cons b bs)
  have "unat b div 16 < 16" using unat_byte_less [of b] by simp
  then show ?case using Cons by (simp add: hex_bytes_Cons unhex_hex_digit del: of_nat_add of_nat_mult)
qed

lemma hex_unhex_bytes: "unhex_bytes s = Some bs \<Longrightarrow> hex_bytes bs = s"
proof (induction s arbitrary: bs rule: unhex_bytes.induct)
  case (3 c d cs)
  then obtain h l bs' where h: "unhex_digit c = Some h" "unhex_digit d = Some l" "unhex_bytes cs = Some bs'"
    and bs: "bs = of_nat (16 * h + l) # bs'" by (auto split: option.splits)
  have lt: "h < 16" "l < 16" "hex_digit h = c" "hex_digit l = d" using h hex_unhex_digit by auto
  then have "unat (of_nat (16 * h + l) :: byte) = 16 * h + l"
    by (simp add: unat_of_nat del: of_nat_add of_nat_mult)
  then show ?case using 3 h bs lt by (simp add: hex_bytes_Cons del: of_nat_add of_nat_mult)
qed (simp_all add: hex_bytes_def)


lemma hex_bytes_take: "hex_bytes (take n bs) = take (2 * n) (hex_bytes bs)"
proof (induction bs arbitrary: n)
  case (Cons b bs)
  then show ?case by (cases n) (simp_all add: hex_bytes_Cons, simp add: hex_bytes_def)
qed (simp add: hex_bytes_def)

lemma hex_bytes_drop: "hex_bytes (drop n bs) = drop (2 * n) (hex_bytes bs)"
proof (induction bs arbitrary: n)
  case (Cons b bs)
  then show ?case by (cases n) (simp_all add: hex_bytes_Cons)
qed (simp add: hex_bytes_def)

lemma uuid_str_hex:
  "uuid_str b = (let h = hex_bytes b in take 8 h @ ''-'' @ take 4 (drop 8 h) @ ''-'' @ take 4 (drop 12 h)
     @ ''-'' @ take 4 (drop 16 h) @ ''-'' @ drop 20 h)"
  by (simp add: uuid_str_def hex_bytes_take hex_bytes_drop Let_def)

lemma cut_at: "n < length s \<Longrightarrow> k = n - m \<Longrightarrow> m \<le> n \<Longrightarrow> drop m s = take k (drop m s) @ s ! n # drop (Suc n) s"
  using id_take_nth_drop [of k "drop m s"] by simp

lemma uuid_parse_str: "length b = 16 \<Longrightarrow> uuid_parse (uuid_str b) = Some b"
proof -
  assume "length b = 16"
  define h where "h = hex_bytes b"
  have len: "length h = 32" using \<open>length b = 16\<close> by (simp add: h_def)
  have "take 8 h @ take 4 (drop 8 h) @ take 4 (drop 12 h) @ take 4 (drop 16 h) @ drop 20 h = h"
    using append_take_drop_id [of 8 h] append_take_drop_id [of 4 "drop 8 h"] append_take_drop_id [of 4 "drop 12 h"]
      append_take_drop_id [of 4 "drop 16 h"] by simp
  then have "uuid_parse (uuid_str b) = unhex_bytes h"
    using len by (simp add: uuid_parse_def uuid_str_hex Let_def nth_append flip: h_def)
  then show ?thesis by (simp add: h_def unhex_hex_bytes)
qed

lemma uuid_str_parse:
  assumes "uuid_parse s = Some b"
  shows "length b = 16 \<and> uuid_str b = s"
proof -
  let ?h = "take 8 s @ take 4 (drop 9 s) @ take 4 (drop 14 s) @ take 4 (drop 19 s) @ drop 24 s"
  have s: "length s = 36" "s ! 8 = CHR ''-''" "s ! 13 = CHR ''-''" "s ! 18 = CHR ''-''" "s ! 23 = CHR ''-''"
      and u: "unhex_bytes ?h = Some b"
    using assms by (simp_all add: uuid_parse_def split: if_splits)
  have h: "hex_bytes b = ?h" using u by (rule hex_unhex_bytes)
  have "2 * length b = length ?h" unfolding h [symmetric] by simp
  then have len: "length b = 16" using s by simp
  have "s = take 8 s @ s ! 8 # drop 9 s" using cut_at [of 8 s 8 0] s by simp
  also have "drop 9 s = take 4 (drop 9 s) @ s ! 13 # drop 14 s" using cut_at [of 13 s 4 9] s by simp
  also have "drop 14 s = take 4 (drop 14 s) @ s ! 18 # drop 19 s" using cut_at [of 18 s 4 14] s by simp
  also have "drop 19 s = take 4 (drop 19 s) @ s ! 23 # drop 24 s" using cut_at [of 23 s 4 19] s by simp
  finally have split: "s = take 8 s @ CHR ''-'' # take 4 (drop 9 s) @ CHR ''-'' # take 4 (drop 14 s)
      @ CHR ''-'' # take 4 (drop 19 s) @ CHR ''-'' # drop 24 s" by (simp add: s(2-5))
  have "uuid_str b = take 8 s @ CHR ''-'' # take 4 (drop 9 s) @ CHR ''-'' # take 4 (drop 14 s)
      @ CHR ''-'' # take 4 (drop 19 s) @ CHR ''-'' # drop 24 s"
    using s(1) by (simp add: uuid_str_hex h)
  then show ?thesis using len split by simp
qed

lemma request_bytes_Inr: "request_bytes s = Inr b \<longleftrightarrow> length b = 16 \<and> any_byte b \<and> uuid_str b = s"
  using uuid_str_parse [of s b] uuid_parse_str [of b] by (auto simp: request_bytes_def split: option.splits)


subsection \<open>Tokens\<close>

definition ascii_bytes :: "string \<Rightarrow> bytes" where
  "ascii_bytes s = map (\<lambda>c. word_of_nat (of_char c)) s"

definition bytes_text :: "bytes \<Rightarrow> string" where
  "bytes_text b = map (\<lambda>w. char_of (unat w)) b"

definition printable :: "char \<Rightarrow> bool" where
  "printable c \<longleftrightarrow> 32 \<le> (of_char c :: nat) \<and> (of_char c :: nat) \<le> 126"

definition token_text :: "string \<Rightarrow> bool \<Rightarrow> bytes result" where
  "token_text value required =
     rbind (checks [(list_ex (\<lambda>c. (of_char c :: nat) \<ge> 128) value, ValueError ''ordinal not in range(128)'')]) (\<lambda>_.
     rbind (checks [(length value > 95 \<or> (required \<and> value = []) \<or> list_ex (\<lambda>c. \<not> printable c) value,
        ValueError ''token must contain 1-95 printable ASCII characters'')]) (\<lambda>_.
     Inr (ascii_bytes value @ zero_bytes (96 - length value))))"

definition token_untext :: "bytes \<Rightarrow> string result" where
  "token_untext value =
     (let head = takeWhile (\<lambda>b. b \<noteq> 0) value; rest = dropWhile (\<lambda>b. b \<noteq> 0) value
      in rbind (checks
        [(rest = [] \<or> any_byte (tl rest), ValueError ''token must have canonical zero padding''),
         (list_ex (\<lambda>b. unat b \<ge> 128) head, ValueError ''ordinal not in range(128)'')]) (\<lambda>_.
      rbind (token_text (bytes_text head) False) (\<lambda>_. Inr (bytes_text head))))"

lemma bytes_text_ascii [simp]: "bytes_text (ascii_bytes s) = s"
  by (induction s) (simp_all add: bytes_text_def ascii_bytes_def unat_of_nat of_char_mod_256)

lemma ascii_bytes_text [simp]: "ascii_bytes (bytes_text b) = b"
proof (induction b)
  case (Cons w b)
  have "(of_char (char_of (unat w)) :: nat) = unat w"
    using unat_byte_less [of w] by (simp add: of_char_of)
  then show ?case using Cons by (simp add: bytes_text_def ascii_bytes_def)
qed (simp add: bytes_text_def ascii_bytes_def)

lemma length_ascii_bytes [simp]: "length (ascii_bytes s) = length s"
  by (simp add: ascii_bytes_def)

lemma printable_ascii: "printable c \<Longrightarrow> (word_of_nat (of_char c) :: byte) \<noteq> 0"
proof
  assume p: "printable c" and z: "(word_of_nat (of_char c) :: byte) = 0"
  have "unat (word_of_nat (of_char c) :: byte) = of_char c" by (simp add: unat_of_nat of_char_mod_256)
  then show False using p z by (simp add: printable_def)
qed

lemma token_text_Inr:
  "token_text value required = Inr b \<longleftrightarrow>
     length value \<le> 95 \<and> (required \<longrightarrow> value \<noteq> []) \<and> list_all printable value
     \<and> b = ascii_bytes value @ zero_bytes (96 - length value)"
  by (auto simp: token_text_def result_simps list_ex_iff list_all_iff printable_def)

lemma token_text_length: "token_text value required = Inr b \<Longrightarrow> length b = 96"
  by (auto simp: token_text_Inr)

lemma takeWhile_padded:
  assumes "list_all (\<lambda>b. b \<noteq> 0) xs"
  shows "takeWhile (\<lambda>b. b \<noteq> (0::byte)) (xs @ zero_bytes n) = xs"
    and "dropWhile (\<lambda>b. b \<noteq> (0::byte)) (xs @ zero_bytes n) = zero_bytes n"
  using assms by (induction xs) (cases n; simp add: zero_bytes_def)+

lemma token_untext_text:
  assumes "token_text value required = Inr b"
  shows "token_untext b = Inr value"
proof -
  have v: "length value \<le> 95" "list_all printable value" "b = ascii_bytes value @ zero_bytes (96 - length value)"
    using assms by (auto simp: token_text_Inr)
  have nz: "list_all (\<lambda>b. b \<noteq> 0) (ascii_bytes value)"
    using v(2) printable_ascii by (auto simp: ascii_bytes_def list_all_iff)
  have tw: "takeWhile (\<lambda>b. b \<noteq> 0) b = ascii_bytes value" "dropWhile (\<lambda>b. b \<noteq> 0) b = zero_bytes (96 - length value)"
    unfolding v(3) using nz by (rule takeWhile_padded)+
  have "zero_bytes (96 - length value) \<noteq> []" using v(1) by (simp add: zero_bytes_def)
  moreover have "\<not> any_byte (tl (zero_bytes (96 - length value)))"
    using any_zero_bytes [of "95 - length value"] by (simp add: zero_bytes_def)
  moreover have "\<not> list_ex (\<lambda>b. unat b \<ge> 128) (ascii_bytes value)"
    using v(2) by (auto simp: list_ex_iff list_all_iff ascii_bytes_def printable_def unat_of_nat of_char_mod_256)
  ultimately show ?thesis
    using assms unfolding token_untext_def tw Let_def by (auto simp: result_simps token_text_Inr)
qed

lemma token_text_untext:
  assumes "token_untext b = Inr value" "length b = 96"
  shows "token_text value False = Inr b"
proof -
  let ?h = "takeWhile (\<lambda>b. b \<noteq> 0) b" and ?r = "dropWhile (\<lambda>b. b \<noteq> 0) b"
  have v: "value = bytes_text ?h" "?r \<noteq> []" "\<not> any_byte (tl ?r)" "\<exists>t. token_text value False = Inr t"
    using assms(1) by (auto simp: token_untext_def Let_def result_simps split: if_splits)
  have "hd ?r = 0" using hd_dropWhile [OF v(2)] by simp
  then have "\<not> any_byte ?r" using v(2,3) by (cases ?r) (auto simp: any_byte_def)
  then have "?r = zero_bytes (length ?r)" by (simp add: not_any_byte)
  moreover have "length ?h + length ?r = 96" using assms(2) by (metis length_append takeWhile_dropWhile_id)
  ultimately have "b = ?h @ zero_bytes (96 - length ?h)" by (metis add_diff_cancel_left' takeWhile_dropWhile_id)
  moreover have "ascii_bytes value = ?h" "length value = length ?h" by (simp_all add: v(1)) (simp add: bytes_text_def)
  ultimately show ?thesis using v(4) by (auto simp: token_text_Inr)
qed


subsection \<open>Layouts read back\<close>

fun sized :: "field \<Rightarrow> wire_value \<Rightarrow> bool" where
  "sized (U n) (WInt v) \<longleftrightarrow> True"
| "sized (S n) (WBytes b) \<longleftrightarrow> length b = n"
| "sized f v \<longleftrightarrow> False"

lemma sized_fits: "sized f v \<Longrightarrow> pack_field f v = Inr b \<Longrightarrow> fits f v"
  by (cases "(f, v)" rule: sized.cases) (auto simp: pack_field.simps split: if_splits)

lemma pack_sized_fits: "list_all2 sized fmt vs \<Longrightarrow> pack fmt vs = Inr bs \<Longrightarrow> list_all2 fits fmt vs"
  by (induction fmt vs arbitrary: bs rule: list_all2_induct) (auto simp: rbind_eq_Inr pack.simps dest: sized_fits)

lemma unpack_packed: "pack fmt vs = Inr bs \<Longrightarrow> list_all2 sized fmt vs \<Longrightarrow> unpack fmt bs = Inr vs"
  by (rule unpack_pack [OF pack_sized_fits])

lemma fits_shape [simp]:
  "fits (U n) v \<longleftrightarrow> (\<exists>k. v = WInt k \<and> 0 \<le> k \<and> k < 256 ^ n)"
  "fits (S n) v \<longleftrightarrow> (\<exists>b. v = WBytes b \<and> length b = n)"
  by (cases v; simp)+

lemma unpack_shape: "unpack fmt bs = Inr vs \<Longrightarrow> list_all2 fits fmt vs \<and> pack fmt vs = Inr bs"
  using pack_unpack by blast

lemma pack_le: "pack fmt vs = Inr bs \<Longrightarrow> list_all2 sized fmt vs \<Longrightarrow> length bs = layout_size fmt"
  by (rule pack_length)

subsection \<open>Host\<close>

record host =
  process_id :: int
  lease_generation :: int
  creation_filetime :: int

definition HOST_LAYOUT :: "field list" where
  "HOST_LAYOUT = [U 4, U 4, U 8]"

definition host_encode :: "host \<Rightarrow> bytes result" where
  "host_encode h =
     rbind (wire_uint (process_id h) 31 ''host PID'' 1) (\<lambda>pid.
     rbind (wire_uint (lease_generation h) 31 ''lease generation'' 1) (\<lambda>lease.
     rbind (wire_uint (creation_filetime h) 64 ''host creation'' 1) (\<lambda>creation.
     pack HOST_LAYOUT [WInt pid, WInt lease, WInt creation])))"

definition host_decode :: "bytes \<Rightarrow> host result" where
  "host_decode data =
     rbind (unpack HOST_LAYOUT data) (\<lambda>v.
     let h = \<lparr>process_id = wint (v ! 0), lease_generation = wint (v ! 1), creation_filetime = wint (v ! 2)\<rparr>
     in rbind (host_encode h) (\<lambda>_. Inr h))"

interpretation host: wire_codec "\<lambda>_. True" host_encode host_decode 16
proof unfold_locales
  show "length bs = 16" if "host_encode h = Inr bs" for h bs
    using that by (auto simp: host_encode_def result_simps dest!: pack_length) (simp add: HOST_LAYOUT_def)
  show "host_decode bs = Inr h" if e: "host_encode h = Inr bs" for h bs
  proof -
    have "pack HOST_LAYOUT [WInt (process_id h), WInt (lease_generation h), WInt (creation_filetime h)] = Inr bs"
      using e by (auto simp: host_encode_def result_simps)
    then have "unpack HOST_LAYOUT bs = Inr [WInt (process_id h), WInt (lease_generation h), WInt (creation_filetime h)]"
      by (rule unpack_packed) (simp add: HOST_LAYOUT_def)
    then show ?thesis using e by (cases h) (simp add: host_decode_def)
  qed
  show "True \<and> host_encode h = Inr bs" if "host_decode bs = Inr h" for h bs
    using that by (auto simp: host_decode_def host_encode_def result_simps Let_def HOST_LAYOUT_def list_all2_Cons1
        dest!: unpack_shape)
qed

subsection \<open>Grants\<close>

datatype owner = NO_OWNER | AUTOMATION | MANUAL

fun owner_value :: "owner \<Rightarrow> int" where
  "owner_value NO_OWNER = 0"
| "owner_value AUTOMATION = 1"
| "owner_value MANUAL = 2"

definition owners_all :: "owner list" where
  "owners_all = [NO_OWNER, AUTOMATION, MANUAL]"

record grant =
  gr_generation :: int
  gr_scene :: int
  gr_owner :: owner
  gr_worker_id :: string
  gr_operation_id :: string

definition GRANT_LAYOUT :: "field list" where
  "GRANT_LAYOUT = [U 8, U 8, U 4, U 4, S 96, S 96]"

definition grant_encode :: "grant \<Rightarrow> bytes result" where
  "grant_encode g =
     (let required = (gr_owner g = AUTOMATION) in
     rbind (checks
       [(gr_owner g \<noteq> NO_OWNER \<and> gr_scene g = 0, ValueError ''owned grant needs a scene''),
        (\<not> required \<and> (gr_worker_id g \<noteq> [] \<or> gr_operation_id g \<noteq> []), ValueError ''only automation grants carry a token'')]) (\<lambda>_.
     rbind (wire_uint (gr_generation g) 64 ''generation'' 1) (\<lambda>generation.
     rbind (wire_uint (gr_scene g) 64 ''scene'' 0) (\<lambda>scene.
     rbind (token_text (gr_worker_id g) required) (\<lambda>worker.
     rbind (token_text (gr_operation_id g) required) (\<lambda>operation.
     pack GRANT_LAYOUT [WInt generation, WInt scene, WInt (owner_value (gr_owner g)), WInt 0, WBytes worker, WBytes operation]))))))"

definition grant_decode :: "bytes \<Rightarrow> grant result" where
  "grant_decode data =
     rbind (unpack GRANT_LAYOUT data) (\<lambda>v.
     rbind (checks [(wint (v ! 3) \<noteq> 0, ValueError ''grant reserved field is nonzero'')]) (\<lambda>_.
     rbind (int_enum owner_value owners_all ''Owner'' (wint (v ! 2))) (\<lambda>owner.
     rbind (token_untext (wbytes (v ! 4))) (\<lambda>worker.
     rbind (token_untext (wbytes (v ! 5))) (\<lambda>operation.
     let g = \<lparr>gr_generation = wint (v ! 0), gr_scene = wint (v ! 1), gr_owner = owner, gr_worker_id = worker,
              gr_operation_id = operation\<rparr>
     in rbind (grant_encode g) (\<lambda>_. Inr g))))))"

lemma layout_sizes: "layout_size HOST_LAYOUT = 16" "layout_size GRANT_LAYOUT = 216"
  by (simp_all add: HOST_LAYOUT_def GRANT_LAYOUT_def)

lemma owner_enum: "int_enum owner_value owners_all cls n = Inr e \<longleftrightarrow> owner_value e = n"
  by (rule int_enum_Inr) (auto simp: owners_all_def intro: owner.exhaust)

lemma grant_encode_Inr:
  "grant_encode g = Inr bs \<longleftrightarrow>
     (gr_owner g = NO_OWNER \<or> gr_scene g \<noteq> 0) \<and> (gr_owner g = AUTOMATION \<or> (gr_worker_id g = [] \<and> gr_operation_id g = []))
     \<and> 1 \<le> gr_generation g \<and> gr_generation g < 2 ^ 64 \<and> 0 \<le> gr_scene g \<and> gr_scene g < 2 ^ 64
     \<and> (\<exists>w o'. token_text (gr_worker_id g) (gr_owner g = AUTOMATION) = Inr w
         \<and> token_text (gr_operation_id g) (gr_owner g = AUTOMATION) = Inr o'
         \<and> pack GRANT_LAYOUT [WInt (gr_generation g), WInt (gr_scene g), WInt (owner_value (gr_owner g)), WInt 0,
              WBytes w, WBytes o'] = Inr bs)"
  by (auto simp: grant_encode_def Let_def result_simps)

interpretation grant: wire_codec "\<lambda>_. True" grant_encode grant_decode 216
proof unfold_locales
  show "length bs = 216" if "grant_encode g = Inr bs" for g bs
    using that layout_sizes by (auto simp: grant_encode_Inr dest!: pack_length)
  show "grant_decode bs = Inr g" if e: "grant_encode g = Inr bs" for g bs
  proof -
    from e obtain w o' where t: "token_text (gr_worker_id g) (gr_owner g = AUTOMATION) = Inr w"
        "token_text (gr_operation_id g) (gr_owner g = AUTOMATION) = Inr o'"
      and p: "pack GRANT_LAYOUT [WInt (gr_generation g), WInt (gr_scene g), WInt (owner_value (gr_owner g)), WInt 0,
              WBytes w, WBytes o'] = Inr bs" unfolding grant_encode_Inr by blast
    from p have "unpack GRANT_LAYOUT bs = Inr [WInt (gr_generation g), WInt (gr_scene g), WInt (owner_value (gr_owner g)), WInt 0,
              WBytes w, WBytes o']"
      by (rule unpack_packed) (simp add: GRANT_LAYOUT_def token_text_length [OF t(1)] token_text_length [OF t(2)])
    then show ?thesis using e token_untext_text [OF t(1)] token_untext_text [OF t(2)]
      by (cases g) (simp add: grant_decode_def result_simps owner_enum Let_def)
  qed
  show "True \<and> grant_encode g = Inr bs" if d: "grant_decode bs = Inr g" for g bs
  proof -
    from d obtain v where v: "unpack GRANT_LAYOUT bs = Inr v"
        and z: "wint (v ! 3) = 0" and o': "owner_value (gr_owner g) = wint (v ! 2)"
        and t: "token_untext (wbytes (v ! 4)) = Inr (gr_worker_id g)" "token_untext (wbytes (v ! 5)) = Inr (gr_operation_id g)"
        and g: "gr_generation g = wint (v ! 0)" "gr_scene g = wint (v ! 1)" and e: "\<exists>x. grant_encode g = Inr x"
      by (auto simp: grant_decode_def rbind_eq_Inr Let_def owner_enum split: if_splits)
    from unpack_shape [OF v] obtain a b c w x where
      vs: "v = [WInt a, WInt b, WInt c, WInt (wint (v ! 3)), WBytes w, WBytes x]" "length w = 96" "length x = 96"
      and p: "pack GRANT_LAYOUT v = Inr bs"
      by (auto simp: GRANT_LAYOUT_def list_all2_Cons1)
    have vs': "v = [WInt (gr_generation g), WInt (gr_scene g), WInt (owner_value (gr_owner g)), WInt 0, WBytes w, WBytes x]"
      using vs(1) g o' z by (metis nth_Cons_0 nth_Cons_Suc wint.simps(1) numeral_2_eq_2 One_nat_def)
    have "token_text (gr_worker_id g) False = Inr w" "token_text (gr_operation_id g) False = Inr x"
      using t vs' vs(2,3) by (auto intro!: token_text_untext)
    moreover obtain y where "grant_encode g = Inr y" using e by blast
    ultimately show ?thesis using p unfolding vs' by (auto simp: grant_encode_Inr token_text_Inr)
  qed
qed

text \<open>An optional request key, all zero bytes standing for none.\<close>

definition decoded_request :: "bytes \<Rightarrow> string option" where
  "decoded_request b = (if any_byte b then Some (uuid_str b) else None)"

lemma uuid_str_inject: "length a = 16 \<Longrightarrow> length b = 16 \<Longrightarrow> uuid_str a = uuid_str b \<Longrightarrow> a = b"
  by (metis option.inject uuid_parse_str)

text \<open>A host and a request key for examples.\<close>

definition example_host :: host where
  "example_host = \<lparr>process_id = 4242, lease_generation = 7, creation_filetime = 133000000000000000\<rparr>"

definition example_key :: string where
  "example_key = ''0f1e2d3c-4b5a-6978-8796-a5b4c3d2e1f0''"

lemma example_key_bytes: "\<exists>q. request_bytes example_key = Inr q \<and> length q = 16 \<and> uuid_str q = example_key"
proof -
  have "\<not> isl (request_bytes example_key)" by code_simp
  then obtain q where "request_bytes example_key = Inr q" by (cases "request_bytes example_key") auto
  then show ?thesis using request_bytes_Inr by blast
qed

lemma example_host_bytes: "\<exists>h. host_encode example_host = Inr h \<and> length h = 16 \<and> host_decode h = Inr example_host"
proof -
  have "\<not> isl (host_encode example_host)" by code_simp
  then obtain h where "host_encode example_host = Inr h" by (cases "host_encode example_host") auto
  then show ?thesis using host.encode_length host.decode_encode by blast
qed

end
