(* ===== verification/Vendor_Wire.thy ===== *)
theory Vendor_Wire
  imports Wire_Base
begin

text \<open>
  Vendor payloads (\<^verbatim>\<open>client_extension/vendor_wire.py\<close>): crafting slots, the vendor snapshot with its
  variable number of slots in a fixed-size record, the vendor command and the vendor receipt.
\<close>

datatype vendor_verb = V_INSPECT | V_CREATE | V_KEEP | V_CREATE_RANDOM | V_INSPECT_RANDOM

fun vendor_verb_value :: "vendor_verb \<Rightarrow> int" where
  "vendor_verb_value V_INSPECT = 8"
| "vendor_verb_value V_CREATE = 9"
| "vendor_verb_value V_KEEP = 10"
| "vendor_verb_value V_CREATE_RANDOM = 32"
| "vendor_verb_value V_INSPECT_RANDOM = 33"

datatype vendor_outcome =
    OBSERVED | SUBMITTED | STALE | UNAVAILABLE | INVALID | PENDING | UNCERTAIN | EXHAUSTED

fun vendor_outcome_value :: "vendor_outcome \<Rightarrow> int" where
  "vendor_outcome_value OBSERVED = 0"
| "vendor_outcome_value SUBMITTED = 1"
| "vendor_outcome_value STALE = 2"
| "vendor_outcome_value UNAVAILABLE = 3"
| "vendor_outcome_value INVALID = 4"
| "vendor_outcome_value PENDING = 5"
| "vendor_outcome_value UNCERTAIN = 6"
| "vendor_outcome_value EXHAUSTED = 7"

definition vendor_outcomes_all :: "vendor_outcome list" where
  "vendor_outcomes_all = [OBSERVED, SUBMITTED, STALE, UNAVAILABLE, INVALID, PENDING, UNCERTAIN, EXHAUSTED]"

lemma vendor_outcome_enum:
  "int_enum vendor_outcome_value vendor_outcomes_all cls n = Inr e \<longleftrightarrow> vendor_outcome_value e = n"
  by (rule int_enum_Inr) (auto simp: vendor_outcomes_all_def intro: vendor_outcome.exhaust)

lemma vendor_outcome_range: "0 \<le> vendor_outcome_value e \<and> vendor_outcome_value e \<le> 7"
  by (cases e) simp_all

definition VENDOR_MAGIC :: int where "VENDOR_MAGIC = 0x57425631"
definition READY :: int where "READY = 1"
definition IN_FLIGHT :: int where "IN_FLIGHT = 2"
definition UNRESOLVED :: int where "UNRESOLVED = 4"

text \<open>\<open>flags & mask\<close> as a truth value, and \<open>flags & ~mask\<close>: some bit outside the mask is set.\<close>

unbundle bit_operations_syntax

definition has_flag :: "int \<Rightarrow> int \<Rightarrow> bool" where
  "has_flag flags bits \<longleftrightarrow> flags AND bits \<noteq> 0"

definition outside_mask :: "int \<Rightarrow> int \<Rightarrow> bool" where
  "outside_mask flags bits \<longleftrightarrow> flags AND (NOT bits) \<noteq> 0"

lemma has_flag_or: "has_flag flags (a OR b) \<longleftrightarrow> has_flag flags a \<or> has_flag flags b"
  by (simp add: has_flag_def bit.conj_disj_distrib or_eq_0_iff)

subsection \<open>Slots\<close>

record slot =
  sl_entry :: int
  sl_item :: int
  sl_state :: int

definition SLOT_LAYOUT :: "field list" where
  "SLOT_LAYOUT = [U 4, U 4, U 4]"

definition uints :: "nat \<Rightarrow> string \<Rightarrow> int list \<Rightarrow> unit result" where
  "uints bits label = riter (\<lambda>v. rbind (vendor_uint v bits label) (\<lambda>_. Inr ()))"

definition slot_encode :: "slot \<Rightarrow> bytes result" where
  "slot_encode s =
     rbind (uints 32 ''slot field'' [sl_entry s, sl_item s, sl_state s]) (\<lambda>_.
     rbind (checks [(sl_entry s = 0 \<or> sl_state s > 2 \<or> ((sl_state s = 0) \<noteq> (sl_item s = 0)),
        ValueError ''invalid vendor slot'')]) (\<lambda>_.
     pack SLOT_LAYOUT [WInt (sl_entry s), WInt (sl_item s), WInt (sl_state s)]))"

definition slot_unpack :: "bytes \<Rightarrow> slot result" where
  "slot_unpack data = rbind (unpack SLOT_LAYOUT data) (\<lambda>v.
     Inr \<lparr>sl_entry = wint (v ! 0), sl_item = wint (v ! 1), sl_state = wint (v ! 2)\<rparr>)"

subsection \<open>Snapshots\<close>

record vendor_snapshot =
  vs_scene :: int
  vs_revision :: int
  vs_root :: int
  vs_manager :: int
  vs_menu :: int
  vs_recipe :: int
  vs_inventory :: int
  vs_hireling :: int
  vs_building :: int
  vs_vendor :: int
  vs_item_template :: int
  vs_prefix :: int
  vs_suffix :: int
  vs_mode :: int
  vs_table :: int
  vs_quantity :: int
  vs_multiple :: int
  vs_slots :: "slot list"

definition empty_vendor_snapshot :: vendor_snapshot where
  "empty_vendor_snapshot =
     \<lparr>vs_scene = 0, vs_revision = 0, vs_root = 0, vs_manager = 0, vs_menu = 0, vs_recipe = 0, vs_inventory = 0,
      vs_hireling = 0, vs_building = 0, vs_vendor = 0, vs_item_template = 0, vs_prefix = 0, vs_suffix = 0,
      vs_mode = 0, vs_table = 0, vs_quantity = 0, vs_multiple = 0, vs_slots = []\<rparr>"

definition free_slots :: "vendor_snapshot \<Rightarrow> nat" where
  "free_slots s = length (filter (\<lambda>x. sl_state x = 0) (vs_slots s))"

definition random_scepter :: "vendor_snapshot \<Rightarrow> bool" where
  "random_scepter s \<longleftrightarrow> vs_recipe s \<noteq> 0 \<and> vs_item_template s = 26990 \<and> vs_prefix s = vs_suffix s
     \<and> vs_suffix s = 3362971591 \<and> vs_mode s = 1 \<and> vs_table s = 12 \<and> vs_quantity s = 1 \<and> vs_multiple s \<in> {0, 1}"

definition random_single :: "vendor_snapshot \<Rightarrow> bool" where
  "random_single s \<longleftrightarrow> vs_recipe s \<noteq> 0 \<and> vs_item_template s \<noteq> 0 \<and> vs_table s \<noteq> 0 \<and> vs_mode s = 1
     \<and> vs_prefix s = vs_suffix s \<and> vs_suffix s = 3362971591 \<and> vs_quantity s = 1 \<and> vs_multiple s = 0"

definition VENDOR_SNAPSHOT_LAYOUT :: "field list" where
  "VENDOR_SNAPSHOT_LAYOUT = U 8 # U 8 # replicate 16 (U 4)"

definition vendor_narrow_values :: "vendor_snapshot \<Rightarrow> int list" where
  "vendor_narrow_values s =
     [vs_root s, vs_manager s, vs_menu s, vs_recipe s, vs_inventory s, vs_hireling s, vs_building s, vs_vendor s,
      vs_item_template s, vs_prefix s, vs_suffix s, vs_mode s, vs_table s, vs_quantity s, vs_multiple s]"

definition vendor_snapshot_encode :: "vendor_snapshot \<Rightarrow> bytes result" where
  "vendor_snapshot_encode s =
     rbind (uints 64 ''snapshot field'' [vs_scene s, vs_revision s]) (\<lambda>_.
     rbind (uints 32 ''snapshot field'' (vendor_narrow_values s)) (\<lambda>_.
     if s = empty_vendor_snapshot then Inr (zero_bytes 288)
     else
     rbind (checks
       [(\<not> (vs_scene s \<noteq> 0 \<and> vs_revision s \<noteq> 0 \<and> vs_root s \<noteq> 0 \<and> vs_manager s \<noteq> 0 \<and> vs_menu s \<noteq> 0
            \<and> vs_hireling s \<noteq> 0 \<and> vs_building s \<noteq> 0 \<and> vs_vendor s \<noteq> 0)
         \<or> \<not> (1 \<le> length (vs_slots s) \<and> length (vs_slots s) \<le> 16)
         \<or> \<not> distinct (map sl_entry (vs_slots s))
         \<or> \<not> distinct (filter (\<lambda>i. i \<noteq> 0) (map sl_item (vs_slots s))),
         ValueError ''invalid vendor snapshot'')]) (\<lambda>_.
     rbind (pack VENDOR_SNAPSHOT_LAYOUT
       (map WInt ([vs_scene s, vs_revision s] @ vendor_narrow_values s @ [int (length (vs_slots s))]))) (\<lambda>head.
     rbind (rmap slot_encode (vs_slots s)) (\<lambda>slots.
     Inr (head @ concat slots @ zero_bytes ((16 - length (vs_slots s)) * 12 + 16)))))))"

text \<open>\<open>cls(*values[:-1], slots)\<close>: the fields in declaration order.\<close>

definition vendor_snapshot_of :: "int list \<Rightarrow> slot list \<Rightarrow> vendor_snapshot" where
  "vendor_snapshot_of v slots =
     \<lparr>vs_scene = v ! 0, vs_revision = v ! 1, vs_root = v ! 2, vs_manager = v ! 3, vs_menu = v ! 4, vs_recipe = v ! 5,
      vs_inventory = v ! 6, vs_hireling = v ! 7, vs_building = v ! 8, vs_vendor = v ! 9, vs_item_template = v ! 10,
      vs_prefix = v ! 11, vs_suffix = v ! 12, vs_mode = v ! 13, vs_table = v ! 14, vs_quantity = v ! 15,
      vs_multiple = v ! 16, vs_slots = slots\<rparr>"

definition vendor_snapshot_decode :: "bytes \<Rightarrow> vendor_snapshot result" where
  "vendor_snapshot_decode data =
     (if length data \<noteq> 288 then Inl (ValueError ''invalid vendor snapshot size'')
      else if \<not> any_byte data then Inr empty_vendor_snapshot
      else
      rbind (unpack VENDOR_SNAPSHOT_LAYOUT (take 80 data)) (\<lambda>vs.
      let v = map wint vs; count = nat (v ! 17) in
      rbind (checks [(v ! 17 > 16 \<or> any_byte (drop (80 + count * 12) data),
         ValueError ''invalid vendor slot count or padding'')]) (\<lambda>_.
      rbind (rmap (\<lambda>i. slot_unpack (take 12 (drop (80 + i * 12) data))) [0..<count]) (\<lambda>slots.
      let out = vendor_snapshot_of v slots
      in rbind (vendor_snapshot_encode out) (\<lambda>_. Inr out)))))"

subsection \<open>Commands and receipts\<close>

record vendor_command =
  vc_host :: host
  vc_window :: int
  vc_request_key :: string
  vc_expected :: vendor_snapshot
  vc_item :: int

definition VENDOR_COMMAND_LAYOUT :: "field list" where
  "VENDOR_COMMAND_LAYOUT = [S 16, U 8, S 16, S 288, U 4, S 244]"

definition vendor_command_encode :: "vendor_command \<Rightarrow> vendor_verb \<Rightarrow> bytes result" where
  "vendor_command_encode c verb =
     rbind (vendor_uint (vc_window c) 32 ''window'') (\<lambda>window.
     rbind (checks [(window = 0, ValueError ''window is required'')]) (\<lambda>_.
     rbind (vendor_uint (vc_item c) 32 ''item'') (\<lambda>_.
     rbind
       (if verb = V_INSPECT \<or> verb = V_INSPECT_RANDOM
        then checks [(vc_expected c \<noteq> empty_vendor_snapshot \<or> vc_item c \<noteq> 0,
               ValueError ''inspect cannot carry action arguments'')]
        else checks [(vc_expected c = empty_vendor_snapshot
               \<or> (verb = V_CREATE \<and> (vc_item c \<noteq> 0 \<or> \<not> random_scepter (vc_expected c)))
               \<or> (verb = V_CREATE_RANDOM \<and> (vc_item c \<noteq> 0 \<or> \<not> random_single (vc_expected c)))
               \<or> (verb = V_KEEP \<and> vc_item c = 0),
               ValueError ''invalid vendor action arguments'')]) (\<lambda>_.
     rbind (host_encode (vc_host c)) (\<lambda>host.
     rbind (request_bytes (vc_request_key c)) (\<lambda>request.
     rbind (vendor_snapshot_encode (vc_expected c)) (\<lambda>expected.
     pack VENDOR_COMMAND_LAYOUT
       [WBytes host, WInt (vc_window c), WBytes request, WBytes expected, WInt (vc_item c), WBytes (zero_bytes 244)])))))))"

record vendor_receipt =
  vr_request_key :: string
  vr_host :: host
  vr_window :: int
  vr_outcome :: vendor_outcome
  vr_flags :: int
  vr_snapshot :: vendor_snapshot
  vr_transition_item :: int
  vr_transition_request :: "string option"

definition VENDOR_RECEIPT_LAYOUT :: "field list" where
  "VENDOR_RECEIPT_LAYOUT = [S 16, S 16, U 8, U 4, U 4, S 288, U 4, U 4, S 16, S 24]"

definition vendor_receipt_decode :: "bytes \<Rightarrow> vendor_receipt result" where
  "vendor_receipt_decode data =
     rbind (unpack VENDOR_RECEIPT_LAYOUT data) (\<lambda>v.
     let window = wint (v ! 2); flags = wint (v ! 4); item = wint (v ! 7); transition = wbytes (v ! 8) in
     rbind (checks [(wint (v ! 6) \<noteq> VENDOR_MAGIC \<or> outside_mask flags 7 \<or> any_byte (wbytes (v ! 9))
         \<or> window = 0 \<or> window \<ge> 2 ^ 32, ValueError ''invalid vendor receipt'')]) (\<lambda>_.
     let key = uuid_str (wbytes (v ! 0)) in
     rbind (request_bytes key) (\<lambda>_.
     rbind (vendor_snapshot_decode (wbytes (v ! 5))) (\<lambda>state.
     rbind (checks [(has_flag flags READY \<and> (state = empty_vendor_snapshot \<or> has_flag flags (IN_FLIGHT OR UNRESOLVED)),
         ValueError ''contradictory vendor readiness'')]) (\<lambda>_.
     let transition_key = (if any_byte transition then Some (uuid_str transition) else None) in
     rbind (checks [((item \<noteq> 0) \<noteq> (transition_key \<noteq> None), ValueError ''incomplete vendor transition identity'')]) (\<lambda>_.
     rbind (host_decode (wbytes (v ! 1))) (\<lambda>host.
     rbind (int_enum vendor_outcome_value vendor_outcomes_all ''Outcome'' (wint (v ! 3))) (\<lambda>outcome.
     Inr \<lparr>vr_request_key = key, vr_host = host, vr_window = window, vr_outcome = outcome, vr_flags = flags,
          vr_snapshot = state, vr_transition_item = item, vr_transition_request = transition_key\<rparr>))))))))"

subsection \<open>Slots in a row\<close>

definition int_field :: "field \<Rightarrow> bool" where
  "int_field f \<longleftrightarrow> (\<exists>n. f = U n)"

lemma int_field_U [simp]: "int_field (U n)"
  by (simp add: int_field_def)

lemma fits_int_fields: "list_all2 fits fmt vs \<Longrightarrow> list_all int_field fmt \<Longrightarrow> map WInt (map wint vs) = vs"
  by (induction fmt vs rule: list_all2_induct) (auto simp: int_field_def)

lemma sized_int_fields: "list_all int_field fmt \<Longrightarrow> length fmt = length xs \<Longrightarrow> list_all2 sized fmt (map WInt xs)"
proof (induction fmt arbitrary: xs)
  case (Cons f fmt)
  then show ?case by (cases xs) (auto simp: int_field_def)
qed simp

lemma uints_Inr [result_simps]: "uints bits label xs = Inr u \<longleftrightarrow> (\<forall>v \<in> set xs. 0 \<le> v \<and> v < 2 ^ bits)"
  by (auto simp: uints_def result_simps)

lemma rmap_upt: "(\<And>i. i < length xs \<Longrightarrow> f i = Inr (xs ! i)) \<Longrightarrow> rmap f [0..<length xs] = Inr xs"
  by (simp add: rmap_Inr_iff list_all2_conv_all_nth)

lemma rmap_uptD: "rmap f [0..<n] = Inr xs \<Longrightarrow> length xs = n \<and> (\<forall>i < n. f i = Inr (xs ! i))"
  by (auto simp: rmap_Inr_iff list_all2_conv_all_nth)

lemma chunk_nth:
  "list_all (\<lambda>b. length b = k) bs \<Longrightarrow> i < length bs \<Longrightarrow> take k (drop (i * k) (concat bs @ pad)) = bs ! i"
proof (induction bs arbitrary: i)
  case (Cons b bs)
  then show ?case by (cases i) auto
qed simp

lemma concat_chunks:
  "concat (map (\<lambda>i. take k (drop (i * k) xs)) [0..<n]) = take (n * k) xs"
proof (induction n)
  case (Suc n)
  then show ?case using take_add [of "n * k" k xs] by (simp add: add.commute [of k])
qed simp

lemma slot_size: "layout_size SLOT_LAYOUT = 12"
  by (simp add: SLOT_LAYOUT_def)

lemma slot_encode_length: "slot_encode s = Inr b \<Longrightarrow> length b = 12"
  by (auto simp: slot_encode_def rbind_eq_Inr slot_size dest!: pack_length)

lemma slot_unpack_encode: "slot_encode s = Inr b \<Longrightarrow> slot_unpack b = Inr s"
proof -
  assume "slot_encode s = Inr b"
  then have "pack SLOT_LAYOUT [WInt (sl_entry s), WInt (sl_item s), WInt (sl_state s)] = Inr b"
    by (auto simp: slot_encode_def rbind_eq_Inr)
  then have "unpack SLOT_LAYOUT b = Inr [WInt (sl_entry s), WInt (sl_item s), WInt (sl_state s)]"
    by (rule unpack_packed) (simp add: SLOT_LAYOUT_def)
  then show ?thesis by (cases s) (simp add: slot_unpack_def)
qed

lemma slot_encode_unpack: "slot_unpack b = Inr s \<Longrightarrow> slot_encode s = Inr b' \<Longrightarrow> b' = b"
  by (auto simp: slot_unpack_def slot_encode_def rbind_eq_Inr SLOT_LAYOUT_def list_all2_Cons1 dest!: unpack_shape)

subsection \<open>The snapshot codec\<close>

lemma snapshot_layout:
  "list_all int_field VENDOR_SNAPSHOT_LAYOUT" "length VENDOR_SNAPSHOT_LAYOUT = 18" "layout_size VENDOR_SNAPSHOT_LAYOUT = 80"
  by (auto simp: VENDOR_SNAPSHOT_LAYOUT_def list_all_iff layout_size_def sum_list_replicate)

definition vendor_values :: "vendor_snapshot \<Rightarrow> int list" where
  "vendor_values s = [vs_scene s, vs_revision s] @ vendor_narrow_values s @ [int (length (vs_slots s))]"

lemma vendor_snapshot_of_values: "vendor_snapshot_of (vendor_values s) (vs_slots s) = s"
  by (cases s) (simp add: vendor_snapshot_of_def vendor_values_def vendor_narrow_values_def)

lemma vendor_values_of:
  assumes "length v = 18" "v ! 17 = int (length slots)"
  shows "vendor_values (vendor_snapshot_of v slots) = v"
  using assms
  by (auto simp: vendor_values_def vendor_narrow_values_def vendor_snapshot_of_def eval_nat_numeral length_Suc_conv)

definition vendor_snapshot_valid :: "vendor_snapshot \<Rightarrow> bool" where
  "vendor_snapshot_valid s \<longleftrightarrow>
     vs_scene s \<noteq> 0 \<and> vs_revision s \<noteq> 0 \<and> vs_root s \<noteq> 0 \<and> vs_manager s \<noteq> 0 \<and> vs_menu s \<noteq> 0
     \<and> vs_hireling s \<noteq> 0 \<and> vs_building s \<noteq> 0 \<and> vs_vendor s \<noteq> 0
     \<and> 1 \<le> length (vs_slots s) \<and> length (vs_slots s) \<le> 16
     \<and> distinct (map sl_entry (vs_slots s)) \<and> distinct (filter (\<lambda>i. i \<noteq> 0) (map sl_item (vs_slots s)))"

lemma vendor_snapshot_encode_Inr:
  "vendor_snapshot_encode s = Inr bs \<longleftrightarrow>
     (s = empty_vendor_snapshot \<and> bs = zero_bytes 288)
   \<or> (s \<noteq> empty_vendor_snapshot \<and> vendor_snapshot_valid s
      \<and> 0 \<le> vs_scene s \<and> vs_scene s < 2 ^ 64 \<and> 0 \<le> vs_revision s \<and> vs_revision s < 2 ^ 64
      \<and> (\<forall>v \<in> set (vendor_narrow_values s). 0 \<le> v \<and> v < 2 ^ 32)
      \<and> (\<exists>head slots. pack VENDOR_SNAPSHOT_LAYOUT (map WInt (vendor_values s)) = Inr head
          \<and> rmap slot_encode (vs_slots s) = Inr slots
          \<and> bs = head @ concat slots @ zero_bytes ((16 - length (vs_slots s)) * 12 + 16)))"
proof (cases "s = empty_vendor_snapshot")
  case True
  then show ?thesis
    by (auto simp: vendor_snapshot_encode_def result_simps vendor_narrow_values_def empty_vendor_snapshot_def)
next
  case False
  then show ?thesis
    by (auto simp: vendor_snapshot_encode_def rbind_eq_Inr uints_Inr checks_eq_Inr vendor_values_def
        vendor_snapshot_valid_def simp del: checks.simps)
qed

lemma slots_encoded:
  assumes "rmap slot_encode xs = Inr bs"
  shows "length bs = length xs" "list_all (\<lambda>b. length b = 12) bs" "\<And>i. i < length xs \<Longrightarrow> slot_unpack (bs ! i) = Inr (xs ! i)"
  using assms slot_encode_length slot_unpack_encode
  by (auto simp: rmap_Inr_iff list_all2_conv_all_nth list_all_length)

lemma length_concat_chunks: "list_all (\<lambda>b. length b = k) bs \<Longrightarrow> length (concat bs) = length bs * k"
  by (induction bs) auto

lemma vendor_encode_length: "vendor_snapshot_encode s = Inr bs \<Longrightarrow> length bs = 288"
proof -
  assume "vendor_snapshot_encode s = Inr bs"
  then consider "bs = zero_bytes 288"
    | head slots where "vendor_snapshot_valid s" "pack VENDOR_SNAPSHOT_LAYOUT (map WInt (vendor_values s)) = Inr head"
        "rmap slot_encode (vs_slots s) = Inr slots" "bs = head @ concat slots @ zero_bytes ((16 - length (vs_slots s)) * 12 + 16)"
    unfolding vendor_snapshot_encode_Inr by blast
  then show "length bs = 288"
  proof cases
    case 2
    from slots_encoded [OF 2(3)] length_concat_chunks have "length (concat slots) = length (vs_slots s) * 12" by metis
    moreover have "n * 12 + (16 - n) * 12 = 192" if "n \<le> 16" for n :: nat using that by (simp add: diff_mult_distrib)
    ultimately show ?thesis using 2 pack_length [OF 2(2)] by (simp add: snapshot_layout vendor_snapshot_valid_def)
  qed simp
qed

lemma any_byte_append [simp]: "any_byte (xs @ ys) \<longleftrightarrow> any_byte xs \<or> any_byte ys"
  by (simp add: any_byte_def)

lemma pack_zero_ints:
  "list_all int_field fmt \<Longrightarrow> list_all (\<lambda>v. v = 0) xs \<Longrightarrow> pack fmt (map WInt xs) = Inr bs \<Longrightarrow> \<not> any_byte bs"
proof (induction fmt "map WInt xs" arbitrary: xs bs rule: pack.induct)
  case (2 f fs v vs)
  have z: "\<not> any_byte (le_bytes n 0)" for n by (induction n) (simp_all add: any_byte_def)
  from 2 obtain n ys where "f = U n" "v = WInt 0" "vs = map WInt ys" "list_all (\<lambda>v. v = 0) ys"
    by (cases xs) (auto simp: int_field_def)
  then show ?case using 2 z by (auto simp: pack.simps pack_field.simps rbind_eq_Inr split: if_splits)
qed (auto simp: pack.simps any_byte_def)

lemma vendor_values_sized: "list_all2 sized VENDOR_SNAPSHOT_LAYOUT (map WInt (vendor_values s))"
  by (rule sized_int_fields) (simp_all add: snapshot_layout vendor_values_def vendor_narrow_values_def)

lemma vendor_head_nonzero:
  assumes "pack VENDOR_SNAPSHOT_LAYOUT (map WInt (vendor_values s)) = Inr head" "vs_scene s \<noteq> 0"
  shows "any_byte head"
proof (rule ccontr)
  assume "\<not> any_byte head"
  then have z: "head = zero_bytes 80" using pack_length [OF assms(1)] by (simp add: not_any_byte snapshot_layout)
  have "unpack_fields VENDOR_SNAPSHOT_LAYOUT head = map WInt (vendor_values s)"
    using unpack_packed [OF assms(1) vendor_values_sized] by (simp add: unpack_def split: if_splits)
  then have "le_int (take 8 head) = vs_scene s"
    by (simp add: VENDOR_SNAPSHOT_LAYOUT_def unpack_fields.simps vendor_values_def)
  moreover have "le_int (zero_bytes n) = 0" for n by (induction n) (simp_all add: zero_bytes_def)
  then have "le_int (take 8 (zero_bytes 80)) = 0" by (simp add: zero_bytes_def)
  ultimately have "vs_scene s = 0" by (simp add: z)
  then show False using assms(2) by simp
qed

lemma vendor_reencode:
  assumes len: "length bs = 288" and u: "unpack VENDOR_SNAPSHOT_LAYOUT (take 80 bs) = Inr vs"
    and pad: "map wint vs ! 17 \<le> 16" "\<not> any_byte (drop (80 + nat (map wint vs ! 17) * 12) bs)"
    and sl: "rmap (\<lambda>i. slot_unpack (take 12 (drop (80 + i * 12) bs))) [0..<nat (map wint vs ! 17)] = Inr slots"
    and s: "s = vendor_snapshot_of (map wint vs) slots" and e: "\<exists>x. vendor_snapshot_encode s = Inr x" and any: "any_byte bs"
  shows "vendor_snapshot_encode s = Inr bs"
proof -
  let ?v = "map wint vs" and ?n = "nat (map wint vs ! 17)"
  have fits: "list_all2 fits VENDOR_SNAPSHOT_LAYOUT vs" and p: "pack VENDOR_SNAPSHOT_LAYOUT vs = Inr (take 80 bs)"
    using unpack_shape [OF u] by auto
  have vs: "map WInt ?v = vs" using fits_int_fields [OF fits snapshot_layout(1)] .
  have lv: "length ?v = 18" using list_all2_lengthD [OF fits] snapshot_layout by simp
  have "fits (VENDOR_SNAPSHOT_LAYOUT ! 17) (vs ! 17)"
    using list_all2_nthD [OF fits, of 17] by (simp add: snapshot_layout)
  then have nonneg: "0 \<le> ?v ! 17" using lv by (auto simp: VENDOR_SNAPSHOT_LAYOUT_def nth_Cons')
  note sd = rmap_uptD [OF sl]
  have vals: "vendor_values s = ?v" unfolding s using lv sd nonneg by (intro vendor_values_of) auto
  have slots: "vs_slots s = slots" by (simp add: s vendor_snapshot_of_def)
  have "s \<noteq> empty_vendor_snapshot"
  proof
    assume "s = empty_vendor_snapshot"
    then have "list_all (\<lambda>x. x = 0) ?v" and z: "?n = 0"
      using vals sd slots by (auto simp: vendor_values_def vendor_narrow_values_def empty_vendor_snapshot_def)
    then have "\<not> any_byte (take 80 bs)" using pack_zero_ints [OF snapshot_layout(1), of ?v] p vs by simp
    then show False using any pad(2) z any_byte_append [of "take 80 bs" "drop 80 bs"] by simp
  qed
  then obtain head ss y where h: "pack VENDOR_SNAPSHOT_LAYOUT (map WInt (vendor_values s)) = Inr head"
      and ss: "rmap slot_encode (vs_slots s) = Inr ss" and y: "vendor_snapshot_encode s = Inr y"
      and ye: "y = head @ concat ss @ zero_bytes ((16 - length (vs_slots s)) * 12 + 16)"
    using e unfolding vendor_snapshot_encode_Inr by blast
  have "head = take 80 bs" using h p unfolding vals vs by simp
  moreover have "concat ss = take (?n * 12) (drop 80 bs)"
  proof -
    have "ss = map (\<lambda>i. take 12 (drop (i * 12) (drop 80 bs))) [0..<?n]"
    proof (rule nth_equalityI)
      show "length ss = length (map (\<lambda>i. take 12 (drop (i * 12) (drop 80 bs))) [0..<?n])"
        using slots_encoded(1) [OF ss] sd slots by simp
      fix i assume "i < length ss"
      then have i: "i < ?n" using slots_encoded(1) [OF ss] sd slots by simp
      have "slot_encode (slots ! i) = Inr (ss ! i)"
        using ss i sd by (simp add: slots rmap_Inr_iff list_all2_conv_all_nth)
      moreover have "slot_unpack (take 12 (drop (80 + i * 12) bs)) = Inr (slots ! i)" using sd i by blast
      ultimately have "ss ! i = take 12 (drop (80 + i * 12) bs)" using slot_encode_unpack by blast
      then show "ss ! i = map (\<lambda>i. take 12 (drop (i * 12) (drop 80 bs))) [0..<?n] ! i" using i by (simp add: add.commute)
    qed
    then show ?thesis using concat_chunks [of 12 "drop 80 bs" ?n] by simp
  qed
  moreover have "zero_bytes ((16 - length (vs_slots s)) * 12 + 16) = drop (?n * 12) (drop 80 bs)"
  proof -
    have "drop (80 + ?n * 12) bs = zero_bytes (length (drop (80 + ?n * 12) bs))" using pad(2) by (simp add: not_any_byte)
    moreover have "length (drop (80 + ?n * 12) bs) = (16 - ?n) * 12 + 16" using len pad(1) by (simp add: diff_mult_distrib)
    ultimately show ?thesis using sd slots by (simp add: add.commute)
  qed
  ultimately have "y = bs" unfolding ye by (simp only: append_take_drop_id)
  then show ?thesis using y by simp
qed

interpretation vendor_snapshot: wire_codec "\<lambda>_. True" vendor_snapshot_encode vendor_snapshot_decode 288
proof unfold_locales
  show "length bs = 288" if "vendor_snapshot_encode s = Inr bs" for s bs
    using that by (rule vendor_encode_length)
  show "vendor_snapshot_decode bs = Inr s" if e: "vendor_snapshot_encode s = Inr bs" for s bs
  proof (cases "s = empty_vendor_snapshot")
    case True
    then have "bs = zero_bytes 288" using e by (simp add: vendor_snapshot_encode_Inr)
    then show ?thesis using True by (simp add: vendor_snapshot_decode_def)
  next
    case False
    then obtain head slots where valid: "vendor_snapshot_valid s"
        and h: "pack VENDOR_SNAPSHOT_LAYOUT (map WInt (vendor_values s)) = Inr head"
        and sl: "rmap slot_encode (vs_slots s) = Inr slots"
        and bs: "bs = head @ concat slots @ zero_bytes ((16 - length (vs_slots s)) * 12 + 16)"
      using e unfolding vendor_snapshot_encode_Inr by blast
    have lh: "length head = 80" using pack_length [OF h] by (simp add: snapshot_layout)
    have any: "any_byte bs" using vendor_head_nonzero [OF h] valid by (simp add: bs vendor_snapshot_valid_def)
    have u: "unpack VENDOR_SNAPSHOT_LAYOUT (take 80 bs) = Inr (map WInt (vendor_values s))"
      using unpack_packed [OF h vendor_values_sized] lh by (simp add: bs)
    have n17: "vendor_values s ! 17 = int (length (vs_slots s))"
      by (simp add: vendor_values_def vendor_narrow_values_def)
    note sc = slots_encoded [OF sl]
    have lc: "length (concat slots) = length (vs_slots s) * 12" using sc length_concat_chunks by metis
    have rest: "drop (80 + length (vs_slots s) * 12) bs = zero_bytes ((16 - length (vs_slots s)) * 12 + 16)"
      using lh lc by (simp add: bs)
    have "rmap (\<lambda>i. slot_unpack (take 12 (drop (80 + i * 12) bs))) [0..<length (vs_slots s)] = Inr (vs_slots s)"
    proof (rule rmap_upt)
      fix i assume i: "i < length (vs_slots s)"
      have "take 12 (drop (80 + i * 12) bs) = slots ! i"
        using chunk_nth [OF sc(2), of i] i sc(1) lh by (simp add: bs)
      then show "slot_unpack (take 12 (drop (80 + i * 12) bs)) = Inr (vs_slots s ! i)" using sc(3) [OF i] by simp
    qed
    then show ?thesis
      using any u n17 rest valid vendor_encode_length [OF e] e
      by (simp add: vendor_snapshot_decode_def Let_def comp_def vendor_snapshot_of_values vendor_snapshot_valid_def)
  qed
  show "True \<and> vendor_snapshot_encode s = Inr bs" if d: "vendor_snapshot_decode bs = Inr s" for s bs
  proof (cases "any_byte bs")
    case False
    then show ?thesis using d
      by (auto simp: vendor_snapshot_decode_def vendor_snapshot_encode_Inr not_any_byte split: if_splits)
  next
    case True
    from d True obtain vs slots where len: "length bs = 288"
        and u: "unpack VENDOR_SNAPSHOT_LAYOUT (take 80 bs) = Inr vs"
        and pad: "map wint vs ! 17 \<le> 16" "\<not> any_byte (drop (80 + nat (map wint vs ! 17) * 12) bs)"
        and sl: "rmap (\<lambda>i. slot_unpack (take 12 (drop (80 + i * 12) bs))) [0..<nat (map wint vs ! 17)] = Inr slots"
        and s: "s = vendor_snapshot_of (map wint vs) slots" and e: "\<exists>x. vendor_snapshot_encode s = Inr x"
      by (auto simp: vendor_snapshot_decode_def Let_def rbind_eq_Inr split: if_splits)
    show ?thesis using vendor_reencode [OF len u pad sl s e True] by simp
  qed
qed

subsection \<open>Commands and receipts lose nothing\<close>

lemma decoded_request_inject:
  assumes "length a = 16" "length b = 16"
    and "(if any_byte a then Some (uuid_str a) else None) = (if any_byte b then Some (uuid_str b) else None)"
  shows "a = b"
  using assms uuid_str_inject [OF assms(1,2)] not_any_byte [of a] not_any_byte [of b] by (auto split: if_splits)

lemma vendor_command_Inr:
  assumes "vendor_command_encode c verb = Inr bs"
  obtains h q e where "host_encode (vc_host c) = Inr h" "request_bytes (vc_request_key c) = Inr q"
    "vendor_snapshot_encode (vc_expected c) = Inr e"
    "unpack VENDOR_COMMAND_LAYOUT bs = Inr [WBytes h, WInt (vc_window c), WBytes q, WBytes e, WInt (vc_item c), WBytes (zero_bytes 244)]"
proof -
  from assms obtain h q e where parts: "host_encode (vc_host c) = Inr h" "request_bytes (vc_request_key c) = Inr q"
    "vendor_snapshot_encode (vc_expected c) = Inr e"
    and p: "pack VENDOR_COMMAND_LAYOUT
       [WBytes h, WInt (vc_window c), WBytes q, WBytes e, WInt (vc_item c), WBytes (zero_bytes 244)] = Inr bs"
    by (auto simp: vendor_command_encode_def rbind_eq_Inr)
  have "unpack VENDOR_COMMAND_LAYOUT bs = Inr [WBytes h, WInt (vc_window c), WBytes q, WBytes e, WInt (vc_item c), WBytes (zero_bytes 244)]"
    using p by (rule unpack_packed)
      (use parts in \<open>simp add: VENDOR_COMMAND_LAYOUT_def host.encode_length vendor_snapshot.encode_length request_bytes_Inr\<close>)
  with parts show thesis by (rule that)
qed

lemma vendor_receipt_shape:
  assumes "vendor_receipt_decode bs = Inr r"
  obtains q h s t where
    "pack VENDOR_RECEIPT_LAYOUT [WBytes q, WBytes h, WInt (vr_window r), WInt (vendor_outcome_value (vr_outcome r)),
       WInt (vr_flags r), WBytes s, WInt VENDOR_MAGIC, WInt (vr_transition_item r), WBytes t, WBytes (zero_bytes 24)] = Inr bs"
    "request_bytes (vr_request_key r) = Inr q" "host_encode (vr_host r) = Inr h"
    "vendor_snapshot_encode (vr_snapshot r) = Inr s" "length t = 16"
    "vr_transition_request r = (if any_byte t then Some (uuid_str t) else None)"
proof -
  from assms obtain v where u: "unpack VENDOR_RECEIPT_LAYOUT bs = Inr v"
    and f: "wint (v ! 6) = VENDOR_MAGIC" "\<not> any_byte (wbytes (v ! 9))" "vr_window r = wint (v ! 2)" "vr_flags r = wint (v ! 4)"
      "vr_transition_item r = wint (v ! 7)" "vr_request_key r = uuid_str (wbytes (v ! 0))"
      "vendor_outcome_value (vr_outcome r) = wint (v ! 3)"
      "vr_transition_request r = (if any_byte (wbytes (v ! 8)) then Some (uuid_str (wbytes (v ! 8))) else None)"
    and g: "returns (request_bytes (uuid_str (wbytes (v ! 0))))" "host_decode (wbytes (v ! 1)) = Inr (vr_host r)"
      "vendor_snapshot_decode (wbytes (v ! 5)) = Inr (vr_snapshot r)"
    by (auto simp: vendor_receipt_decode_def Let_def rbind_eq_Inr vendor_outcome_enum split: if_splits)
  from unpack_shape [OF u] obtain q h a b c s d e t z where
    v: "v = [WBytes q, WBytes h, WInt a, WInt b, WInt c, WBytes s, WInt d, WInt e, WBytes t, WBytes z]"
      and l: "length q = 16" "length t = 16" "length z = 24" and p: "pack VENDOR_RECEIPT_LAYOUT v = Inr bs"
    by (auto simp: VENDOR_RECEIPT_LAYOUT_def list_all2_Cons1)
  have "z = zero_bytes 24" using f(2) l(3) by (simp add: v not_any_byte)
  then have "pack VENDOR_RECEIPT_LAYOUT [WBytes q, WBytes h, WInt (vr_window r), WInt (vendor_outcome_value (vr_outcome r)),
       WInt (vr_flags r), WBytes s, WInt VENDOR_MAGIC, WInt (vr_transition_item r), WBytes t, WBytes (zero_bytes 24)] = Inr bs"
    using p f by (simp add: v)
  moreover have "request_bytes (vr_request_key r) = Inr q"
    using f(6) g(1) l(1) by (auto simp: v request_bytes_Inr dest: uuid_str_inject)
  ultimately show thesis
    using g f(8) l(2) by (intro that [of q h s t]) (simp_all add: v host.decode_iff vendor_snapshot.decode_iff)
qed

subsection \<open>Properties\<close>

text \<open>The vendor snapshot codec is lossless and canonical: encoding and decoding are inverse to each other
  on exactly the byte strings of 288 bytes that encode some snapshot.\<close>

lemma vendor_snapshot_codec:
  "vendor_snapshot_decode bs = Inr s \<longleftrightarrow> vendor_snapshot_encode s = Inr bs"
  by (simp add: vendor_snapshot.decode_iff)

text \<open>A vendor command is recoverable from its bytes: two commands that encode to the same bytes for
  some verbs agree in every field.\<close>

lemma vendor_command_lossless:
  assumes "vendor_command_encode c verb = Inr bs" "vendor_command_encode c' verb' = Inr bs"
  shows "c = c'"
proof -
  from vendor_command_Inr [OF assms(1)] obtain h q e where 1: "host_encode (vc_host c) = Inr h"
      "request_bytes (vc_request_key c) = Inr q" "vendor_snapshot_encode (vc_expected c) = Inr e"
      "unpack VENDOR_COMMAND_LAYOUT bs = Inr [WBytes h, WInt (vc_window c), WBytes q, WBytes e, WInt (vc_item c), WBytes (zero_bytes 244)]" .
  from vendor_command_Inr [OF assms(2)] obtain h' q' e' where 2: "host_encode (vc_host c') = Inr h'"
      "request_bytes (vc_request_key c') = Inr q'" "vendor_snapshot_encode (vc_expected c') = Inr e'"
      "unpack VENDOR_COMMAND_LAYOUT bs = Inr [WBytes h', WInt (vc_window c'), WBytes q', WBytes e', WInt (vc_item c'), WBytes (zero_bytes 244)]" .
  have eq: "h = h'" "vc_window c = vc_window c'" "q = q'" "e = e'" "vc_item c = vc_item c'" using 1(4) 2(4) by simp_all
  then have "vc_host c = vc_host c'" "vc_expected c = vc_expected c'" "vc_request_key c = vc_request_key c'"
    using 1 2 host.encode_inject vendor_snapshot.encode_inject by (auto simp: request_bytes_Inr)
  with eq show ?thesis by (cases c; cases c') simp
qed

definition example_vendor_command :: "int \<Rightarrow> vendor_command" where
  "example_vendor_command window = \<lparr>vc_host = example_host, vc_window = window, vc_request_key = example_key,
     vc_expected = empty_vendor_snapshot, vc_item = 0\<rparr>"

theorem vendor_command_lossless_witness:
  "\<not> isl (vendor_command_encode (example_vendor_command 9) V_INSPECT)
   \<and> vendor_command_encode (example_vendor_command 9) V_INSPECT \<noteq> vendor_command_encode (example_vendor_command 10) V_INSPECT"
proof -
  have r: "\<not> isl (vendor_command_encode (example_vendor_command 9) V_INSPECT)" by code_simp
  then obtain bs where bs: "vendor_command_encode (example_vendor_command 9) V_INSPECT = Inr bs"
    by (cases "vendor_command_encode (example_vendor_command 9) V_INSPECT") auto
  have "example_vendor_command 9 \<noteq> example_vendor_command 10" by (simp add: example_vendor_command_def)
  then show ?thesis using r bs vendor_command_lossless [of "example_vendor_command 9" V_INSPECT bs "example_vendor_command 10" V_INSPECT]
    by auto
qed

text \<open>Vendor receipts are not malleable: no two byte strings decode to the same receipt.\<close>

theorem vendor_receipt_canonical:
  assumes "vendor_receipt_decode bs = Inr r" "vendor_receipt_decode bs' = Inr r"
  shows "bs = bs'"
proof -
  from vendor_receipt_shape [OF assms(1)] obtain q h s t where 1: "pack VENDOR_RECEIPT_LAYOUT [WBytes q, WBytes h,
       WInt (vr_window r), WInt (vendor_outcome_value (vr_outcome r)), WInt (vr_flags r), WBytes s, WInt VENDOR_MAGIC,
       WInt (vr_transition_item r), WBytes t, WBytes (zero_bytes 24)] = Inr bs"
    "request_bytes (vr_request_key r) = Inr q" "host_encode (vr_host r) = Inr h"
    "vendor_snapshot_encode (vr_snapshot r) = Inr s" "length t = 16"
    "vr_transition_request r = (if any_byte t then Some (uuid_str t) else None)" .
  from vendor_receipt_shape [OF assms(2)] obtain q' h' s' t' where 2: "pack VENDOR_RECEIPT_LAYOUT [WBytes q', WBytes h',
       WInt (vr_window r), WInt (vendor_outcome_value (vr_outcome r)), WInt (vr_flags r), WBytes s', WInt VENDOR_MAGIC,
       WInt (vr_transition_item r), WBytes t', WBytes (zero_bytes 24)] = Inr bs'"
    "request_bytes (vr_request_key r) = Inr q'" "host_encode (vr_host r) = Inr h'"
    "vendor_snapshot_encode (vr_snapshot r) = Inr s'" "length t' = 16"
    "vr_transition_request r = (if any_byte t' then Some (uuid_str t') else None)" .
  have "t = t'" using 1(5,6) 2(5,6) by (metis decoded_request_inject)
  then show ?thesis using 1 2 by simp
qed

definition example_vendor_receipt :: "int \<Rightarrow> bytes" where
  "example_vendor_receipt window = projr (pack VENDOR_RECEIPT_LAYOUT
     [WBytes (projr (request_bytes example_key)), WBytes (projr (host_encode example_host)), WInt window, WInt 0, WInt 0,
      WBytes (zero_bytes 288), WInt VENDOR_MAGIC, WInt 0, WBytes (zero_bytes 16), WBytes (zero_bytes 24)])"

theorem vendor_receipt_canonical_witness:
  "\<not> isl (vendor_receipt_decode (example_vendor_receipt 9))
   \<and> vendor_receipt_decode (example_vendor_receipt 9) \<noteq> vendor_receipt_decode (example_vendor_receipt 10)"
proof -
  have r: "\<not> isl (vendor_receipt_decode (example_vendor_receipt 9))" by code_simp
  then obtain x where x: "vendor_receipt_decode (example_vendor_receipt 9) = Inr x"
    by (cases "vendor_receipt_decode (example_vendor_receipt 9)") auto
  have "example_vendor_receipt 9 \<noteq> example_vendor_receipt 10" by code_simp
  then show ?thesis using r x vendor_receipt_canonical [of "example_vendor_receipt 9" x "example_vendor_receipt 10"] by auto
qed

end
