(* ===== verification/Condemn_Wire.thy ===== *)
theory Condemn_Wire
  imports Vendor_Wire
begin

text \<open>
  Scoped Condemn payloads (\<^verbatim>\<open>client_extension/condemn_wire.py\<close>, with \<open>key\<close> of \<^verbatim>\<open>condemn_evidence.py\<close>): the
  target of a condemnation, the observed list snapshot, the inspect and ensure commands and the
  receipt of an ongoing transition, all byte for byte.
\<close>

subsection \<open>Keys and targets\<close>

type_synonym wire_key = "int \<times> int"

definition evidence_integer :: "int \<Rightarrow> int \<Rightarrow> int result" where
  "evidence_integer v maximum =
     (if 0 \<le> v \<and> v \<le> maximum then Inr v else Inl (CondemnResponseError ''invalid Condemn evidence integer''))"

definition evidence_key :: "wire_key \<Rightarrow> int option \<Rightarrow> bool \<Rightarrow> unit result" where
  "evidence_key k kind allow_empty =
     rbind (evidence_integer (fst k) (2 ^ 32 - 1)) (\<lambda>_.
     rbind (evidence_integer (snd k) (2 ^ 32 - 1)) (\<lambda>_.
     if k = (0, 0) \<and> allow_empty then Inr ()
     else checks [(fst k = 0 \<or> snd k = 0 \<or> (case kind of None \<Rightarrow> False | Some n \<Rightarrow> snd k \<noteq> n),
       CondemnResponseError ''invalid Condemn evidence key type'')]))"

datatype condemn_verb = C_INSPECT | C_ENSURE

fun condemn_verb_value :: "condemn_verb \<Rightarrow> int" where
  "condemn_verb_value C_INSPECT = 23"
| "condemn_verb_value C_ENSURE = 24"

datatype condemn_phase = IDLE | OPENING | ADDING | ENABLING | VERIFIED | UNCERTAIN_PHASE | EXISTING

fun condemn_phase_value :: "condemn_phase \<Rightarrow> int" where
  "condemn_phase_value IDLE = 0"
| "condemn_phase_value OPENING = 1"
| "condemn_phase_value ADDING = 2"
| "condemn_phase_value ENABLING = 3"
| "condemn_phase_value VERIFIED = 4"
| "condemn_phase_value UNCERTAIN_PHASE = 5"
| "condemn_phase_value EXISTING = 6"

definition condemn_phases_all :: "condemn_phase list" where
  "condemn_phases_all = [IDLE, OPENING, ADDING, ENABLING, VERIFIED, UNCERTAIN_PHASE, EXISTING]"

definition CONDEMN_MAGIC :: int where "CONDEMN_MAGIC = 0x57424B31"

record target =
  tg_building :: wire_key
  tg_identity :: wire_key
  tg_scope :: int

definition target_ok :: "target \<Rightarrow> unit result" where
  "target_ok t =
     rbind (evidence_key (tg_building t) (Some 8) False) (\<lambda>_.
     rbind (evidence_key (tg_identity t) (Some 23) False) (\<lambda>_.
     checks [(tg_scope t \<notin> {4, 5}, ValueError ''Condemn requires separate guild (4) or nation (5) scope'')]))"

definition TARGET_LAYOUT :: "field list" where
  "TARGET_LAYOUT = [U 4, U 4, U 4, U 4, U 4]"

definition target_encode :: "target \<Rightarrow> bytes result" where
  "target_encode t = pack TARGET_LAYOUT (map WInt
     [fst (tg_building t), snd (tg_building t), fst (tg_identity t), snd (tg_identity t), tg_scope t])"

definition target_decode :: "bytes \<Rightarrow> target result" where
  "target_decode data =
     (if length data \<noteq> 20 then Inl (ValueError ''invalid Condemn payload size'')
      else rbind (unpack TARGET_LAYOUT data) (\<lambda>v. validated target_ok
        \<lparr>tg_building = (wint (v ! 0), wint (v ! 1)), tg_identity = (wint (v ! 2), wint (v ! 3)), tg_scope = wint (v ! 4)\<rparr>))"

subsection \<open>Snapshots\<close>

record condemn_snapshot =
  cs_scene :: int
  cs_revision :: int
  cs_local :: wire_key
  cs_root :: int
  cs_manager :: int
  cs_building_hud :: int
  cs_front :: int
  cs_open_button :: int
  cs_building :: wire_key
  cs_kos :: int
  cs_list_control :: int
  cs_selected :: int
  cs_list_selected :: int
  cs_count :: int
  cs_context :: wire_key
  cs_pending :: "wire_key list"
  cs_flags :: int
  cs_row :: int
  cs_entry :: int
  cs_enabled :: int
  cs_collision :: int
  cs_entry_key :: wire_key

definition empty_condemn_snapshot :: condemn_snapshot where
  "empty_condemn_snapshot =
     \<lparr>cs_scene = 0, cs_revision = 0, cs_local = (0, 0), cs_root = 0, cs_manager = 0, cs_building_hud = 0, cs_front = 0,
      cs_open_button = 0, cs_building = (0, 0), cs_kos = 0, cs_list_control = 0, cs_selected = 0, cs_list_selected = 0,
      cs_count = 0, cs_context = (0, 0), cs_pending = [(0, 0), (0, 0), (0, 0)], cs_flags = 0, cs_row = 0, cs_entry = 0,
      cs_enabled = 0, cs_collision = 0, cs_entry_key = (0, 0)\<rparr>"

definition condemn_snapshot_ok :: "condemn_snapshot \<Rightarrow> unit result" where
  "condemn_snapshot_ok s =
     rbind (riter (\<lambda>k. evidence_key k None True) [cs_local s, cs_building s, cs_context s, cs_entry_key s]) (\<lambda>_.
     rbind (checks [(length (cs_pending s) \<noteq> 3, ValueError ''three separately scoped pending keys required'')]) (\<lambda>_.
     riter (\<lambda>k. evidence_key k None True) (cs_pending s)))"

definition owned :: "condemn_snapshot \<Rightarrow> target \<Rightarrow> bool" where
  "owned s t \<longleftrightarrow> cs_scene s \<noteq> 0 \<and> cs_revision s \<noteq> 0 \<and> fst (cs_local s) \<noteq> 0 \<and> snd (cs_local s) = 53 \<and> cs_root s \<noteq> 0
     \<and> cs_manager s \<noteq> 0 \<and> cs_building_hud s \<noteq> 0 \<and> cs_building s = tg_building t \<and> cs_collision s = 0"

definition owned_list :: "condemn_snapshot \<Rightarrow> target \<Rightarrow> bool" where
  "owned_list s t \<longleftrightarrow> owned s t \<and> cs_kos s \<noteq> 0 \<and> cs_list_control s \<noteq> 0 \<and> cs_front s = cs_kos s
     \<and> cs_context s = tg_building t \<and> cs_flags s = 0"

definition eligible_snapshot :: "condemn_snapshot \<Rightarrow> target \<Rightarrow> bool" where
  "eligible_snapshot s t \<longleftrightarrow> owned s t \<and>
     ((cs_front s = cs_building_hud s \<and> cs_open_button s \<noteq> 0)
      \<or> (owned_list s t \<and> (cs_entry s \<noteq> 0 \<or> cs_count s < 512)))"

definition condemn_values :: "condemn_snapshot \<Rightarrow> int list" where
  "condemn_values s =
     [fst (cs_local s), snd (cs_local s), cs_root s, cs_manager s, cs_building_hud s, cs_front s, cs_open_button s,
      fst (cs_building s), snd (cs_building s), cs_kos s, cs_list_control s, cs_selected s, cs_list_selected s, cs_count s,
      fst (cs_context s), snd (cs_context s)]
     @ concat (map (\<lambda>(a, b). [a, b]) (cs_pending s))
     @ [cs_flags s, cs_row s, cs_entry s, cs_enabled s, cs_collision s, fst (cs_entry_key s), snd (cs_entry_key s)]"

definition CONDEMN_SNAPSHOT_LAYOUT :: "field list" where
  "CONDEMN_SNAPSHOT_LAYOUT = U 8 # U 8 # replicate 29 (U 4)"

definition invalid_condemn_snapshot :: "condemn_snapshot \<Rightarrow> bool" where
  "invalid_condemn_snapshot s \<longleftrightarrow>
     \<not> (cs_scene s \<noteq> 0 \<and> cs_revision s \<noteq> 0 \<and> cs_root s \<noteq> 0 \<and> cs_manager s \<noteq> 0 \<and> cs_building_hud s \<noteq> 0)
     \<or> snd (cs_local s) \<noteq> 53
     \<or> fst (cs_local s) = 0
     \<or> snd (cs_building s) \<noteq> 8
     \<or> fst (cs_building s) = 0
     \<or> cs_count s > 512
     \<or> cs_enabled s > 1
     \<or> cs_collision s > 1
     \<or> outside_mask (cs_flags s) 0x101
     \<or> (cs_entry s \<noteq> 0) \<noteq> (cs_row s \<noteq> 0)
     \<or> (cs_entry s \<noteq> 0) \<noteq> (fst (cs_entry_key s) \<noteq> 0)
     \<or> (cs_entry s \<noteq> 0 \<and> snd (cs_entry_key s) \<noteq> 23)
     \<or> (cs_entry s = 0 \<and> cs_enabled s \<noteq> 0)
     \<or> (cs_kos s \<noteq> 0 \<and> cs_list_control s = 0)
     \<or> (cs_kos s = 0 \<and> list_ex (\<lambda>v. v \<noteq> 0)
          ([cs_list_control s, cs_selected s, cs_list_selected s, cs_count s, fst (cs_context s), snd (cs_context s),
            cs_flags s, cs_row s] @ concat (map (\<lambda>(a, b). [a, b]) (cs_pending s))))"

definition condemn_snapshot_encode :: "condemn_snapshot \<Rightarrow> bytes result" where
  "condemn_snapshot_encode s =
     rbind (uints 64 ''scene'' [cs_scene s]) (\<lambda>_.
     rbind (uints 64 ''revision'' [cs_revision s]) (\<lambda>_.
     rbind (uints 32 ''Condemn snapshot field'' (condemn_values s)) (\<lambda>_.
     rbind (checks [(s \<noteq> empty_condemn_snapshot \<and> invalid_condemn_snapshot s, ValueError ''invalid Condemn snapshot'')]) (\<lambda>_.
     pack CONDEMN_SNAPSHOT_LAYOUT (map WInt ([cs_scene s, cs_revision s] @ condemn_values s))))))"

text \<open>\<open>cls(scene, revision, tuple(v[:2]), ...)\<close>, where \<open>v\<close> is what follows the two 64-bit fields.\<close>

definition condemn_snapshot_of :: "int \<Rightarrow> int \<Rightarrow> int list \<Rightarrow> condemn_snapshot" where
  "condemn_snapshot_of scene revision v =
     \<lparr>cs_scene = scene, cs_revision = revision, cs_local = (v ! 0, v ! 1), cs_root = v ! 2, cs_manager = v ! 3,
      cs_building_hud = v ! 4, cs_front = v ! 5, cs_open_button = v ! 6, cs_building = (v ! 7, v ! 8), cs_kos = v ! 9,
      cs_list_control = v ! 10, cs_selected = v ! 11, cs_list_selected = v ! 12, cs_count = v ! 13,
      cs_context = (v ! 14, v ! 15), cs_pending = [(v ! 16, v ! 17), (v ! 18, v ! 19), (v ! 20, v ! 21)],
      cs_flags = v ! 22, cs_row = v ! 23, cs_entry = v ! 24, cs_enabled = v ! 25, cs_collision = v ! 26,
      cs_entry_key = (v ! 27, v ! 28)\<rparr>"

definition condemn_snapshot_decode :: "bytes \<Rightarrow> condemn_snapshot result" where
  "condemn_snapshot_decode data =
     (if length data \<noteq> 132 then Inl (ValueError ''invalid Condemn payload size'')
      else rbind (unpack CONDEMN_SNAPSHOT_LAYOUT data) (\<lambda>vs.
        let v = map wint vs in
        rbind (validated condemn_snapshot_ok (condemn_snapshot_of (v ! 0) (v ! 1) (drop 2 v))) (\<lambda>result.
        rbind (condemn_snapshot_encode result) (\<lambda>_. Inr result))))"

subsection \<open>Commands\<close>

definition optional_request :: "string option \<Rightarrow> bytes result" where
  "optional_request value = (case value of None \<Rightarrow> Inr (zero_bytes 16) | Some k \<Rightarrow> request_bytes k)"

record condemn_command =
  cc_host :: host
  cc_window :: int
  cc_request_key :: string
  cc_target :: target
  cc_expected :: condemn_snapshot
  cc_transition_request :: "string option"

definition CONDEMN_COMMAND_LAYOUT :: "field list" where
  "CONDEMN_COMMAND_LAYOUT = [S 16, U 8, S 16, S 20, S 132, S 16, S 368]"

definition condemn_command_encode :: "condemn_command \<Rightarrow> condemn_verb \<Rightarrow> bytes result" where
  "condemn_command_encode c verb =
     rbind (vendor_uint (cc_window c) 32 ''window'') (\<lambda>window.
     rbind (checks [(window = 0, ValueError ''exact client HWND required'')]) (\<lambda>_.
     rbind (condemn_snapshot_encode (cc_expected c)) (\<lambda>state.
     rbind (checks
       [((verb = C_INSPECT \<and> cc_expected c \<noteq> empty_condemn_snapshot)
         \<or> (verb = C_ENSURE \<and> (cc_transition_request c \<noteq> None \<or> \<not> eligible_snapshot (cc_expected c) (cc_target c))),
         ValueError ''invalid Condemn action arguments'')]) (\<lambda>_.
     rbind (host_encode (cc_host c)) (\<lambda>host.
     rbind (request_bytes (cc_request_key c)) (\<lambda>request.
     rbind (target_encode (cc_target c)) (\<lambda>target.
     rbind (optional_request (cc_transition_request c)) (\<lambda>transition.
     pack CONDEMN_COMMAND_LAYOUT
       [WBytes host, WInt (cc_window c), WBytes request, WBytes target, WBytes state, WBytes transition,
        WBytes (zero_bytes 368)]))))))))"

definition condemn_command_decode :: "bytes \<Rightarrow> condemn_verb \<Rightarrow> condemn_command result" where
  "condemn_command_decode data verb =
     (if length data \<noteq> 576 then Inl (ValueError ''invalid Condemn payload size'')
      else rbind (unpack CONDEMN_COMMAND_LAYOUT data) (\<lambda>v.
        rbind (checks [(any_byte (wbytes (v ! 6)), ValueError ''nonzero Condemn command padding'')]) (\<lambda>_.
        rbind (host_decode (wbytes (v ! 0))) (\<lambda>host.
        rbind (target_decode (wbytes (v ! 3))) (\<lambda>target.
        rbind (condemn_snapshot_decode (wbytes (v ! 4))) (\<lambda>snapshot.
        let result = \<lparr>cc_host = host, cc_window = wint (v ! 1), cc_request_key = uuid_str (wbytes (v ! 2)),
              cc_target = target, cc_expected = snapshot, cc_transition_request = decoded_request (wbytes (v ! 5))\<rparr>
        in rbind (condemn_command_encode result verb) (\<lambda>again.
           if again \<noteq> data then Inl (ValueError ''noncanonical Condemn command'') else Inr result)))))))"

subsection \<open>Receipts\<close>

record condemn_receipt =
  cr_request_key :: string
  cr_host :: host
  cr_window :: int
  cr_outcome :: vendor_outcome
  cr_flags :: int
  cr_snapshot :: condemn_snapshot
  cr_target :: "target option"
  cr_transition_target :: "target option"
  cr_transition_request :: "string option"
  cr_phase :: condemn_phase
  cr_action_tick :: int
  cr_response_floor :: int
  cr_completion_sequence :: int

definition CONDEMN_RECEIPT_LAYOUT :: "field list" where
  "CONDEMN_RECEIPT_LAYOUT = [S 16, S 16, U 8, U 4, U 4, S 132, S 20, S 20, S 16, U 4, U 4, U 8, U 8, U 8, S 116]"

definition optional_target :: "target option \<Rightarrow> bytes result" where
  "optional_target t = (case t of None \<Rightarrow> Inr (zero_bytes 20) | Some x \<Rightarrow> target_encode x)"

definition decoded_target :: "bytes \<Rightarrow> target option result" where
  "decoded_target b = (if any_byte b then rbind (target_decode b) (\<lambda>t. Inr (Some t)) else Inr None)"

definition contradictory_receipt ::
    "condemn_snapshot \<Rightarrow> target option \<Rightarrow> target option \<Rightarrow> string option \<Rightarrow> condemn_phase \<Rightarrow> int \<Rightarrow> int \<Rightarrow> int \<Rightarrow> int \<Rightarrow> bool" where
  "contradictory_receipt snapshot target transition_target transition phase flags tick response_floor completion \<longleftrightarrow>
     (snapshot \<noteq> empty_condemn_snapshot
        \<and> (case target of None \<Rightarrow> True | Some t \<Rightarrow> cs_building snapshot \<noteq> tg_building t))
     \<or> (has_flag flags IN_FLIGHT \<and> (transition = None \<or> target \<noteq> transition_target))
     \<or> has_flag flags UNRESOLVED \<noteq> (phase = UNCERTAIN_PHASE)
     \<or> (completion \<noteq> 0 \<and> phase \<notin> {ENABLING, VERIFIED, UNCERTAIN_PHASE})
     \<or> (tick = 0 \<and> (response_floor \<noteq> 0 \<or> completion \<noteq> 0))
     \<or> (has_flag flags READY \<and> (has_flag flags (IN_FLIGHT OR UNRESOLVED)
          \<or> (case target of None \<Rightarrow> True | Some t \<Rightarrow> \<not> eligible_snapshot snapshot t)))
     \<or> (transition \<noteq> None) \<noteq> (transition_target \<noteq> None)
     \<or> (phase \<in> {OPENING, ADDING, ENABLING}
          \<and> (\<not> has_flag flags IN_FLIGHT \<or> has_flag flags UNRESOLVED \<or> transition = None \<or> tick = 0))
     \<or> (phase = UNCERTAIN_PHASE \<and> \<not> has_flag flags UNRESOLVED)
     \<or> (phase \<in> {VERIFIED, EXISTING} \<and> (has_flag flags (IN_FLIGHT OR UNRESOLVED) \<or> transition = None))
     \<or> (phase = VERIFIED \<and> (completion = 0 \<or> completion \<le> response_floor \<or> tick = 0))
     \<or> (phase = EXISTING \<and> completion \<noteq> 0)
     \<or> response_floor \<ge> 2 ^ 63 \<or> completion \<ge> 2 ^ 63"

definition condemn_receipt_decode :: "bytes \<Rightarrow> condemn_receipt result" where
  "condemn_receipt_decode data =
     (if length data \<noteq> 384 then Inl (ValueError ''invalid Condemn payload size'')
      else rbind (unpack CONDEMN_RECEIPT_LAYOUT data) (\<lambda>v.
        let window = wint (v ! 2); flags = wint (v ! 4); tick = wint (v ! 11); response_floor = wint (v ! 12);
            completion = wint (v ! 13) in
        rbind (checks [(wint (v ! 10) \<noteq> CONDEMN_MAGIC \<or> outside_mask flags 7 \<or> any_byte (wbytes (v ! 14))
          \<or> \<not> (0 < window \<and> window < 2 ^ 32), ValueError ''invalid Condemn receipt'')]) (\<lambda>_.
        rbind (condemn_snapshot_decode (wbytes (v ! 5))) (\<lambda>snapshot.
        rbind (decoded_target (wbytes (v ! 6))) (\<lambda>target.
        rbind (decoded_target (wbytes (v ! 7))) (\<lambda>transition_target.
        let transition = decoded_request (wbytes (v ! 8)) in
        rbind (int_enum condemn_phase_value condemn_phases_all ''Phase'' (wint (v ! 9))) (\<lambda>phase.
        rbind (checks [(contradictory_receipt snapshot target transition_target transition phase flags tick response_floor completion,
          ValueError ''contradictory Condemn receipt ownership'')]) (\<lambda>_.
        let request = uuid_str (wbytes (v ! 0)) in
        rbind (request_bytes request) (\<lambda>_.
        rbind (host_decode (wbytes (v ! 1))) (\<lambda>host.
        rbind (int_enum vendor_outcome_value vendor_outcomes_all ''Outcome'' (wint (v ! 3))) (\<lambda>outcome.
        Inr \<lparr>cr_request_key = request, cr_host = host, cr_window = window, cr_outcome = outcome, cr_flags = flags,
             cr_snapshot = snapshot, cr_target = target, cr_transition_target = transition_target,
             cr_transition_request = transition, cr_phase = phase, cr_action_tick = tick, cr_response_floor = response_floor,
             cr_completion_sequence = completion\<rparr>)))))))))))"

definition condemn_receipt_encode :: "condemn_receipt \<Rightarrow> bytes result" where
  "condemn_receipt_encode r =
     rbind (uints 64 ''Condemn receipt counter'' [cr_action_tick r, cr_response_floor r, cr_completion_sequence r]) (\<lambda>_.
     rbind (uints 32 ''receipt flags'' [cr_flags r]) (\<lambda>_.
     rbind (uints 32 ''window'' [cr_window r]) (\<lambda>_.
     rbind (request_bytes (cr_request_key r)) (\<lambda>request.
     rbind (host_encode (cr_host r)) (\<lambda>host.
     rbind (condemn_snapshot_encode (cr_snapshot r)) (\<lambda>snapshot.
     rbind (optional_target (cr_target r)) (\<lambda>target.
     rbind (optional_target (cr_transition_target r)) (\<lambda>transition_target.
     rbind (optional_request (cr_transition_request r)) (\<lambda>transition.
     rbind (pack CONDEMN_RECEIPT_LAYOUT
       [WBytes request, WBytes host, WInt (cr_window r), WInt (vendor_outcome_value (cr_outcome r)), WInt (cr_flags r),
        WBytes snapshot, WBytes target, WBytes transition_target, WBytes transition,
        WInt (condemn_phase_value (cr_phase r)), WInt CONDEMN_MAGIC, WInt (cr_action_tick r),
        WInt (cr_response_floor r), WInt (cr_completion_sequence r), WBytes (zero_bytes 116)]) (\<lambda>raw.
     rbind (condemn_receipt_decode raw) (\<lambda>again.
     if again \<noteq> r then Inl (ValueError ''noncanonical Condemn receipt'') else Inr raw)))))))))))"

subsection \<open>The codecs are inverse\<close>

lemma condemn_phase_enum: "int_enum condemn_phase_value condemn_phases_all cls n = Inr e \<longleftrightarrow> condemn_phase_value e = n"
  by (rule int_enum_Inr) (auto simp: condemn_phases_all_def intro: condemn_phase.exhaust)

lemma layout_sizes_condemn:
  "layout_size TARGET_LAYOUT = 20" "layout_size CONDEMN_SNAPSHOT_LAYOUT = 132"
  "layout_size CONDEMN_COMMAND_LAYOUT = 576" "layout_size CONDEMN_RECEIPT_LAYOUT = 384"
  "list_all int_field CONDEMN_SNAPSHOT_LAYOUT" "length CONDEMN_SNAPSHOT_LAYOUT = 31"
  by (auto simp: TARGET_LAYOUT_def CONDEMN_SNAPSHOT_LAYOUT_def CONDEMN_COMMAND_LAYOUT_def CONDEMN_RECEIPT_LAYOUT_def
      layout_size_def sum_list_replicate list_all_iff)

interpretation target: wire_codec "\<lambda>t. target_ok t = Inr ()" target_encode target_decode 20
proof unfold_locales
  show "length bs = 20" if "target_encode t = Inr bs" for t bs
    using that by (auto simp: target_encode_def layout_sizes_condemn dest: pack_length)
  show "target_decode bs = Inr t" if ok: "target_ok t = Inr ()" and e: "target_encode t = Inr bs" for t bs
  proof -
    have "unpack TARGET_LAYOUT bs = Inr (map WInt
     [fst (tg_building t), snd (tg_building t), fst (tg_identity t), snd (tg_identity t), tg_scope t])"
      using e unfolding target_encode_def by (rule unpack_packed) (simp add: TARGET_LAYOUT_def)
    moreover have "length bs = 20" using e by (auto simp: target_encode_def layout_sizes_condemn dest: pack_length)
    ultimately show ?thesis using ok by (cases t) (simp add: target_decode_def validated_def)
  qed
  show "target_ok t = Inr () \<and> target_encode t = Inr bs" if "target_decode bs = Inr t" for t bs
    using that by (auto simp: target_decode_def target_encode_def rbind_eq_Inr validated_Inr TARGET_LAYOUT_def list_all2_Cons1
        split: if_splits dest!: unpack_shape)
qed

lemma condemn_values_length: "length (cs_pending s) = 3 \<Longrightarrow> length (condemn_values s) = 29"
  by (auto simp: condemn_values_def eval_nat_numeral length_Suc_conv)

lemma condemn_snapshot_of_values:
  "length (cs_pending s) = 3 \<Longrightarrow> condemn_snapshot_of (cs_scene s) (cs_revision s) (condemn_values s) = s"
  by (cases s) (auto simp: condemn_snapshot_of_def condemn_values_def eval_nat_numeral length_Suc_conv)

lemma condemn_values_of: "length v = 29 \<Longrightarrow> condemn_values (condemn_snapshot_of a b v) = v"
  by (auto simp: condemn_snapshot_of_def condemn_values_def eval_nat_numeral length_Suc_conv)

lemma condemn_snapshot_ok_pending: "condemn_snapshot_ok s = Inr () \<Longrightarrow> length (cs_pending s) = 3"
  by (auto simp: condemn_snapshot_ok_def rbind_eq_Inr split: if_splits)

interpretation condemn_snapshot:
  wire_codec "\<lambda>s. condemn_snapshot_ok s = Inr ()" condemn_snapshot_encode condemn_snapshot_decode 132
proof unfold_locales
  show "length bs = 132" if "condemn_snapshot_encode s = Inr bs" for s bs
    using that by (auto simp: condemn_snapshot_encode_def rbind_eq_Inr layout_sizes_condemn dest: pack_length)
  show "condemn_snapshot_decode bs = Inr s"
    if ok: "condemn_snapshot_ok s = Inr ()" and e: "condemn_snapshot_encode s = Inr bs" for s bs
  proof -
    have p: "pack CONDEMN_SNAPSHOT_LAYOUT (map WInt ([cs_scene s, cs_revision s] @ condemn_values s)) = Inr bs"
      using e by (auto simp: condemn_snapshot_encode_def rbind_eq_Inr)
    have l: "length (cs_pending s) = 3" using ok by (rule condemn_snapshot_ok_pending)
    have "unpack CONDEMN_SNAPSHOT_LAYOUT bs = Inr (map WInt ([cs_scene s, cs_revision s] @ condemn_values s))"
      using p by (rule unpack_packed) (intro sized_int_fields, simp_all add: layout_sizes_condemn condemn_values_length [OF l])
    moreover have "length bs = 132" using pack_length [OF p] by (simp add: layout_sizes_condemn)
    ultimately show ?thesis
      using ok e l by (simp add: condemn_snapshot_decode_def Let_def comp_def condemn_snapshot_of_values validated_def)
  qed
  show "condemn_snapshot_ok s = Inr () \<and> condemn_snapshot_encode s = Inr bs" if d: "condemn_snapshot_decode bs = Inr s" for s bs
  proof -
    from d obtain vs where u: "unpack CONDEMN_SNAPSHOT_LAYOUT bs = Inr vs" and ok: "condemn_snapshot_ok s = Inr ()"
        and s: "s = condemn_snapshot_of (map wint vs ! 0) (map wint vs ! 1) (drop 2 (map wint vs))"
        and e: "\<exists>x. condemn_snapshot_encode s = Inr x"
      by (auto simp: condemn_snapshot_decode_def Let_def rbind_eq_Inr validated_Inr split: if_splits)
    have f: "list_all2 fits CONDEMN_SNAPSHOT_LAYOUT vs" and p: "pack CONDEMN_SNAPSHOT_LAYOUT vs = Inr bs"
      using unpack_shape [OF u] by auto
    have vs: "map WInt (map wint vs) = vs" using fits_int_fields [OF f] layout_sizes_condemn by blast
    have l: "length vs = 31" using list_all2_lengthD [OF f] by (simp add: layout_sizes_condemn)
    then have "condemn_values s = drop 2 (map wint vs)" unfolding s by (intro condemn_values_of) simp
    moreover have "cs_scene s = map wint vs ! 0" "cs_revision s = map wint vs ! 1"
      by (simp_all add: s condemn_snapshot_of_def)
    ultimately have "[cs_scene s, cs_revision s] @ condemn_values s = map wint vs"
      using l by (auto simp: eval_nat_numeral length_Suc_conv)
    then have "map WInt ([cs_scene s, cs_revision s] @ condemn_values s) = vs" using vs by simp
    then show ?thesis using ok e p by (auto simp: condemn_snapshot_encode_def rbind_eq_Inr)
  qed
qed

lemma optional_request_length: "optional_request k = Inr b \<Longrightarrow> length b = 16"
  by (auto simp: optional_request_def request_bytes_Inr split: option.splits)

lemma optional_request_iff: "length b = 16 \<Longrightarrow> optional_request k = Inr b \<longleftrightarrow> k = decoded_request b"
  by (auto simp: optional_request_def decoded_request_def request_bytes_Inr not_any_byte split: option.splits if_splits)

definition command_wf :: "condemn_command \<Rightarrow> bool" where
  "command_wf c \<longleftrightarrow> target_ok (cc_target c) = Inr () \<and> condemn_snapshot_ok (cc_expected c) = Inr ()"

lemma condemn_command_parts:
  assumes "condemn_command_encode c verb = Inr bs"
  obtains st h q t x where "condemn_snapshot_encode (cc_expected c) = Inr st" "host_encode (cc_host c) = Inr h"
    "request_bytes (cc_request_key c) = Inr q" "target_encode (cc_target c) = Inr t"
    "optional_request (cc_transition_request c) = Inr x"
    "pack CONDEMN_COMMAND_LAYOUT [WBytes h, WInt (cc_window c), WBytes q, WBytes t, WBytes st, WBytes x, WBytes (zero_bytes 368)] = Inr bs"
    "unpack CONDEMN_COMMAND_LAYOUT bs = Inr [WBytes h, WInt (cc_window c), WBytes q, WBytes t, WBytes st, WBytes x, WBytes (zero_bytes 368)]"
proof -
  from assms obtain st h q t x where parts: "condemn_snapshot_encode (cc_expected c) = Inr st" "host_encode (cc_host c) = Inr h"
    "request_bytes (cc_request_key c) = Inr q" "target_encode (cc_target c) = Inr t"
    "optional_request (cc_transition_request c) = Inr x"
    and p: "pack CONDEMN_COMMAND_LAYOUT [WBytes h, WInt (cc_window c), WBytes q, WBytes t, WBytes st, WBytes x, WBytes (zero_bytes 368)] = Inr bs"
    by (auto simp: condemn_command_encode_def rbind_eq_Inr)
  have "unpack CONDEMN_COMMAND_LAYOUT bs = Inr [WBytes h, WInt (cc_window c), WBytes q, WBytes t, WBytes st, WBytes x, WBytes (zero_bytes 368)]"
    using p by (rule unpack_packed) (use parts in \<open>simp add: CONDEMN_COMMAND_LAYOUT_def host.encode_length
        condemn_snapshot.encode_length target.encode_length optional_request_length request_bytes_Inr\<close>)
  with parts p show thesis by (rule that)
qed

interpretation condemn_command: wire_codec command_wf "\<lambda>c. condemn_command_encode c verb" "\<lambda>b. condemn_command_decode b verb" 576
  for verb
proof unfold_locales
  show "length bs = 576" if "condemn_command_encode c verb = Inr bs" for c bs
    using that by (auto elim!: condemn_command_parts simp: layout_sizes_condemn dest: pack_length)
  show "condemn_command_decode bs verb = Inr c" if wf: "command_wf c" and e: "condemn_command_encode c verb = Inr bs" for c bs
  proof -
    from condemn_command_parts [OF e] obtain st h q t x where
      parts: "condemn_snapshot_encode (cc_expected c) = Inr st" "host_encode (cc_host c) = Inr h"
        "request_bytes (cc_request_key c) = Inr q" "target_encode (cc_target c) = Inr t"
        "optional_request (cc_transition_request c) = Inr x"
      and p: "pack CONDEMN_COMMAND_LAYOUT [WBytes h, WInt (cc_window c), WBytes q, WBytes t, WBytes st, WBytes x, WBytes (zero_bytes 368)] = Inr bs"
      and u: "unpack CONDEMN_COMMAND_LAYOUT bs = Inr [WBytes h, WInt (cc_window c), WBytes q, WBytes t, WBytes st, WBytes x, WBytes (zero_bytes 368)]" .
    have "condemn_snapshot_decode st = Inr (cc_expected c)" "host_decode h = Inr (cc_host c)" "target_decode t = Inr (cc_target c)"
      using parts wf by (simp_all add: condemn_snapshot.decode_iff host.decode_iff target.decode_iff command_wf_def)
    moreover have "uuid_str q = cc_request_key c" using parts(3) by (simp add: request_bytes_Inr)
    moreover have "decoded_request x = cc_transition_request c"
      using parts(5) optional_request_iff [OF optional_request_length [OF parts(5)]] by simp
    moreover have "length bs = 576" using pack_length [OF p] by (simp add: layout_sizes_condemn)
    ultimately show ?thesis using u e by (cases c) (simp add: condemn_command_decode_def Let_def)
  qed
  show "command_wf c \<and> condemn_command_encode c verb = Inr bs" if d: "condemn_command_decode bs verb = Inr c" for c bs
    using d by (auto simp: condemn_command_decode_def rbind_eq_Inr Let_def command_wf_def target.decode_iff
        condemn_snapshot.decode_iff split: if_splits)
qed

lemma optional_target_length: "optional_target t = Inr b \<Longrightarrow> length b = 20"
  by (auto simp: optional_target_def target.encode_length split: option.splits)

lemma decoded_target_encode:
  assumes "decoded_target b = Inr t" "length b = 20"
  shows "optional_target t = Inr b"
  using assms by (auto simp: decoded_target_def optional_target_def rbind_eq_Inr target.decode_iff not_any_byte
      split: if_splits)

lemma condemn_receipt_reencode:
  assumes "condemn_receipt_decode bs = Inr r"
  shows "condemn_receipt_encode r = Inr bs"
proof -
  from assms obtain v where u: "unpack CONDEMN_RECEIPT_LAYOUT bs = Inr v"
    and f: "wint (v ! 10) = CONDEMN_MAGIC" "\<not> any_byte (wbytes (v ! 14))" "cr_window r = wint (v ! 2)" "cr_flags r = wint (v ! 4)"
      "cr_action_tick r = wint (v ! 11)" "cr_response_floor r = wint (v ! 12)" "cr_completion_sequence r = wint (v ! 13)"
      "cr_request_key r = uuid_str (wbytes (v ! 0))" "vendor_outcome_value (cr_outcome r) = wint (v ! 3)"
      "condemn_phase_value (cr_phase r) = wint (v ! 9)" "cr_transition_request r = decoded_request (wbytes (v ! 8))"
      "cr_window r < 2 ^ 32"
    and g: "returns (request_bytes (uuid_str (wbytes (v ! 0))))" "host_decode (wbytes (v ! 1)) = Inr (cr_host r)"
      "condemn_snapshot_decode (wbytes (v ! 5)) = Inr (cr_snapshot r)"
      "decoded_target (wbytes (v ! 6)) = Inr (cr_target r)" "decoded_target (wbytes (v ! 7)) = Inr (cr_transition_target r)"
    by (auto simp: condemn_receipt_decode_def Let_def rbind_eq_Inr vendor_outcome_enum condemn_phase_enum split: if_splits)
  from unpack_shape [OF u] obtain q h a b c s t t' x d e k l m z where
    v: "v = [WBytes q, WBytes h, WInt a, WInt b, WInt c, WBytes s, WBytes t, WBytes t', WBytes x, WInt d, WInt e, WInt k,
          WInt l, WInt m, WBytes z]"
      and len: "length q = 16" "length t = 20" "length t' = 20" "length x = 16" "length z = 116"
      and rng: "0 \<le> a" "0 \<le> c" "c < 2 ^ 32" "0 \<le> k" "k < 2 ^ 64" "0 \<le> l" "l < 2 ^ 64" "0 \<le> m" "m < 2 ^ 64"
      and p: "pack CONDEMN_RECEIPT_LAYOUT v = Inr bs"
    by (auto simp: CONDEMN_RECEIPT_LAYOUT_def list_all2_Cons1)
  have "z = zero_bytes 116" using f(2) len by (simp add: v not_any_byte)
  then have "pack CONDEMN_RECEIPT_LAYOUT
      [WBytes q, WBytes h, WInt (cr_window r), WInt (vendor_outcome_value (cr_outcome r)), WInt (cr_flags r),
        WBytes s, WBytes t, WBytes t', WBytes x, WInt (condemn_phase_value (cr_phase r)), WInt CONDEMN_MAGIC,
        WInt (cr_action_tick r), WInt (cr_response_floor r), WInt (cr_completion_sequence r), WBytes (zero_bytes 116)] = Inr bs"
    using p f by (simp add: v)
  moreover have "request_bytes (cr_request_key r) = Inr q"
    using f(8) g(1) len by (auto simp: v request_bytes_Inr dest: uuid_str_inject)
  moreover have "host_encode (cr_host r) = Inr h" "condemn_snapshot_encode (cr_snapshot r) = Inr s"
    "optional_target (cr_target r) = Inr t" "optional_target (cr_transition_target r) = Inr t'"
    using g len by (simp_all add: v host.decode_iff condemn_snapshot.decode_iff decoded_target_encode)
  moreover have "optional_request (cr_transition_request r) = Inr x" using f(11) len by (simp add: v optional_request_iff)
  ultimately show ?thesis
    using assms rng f by (simp add: condemn_receipt_encode_def uints_def vendor_uint_def v)
qed

interpretation condemn_receipt: wire_codec "\<lambda>_. True" condemn_receipt_encode condemn_receipt_decode 384
proof unfold_locales
  show "length bs = 384" if "condemn_receipt_encode r = Inr bs" for r bs
    using that by (auto simp: condemn_receipt_encode_def rbind_eq_Inr layout_sizes_condemn split: if_splits dest!: pack_length)
  show "condemn_receipt_decode bs = Inr r" if "condemn_receipt_encode r = Inr bs" for r bs
    using that by (auto simp: condemn_receipt_encode_def rbind_eq_Inr split: if_splits)
qed (simp add: condemn_receipt_reencode)

subsection \<open>Properties\<close>

text \<open>The Condemn command codec is lossless and canonical for both verbs: a command decodes from a byte
  string exactly when it is well-formed and encodes to that byte string.\<close>

lemma condemn_command_codec:
  "condemn_command_decode bs verb = Inr c \<longleftrightarrow> command_wf c \<and> condemn_command_encode c verb = Inr bs"
  by (rule condemn_command.decode_iff)

text \<open>Condemn receipts decode to exactly the receipts that encode to them, so no receipt has two
  encodings.\<close>

lemma condemn_receipt_codec:
  "condemn_receipt_decode bs = Inr r \<longleftrightarrow> condemn_receipt_encode r = Inr bs"
  by (simp add: condemn_receipt.decode_iff)

text \<open>What a decoded receipt may claim. A ready receipt is idle or finished and shows an eligible snapshot
  of its target's building; an in-flight receipt that is not unresolved is idle or between opening
  and enabling and carries the transition's own target; a verified receipt carries the identity of
  its transition and a completion strictly after the response floor.\<close>

theorem condemn_receipt_claims:
  assumes "condemn_receipt_decode bs = Inr r"
  shows "(has_flag (cr_flags r) READY \<longrightarrow>
      cr_phase r \<in> {IDLE, VERIFIED, EXISTING}
      \<and> (\<exists>t. cr_target r = Some t \<and> eligible_snapshot (cr_snapshot r) t \<and> target_ok t = Inr ()))
    \<and> (has_flag (cr_flags r) IN_FLIGHT \<and> \<not> has_flag (cr_flags r) UNRESOLVED \<longrightarrow>
      cr_phase r \<in> {IDLE, OPENING, ADDING, ENABLING}
      \<and> cr_target r \<noteq> None \<and> cr_target r = cr_transition_target r \<and> cr_transition_request r \<noteq> None)
    \<and> (cr_phase r = VERIFIED \<longrightarrow>
      cr_transition_request r \<noteq> None \<and> cr_transition_target r \<noteq> None
      \<and> cr_response_floor r < cr_completion_sequence r \<and> cr_completion_sequence r < 2 ^ 63)"
proof -
  have ok: "\<not> contradictory_receipt (cr_snapshot r) (cr_target r) (cr_transition_target r) (cr_transition_request r) (cr_phase r)
      (cr_flags r) (cr_action_tick r) (cr_response_floor r) (cr_completion_sequence r)"
    and t: "\<exists>b. decoded_target b = Inr (cr_target r)"
    using assms by (auto simp: condemn_receipt_decode_def Let_def rbind_eq_Inr split: if_splits)
  have "target_ok x = Inr ()" if "cr_target r = Some x" for x
    using t that by (auto simp: decoded_target_def rbind_eq_Inr target.decode_iff split: if_splits)
  then show ?thesis
    using ok by (cases "cr_phase r") (auto simp: contradictory_receipt_def has_flag_or split: option.splits)
qed

lemma riter_replicate: "f x = Inr () \<Longrightarrow> riter f (replicate n x) = Inr ()"
  by (induction n) simp_all

lemma empty_condemn_snapshot_decodes: "condemn_snapshot_decode (zero_bytes 132) = Inr empty_condemn_snapshot"
proof -
  have vals: "condemn_values empty_condemn_snapshot = replicate 29 0"
    by (simp add: condemn_values_def empty_condemn_snapshot_def eval_nat_numeral)
  have scene: "cs_scene empty_condemn_snapshot = 0" "cs_revision empty_condemn_snapshot = 0"
    by (simp_all add: empty_condemn_snapshot_def)
  have "list_all2 fits CONDEMN_SNAPSHOT_LAYOUT (map WInt (replicate 31 0))"
    by (simp add: CONDEMN_SNAPSHOT_LAYOUT_def eval_nat_numeral)
  then obtain bs where bs: "pack CONDEMN_SNAPSHOT_LAYOUT (map WInt (replicate 31 0)) = Inr bs" using pack_fits by blast
  then have "\<not> any_byte bs" by (rule pack_zero_ints [rotated 2]) (simp_all add: layout_sizes_condemn list_all_iff [of _ "replicate _ _"])
  then have "bs = zero_bytes 132" using pack_length [OF bs] by (simp add: not_any_byte layout_sizes_condemn)
  moreover have "[cs_scene empty_condemn_snapshot, cs_revision empty_condemn_snapshot] @ condemn_values empty_condemn_snapshot
      = replicate 31 0"
    unfolding vals by (simp add: empty_condemn_snapshot_def eval_nat_numeral)
  ultimately have "condemn_snapshot_encode empty_condemn_snapshot = Inr (zero_bytes 132)"
    using bs by (simp add: condemn_snapshot_encode_def vals scene uints_def vendor_uint_def riter_replicate)
  moreover have "condemn_snapshot_ok empty_condemn_snapshot = Inr ()" by code_simp
  ultimately show ?thesis by (simp add: condemn_snapshot.decode_iff)
qed

theorem condemn_receipt_claims_witness:
  "\<exists>bs r. condemn_receipt_decode bs = Inr r \<and> cr_phase r = IDLE \<and> \<not> has_flag (cr_flags r) READY"
proof -
  obtain q where q: "request_bytes example_key = Inr q" "length q = 16" "uuid_str q = example_key"
    using example_key_bytes by blast
  obtain h where h: "length h = 16" "host_decode h = Inr example_host" using example_host_bytes by blast
  let ?v = "[WBytes q, WBytes h, WInt 9, WInt 0, WInt 0, WBytes (zero_bytes 132), WBytes (zero_bytes 20), WBytes (zero_bytes 20),
      WBytes (zero_bytes 16), WInt 0, WInt CONDEMN_MAGIC, WInt 0, WInt 0, WInt 0, WBytes (zero_bytes 116)]"
  have "list_all2 fits CONDEMN_RECEIPT_LAYOUT ?v"
    using q(2) h(1) by (simp add: CONDEMN_RECEIPT_LAYOUT_def CONDEMN_MAGIC_def)
  then obtain bs where bs: "pack CONDEMN_RECEIPT_LAYOUT ?v = Inr bs" "unpack CONDEMN_RECEIPT_LAYOUT bs = Inr ?v"
    using pack_fits unpack_pack by blast
  have "\<exists>r. condemn_receipt_decode bs = Inr r \<and> cr_phase r = IDLE \<and> cr_target r = None"
    using bs pack_length [OF bs(1)] q h empty_condemn_snapshot_decodes
    by (simp add: condemn_receipt_decode_def layout_sizes_condemn Let_def outside_mask_def decoded_target_def
        decoded_request_def contradictory_receipt_def has_flag_def int_enum_def condemn_phases_all_def vendor_outcomes_all_def)
  then obtain r where r: "condemn_receipt_decode bs = Inr r" "cr_phase r = IDLE" "cr_target r = None" by blast
  then show ?thesis using condemn_receipt_claims [OF r(1)] by auto
qed

end
