(* ===== verification/Receipt_Wire.thy ===== *)
theory Receipt_Wire
  imports Vendor_Wire
begin

text \<open>
  What the navigation, guard upgrade and guard funding formats share. Two of them carry a flat
  snapshot of integers (\<open>flat_snapshot\<close>), and all three answer with a \<open>Receipt\<close> of the same fields,
  written out three times in \<^verbatim>\<open>vendor_navigation_wire.py\<close>, \<^verbatim>\<open>guard_upgrade_wire.py\<close> and
  \<^verbatim>\<open>guard_funding_wire.py\<close>: the three classes differ in the snapshot they carry, the magic number, the
  flags they admit, the zero padding, and the conditions that contradict their flags. Here the
  \<open>Receipt\<close> class is one definition over a \<open>receipt_format\<close> that lists these differences, and the
  locale \<open>receipt_codec\<close> proves once that it is a \<open>wire_codec\<close> whenever its snapshot is one.
\<close>

subsection \<open>Flat snapshots\<close>

locale flat_snapshot =
  fixes layout :: "field list"
    and vals :: "'s \<Rightarrow> int list"
    and of_vals :: "int list \<Rightarrow> 's"
    and encode :: "'s \<Rightarrow> bytes result"
    and decode :: "bytes \<Rightarrow> 's result"
    and size :: nat
    and err :: py_error
  assumes int_layout: "list_all int_field layout" "layout_size layout = size"
    and length_vals: "length (vals s) = length layout"
    and of_vals_vals: "of_vals (vals s) = s"
    and vals_of_vals: "length v = length layout \<Longrightarrow> vals (of_vals v) = v"
    and encode_pack: "encode s = Inr bs \<Longrightarrow> pack layout (map WInt (vals s)) = Inr bs"
    and decode_eq: "decode bs = (if length bs \<noteq> size then Inl err
      else rbind (unpack layout bs) (\<lambda>v. rbind (encode (of_vals (map wint v))) (\<lambda>_. Inr (of_vals (map wint v)))))"
begin

lemma encode_size: "encode s = Inr bs \<Longrightarrow> length bs = size"
  using encode_pack pack_length int_layout by metis

lemma unpack_encoded: "encode s = Inr bs \<Longrightarrow> unpack layout bs = Inr (map WInt (vals s))"
  by (rule unpack_packed [OF encode_pack]) (simp_all add: sized_int_fields int_layout length_vals)

lemma decode_encoded: "encode s = Inr bs \<Longrightarrow> decode bs = Inr s"
  using encode_size [of s bs] unpack_encoded [of s bs] by (simp add: decode_eq of_vals_vals comp_def)

lemma encode_decoded:
  assumes "decode bs = Inr s"
  shows "encode s = Inr bs"
proof -
  from assms obtain v x where u: "unpack layout bs = Inr v" and s: "s = of_vals (map wint v)" and e: "encode s = Inr x"
    by (auto simp: decode_eq rbind_eq_Inr split: if_splits)
  have f: "list_all2 fits layout v" and p: "pack layout v = Inr bs" using unpack_shape [OF u] by auto
  have "vals s = map wint v" unfolding s using list_all2_lengthD [OF f] by (intro vals_of_vals) simp
  then have "map WInt (vals s) = v" using fits_int_fields [OF f int_layout(1)] by simp
  then show ?thesis using encode_pack [OF e] p e by simp
qed

end

sublocale flat_snapshot \<subseteq> wire_codec "\<lambda>_. True" encode decode size
proof unfold_locales
  show "length bs = size" if "encode s = Inr bs" for s bs using that by (rule encode_size)
  show "decode bs = Inr s" if "encode s = Inr bs" for s bs using that by (rule decode_encoded)
  show "True \<and> encode s = Inr bs" if "decode bs = Inr s" for s bs using that encode_decoded by blast
qed

lemma pack_zero_values:
  assumes "list_all int_field layout" "layout_size layout = n"
  shows "pack layout (map WInt (replicate (length layout) 0)) = Inr (zero_bytes n)"
proof -
  have "list_all2 fits layout (map WInt (replicate (length layout) 0))"
    using assms(1) by (induction layout) (auto simp: int_field_def)
  then obtain bs where bs: "pack layout (map WInt (replicate (length layout) 0)) = Inr bs" using pack_fits by blast
  then have "\<not> any_byte bs" by (rule pack_zero_ints [rotated 2]) (simp_all add: assms list_all_iff [of _ "replicate _ _"])
  then have "bs = zero_bytes n" using pack_length [OF bs] assms(2) by (simp add: not_any_byte)
  then show ?thesis using bs by simp
qed

text \<open>The loop over the fields of such a snapshot: the first two are 64-bit, the others 32-bit.\<close>

definition snapshot_uints :: "string \<Rightarrow> int list \<Rightarrow> unit result" where
  "snapshot_uints label v = rbind (uints 64 label (take 2 v)) (\<lambda>_. uints 32 label (drop 2 v))"

definition SNAPSHOT22_LAYOUT :: "field list" where
  "SNAPSHOT22_LAYOUT = U 8 # U 8 # replicate 20 (U 4)"

lemma snapshot22:
  "list_all int_field SNAPSHOT22_LAYOUT" "layout_size SNAPSHOT22_LAYOUT = 96" "length SNAPSHOT22_LAYOUT = 22"
  by (auto simp: SNAPSHOT22_LAYOUT_def list_all_iff layout_size_def sum_list_replicate)

subsection \<open>Receipts\<close>

record 's action_receipt =
  ar_request_key :: string
  ar_host :: host
  ar_window :: int
  ar_outcome :: vendor_outcome
  ar_flags :: int
  ar_snapshot :: 's
  ar_transition_request :: "string option"

record 's receipt_format =
  rf_label :: string
  rf_magic :: int
  rf_flags :: int
  rf_size :: nat
  rf_padding :: nat
  rf_encode :: "'s \<Rightarrow> bytes result"
  rf_decode :: "bytes \<Rightarrow> 's result"
  rf_needs_transition :: "int \<Rightarrow> bool"
  rf_not_ready :: "'s \<Rightarrow> bool"

definition receipt_layout :: "'s receipt_format \<Rightarrow> field list" where
  "receipt_layout F = [S 16, S 16, U 8, U 4, U 4, S (rf_size F), S 16, U 4, S (rf_padding F)]"

text \<open>\<open>request_bytes(self.transition_request) if self.transition_request else bytes(16)\<close>: an empty text is
  falsy too.\<close>

definition transition_bytes :: "string option \<Rightarrow> bytes result" where
  "transition_bytes k = (case k of None \<Rightarrow> Inr (zero_bytes 16) | Some s \<Rightarrow> if s = [] then Inr (zero_bytes 16) else request_bytes s)"

definition receipt_decode :: "'s receipt_format \<Rightarrow> bytes \<Rightarrow> 's action_receipt result" where
  "receipt_decode F data =
     (if length data \<noteq> 384 then Inl (ValueError (''invalid '' @ rf_label F @ '' receipt size''))
      else rbind (unpack (receipt_layout F) data) (\<lambda>v.
        let window = wint (v ! 2); flags = wint (v ! 4); transition = wbytes (v ! 6) in
        rbind (checks
          [(wint (v ! 7) \<noteq> rf_magic F \<or> outside_mask flags (rf_flags F) \<or> any_byte (wbytes (v ! 8))
             \<or> \<not> (0 < window \<and> window < 2 ^ 32), ValueError (''invalid '' @ rf_label F @ '' receipt'')),
           (rf_needs_transition F flags \<and> \<not> any_byte transition, ValueError ''guard revisit lacks transaction identity'')]) (\<lambda>_.
        let request = uuid_str (wbytes (v ! 0)) in
        rbind (request_bytes request) (\<lambda>_.
        rbind (rf_decode F (wbytes (v ! 5))) (\<lambda>snapshot.
        rbind (checks [(has_flag flags READY \<and> (has_flag flags (IN_FLIGHT OR UNRESOLVED) \<or> rf_not_ready F snapshot),
          ValueError (''contradictory '' @ rf_label F @ '' readiness''))]) (\<lambda>_.
        rbind (host_decode (wbytes (v ! 1))) (\<lambda>host.
        rbind (int_enum vendor_outcome_value vendor_outcomes_all ''Outcome'' (wint (v ! 3))) (\<lambda>outcome.
        Inr \<lparr>ar_request_key = request, ar_host = host, ar_window = window, ar_outcome = outcome, ar_flags = flags,
             ar_snapshot = snapshot, ar_transition_request = decoded_request transition\<rparr>))))))))"

definition receipt_encode :: "'s receipt_format \<Rightarrow> 's action_receipt \<Rightarrow> bytes result" where
  "receipt_encode F r =
     rbind (request_bytes (ar_request_key r)) (\<lambda>request.
     rbind (host_encode (ar_host r)) (\<lambda>host.
     rbind (rf_encode F (ar_snapshot r)) (\<lambda>snapshot.
     rbind (transition_bytes (ar_transition_request r)) (\<lambda>transition.
     rbind (pack (receipt_layout F)
       [WBytes request, WBytes host, WInt (ar_window r), WInt (vendor_outcome_value (ar_outcome r)), WInt (ar_flags r),
        WBytes snapshot, WBytes transition, WInt (rf_magic F), WBytes (zero_bytes (rf_padding F))]) (\<lambda>data.
     rbind (receipt_decode F data) (\<lambda>again.
     if again \<noteq> r then Inl (ValueError (''noncanonical '' @ rf_label F @ '' receipt'')) else Inr data))))))"

lemma transition_bytes_decoded: "length b = 16 \<Longrightarrow> transition_bytes (decoded_request b) = Inr b"
  by (auto simp: transition_bytes_def decoded_request_def request_bytes_Inr not_any_byte uuid_str_def)

lemma transition_bytes_read: "transition_bytes k = Inr b \<Longrightarrow> k \<noteq> Some [] \<Longrightarrow> length b = 16 \<and> decoded_request b = k"
  by (auto simp: transition_bytes_def decoded_request_def request_bytes_Inr split: option.splits if_splits)

locale receipt_codec = snapshot: wire_codec "\<lambda>_. True" "rf_encode F" "rf_decode F" "rf_size F"
  for F :: "'s receipt_format" +
  assumes padded: "rf_size F + rf_padding F = 316"
begin

lemma receipt_size: "layout_size (receipt_layout F) = 384"
  using padded by (simp add: receipt_layout_def)

lemma receipt_encode_decode: "receipt_encode F r = Inr bs \<Longrightarrow> receipt_decode F bs = Inr r"
  by (auto simp: receipt_encode_def rbind_eq_Inr split: if_splits)

lemma receipt_reencode:
  assumes "receipt_decode F bs = Inr r"
  shows "receipt_encode F r = Inr bs"
proof -
  from assms obtain v where u: "unpack (receipt_layout F) bs = Inr v"
    and f: "wint (v ! 7) = rf_magic F" "\<not> any_byte (wbytes (v ! 8))" "ar_window r = wint (v ! 2)" "ar_flags r = wint (v ! 4)"
      "ar_request_key r = uuid_str (wbytes (v ! 0))" "vendor_outcome_value (ar_outcome r) = wint (v ! 3)"
      "ar_transition_request r = decoded_request (wbytes (v ! 6))"
    and g: "returns (request_bytes (uuid_str (wbytes (v ! 0))))" "host_decode (wbytes (v ! 1)) = Inr (ar_host r)"
      "rf_decode F (wbytes (v ! 5)) = Inr (ar_snapshot r)"
    by (auto simp: receipt_decode_def Let_def rbind_eq_Inr vendor_outcome_enum split: if_splits)
  from unpack_shape [OF u] obtain q h a b c s x d z where
    v: "v = [WBytes q, WBytes h, WInt a, WInt b, WInt c, WBytes s, WBytes x, WInt d, WBytes z]"
      and len: "length q = 16" "length x = 16" "length z = rf_padding F"
      and p: "pack (receipt_layout F) v = Inr bs"
    by (auto simp: receipt_layout_def list_all2_Cons1)
  have "z = zero_bytes (rf_padding F)" using f(2) len by (simp add: v not_any_byte)
  then have "pack (receipt_layout F)
      [WBytes q, WBytes h, WInt (ar_window r), WInt (vendor_outcome_value (ar_outcome r)), WInt (ar_flags r),
        WBytes s, WBytes x, WInt (rf_magic F), WBytes (zero_bytes (rf_padding F))] = Inr bs"
    using p f by (simp add: v)
  moreover have "request_bytes (ar_request_key r) = Inr q"
    using f(5) g(1) len by (auto simp: v request_bytes_Inr dest: uuid_str_inject)
  moreover have "host_encode (ar_host r) = Inr h" "rf_encode F (ar_snapshot r) = Inr s"
    using g by (simp_all add: v host.decode_iff snapshot.decode_iff)
  moreover have "transition_bytes (ar_transition_request r) = Inr x" using f(7) len by (simp add: v transition_bytes_decoded)
  ultimately show ?thesis using assms by (simp add: receipt_encode_def)
qed

lemma receipt_iff: "receipt_decode F bs = Inr r \<longleftrightarrow> receipt_encode F r = Inr bs"
  using receipt_encode_decode receipt_reencode by blast

text \<open>What every decoded receipt promises about its flags.\<close>

lemma receipt_ready:
  assumes "receipt_decode F bs = Inr r" "has_flag (ar_flags r) READY"
  shows "\<not> has_flag (ar_flags r) IN_FLIGHT \<and> \<not> has_flag (ar_flags r) UNRESOLVED \<and> \<not> rf_not_ready F (ar_snapshot r)"
  using assms by (auto simp: receipt_decode_def Let_def rbind_eq_Inr has_flag_or split: if_splits)

lemma receipt_parts_encode:
  assumes "receipt_encode F r = Inr bs"
  shows "returns (rf_encode F (ar_snapshot r)) \<and> returns (request_bytes (ar_request_key r)) \<and> returns (host_encode (ar_host r))"
  using assms by (auto simp: receipt_encode_def rbind_eq_Inr)

text \<open>Every receipt whose parts can be encoded and whose flags are consistent has an encoding.\<close>

lemma receipt_encodable:
  assumes "request_bytes (ar_request_key r) = Inr q" "host_encode (ar_host r) = Inr h" "rf_encode F (ar_snapshot r) = Inr s"
    and "transition_bytes (ar_transition_request r) = Inr t" "ar_transition_request r \<noteq> Some []"
    and "0 < ar_window r" "ar_window r < 2 ^ 32" "0 \<le> ar_flags r" "ar_flags r < 2 ^ 32" "\<not> outside_mask (ar_flags r) (rf_flags F)"
    and "0 \<le> rf_magic F" "rf_magic F < 2 ^ 32" "rf_needs_transition F (ar_flags r) \<Longrightarrow> any_byte t"
    and "\<not> (has_flag (ar_flags r) READY \<and> (has_flag (ar_flags r) (IN_FLIGHT OR UNRESOLVED) \<or> rf_not_ready F (ar_snapshot r)))"
  shows "returns (receipt_encode F r)"
proof -
  let ?v = "[WBytes q, WBytes h, WInt (ar_window r), WInt (vendor_outcome_value (ar_outcome r)), WInt (ar_flags r),
        WBytes s, WBytes t, WInt (rf_magic F), WBytes (zero_bytes (rf_padding F))]"
  have t: "length t = 16" "decoded_request t = ar_transition_request r" using transition_bytes_read [OF assms(4,5)] by auto
  have "list_all2 fits (receipt_layout F) ?v"
    using assms t vendor_outcome_range [of "ar_outcome r"]
    by (simp add: receipt_layout_def host.encode_length snapshot.encode_length request_bytes_Inr)
  then obtain bs where bs: "pack (receipt_layout F) ?v = Inr bs" "unpack (receipt_layout F) bs = Inr ?v"
    using pack_fits unpack_pack by blast
  have "length bs = 384" using pack_length [OF bs(1)] receipt_size by simp
  moreover have "uuid_str q = ar_request_key r" using assms(1) by (simp add: request_bytes_Inr)
  moreover have "int_enum vendor_outcome_value vendor_outcomes_all ''Outcome'' (vendor_outcome_value (ar_outcome r)) = Inr (ar_outcome r)"
    by (simp add: vendor_outcome_enum)
  moreover have "host_decode h = Inr (ar_host r)" "rf_decode F s = Inr (ar_snapshot r)"
    using assms by (simp_all add: host.decode_iff snapshot.decode_iff)
  ultimately have "receipt_decode F bs = Inr r"
    using assms bs(2) t by (cases r) (auto simp: receipt_decode_def Let_def)
  then show ?thesis using receipt_iff by blast
qed

end

sublocale receipt_codec \<subseteq> receipt: wire_codec "\<lambda>_. True" "receipt_encode F" "receipt_decode F" 384
proof unfold_locales
  show "length bs = 384" if "receipt_encode F r = Inr bs" for r bs
    using that by (auto simp: receipt_encode_def rbind_eq_Inr receipt_size split: if_splits dest!: pack_length)
qed (simp_all add: receipt_iff)

end
