(* ===== verification/Navigation_Wire.thy ===== *)
theory Navigation_Wire
  imports Receipt_Wire
begin

text \<open>
  Building and hireling windows (\<^verbatim>\<open>client_extension/vendor_navigation_wire.py\<close>): the observed navigation
  snapshot with its validation, the opening commands per verb and what confirms them, and the
  receipts, byte for byte.
\<close>

datatype navigation_verb = N_INSPECT | N_BUILDING | N_VENDOR | N_GUARD | N_WAREHOUSE

fun navigation_verb_value :: "navigation_verb \<Rightarrow> int" where
  "navigation_verb_value N_INSPECT = 13"
| "navigation_verb_value N_BUILDING = 14"
| "navigation_verb_value N_VENDOR = 15"
| "navigation_verb_value N_GUARD = 16"
| "navigation_verb_value N_WAREHOUSE = 22"

definition NAVIGATION_MAGIC :: int where "NAVIGATION_MAGIC = 0x57424E33"

subsection \<open>Snapshots\<close>

record navigation_snapshot =
  ns_scene :: int
  ns_revision :: int
  ns_root :: int
  ns_manager :: int
  ns_front_hud :: int
  ns_mode :: int
  ns_building_hud :: int
  ns_vendor_hud :: int
  ns_selected_entry :: int
  ns_visible :: int
  ns_building_id :: int
  ns_building_type :: int
  ns_vendor_id :: int
  ns_vendor_type :: int
  ns_initialized :: int
  ns_capacity :: int
  ns_occupied :: int
  ns_offline :: int
  ns_warehouse_hud :: int
  ns_warehouse_object :: int
  ns_warehouse_id :: int
  ns_warehouse_type :: int

definition navigation_values :: "navigation_snapshot \<Rightarrow> int list" where
  "navigation_values s =
     [ns_scene s, ns_revision s, ns_root s, ns_manager s, ns_front_hud s, ns_mode s, ns_building_hud s, ns_vendor_hud s,
      ns_selected_entry s, ns_visible s, ns_building_id s, ns_building_type s, ns_vendor_id s, ns_vendor_type s,
      ns_initialized s, ns_capacity s, ns_occupied s, ns_offline s, ns_warehouse_hud s, ns_warehouse_object s,
      ns_warehouse_id s, ns_warehouse_type s]"

text \<open>\<open>cls(*values)\<close>, and \<open>Snapshot()\<close> with every field at its default.\<close>

definition navigation_snapshot_of :: "int list \<Rightarrow> navigation_snapshot" where
  "navigation_snapshot_of v =
     \<lparr>ns_scene = v ! 0, ns_revision = v ! 1, ns_root = v ! 2, ns_manager = v ! 3, ns_front_hud = v ! 4, ns_mode = v ! 5,
      ns_building_hud = v ! 6, ns_vendor_hud = v ! 7, ns_selected_entry = v ! 8, ns_visible = v ! 9,
      ns_building_id = v ! 10, ns_building_type = v ! 11, ns_vendor_id = v ! 12, ns_vendor_type = v ! 13,
      ns_initialized = v ! 14, ns_capacity = v ! 15, ns_occupied = v ! 16, ns_offline = v ! 17,
      ns_warehouse_hud = v ! 18, ns_warehouse_object = v ! 19, ns_warehouse_id = v ! 20, ns_warehouse_type = v ! 21\<rparr>"

definition empty_navigation :: navigation_snapshot where
  "empty_navigation = navigation_snapshot_of (replicate 22 0)"

definition owns_building :: "navigation_snapshot \<Rightarrow> int \<Rightarrow> bool" where
  "owns_building s building \<longleftrightarrow>
     ns_offline s = 0 \<and> ns_building_id s = building \<and> ns_building_type s = 8 \<and> has_flag (ns_visible s) 1"

definition snapshot_opened :: "navigation_snapshot \<Rightarrow> int \<Rightarrow> int \<Rightarrow> int \<Rightarrow> bool" where
  "snapshot_opened s building vendor hireling_type \<longleftrightarrow>
     ns_offline s = 0 \<and> ns_building_id s = building \<and> ns_building_type s = 8
     \<and> (if vendor \<noteq> 0
        then has_flag (ns_visible s) 2 \<and> ns_front_hud s = ns_vendor_hud s \<and> ns_vendor_id s = vendor
          \<and> ns_vendor_type s = hireling_type \<and> hireling_type \<in> {37, 42}
        else has_flag (ns_visible s) 1 \<and> ns_front_hud s = ns_building_hud s)"

definition warehouse_opened :: "navigation_snapshot \<Rightarrow> int \<Rightarrow> int \<Rightarrow> bool" where
  "warehouse_opened s building source \<longleftrightarrow>
     ns_offline s = 0 \<and> ns_building_id s = building \<and> ns_building_type s = 8
     \<and> ns_front_hud s = ns_warehouse_hud s \<and> ns_warehouse_hud s \<noteq> 0 \<and> ns_warehouse_object s \<noteq> 0
     \<and> ns_warehouse_id s = source \<and> source \<noteq> 0 \<and> ns_warehouse_type s = 42"

definition invalid_navigation :: "navigation_snapshot \<Rightarrow> bool" where
  "invalid_navigation s \<longleftrightarrow>
     \<not> (ns_scene s \<noteq> 0 \<and> ns_revision s \<noteq> 0 \<and> ns_root s \<noteq> 0 \<and> ns_manager s \<noteq> 0)
     \<or> ns_mode s > 64
     \<or> ns_visible s > 3
     \<or> ns_initialized s > 1
     \<or> ns_offline s > 1
     \<or> \<not> (0 \<le> ns_occupied s \<and> ns_occupied s \<le> ns_capacity s \<and> ns_capacity s \<le> 128)
     \<or> ((ns_building_id s, ns_building_type s) \<noteq> (0, 0) \<and> \<not> (ns_building_id s \<noteq> 0 \<and> ns_building_type s = 8))
     \<or> ((ns_vendor_id s, ns_vendor_type s) \<noteq> (0, 0) \<and> \<not> (ns_vendor_id s \<noteq> 0 \<and> ns_vendor_type s \<in> {37, 42}))
     \<or> (ns_vendor_id s \<noteq> 0 \<and> ns_selected_entry s = 0)
     \<or> ((ns_warehouse_hud s \<noteq> 0 \<or> ns_warehouse_object s \<noteq> 0 \<or> ns_warehouse_id s \<noteq> 0 \<or> ns_warehouse_type s \<noteq> 0)
        \<and> \<not> (ns_warehouse_hud s \<noteq> 0 \<and> ns_warehouse_object s \<noteq> 0 \<and> ns_warehouse_id s \<noteq> 0 \<and> ns_warehouse_type s = 42))
     \<or> (has_flag (ns_visible s) 1
        \<and> \<not> (ns_building_hud s \<noteq> 0 \<and> ns_initialized s \<noteq> 0 \<and> ns_mode s \<in> {0, 6} \<and> ns_building_id s \<noteq> 0))
     \<or> (has_flag (ns_visible s) 2
        \<and> \<not> (ns_vendor_hud s \<noteq> 0 \<and> ns_selected_entry s \<noteq> 0 \<and> ns_vendor_id s \<noteq> 0 \<and> ns_building_id s \<noteq> 0))"

definition navigation_encode :: "navigation_snapshot \<Rightarrow> bytes result" where
  "navigation_encode s =
     rbind (snapshot_uints ''navigation field'' (navigation_values s)) (\<lambda>_.
     if s = empty_navigation then Inr (zero_bytes 96)
     else rbind (checks [(invalid_navigation s, ValueError ''invalid vendor navigation snapshot'')]) (\<lambda>_.
       pack SNAPSHOT22_LAYOUT (map WInt (navigation_values s))))"

definition navigation_decode :: "bytes \<Rightarrow> navigation_snapshot result" where
  "navigation_decode data =
     (if length data \<noteq> 96 then Inl (ValueError ''invalid navigation snapshot size'')
      else rbind (unpack SNAPSHOT22_LAYOUT data) (\<lambda>v.
        let result = navigation_snapshot_of (map wint v)
        in rbind (navigation_encode result) (\<lambda>_. Inr result)))"

subsection \<open>Commands\<close>

record navigation_command =
  nc_host :: host
  nc_window :: int
  nc_request_key :: string
  nc_expected :: navigation_snapshot
  nc_building_id :: int
  nc_vendor_id :: int

definition NAVIGATION_COMMAND_LAYOUT :: "field list" where
  "NAVIGATION_COMMAND_LAYOUT = [S 16, U 8, S 16, S 96, U 4, U 4, U 4, U 4, S 424]"

definition navigation_command_check :: "navigation_command \<Rightarrow> navigation_verb \<Rightarrow> unit result" where
  "navigation_command_check c verb =
     (if verb = N_INSPECT
      then checks [(nc_expected c \<noteq> empty_navigation \<or> nc_building_id c \<noteq> 0 \<or> nc_vendor_id c \<noteq> 0,
        ValueError ''inspection cannot carry action state'')]
      else checks
       [(nc_expected c = empty_navigation \<or> ns_offline (nc_expected c) \<noteq> 0 \<or> nc_building_id c = 0,
          ValueError ''opening needs an online navigation snapshot and building''),
        (verb = N_BUILDING \<and> nc_vendor_id c \<noteq> 0, ValueError ''building opening cannot carry a vendor''),
        (verb \<in> {N_VENDOR, N_GUARD, N_WAREHOUSE}
           \<and> (nc_vendor_id c = 0 \<or> \<not> owns_building (nc_expected c) (nc_building_id c)),
          ValueError ''hireling opening needs its active building window'')])"

definition navigation_command_encode :: "navigation_command \<Rightarrow> navigation_verb \<Rightarrow> bytes result" where
  "navigation_command_encode c verb =
     rbind (vendor_uint (nc_window c) 32 ''window'') (\<lambda>window.
     rbind (checks [(window = 0, ValueError ''window is required'')]) (\<lambda>_.
     rbind (vendor_uint (nc_building_id c) 32 ''building'') (\<lambda>_.
     rbind (vendor_uint (nc_vendor_id c) 32 ''vendor'') (\<lambda>_.
     rbind (navigation_command_check c verb) (\<lambda>_.
     rbind (host_encode (nc_host c)) (\<lambda>host.
     rbind (request_bytes (nc_request_key c)) (\<lambda>request.
     rbind (navigation_encode (nc_expected c)) (\<lambda>expected.
     pack NAVIGATION_COMMAND_LAYOUT
       [WBytes host, WInt (nc_window c), WBytes request, WBytes expected, WInt (nc_building_id c),
        WInt (if nc_building_id c \<noteq> 0 then 8 else 0), WInt (nc_vendor_id c),
        WInt (if nc_vendor_id c \<noteq> 0 then (if verb = N_GUARD then 37 else 42) else 0), WBytes (zero_bytes 424)]))))))))"

definition navigation_command_decode :: "bytes \<Rightarrow> navigation_verb \<Rightarrow> navigation_command result" where
  "navigation_command_decode data verb =
     (if length data \<noteq> 576 then Inl (ValueError ''invalid navigation command size'')
      else rbind (unpack NAVIGATION_COMMAND_LAYOUT data) (\<lambda>v.
        rbind (checks [(any_byte (wbytes (v ! 8)), ValueError ''nonzero navigation command padding'')]) (\<lambda>_.
        rbind (host_decode (wbytes (v ! 0))) (\<lambda>host.
        rbind (navigation_decode (wbytes (v ! 3))) (\<lambda>expected.
        let result = \<lparr>nc_host = host, nc_window = wint (v ! 1), nc_request_key = uuid_str (wbytes (v ! 2)),
              nc_expected = expected, nc_building_id = wint (v ! 4), nc_vendor_id = wint (v ! 6)\<rparr>
        in rbind (navigation_command_encode result verb) (\<lambda>again.
           if again \<noteq> data then Inl (ValueError ''noncanonical navigation command'') else Inr result))))))"

definition navigation_opened :: "navigation_command \<Rightarrow> navigation_verb \<Rightarrow> navigation_snapshot \<Rightarrow> bool result" where
  "navigation_opened c verb state =
     rbind (navigation_command_encode c verb) (\<lambda>_.
     rbind (navigation_encode state) (\<lambda>_.
     let before = nc_expected c in
     Inr (if state = empty_navigation
             \<or> (ns_scene state, ns_root state, ns_manager state) \<noteq> (ns_scene before, ns_root before, ns_manager before)
          then False
          else if verb = N_WAREHOUSE then warehouse_opened state (nc_building_id c) (nc_vendor_id c)
          else verb \<in> {N_BUILDING, N_GUARD, N_VENDOR}
            \<and> snapshot_opened state (nc_building_id c) (nc_vendor_id c) (if verb = N_GUARD then 37 else 42))))"

subsection \<open>Receipts\<close>

definition navigation_format :: "navigation_snapshot receipt_format" where
  "navigation_format =
     \<lparr>rf_label = ''navigation'', rf_magic = NAVIGATION_MAGIC, rf_flags = 7, rf_size = 96, rf_padding = 220,
      rf_encode = navigation_encode, rf_decode = navigation_decode, rf_needs_transition = (\<lambda>flags. False),
      rf_not_ready = (\<lambda>s. s = empty_navigation \<or> ns_offline s \<noteq> 0)\<rparr>"

subsection \<open>The codecs are inverse\<close>

lemma navigation_vals_of: "length v = 22 \<Longrightarrow> navigation_values (navigation_snapshot_of v) = v"
  by (auto simp: navigation_values_def navigation_snapshot_of_def eval_nat_numeral length_Suc_conv)

lemma navigation_of_vals: "navigation_snapshot_of (navigation_values s) = s"
  by (cases s) (simp add: navigation_values_def navigation_snapshot_of_def)

lemma navigation_encode_pack:
  assumes "navigation_encode s = Inr bs"
  shows "pack SNAPSHOT22_LAYOUT (map WInt (navigation_values s)) = Inr bs"
proof (cases "s = empty_navigation")
  case True
  then have "navigation_values s = replicate 22 0" by (simp add: empty_navigation_def navigation_vals_of)
  then show ?thesis using assms True pack_zero_values [OF snapshot22(1,2)] by (simp add: navigation_encode_def rbind_eq_Inr snapshot22)
next
  case False
  then show ?thesis using assms by (auto simp: navigation_encode_def rbind_eq_Inr)
qed

interpretation navigation: flat_snapshot SNAPSHOT22_LAYOUT navigation_values navigation_snapshot_of navigation_encode
  navigation_decode 96 "ValueError ''invalid navigation snapshot size''"
proof unfold_locales
  show "length (navigation_values s) = length SNAPSHOT22_LAYOUT" for s by (simp add: navigation_values_def snapshot22)
  show "navigation_snapshot_of (navigation_values s) = s" for s by (rule navigation_of_vals)
  show "pack SNAPSHOT22_LAYOUT (map WInt (navigation_values s)) = Inr bs" if "navigation_encode s = Inr bs" for s bs
    using that by (rule navigation_encode_pack)
qed (simp_all add: snapshot22 navigation_vals_of navigation_decode_def Let_def)

interpretation navigation_receipt: receipt_codec navigation_format
proof (rule receipt_codec.intro)
  show "wire_codec (\<lambda>_. True) (rf_encode navigation_format) (rf_decode navigation_format) (rf_size navigation_format)"
    using navigation.wire_codec_axioms by (simp add: navigation_format_def)
qed (unfold_locales, simp add: navigation_format_def)

lemma navigation_command_size: "layout_size NAVIGATION_COMMAND_LAYOUT = 576"
  by (simp add: NAVIGATION_COMMAND_LAYOUT_def)

lemma navigation_command_parts:
  assumes "navigation_command_encode c verb = Inr bs"
  obtains h q e t u where "host_decode h = Inr (nc_host c)" "uuid_str q = nc_request_key c" "navigation_decode e = Inr (nc_expected c)"
    "unpack NAVIGATION_COMMAND_LAYOUT bs = Inr [WBytes h, WInt (nc_window c), WBytes q, WBytes e, WInt (nc_building_id c), WInt t,
       WInt (nc_vendor_id c), WInt u, WBytes (zero_bytes 424)]"
    "length bs = 576"
proof -
  from assms obtain h q e t u where parts: "host_encode (nc_host c) = Inr h" "request_bytes (nc_request_key c) = Inr q"
    "navigation_encode (nc_expected c) = Inr e"
    and p: "pack NAVIGATION_COMMAND_LAYOUT [WBytes h, WInt (nc_window c), WBytes q, WBytes e, WInt (nc_building_id c), WInt t,
       WInt (nc_vendor_id c), WInt u, WBytes (zero_bytes 424)] = Inr bs"
    by (auto simp: navigation_command_encode_def rbind_eq_Inr)
  have "unpack NAVIGATION_COMMAND_LAYOUT bs = Inr [WBytes h, WInt (nc_window c), WBytes q, WBytes e, WInt (nc_building_id c), WInt t,
       WInt (nc_vendor_id c), WInt u, WBytes (zero_bytes 424)]"
    using p by (rule unpack_packed) (use parts in \<open>simp add: NAVIGATION_COMMAND_LAYOUT_def host.encode_length
        navigation.encode_length request_bytes_Inr\<close>)
  with parts show thesis using pack_length [OF p]
    by (intro that) (simp_all add: host.decode_iff navigation.decode_iff request_bytes_Inr navigation_command_size)
qed

interpretation navigation_command: wire_codec "\<lambda>_. True" "\<lambda>c. navigation_command_encode c verb"
  "\<lambda>b. navigation_command_decode b verb" 576 for verb
proof unfold_locales
  show "length bs = 576" if "navigation_command_encode c verb = Inr bs" for c bs
    using that by (rule navigation_command_parts)
  show "navigation_command_decode bs verb = Inr c" if e: "navigation_command_encode c verb = Inr bs" for c bs
    by (rule navigation_command_parts [OF e]) (use e in \<open>cases c; simp add: navigation_command_decode_def Let_def\<close>)
  show "True \<and> navigation_command_encode c verb = Inr bs" if "navigation_command_decode bs verb = Inr c" for c bs
    using that by (auto simp: navigation_command_decode_def rbind_eq_Inr Let_def split: if_splits)
qed

subsection \<open>Properties\<close>

text \<open>Navigation commands and receipts travel losslessly and canonically: for every verb a command
  decodes from a byte string exactly when it encodes to it, and so does a receipt.\<close>

lemma navigation_codec:
  "(navigation_command_decode bs verb = Inr c \<longleftrightarrow> navigation_command_encode c verb = Inr bs)
   \<and> (receipt_decode navigation_format bs = Inr r \<longleftrightarrow> receipt_encode navigation_format r = Inr bs)"
  by (simp add: navigation_command.decode_iff navigation_receipt.receipt_iff)

end
