(* ===== verification/Guard_Wire.thy ===== *)
theory Guard_Wire
  imports Navigation_Wire
begin

text \<open>
  Funded guard upgrades (\<^verbatim>\<open>client_extension/guard_upgrade_wire.py\<close>): a navigation snapshot with the guard's
  rank, cost and funds, the commands that inspect and upgrade it, and their receipts, byte for byte.
\<close>

datatype upgrade_verb = U_INSPECT | U_UPGRADE

fun upgrade_verb_value :: "upgrade_verb \<Rightarrow> int" where
  "upgrade_verb_value U_INSPECT = 17"
| "upgrade_verb_value U_UPGRADE = 18"

definition UPGRADE_MAGIC :: int where "UPGRADE_MAGIC = 0x57424733"
definition REOPENED :: int where "REOPENED = 8"

record guard_snapshot =
  gs_navigation :: navigation_snapshot
  gs_rank :: int
  gs_cost :: int
  gs_funds :: int
  gs_upgrading :: int
  gs_can_upgrade :: int
  gs_control_flags :: int
  gs_upgrade_control :: int
  gs_progress_control :: int

definition GUARD_FIELDS_LAYOUT :: "field list" where
  "GUARD_FIELDS_LAYOUT = replicate 8 (U 4)"

definition guard_values :: "guard_snapshot \<Rightarrow> int list" where
  "guard_values s =
     [gs_rank s, gs_cost s, gs_funds s, gs_upgrading s, gs_can_upgrade s, gs_control_flags s, gs_upgrade_control s,
      gs_progress_control s]"

text \<open>\<open>cls(navigation, *values)\<close>, and \<open>Snapshot()\<close>.\<close>

definition guard_snapshot_of :: "navigation_snapshot \<Rightarrow> int list \<Rightarrow> guard_snapshot" where
  "guard_snapshot_of n v =
     \<lparr>gs_navigation = n, gs_rank = v ! 0, gs_cost = v ! 1, gs_funds = v ! 2, gs_upgrading = v ! 3, gs_can_upgrade = v ! 4,
      gs_control_flags = v ! 5, gs_upgrade_control = v ! 6, gs_progress_control = v ! 7\<rparr>"

definition empty_guard :: guard_snapshot where
  "empty_guard = guard_snapshot_of empty_navigation (replicate 8 0)"

definition guard_eligible :: "guard_snapshot \<Rightarrow> bool" where
  "guard_eligible s \<longleftrightarrow> s \<noteq> empty_guard \<and> gs_upgrading s = 0 \<and> gs_can_upgrade s \<noteq> 0 \<and> gs_cost s > 0
     \<and> gs_funds s \<ge> gs_cost s \<and> gs_control_flags s = 3"

definition invalid_guard :: "guard_snapshot \<Rightarrow> bool" where
  "invalid_guard s \<longleftrightarrow> (let n = gs_navigation s in
     n = empty_navigation
     \<or> ns_offline n \<noteq> 0
     \<or> ns_visible n \<noteq> 3
     \<or> ns_vendor_type n \<noteq> 37
     \<or> \<not> (0 < gs_rank s \<and> gs_rank s < 2 ^ 32 - 1)
     \<or> gs_cost s > 2 ^ 31 - 1
     \<or> gs_funds s > 2 ^ 31 - 1
     \<or> gs_upgrading s > 1
     \<or> gs_can_upgrade s > 1
     \<or> gs_control_flags s > 7
     \<or> gs_upgrade_control s = 0
     \<or> gs_progress_control s = 0
     \<or> gs_upgrade_control s = gs_progress_control s)"

definition guard_encode :: "guard_snapshot \<Rightarrow> bytes result" where
  "guard_encode s =
     rbind (uints 32 ''guard field'' (guard_values s)) (\<lambda>_.
     rbind (navigation_encode (gs_navigation s)) (\<lambda>navigation.
     if s = empty_guard then Inr (zero_bytes 128)
     else rbind (checks [(invalid_guard s, ValueError ''invalid guard upgrade snapshot'')]) (\<lambda>_.
       rbind (pack GUARD_FIELDS_LAYOUT (map WInt (guard_values s))) (\<lambda>fields_bytes.
       Inr (navigation @ fields_bytes)))))"

definition guard_decode :: "bytes \<Rightarrow> guard_snapshot result" where
  "guard_decode data =
     (if length data \<noteq> 128 then Inl (ValueError ''invalid guard snapshot size'')
      else rbind (navigation_decode (take 96 data)) (\<lambda>n.
        rbind (unpack GUARD_FIELDS_LAYOUT (drop 96 data)) (\<lambda>v.
        let result = guard_snapshot_of n (map wint v)
        in rbind (guard_encode result) (\<lambda>_. Inr result))))"

record guard_command =
  gc_host :: host
  gc_window :: int
  gc_request_key :: string
  gc_expected :: guard_snapshot

definition GUARD_COMMAND_LAYOUT :: "field list" where
  "GUARD_COMMAND_LAYOUT = [S 16, U 8, S 16, S 128, S 408]"

definition guard_command_encode :: "guard_command \<Rightarrow> upgrade_verb \<Rightarrow> bytes result" where
  "guard_command_encode c verb =
     rbind (vendor_uint (gc_window c) 32 ''window'') (\<lambda>window.
     rbind (checks [(window = 0, ValueError ''window is required'')]) (\<lambda>_.
     rbind (guard_encode (gc_expected c)) (\<lambda>state.
     rbind (checks
       [((verb = U_INSPECT \<and> gc_expected c \<noteq> empty_guard) \<or> (verb = U_UPGRADE \<and> \<not> guard_eligible (gc_expected c)),
         ValueError ''guard command needs an eligible funded snapshot'')]) (\<lambda>_.
     rbind (host_encode (gc_host c)) (\<lambda>host.
     rbind (request_bytes (gc_request_key c)) (\<lambda>request.
     pack GUARD_COMMAND_LAYOUT
       [WBytes host, WInt (gc_window c), WBytes request, WBytes state, WBytes (zero_bytes 408)]))))))"

definition guard_command_decode :: "bytes \<Rightarrow> upgrade_verb \<Rightarrow> guard_command result" where
  "guard_command_decode data verb =
     (if length data \<noteq> 576 then Inl (ValueError ''invalid guard command size'')
      else rbind (unpack GUARD_COMMAND_LAYOUT data) (\<lambda>v.
        rbind (checks [(any_byte (wbytes (v ! 4)), ValueError ''nonzero guard command padding'')]) (\<lambda>_.
        rbind (host_decode (wbytes (v ! 0))) (\<lambda>host.
        rbind (guard_decode (wbytes (v ! 3))) (\<lambda>expected.
        let result = \<lparr>gc_host = host, gc_window = wint (v ! 1), gc_request_key = uuid_str (wbytes (v ! 2)),
              gc_expected = expected\<rparr>
        in rbind (guard_command_encode result verb) (\<lambda>again.
           if again \<noteq> data then Inl (ValueError ''noncanonical guard command'') else Inr result))))))"

definition upgrade_format :: "guard_snapshot receipt_format" where
  "upgrade_format =
     \<lparr>rf_label = ''guard'', rf_magic = UPGRADE_MAGIC, rf_flags = 15, rf_size = 128, rf_padding = 188,
      rf_encode = guard_encode, rf_decode = guard_decode, rf_needs_transition = (\<lambda>flags. has_flag flags REOPENED),
      rf_not_ready = (\<lambda>s. s = empty_guard)\<rparr>"

subsection \<open>The codecs are inverse\<close>

lemma guard_layouts:
  "list_all int_field GUARD_FIELDS_LAYOUT" "layout_size GUARD_FIELDS_LAYOUT = 32" "length GUARD_FIELDS_LAYOUT = 8"
  "layout_size GUARD_COMMAND_LAYOUT = 576"
  by (auto simp: GUARD_FIELDS_LAYOUT_def GUARD_COMMAND_LAYOUT_def list_all_iff layout_size_def sum_list_replicate)

lemma guard_vals_of: "length v = 8 \<Longrightarrow> guard_values (guard_snapshot_of n v) = v"
  by (auto simp: guard_values_def guard_snapshot_of_def eval_nat_numeral length_Suc_conv)

lemma guard_of_vals: "guard_snapshot_of (gs_navigation s) (guard_values s) = s"
  by (cases s) (simp add: guard_values_def guard_snapshot_of_def)

lemma length_guard_values: "length (guard_values s) = 8"
  by (simp add: guard_values_def)

lemma guard_encode_parts:
  assumes "guard_encode s = Inr bs"
  obtains n f where "navigation_encode (gs_navigation s) = Inr n" "pack GUARD_FIELDS_LAYOUT (map WInt (guard_values s)) = Inr f"
    "bs = n @ f"
proof (cases "s = empty_guard")
  case True
  have n: "navigation_encode empty_navigation = Inr (zero_bytes 96)"
    by (auto simp: navigation_encode_def snapshot_uints_def uints_def vendor_uint_def navigation_values_def empty_navigation_def
        navigation_snapshot_of_def)
  have z: "pack GUARD_FIELDS_LAYOUT (map WInt (guard_values s)) = Inr (zero_bytes 32)"
    using pack_zero_values [OF guard_layouts(1,2)] by (simp add: True empty_guard_def guard_vals_of guard_layouts)
  have "gs_navigation s = empty_navigation" by (simp add: True empty_guard_def guard_snapshot_of_def)
  moreover have "bs = zero_bytes 96 @ zero_bytes 32"
    using assms True by (simp add: guard_encode_def rbind_eq_Inr zero_bytes_def flip: replicate_add)
  ultimately show ?thesis using that n z by simp
next
  case False
  then show ?thesis using assms that by (auto simp: guard_encode_def rbind_eq_Inr)
qed

interpretation guard: wire_codec "\<lambda>_. True" guard_encode guard_decode 128
proof unfold_locales
  show size: "length bs = 128" if "guard_encode s = Inr bs" for s bs
    using that by (elim guard_encode_parts) (auto simp: navigation.encode_length guard_layouts dest!: pack_length)
  show "guard_decode bs = Inr s" if e: "guard_encode s = Inr bs" for s bs
  proof -
    from e obtain n f where n: "navigation_encode (gs_navigation s) = Inr n"
      and f: "pack GUARD_FIELDS_LAYOUT (map WInt (guard_values s)) = Inr f" and bs: "bs = n @ f" by (rule guard_encode_parts)
    have "unpack GUARD_FIELDS_LAYOUT f = Inr (map WInt (guard_values s))"
      using f by (rule unpack_packed) (simp add: sized_int_fields guard_layouts length_guard_values)
    moreover have "length n = 96" "navigation_decode n = Inr (gs_navigation s)"
      using n by (simp_all add: navigation.encode_length navigation.decode_iff)
    ultimately show ?thesis
      using e size [OF e] by (simp add: guard_decode_def bs Let_def comp_def guard_of_vals)
  qed
  show "True \<and> guard_encode s = Inr bs" if d: "guard_decode bs = Inr s" for s bs
  proof -
    from d obtain n v x where n: "navigation_decode (take 96 bs) = Inr n" and u: "unpack GUARD_FIELDS_LAYOUT (drop 96 bs) = Inr v"
      and s: "s = guard_snapshot_of n (map wint v)" and e: "guard_encode s = Inr x"
      by (auto simp: guard_decode_def rbind_eq_Inr Let_def split: if_splits)
    have f: "list_all2 fits GUARD_FIELDS_LAYOUT v" and p: "pack GUARD_FIELDS_LAYOUT v = Inr (drop 96 bs)" using unpack_shape [OF u] by auto
    have "guard_values s = map wint v" unfolding s using list_all2_lengthD [OF f] by (intro guard_vals_of) (simp add: guard_layouts)
    then have v: "map WInt (guard_values s) = v" using fits_int_fields [OF f guard_layouts(1)] by simp
    have "gs_navigation s = n" by (simp add: s guard_snapshot_of_def)
    then have "navigation_encode (gs_navigation s) = Inr (take 96 bs)" using n by (simp add: navigation.decode_iff)
    then have "x = take 96 bs @ drop 96 bs" using e p v by (elim guard_encode_parts) simp
    then show ?thesis using e by simp
  qed
qed

interpretation upgrade_receipt: receipt_codec upgrade_format
proof (rule receipt_codec.intro)
  show "wire_codec (\<lambda>_. True) (rf_encode upgrade_format) (rf_decode upgrade_format) (rf_size upgrade_format)"
    using guard.wire_codec_axioms by (simp add: upgrade_format_def)
qed (unfold_locales, simp add: upgrade_format_def)

lemma guard_command_parts:
  assumes "guard_command_encode c verb = Inr bs"
  obtains h q e where "host_decode h = Inr (gc_host c)" "uuid_str q = gc_request_key c" "guard_decode e = Inr (gc_expected c)"
    "unpack GUARD_COMMAND_LAYOUT bs = Inr [WBytes h, WInt (gc_window c), WBytes q, WBytes e, WBytes (zero_bytes 408)]"
    "length bs = 576"
proof -
  from assms obtain h q e where parts: "host_encode (gc_host c) = Inr h" "request_bytes (gc_request_key c) = Inr q"
    "guard_encode (gc_expected c) = Inr e"
    and p: "pack GUARD_COMMAND_LAYOUT [WBytes h, WInt (gc_window c), WBytes q, WBytes e, WBytes (zero_bytes 408)] = Inr bs"
    by (auto simp: guard_command_encode_def rbind_eq_Inr)
  have "unpack GUARD_COMMAND_LAYOUT bs = Inr [WBytes h, WInt (gc_window c), WBytes q, WBytes e, WBytes (zero_bytes 408)]"
    using p by (rule unpack_packed) (use parts in \<open>simp add: GUARD_COMMAND_LAYOUT_def host.encode_length
        guard.encode_length request_bytes_Inr\<close>)
  with parts show thesis using pack_length [OF p]
    by (intro that) (simp_all add: host.decode_iff guard.decode_iff request_bytes_Inr guard_layouts)
qed

interpretation guard_command: wire_codec "\<lambda>_. True" "\<lambda>c. guard_command_encode c verb" "\<lambda>b. guard_command_decode b verb" 576
  for verb
proof unfold_locales
  show "length bs = 576" if "guard_command_encode c verb = Inr bs" for c bs
    using that by (rule guard_command_parts)
  show "guard_command_decode bs verb = Inr c" if e: "guard_command_encode c verb = Inr bs" for c bs
    by (rule guard_command_parts [OF e]) (use e in \<open>cases c; simp add: guard_command_decode_def Let_def\<close>)
  show "True \<and> guard_command_encode c verb = Inr bs" if "guard_command_decode bs verb = Inr c" for c bs
    using that by (auto simp: guard_command_decode_def rbind_eq_Inr Let_def split: if_splits)
qed

subsection \<open>Properties\<close>

text \<open>Guard upgrade commands and receipts travel losslessly and canonically: a command or receipt decodes
  from a byte string exactly when it encodes to it.\<close>

lemma upgrade_codec:
  "(guard_command_decode bs verb = Inr c \<longleftrightarrow> guard_command_encode c verb = Inr bs)
   \<and> (receipt_decode upgrade_format bs = Inr r \<longleftrightarrow> receipt_encode upgrade_format r = Inr bs)"
  by (simp add: guard_command.decode_iff upgrade_receipt.receipt_iff)

end
