(* ===== verification/Funding_Wire.thy ===== *)
theory Funding_Wire
  imports Receipt_Wire
begin

text \<open>
  Warehouse withdrawals and structure deposits (\<^verbatim>\<open>client_extension/guard_funding_wire.py\<close>): the two-sided
  account a snapshot shows, the quote it was offered, the commands that open a quote and transfer
  an amount, and what confirms them, byte for byte.
\<close>

datatype funding_verb = F_INSPECT | F_TRANSFER | F_OPEN_QUOTE

fun funding_verb_value :: "funding_verb \<Rightarrow> int" where
  "funding_verb_value F_INSPECT = 19"
| "funding_verb_value F_TRANSFER = 20"
| "funding_verb_value F_OPEN_QUOTE = 21"

datatype direction = WAREHOUSE | STRUCTURE

fun direction_value :: "direction \<Rightarrow> int" where
  "direction_value WAREHOUSE = 1"
| "direction_value STRUCTURE = 2"

definition FUNDING_MAGIC :: int where "FUNDING_MAGIC = 0x57424631"

subsection \<open>Snapshots\<close>

record funding_snapshot =
  fs_scene :: int
  fs_revision :: int
  fs_root :: int
  fs_actor :: int
  fs_character_id :: int
  fs_character_type :: int
  fs_manager :: int
  fs_hud :: int
  fs_source_object :: int
  fs_source_id :: int
  fs_source_type :: int
  fs_direction :: int
  fs_resource :: int
  fs_balance :: int
  fs_reserve :: int
  fs_purse :: int
  fs_quote :: int
  fs_limit :: int
  fs_entered :: int
  fs_accept :: int
  fs_cancel :: int
  fs_helper :: int

definition funding_values :: "funding_snapshot \<Rightarrow> int list" where
  "funding_values s =
     [fs_scene s, fs_revision s, fs_root s, fs_actor s, fs_character_id s, fs_character_type s, fs_manager s, fs_hud s,
      fs_source_object s, fs_source_id s, fs_source_type s, fs_direction s, fs_resource s, fs_balance s, fs_reserve s,
      fs_purse s, fs_quote s, fs_limit s, fs_entered s, fs_accept s, fs_cancel s, fs_helper s]"

definition funding_snapshot_of :: "int list \<Rightarrow> funding_snapshot" where
  "funding_snapshot_of v =
     \<lparr>fs_scene = v ! 0, fs_revision = v ! 1, fs_root = v ! 2, fs_actor = v ! 3, fs_character_id = v ! 4,
      fs_character_type = v ! 5, fs_manager = v ! 6, fs_hud = v ! 7, fs_source_object = v ! 8, fs_source_id = v ! 9,
      fs_source_type = v ! 10, fs_direction = v ! 11, fs_resource = v ! 12, fs_balance = v ! 13, fs_reserve = v ! 14,
      fs_purse = v ! 15, fs_quote = v ! 16, fs_limit = v ! 17, fs_entered = v ! 18, fs_accept = v ! 19,
      fs_cancel = v ! 20, fs_helper = v ! 21\<rparr>"

definition empty_funding :: funding_snapshot where
  "empty_funding = funding_snapshot_of (replicate 22 0)"

definition funding_check :: "funding_snapshot \<Rightarrow> unit result" where
  "funding_check s =
     rbind (checks
       [(\<not> (fs_scene s \<noteq> 0 \<and> fs_revision s \<noteq> 0 \<and> fs_root s \<noteq> 0 \<and> fs_actor s \<noteq> 0 \<and> fs_character_id s \<noteq> 0
            \<and> fs_character_type s \<noteq> 0 \<and> fs_manager s \<noteq> 0 \<and> fs_hud s \<noteq> 0 \<and> fs_source_id s \<noteq> 0)
         \<or> fs_direction s \<notin> {1, 2}
         \<or> max (fs_balance s) (max (fs_reserve s) (fs_purse s)) > 2 ^ 31 - 1,
         ValueError ''invalid funding ownership or balance'')]) (\<lambda>_.
     rbind
       (if fs_direction s = 1
        then checks [(fs_source_object s = 0 \<or> fs_source_type s \<noteq> 42 \<or> fs_resource s = 0, ValueError ''invalid warehouse source'')]
        else checks [(fs_source_object s \<noteq> 0 \<or> fs_source_type s \<noteq> 8 \<or> fs_resource s \<noteq> 0 \<or> fs_reserve s \<noteq> 0,
          ValueError ''invalid structure destination'')]) (\<lambda>_.
     if fs_quote s = 0
     then checks [(fs_limit s \<noteq> 0 \<or> fs_entered s \<noteq> 0 \<or> fs_accept s \<noteq> 0 \<or> fs_cancel s \<noteq> 0 \<or> fs_helper s \<noteq> 0,
       ValueError ''closed quote retains controls'')]
     else checks
      [(fs_quote s = fs_hud s \<or> \<not> (fs_accept s \<noteq> 0 \<and> fs_cancel s \<noteq> 0 \<and> fs_helper s \<noteq> 0)
          \<or> \<not> distinct [fs_accept s, fs_cancel s, fs_helper s]
          \<or> fs_limit s > 2 ^ 31 - 1 \<or> fs_entered s > fs_limit s, ValueError ''invalid funding quote''),
       (fs_limit s \<noteq> (if fs_direction s = 1 then max 0 (fs_balance s - fs_reserve s) else fs_purse s),
          ValueError ''stale funding quote'')]))"

definition funding_encode :: "funding_snapshot \<Rightarrow> bytes result" where
  "funding_encode s =
     rbind (snapshot_uints ''funding snapshot field'' (funding_values s)) (\<lambda>_.
     if s = empty_funding then Inr (zero_bytes 96)
     else rbind (funding_check s) (\<lambda>_. pack SNAPSHOT22_LAYOUT (map WInt (funding_values s))))"

definition funding_decode :: "bytes \<Rightarrow> funding_snapshot result" where
  "funding_decode data =
     (if length data \<noteq> 96 then Inl (ValueError ''invalid funding snapshot size'')
      else rbind (unpack SNAPSHOT22_LAYOUT data) (\<lambda>v.
        let result = funding_snapshot_of (map wint v)
        in rbind (funding_encode result) (\<lambda>_. Inr result)))"

definition funding_eligible :: "funding_snapshot \<Rightarrow> int \<Rightarrow> bool result" where
  "funding_eligible s amount =
     rbind (funding_encode s) (\<lambda>_.
     rbind (vendor_uint amount 32 ''transfer amount'') (\<lambda>_.
     Inr (s \<noteq> empty_funding \<and> fs_quote s \<noteq> 0 \<and> 0 < amount \<and> amount \<le> fs_limit s
       \<and> amount \<le> 2 ^ 31 - 1 - (if fs_direction s = 1 then fs_purse s else fs_balance s))))"

definition funding_can_open :: "funding_snapshot \<Rightarrow> bool result" where
  "funding_can_open s =
     rbind (funding_encode s) (\<lambda>_.
     Inr (s \<noteq> empty_funding \<and> fs_quote s = 0
       \<and> (if fs_direction s = 1 then fs_balance s > fs_reserve s \<and> fs_purse s < 2 ^ 31 - 1
          else fs_purse s \<noteq> 0 \<and> fs_balance s < 2 ^ 31 - 1)))"

definition same_owner :: "funding_snapshot \<Rightarrow> funding_snapshot \<Rightarrow> bool" where
  "same_owner s t \<longleftrightarrow>
     list_all (\<lambda>name. name s = name t)
       [fs_scene, fs_root, fs_actor, fs_character_id, fs_character_type, fs_manager, fs_hud, fs_source_object, fs_source_id,
        fs_source_type, fs_direction, fs_resource]"

subsection \<open>Commands\<close>

record funding_command =
  fc_host :: host
  fc_window :: int
  fc_request_key :: string
  fc_expected :: funding_snapshot
  fc_direction :: int
  fc_amount :: int

definition FUNDING_COMMAND_LAYOUT :: "field list" where
  "FUNDING_COMMAND_LAYOUT = [S 16, U 8, S 16, S 96, U 4, U 4, S 432]"

text \<open>The two guards of \<open>encode\<close>; \<open>and\<close> and \<open>or\<close> call \<open>eligible\<close> and \<open>can_open\<close> only when their left operands
  leave the answer open.\<close>

definition funding_command_check :: "funding_command \<Rightarrow> funding_verb \<Rightarrow> unit result" where
  "funding_command_check c verb =
     rbind
       (if verb = F_INSPECT \<and> (fc_expected c \<noteq> empty_funding \<or> fc_amount c \<noteq> 0) then Inr True
        else if verb = F_TRANSFER
        then if fc_direction c \<noteq> fs_direction (fc_expected c) then Inr True
             else rbind (funding_eligible (fc_expected c) (fc_amount c)) (\<lambda>ok. Inr (\<not> ok))
        else Inr False) (\<lambda>bad.
     rbind (checks [(bad, ValueError ''funding command requires an eligible quote and amount'')]) (\<lambda>_.
     rbind
       (if verb = F_OPEN_QUOTE
        then if fc_amount c \<noteq> 0 \<or> fc_direction c \<noteq> fs_direction (fc_expected c) then Inr True
             else rbind (funding_can_open (fc_expected c)) (\<lambda>ok. Inr (\<not> ok))
        else Inr False) (\<lambda>bad.
     checks [(bad, ValueError ''quote opening requires an idle funded source'')])))"

definition funding_command_encode :: "funding_command \<Rightarrow> funding_verb \<Rightarrow> bytes result" where
  "funding_command_encode c verb =
     rbind (vendor_uint (fc_window c) 32 ''window'') (\<lambda>window.
     rbind (checks [(window = 0, ValueError ''window is required'')]) (\<lambda>_.
     rbind (vendor_uint (fc_direction c) 32 ''funding direction'') (\<lambda>_.
     rbind (int_enum direction_value [WAREHOUSE, STRUCTURE] ''Direction'' (fc_direction c)) (\<lambda>_.
     rbind (vendor_uint (fc_amount c) 32 ''funding amount'') (\<lambda>_.
     rbind (funding_encode (fc_expected c)) (\<lambda>state.
     rbind (funding_command_check c verb) (\<lambda>_.
     rbind (host_encode (fc_host c)) (\<lambda>host.
     rbind (request_bytes (fc_request_key c)) (\<lambda>request.
     pack FUNDING_COMMAND_LAYOUT
       [WBytes host, WInt (fc_window c), WBytes request, WBytes state, WInt (fc_direction c), WInt (fc_amount c),
        WBytes (zero_bytes 432)])))))))))"

definition funding_command_decode :: "bytes \<Rightarrow> funding_verb \<Rightarrow> funding_command result" where
  "funding_command_decode data verb =
     (if length data \<noteq> 576 then Inl (ValueError ''invalid funding command size'')
      else rbind (unpack FUNDING_COMMAND_LAYOUT data) (\<lambda>v.
        rbind (checks [(any_byte (wbytes (v ! 6)), ValueError ''nonzero funding command padding'')]) (\<lambda>_.
        rbind (host_decode (wbytes (v ! 0))) (\<lambda>host.
        rbind (funding_decode (wbytes (v ! 3))) (\<lambda>expected.
        let result = \<lparr>fc_host = host, fc_window = wint (v ! 1), fc_request_key = uuid_str (wbytes (v ! 2)),
              fc_expected = expected, fc_direction = wint (v ! 4), fc_amount = wint (v ! 5)\<rparr>
        in rbind (funding_command_encode result verb) (\<lambda>again.
           if again \<noteq> data then Inl (ValueError ''noncanonical funding command'') else Inr result))))))"

definition funding_opened :: "funding_command \<Rightarrow> funding_snapshot \<Rightarrow> bool result" where
  "funding_opened c state =
     rbind (funding_command_encode c F_OPEN_QUOTE) (\<lambda>_.
     rbind (funding_encode state) (\<lambda>_.
     let before = fc_expected c in
     Inr (state \<noteq> empty_funding \<and> same_owner before state \<and> fs_quote state \<noteq> 0 \<and> fs_balance state = fs_balance before
       \<and> fs_purse state = fs_purse before \<and> fs_reserve state = fs_reserve before)))"

definition funding_confirmed :: "funding_command \<Rightarrow> funding_snapshot \<Rightarrow> bool result" where
  "funding_confirmed c state =
     rbind (funding_command_encode c F_TRANSFER) (\<lambda>_.
     rbind (funding_encode state) (\<lambda>_.
     let before = fc_expected c; delta = (if fc_direction c = 1 then - fc_amount c else fc_amount c) in
     Inr (if state = empty_funding \<or> \<not> same_owner before state \<or> fs_reserve state \<noteq> fs_reserve before \<or> fs_quote state \<noteq> 0
          then False
          else fs_balance state = fs_balance before + delta \<and> fs_purse state = fs_purse before - delta)))"

definition funding_format :: "funding_snapshot receipt_format" where
  "funding_format =
     \<lparr>rf_label = ''funding'', rf_magic = FUNDING_MAGIC, rf_flags = 7, rf_size = 96, rf_padding = 220,
      rf_encode = funding_encode, rf_decode = funding_decode, rf_needs_transition = (\<lambda>flags. False),
      rf_not_ready = (\<lambda>s. s = empty_funding)\<rparr>"

subsection \<open>The codecs are inverse\<close>

lemma funding_vals_of: "length v = 22 \<Longrightarrow> funding_values (funding_snapshot_of v) = v"
  by (auto simp: funding_values_def funding_snapshot_of_def eval_nat_numeral length_Suc_conv)

lemma funding_of_vals: "funding_snapshot_of (funding_values s) = s"
  by (cases s) (simp add: funding_values_def funding_snapshot_of_def)

lemma funding_encode_pack:
  assumes "funding_encode s = Inr bs"
  shows "pack SNAPSHOT22_LAYOUT (map WInt (funding_values s)) = Inr bs"
proof (cases "s = empty_funding")
  case True
  then have "funding_values s = replicate 22 0" by (simp add: empty_funding_def funding_vals_of)
  then show ?thesis using assms True pack_zero_values [OF snapshot22(1,2)] by (simp add: funding_encode_def rbind_eq_Inr snapshot22)
next
  case False
  then show ?thesis using assms by (auto simp: funding_encode_def rbind_eq_Inr)
qed

interpretation funding: flat_snapshot SNAPSHOT22_LAYOUT funding_values funding_snapshot_of funding_encode
  funding_decode 96 "ValueError ''invalid funding snapshot size''"
proof unfold_locales
  show "length (funding_values s) = length SNAPSHOT22_LAYOUT" for s by (simp add: funding_values_def snapshot22)
  show "funding_snapshot_of (funding_values s) = s" for s by (rule funding_of_vals)
  show "pack SNAPSHOT22_LAYOUT (map WInt (funding_values s)) = Inr bs" if "funding_encode s = Inr bs" for s bs
    using that by (rule funding_encode_pack)
qed (simp_all add: snapshot22 funding_vals_of funding_decode_def Let_def)

interpretation funding_receipt: receipt_codec funding_format
proof (rule receipt_codec.intro)
  show "wire_codec (\<lambda>_. True) (rf_encode funding_format) (rf_decode funding_format) (rf_size funding_format)"
    using funding.wire_codec_axioms by (simp add: funding_format_def)
qed (unfold_locales, simp add: funding_format_def)

lemma funding_command_size: "layout_size FUNDING_COMMAND_LAYOUT = 576"
  by (simp add: FUNDING_COMMAND_LAYOUT_def)

lemma funding_command_parts:
  assumes "funding_command_encode c verb = Inr bs"
  obtains h q e where "host_decode h = Inr (fc_host c)" "uuid_str q = fc_request_key c" "funding_decode e = Inr (fc_expected c)"
    "unpack FUNDING_COMMAND_LAYOUT bs = Inr [WBytes h, WInt (fc_window c), WBytes q, WBytes e, WInt (fc_direction c),
       WInt (fc_amount c), WBytes (zero_bytes 432)]"
    "length bs = 576"
proof -
  from assms obtain h q e where parts: "host_encode (fc_host c) = Inr h" "request_bytes (fc_request_key c) = Inr q"
    "funding_encode (fc_expected c) = Inr e"
    and p: "pack FUNDING_COMMAND_LAYOUT [WBytes h, WInt (fc_window c), WBytes q, WBytes e, WInt (fc_direction c),
       WInt (fc_amount c), WBytes (zero_bytes 432)] = Inr bs"
    by (auto simp: funding_command_encode_def rbind_eq_Inr)
  have "unpack FUNDING_COMMAND_LAYOUT bs = Inr [WBytes h, WInt (fc_window c), WBytes q, WBytes e, WInt (fc_direction c),
       WInt (fc_amount c), WBytes (zero_bytes 432)]"
    using p by (rule unpack_packed) (use parts in \<open>simp add: FUNDING_COMMAND_LAYOUT_def host.encode_length
        funding.encode_length request_bytes_Inr\<close>)
  with parts show thesis using pack_length [OF p]
    by (intro that) (simp_all add: host.decode_iff funding.decode_iff request_bytes_Inr funding_command_size)
qed

interpretation funding_command: wire_codec "\<lambda>_. True" "\<lambda>c. funding_command_encode c verb"
  "\<lambda>b. funding_command_decode b verb" 576 for verb
proof unfold_locales
  show "length bs = 576" if "funding_command_encode c verb = Inr bs" for c bs
    using that by (rule funding_command_parts)
  show "funding_command_decode bs verb = Inr c" if e: "funding_command_encode c verb = Inr bs" for c bs
    by (rule funding_command_parts [OF e]) (use e in \<open>cases c; simp add: funding_command_decode_def Let_def\<close>)
  show "True \<and> funding_command_encode c verb = Inr bs" if "funding_command_decode bs verb = Inr c" for c bs
    using that by (auto simp: funding_command_decode_def rbind_eq_Inr Let_def split: if_splits)
qed

subsection \<open>Properties\<close>

text \<open>Funding commands and receipts travel losslessly and canonically: a command or receipt decodes from
  a byte string exactly when it encodes to it.\<close>

lemma funding_codec:
  "(funding_command_decode bs verb = Inr c \<longleftrightarrow> funding_command_encode c verb = Inr bs)
   \<and> (receipt_decode funding_format bs = Inr r \<longleftrightarrow> receipt_encode funding_format r = Inr bs)"
  by (simp add: funding_command.decode_iff funding_receipt.receipt_iff)

lemma funding_check_facts:
  assumes "funding_check s = Inr ()"
  shows "fs_direction s \<in> {1, 2} \<and> fs_balance s < 2 ^ 31 \<and> fs_purse s < 2 ^ 31
    \<and> (fs_quote s \<noteq> 0 \<longrightarrow> fs_limit s = (if fs_direction s = 1 then max 0 (fs_balance s - fs_reserve s) else fs_purse s))"
  using assms by (simp add: funding_check_def rbind_eq_Inr split: if_splits; arith)

lemma funding_encode_facts:
  assumes "funding_encode s = Inr bs" "s \<noteq> empty_funding"
  shows "funding_check s = Inr () \<and> 0 \<le> fs_balance s \<and> 0 \<le> fs_purse s \<and> 0 \<le> fs_reserve s"
  using assms by (simp add: funding_encode_def snapshot_uints_def rbind_eq_Inr uints_Inr funding_values_def)

lemma transfer_eligible:
  assumes "funding_command_encode c F_TRANSFER = Inr bs"
  shows "fc_direction c = fs_direction (fc_expected c) \<and> funding_eligible (fc_expected c) (fc_amount c) = Inr True"
  using assms by (simp add: funding_command_encode_def funding_command_check_def rbind_eq_Inr split: if_splits) auto

text \<open>C24: No gold is created, lost or overdrawn by a transfer. Every transfer command that can be encoded moves
  a positive amount that its source can spare above the reserve and its destination can hold in 31
  bits; and when a later snapshot confirms the command, balance and purse have changed by exactly
  that amount in opposite directions and both are again within 31 bits.\<close>

theorem transfer_conserves:
  assumes "funding_command_encode c F_TRANSFER = Inr bs"
  shows "0 < fc_amount c
    \<and> (if fc_direction c = 1
       then fs_balance (fc_expected c) - fc_amount c \<ge> fs_reserve (fc_expected c) \<and> fs_purse (fc_expected c) + fc_amount c < 2 ^ 31
       else fs_purse (fc_expected c) - fc_amount c \<ge> 0 \<and> fs_balance (fc_expected c) + fc_amount c < 2 ^ 31)
    \<and> (funding_confirmed c state = Inr True \<longrightarrow>
        fs_balance state + fs_purse state = fs_balance (fc_expected c) + fs_purse (fc_expected c)
        \<and> \<bar>fs_purse state - fs_purse (fc_expected c)\<bar> = fc_amount c
        \<and> 0 \<le> fs_balance state \<and> fs_balance state < 2 ^ 31 \<and> 0 \<le> fs_purse state \<and> fs_purse state < 2 ^ 31
        \<and> fs_reserve state = fs_reserve (fc_expected c) \<and> fs_source_id state = fs_source_id (fc_expected c))"
proof -
  let ?s = "fc_expected c"
  have dir: "fc_direction c = fs_direction ?s" and el: "funding_eligible ?s (fc_amount c) = Inr True"
    using transfer_eligible [OF assms] by auto
  then obtain x where x: "funding_encode ?s = Inr x" "?s \<noteq> empty_funding" "fs_quote ?s \<noteq> 0"
    and amount: "0 < fc_amount c" "fc_amount c \<le> fs_limit ?s"
      "fc_amount c \<le> 2 ^ 31 - 1 - (if fs_direction ?s = 1 then fs_purse ?s else fs_balance ?s)"
    by (auto simp: funding_eligible_def rbind_eq_Inr)
  note f = funding_encode_facts [OF x(1,2)]
  note g = funding_check_facts [OF conjunct1 [OF f]]
  have moved: "0 < fc_amount c \<and> (if fc_direction c = 1
       then fs_balance ?s - fc_amount c \<ge> fs_reserve ?s \<and> fs_purse ?s + fc_amount c < 2 ^ 31
       else fs_purse ?s - fc_amount c \<ge> 0 \<and> fs_balance ?s + fc_amount c < 2 ^ 31)"
    using amount f g x(3) dir by (auto split: if_splits)
  have "same_owner ?s state \<and> fs_reserve state = fs_reserve ?s
      \<and> fs_balance state = fs_balance ?s + (if fc_direction c = 1 then - fc_amount c else fc_amount c)
      \<and> fs_purse state = fs_purse ?s - (if fc_direction c = 1 then - fc_amount c else fc_amount c)"
    if "funding_confirmed c state = Inr True"
    using that by (auto simp: funding_confirmed_def rbind_eq_Inr Let_def split: if_splits)
  then show ?thesis using moved f g dir by (auto simp: same_owner_def split: if_splits)
qed

text \<open>A withdrawal of 400 from a warehouse that keeps 100 of its 1000 in reserve.\<close>

definition example_quote :: funding_snapshot where
  "example_quote = funding_snapshot_of [1, 1, 11, 12, 13, 53, 14, 15, 16, 17, 42, 1, 7, 1000, 100, 50, 20, 900, 400, 21, 22, 23]"

definition example_transfer :: funding_command where
  "example_transfer = \<lparr>fc_host = example_host, fc_window = 9, fc_request_key = example_key, fc_expected = example_quote,
     fc_direction = 1, fc_amount = 400\<rparr>"

theorem transfer_conserves_witness:
  "\<exists>bs. funding_command_encode example_transfer F_TRANSFER = Inr bs
     \<and> fs_balance (fc_expected example_transfer) - fc_amount example_transfer \<ge> fs_reserve (fc_expected example_transfer)"
proof -
  have "\<not> isl (funding_command_encode example_transfer F_TRANSFER)" by code_simp
  then obtain bs where bs: "funding_command_encode example_transfer F_TRANSFER = Inr bs"
    by (cases "funding_command_encode example_transfer F_TRANSFER") auto
  have "fc_direction example_transfer = 1" by (simp add: example_transfer_def)
  then show ?thesis using bs transfer_conserves [OF bs, of example_quote] by auto
qed

end
