(* ===== verification/Guard_Journal.thy ===== *)
theory Guard_Journal
  imports Guard_Wire Funding_Wire Protocol_Codec
begin

text \<open>
  The durable journal of guard spending (\<^verbatim>\<open>client_extension/guard_spending_journal.py\<close>). A journal is a
  directory: one record per request, named by the request's UUID, and a pointer to the request that
  is still open. An action is written down before it is dispatched, and an unfinished one blocks
  every later one.

  The directory is the state \<open>journal\<close>. A file holds the JSON value it was written with, or the
  exception that reading it raises (unreadable, oversized or malformed text). Operations are state
  transformers that return a value or an exception together with the directory they leave behind;
  every write, and the dispatch itself, first consults \<open>faults\<close>, so that an operation may fail or its
  process may die between any two of its effects (a record is replaced atomically, so a write
  happens or does not). \<open>sent\<close> lists the requests whose \<open>dispatch()\<close> was called, in order, and is read
  by no operation. The lock that serialises operations is not modelled: an operation runs alone.
\<close>

subsection \<open>Commands, receipts and operations\<close>

datatype spend_command =
    UpgradeCommand guard_command
  | FundingCommand funding_command
  | NavigationCommand navigation_command

datatype spend_receipt =
    UpgradeReceipt "guard_snapshot action_receipt"
  | FundingReceipt "funding_snapshot action_receipt"
  | NavigationReceipt "navigation_snapshot action_receipt"

text \<open>The triple \<open>(Command, verb, Receipt)\<close> that \<open>_codec\<close> returns: the format and the verb.\<close>

datatype spend_codec =
    NavigationCodec navigation_verb
  | UpgradeCodec upgrade_verb
  | FundingCodec funding_verb

definition NAVIGATION_OPERATIONS :: "(string \<times> navigation_verb) list" where
  "NAVIGATION_OPERATIONS =
     [(''navigate_building'', N_BUILDING), (''navigate_guard'', N_GUARD), (''navigate_warehouse'', N_WAREHOUSE)]"

definition spend_codec :: "string \<Rightarrow> spend_codec result" where
  "spend_codec operation =
     (case map_of NAVIGATION_OPERATIONS operation of
        Some verb \<Rightarrow> Inr (NavigationCodec verb)
      | None \<Rightarrow>
          if operation = ''upgrade'' then Inr (UpgradeCodec U_UPGRADE)
          else if operation = ''open_quote'' then Inr (FundingCodec F_OPEN_QUOTE)
          else if operation = ''transfer'' then Inr (FundingCodec F_TRANSFER)
          else Inl (GuardSpendingStopped ''unknown guard spending operation''))"

fun spend_operation :: "spend_command \<Rightarrow> navigation_verb option \<Rightarrow> string result" where
  "spend_operation (NavigationCommand c) verb =
     (case find (\<lambda>(operation, v). verb = Some v) NAVIGATION_OPERATIONS of
        Some (operation, v) \<Rightarrow> Inr operation
      | None \<Rightarrow> Inl (ValueError ''an explicit guard navigation verb is required''))"
| "spend_operation (UpgradeCommand c) verb =
     rbind (checks [(verb \<noteq> None, ValueError ''a spending command cannot carry a navigation verb'')]) (\<lambda>_. Inr ''upgrade'')"
| "spend_operation (FundingCommand c) verb =
     rbind (checks [(verb \<noteq> None, ValueError ''a spending command cannot carry a navigation verb'')]) (\<lambda>_.
     Inr (if fc_amount c \<noteq> 0 then ''transfer'' else ''open_quote''))"

fun command_key :: "spend_command \<Rightarrow> string" where
  "command_key (UpgradeCommand c) = gc_request_key c"
| "command_key (FundingCommand c) = fc_request_key c"
| "command_key (NavigationCommand c) = nc_request_key c"

fun command_owner :: "spend_command \<Rightarrow> host \<times> int" where
  "command_owner (UpgradeCommand c) = (gc_host c, gc_window c)"
| "command_owner (FundingCommand c) = (fc_host c, fc_window c)"
| "command_owner (NavigationCommand c) = (nc_host c, nc_window c)"

fun receipt_key :: "spend_receipt \<Rightarrow> string" where
  "receipt_key (UpgradeReceipt r) = ar_request_key r"
| "receipt_key (FundingReceipt r) = ar_request_key r"
| "receipt_key (NavigationReceipt r) = ar_request_key r"

fun receipt_owner :: "spend_receipt \<Rightarrow> host \<times> int" where
  "receipt_owner (UpgradeReceipt r) = (ar_host r, ar_window r)"
| "receipt_owner (FundingReceipt r) = (ar_host r, ar_window r)"
| "receipt_owner (NavigationReceipt r) = (ar_host r, ar_window r)"

fun receipt_outcome :: "spend_receipt \<Rightarrow> vendor_outcome" where
  "receipt_outcome (UpgradeReceipt r) = ar_outcome r"
| "receipt_outcome (FundingReceipt r) = ar_outcome r"
| "receipt_outcome (NavigationReceipt r) = ar_outcome r"

fun receipt_flags :: "spend_receipt \<Rightarrow> int" where
  "receipt_flags (UpgradeReceipt r) = ar_flags r"
| "receipt_flags (FundingReceipt r) = ar_flags r"
| "receipt_flags (NavigationReceipt r) = ar_flags r"

text \<open>\<open>command.encode(verb)\<close>; the verbs of the three formats have distinct numbers, so a verb of another
  format is not a valid one.\<close>

fun spend_command_encode :: "spend_codec \<Rightarrow> spend_command \<Rightarrow> bytes result" where
  "spend_command_encode (NavigationCodec verb) (NavigationCommand c) = navigation_command_encode c verb"
| "spend_command_encode (UpgradeCodec verb) (UpgradeCommand c) = guard_command_encode c verb"
| "spend_command_encode (FundingCodec verb) (FundingCommand c) = funding_command_encode c verb"
| "spend_command_encode codec c = Inl (ValueError ''not a valid Verb'')"

fun spend_command_decode :: "spend_codec \<Rightarrow> bytes \<Rightarrow> spend_command result" where
  "spend_command_decode (NavigationCodec verb) b = rbind (navigation_command_decode b verb) (\<lambda>c. Inr (NavigationCommand c))"
| "spend_command_decode (UpgradeCodec verb) b = rbind (guard_command_decode b verb) (\<lambda>c. Inr (UpgradeCommand c))"
| "spend_command_decode (FundingCodec verb) b = rbind (funding_command_decode b verb) (\<lambda>c. Inr (FundingCommand c))"

fun spend_receipt_encode :: "spend_receipt \<Rightarrow> bytes result" where
  "spend_receipt_encode (UpgradeReceipt r) = receipt_encode upgrade_format r"
| "spend_receipt_encode (FundingReceipt r) = receipt_encode funding_format r"
| "spend_receipt_encode (NavigationReceipt r) = receipt_encode navigation_format r"

text \<open>\<open>type(receipt) is _codec(operation)[2]\<close>.\<close>

fun receipt_matches :: "spend_codec \<Rightarrow> spend_receipt \<Rightarrow> bool" where
  "receipt_matches (NavigationCodec verb) (NavigationReceipt r) \<longleftrightarrow> True"
| "receipt_matches (UpgradeCodec verb) (UpgradeReceipt r) \<longleftrightarrow> True"
| "receipt_matches (FundingCodec verb) (FundingReceipt r) \<longleftrightarrow> True"
| "receipt_matches codec r \<longleftrightarrow> False"

text \<open>\<open>bytes.fromhex\<close>: pairs of hexadecimal digits of either case, ASCII white space between pairs.\<close>

definition ascii_space :: "char \<Rightarrow> bool" where
  "ascii_space c \<longleftrightarrow> (let n = of_char c :: nat in n = 32 \<or> (9 \<le> n \<and> n \<le> 13))"

definition any_hex_digit :: "char \<Rightarrow> nat option" where
  "any_hex_digit c = (let n = of_char c :: nat in if 65 \<le> n \<and> n \<le> 70 then Some (n - 55) else unhex_digit c)"

fun fromhex :: "string \<Rightarrow> bytes result" where
  "fromhex [] = Inr []"
| "fromhex [c] = (if ascii_space c then Inr [] else Inl (ValueError ''non-hexadecimal number found in fromhex() arg''))"
| "fromhex (c # d # cs) =
     (if ascii_space c then fromhex (d # cs)
      else case (any_hex_digit c, any_hex_digit d) of
        (Some h, Some l) \<Rightarrow> rbind (fromhex cs) (\<lambda>bs. Inr (of_nat (16 * h + l) # bs))
      | _ \<Rightarrow> Inl (ValueError ''non-hexadecimal number found in fromhex() arg''))"

definition json_hex :: "json \<Rightarrow> bytes result" where
  "json_hex v = (case v of JString s \<Rightarrow> fromhex s | _ \<Rightarrow> Inl (TypeError ''fromhex() argument must be str''))"

fun spend_receipt_decode :: "spend_command \<Rightarrow> json \<Rightarrow> spend_receipt result" where
  "spend_receipt_decode (NavigationCommand c) data =
     rbind (json_hex data) (\<lambda>b. rbind (receipt_decode navigation_format b) (\<lambda>r. Inr (NavigationReceipt r)))"
| "spend_receipt_decode (UpgradeCommand c) data =
     rbind (json_hex data) (\<lambda>b. rbind (receipt_decode upgrade_format b) (\<lambda>r. Inr (UpgradeReceipt r)))"
| "spend_receipt_decode (FundingCommand c) data =
     rbind (json_hex data) (\<lambda>b. rbind (receipt_decode funding_format b) (\<lambda>r. Inr (FundingReceipt r)))"

subsection \<open>Confirmation\<close>

definition observed_for :: "string \<Rightarrow> 's action_receipt \<Rightarrow> bool" where
  "observed_for key r \<longleftrightarrow> ar_outcome r = OBSERVED \<and> ar_transition_request r = Some key
     \<and> \<not> has_flag (ar_flags r) (IN_FLIGHT OR UNRESOLVED)"

definition upgrade_confirmed :: "guard_command \<Rightarrow> guard_snapshot action_receipt \<Rightarrow> bool" where
  "upgrade_confirmed c r =
     (let before = gc_expected c; after = ar_snapshot r; a = gs_navigation before; b = gs_navigation after;
          same_identity = ns_scene a = ns_scene b \<and> ns_root a = ns_root b \<and> ns_manager a = ns_manager b
            \<and> (ns_building_id a, ns_building_type a, ns_vendor_id a, ns_vendor_type a)
                = (ns_building_id b, ns_building_type b, ns_vendor_id b, ns_vendor_type b);
          same_windows = ns_building_hud a = ns_building_hud b \<and> ns_vendor_hud a = ns_vendor_hud b
            \<and> ns_selected_entry a = ns_selected_entry b \<and> gs_upgrade_control before = gs_upgrade_control after
            \<and> gs_progress_control before = gs_progress_control after;
          owned_response = guard_eligible before \<and> after \<noteq> empty_guard \<and> ns_front_hud a = ns_vendor_hud a
            \<and> ns_front_hud b = ns_vendor_hud b \<and> ns_mode b = 6 \<and> gs_cost after = gs_cost before;
          same = same_identity \<and> (same_windows
            \<or> (has_flag (ar_flags r) REOPENED \<and> ns_front_hud b = ns_vendor_hud b)
            \<or> (\<not> has_flag (ar_flags r) REOPENED \<and> owned_response))
      in same \<and> observed_for (gc_request_key c) r
         \<and> gs_funds after = gs_funds before - gs_cost before
         \<and> ((gs_rank after = gs_rank before \<and> gs_upgrading after \<noteq> 0 \<and> has_flag (gs_control_flags after) 4)
            \<or> gs_rank after = gs_rank before + 1))"

text \<open>\<open>_confirmed\<close> sees a receipt of the codec's class and a command of the same format, since both come from
  the same record; the last equation covers the pairs that cannot occur.\<close>

fun confirmed_pair :: "spend_codec \<Rightarrow> spend_command \<Rightarrow> spend_receipt \<Rightarrow> bool result" where
  "confirmed_pair (NavigationCodec verb) (NavigationCommand c) (NavigationReceipt r) =
     (if observed_for (nc_request_key c) r then navigation_opened c verb (ar_snapshot r) else Inr False)"
| "confirmed_pair (FundingCodec verb) (FundingCommand c) (FundingReceipt r) =
     (if observed_for (fc_request_key c) r
      then if fc_amount c \<noteq> 0 then funding_confirmed c (ar_snapshot r) else funding_opened c (ar_snapshot r)
      else Inr False)"
| "confirmed_pair (UpgradeCodec verb) (UpgradeCommand c) (UpgradeReceipt r) = Inr (upgrade_confirmed c r)"
| "confirmed_pair codec c r = Inl (TypeError ''command and receipt of different formats'')"

definition spend_confirmed :: "spend_command \<Rightarrow> spend_receipt \<Rightarrow> string \<Rightarrow> bool result" where
  "spend_confirmed c r operation =
     rbind (spend_codec operation) (\<lambda>codec.
     if \<not> receipt_matches codec r then Inr False else confirmed_pair codec c r)"

subsection \<open>The directory\<close>

record journal =
  active_file :: "json result option"
  request_files :: "(string \<times> json result) list"
  faults :: "py_error option list"
  sent :: "string list"

type_synonym 'a jop = "journal \<Rightarrow> 'a result \<times> journal"

definition jlift :: "'a result \<Rightarrow> 'a jop" where
  "jlift r j = (r, j)"

definition jbind :: "'a jop \<Rightarrow> ('a \<Rightarrow> 'b jop) \<Rightarrow> 'b jop" where
  "jbind m f j = (case m j of (Inl e, j') \<Rightarrow> (Inl e, j') | (Inr x, j') \<Rightarrow> f x j')"

abbreviation jreturn :: "'a \<Rightarrow> 'a jop" where
  "jreturn x \<equiv> jlift (Inr x)"

abbreviation jstop :: "string \<Rightarrow> 'a jop" where
  "jstop message \<equiv> jlift (Inl (GuardSpendingStopped message))"

text \<open>An effect either fails, leaving everything as it was, or happens.\<close>

definition effect :: "(journal \<Rightarrow> journal) \<Rightarrow> unit jop" where
  "effect f j =
     (case faults j of
        [] \<Rightarrow> (Inr (), f j)
      | None # rest \<Rightarrow> (Inr (), f (j\<lparr>faults := rest\<rparr>))
      | Some e # rest \<Rightarrow> (Inl e, j\<lparr>faults := rest\<rparr>))"

definition pointer_json :: "string option \<Rightarrow> json" where
  "pointer_json key = JObject [(''request_key'', case key of None \<Rightarrow> JNull | Some k \<Rightarrow> JString k)]"

definition write_active :: "string option \<Rightarrow> unit jop" where
  "write_active key = effect (\<lambda>j. j\<lparr>active_file := Some (Inr (pointer_json key))\<rparr>)"

definition write_request :: "string \<Rightarrow> json_object \<Rightarrow> unit jop" where
  "write_request path d = effect (\<lambda>j. j\<lparr>request_files := AList.update path (Inr (JObject d)) (request_files j)\<rparr>)"

definition call_dispatch :: "string \<Rightarrow> spend_receipt result \<Rightarrow> spend_receipt jop" where
  "call_dispatch key answer = jbind (effect (\<lambda>j. j\<lparr>sent := sent j @ [key]\<rparr>)) (\<lambda>_. jlift answer)"

definition read_json :: "json result option \<Rightarrow> json_object result" where
  "read_json f =
     (case f of
        None \<Rightarrow> Inl (OSError ''No such file or directory'')
      | Some r \<Rightarrow> rbind r (\<lambda>v. case v of JObject d \<Rightarrow> Inr d
          | _ \<Rightarrow> Inl (GuardSpendingStopped ''invalid guard spending record'')))"

definition spend_request :: "json \<Rightarrow> string result" where
  "spend_request v =
     (case v of
        JString s \<Rightarrow> (case uuid_parse s of
            Some b \<Rightarrow> if any_byte b then Inr s else Inl (ValueError ''canonical nonzero spending request is required'')
          | None \<Rightarrow> Inl (ValueError ''canonical nonzero spending request is required''))
      | _ \<Rightarrow> Inl (ValueError ''canonical nonzero spending request is required''))"

text \<open>The file of a request: \<open>uuid.UUID(_request(key)).hex + ".json"\<close> under \<^verbatim>\<open>requests\<close>.\<close>

definition request_path :: "string \<Rightarrow> string result" where
  "request_path key = rbind (spend_request (JString key)) (\<lambda>k. Inr (hex_bytes (the (uuid_parse k)) @ ''.json''))"

subsection \<open>Records\<close>

definition entry :: "json_object \<Rightarrow> string \<Rightarrow> json" where
  "entry d k = (case map_of d k of None \<Rightarrow> JNull | Some v \<Rightarrow> v)"

definition RECORD_FIELDS :: "string list" where
  "RECORD_FIELDS = [''schema_version'', ''operation'', ''request_key'', ''process_id'', ''creation'', ''command'',
     ''submission'', ''completion'', ''unresolved'']"

definition int_between :: "json \<Rightarrow> int \<Rightarrow> bool" where
  "int_between v bound \<longleftrightarrow> (case v of JInt n \<Rightarrow> 0 < n \<and> n < bound | _ \<Rightarrow> False)"

definition record_header :: "json_object \<Rightarrow> string \<Rightarrow> unit result" where
  "record_header d key =
     checks [(fst ` set d \<noteq> set RECORD_FIELDS
         \<or> entry d ''schema_version'' \<noteq> JInt 2
         \<or> (case entry d ''unresolved'' of JBool b \<Rightarrow> False | _ \<Rightarrow> True)
         \<or> entry d ''request_key'' \<noteq> JString key
         \<or> \<not> int_between (entry d ''process_id'') (2 ^ 32)
         \<or> \<not> int_between (entry d ''creation'') (2 ^ 64),
       GuardSpendingStopped ''invalid guard spending identity'')]"

text \<open>\<open>_codec(record["operation"])\<close>: membership in a dict needs a hashable value.\<close>

definition record_codec :: "json_object \<Rightarrow> spend_codec result" where
  "record_codec d =
     (case entry d ''operation'' of
        JString s \<Rightarrow> spend_codec s
      | JArray xs \<Rightarrow> Inl (TypeError ''unhashable type'')
      | JObject xs \<Rightarrow> Inl (TypeError ''unhashable type'')
      | _ \<Rightarrow> Inl (GuardSpendingStopped ''unknown guard spending operation''))"

definition record_operation :: "json_object \<Rightarrow> string" where
  "record_operation d = (case entry d ''operation'' of JString s \<Rightarrow> s | _ \<Rightarrow> [])"

definition record_command :: "json_object \<Rightarrow> string \<Rightarrow> spend_command result" where
  "record_command d key =
     rbind (record_codec d) (\<lambda>codec.
     rbind (rbind (json_hex (entry d ''command'')) (spend_command_decode codec)) (\<lambda>command.
     rbind (checks [(command_key command \<noteq> key, GuardSpendingStopped ''guard spending command identity mismatch'')]) (\<lambda>_.
     Inr command)))"

definition record_submission :: "json_object \<Rightarrow> string \<Rightarrow> spend_command \<Rightarrow> spend_receipt option result" where
  "record_submission d key command =
     (if entry d ''submission'' = JNull then Inr None
      else rbind (spend_receipt_decode command (entry d ''submission'')) (\<lambda>submitted.
        rbind (checks [(receipt_key submitted \<noteq> key \<or> receipt_owner submitted \<noteq> command_owner command,
          GuardSpendingStopped ''guard spending submission mismatch'')]) (\<lambda>_.
        Inr (Some submitted))))"

definition record_completion :: "json_object \<Rightarrow> spend_command \<Rightarrow> spend_receipt option \<Rightarrow> unit result" where
  "record_completion d command submission =
     (if entry d ''completion'' = JNull then Inr ()
      else
      rbind (checks [(entry d ''unresolved'' = JBool True, GuardSpendingStopped ''unresolved guard spend cannot be completed'')]) (\<lambda>_.
      case submission of
        None \<Rightarrow> Inl (GuardSpendingStopped ''guard completion has no submission'')
      | Some submitted \<Rightarrow>
          rbind (spend_receipt_decode command (entry d ''completion'')) (\<lambda>completed.
          if receipt_owner completed \<noteq> command_owner command \<or> receipt_outcome submitted \<noteq> SUBMITTED
          then Inl (GuardSpendingStopped ''guard completion is not correlated'')
          else rbind (spend_confirmed command completed (record_operation d)) (\<lambda>ok.
            checks [(\<not> ok, GuardSpendingStopped ''guard completion is not correlated'')]))))"

definition read_record :: "string \<Rightarrow> json result option \<Rightarrow> (json_object \<times> spend_command) result" where
  "read_record key f =
     rbind (read_json f) (\<lambda>d.
     rbind (record_header d key) (\<lambda>_.
     rbind (record_command d key) (\<lambda>command.
     rbind (record_submission d key command) (\<lambda>submission.
     rbind (record_completion d command submission) (\<lambda>_.
     Inr (d, command))))))"

definition journal_record :: "string \<Rightarrow> (json_object \<times> spend_command) jop" where
  "journal_record key = (\<lambda>j. jlift (rbind (request_path key) (\<lambda>path. read_record key (map_of (request_files j) path))) j)"

definition record_terminal :: "json_object \<Rightarrow> spend_command \<Rightarrow> bool result" where
  "record_terminal d command =
     (let completed = entry d ''completion'' \<noteq> JNull in
      if entry d ''submission'' = JNull then Inr completed
      else
      rbind (spend_receipt_decode command (entry d ''submission'')) (\<lambda>receipt.
      rbind (case command of NavigationCommand c \<Rightarrow> spend_confirmed command receipt (record_operation d) | _ \<Rightarrow> Inr False) (\<lambda>opened.
      Inr ((completed \<or> receipt_outcome receipt \<in> {STALE, UNAVAILABLE, INVALID, EXHAUSTED} \<or> opened)
        \<and> (\<not> has_flag (receipt_flags receipt) (IN_FLIGHT OR UNRESOLVED) \<or> completed)))))"

subsection \<open>Operations\<close>

definition pending :: "(json_object \<times> spend_command) option jop" where
  "pending j =
     (case active_file j of
        None \<Rightarrow> if request_files j \<noteq> [] then jstop ''Guard spending pointer is missing; review is required.'' j else jreturn None j
      | Some f \<Rightarrow>
        (jbind (jlift (read_json (Some f))) (\<lambda>pointer.
         if fst ` set pointer \<noteq> {''request_key''} then jstop ''invalid active spending pointer''
         else if entry pointer ''request_key'' = JNull then jreturn None
         else
         jbind (jlift (spend_request (entry pointer ''request_key''))) (\<lambda>key.
         jbind (journal_record key) (\<lambda>(d, command).
         if entry d ''unresolved'' = JBool True then jreturn (Some (d, command))
         else
         jbind (jlift (record_terminal d command)) (\<lambda>terminal.
         if terminal then jbind (write_active None) (\<lambda>_. jreturn None)
         else jreturn (Some (d, command))))))) j)"

definition assert_idle :: "unit jop" where
  "assert_idle =
     jbind pending (\<lambda>p. if p \<noteq> None then jstop ''An earlier guard action needs review or completion.'' else jreturn ())"

definition new_record :: "string \<Rightarrow> string \<Rightarrow> int \<Rightarrow> int \<Rightarrow> bytes \<Rightarrow> json_object" where
  "new_record operation key pid creation encoded =
     [(''schema_version'', JInt 2), (''operation'', JString operation), (''request_key'', JString key),
      (''process_id'', JInt pid), (''creation'', JInt creation), (''command'', JString (hex_bytes encoded)),
      (''submission'', JNull), (''completion'', JNull), (''unresolved'', JBool False)]"

text \<open>\<open>submit\<close> in three parts: what happens once \<open>dispatch\<close> has answered, the recorded dispatch of a new request,
  and the whole.\<close>

definition record_answer :: "spend_codec \<Rightarrow> spend_command \<Rightarrow> string \<Rightarrow> json_object \<Rightarrow> spend_receipt \<Rightarrow> spend_receipt jop" where
  "record_answer codec command path d receipt =
     (if \<not> receipt_matches codec receipt then jstop ''Submission receipt has the wrong spending operation.''
      else
      jbind (jlift (spend_receipt_encode receipt)) (\<lambda>raw.
      if receipt_key receipt \<noteq> command_key command \<or> receipt_owner receipt \<noteq> command_owner command
      then jstop ''Guard submission receipt does not match its intent.''
      else
      jbind (write_request path
        (AList.update ''unresolved'' (JBool (has_flag (receipt_flags receipt) UNRESOLVED))
          (AList.update ''submission'' (JString (hex_bytes raw)) d))) (\<lambda>_.
      jbind pending (\<lambda>_.
      jreturn receipt))))"

definition dispatch_recorded ::
    "spend_codec \<Rightarrow> spend_command \<Rightarrow> string \<Rightarrow> json_object \<Rightarrow> spend_receipt result \<Rightarrow> spend_receipt jop" where
  "dispatch_recorded codec command path d answer =
     jbind (write_request path d) (\<lambda>_.
     jbind (write_active (Some (command_key command))) (\<lambda>_.
     jbind (call_dispatch (command_key command) answer) (\<lambda>receipt.
     record_answer codec command path d receipt)))"

definition submit :: "int \<Rightarrow> int \<Rightarrow> spend_command \<Rightarrow> navigation_verb option \<Rightarrow> spend_receipt result \<Rightarrow> spend_receipt jop" where
  "submit pid creation command navigation_verb answer =
     jbind (jlift (spend_operation command navigation_verb)) (\<lambda>operation.
     jbind (jlift (spend_codec operation)) (\<lambda>codec.
     jbind (jlift (spend_command_encode codec command)) (\<lambda>encoded.
     jbind (jlift (spend_request (JString (command_key command)))) (\<lambda>_.
     jbind (jlift (checks [(\<not> (0 < pid \<and> pid < 2 ^ 32) \<or> \<not> (0 < creation \<and> creation < 2 ^ 64),
        ValueError ''exact game process lifetime is required'')])) (\<lambda>_.
     jbind pending (\<lambda>p.
     if p \<noteq> None then jstop ''An earlier guard spend is unresolved; no new action sent.''
     else
     jbind (jlift (request_path (command_key command))) (\<lambda>path.
     jbind (\<lambda>j. jlift (checks [(map_of (request_files j) path \<noteq> None,
        GuardSpendingStopped ''This guard spend was already attempted; no retry sent.'')]) j) (\<lambda>_.
     dispatch_recorded codec command path (new_record operation (command_key command) pid creation encoded) answer))))))))"

text \<open>\<open>observe\<close> once the open record has been found, and the whole.\<close>

definition observe_open :: "int \<Rightarrow> int \<Rightarrow> spend_receipt \<Rightarrow> bytes \<Rightarrow> json_object \<Rightarrow> spend_command \<Rightarrow> unit jop" where
  "observe_open pid creation receipt raw d command =
     (if entry d ''unresolved'' = JBool True then jreturn ()
      else
      jbind (jlift (record_codec d)) (\<lambda>codec.
      if \<not> receipt_matches codec receipt then jreturn ()
      else if JInt pid \<noteq> entry d ''process_id'' \<or> JInt creation \<noteq> entry d ''creation''
        \<or> receipt_owner receipt \<noteq> command_owner command then jreturn ()
      else if has_flag (receipt_flags receipt) UNRESOLVED
      then jbind (jlift (request_path (command_key command))) (\<lambda>path.
        write_request path (AList.update ''unresolved'' (JBool True) d))
      else if entry d ''submission'' = JNull then jreturn ()
      else
      jbind (jlift (spend_receipt_decode command (entry d ''submission''))) (\<lambda>submitted.
      if receipt_outcome submitted \<noteq> SUBMITTED then jreturn ()
      else
      jbind (jlift (spend_confirmed command receipt (record_operation d))) (\<lambda>ok.
      if \<not> ok then jreturn ()
      else
      jbind (jlift (request_path (command_key command))) (\<lambda>path.
      jbind (write_request path (AList.update ''completion'' (JString (hex_bytes raw)) d)) (\<lambda>_.
      write_active None))))))"

definition observe :: "int \<Rightarrow> int \<Rightarrow> spend_receipt \<Rightarrow> unit jop" where
  "observe pid creation receipt =
     jbind (jlift (spend_receipt_encode receipt)) (\<lambda>raw.
     jbind pending (\<lambda>p.
     case p of None \<Rightarrow> jreturn ()
     | Some (d, command) \<Rightarrow> observe_open pid creation receipt raw d command))"

end
