(* ===== verification/Guard_Ledger.thy ===== *)
theory Guard_Ledger
  imports Guard_Journal
begin

text \<open>
  The guarantees of the guard spending journal. Its reachable directories are described by an
  invariant that every operation keeps whatever fails on the way; they implement an abstract ledger
  in which at most one attempt is open at a time and no request is attempted twice.
\<close>

subsection \<open>Reading back what was written\<close>

lemma any_hex_unhex: "unhex_digit c = Some n \<Longrightarrow> any_hex_digit c = Some n \<and> \<not> ascii_space c"
  by (auto simp: any_hex_digit_def unhex_digit_def ascii_space_def Let_def split: if_splits)

lemma fromhex_hex_bytes [simp]: "fromhex (hex_bytes bs) = Inr bs"
proof (induction bs)
  case Nil
  then show ?case by (simp add: hex_bytes_def)
next
  case (Cons b bs)
  have "unat b div 16 < 16" using unat_byte_less [of b] by simp
  then have "unhex_digit (hex_digit (unat b div 16)) = Some (unat b div 16)" "unhex_digit (hex_digit (unat b mod 16)) = Some (unat b mod 16)"
    by (simp_all add: unhex_hex_digit)
  then show ?case using Cons any_hex_unhex by (simp add: hex_bytes_Cons del: of_nat_add of_nat_mult)
qed

lemma json_hex_bytes [simp]: "json_hex (JString (hex_bytes bs)) = Inr bs"
  by (simp add: json_hex_def)

interpretation spend_command: wire_codec "\<lambda>_. True" "spend_command_encode codec" "spend_command_decode codec" 576 for codec
proof unfold_locales
  show "length bs = 576" if "spend_command_encode codec c = Inr bs" for c bs
    using that by (cases "(codec, c)" rule: spend_command_encode.cases)
      (auto intro: navigation_command.encode_length guard_command.encode_length funding_command.encode_length)
  show "spend_command_decode codec bs = Inr c" if "spend_command_encode codec c = Inr bs" for c bs
    using that by (cases "(codec, c)" rule: spend_command_encode.cases)
      (auto simp: navigation_command.decode_iff guard_command.decode_iff funding_command.decode_iff rbind_eq_Inr)
  show "True \<and> spend_command_encode codec c = Inr bs" if "spend_command_decode codec bs = Inr c" for c bs
    using that by (cases codec)
      (auto simp: navigation_command.decode_iff guard_command.decode_iff funding_command.decode_iff rbind_eq_Inr)
qed

text \<open>The receipts of a codec read back under every command of that codec.\<close>

fun same_format :: "spend_codec \<Rightarrow> spend_command \<Rightarrow> bool" where
  "same_format (NavigationCodec verb) (NavigationCommand c) \<longleftrightarrow> True"
| "same_format (UpgradeCodec verb) (UpgradeCommand c) \<longleftrightarrow> True"
| "same_format (FundingCodec verb) (FundingCommand c) \<longleftrightarrow> True"
| "same_format codec c \<longleftrightarrow> False"

lemma command_format: "spend_command_encode codec c = Inr bs \<Longrightarrow> same_format codec c"
  by (cases "(codec, c)" rule: spend_command_encode.cases) auto

lemma receipt_read_back:
  "same_format codec c \<Longrightarrow> receipt_matches codec r \<Longrightarrow> spend_receipt_encode r = Inr raw \<Longrightarrow>
   spend_receipt_decode c (JString (hex_bytes raw)) = Inr r"
  by (cases "(codec, r)" rule: receipt_matches.cases; cases c)
    (auto simp: rbind_eq_Inr navigation_receipt.receipt_iff upgrade_receipt.receipt_iff funding_receipt.receipt_iff)

lemma receipt_decoded:
  assumes "spend_receipt_decode c v = Inr r" "same_format codec c"
  shows "receipt_matches codec r \<and> returns (spend_receipt_encode r)"
  using assms by (cases "(codec, c)" rule: same_format.cases)
    (auto simp: rbind_eq_Inr navigation_receipt.receipt_iff upgrade_receipt.receipt_iff funding_receipt.receipt_iff)

lemma navigation_receipt_snapshot:
  "receipt_encode navigation_format r = Inr bs \<Longrightarrow> returns (navigation_encode (ar_snapshot r))"
  by (auto simp: receipt_encode_def navigation_format_def rbind_eq_Inr)

lemma confirmed_returns:
  assumes "spend_codec operation = Inr codec" "spend_command_encode codec (NavigationCommand c) = Inr b"
    "spend_receipt_encode r = Inr raw"
  shows "returns (spend_confirmed (NavigationCommand c) r operation)"
proof -
  from assms(2) obtain verb where codec: "codec = NavigationCodec verb" and enc: "navigation_command_encode c verb = Inr b"
    by (cases codec) auto
  show ?thesis
  proof (cases "\<exists>n. r = NavigationReceipt n")
    case True
    then obtain n where r: "r = NavigationReceipt n" by blast
    then obtain s where "navigation_encode (ar_snapshot n) = Inr s" using assms(3) navigation_receipt_snapshot by auto
    then show ?thesis using assms(1) enc by (auto simp: spend_confirmed_def codec r navigation_opened_def Let_def)
  next
    case False
    then show ?thesis using assms(1) by (cases r) (auto simp: spend_confirmed_def codec)
  qed
qed

lemma entry_update [simp]: "entry (AList.update k v d) k' = (if k = k' then v else entry d k')"
  by (simp add: entry_def update_conv' AList.update_conv')

lemma keys_update: "k \<in> fst ` set d \<Longrightarrow> fst ` set (AList.update k v d) = fst ` set d"
  by (auto simp: dom_update)

lemma record_fields [simp]:
  "''unresolved'' \<in> set RECORD_FIELDS" "''submission'' \<in> set RECORD_FIELDS" "''completion'' \<in> set RECORD_FIELDS"
  by (simp_all add: RECORD_FIELDS_def)

text \<open>A record that the journal accepts for a request.\<close>

definition record_ok :: "string \<Rightarrow> json_object \<Rightarrow> spend_command \<Rightarrow> bool" where
  "record_ok key d c \<longleftrightarrow> read_record key (Some (Inr (JObject d))) = Inr (d, c)"

lemma record_ok_iff:
  "record_ok key d c \<longleftrightarrow>
     record_header d key = Inr () \<and> record_command d key = Inr c
     \<and> (\<exists>s. record_submission d key c = Inr s \<and> record_completion d c s = Inr ())"
  by (auto simp: record_ok_def read_record_def read_json_def rbind_eq_Inr)

lemma read_recordD: "read_record key (Some (Inr (JObject d))) = Inr x \<Longrightarrow> \<exists>c. x = (d, c) \<and> record_ok key d c"
  by (auto simp: record_ok_def read_record_def read_json_def rbind_eq_Inr)

lemma record_commandD:
  assumes "record_command d key = Inr c"
  obtains codec b where "record_codec d = Inr codec" "entry d ''operation'' = JString (record_operation d)"
    "spend_codec (record_operation d) = Inr codec" "spend_command_encode codec c = Inr b" "command_key c = key"
proof -
  from assms obtain codec b where c: "record_codec d = Inr codec" "spend_command_decode codec b = Inr c" "command_key c = key"
    by (auto simp: record_command_def rbind_eq_Inr split: if_splits)
  have "entry d ''operation'' = JString (record_operation d) \<and> spend_codec (record_operation d) = Inr codec"
    using c(1) by (simp add: record_codec_def record_operation_def split: json.splits)
  then show thesis using that c by (simp add: spend_command.decode_iff)
qed

lemma record_okD:
  assumes "record_ok key d c"
  obtains codec b where "record_codec d = Inr codec" "spend_codec (record_operation d) = Inr codec"
    "spend_command_encode codec c = Inr b" "command_key c = key" "same_format codec c"
proof -
  from assms have "record_command d key = Inr c" by (simp add: record_ok_iff)
  then obtain codec b where c: "record_codec d = Inr codec" "spend_codec (record_operation d) = Inr codec"
    "spend_command_encode codec c = Inr b" "command_key c = key" by (rule record_commandD)
  show thesis by (rule that [OF c command_format [OF c(3)]])
qed

lemma record_header_update:
  assumes "record_header d key = Inr ()" "k \<in> {''submission'', ''completion''} \<or> (k = ''unresolved'' \<and> v = JBool b)"
  shows "record_header (AList.update k v d) key = Inr ()"
proof -
  have "fst ` set d = set RECORD_FIELDS" using assms(1) by (simp add: record_header_def split: if_splits)
  moreover from this have "k \<in> fst ` set d" using assms(2) by auto
  ultimately have "fst ` set (AList.update k v d) = set RECORD_FIELDS" by (simp only: keys_update)
  then show ?thesis using assms by (auto simp: record_header_def split: if_splits)
qed

lemma record_command_update:
  "k \<in> {''submission'', ''completion'', ''unresolved''} \<Longrightarrow> record_command (AList.update k v d) key = record_command d key"
  "k \<in> {''submission'', ''completion'', ''unresolved''} \<Longrightarrow> record_operation (AList.update k v d) = record_operation d"
  by (auto simp: record_command_def record_codec_def record_operation_def)

subsection \<open>Every write leaves an acceptable record\<close>

lemma new_record_entries [simp]:
  "entry (new_record operation key pid creation encoded) ''schema_version'' = JInt 2"
  "entry (new_record operation key pid creation encoded) ''operation'' = JString operation"
  "entry (new_record operation key pid creation encoded) ''request_key'' = JString key"
  "entry (new_record operation key pid creation encoded) ''process_id'' = JInt pid"
  "entry (new_record operation key pid creation encoded) ''creation'' = JInt creation"
  "entry (new_record operation key pid creation encoded) ''command'' = JString (hex_bytes encoded)"
  "entry (new_record operation key pid creation encoded) ''submission'' = JNull"
  "entry (new_record operation key pid creation encoded) ''completion'' = JNull"
  "entry (new_record operation key pid creation encoded) ''unresolved'' = JBool False"
  by (simp_all add: entry_def new_record_def)

lemma new_record_keys [simp]: "fst ` set (new_record operation key pid creation encoded) = set RECORD_FIELDS"
  by (auto simp: new_record_def RECORD_FIELDS_def)

lemma new_record_ok:
  assumes "spend_codec operation = Inr codec" "spend_command_encode codec c = Inr encoded" "key = command_key c"
    and "0 < pid" "pid < 2 ^ 32" "0 < creation" "creation < 2 ^ 64"
  shows "record_ok key (new_record operation key pid creation encoded) c"
  using assms spend_command.decode_encode [OF TrueI assms(2)]
  by (auto simp: record_ok_iff record_header_def int_between_def record_command_def record_codec_def
      record_submission_def record_completion_def)

lemma unresolved_ok:
  assumes "record_ok key d c" "entry d ''completion'' = JNull"
  shows "record_ok key (AList.update ''unresolved'' (JBool b) d) c"
  using assms record_header_update [of d key "''unresolved''"] record_command_update [of "''unresolved''"]
  by (auto simp: record_ok_iff record_submission_def record_completion_def)

lemma submission_ok:
  assumes "record_ok key d c" "entry d ''submission'' = JNull" "entry d ''completion'' = JNull"
    and "spend_receipt_decode c (JString (hex_bytes raw)) = Inr r" "receipt_key r = key" "receipt_owner r = command_owner c"
  shows "record_ok key (AList.update ''submission'' (JString (hex_bytes raw)) d) c"
  using assms record_header_update [of d key "''submission''"] record_command_update [of "''submission''"]
  by (auto simp: record_ok_iff record_submission_def record_completion_def)

lemma completion_ok:
  assumes "record_ok key d c" "entry d ''unresolved'' \<noteq> JBool True" "entry d ''submission'' \<noteq> JNull"
    and "spend_receipt_decode c (entry d ''submission'') = Inr submitted" "receipt_outcome submitted = SUBMITTED"
    and "spend_receipt_decode c (JString (hex_bytes raw)) = Inr r" "receipt_owner r = command_owner c"
    and "spend_confirmed c r (record_operation d) = Inr True"
  shows "record_ok key (AList.update ''completion'' (JString (hex_bytes raw)) d) c"
proof -
  let ?d = "AList.update ''completion'' (JString (hex_bytes raw)) d"
  have "record_header ?d key = Inr ()" "record_command ?d key = Inr c"
    using assms(1) by (simp_all add: record_ok_iff record_header_update record_command_update)
  moreover have "record_submission ?d key c = Inr (Some submitted)"
    using assms(1,3,4) by (auto simp: record_ok_iff record_submission_def rbind_eq_Inr split: if_splits)
  moreover have "record_completion ?d c (Some submitted) = Inr ()"
    using assms(2,5-8) by (simp add: record_completion_def record_command_update)
  ultimately show ?thesis by (auto simp: record_ok_iff)
qed

lemma terminal_returns:
  assumes "record_ok key d c"
  shows "returns (record_terminal d c)"
proof (cases "entry d ''submission'' = JNull")
  case False
  from assms obtain codec b where c: "spend_codec (record_operation d) = Inr codec" "spend_command_encode codec c = Inr b"
    "same_format codec c" by (rule record_okD)
  from assms False obtain r where r: "spend_receipt_decode c (entry d ''submission'') = Inr r"
    by (auto simp: record_ok_iff record_submission_def rbind_eq_Inr)
  obtain raw where raw: "spend_receipt_encode r = Inr raw" using receipt_decoded [OF r c(3)] by blast
  have "returns (case c of NavigationCommand n \<Rightarrow> spend_confirmed c r (record_operation d) | _ \<Rightarrow> Inr False)"
    using confirmed_returns [OF c(1) _ raw] c(2) by (cases c) auto
  then show ?thesis using r by (auto simp: record_terminal_def Let_def rbind_eq_Inr False)
qed (simp add: record_terminal_def)

lemma completed_terminal:
  assumes "record_ok key d c" "entry d ''completion'' \<noteq> JNull"
  shows "record_terminal d c = Inr True \<and> entry d ''unresolved'' \<noteq> JBool True"
proof -
  have s: "entry d ''submission'' \<noteq> JNull" "entry d ''unresolved'' \<noteq> JBool True"
    using assms by (auto simp: record_ok_iff record_submission_def record_completion_def rbind_eq_Inr split: if_splits option.splits)
  obtain t where "record_terminal d c = Inr t" using terminal_returns [OF assms(1)] by blast
  then show ?thesis using s assms(2) by (auto simp: record_terminal_def Let_def rbind_eq_Inr)
qed

subsection \<open>The invariant of the directory\<close>

definition file_of :: "journal \<Rightarrow> string \<Rightarrow> (json_object \<times> spend_command) result" where
  "file_of j key = rbind (request_path key) (\<lambda>path. read_record key (map_of (request_files j) path))"

text \<open>An attempt is settled once its record is neither unresolved nor open.\<close>

definition settled :: "journal \<Rightarrow> string \<Rightarrow> bool" where
  "settled j key = (case file_of j key of
      Inl e \<Rightarrow> False
    | Inr (d, c) \<Rightarrow> entry d ''unresolved'' \<noteq> JBool True \<and> record_terminal d c = Inr True)"

definition files_ok :: "journal \<Rightarrow> bool" where
  "files_ok j \<longleftrightarrow> distinct (map fst (request_files j))
     \<and> (\<forall>(p, f) \<in> set (request_files j). \<exists>k d c. request_path k = Inr p \<and> f = Inr (JObject d) \<and> record_ok k d c)"

definition pointer_ok :: "journal \<Rightarrow> bool" where
  "pointer_ok j \<longleftrightarrow> (case active_file j of
      None \<Rightarrow> sent j = []
    | Some f \<Rightarrow> f = Inr (pointer_json None) \<or> (\<exists>k. f = Inr (pointer_json (Some k)) \<and> returns (file_of j k)))"

definition active_is :: "journal \<Rightarrow> string option \<Rightarrow> bool" where
  "active_is j k \<longleftrightarrow> active_file j = Some (Inr (pointer_json k))"

definition sent_ok :: "journal \<Rightarrow> bool" where
  "sent_ok j \<longleftrightarrow> distinct (sent j) \<and> (\<forall>k \<in> set (sent j). returns (file_of j k))
     \<and> (\<forall>k \<in> set (butlast (sent j)). settled j k)
     \<and> (sent j \<noteq> [] \<longrightarrow> active_is j (Some (last (sent j))) \<or> settled j (last (sent j)))"

definition journal_inv :: "journal \<Rightarrow> bool" where
  "journal_inv j \<longleftrightarrow> files_ok j \<and> pointer_ok j \<and> sent_ok j"

lemma spend_request_Inr: "spend_request v = Inr s \<longleftrightarrow> v = JString s \<and> returns (request_bytes s)"
  by (auto simp: spend_request_def request_bytes_def split: json.splits option.splits if_splits)

lemma request_path_Inr: "request_path k = Inr p \<longleftrightarrow> (\<exists>b. request_bytes k = Inr b \<and> p = hex_bytes b @ ''.json'')"
  by (auto simp: request_path_def spend_request_def request_bytes_def split: option.splits if_splits)

lemma request_path_inject: "request_path k = Inr p \<Longrightarrow> request_path k' = Inr p \<Longrightarrow> k = k'"
  unfolding request_path_Inr using unhex_hex_bytes by (metis append_same_eq option.inject request_bytes_Inr)

lemma file_ofD:
  assumes "files_ok j" "file_of j k = Inr (d, c)"
  shows "\<exists>p. request_path k = Inr p \<and> map_of (request_files j) p = Some (Inr (JObject d)) \<and> record_ok k d c"
proof -
  from assms(2) obtain p where p: "request_path k = Inr p" "read_record k (map_of (request_files j) p) = Inr (d, c)"
    by (auto simp: file_of_def rbind_eq_Inr)
  then obtain f where f: "map_of (request_files j) p = Some f"
    by (cases "map_of (request_files j) p") (auto simp: read_record_def read_json_def)
  then obtain d' where "f = Inr (JObject d')" using assms(1) by (auto simp: files_ok_def dest!: map_of_SomeD)
  then show ?thesis using p f read_recordD [of k d' "(d, c)"] by auto
qed

lemma file_of_present:
  assumes "files_ok j" "request_path k = Inr p" "map_of (request_files j) p \<noteq> None"
  shows "returns (file_of j k)"
proof -
  from assms(3) obtain f where f: "map_of (request_files j) p = Some f" by blast
  then obtain k' d c where "request_path k' = Inr p" "f = Inr (JObject d)" "record_ok k' d c"
    using assms(1) by (auto simp: files_ok_def dest!: map_of_SomeD)
  moreover from this(1) have "k' = k" using assms(2) request_path_inject by blast
  ultimately show ?thesis using assms(2) f by (auto simp: file_of_def record_ok_def)
qed

lemma entry_pointer [simp]:
  "entry [(''request_key'', v)] ''request_key'' = v"
  by (simp add: entry_def)

lemma pointer_json_inject [simp]: "pointer_json a = pointer_json b \<longleftrightarrow> a = b"
  by (auto simp: pointer_json_def split: option.splits)

subsection \<open>The abstract ledger\<close>

record ledger =
  attempts :: "string list"
  open_attempt :: "string option"

inductive ledger_step :: "ledger \<Rightarrow> ledger \<Rightarrow> bool" where
  attempt: "open_attempt l = None \<Longrightarrow> k \<notin> set (attempts l) \<Longrightarrow>
    ledger_step l \<lparr>attempts = attempts l @ [k], open_attempt = Some k\<rparr>"
| settle: "open_attempt l = Some k \<Longrightarrow> ledger_step l (l\<lparr>open_attempt := None\<rparr>)"

definition ledger_of :: "journal \<Rightarrow> ledger" where
  "ledger_of j = \<lparr>attempts = sent j,
     open_attempt = (if sent j = [] \<or> settled j (last (sent j)) then None else Some (last (sent j)))\<rparr>"

text \<open>What every operation keeps, step by step: the invariant, and that the ledger has only moved by its own
  steps since the ledger \<open>a\<close>.\<close>

definition keeps :: "ledger \<Rightarrow> journal \<Rightarrow> bool" where
  "keeps a j \<longleftrightarrow> journal_inv j \<and> ledger_step\<^sup>*\<^sup>* a (ledger_of j)"

lemmas journal_inv_defs = journal_inv_def files_ok_def pointer_ok_def sent_ok_def active_is_def

lemma faults_irrelevant [simp]:
  "file_of (j\<lparr>faults := fs\<rparr>) k = file_of j k" "settled (j\<lparr>faults := fs\<rparr>) k = settled j k"
  "ledger_of (j\<lparr>faults := fs\<rparr>) = ledger_of j" "journal_inv (j\<lparr>faults := fs\<rparr>) = journal_inv j"
proof -
  show f: "file_of (j\<lparr>faults := fs\<rparr>) k = file_of j k" for k by (simp add: file_of_def)
  show g: "settled (j\<lparr>faults := fs\<rparr>) k = settled j k" for k by (simp add: settled_def f)
  show "ledger_of (j\<lparr>faults := fs\<rparr>) = ledger_of j" by (simp add: ledger_of_def g)
  show "journal_inv (j\<lparr>faults := fs\<rparr>) = journal_inv j"
    by (simp add: journal_inv_defs f g split: option.split)
qed

lemma pointer_irrelevant [simp]:
  "file_of (j\<lparr>active_file := f\<rparr>) k = file_of j k" "settled (j\<lparr>active_file := f\<rparr>) k = settled j k"
  "ledger_of (j\<lparr>active_file := f\<rparr>) = ledger_of j"
  by (simp_all add: file_of_def settled_def ledger_of_def)

lemma sent_irrelevant [simp]:
  "file_of (j\<lparr>sent := s\<rparr>) k = file_of j k" "settled (j\<lparr>sent := s\<rparr>) k = settled j k"
  by (simp_all add: file_of_def settled_def)

definition all_settled :: "journal \<Rightarrow> bool" where
  "all_settled j \<longleftrightarrow> (\<forall>k \<in> set (sent j). settled j k)"

lemma sent_butlast_last: "xs \<noteq> [] \<Longrightarrow> set xs = insert (last xs) (set (butlast xs))"
  by (metis append_butlast_last_id list.set(1) list.simps(15) set_append Un_insert_right sup_bot.right_neutral)

lemma all_settled_last:
  assumes "journal_inv j"
  shows "all_settled j \<longleftrightarrow> (sent j \<noteq> [] \<longrightarrow> settled j (last (sent j)))"
  using assms sent_butlast_last [of "sent j"] by (cases "sent j = []") (auto simp: all_settled_def journal_inv_def sent_ok_def)

lemma clear_pointer:
  assumes "keeps a j" "all_settled j"
  shows "keeps a (j\<lparr>active_file := Some (Inr (pointer_json None))\<rparr>)"
  using assms last_in_set [of "sent j"] by (cases "sent j = []") (auto simp: keeps_def journal_inv_defs all_settled_def)

lemma set_pointer:
  assumes "keeps a j" "all_settled j" "returns (file_of j k)"
  shows "keeps a (j\<lparr>active_file := Some (Inr (pointer_json (Some k)))\<rparr>)"
  using assms last_in_set [of "sent j"] by (cases "sent j = []") (auto simp: keeps_def journal_inv_defs all_settled_def)

lemma record_dispatch:
  assumes "keeps a j" "all_settled j" "active_is j (Some k)" "file_of j k = Inr x" "\<not> settled j k" "k \<notin> set (sent j)"
  shows "keeps a (j\<lparr>sent := sent j @ [k]\<rparr>)"
proof -
  have "open_attempt (ledger_of j) = None" using assms(2) by (cases "sent j = []") (simp_all add: ledger_of_def all_settled_def)
  then have "ledger_step (ledger_of j) \<lparr>attempts = sent j @ [k], open_attempt = Some k\<rparr>"
    using ledger_step.attempt [of "ledger_of j" k] assms(6) by (simp add: ledger_of_def)
  moreover have "ledger_of (j\<lparr>sent := sent j @ [k]\<rparr>) = \<lparr>attempts = sent j @ [k], open_attempt = Some k\<rparr>"
    using assms(5) by (simp add: ledger_of_def)
  ultimately have "ledger_step\<^sup>*\<^sup>* a (ledger_of (j\<lparr>sent := sent j @ [k]\<rparr>))" using assms(1) by (auto simp: keeps_def)
  moreover have "journal_inv (j\<lparr>sent := sent j @ [k]\<rparr>)"
    using assms by (auto simp: keeps_def journal_inv_defs all_settled_def)
  ultimately show ?thesis by (simp add: keeps_def)
qed

definition put_file :: "string \<Rightarrow> json_object \<Rightarrow> journal \<Rightarrow> journal" where
  "put_file p d j = j\<lparr>request_files := AList.update p (Inr (JObject d)) (request_files j)\<rparr>"

lemma put_file_same:
  "request_path k = Inr p \<Longrightarrow> record_ok k d c \<Longrightarrow> file_of (put_file p d j) k = Inr (d, c)"
  by (simp add: put_file_def file_of_def record_ok_def update_conv')

lemma put_file_other:
  assumes "request_path k = Inr p" "k' \<noteq> k"
  shows "file_of (put_file p d j) k' = file_of j k'" "settled (put_file p d j) k' = settled j k'"
proof -
  have "request_path k' = Inr p' \<Longrightarrow> p' \<noteq> p" for p' using assms request_path_inject by blast
  then show f: "file_of (put_file p d j) k' = file_of j k'"
    by (cases "request_path k'") (auto simp: put_file_def file_of_def update_conv')
  show "settled (put_file p d j) k' = settled j k'" by (simp add: settled_def f)
qed

lemma put_file_fields [simp]:
  "sent (put_file p d j) = sent j" "active_file (put_file p d j) = active_file j" "active_is (put_file p d j) k = active_is j k"
  "request_files (put_file p d j) = AList.update p (Inr (JObject d)) (request_files j)"
  by (simp_all add: put_file_def active_is_def)

lemma update_set: "(q, f) \<in> set (AList.update p v xs) \<Longrightarrow> distinct (map fst xs) \<Longrightarrow> (q = p \<and> f = v) \<or> ((q, f) \<in> set xs \<and> q \<noteq> p)"
  by (induction xs) (force split: if_splits)+

lemma put_record:
  assumes "keeps a j" "request_path k = Inr p" "record_ok k d c"
    and "k \<in> set (sent j) \<Longrightarrow> k = last (sent j) \<and> active_is j (Some k) \<and> \<not> settled j k"
  shows "keeps a (put_file p d j)"
proof -
  let ?j = "put_file p d j"
  have inv: "files_ok j" "pointer_ok j" "sent_ok j" using assms(1) by (simp_all add: keeps_def journal_inv_def)
  have r: "returns (file_of ?j k')" if "returns (file_of j k')" for k'
    using that put_file_same [OF assms(2,3)] put_file_other(1) [OF assms(2)] by (cases "k' = k") auto
  have "files_ok ?j"
    using inv(1) assms(2,3) by (auto simp: files_ok_def distinct_update dest!: update_set)
  moreover have "pointer_ok ?j" using inv(2) r by (fastforce simp: pointer_ok_def split: option.splits)
  moreover have "sent_ok ?j"
  proof -
    have d: "distinct (sent j)" using inv(3) by (simp add: sent_ok_def)
    have "settled ?j k'" if k': "k' \<in> set (butlast (sent j))" for k'
    proof -
      have "sent j \<noteq> []" "k' \<in> set (sent j)" using k' by (auto dest: in_set_butlastD)
      then have "k' \<noteq> last (sent j)" using k' d by (metis append_butlast_last_id distinct_append disjoint_iff list.set_intros(1))
      then have "k' \<noteq> k" using assms(4) \<open>k' \<in> set (sent j)\<close> by blast
      then show ?thesis using inv(3) k' put_file_other(2) [OF assms(2)] by (simp add: sent_ok_def)
    qed
    moreover have "active_is j (Some (last (sent j))) \<or> settled ?j (last (sent j))" if "sent j \<noteq> []"
      using that inv(3) assms(4) put_file_other(2) [OF assms(2), of "last (sent j)"] last_in_set [OF that]
      by (cases "last (sent j) = k") (auto simp: sent_ok_def)
    ultimately show ?thesis using inv(3) r by (auto simp: sent_ok_def)
  qed
  moreover have "ledger_step\<^sup>*\<^sup>* a (ledger_of ?j)"
  proof (cases "sent j \<noteq> [] \<and> last (sent j) = k")
    case True
    then have open_k: "open_attempt (ledger_of j) = Some k" using assms(4) last_in_set [of "sent j"] by (auto simp: ledger_of_def)
    have "ledger_of ?j = ledger_of j \<or> ledger_of ?j = (ledger_of j)\<lparr>open_attempt := None\<rparr>"
      using True open_k by (auto simp: ledger_of_def)
    then show ?thesis using assms(1) ledger_step.settle [OF open_k] by (auto simp: keeps_def)
  next
    case False
    then have "ledger_of ?j = ledger_of j" using put_file_other(2) [OF assms(2)] by (auto simp: ledger_of_def)
    then show ?thesis using assms(1) by (simp add: keeps_def)
  qed
  ultimately show ?thesis by (simp add: keeps_def journal_inv_def)
qed

subsection \<open>Operations keep an invariant through every failure\<close>

definition jvalid :: "(journal \<Rightarrow> bool) \<Rightarrow> (journal \<Rightarrow> bool) \<Rightarrow> 'a jop \<Rightarrow> ('a \<Rightarrow> journal \<Rightarrow> bool) \<Rightarrow> bool" where
  "jvalid I P m Q \<longleftrightarrow> (\<forall>j. I j \<and> P j \<longrightarrow> I (snd (m j)) \<and> (\<forall>x. fst (m j) = Inr x \<longrightarrow> Q x (snd (m j))))"

named_theorems jrules \<open>rules of \<open>jvalid\<close>\<close>

lemma jvalid_bind: "jvalid I P m Q \<Longrightarrow> (\<And>x. jvalid I (Q x) (f x) R) \<Longrightarrow> jvalid I P (jbind m f) R"
  by (fastforce simp: jvalid_def jbind_def split: prod.splits sum.splits)

lemma jvalid_lift_bind [jrules]: "(\<And>x. r = Inr x \<Longrightarrow> jvalid I P (f x) R) \<Longrightarrow> jvalid I P (jbind (jlift r) f) R"
  by (auto simp: jvalid_def jbind_def jlift_def split: sum.splits)

lemma jvalid_lift [jrules]: "(\<And>x j. r = Inr x \<Longrightarrow> I j \<Longrightarrow> P j \<Longrightarrow> Q x j) \<Longrightarrow> jvalid I P (jlift r) Q"
  by (auto simp: jvalid_def jlift_def)

lemma jvalid_if [jrules]: "(b \<Longrightarrow> jvalid I P m Q) \<Longrightarrow> (\<not> b \<Longrightarrow> jvalid I P m' Q) \<Longrightarrow> jvalid I P (if b then m else m') Q"
  by simp

lemma jvalid_conseq: "jvalid I P' m Q' \<Longrightarrow> (\<And>j. I j \<Longrightarrow> P j \<Longrightarrow> P' j) \<Longrightarrow> (\<And>x j. I j \<Longrightarrow> Q' x j \<Longrightarrow> Q x j) \<Longrightarrow> jvalid I P m Q"
  by (auto simp: jvalid_def)

locale durable =
  fixes I :: "journal \<Rightarrow> bool"
  assumes survives_faults: "I (j\<lparr>faults := fs\<rparr>) \<longleftrightarrow> I j"
begin

lemma jvalid_effect:
  assumes "\<And>j. I j \<Longrightarrow> P j \<Longrightarrow> I (f j) \<and> Q () (f j)" and "\<And>j fs. P (j\<lparr>faults := fs\<rparr>) = P j"
  shows "jvalid I P (effect f) Q"
proof -
  have "I (f (j\<lparr>faults := fs\<rparr>)) \<and> Q () (f (j\<lparr>faults := fs\<rparr>))" if "I j" "P j" for j fs
    using assms that survives_faults by blast
  then show ?thesis using assms(1) survives_faults by (auto simp: jvalid_def effect_def split: list.splits option.splits)
qed

end

interpretation kept: durable "keeps a" for a
  by unfold_locales (simp add: keeps_def)

fun pending_post :: "(json_object \<times> spend_command) option \<Rightarrow> journal \<Rightarrow> bool" where
  "pending_post None j \<longleftrightarrow> all_settled j"
| "pending_post (Some (d, c)) j \<longleftrightarrow> (\<exists>k. active_is j (Some k) \<and> file_of j k = Inr (d, c) \<and> \<not> settled j k)"

lemma read_pointer [simp]:
  "read_json (Some (Inr (pointer_json v))) = Inr [(''request_key'', case v of None \<Rightarrow> JNull | Some k \<Rightarrow> JString k)]"
  by (simp add: read_json_def pointer_json_def)

lemma pending_absent:
  "active_file j = None \<Longrightarrow> pending j = (if request_files j \<noteq> []
     then (Inl (GuardSpendingStopped ''Guard spending pointer is missing; review is required.''), j) else (Inr None, j))"
  by (simp add: pending_def jlift_def)

lemma pending_clear: "active_is j None \<Longrightarrow> pending j = (Inr None, j)"
  by (simp add: pending_def active_is_def jlift_def jbind_def)

lemma pending_active:
  assumes "active_is j (Some k)" "file_of j k = Inr (d, c)" "record_ok k d c"
  shows "pending j = (if settled j k then jbind (write_active None) (\<lambda>_. jreturn None) j else (Inr (Some (d, c)), j))"
proof -
  obtain t where t: "record_terminal d c = Inr t" using terminal_returns [OF assms(3)] by blast
  have "spend_request (JString k) = Inr k"
    using assms(2) by (auto simp: file_of_def rbind_eq_Inr request_path_Inr spend_request_Inr)
  moreover have "journal_record k j = (Inr (d, c), j)" using assms(2) by (simp add: journal_record_def file_of_def jlift_def)
  ultimately have "pending j = (if entry d ''unresolved'' \<noteq> JBool True \<and> t then jbind (write_active None) (\<lambda>_. jreturn None) j
      else (Inr (Some (d, c)), j))"
    using assms(1) t by (simp add: pending_def active_is_def jlift_def jbind_def)
  moreover have "settled j k \<longleftrightarrow> entry d ''unresolved'' \<noteq> JBool True \<and> t" using assms(2) t by (simp add: settled_def)
  ultimately show ?thesis by simp
qed

lemma clear_pointer_valid: "jvalid (keeps a) all_settled (write_active None) (\<lambda>_ j. all_settled j)"
  unfolding write_active_def
  by (rule kept.jvalid_effect) (simp_all add: clear_pointer, simp_all add: all_settled_def)

lemma pending_keeps: "jvalid (keeps a) (\<lambda>_. True) pending pending_post"
  unfolding jvalid_def
proof (intro allI impI)
  fix j
  assume "keeps a j \<and> True"
  then have k: "keeps a j" and inv: "journal_inv j" by (simp_all add: keeps_def)
  show "keeps a (snd (pending j)) \<and> (\<forall>x. fst (pending j) = Inr x \<longrightarrow> pending_post x (snd (pending j)))"
  proof (cases "active_file j")
    case None
    then show ?thesis using k inv by (simp add: pending_absent journal_inv_defs all_settled_def)
  next
    case (Some f)
    then consider "active_is j None" | key where "active_is j (Some key)" "returns (file_of j key)"
      using inv by (auto simp: journal_inv_defs)
    then show ?thesis
    proof cases
      case 1
      then show ?thesis using k all_settled_last [OF inv] inv by (auto simp: pending_clear journal_inv_defs)
    next
      case 2
      then obtain d c where f: "file_of j key = Inr (d, c)" by auto
      then have "record_ok key d c" using file_ofD inv by (auto simp: journal_inv_def)
      note p = pending_active [OF 2(1) f this]
      have settled_all: "all_settled j" if "settled j key"
        using that 2(1) inv by (auto simp: all_settled_last [OF inv] journal_inv_defs)
      have "jvalid (keeps a) all_settled (jbind (write_active None) (\<lambda>_. jreturn None)) pending_post"
        by (rule jvalid_bind [OF clear_pointer_valid]) (auto intro: jrules)
      then show ?thesis using k 2 f settled_all by (auto simp: p jvalid_def)
    qed
  qed
qed

subsection \<open>Submitting\<close>

text \<open>The states a submission goes through: its record written, then the pointer set, then dispatched.\<close>

definition written :: "string \<Rightarrow> json_object \<Rightarrow> spend_command \<Rightarrow> journal \<Rightarrow> bool" where
  "written k d c j \<longleftrightarrow> all_settled j \<and> file_of j k = Inr (d, c) \<and> \<not> settled j k \<and> k \<notin> set (sent j)"

definition pointed :: "string \<Rightarrow> json_object \<Rightarrow> spend_command \<Rightarrow> journal \<Rightarrow> bool" where
  "pointed k d c j \<longleftrightarrow> written k d c j \<and> active_is j (Some k)"

definition dispatched :: "string \<Rightarrow> json_object \<Rightarrow> spend_command \<Rightarrow> journal \<Rightarrow> bool" where
  "dispatched k d c j \<longleftrightarrow> sent j \<noteq> [] \<and> last (sent j) = k \<and> active_is j (Some k) \<and> file_of j k = Inr (d, c) \<and> \<not> settled j k"

lemma state_faults [simp]:
  "all_settled (j\<lparr>faults := fs\<rparr>) = all_settled j" "active_is (j\<lparr>faults := fs\<rparr>) k = active_is j k"
  "written k' d c (j\<lparr>faults := fs\<rparr>) = written k' d c j" "pointed k' d c (j\<lparr>faults := fs\<rparr>) = pointed k' d c j"
  "dispatched k' d c (j\<lparr>faults := fs\<rparr>) = dispatched k' d c j"
  by (simp_all add: all_settled_def active_is_def written_def pointed_def dispatched_def)

lemma not_sent:
  assumes "journal_inv j" "request_path k = Inr p" "map_of (request_files j) p = None"
  shows "k \<notin> set (sent j)"
proof
  assume "k \<in> set (sent j)"
  then have "returns (file_of j k)" using assms(1) by (auto simp: journal_inv_defs)
  then show False using assms(2,3) by (auto simp: file_of_def read_record_def read_json_def)
qed

lemma write_new_valid:
  assumes "request_path k = Inr p" "record_ok k d c" "record_terminal d c = Inr False"
  shows "jvalid (keeps a) (\<lambda>j. all_settled j \<and> map_of (request_files j) p = None) (write_request p d) (\<lambda>_. written k d c)"
  unfolding write_request_def put_file_def [symmetric]
proof (rule kept.jvalid_effect)
  fix j
  assume k: "keeps a j" and pre: "all_settled j \<and> map_of (request_files j) p = None"
  have n: "k \<notin> set (sent j)" using k pre assms(1) not_sent by (auto simp: keeps_def)
  then have "keeps a (put_file p d j)" using put_record [OF k assms(1,2)] by blast
  moreover have f: "file_of (put_file p d j) k = Inr (d, c)" using put_file_same assms by blast
  moreover have "\<not> settled (put_file p d j) k" using assms(3) by (simp add: settled_def f)
  moreover have "all_settled (put_file p d j)"
    using pre n put_file_other(2) [OF assms(1)] unfolding all_settled_def put_file_fields by metis
  ultimately show "keeps a (put_file p d j) \<and> written k d c (put_file p d j)" using n by (simp add: written_def)
qed simp

lemma set_pointer_valid: "jvalid (keeps a) (written k d c) (write_active (Some k)) (\<lambda>_. pointed k d c)"
  unfolding write_active_def
proof (rule kept.jvalid_effect)
  fix j
  assume "keeps a j" "written k d c j"
  then show "keeps a (j\<lparr>active_file := Some (Inr (pointer_json (Some k)))\<rparr>)
    \<and> pointed k d c (j\<lparr>active_file := Some (Inr (pointer_json (Some k)))\<rparr>)"
    using set_pointer [of a j k] by (simp add: written_def pointed_def active_is_def all_settled_def)
qed simp

lemma dispatch_valid: "jvalid (keeps a) (pointed k d c) (call_dispatch k answer) (\<lambda>_. dispatched k d c)"
  unfolding call_dispatch_def
proof (rule jvalid_bind)
  show "jvalid (keeps a) (pointed k d c) (effect (\<lambda>j. j\<lparr>sent := sent j @ [k]\<rparr>)) (\<lambda>_. dispatched k d c)"
  proof (rule kept.jvalid_effect)
    fix j
    assume "keeps a j" "pointed k d c j"
    then show "keeps a (j\<lparr>sent := sent j @ [k]\<rparr>) \<and> dispatched k d c (j\<lparr>sent := sent j @ [k]\<rparr>)"
      using record_dispatch [of a j k] by (simp add: pointed_def written_def dispatched_def active_is_def)
  qed simp
qed (auto intro: jrules)

lemma rewrite_valid:
  assumes "request_path k = Inr p" "record_ok k d' c'"
  shows "jvalid (keeps a) (\<lambda>j. active_is j (Some k) \<and> \<not> settled j k) (write_request p d')
    (\<lambda>_ j. active_is j (Some k) \<and> file_of j k = Inr (d', c'))"
  unfolding write_request_def put_file_def [symmetric]
proof (rule kept.jvalid_effect)
  fix j
  assume k: "keeps a j" and pre: "active_is j (Some k) \<and> \<not> settled j k"
  have "k = last (sent j)" if "k \<in> set (sent j)"
    using that k pre sent_butlast_last [of "sent j"] by (cases "sent j = []") (auto simp: keeps_def journal_inv_defs)
  then have "keeps a (put_file p d' j)" using pre by (intro put_record [OF k assms]) auto
  then show "keeps a (put_file p d' j) \<and> active_is (put_file p d' j) (Some k) \<and> file_of (put_file p d' j) k = Inr (d', c')"
    using pre put_file_same [OF assms] by simp
qed simp

lemma jvalid_check [jrules]:
  "jvalid I (\<lambda>j. P j \<and> \<not> b j) m Q \<Longrightarrow> jvalid I P (jbind (\<lambda>j. jlift (checks [(b j, e)]) j) (\<lambda>_. m)) Q"
  by (auto simp: jvalid_def jbind_def jlift_def)

lemma jvalid_stop [jrules]: "jvalid I P (jlift (Inl e)) Q"
  by (simp add: jvalid_def jlift_def)

lemma new_record_open: "record_terminal (new_record operation key pid creation encoded) c = Inr False"
  by (simp add: record_terminal_def)

lemma record_answer_keeps:
  assumes path: "request_path (command_key c) = Inr path" and enc: "spend_command_encode codec c = Inr b"
    and d: "record_ok (command_key c) d c" "entry d ''submission'' = JNull" "entry d ''completion'' = JNull"
  shows "jvalid (keeps a) (dispatched (command_key c) d c) (record_answer codec c path d receipt) (\<lambda>_ _. True)"
  unfolding record_answer_def
proof (intro jvalid_if jvalid_stop jvalid_lift_bind)
  fix raw
  assume m: "\<not> \<not> receipt_matches codec receipt" and raw: "spend_receipt_encode receipt = Inr raw"
    and own: "\<not> (receipt_key receipt \<noteq> command_key c \<or> receipt_owner receipt \<noteq> command_owner c)"
  let ?d = "AList.update ''unresolved'' (JBool (has_flag (receipt_flags receipt) UNRESOLVED))
     (AList.update ''submission'' (JString (hex_bytes raw)) d)"
  have "spend_receipt_decode c (JString (hex_bytes raw)) = Inr receipt"
    using receipt_read_back [OF command_format [OF enc] _ raw] m by simp
  then have "record_ok (command_key c) ?d c" using d own by (intro unresolved_ok submission_ok) auto
  then have w: "jvalid (keeps a) (dispatched (command_key c) d c) (write_request path ?d) (\<lambda>_ _. True)"
    by (intro jvalid_conseq [OF rewrite_valid [OF path]]) (auto simp: dispatched_def)
  show "jvalid (keeps a) (dispatched (command_key c) d c) (jbind (write_request path ?d) (\<lambda>_. jbind pending (\<lambda>_. jreturn receipt))) (\<lambda>_ _. True)"
    by (rule jvalid_bind [OF w], rule jvalid_bind [OF pending_keeps]) (rule jrules, simp)
qed

lemma dispatch_recorded_keeps:
  assumes path: "request_path (command_key c) = Inr path" and enc: "spend_command_encode codec c = Inr b"
    and d: "record_ok (command_key c) d c" "entry d ''submission'' = JNull" "entry d ''completion'' = JNull"
  shows "jvalid (keeps a) (\<lambda>j. all_settled j \<and> map_of (request_files j) path = None)
     (dispatch_recorded codec c path d answer) (\<lambda>_ _. True)"
proof -
  have "record_terminal d c = Inr False" using d(2,3) by (simp add: record_terminal_def)
  then show ?thesis unfolding dispatch_recorded_def
    by (intro jvalid_bind [OF write_new_valid [OF path d(1)]] jvalid_bind [OF set_pointer_valid] jvalid_bind [OF dispatch_valid]
        record_answer_keeps [OF assms])
qed

lemma submit_keeps: "jvalid (keeps a) (\<lambda>_. True) (submit pid creation c verb answer) (\<lambda>_ _. True)"
  unfolding submit_def
proof (intro jvalid_lift_bind, rule jvalid_bind [OF pending_keeps], intro jvalid_if jvalid_stop jvalid_lift_bind jvalid_check)
  fix operation codec encoded u p path
  assume op: "spend_codec operation = Inr codec" and enc: "spend_command_encode codec c = Inr encoded"
    and path: "request_path (command_key c) = Inr path"
    and life: "checks [(\<not> (0 < pid \<and> pid < 2 ^ 32) \<or> \<not> (0 < creation \<and> creation < 2 ^ 64),
        ValueError ''exact game process lifetime is required'')] = Inr u"
    and p: "\<not> (p :: (json_object \<times> spend_command) option) \<noteq> None"
  let ?d = "new_record operation (command_key c) pid creation encoded"
  have "record_ok (command_key c) ?d c" using life by (intro new_record_ok [OF op enc]) (auto split: if_splits)
  from dispatch_recorded_keeps [OF path enc this]
  show "jvalid (keeps a) (\<lambda>j. pending_post p j \<and> \<not> map_of (request_files j) path \<noteq> None)
     (dispatch_recorded codec c path ?d answer) (\<lambda>_ _. True)"
    using p by (cases p) (auto elim: jvalid_conseq)
qed

subsection \<open>Observing\<close>

lemma jvalid_pure: "(\<And>j. I j \<Longrightarrow> P j \<Longrightarrow> R) \<Longrightarrow> (R \<Longrightarrow> jvalid I P m Q) \<Longrightarrow> jvalid I P m Q"
  by (auto simp: jvalid_def)

definition open_record :: "json_object \<Rightarrow> spend_command \<Rightarrow> bool" where
  "open_record d c \<longleftrightarrow> record_ok (command_key c) d c \<and> (entry d ''unresolved'' \<noteq> JBool True \<longrightarrow> entry d ''completion'' = JNull)"

lemma pending_open:
  assumes "keeps a j" "pending_post (Some (d, c)) j"
  shows "open_record d c \<and> active_is j (Some (command_key c)) \<and> \<not> settled j (command_key c)"
proof -
  from assms(2) obtain k where k: "active_is j (Some k)" "file_of j k = Inr (d, c)" "\<not> settled j k" by auto
  have ok: "record_ok k d c" using file_ofD [OF _ k(2)] assms(1) by (auto simp: keeps_def journal_inv_def)
  then have "k = command_key c" by (metis record_okD)
  moreover have "entry d ''completion'' = JNull" if "entry d ''unresolved'' \<noteq> JBool True"
    using completed_terminal [OF ok] k by (auto simp: settled_def)
  ultimately show ?thesis using ok k by (simp add: open_record_def)
qed

lemma mark_unresolved_keeps:
  assumes "open_record d c" "entry d ''unresolved'' \<noteq> JBool True" "request_path (command_key c) = Inr path"
  shows "jvalid (keeps a) (pending_post (Some (d, c))) (write_request path (AList.update ''unresolved'' (JBool True) d)) (\<lambda>_ _. True)"
proof -
  have "record_ok (command_key c) (AList.update ''unresolved'' (JBool True) d) c"
    using assms(1,2) by (intro unresolved_ok) (auto simp: open_record_def)
  from rewrite_valid [OF assms(3) this] show ?thesis by (rule jvalid_conseq) (use pending_open in auto)
qed

lemma complete_keeps:
  assumes "open_record d c" "entry d ''unresolved'' \<noteq> JBool True" "request_path (command_key c) = Inr path"
    and "entry d ''submission'' \<noteq> JNull" "spend_receipt_decode c (entry d ''submission'') = Inr submitted"
      "receipt_outcome submitted = SUBMITTED"
    and "record_codec d = Inr codec" "receipt_matches codec r" "spend_receipt_encode r = Inr raw"
      "receipt_owner r = command_owner c" "spend_confirmed c r (record_operation d) = Inr True"
  shows "jvalid (keeps a) (pending_post (Some (d, c)))
     (jbind (write_request path (AList.update ''completion'' (JString (hex_bytes raw)) d)) (\<lambda>_. write_active None)) (\<lambda>_ _. True)"
proof -
  let ?d = "AList.update ''completion'' (JString (hex_bytes raw)) d" and ?k = "command_key c"
  have ok: "record_ok ?k d c" using assms(1) by (simp add: open_record_def)
  then have "same_format codec c" using assms(7) by (metis record_okD sum.inject(2))
  then have "spend_receipt_decode c (JString (hex_bytes raw)) = Inr r" using assms(8,9) by (rule receipt_read_back)
  then have ok': "record_ok ?k ?d c" using ok assms by (intro completion_ok) auto
  then have "record_terminal ?d c = Inr True \<and> entry ?d ''unresolved'' \<noteq> JBool True" using completed_terminal [OF ok'] by simp
  then have closed: "file_of j ?k = Inr (?d, c) \<Longrightarrow> settled j ?k" for j by (simp add: settled_def)
  have "jvalid (keeps a) (pending_post (Some (d, c))) (write_request path ?d) (\<lambda>_. all_settled)"
  proof (rule jvalid_conseq [OF rewrite_valid [OF assms(3) ok']])
    show "active_is j (Some ?k) \<and> \<not> settled j ?k" if "keeps a j" "pending_post (Some (d, c)) j" for j
      using pending_open [OF that] by simp
    show "all_settled j" if "keeps a j" "active_is j (Some ?k) \<and> file_of j ?k = Inr (?d, c)" for j
      using that closed [of j] all_settled_last [of j] by (auto simp: keeps_def journal_inv_defs)
  qed
  then show ?thesis by (rule jvalid_bind) (rule jvalid_conseq [OF clear_pointer_valid], auto)
qed

lemma observe_open_keeps:
  assumes raw: "spend_receipt_encode receipt = Inr raw"
  shows "jvalid (keeps a) (pending_post (Some (d, c))) (observe_open pid creation receipt raw d c) (\<lambda>_ _. True)"
proof (rule jvalid_pure [where R = "open_record d c"])
  show "open_record d c" if "keeps a j" "pending_post (Some (d, c)) j" for j using pending_open [OF that] by simp
next
  assume o: "open_record d c"
  show "jvalid (keeps a) (pending_post (Some (d, c))) (observe_open pid creation receipt raw d c) (\<lambda>_ _. True)"
    unfolding observe_open_def using raw
    by (intro jvalid_if jvalid_lift_bind mark_unresolved_keeps [OF o] complete_keeps [OF o] jvalid_lift) auto
qed

lemma observe_keeps: "jvalid (keeps a) (\<lambda>_. True) (observe pid creation receipt) (\<lambda>_ _. True)"
  unfolding observe_def
  by (intro jvalid_lift_bind jvalid_bind [OF pending_keeps])
    (auto split: option.split intro: jvalid_lift observe_open_keeps)

lemma assert_idle_keeps: "jvalid (keeps a) (\<lambda>_. True) assert_idle (\<lambda>_ _. True)"
  unfolding assert_idle_def by (rule jvalid_bind [OF pending_keeps]) (auto intro: jvalid_lift jvalid_stop)

subsection \<open>Reachable directories\<close>

text \<open>A fresh directory, and one call of an operation by any process, with any arguments, any answer of the
  dispatcher and any failures.\<close>

definition new_journal :: journal where
  "new_journal = \<lparr>active_file = None, request_files = [], faults = [], sent = []\<rparr>"

inductive journal_step :: "journal \<Rightarrow> journal \<Rightarrow> bool" where
  submit_step: "journal_step j (snd (submit pid creation c verb answer (j\<lparr>faults := fs\<rparr>)))"
| observe_step: "journal_step j (snd (observe pid creation receipt (j\<lparr>faults := fs\<rparr>)))"
| idle_step: "journal_step j (snd (assert_idle (j\<lparr>faults := fs\<rparr>)))"

inductive_cases journal_step_cases: "journal_step j j'"

lemma jvalidD: "jvalid I (\<lambda>_. True) m Q \<Longrightarrow> I j \<Longrightarrow> I (snd (m j))"
  by (simp add: jvalid_def)

lemma jvalid_False: "jvalid I (\<lambda>_. True) m (\<lambda>_ _. False) \<Longrightarrow> I j \<Longrightarrow> isl (fst (m j))"
  by (cases "fst (m j)") (auto simp: jvalid_def)

lemma step_keeps: "journal_step j j' \<Longrightarrow> keeps a j \<Longrightarrow> keeps a j'"
  by (elim journal_step_cases)
    (auto intro!: jvalidD [OF submit_keeps] jvalidD [OF observe_keeps] jvalidD [OF assert_idle_keeps] simp: kept.survives_faults)

lemma steps_keep: "journal_step\<^sup>*\<^sup>* j j' \<Longrightarrow> keeps a j \<Longrightarrow> keeps a j'"
  by (induction rule: rtranclp_induct) (auto intro: step_keeps)

lemma new_journal_keeps: "keeps (ledger_of new_journal) new_journal"
  by (simp add: keeps_def journal_inv_defs new_journal_def)

lemma reachable_inv: "journal_step\<^sup>*\<^sup>* new_journal j \<Longrightarrow> journal_inv j"
  using steps_keep new_journal_keeps keeps_def by blast

subsection \<open>Unresolved requests\<close>

text \<open>A directory whose open request is unresolved, and everything about it that an operation could change.\<close>

definition stuck :: "string \<Rightarrow> json_object \<Rightarrow> spend_command \<Rightarrow> journal \<Rightarrow> bool" where
  "stuck k d c j \<longleftrightarrow> active_is j (Some k) \<and> file_of j k = Inr (d, c) \<and> record_ok k d c \<and> entry d ''unresolved'' = JBool True"

definition frozen :: "string \<Rightarrow> json_object \<Rightarrow> spend_command \<Rightarrow> journal \<Rightarrow> journal \<Rightarrow> bool" where
  "frozen k d c j0 j \<longleftrightarrow> stuck k d c j \<and> active_file j = active_file j0 \<and> request_files j = request_files j0 \<and> sent j = sent j0"

interpretation stays: durable "frozen k d c j0" for k d c j0
  by unfold_locales (simp add: frozen_def stuck_def active_is_def)

lemma pending_stuck: "stuck k d c j \<Longrightarrow> pending j = (Inr (Some (d, c)), j)"
  using pending_active [of j k d c] by (simp add: stuck_def settled_def)

lemma pending_frozen: "jvalid (frozen k d c j0) (\<lambda>_. True) pending (\<lambda>p _. p = Some (d, c))"
  by (auto simp: jvalid_def frozen_def pending_stuck)

lemma submit_frozen: "jvalid (frozen k d c j0) (\<lambda>_. True) (submit pid creation c' verb answer) (\<lambda>_ _. False)"
  unfolding submit_def
  by (intro jvalid_lift_bind, rule jvalid_bind [OF pending_frozen]) (auto simp: jvalid_def jlift_def)

lemma observe_frozen: "jvalid (frozen k d c j0) (\<lambda>_. True) (observe pid creation receipt) (\<lambda>_ _. True)"
proof -
  have "jvalid (frozen k d c j0) (\<lambda>_. p = Some (d, c))
     (case p of None \<Rightarrow> jreturn () | Some (d, c) \<Rightarrow> observe_open pid creation receipt raw d c) (\<lambda>_ _. True)" for p raw
    by (cases p) (auto simp: jvalid_def jlift_def observe_open_def frozen_def stuck_def)
  then show ?thesis unfolding observe_def by (intro jvalid_lift_bind jvalid_bind [OF pending_frozen])
qed

lemma assert_idle_frozen: "jvalid (frozen k d c j0) (\<lambda>_. True) assert_idle (\<lambda>_ _. False)"
  unfolding assert_idle_def by (rule jvalid_bind [OF pending_frozen]) (auto simp: jvalid_def jlift_def)

lemma step_frozen: "journal_step j j' \<Longrightarrow> frozen k d c j0 j \<Longrightarrow> frozen k d c j0 j'"
  by (elim journal_step_cases)
    (auto intro!: jvalidD [OF submit_frozen] jvalidD [OF observe_frozen] jvalidD [OF assert_idle_frozen] simp: stays.survives_faults)

lemma steps_frozen: "journal_step\<^sup>*\<^sup>* j j' \<Longrightarrow> frozen k d c j0 j \<Longrightarrow> frozen k d c j0 j'"
  by (induction rule: rtranclp_induct) (auto intro: step_frozen)

subsection \<open>Without failures\<close>

lemma quiet_effects:
  "faults j = [] \<Longrightarrow> write_request p d j = (Inr (), put_file p d j)"
  "faults j = [] \<Longrightarrow> write_active v j = (Inr (), j\<lparr>active_file := Some (Inr (pointer_json v))\<rparr>)"
  "faults j = [] \<Longrightarrow> call_dispatch k answer j = (answer, j\<lparr>sent := sent j @ [k]\<rparr>)"
  by (simp_all add: write_request_def write_active_def call_dispatch_def effect_def jbind_def jlift_def put_file_def)

lemma pending_quiet:
  assumes "active_is j (Some k)" "file_of j k = Inr (d, c)" "record_ok k d c" "faults j = []"
  shows "\<exists>p. pending j = (Inr p, if settled j k then j\<lparr>active_file := Some (Inr (pointer_json None))\<rparr> else j)"
  using pending_active [OF assms(1-3)] assms(4) by (auto simp: jbind_def jlift_def quiet_effects)

lemma pending_quiet_inv:
  assumes "journal_inv j" "faults j = []" "pending j = (Inr None, j1)"
  shows "faults j1 = [] \<and> sent j1 = sent j \<and> request_files j1 = request_files j"
proof (cases "active_file j")
  case None
  then show ?thesis using assms by (auto simp: pending_absent split: if_splits)
next
  case (Some f)
  then consider "active_is j None" | k where "active_is j (Some k)" "returns (file_of j k)"
    using assms(1) by (auto simp: journal_inv_defs)
  then show ?thesis
  proof cases
    case 1
    then show ?thesis using assms by (simp add: pending_clear)
  next
    case 2
    then obtain d c where f: "file_of j k = Inr (d, c)" by auto
    have "record_ok k d c" using file_ofD [OF _ f] assms(1) by (auto simp: journal_inv_def)
    from pending_quiet [OF 2(1) f this assms(2)] show ?thesis using assms by (auto split: if_splits)
  qed
qed

lemma record_answer_quiet:
  assumes "faults j = []" "active_is j (Some (command_key c))" "request_path (command_key c) = Inr path"
    and "spend_command_encode codec c = Inr b" "record_ok (command_key c) d c"
      "entry d ''submission'' = JNull" "entry d ''completion'' = JNull"
    and "receipt_matches codec r" "spend_receipt_encode r = Inr raw" "receipt_key r = command_key c" "receipt_owner r = command_owner c"
  shows "\<exists>j' d'. record_answer codec c path d r j = (Inr r, j') \<and> sent j' = sent j \<and> file_of j' (command_key c) = Inr (d', c)
    \<and> entry d' ''submission'' = JString (hex_bytes raw) \<and> entry d' ''unresolved'' = JBool (has_flag (receipt_flags r) UNRESOLVED)
    \<and> (has_flag (receipt_flags r) UNRESOLVED \<longrightarrow> active_is j' (Some (command_key c)))"
proof -
  let ?d = "AList.update ''unresolved'' (JBool (has_flag (receipt_flags r) UNRESOLVED))
     (AList.update ''submission'' (JString (hex_bytes raw)) d)"
  let ?j = "put_file path ?d j"
  have "spend_receipt_decode c (JString (hex_bytes raw)) = Inr r" using receipt_read_back [OF command_format [OF assms(4)]] assms by simp
  then have ok: "record_ok (command_key c) ?d c" using assms by (intro unresolved_ok submission_ok) auto
  have f: "file_of ?j (command_key c) = Inr (?d, c)" using assms(3) ok by (rule put_file_same)
  have "active_is ?j (Some (command_key c))" "faults ?j = []" using assms(1,2) by (simp_all add: put_file_def active_is_def)
  from pending_quiet [OF this(1) f ok this(2)] obtain p where
    p: "pending ?j = (Inr p, if settled ?j (command_key c) then ?j\<lparr>active_file := Some (Inr (pointer_json None))\<rparr> else ?j)" by blast
  have "\<not> settled ?j (command_key c)" if "has_flag (receipt_flags r) UNRESOLVED" using that f by (simp add: settled_def)
  then show ?thesis using assms p f by (auto simp: record_answer_def jbind_def jlift_def quiet_effects)
qed

lemma dispatch_recorded_quiet:
  assumes "faults j = []" "request_path (command_key c) = Inr path"
    and "spend_command_encode codec c = Inr b" "record_ok (command_key c) d c"
      "entry d ''submission'' = JNull" "entry d ''completion'' = JNull"
    and "receipt_matches codec r" "spend_receipt_encode r = Inr raw" "receipt_key r = command_key c" "receipt_owner r = command_owner c"
  shows "\<exists>j' d'. dispatch_recorded codec c path d (Inr r) j = (Inr r, j') \<and> sent j' = sent j @ [command_key c]
    \<and> file_of j' (command_key c) = Inr (d', c)
    \<and> entry d' ''submission'' = JString (hex_bytes raw) \<and> entry d' ''unresolved'' = JBool (has_flag (receipt_flags r) UNRESOLVED)
    \<and> (has_flag (receipt_flags r) UNRESOLVED \<longrightarrow> active_is j' (Some (command_key c)))"
proof -
  let ?j = "(put_file path d j)\<lparr>active_file := Some (Inr (pointer_json (Some (command_key c)))), sent := sent j @ [command_key c]\<rparr>"
  have q: "faults (put_file path d j) = []" using assms(1) by (simp add: put_file_def)
  then have "dispatch_recorded codec c path d (Inr r) j = record_answer codec c path d r ?j"
    using assms(1) by (simp add: dispatch_recorded_def jbind_def quiet_effects)
  moreover have "faults ?j = []" "active_is ?j (Some (command_key c))" using q by (simp_all add: active_is_def)
  ultimately show ?thesis using record_answer_quiet [OF _ _ assms(2-)] by fastforce
qed

lemma submit_quiet:
  assumes "journal_inv j" "faults j = []" "fst (pending j) = Inr None"
    and "spend_operation c verb = Inr operation" "spend_codec operation = Inr codec" "spend_command_encode codec c = Inr encoded"
    and "0 < pid" "pid < 2 ^ 32" "0 < creation" "creation < 2 ^ 64"
    and "request_path (command_key c) = Inr path" "map_of (request_files j) path = None"
    and "receipt_matches codec r" "spend_receipt_encode r = Inr raw" "receipt_key r = command_key c" "receipt_owner r = command_owner c"
  shows "\<exists>j' d. submit pid creation c verb (Inr r) j = (Inr r, j') \<and> sent j' = sent j @ [command_key c]
    \<and> file_of j' (command_key c) = Inr (d, c) \<and> entry d ''submission'' = JString (hex_bytes raw)
    \<and> entry d ''unresolved'' = JBool (has_flag (receipt_flags r) UNRESOLVED)
    \<and> (has_flag (receipt_flags r) UNRESOLVED \<longrightarrow> active_is j' (Some (command_key c)))"
proof -
  obtain j1 where p: "pending j = (Inr None, j1)" using assms(3) by (cases "pending j") auto
  note q = pending_quiet_inv [OF assms(1,2) p]
  let ?d = "new_record operation (command_key c) pid creation encoded"
  have "spend_request (JString (command_key c)) = Inr (command_key c)"
    using assms(11) by (auto simp: spend_request_Inr request_path_Inr)
  then have "submit pid creation c verb (Inr r) j = dispatch_recorded codec c path ?d (Inr r) j1"
    using assms p q by (simp add: submit_def jbind_def jlift_def)
  moreover have "record_ok (command_key c) ?d c" using assms(7-10) by (intro new_record_ok [OF assms(5,6)]) auto
  ultimately show ?thesis
    using dispatch_recorded_quiet [OF _ assms(11,6) _ _ _ assms(13-16), of j1 ?d] q by fastforce
qed

subsection \<open>Examples\<close>

text \<open>A withdrawal whose answer leaves it unresolved, submitted to a fresh journal.\<close>

definition lost_receipt :: "funding_snapshot action_receipt" where
  "lost_receipt = \<lparr>ar_request_key = example_key, ar_host = example_host, ar_window = 9, ar_outcome = UNCERTAIN, ar_flags = 4,
     ar_snapshot = empty_funding, ar_transition_request = None\<rparr>"

lemma lost_receipt_encodes: "returns (receipt_encode funding_format lost_receipt)"
proof -
  obtain q where q: "request_bytes example_key = Inr q" using example_key_bytes by blast
  obtain h where h: "host_encode example_host = Inr h" using example_host_bytes by blast
  have z: "funding_encode empty_funding = Inr (zero_bytes 96)" by code_simp
  show ?thesis
    by (rule funding_receipt.receipt_encodable [of lost_receipt q h "zero_bytes 96" "zero_bytes 16"])
      (simp_all add: lost_receipt_def q h z funding_format_def transition_bytes_def FUNDING_MAGIC_def outside_mask_def has_flag_def
        READY_def)
qed

lemma example_path: "\<exists>path. request_path example_key = Inr path"
  using example_key_bytes by (auto simp: request_path_Inr)

lemma transfer_codec:
  "spend_operation (FundingCommand example_transfer) None = Inr ''transfer''" "spend_codec ''transfer'' = Inr (FundingCodec F_TRANSFER)"
  by (simp_all add: example_transfer_def spend_codec_def NAVIGATION_OPERATIONS_def)

lemma transfer_encodes: "returns (spend_command_encode (FundingCodec F_TRANSFER) (FundingCommand example_transfer))"
proof -
  have "\<not> isl (funding_command_encode example_transfer F_TRANSFER)" by code_simp
  then show ?thesis by (cases "funding_command_encode example_transfer F_TRANSFER") auto
qed

lemma lost_facts:
  "receipt_matches (FundingCodec F_TRANSFER) (FundingReceipt lost_receipt)"
  "receipt_key (FundingReceipt lost_receipt) = command_key (FundingCommand example_transfer)"
  "receipt_owner (FundingReceipt lost_receipt) = command_owner (FundingCommand example_transfer)"
  "has_flag (receipt_flags (FundingReceipt lost_receipt)) UNRESOLVED"
  "command_key (FundingCommand example_transfer) = example_key"
  by (simp_all add: lost_receipt_def example_transfer_def has_flag_def UNRESOLVED_def)

lemma new_journal_idle: "journal_inv new_journal" "faults new_journal = []" "fst (pending new_journal) = Inr None"
  "map_of (request_files new_journal) path = None" "sent new_journal = []" "new_journal\<lparr>faults := []\<rparr> = new_journal"
  using new_journal_keeps by (simp_all add: keeps_def new_journal_def pending_absent)

lemma lost_journal:
  "\<exists>j d. journal_step\<^sup>*\<^sup>* new_journal j \<and> sent j = [example_key] \<and> active_is j (Some example_key)
     \<and> file_of j example_key = Inr (d, FundingCommand example_transfer) \<and> entry d ''unresolved'' = JBool True"
proof -
  obtain b raw path where e: "spend_command_encode (FundingCodec F_TRANSFER) (FundingCommand example_transfer) = Inr b"
      "spend_receipt_encode (FundingReceipt lost_receipt) = Inr raw" "request_path example_key = Inr path"
    using transfer_encodes lost_receipt_encodes example_path by auto
  have "\<exists>j' d. submit 4321 99 (FundingCommand example_transfer) None (Inr (FundingReceipt lost_receipt)) new_journal
        = (Inr (FundingReceipt lost_receipt), j')
      \<and> sent j' = [example_key] \<and> file_of j' example_key = Inr (d, FundingCommand example_transfer)
      \<and> entry d ''unresolved'' = JBool True \<and> active_is j' (Some example_key)"
    using submit_quiet [OF new_journal_idle(1-3) transfer_codec e(1) _ _ _ _ _ new_journal_idle(4) lost_facts(1) e(2) lost_facts(2,3),
        of 4321 99] e(3) lost_facts(4,5) new_journal_idle(5) by auto
  then obtain j' d where j': "submit 4321 99 (FundingCommand example_transfer) None (Inr (FundingReceipt lost_receipt)) new_journal
        = (Inr (FundingReceipt lost_receipt), j')" "sent j' = [example_key]"
      "file_of j' example_key = Inr (d, FundingCommand example_transfer)" "entry d ''unresolved'' = JBool True"
      "active_is j' (Some example_key)" by blast
  have "journal_step new_journal j'"
    using submit_step [of new_journal 4321 99 "FundingCommand example_transfer" None "Inr (FundingReceipt lost_receipt)" "[]"] j'(1)
    by (simp add: new_journal_idle(6))
  then show ?thesis using j' by blast
qed

text \<open>An upgrade of a guard from rank 3 to rank 4 for 100 of its 250 gold, submitted and then observed.\<close>

definition example_window :: navigation_snapshot where
  "example_window = navigation_snapshot_of [1, 1, 11, 12, 15, 6, 14, 15, 16, 3, 17, 8, 18, 37, 1, 4, 1, 0, 0, 0, 0, 0]"

definition example_upgrade :: guard_command where
  "example_upgrade = \<lparr>gc_host = example_host, gc_window = 9, gc_request_key = example_key,
     gc_expected = guard_snapshot_of example_window [3, 100, 250, 0, 1, 3, 21, 22]\<rparr>"

definition example_submitted :: "guard_snapshot action_receipt" where
  "example_submitted = \<lparr>ar_request_key = example_key, ar_host = example_host, ar_window = 9, ar_outcome = SUBMITTED, ar_flags = 2,
     ar_snapshot = empty_guard, ar_transition_request = Some example_key\<rparr>"

definition example_observed :: "guard_snapshot action_receipt" where
  "example_observed = \<lparr>ar_request_key = example_key, ar_host = example_host, ar_window = 9, ar_outcome = OBSERVED, ar_flags = 0,
     ar_snapshot = guard_snapshot_of example_window [4, 180, 150, 0, 0, 1, 21, 22], ar_transition_request = Some example_key\<rparr>"

lemma returnsI: "\<not> isl r \<Longrightarrow> returns r"
  by (cases r) auto

lemma upgrade_receipts_encode:
  "returns (receipt_encode upgrade_format example_submitted)" "returns (receipt_encode upgrade_format example_observed)"
proof -
  obtain q where q: "request_bytes example_key = Inr q" using example_key_bytes by blast
  obtain h where h: "host_encode example_host = Inr h" using example_host_bytes by blast
  have z: "guard_encode empty_guard = Inr (zero_bytes 128)" by code_simp
  have "\<not> isl (guard_encode (guard_snapshot_of example_window [4, 180, 150, 0, 0, 1, 21, 22]))" by code_simp
  then obtain s where s: "guard_encode (guard_snapshot_of example_window [4, 180, 150, 0, 0, 1, 21, 22]) = Inr s"
    using returnsI by blast
  have t: "transition_bytes (Some example_key) = Inr q" "any_byte q"
    using q by (simp_all add: transition_bytes_def example_key_def request_bytes_Inr)
  have n: "example_key \<noteq> []" by (simp add: example_key_def)
  show "returns (receipt_encode upgrade_format example_submitted)"
    by (rule upgrade_receipt.receipt_encodable [of example_submitted q h "zero_bytes 128" q])
      (simp_all add: example_submitted_def q h z t n upgrade_format_def UPGRADE_MAGIC_def outside_mask_def has_flag_def READY_def)
  show "returns (receipt_encode upgrade_format example_observed)"
    by (rule upgrade_receipt.receipt_encodable [of example_observed q h s q])
      (simp_all add: example_observed_def q h s t n upgrade_format_def UPGRADE_MAGIC_def outside_mask_def has_flag_def READY_def)
qed

lemma upgrade_record:
  "\<exists>d. read_record example_key (Some (Inr (JObject d))) = Inr (d, UpgradeCommand example_upgrade) \<and> entry d ''completion'' \<noteq> JNull"
proof -
  let ?c = "UpgradeCommand example_upgrade" and ?codec = "UpgradeCodec U_UPGRADE"
  have "\<not> isl (spend_command_encode ?codec ?c)" by code_simp
  then obtain b where b: "spend_command_encode ?codec ?c = Inr b" using returnsI by blast
  obtain s r where e: "spend_receipt_encode (UpgradeReceipt example_submitted) = Inr s" "spend_receipt_encode (UpgradeReceipt example_observed) = Inr r"
    using upgrade_receipts_encode by auto
  have dec: "spend_receipt_decode ?c (JString (hex_bytes s)) = Inr (UpgradeReceipt example_submitted)"
    by (rule receipt_read_back [OF _ _ e(1), of ?codec]) simp_all
  have dec': "spend_receipt_decode ?c (JString (hex_bytes r)) = Inr (UpgradeReceipt example_observed)"
    by (rule receipt_read_back [OF _ _ e(2), of ?codec]) simp_all
  have codec: "spend_codec ''upgrade'' = Inr ?codec" by (simp add: spend_codec_def NAVIGATION_OPERATIONS_def)
  let ?d = "new_record ''upgrade'' example_key 4321 99 b"
  let ?d' = "AList.update ''submission'' (JString (hex_bytes s)) ?d"
  have "record_ok example_key ?d ?c" using b by (intro new_record_ok [OF codec]) (auto simp: example_upgrade_def)
  then have ok: "record_ok example_key ?d' ?c"
    by (intro submission_ok [OF _ _ _ dec]) (simp_all add: example_submitted_def example_upgrade_def)
  have "upgrade_confirmed example_upgrade example_observed" by code_simp
  then have "spend_confirmed ?c (UpgradeReceipt example_observed) (record_operation ?d') = Inr True"
    using codec by (simp add: spend_confirmed_def record_operation_def)
  then have "record_ok example_key (AList.update ''completion'' (JString (hex_bytes r)) ?d') ?c"
    using dec dec' by (intro completion_ok [OF ok, of "UpgradeReceipt example_submitted" r "UpgradeReceipt example_observed"])
      (simp_all add: example_submitted_def example_observed_def example_upgrade_def)
  then show ?thesis unfolding record_ok_def by (intro exI conjI) (assumption, simp)
qed

subsection \<open>Properties\<close>

text \<open>C3: No guard action is ever sent twice, and none is sent while an earlier one is open: whatever
  operations run on a fresh journal directory, with whatever answers and however they fail or die
  between their effects, the requests dispatched are pairwise distinct and all but the last of
  them are settled.\<close>

theorem spending_at_most_once:
  assumes "journal_step\<^sup>*\<^sup>* new_journal j"
  shows "distinct (sent j) \<and> (\<forall>k \<in> set (butlast (sent j)). settled j k)"
  using reachable_inv [OF assms] by (auto simp: journal_inv_defs)

theorem spending_at_most_once_witness:
  "\<exists>j. journal_step\<^sup>*\<^sup>* new_journal j \<and> sent j = [example_key] \<and> distinct (sent j)"
  using lost_journal spending_at_most_once by blast

text \<open>C15: The journal implements the abstract ledger: whatever an operation does to a reachable directory, its
  ledger moves only by attempting a request that was never attempted before, when no attempt is
  open, and by settling the open attempt.\<close>

theorem journal_refines_ledger:
  assumes "journal_step\<^sup>*\<^sup>* new_journal j" "journal_step j j'"
  shows "ledger_step\<^sup>*\<^sup>* (ledger_of j) (ledger_of j')"
proof -
  have "keeps (ledger_of j) j" using reachable_inv [OF assms(1)] by (simp add: keeps_def)
  then show ?thesis using step_keeps [OF assms(2)] by (simp add: keeps_def)
qed

theorem journal_refines_ledger_witness:
  "\<exists>j j'. journal_step\<^sup>*\<^sup>* new_journal j \<and> sent j = [example_key] \<and> journal_step j j' \<and> ledger_step\<^sup>*\<^sup>* (ledger_of j) (ledger_of j')"
  using lost_journal journal_refines_ledger idle_step by metis

text \<open>C27: A journal never corrupts itself: in every reachable directory the open request can be looked up,
  unless the only thing that ever happened is that writing the very first intent was interrupted
  before its pointer, in which case nothing has been sent and the journal asks for review.\<close>

theorem journal_readable:
  assumes "journal_step\<^sup>*\<^sup>* new_journal j"
  shows "returns (fst (pending (j\<lparr>faults := []\<rparr>)))
    \<or> (sent j = [] \<and> active_file j = None
       \<and> fst (pending (j\<lparr>faults := []\<rparr>)) = Inl (GuardSpendingStopped ''Guard spending pointer is missing; review is required.''))"
proof -
  let ?j = "j\<lparr>faults := []\<rparr>"
  have inv: "journal_inv ?j" using reachable_inv [OF assms] by simp
  show ?thesis
  proof (cases "active_file j")
    case None
    then show ?thesis using inv by (auto simp: pending_absent journal_inv_defs)
  next
    case (Some f)
    then consider "active_is ?j None" | k where "active_is ?j (Some k)" "returns (file_of ?j k)"
      using inv by (auto simp: journal_inv_defs)
    then show ?thesis
    proof cases
      case 1
      then show ?thesis by (simp add: pending_clear)
    next
      case 2
      then obtain d c where f: "file_of ?j k = Inr (d, c)" by auto
      have "record_ok k d c" using file_ofD [OF _ f] inv by (auto simp: journal_inv_def)
      from pending_active [OF 2(1) f this] show ?thesis
        by (auto simp: write_active_def effect_def jbind_def jlift_def)
    qed
  qed
qed

theorem journal_readable_witness:
  "\<exists>j. journal_step\<^sup>*\<^sup>* new_journal j \<and> sent j = [example_key] \<and> returns (fst (pending (j\<lparr>faults := []\<rparr>)))"
proof -
  obtain j where j: "journal_step\<^sup>*\<^sup>* new_journal j" "sent j = [example_key]" using lost_journal by blast
  then show ?thesis using journal_readable [OF j(1)] by auto
qed

text \<open>C19: An unresolved request blocks spending for good: once the open record of a reachable directory is
  marked unresolved, no later operation changes the directory or dispatches anything, every
  submission raises, and the journal never reports itself idle.\<close>

theorem unresolved_blocks_forever:
  assumes "journal_step\<^sup>*\<^sup>* new_journal j" "active_is j (Some k)" "file_of j k = Inr (d, c)" "entry d ''unresolved'' = JBool True"
    and "journal_step\<^sup>*\<^sup>* j j'"
  shows "active_file j' = active_file j \<and> request_files j' = request_files j \<and> sent j' = sent j
    \<and> isl (fst (submit pid creation c' verb answer j')) \<and> isl (fst (assert_idle j'))"
proof -
  have "record_ok k d c" using file_ofD [OF _ assms(3)] reachable_inv [OF assms(1)] by (auto simp: journal_inv_def)
  then have "frozen k d c j j" using assms by (simp add: frozen_def stuck_def)
  then have f: "frozen k d c j j'" using steps_frozen assms(5) by blast
  have "isl (fst (submit pid creation c' verb answer j'))" "isl (fst (assert_idle j'))"
    using f by (rule jvalid_False [OF submit_frozen], rule jvalid_False [OF assert_idle_frozen])
  then show ?thesis using f by (simp add: frozen_def)
qed

theorem unresolved_blocks_forever_witness:
  "\<exists>j. journal_step\<^sup>*\<^sup>* new_journal j \<and> sent j = [example_key] \<and> isl (fst (assert_idle j))
     \<and> isl (fst (submit 4321 99 (FundingCommand example_transfer) None (Inr (FundingReceipt lost_receipt)) j))"
proof -
  obtain j d where j: "journal_step\<^sup>*\<^sup>* new_journal j" "sent j = [example_key]" "active_is j (Some example_key)"
      "file_of j example_key = Inr (d, FundingCommand example_transfer)" "entry d ''unresolved'' = JBool True"
    using lost_journal by blast
  then show ?thesis using unresolved_blocks_forever [OF j(1,3,4,5) rtranclp.rtrancl_refl] by blast
qed

text \<open>C26: A submission does what it says when nothing stands in its way: on a reachable directory with no open
  request and no record of this one, if no write fails and the dispatcher answers with a matching
  receipt, \<open>submit\<close> returns that receipt, the request has been dispatched exactly once more than
  before, and its record holds the encoded command and the answer.\<close>

theorem submit_dispatches:
  assumes "journal_step\<^sup>*\<^sup>* new_journal j" "faults j = []" "fst (pending j) = Inr None"
    and "spend_operation c verb = Inr operation" "spend_codec operation = Inr codec" "spend_command_encode codec c = Inr encoded"
    and "0 < pid" "pid < 2 ^ 32" "0 < creation" "creation < 2 ^ 64"
    and "request_path (command_key c) = Inr path" "map_of (request_files j) path = None"
    and "receipt_matches codec r" "spend_receipt_encode r = Inr raw" "receipt_key r = command_key c" "receipt_owner r = command_owner c"
  shows "\<exists>j' d. submit pid creation c verb (Inr r) j = (Inr r, j') \<and> sent j' = sent j @ [command_key c]
    \<and> file_of j' (command_key c) = Inr (d, c) \<and> entry d ''submission'' = JString (hex_bytes raw)
    \<and> entry d ''unresolved'' = JBool (has_flag (receipt_flags r) UNRESOLVED)
    \<and> (has_flag (receipt_flags r) UNRESOLVED \<longrightarrow> active_is j' (Some (command_key c)))"
  by (rule submit_quiet [OF reachable_inv [OF assms(1)] assms(2-)])

theorem submit_dispatches_witness:
  "\<exists>j' d. submit 4321 99 (FundingCommand example_transfer) None (Inr (FundingReceipt lost_receipt)) new_journal
        = (Inr (FundingReceipt lost_receipt), j')
      \<and> sent j' = [example_key] \<and> file_of j' example_key = Inr (d, FundingCommand example_transfer)"
proof -
  obtain b raw path where e: "spend_command_encode (FundingCodec F_TRANSFER) (FundingCommand example_transfer) = Inr b"
      "spend_receipt_encode (FundingReceipt lost_receipt) = Inr raw" "request_path example_key = Inr path"
    using transfer_encodes lost_receipt_encodes example_path by auto
  then show ?thesis
    using submit_dispatches [OF rtranclp.rtrancl_refl new_journal_idle(2,3) transfer_codec e(1) _ _ _ _ _ new_journal_idle(4)
        lost_facts(1) e(2) lost_facts(2,3), of 4321 99] lost_facts(5) new_journal_idle(5) by auto
qed

definition same_guard :: "navigation_snapshot \<Rightarrow> navigation_snapshot \<Rightarrow> bool" where
  "same_guard a b \<longleftrightarrow> ns_scene b = ns_scene a \<and> ns_root b = ns_root a \<and> ns_manager b = ns_manager a
     \<and> ns_building_id b = ns_building_id a \<and> ns_building_type b = ns_building_type a
     \<and> ns_vendor_id b = ns_vendor_id a \<and> ns_vendor_type b = ns_vendor_type a"

definition same_controls :: "guard_snapshot \<Rightarrow> guard_snapshot \<Rightarrow> bool" where
  "same_controls before after \<longleftrightarrow> ns_building_hud (gs_navigation after) = ns_building_hud (gs_navigation before)
     \<and> ns_vendor_hud (gs_navigation after) = ns_vendor_hud (gs_navigation before)
     \<and> ns_selected_entry (gs_navigation after) = ns_selected_entry (gs_navigation before)
     \<and> gs_upgrade_control after = gs_upgrade_control before \<and> gs_progress_control after = gs_progress_control before"

lemma upgrade_confirmedD:
  assumes "upgrade_confirmed c r"
  shows "observed_for (gc_request_key c) r" "gs_funds (ar_snapshot r) = gs_funds (gc_expected c) - gs_cost (gc_expected c)"
    "same_guard (gs_navigation (gc_expected c)) (gs_navigation (ar_snapshot r))"
    "gs_rank (ar_snapshot r) = gs_rank (gc_expected c) + 1
      \<or> (gs_rank (ar_snapshot r) = gs_rank (gc_expected c) \<and> gs_upgrading (ar_snapshot r) \<noteq> 0 \<and> has_flag (gs_control_flags (ar_snapshot r)) 4)"
    "same_controls (gc_expected c) (ar_snapshot r)
      \<or> (ns_front_hud (gs_navigation (ar_snapshot r)) = ns_vendor_hud (gs_navigation (ar_snapshot r))
         \<and> (has_flag (ar_flags r) REOPENED
            \<or> (ns_mode (gs_navigation (ar_snapshot r)) = 6 \<and> gs_cost (ar_snapshot r) = gs_cost (gc_expected c))))"
proof -
  show "observed_for (gc_request_key c) r" "gs_funds (ar_snapshot r) = gs_funds (gc_expected c) - gs_cost (gc_expected c)"
    "gs_rank (ar_snapshot r) = gs_rank (gc_expected c) + 1
      \<or> (gs_rank (ar_snapshot r) = gs_rank (gc_expected c) \<and> gs_upgrading (ar_snapshot r) \<noteq> 0 \<and> has_flag (gs_control_flags (ar_snapshot r)) 4)"
    using assms unfolding upgrade_confirmed_def Let_def by (elim conjE, assumption | metis)+
  show "same_guard (gs_navigation (gc_expected c)) (gs_navigation (ar_snapshot r))"
    using assms unfolding upgrade_confirmed_def Let_def same_guard_def by (elim conjE) simp
  show "same_controls (gc_expected c) (ar_snapshot r)
      \<or> (ns_front_hud (gs_navigation (ar_snapshot r)) = ns_vendor_hud (gs_navigation (ar_snapshot r))
         \<and> (has_flag (ar_flags r) REOPENED
            \<or> (ns_mode (gs_navigation (ar_snapshot r)) = 6 \<and> gs_cost (ar_snapshot r) = gs_cost (gc_expected c))))"
    using assms unfolding upgrade_confirmed_def Let_def same_controls_def by (elim conjE disjE) simp_all
qed

text \<open>C25: A completed upgrade is backed by evidence: whatever bytes a record file holds, if the journal accepts
  it as a completed upgrade of a guard, then it carries a submission of this request by the same
  host and window that was answered \<open>SUBMITTED\<close>, and a later observation of the transition of this
  very request, neither in flight nor unresolved, of the same guard of the same building in the same scene. Its funds are
  lower by exactly the quoted cost, which had been affordable; its rank is the next one, or the same one with the upgrade running,
  which it was not before, and its progress control showing. It was seen through the windows and controls of the command, or else
  in the guard's own window at the front, which had been reopened or still shows the quoted cost.\<close>

theorem completed_upgrade_evidence:
  assumes "read_record key f = Inr (d, UpgradeCommand c)" "entry d ''completion'' \<noteq> JNull"
  shows "\<exists>s r. spend_receipt_decode (UpgradeCommand c) (entry d ''submission'') = Inr (UpgradeReceipt s)
      \<and> ar_outcome s = SUBMITTED \<and> ar_request_key s = key \<and> ar_host s = gc_host c \<and> ar_window s = gc_window c
    \<and> spend_receipt_decode (UpgradeCommand c) (entry d ''completion'') = Inr (UpgradeReceipt r)
      \<and> ar_outcome r = OBSERVED \<and> ar_transition_request r = Some key \<and> ar_host r = gc_host c \<and> ar_window r = gc_window c
      \<and> gs_funds (ar_snapshot r) = gs_funds (gc_expected c) - gs_cost (gc_expected c)
      \<and> 0 < gs_cost (gc_expected c) \<and> 0 \<le> gs_funds (ar_snapshot r) \<and> gs_funds (gc_expected c) < 2 ^ 31
      \<and> \<not> has_flag (ar_flags r) (IN_FLIGHT OR UNRESOLVED)
      \<and> (gs_rank (ar_snapshot r) = gs_rank (gc_expected c) + 1
         \<or> (gs_rank (ar_snapshot r) = gs_rank (gc_expected c) \<and> gs_upgrading (gc_expected c) = 0
            \<and> gs_upgrading (ar_snapshot r) \<noteq> 0 \<and> has_flag (gs_control_flags (ar_snapshot r)) 4))
      \<and> same_guard (gs_navigation (gc_expected c)) (gs_navigation (ar_snapshot r))
      \<and> (same_controls (gc_expected c) (ar_snapshot r)
         \<or> (ns_front_hud (gs_navigation (ar_snapshot r)) = ns_vendor_hud (gs_navigation (ar_snapshot r))
            \<and> (has_flag (ar_flags r) REOPENED
               \<or> (ns_mode (gs_navigation (ar_snapshot r)) = 6 \<and> gs_cost (ar_snapshot r) = gs_cost (gc_expected c)))))"
proof -
  obtain submission where hdr: "record_command d key = Inr (UpgradeCommand c)"
    and sub: "record_submission d key (UpgradeCommand c) = Inr submission"
    and com: "record_completion d (UpgradeCommand c) submission = Inr ()"
    using assms(1) by (auto simp: read_record_def rbind_eq_Inr)
  from com assms(2) obtain submitted completed where c: "submission = Some submitted" "receipt_outcome submitted = SUBMITTED"
      "spend_receipt_decode (UpgradeCommand c) (entry d ''completion'') = Inr completed"
      "receipt_owner completed = command_owner (UpgradeCommand c)"
      "spend_confirmed (UpgradeCommand c) completed (record_operation d) = Inr True"
    by (auto simp: record_completion_def rbind_eq_Inr split: option.splits if_splits)
  from sub c(1) have s: "spend_receipt_decode (UpgradeCommand c) (entry d ''submission'') = Inr submitted" "receipt_key submitted = key"
      "receipt_owner submitted = command_owner (UpgradeCommand c)"
    by (auto simp: record_submission_def rbind_eq_Inr split: if_splits)
  obtain u r where ur: "submitted = UpgradeReceipt u" "completed = UpgradeReceipt r"
    using s(1) c(3) by (auto simp: rbind_eq_Inr)
  from hdr obtain codec b where k: "spend_codec (record_operation d) = Inr codec"
      "spend_command_encode codec (UpgradeCommand c) = Inr b" "gc_request_key c = key"
    by (rule record_commandD) auto
  then obtain verb where verb: "codec = UpgradeCodec verb" by (cases codec) auto
  have "verb = U_UPGRADE" using k(1) by (auto simp: verb spend_codec_def split: option.splits if_splits)
  then have "guard_eligible (gc_expected c)" "returns (guard_encode (gc_expected c))"
    using k(2) by (auto simp: verb guard_command_encode_def rbind_eq_Inr split: if_splits)
  then have el: "0 < gs_cost (gc_expected c)" "gs_cost (gc_expected c) \<le> gs_funds (gc_expected c)"
      "gs_funds (gc_expected c) < 2 ^ 31" "gs_upgrading (gc_expected c) = 0"
    by (auto simp: guard_eligible_def guard_encode_def invalid_guard_def Let_def rbind_eq_Inr split: if_splits)
  have "upgrade_confirmed c r" using c(5) k(1) by (simp add: spend_confirmed_def verb ur)
  note confirmed = upgrade_confirmedD [OF this, unfolded k(3)]
  show ?thesis using s c el confirmed by (simp add: ur observed_for_def)
qed

theorem completed_upgrade_evidence_witness:
  "\<exists>d r. read_record example_key (Some (Inr (JObject d))) = Inr (d, UpgradeCommand example_upgrade)
     \<and> spend_receipt_decode (UpgradeCommand example_upgrade) (entry d ''completion'') = Inr (UpgradeReceipt r)
     \<and> gs_funds (ar_snapshot r) = gs_funds (gc_expected example_upgrade) - gs_cost (gc_expected example_upgrade)"
  using upgrade_record completed_upgrade_evidence by blast

end
