(* ===== verification/Spec2Isabelle.thy ===== *)
theory Spec2Isabelle
  imports Snapshot_Restore Nav_Smooth Resolve_Depth Damage_Rounding Targeting Condemn_Wire Guard_Ledger
begin

text \<open>
  A verification development for \<^verbatim>\<open>shadowbane-lab\<close>: a Python laboratory around an online game, made of a
  deterministic combat simulator with a versioned agent protocol (\<^verbatim>\<open>sim/\<close>, \<^verbatim>\<open>protocol/\<close>), and of tools that
  drive the running client through a native extension (\<^verbatim>\<open>client_extension/\<close>, \<^verbatim>\<open>manager/\<close>, \<^verbatim>\<open>pve/\<close>). All
  paths below are relative to \<^verbatim>\<open>src/src/shadowbane_lab\<close>.

  \<^bold>\<open>How the program is modelled.\<close> Python functions are HOL functions, dataclasses are records, enums are
  datatypes with their \<open>value\<close>, and a \<^verbatim>\<open>__post_init__\<close> is a validator \<open>..._ok\<close>. An exception is a value of
  \<open>py_error\<close>, so a function that may raise returns \<open>py_error + 'a\<close>, and every \<^verbatim>\<open>raise\<close> of a modelled
  function is a branch. Integers are unbounded as in Python, with the masks and widths of the code
  written out. Text is a list of code points below 256. A float is the rational number it denotes, and float
  operations round to 53 bits (\<open>f64\<close>, without an upper limit on exponents); in the codecs and in the lifecycle,
  whose theorems do not depend on it, the rounding function is an argument. \<^verbatim>\<open>math.hypot\<close> and the compensated \<^verbatim>\<open>sum\<close>
  of floats are arguments (\<open>float_lib\<close>), of which only \<open>hypot_nonneg\<close> is assumed. Checks of the dynamic type of an argument have no counterpart, and messages of exceptions leave out the
  interpolated \<^verbatim>\<open>repr\<close> of values and the texts of \<^verbatim>\<open>uuid.UUID\<close>.

  \<^bold>\<open>The prelude.\<close> \<open>Py_Base\<close> holds the exception monad, guards, text, and the generic lemmas; its
  collections \<open>result_simps\<close> and \<open>raises_intros\<close> carry the proofs about raising code. \<open>Struct_Pack\<close> is the part
  of Python's \<^verbatim>\<open>struct\<close> module the wire formats use. \<open>Lcg_Period\<close> proves the full period of a linear
  congruential generator modulo a power of two.

  \<^bold>\<open>The simulator.\<close>
  \<^item> \<open>Sim_Clock\<close> (\<^verbatim>\<open>sim/clock.py\<close>): the virtual clock, its snapshots, and that virtual time is always ticks
    times duration.
  \<^item> \<open>Sim_Random\<close> (\<^verbatim>\<open>sim/random_source.py\<close>): the random source, written with unbounded integers and masks,
    is PCG-XSH-RR on machine words; it has full period, equally many states give each value of a draw, and the rejection
    loop of \<open>randbelow\<close> (a \<open>partial_function\<close>) always returns, without bias.
  \<^item> \<open>Protocol\<close> and \<open>Protocol_Codec\<close> (\<^verbatim>\<open>protocol/model.py\<close>, \<^verbatim>\<open>validation.py\<close>, \<^verbatim>\<open>codec.py\<close>, the exchange of
    \<^verbatim>\<open>sim/timeline.py\<close>): the messages and their validation, encoding to and decoding from JSON values with
    sorted keys, the round trip, and exactly which exceptions decoding can raise.
  \<^item> \<open>Affiliations\<close> and \<open>Affiliation_Relations\<close> (\<^verbatim>\<open>sim/affiliations.py\<close>): groups, ownership, overrides, the
    validation of a snapshot against a declarative specification, termination of ownership walks,
    totality, symmetry and precedence of relations, and the compilation of legacy teams.
  \<^item> \<open>Affiliation_IO\<close> (\<^verbatim>\<open>sim/affiliation_io.py\<close>): the canonical interchange form, its strict reader, the round
    trip to canonical form, and that it depends on the content only.
  \<^item> \<open>Targeting\<close> (\<^verbatim>\<open>sim/targeting.py\<close>): selectors, exclusion reasons, ordering and the cap of targets.
  \<^item> \<open>Py_Float\<close>: \<^verbatim>\<open>round\<close>, \<^verbatim>\<open>int\<close> and the rounding of binary64 and binary32; the locale \<open>float_rounding\<close> carries what every
    rounding satisfies (monotone, idempotent, exact on small integers), and both are interpretations.
  \<^item> \<open>Combat_Formulas\<close> and \<open>Sim_Damage\<close> (\<^verbatim>\<open>combat/formulas.py\<close>, \<^verbatim>\<open>sim/damage.py\<close>, \<^verbatim>\<open>sim/outcomes.py\<close>): hit chances,
    resistances and the values that pass between the stages of damage.
  \<^item> \<open>Sim_Actions\<close>, \<open>Sim_State\<close> and \<open>Sim_Lifecycle\<close> (\<^verbatim>\<open>sim/actions.py\<close>, \<^verbatim>\<open>sim/state.py\<close>, \<^verbatim>\<open>sim/lifecycle.py\<close>,
    \<^verbatim>\<open>sim/timeline.py\<close>): effects, triggers, phases and actions with the checks of their constructors, the catalog,
    entities with their effects and snapshots, executions and scheduled work.
  \<^item> \<open>Sim_Environment\<close> (\<^verbatim>\<open>sim/environment.py\<close>): the environment as a record, and its operations: events, the schedule, starting
    an action, phases, completion, interruption, snapshots and construction.
  \<^item> \<open>Sim_Frame\<close> and \<open>Sim_Timeline\<close>: the lifecycle as a step relation \<open>env_step\<close> with the operations of the environment as its
    rules, and its invariants by rule induction: the schedule is a priority queue (locale \<open>due_queue\<close>), executions persist
    and only move forward, an ended execution stays ended, the work an interrupted one left is dead except for released
    projectiles, and a live one always has the work that moves it on. The last needs names without a colon: cancel tokens that
    collide lose the work of a live execution, which is proved as well. The steps are those of a running
    environment; \<open>Snapshot_Restore\<close> treats restoring and resetting.
  \<^item> \<open>Effect_Monad\<close> and \<open>Sim_Effects\<close> (\<^verbatim>\<open>sim/effects.py\<close>): the executor. A method is an action on the pair of environment and
    events that may raise; an object the code mutates is read again at every access, and the identity of an active effect
    is its instance id. Resolution calls itself through triggers whose payloads are direct effects only, so the depth of
    the recursion, an argument, is two; \<open>Resolve_Depth\<close> proves that a larger one changes nothing.
  \<^item> \<open>Sim_Affordances\<close> and \<open>Sim_Step\<close> (\<^verbatim>\<open>sim/affordances.py\<close>, \<^verbatim>\<open>step\<close> and \<^verbatim>\<open>_process_due\<close> of \<^verbatim>\<open>sim/environment.py\<close>): what an agent
    observes and may do, the admission of decisions, and a whole step; the loop over due work is a
    \<open>partial_function\<close>.
  \<^item> \<open>Entity_Frame\<close>, \<open>Effect_Frame\<close>, \<open>World_Frame\<close> and \<open>Step_Run\<close>: a Hoare-style logic for the executor. \<open>pres I m Q\<close> says that the
    action \<open>m\<close> keeps the invariant \<open>I\<close>; the locale \<open>executor_host\<close> states what the callbacks of a host promise, and proves
    that every method of the executor keeps an invariant its callbacks keep. The environment is an interpretation of it:
    its callbacks are lifecycle steps, keep the world sound, and schedule work in the future only. Every round of the
    loop over due work decreases the work that is left in a multiset order.
  \<^item> \<open>Simulation\<close>: the composition. Every environment a client reaches by constructing and stepping is reached by the
    lifecycle, every step returns, settles the work of its tick and advances the clock by one, no action of a living actor
    falls behind its timeline, and entities stay valid forever. \<open>Damage_Rounding\<close> runs the model on an input for which the rounding of absorbed damage raises.
  \<^item> \<open>Snapshot_Restore\<close>: a snapshot of any state of a simulation is accepted in any other and is then its snapshot, and a
    reset gives the same environment whatever was played.

  \<^bold>\<open>The traveller.\<close>
  \<^item> \<open>Nav_Grid\<close> (\<^verbatim>\<open>travel/pathfinding.py\<close>, first half): cells, the sparse map of walls, collisions and terrain with its operations and
    invariant, the grid one search sees, which blocks exactly the cells within the clearance of an obstacle, and the
    refinement of a map, which invents neither gaps in known walls nor walls, whether terrain is inherited or sampled
    again. The samplers of terrain are an argument; what is used of them is that they only mark and price terrain.
  \<^item> \<open>Nav_Search\<close> and \<open>Nav_Astar\<close> (\<open>_search\<close> and what it calls): the bounded weighted A* search. It always returns; a returned
    path is a sequence of legal moves, a failure means that the budget ran out or that there is no such sequence, and
    without rounding the cost is within the heuristic weight of the best.
  \<^item> \<open>Nav_Smooth\<close> (\<open>_smooth\<close>, \<open>_shortcut_preserves_cost\<close>, \<open>_line_cost\<close>): the shortcuts of a found path. The line between two cells, a
    loop without a bound in the code, ends; a smoothed path keeps its ends and can be walked at no more than its cost.

  \<^bold>\<open>The native client.\<close>
  \<^item> \<open>Wire_Base\<close> (\<^verbatim>\<open>client_extension/movement_wire.py\<close>, in part): checked integers, request keys, tokens, hosts
    and grants. Its locale \<open>wire_codec\<close> is the contract of every codec: encoding and decoding are inverse
    partial functions between well-formed values and byte strings of a fixed size. Every format is
    an interpretation of it.
  \<^item> \<open>Vendor_Wire\<close>, \<open>Condemn_Wire\<close>, \<open>Navigation_Wire\<close>, \<open>Guard_Wire\<close> and \<open>Funding_Wire\<close> (\<^verbatim>\<open>vendor_wire.py\<close>,
    \<^verbatim>\<open>condemn_wire.py\<close>, \<^verbatim>\<open>vendor_navigation_wire.py\<close>, \<^verbatim>\<open>guard_upgrade_wire.py\<close>, \<^verbatim>\<open>guard_funding_wire.py\<close>): the
    formats, byte for byte, with what confirms a command. \<open>Receipt_Wire\<close> holds what the last three
    share, in the locales \<open>flat_snapshot\<close> and \<open>receipt_codec\<close>.
  \<^item> \<open>Guard_Journal\<close> and \<open>Guard_Ledger\<close> (\<^verbatim>\<open>guard_spending_journal.py\<close>): the durable journal of actions that spend
    gold. Operations are transformers of a directory that may fail between any two effects; the
    locale \<open>durable\<close> carries the proof that an invariant survives every failure. The journal sends
    no request twice and none while another is open, implements an abstract ledger, can read back
    what it wrote, and is blocked for good by an unresolved request.

  \<^bold>\<open>Bounds and termination.\<close> All functions are total except \<open>randbelow_loop\<close>, \<open>process_due\<close>, \<open>reconstruct\<close>, \<open>line_loop\<close> and the walks over
  ownership, which are \<open>partial_function\<close>s or carry termination proofs; that they return is proved. Wire integers
  are bounded by the widths of their layouts, funds and balances by 31 bits as in the code.

  \<^bold>\<open>Not modelled.\<close> The text of JSON documents (only its values, and the reordering of keys that
  \<^verbatim>\<open>sort_keys\<close> does), SHA-256 digests, infinities and NaN (the constructors reject them; a float that overflows is not
  represented; where the code calls \<^verbatim>\<open>float\<close> on an integer, the \<open>OverflowError\<close> is, but not where arithmetic converts an
  integer operand in the features of affordances and in cooldowns), the record lock and the size bound of journal files (records are
  far below it), the path checks of the journal's constructor, threads and shared memory of the
  native channel, process supervision, user interfaces, image tools, the planning methods around the A* search and the controllers that
  follow its routes, the compilation of
  rulesets, equipment and progression data into actions and entities, the rollouts that drive the environment, and the
  remaining wire formats.
\<close>

text \<open>C40: the messages of the native actions travel losslessly and canonically. For vendor snapshots, Condemn
  commands and receipts, and the commands and receipts of navigation, guard upgrades and guard
  funding, a value decodes from a byte string exactly when it encodes to it, for every verb.\<close>

theorem action_wire_codecs:
  "(vendor_snapshot_decode bs = Inr vs \<longleftrightarrow> vendor_snapshot_encode vs = Inr bs)
   \<and> (condemn_command_decode bs cv = Inr cc \<longleftrightarrow> command_wf cc \<and> condemn_command_encode cc cv = Inr bs)
   \<and> (condemn_receipt_decode bs = Inr cr \<longleftrightarrow> condemn_receipt_encode cr = Inr bs)
   \<and> (navigation_command_decode bs nv = Inr nc \<longleftrightarrow> navigation_command_encode nc nv = Inr bs)
   \<and> (receipt_decode navigation_format bs = Inr nr \<longleftrightarrow> receipt_encode navigation_format nr = Inr bs)
   \<and> (guard_command_decode bs gv = Inr gc \<longleftrightarrow> guard_command_encode gc gv = Inr bs)
   \<and> (receipt_decode upgrade_format bs = Inr gr \<longleftrightarrow> receipt_encode upgrade_format gr = Inr bs)
   \<and> (funding_command_decode bs fv = Inr fc \<longleftrightarrow> funding_command_encode fc fv = Inr bs)
   \<and> (receipt_decode funding_format bs = Inr fr \<longleftrightarrow> receipt_encode funding_format fr = Inr bs)"
  by (simp add: vendor_snapshot_codec condemn_command_codec condemn_receipt_codec navigation_codec upgrade_codec funding_codec)

end
